(* ===== verification/Prelude.thy ===== *)
theory Prelude
  imports Main "HOL-Library.Sublist" "HOL-Library.Multiset" "HOL-Library.Char_ord" "HOL-Library.List_Lexorder"
begin

text \<open>
  What every component of the model shares: the JavaScript string and array operations the client
  uses, written as executable functions on lists; the lemma collections the component theories
  extend; and two contracts on lists of records, stated as locales, that the stores instantiate
  with their own keys and updates.

  Strings are Isabelle strings. A character stands for one UTF-16 code unit below 256, so the
  model covers the Latin-1 alphabet; case mapping, white space and code-unit order are exact on it.
\<close>

section \<open>Lemma collections\<close>

named_theorems op_defs \<open>unfoldings of a component's operations\<close>
named_theorems inv_intros \<open>introduction rules for a component's invariant\<close>

section \<open>Strings\<close>

type_synonym str = string

definition char_code :: "char \<Rightarrow> nat" where
  "char_code c = of_char c"

lemma char_code_inj [simp]: "char_code a = char_code b \<longleftrightarrow> a = b"
  by (simp add: char_code_def)

lemma char_code_less_256: "char_code c < 256"
  unfolding char_code_def using nat_of_char_less_256 by simp

text \<open>The code units \<open>String.prototype.trim\<close> and the class \<open>\s\<close> treat as white space.\<close>
definition is_space :: "char \<Rightarrow> bool" where
  "is_space c = (let n = char_code c in 9 \<le> n \<and> n \<le> 13 \<or> n = 32 \<or> n = 160)"

definition trim :: "str \<Rightarrow> str" where
  "trim s = rev (dropWhile is_space (rev (dropWhile is_space s)))"

definition lower_char :: "char \<Rightarrow> char" where
  "lower_char c = (let n = char_code c in
     if 65 \<le> n \<and> n \<le> 90 \<or> 192 \<le> n \<and> n \<le> 222 \<and> n \<noteq> 215 then char_of (n + 32) else c)"

definition to_lower :: "str \<Rightarrow> str" where
  "to_lower s = List.map lower_char s"

definition is_digit :: "char \<Rightarrow> bool" where
  "is_digit c = (48 \<le> char_code c \<and> char_code c \<le> 57)"

definition is_hex_digit :: "char \<Rightarrow> bool" where
  "is_hex_digit c = (let n = char_code c in
     48 \<le> n \<and> n \<le> 57 \<or> 97 \<le> n \<and> n \<le> 102 \<or> 65 \<le> n \<and> n \<le> 70)"

definition is_alpha :: "char \<Rightarrow> bool" where
  "is_alpha c = (let n = char_code c in 97 \<le> n \<and> n \<le> 122 \<or> 65 \<le> n \<and> n \<le> 90)"

definition starts_with :: "str \<Rightarrow> str \<Rightarrow> bool" where
  "starts_with p s = (take (length p) s = p)"

definition ends_with :: "str \<Rightarrow> str \<Rightarrow> bool" where
  "ends_with p s = starts_with (rev p) (rev s)"

fun includes_sub :: "str \<Rightarrow> str \<Rightarrow> bool" where
  "includes_sub p [] = (p = [])"
| "includes_sub p (c # s) = (starts_with p (c # s) \<or> includes_sub p s)"

lemma starts_with_prefix: "starts_with p s \<longleftrightarrow> prefix p s"
  by (auto simp: starts_with_def prefix_def) (metis append_take_drop_id)

lemma starts_with_append [simp]: "starts_with p (p @ s)"
  by (simp add: starts_with_def)

lemma starts_withD: "starts_with p s \<Longrightarrow> s = p @ drop (length p) s"
  by (metis starts_with_def append_take_drop_id)

lemma ends_with_suffix: "ends_with p s \<longleftrightarrow> suffix p s"
  by (simp add: ends_with_def starts_with_prefix suffix_to_prefix)

lemma includes_sub_sublist: "includes_sub p s \<longleftrightarrow> sublist p s"
  by (induction s) (auto simp: starts_with_prefix sublist_Cons_right)

text \<open>\<open>s.split(c)\<close> for a one-character separator.\<close>
fun split_on :: "char \<Rightarrow> str \<Rightarrow> str list" where
  "split_on c [] = [[]]"
| "split_on c (x # s) = (if x = c then [] # split_on c s
     else (case split_on c s of [] \<Rightarrow> [[x]] | w # ws \<Rightarrow> (x # w) # ws))"

text \<open>\<open>xs.join(sep)\<close>.\<close>
fun join_with :: "str \<Rightarrow> str list \<Rightarrow> str" where
  "join_with sep [] = []"
| "join_with sep [s] = s"
| "join_with sep (s # t # ts) = s @ sep @ join_with sep (t # ts)"

lemma split_on_nonempty [simp]: "split_on c s \<noteq> []"
  by (cases s) (auto split: list.splits)

lemma split_on_free: "w \<in> set (split_on c s) \<Longrightarrow> c \<notin> set w"
  by (induction s arbitrary: w) (auto split: if_splits list.splits)

lemma join_with_cons: "ts \<noteq> [] \<Longrightarrow> join_with sep (s # ts) = s @ sep @ join_with sep ts"
  by (cases ts) auto

lemma split_free: "c \<notin> set s \<Longrightarrow> split_on c s = [s]"
  by (induction s) auto

lemma split_free_append: "c \<notin> set s \<Longrightarrow> split_on c (s @ c # r) = s # split_on c r"
  by (induction s) auto

lemma join_split_on [simp]: "join_with [c] (split_on c s) = s"
proof (induction s)
  case (Cons x s)
  then show ?case
    by (cases "split_on c s"; cases "tl (split_on c s)") (auto simp: join_with_cons)
qed simp

lemma split_join: "xs \<noteq> [] \<Longrightarrow> \<forall>x \<in> set xs. c \<notin> set x \<Longrightarrow> split_on c (join_with [c] xs) = xs"
proof (induction xs)
  case (Cons x xs)
  then show ?case by (cases xs) (simp_all add: split_free split_free_append)
qed simp

text \<open>Decimal text of an integer, as template literals and \<open>String(n)\<close> print it.\<close>
definition digit_char :: "nat \<Rightarrow> char" where
  "digit_char d = char_of (48 + d)"

fun nat_text :: "nat \<Rightarrow> str" where
  "nat_text n = (if n < 10 then [digit_char n] else nat_text (n div 10) @ [digit_char (n mod 10)])"

declare nat_text.simps [simp del]

definition int_text :: "int \<Rightarrow> str" where
  "int_text i = (if i < 0 then CHR ''-'' # nat_text (nat (- i)) else nat_text (nat i))"

section \<open>Arrays\<close>

text \<open>\<open>xs.find(p)\<close> is \<^const>\<open>List.find\<close>; \<open>xs.findIndex(p)\<close>, with \<^const>\<open>None\<close> for -1.\<close>
fun find_index :: "('a \<Rightarrow> bool) \<Rightarrow> 'a list \<Rightarrow> nat option" where
  "find_index p [] = None"
| "find_index p (x # xs) = (if p x then Some 0 else map_option Suc (find_index p xs))"

lemma find_index_None: "find_index p xs = None \<longleftrightarrow> (\<forall>x \<in> set xs. \<not> p x)"
  by (induction xs) auto

lemma find_index_Some:
  "find_index p xs = Some i \<Longrightarrow> i < length xs \<and> p (xs ! i) \<and> (\<forall>j < i. \<not> p (xs ! j))"
proof (induction xs arbitrary: i)
  case (Cons x xs)
  show ?case
  proof (cases "p x")
    case False
    then obtain k where k: "find_index p xs = Some k" "i = Suc k" using Cons.prems by auto
    show ?thesis using Cons.IH[OF k(1)] k(2) False
      by (auto simp: nth_Cons split: nat.splits)
  qed (use Cons.prems in auto)
qed simp

text \<open>\<open>xs.splice(i, 1)\<close> and \<open>xs.splice(j, 0, x)\<close>.\<close>
definition remove_at :: "nat \<Rightarrow> 'a list \<Rightarrow> 'a list" where
  "remove_at i xs = take i xs @ drop (Suc i) xs"

definition insert_at :: "nat \<Rightarrow> 'a \<Rightarrow> 'a list \<Rightarrow> 'a list" where
  "insert_at j x xs = take j xs @ x # drop j xs"

lemma mset_remove_at: "i < length xs \<Longrightarrow> add_mset (xs ! i) (mset (remove_at i xs)) = mset xs"
proof -
  assume "i < length xs"
  then have "xs = take i xs @ xs ! i # drop (Suc i) xs" by (simp add: id_take_nth_drop)
  then have "mset xs = mset (take i xs @ xs ! i # drop (Suc i) xs)" by simp
  then show ?thesis by (simp add: remove_at_def)
qed

lemma mset_insert_at: "mset (insert_at j x xs) = add_mset x (mset xs)"
proof -
  have "mset xs = mset (take j xs @ drop j xs)" by simp
  then show ?thesis unfolding insert_at_def mset_append by simp
qed

lemma length_remove_at: "i < length xs \<Longrightarrow> length (remove_at i xs) = length xs - 1"
  by (simp add: remove_at_def)

lemma nth_insert_at: "j \<le> length xs \<Longrightarrow> insert_at j x xs ! j = x"
  by (simp add: insert_at_def nth_append)

lemma filter_insert_at: "\<not> P x \<Longrightarrow> filter P (insert_at j x xs) = filter P xs"
proof -
  assume "\<not> P x"
  then have "filter P (insert_at j x xs) = filter P (take j xs @ drop j xs)"
    unfolding insert_at_def filter_append by simp
  then show ?thesis by simp
qed

lemma filter_remove_at: "i < length xs \<Longrightarrow> \<not> P (xs ! i) \<Longrightarrow> filter P (remove_at i xs) = filter P xs"
proof -
  assume i: "i < length xs" and p: "\<not> P (xs ! i)"
  have "filter P xs = filter P (take i xs @ xs ! i # drop (Suc i) xs)" using i by (simp add: id_take_nth_drop[symmetric])
  then show ?thesis using p by (simp add: remove_at_def)
qed

lemma find_SomeD: "find p xs = Some x \<Longrightarrow> x \<in> set xs \<and> p x"
  by (auto simp: find_Some_iff in_set_conv_nth)

lemma find_None: "find p xs = None \<longleftrightarrow> (\<forall>x \<in> set xs. \<not> p x)"
  by (auto simp: find_None_iff)

lemma find_append_Nil: "find p xs = None \<Longrightarrow> find p (xs @ ys) = find p ys"
  by (induction xs) (auto split: if_splits)

lemma find_Some_unique:
  "x \<in> set xs \<Longrightarrow> p x \<Longrightarrow> (\<And>y. y \<in> set xs \<Longrightarrow> p y \<Longrightarrow> y = x) \<Longrightarrow> find p xs = Some x"
  by (metis find_SomeD find_None not_None_eq)

lemma distinct_map_filter: "distinct (map f xs) \<Longrightarrow> distinct (map f (filter p xs))"
  by (induction xs) auto

section \<open>Lists of records with a key\<close>

text \<open>
  \<open>update_by key k f xs\<close> is the stores' \<open>xs.map((x) => x.id === k ? f(x) : x)\<close>,
  \<open>drop_by key k xs\<close> their \<open>xs.filter((x) => x.id !== k)\<close> and \<open>find_by key k xs\<close>
  their \<open>xs.find((x) => x.id === k)\<close>.
\<close>

definition update_by :: "('a \<Rightarrow> 'k) \<Rightarrow> 'k \<Rightarrow> ('a \<Rightarrow> 'a) \<Rightarrow> 'a list \<Rightarrow> 'a list" where
  "update_by key k f xs = map (\<lambda>x. if key x = k then f x else x) xs"

definition drop_by :: "('a \<Rightarrow> 'k) \<Rightarrow> 'k \<Rightarrow> 'a list \<Rightarrow> 'a list" where
  "drop_by key k xs = filter (\<lambda>x. key x \<noteq> k) xs"

definition find_by :: "('a \<Rightarrow> 'k) \<Rightarrow> 'k \<Rightarrow> 'a list \<Rightarrow> 'a option" where
  "find_by key k xs = find (\<lambda>x. key x = k) xs"

lemma update_by_cong:
  "xs = ys \<Longrightarrow> (\<And>x. x \<in> set ys \<Longrightarrow> key x = k \<Longrightarrow> f x = g x) \<Longrightarrow> update_by key k f xs = update_by key k g ys"
  by (auto simp: update_by_def)

lemma find_by_simps [simp]:
  "find_by key k [] = None"
  "find_by key k (x # xs) = (if key x = k then Some x else find_by key k xs)"
  by (simp_all add: find_by_def)

lemma find_by_None: "find_by key k xs = None \<longleftrightarrow> k \<notin> key ` set xs"
  by (induction xs) auto

lemma find_by_SomeD: "find_by key k xs = Some x \<Longrightarrow> x \<in> set xs \<and> key x = k"
  by (induction xs) (auto split: if_splits)

lemma find_by_append:
  "find_by key k (xs @ ys) = (case find_by key k xs of None \<Rightarrow> find_by key k ys | Some x \<Rightarrow> Some x)"
  by (induction xs) auto

lemma find_by_drop_by: "find_by key k (drop_by key k' xs) = (if k = k' then None else find_by key k xs)"
  by (induction xs) (auto simp: drop_by_def)

lemma drop_by_absent: "k \<notin> key ` set xs \<Longrightarrow> drop_by key k xs = xs"
  by (auto simp: drop_by_def filter_id_conv)

lemma set_drop_by: "set (drop_by key k xs) = {x \<in> set xs. key x \<noteq> k}"
  by (auto simp: drop_by_def)

lemma distinct_keys_drop_by: "distinct (map key xs) \<Longrightarrow> distinct (map key (drop_by key k xs))"
  by (simp add: drop_by_def distinct_map_filter)

text \<open>
  The contract of a store's record update: patching a record never changes the field the store
  finds it by. Everything a store's \<open>map\<close>-update promises follows from it.
\<close>

locale keyed_patch =
  fixes key :: "'a \<Rightarrow> 'k" and patch :: "'p \<Rightarrow> 'a \<Rightarrow> 'a"
  assumes key_patch: "key (patch p x) = key x"
begin

lemma keys_update: "map key (update_by key k (patch p) xs) = map key xs"
  by (simp add: update_by_def key_patch)

lemma distinct_update: "distinct (map key (update_by key k (patch p) xs)) = distinct (map key xs)"
  by (simp only: keys_update)

lemma find_update:
  "find_by key k' (update_by key k (patch p) xs) =
     (if k' = k then map_option (patch p) (find_by key k' xs) else find_by key k' xs)"
  by (induction xs) (auto simp: update_by_def key_patch)

lemma update_absent: "k \<notin> key ` set xs \<Longrightarrow> update_by key k (patch p) xs = xs"
  by (induction xs) (auto simp: update_by_def)

lemma set_update_others:
  "key x \<noteq> k \<Longrightarrow> x \<in> set (update_by key k (patch p) xs) \<longleftrightarrow> x \<in> set xs"
  by (auto simp: update_by_def key_patch)

end

end
