(* ===== verification/Watchdog.thy ===== *)
theory Watchdog
  imports Prelude Complex_Main
begin

text \<open>
  The voice health watchdog, \<open>client/src/voice/voiceHealthWatchdog.ts\<close>: the pure evaluator of one
  track (\<open>evaluateTrackHealth\<close>) and the mounted class around it (start, stop, forget and the tick
  that samples the room, evaluates every track, runs the actions and drops dead tracks).
  LiveKit's room is data: what \<open>collectSamples\<close> reads of it. The calls the watchdog makes on it
  are recorded in order. The \<open>await\<close>s inside a tick are not interleaved with other operations.
\<close>

section \<open>Data\<close>

definition WATCHDOG_SAMPLE_INTERVAL_MS :: int where "WATCHDOG_SAMPLE_INTERVAL_MS = 2000"
definition WATCHDOG_STALE_AFTER_MS :: int where "WATCHDOG_STALE_AFTER_MS = 5000"
definition WATCHDOG_L2_AFTER_MS :: int where "WATCHDOG_L2_AFTER_MS = 5000"

lemmas watchdog_consts = WATCHDOG_SAMPLE_INTERVAL_MS_def WATCHDOG_STALE_AFTER_MS_def WATCHDOG_L2_AFTER_MS_def

record TrackHealthSample =
  ths_publicationSid :: str
  ths_participantIdentity :: str
  ths_bytesReceived :: int
  ths_jitter :: "real option"
  ths_packetsLost :: "int option"
  ths_sampleAtMs :: int

record TrackHealthState =
  thst_publicationSid :: str
  thst_participantIdentity :: str
  lastProgressMs :: int
  lastBytesReceived :: int
  lastL1AttemptMs :: "int option"
  lastL2AttemptMs :: "int option"

datatype WatchdogAction =
    WNoop
  | RestartSubscription str str
  | ReconnectRoom str

section \<open>The evaluator\<close>

definition stall_reason :: "str \<Rightarrow> int \<Rightarrow> str" where
  "stall_reason sid ms = ''track '' @ sid @ '' stalled '' @ int_text ms @ ''ms after L1 restart''"

definition evaluateTrackHealth ::
  "TrackHealthState option \<Rightarrow> TrackHealthSample \<Rightarrow> TrackHealthState \<times> WatchdogAction" where
  "evaluateTrackHealth prev0 s = (case prev0 of
     None \<Rightarrow>
       (\<lparr>thst_publicationSid = ths_publicationSid s,
         thst_participantIdentity = ths_participantIdentity s,
         lastProgressMs = ths_sampleAtMs s, lastBytesReceived = ths_bytesReceived s,
         lastL1AttemptMs = None, lastL2AttemptMs = None\<rparr>, WNoop)
   | Some prev \<Rightarrow>
       if ths_bytesReceived s > lastBytesReceived prev then
         (prev\<lparr>lastProgressMs := ths_sampleAtMs s, lastBytesReceived := ths_bytesReceived s,
               lastL1AttemptMs := None, lastL2AttemptMs := None\<rparr>, WNoop)
       else
         let stallMs = ths_sampleAtMs s - lastProgressMs prev in
         if stallMs < WATCHDOG_STALE_AFTER_MS then (prev, WNoop)
         else (case lastL1AttemptMs prev of
             None \<Rightarrow> (prev\<lparr>lastL1AttemptMs := Some (ths_sampleAtMs s)\<rparr>,
                       RestartSubscription (ths_publicationSid s) (ths_participantIdentity s))
           | Some l1 \<Rightarrow>
               if ths_sampleAtMs s - l1 \<ge> WATCHDOG_L2_AFTER_MS \<and> lastL2AttemptMs prev = None
               then (prev\<lparr>lastL2AttemptMs := Some (ths_sampleAtMs s)\<rparr>,
                     ReconnectRoom (stall_reason (ths_publicationSid s) stallMs))
               else (prev, WNoop)))"

section \<open>The room, as the sampler reads it\<close>

record RtcStat =
  stat_type :: str
  stat_bytes :: "int option"
  stat_jitter :: "real option"
  stat_lost :: "int option"

text \<open>What \<open>track.receiver?.getStats()\<close> gives: no receiver, a thrown error, or a report.\<close>
datatype track_receiver = NoReceiver | StatsThrow | StatsReport "RtcStat list"

record AudioPublication =
  pub_isAudio :: bool
  pub_isSubscribed :: bool
  pub_isMuted :: bool
  pub_trackSid :: str
  pub_track :: "track_receiver option"

record Remote =
  rp_identity :: str
  rp_audioPubs :: "AudioPublication list"

type_synonym Room = "Remote list"

record ReceiverStats =
  rs_bytesReceived :: int
  rs_jitter :: "real option"
  rs_packetsLost :: "int option"

definition statStep :: "RtcStat \<Rightarrow> ReceiverStats \<Rightarrow> ReceiverStats" where
  "statStep s r = (if stat_type s = ''inbound-rtp'' then
     \<lparr>rs_bytesReceived = (case stat_bytes s of Some b \<Rightarrow> b | None \<Rightarrow> rs_bytesReceived r),
      rs_jitter = (case stat_jitter s of Some j \<Rightarrow> Some j | None \<Rightarrow> rs_jitter r),
      rs_packetsLost = (case stat_lost s of Some l \<Rightarrow> Some l | None \<Rightarrow> rs_packetsLost r)\<rparr> else r)"

fun safeGetReceiverStats :: "track_receiver \<Rightarrow> ReceiverStats option" where
  "safeGetReceiverStats NoReceiver = None"
| "safeGetReceiverStats StatsThrow = None"
| "safeGetReceiverStats (StatsReport rep) =
     Some (fold statStep rep \<lparr>rs_bytesReceived = 0, rs_jitter = None, rs_packetsLost = None\<rparr>)"

definition samplePub :: "str \<Rightarrow> AudioPublication \<Rightarrow> TrackHealthSample list" where
  "samplePub ident p =
     (if \<not> pub_isAudio p then [] else if \<not> pub_isSubscribed p then [] else if pub_isMuted p then []
      else (case pub_track p of None \<Rightarrow> []
        | Some t \<Rightarrow> (case safeGetReceiverStats t of None \<Rightarrow> []
          | Some st \<Rightarrow> [\<lparr>ths_publicationSid = pub_trackSid p, ths_participantIdentity = ident,
              ths_bytesReceived = rs_bytesReceived st, ths_jitter = rs_jitter st,
              ths_packetsLost = rs_packetsLost st, ths_sampleAtMs = 0\<rparr>])))"

definition collectSamples :: "Room \<Rightarrow> TrackHealthSample list" where
  "collectSamples room = concat (map (\<lambda>r. concat (map (samplePub (rp_identity r)) (rp_audioPubs r))) room)"

section \<open>The mounted watchdog\<close>

datatype RoomCall =
    OnAction WatchdogAction
  | SetSubscribed str bool
  | RoomDisconnect

record VoiceHealthWatchdog =
  wd_states :: "str \<Rightarrow> TrackHealthState option"
  wd_timer :: bool
  wd_calls :: "RoomCall list"

definition newWatchdog :: VoiceHealthWatchdog where
  "newWatchdog = \<lparr>wd_states = Map.empty, wd_timer = False, wd_calls = []\<rparr>"

definition startWatchdog :: "VoiceHealthWatchdog \<Rightarrow> VoiceHealthWatchdog" where
  "startWatchdog w = (if wd_timer w then w else w\<lparr>wd_timer := True\<rparr>)"

definition stopWatchdog :: "VoiceHealthWatchdog \<Rightarrow> VoiceHealthWatchdog" where
  "stopWatchdog w = (if wd_timer w then w\<lparr>wd_timer := False\<rparr> else w)\<lparr>wd_states := Map.empty\<rparr>"

definition forget :: "str \<Rightarrow> VoiceHealthWatchdog \<Rightarrow> VoiceHealthWatchdog" where
  "forget sid w = w\<lparr>wd_states := (wd_states w)(sid := None)\<rparr>"

text \<open>The calls of \<open>executeAction\<close>; \<open>onAction\<close> comes first, a missing publication is skipped.\<close>
fun executeAction :: "Room \<Rightarrow> WatchdogAction \<Rightarrow> RoomCall list" where
  "executeAction room WNoop = [OnAction WNoop]"
| "executeAction room (RestartSubscription sid ident) =
     OnAction (RestartSubscription sid ident) #
     (case find_by rp_identity ident room of None \<Rightarrow> []
      | Some r \<Rightarrow> (case find_by pub_trackSid sid (rp_audioPubs r) of None \<Rightarrow> []
        | Some p \<Rightarrow> [SetSubscribed sid False, SetSubscribed sid True]))"
| "executeAction room (ReconnectRoom reason) = [OnAction (ReconnectRoom reason), RoomDisconnect]"

definition tickSample :: "Room \<Rightarrow> int \<Rightarrow> TrackHealthSample \<Rightarrow> VoiceHealthWatchdog \<Rightarrow> VoiceHealthWatchdog" where
  "tickSample room now s w =
     (let (nx, act) = evaluateTrackHealth (wd_states w (ths_publicationSid s)) (s\<lparr>ths_sampleAtMs := now\<rparr>)
      in w\<lparr>wd_states := (wd_states w)(ths_publicationSid s \<mapsto> nx),
           wd_calls := wd_calls w @ (if act = WNoop then [] else executeAction room act)\<rparr>)"

definition tick :: "Room \<Rightarrow> int \<Rightarrow> VoiceHealthWatchdog \<Rightarrow> VoiceHealthWatchdog" where
  "tick room now w =
     (let samples = collectSamples room;
          w1 = fold (tickSample room now) samples w;
          liveSids = ths_publicationSid ` set samples
      in w1\<lparr>wd_states := (\<lambda>sid. if sid \<in> liveSids then wd_states w1 sid else None)\<rparr>)"

section \<open>One track under a stream of samples\<close>

fun trackAfter :: "TrackHealthState option \<Rightarrow> TrackHealthSample list \<Rightarrow> TrackHealthState option" where
  "trackAfter h [] = h"
| "trackAfter h (s # ss) = trackAfter (Some (fst (evaluateTrackHealth h s))) ss"

fun watchTrack :: "TrackHealthState option \<Rightarrow> TrackHealthSample list \<Rightarrow> WatchdogAction list" where
  "watchTrack h [] = []"
| "watchTrack h (s # ss) = snd (evaluateTrackHealth h s) # watchTrack (Some (fst (evaluateTrackHealth h s))) ss"

lemma trackAfter_append: "trackAfter h (xs @ ys) = trackAfter (trackAfter h xs) ys"
  by (induction xs arbitrary: h) auto

lemma watchTrack_append: "watchTrack h (xs @ ys) = watchTrack h xs @ watchTrack (trackAfter h xs) ys"
  by (induction xs arbitrary: h) auto

lemma length_watchTrack [simp]: "length (watchTrack h ss) = length ss"
  by (induction ss arbitrary: h) auto

text \<open>The outcomes of the evaluator, one per row of its decision table.\<close>
lemma evaluate_cases:
  assumes "evaluateTrackHealth prev s = (n, a)"
  obtains (fresh) "prev = None" "a = WNoop"
      "lastL1AttemptMs n = None" "lastL2AttemptMs n = None"
  | (progress) p where "prev = Some p" "a = WNoop" "ths_bytesReceived s > lastBytesReceived p"
      "lastL1AttemptMs n = None" "lastL2AttemptMs n = None"
  | (quiet) p where "prev = Some p" "a = WNoop" "n = p"
  | (l1) p where "prev = Some p" "lastL1AttemptMs p = None"
      "ths_sampleAtMs s \<ge> lastProgressMs p + WATCHDOG_STALE_AFTER_MS"
      "n = p\<lparr>lastL1AttemptMs := Some (ths_sampleAtMs s)\<rparr>"
      "a = RestartSubscription (ths_publicationSid s) (ths_participantIdentity s)"
  | (l2) p t where "prev = Some p" "lastL1AttemptMs p = Some t" "lastL2AttemptMs p = None"
      "ths_sampleAtMs s \<ge> t + WATCHDOG_L2_AFTER_MS"
      "n = p\<lparr>lastL2AttemptMs := Some (ths_sampleAtMs s)\<rparr>"
      "a = ReconnectRoom (stall_reason (ths_publicationSid s) (ths_sampleAtMs s - lastProgressMs p))"
  using assms that unfolding evaluateTrackHealth_def
  by (cases prev) (auto simp: Let_def not_less split: if_splits option.splits)

text \<open>What a state remembers of the samples and actions that led to it.\<close>
definition restarted_at :: "TrackHealthSample list \<Rightarrow> WatchdogAction list \<Rightarrow> int \<Rightarrow> nat \<Rightarrow> bool" where
  "restarted_at ss acts t i = (i < length ss \<and> (\<exists>sid ident. acts ! i = RestartSubscription sid ident) \<and>
     ths_sampleAtMs (ss ! i) = t)"

definition silent_since :: "WatchdogAction list \<Rightarrow> nat \<Rightarrow> bool" where
  "silent_since acts i = (\<forall>k. i < k \<and> k < length acts \<longrightarrow> acts ! k = WNoop)"

definition escalation_history ::
  "TrackHealthSample list \<Rightarrow> WatchdogAction list \<Rightarrow> TrackHealthState \<Rightarrow> bool" where
  "escalation_history ss acts h = (case lastL1AttemptMs h of
     None \<Rightarrow> lastL2AttemptMs h = None
   | Some t \<Rightarrow> \<exists>i. restarted_at ss acts t i \<and> (lastL2AttemptMs h = None \<longrightarrow> silent_since acts i))"

lemma restarted_at_append:
  "length acts = length ss \<Longrightarrow> restarted_at ss acts t i \<Longrightarrow> restarted_at (ss @ [s]) (acts @ [a]) t i"
  by (auto simp: restarted_at_def nth_append)

lemma silent_since_append: "silent_since acts i \<Longrightarrow> silent_since (acts @ [WNoop]) i"
  by (auto simp: silent_since_def nth_append less_Suc_eq)

lemma silent_since_last: "silent_since (acts @ [a]) (length acts)"
  by (auto simp: silent_since_def)

lemma restarted_at_last:
  "length acts = length ss \<Longrightarrow>
   restarted_at (ss @ [s]) (acts @ [RestartSubscription x y]) (ths_sampleAtMs s) (length acts)"
  by (simp add: restarted_at_def nth_append)

lemma escalation_history_step:
  assumes "\<And>h. st = Some h \<Longrightarrow> escalation_history ss acts h" "length acts = length ss"
    "evaluateTrackHealth st s = (n, a)"
  shows "escalation_history (ss @ [s]) (acts @ [a]) n"
  using assms(3)
proof (cases rule: evaluate_cases)
  case (quiet p)
  then show ?thesis using assms(1)[of p] assms(2) restarted_at_append silent_since_append
    by (auto simp: escalation_history_def split: option.splits) blast+
next
  case (l1 p)
  then show ?thesis using restarted_at_last[OF assms(2)] silent_since_last
    by (auto simp: escalation_history_def split: option.splits intro!: exI[of _ "length acts"])
next
  case (l2 p t)
  then show ?thesis using assms(1)[of p] assms(2) restarted_at_append
    by (auto simp: escalation_history_def split: option.splits) blast
qed (simp_all add: escalation_history_def)

lemma escalation_history_run:
  "trackAfter None ss = Some h \<Longrightarrow> escalation_history ss (watchTrack None ss) h"
proof (induction ss arbitrary: h rule: rev_induct)
  case (snoc s ss)
  obtain n a where "evaluateTrackHealth (trackAfter None ss) s = (n, a)" by fastforce
  with escalation_history_step[OF snoc.IH _ this] snoc.prems show ?case
    by (simp add: watchTrack_append trackAfter_append)
qed simp

text \<open>
  The watchdog reconnects the whole room only as an escalation: on any stream of samples of a
  track, every reconnect at sample j follows a subscription restart at some earlier sample i taken
  at least \<open>WATCHDOG_L2_AFTER_MS\<close> before, and between the two the watchdog did nothing.
\<close>
theorem reconnect_only_after_restart:
  assumes "j < length ss" "watchTrack None ss ! j = ReconnectRoom r"
  shows "\<exists>i < j. (\<exists>sid ident. watchTrack None ss ! i = RestartSubscription sid ident) \<and>
           ths_sampleAtMs (ss ! j) - ths_sampleAtMs (ss ! i) \<ge> WATCHDOG_L2_AFTER_MS \<and>
           (\<forall>k. i < k \<and> k < j \<longrightarrow> watchTrack None ss ! k = WNoop)"
proof -
  define xs where "xs = take j ss"
  have split: "ss = xs @ ss ! j # drop (Suc j) ss" using assms(1) by (simp add: xs_def id_take_nth_drop)
  have len: "length xs = j" using assms(1) by (simp add: xs_def)
  have run: "watchTrack None ss = watchTrack None xs @ watchTrack (trackAfter None xs) (ss ! j # drop (Suc j) ss)"
    by (metis split watchTrack_append)
  obtain n a where e: "evaluateTrackHealth (trackAfter None xs) (ss ! j) = (n, a)" by fastforce
  then have "a = ReconnectRoom r" using assms(2) run len by (simp add: nth_append)
  with e obtain p t where p: "trackAfter None xs = Some p" "lastL1AttemptMs p = Some t"
    "lastL2AttemptMs p = None" "ths_sampleAtMs (ss ! j) \<ge> t + WATCHDOG_L2_AFTER_MS"
    by (cases rule: evaluate_cases) auto
  then obtain i where i: "restarted_at xs (watchTrack None xs) t i" "silent_since (watchTrack None xs) i"
    using escalation_history_run[OF p(1)] by (auto simp: escalation_history_def)
  then show ?thesis
    using p(4) len by (intro exI[of _ i]) (auto simp: run nth_append xs_def restarted_at_def silent_since_def)
qed

lemma reconnect_only_after_restart_witness:
  "\<exists>i < 4. \<exists>sid ident. watchTrack None
     (map (\<lambda>t. \<lparr>ths_publicationSid = ''TR'', ths_participantIdentity = ''bob'', ths_bytesReceived = 7,
        ths_jitter = None, ths_packetsLost = None, ths_sampleAtMs = t\<rparr>) [0, 4000, 5000, 9999, 10000]) ! i =
     RestartSubscription sid ident"
  using reconnect_only_after_restart[of 4 "map (\<lambda>t. \<lparr>ths_publicationSid = ''TR'',
      ths_participantIdentity = ''bob'', ths_bytesReceived = 7, ths_jitter = None,
      ths_packetsLost = None, ths_sampleAtMs = t\<rparr>) [0, 4000, 5000, 9999, 10000]"
      "stall_reason ''TR'' 10000"]
  by (auto simp: evaluateTrackHealth_def watchdog_consts)

section \<open>Escalation of a stalled track\<close>

lemma evaluate_stalled_simps:
  assumes "ths_bytesReceived s \<le> lastBytesReceived p"
  shows "ths_sampleAtMs s < lastProgressMs p + WATCHDOG_STALE_AFTER_MS \<Longrightarrow> evaluateTrackHealth (Some p) s = (p, WNoop)"
    and "ths_sampleAtMs s \<ge> lastProgressMs p + WATCHDOG_STALE_AFTER_MS \<Longrightarrow> lastL1AttemptMs p = None \<Longrightarrow>
      evaluateTrackHealth (Some p) s = (p\<lparr>lastL1AttemptMs := Some (ths_sampleAtMs s)\<rparr>,
        RestartSubscription (ths_publicationSid s) (ths_participantIdentity s))"
    and "ths_sampleAtMs s \<ge> lastProgressMs p + WATCHDOG_STALE_AFTER_MS \<Longrightarrow> lastL1AttemptMs p = Some t \<Longrightarrow>
      ths_sampleAtMs s < t + WATCHDOG_L2_AFTER_MS \<or> lastL2AttemptMs p \<noteq> None \<Longrightarrow>
      evaluateTrackHealth (Some p) s = (p, WNoop)"
    and "ths_sampleAtMs s \<ge> lastProgressMs p + WATCHDOG_STALE_AFTER_MS \<Longrightarrow> lastL1AttemptMs p = Some t \<Longrightarrow>
      ths_sampleAtMs s \<ge> t + WATCHDOG_L2_AFTER_MS \<Longrightarrow> lastL2AttemptMs p = None \<Longrightarrow>
      evaluateTrackHealth (Some p) s = (p\<lparr>lastL2AttemptMs := Some (ths_sampleAtMs s)\<rparr>,
        ReconnectRoom (stall_reason (ths_publicationSid s) (ths_sampleAtMs s - lastProgressMs p)))"
  using assms by (auto simp: evaluateTrackHealth_def Let_def)

lemma watch_quiet:
  "(\<And>s. s \<in> set ss \<Longrightarrow> evaluateTrackHealth (Some p) s = (p, WNoop)) \<Longrightarrow>
   watchTrack (Some p) ss = replicate (length ss) WNoop \<and> trackAfter (Some p) ss = Some p"
  by (induction ss) auto

text \<open>The samples of a stall in the order they are taken: before the first threshold, the sample that
  crosses it, samples within the second window, the sample that crosses that, and the rest.\<close>
definition stall_run :: "TrackHealthState \<Rightarrow> TrackHealthSample list \<Rightarrow> TrackHealthSample \<Rightarrow>
    TrackHealthSample list \<Rightarrow> TrackHealthSample \<Rightarrow> TrackHealthSample list \<Rightarrow> bool" where
  "stall_run p xs s1 ys s2 zs =
     ((\<forall>s \<in> set (xs @ s1 # ys @ s2 # zs). ths_bytesReceived s \<le> lastBytesReceived p) \<and>
      (\<forall>s \<in> set xs. ths_sampleAtMs s < lastProgressMs p + WATCHDOG_STALE_AFTER_MS) \<and>
      ths_sampleAtMs s1 \<ge> lastProgressMs p + WATCHDOG_STALE_AFTER_MS \<and>
      (\<forall>s \<in> set ys. ths_sampleAtMs s1 \<le> ths_sampleAtMs s \<and>
          ths_sampleAtMs s < ths_sampleAtMs s1 + WATCHDOG_L2_AFTER_MS) \<and>
      ths_sampleAtMs s2 \<ge> ths_sampleAtMs s1 + WATCHDOG_L2_AFTER_MS \<and>
      (\<forall>s \<in> set zs. ths_sampleAtMs s2 \<le> ths_sampleAtMs s))"

text \<open>
  C12. A stalled track is escalated, and once only: over a run of samples without progress that
  crosses both windows, the watchdog restarts the subscription at the first sample past
  \<open>WATCHDOG_STALE_AFTER_MS\<close>, reconnects the room at the first sample
  \<open>WATCHDOG_L2_AFTER_MS\<close> later, and does nothing at every other sample, however long the stall lasts.
\<close>
theorem stalled_track_escalates_once:
  assumes "stall_run p xs s1 ys s2 zs" "lastL1AttemptMs p = None" "lastL2AttemptMs p = None"
  shows "watchTrack (Some p) (xs @ s1 # ys @ s2 # zs) =
    replicate (length xs) WNoop @
    RestartSubscription (ths_publicationSid s1) (ths_participantIdentity s1) #
    replicate (length ys) WNoop @
    ReconnectRoom (stall_reason (ths_publicationSid s2) (ths_sampleAtMs s2 - lastProgressMs p)) #
    replicate (length zs) WNoop"
proof -
  note run = assms(1)[unfolded stall_run_def]
  define p1 where "p1 = p\<lparr>lastL1AttemptMs := Some (ths_sampleAtMs s1)\<rparr>"
  define p2 where "p2 = p1\<lparr>lastL2AttemptMs := Some (ths_sampleAtMs s2)\<rparr>"
  have xs: "watchTrack (Some p) xs = replicate (length xs) WNoop \<and> trackAfter (Some p) xs = Some p"
    using run by (intro watch_quiet evaluate_stalled_simps) auto
  have s1: "evaluateTrackHealth (Some p) s1 =
      (p1, RestartSubscription (ths_publicationSid s1) (ths_participantIdentity s1))"
    using run assms(2) by (simp add: p1_def evaluate_stalled_simps)
  have ys: "watchTrack (Some p1) ys = replicate (length ys) WNoop \<and> trackAfter (Some p1) ys = Some p1"
    using run by (intro watch_quiet evaluate_stalled_simps(3)[where t = "ths_sampleAtMs s1"]) (auto simp: p1_def)
  have s2: "evaluateTrackHealth (Some p1) s2 =
      (p2, ReconnectRoom (stall_reason (ths_publicationSid s2) (ths_sampleAtMs s2 - lastProgressMs p)))"
    using run assms(3) evaluate_stalled_simps(4)[of s2 p1 "ths_sampleAtMs s1"]
    by (simp add: p1_def p2_def watchdog_consts)
  have zs: "watchTrack (Some p2) zs = replicate (length zs) WNoop \<and> trackAfter (Some p2) zs = Some p2"
    using run by (intro watch_quiet evaluate_stalled_simps(3)[where t = "ths_sampleAtMs s1"])
      (auto simp: p1_def p2_def watchdog_consts)
  show ?thesis using xs s1 ys s2 zs by (simp add: watchTrack_append)
qed

lemma stalled_track_escalates_once_witness:
  "let smp = (\<lambda>t. \<lparr>ths_publicationSid = ''TR'', ths_participantIdentity = ''bob'', ths_bytesReceived = 7,
         ths_jitter = None, ths_packetsLost = None, ths_sampleAtMs = t\<rparr>);
       p = fst (evaluateTrackHealth None (smp 0))
   in watchTrack (Some p) (map smp [2000, 4000, 6000, 8000, 10000, 12000, 14000]) =
      [WNoop, WNoop, RestartSubscription ''TR'' ''bob'', WNoop, WNoop,
       ReconnectRoom (stall_reason ''TR'' 12000), WNoop]"
proof -
  define smp where "smp = (\<lambda>t. \<lparr>ths_publicationSid = ''TR'', ths_participantIdentity = ''bob'',
      ths_bytesReceived = 7, ths_jitter = None, ths_packetsLost = None, ths_sampleAtMs = t\<rparr>)"
  define p where "p = fst (evaluateTrackHealth None (smp 0))"
  have "stall_run p [smp 2000, smp 4000] (smp 6000) [smp 8000, smp 10000] (smp 12000) [smp 14000]"
    by (simp add: stall_run_def p_def smp_def evaluateTrackHealth_def watchdog_consts)
  from stalled_track_escalates_once[OF this] have "watchTrack (Some p)
      [smp 2000, smp 4000, smp 6000, smp 8000, smp 10000, smp 12000, smp 14000] =
      [WNoop, WNoop, RestartSubscription ''TR'' ''bob'', WNoop, WNoop, ReconnectRoom (stall_reason ''TR'' 12000), WNoop]"
    by (simp del: watchTrack.simps add: p_def smp_def evaluateTrackHealth_def)
  then show ?thesis unfolding smp_def[symmetric] by (simp only: Let_def p_def list.map)
qed

section \<open>The mounted watchdog\<close>

definition health_ok :: "str \<Rightarrow> TrackHealthState \<Rightarrow> bool" where
  "health_ok sid h = (thst_publicationSid h = sid \<and>
     (case lastL1AttemptMs h of
        None \<Rightarrow> lastL2AttemptMs h = None
      | Some t1 \<Rightarrow> t1 \<ge> lastProgressMs h + WATCHDOG_STALE_AFTER_MS \<and>
          (case lastL2AttemptMs h of None \<Rightarrow> True | Some t2 \<Rightarrow> t2 \<ge> t1 + WATCHDOG_L2_AFTER_MS)))"

definition watchdog_inv :: "VoiceHealthWatchdog \<Rightarrow> bool" where
  "watchdog_inv w = (\<forall>sid h. wd_states w sid = Some h \<longrightarrow> health_ok sid h)"

lemma evaluate_health_ok:
  assumes "evaluateTrackHealth prev s = (n, a)" "\<And>p. prev = Some p \<Longrightarrow> health_ok (ths_publicationSid s) p"
  shows "health_ok (ths_publicationSid s) n"
proof (cases prev)
  case None
  then show ?thesis using assms(1) by (auto simp: evaluateTrackHealth_def health_ok_def)
next
  case (Some p)
  then have p: "health_ok (ths_publicationSid s) p" using assms(2) by blast
  from assms(1) show ?thesis
  proof (cases rule: evaluate_cases)
    case (progress q)
    then have "thst_publicationSid n = thst_publicationSid p" using Some assms(1)
      by (auto simp: evaluateTrackHealth_def)
    then show ?thesis using progress p by (simp add: health_ok_def)
  qed (use Some p in \<open>simp_all add: health_ok_def\<close>)
qed

lemma tickSample_inv [inv_intros]: "watchdog_inv w \<Longrightarrow> watchdog_inv (tickSample room now s w)"
  unfolding watchdog_inv_def tickSample_def
  using evaluate_health_ok[of "wd_states w (ths_publicationSid s)" "s\<lparr>ths_sampleAtMs := now\<rparr>"]
  by (auto split: prod.splits)

lemma fold_tickSample_inv: "watchdog_inv w \<Longrightarrow> watchdog_inv (fold (tickSample room now) ss w)"
  by (induction ss arbitrary: w) (auto intro: inv_intros)

lemma watchdog_ops_inv [inv_intros]:
  "watchdog_inv newWatchdog"
  "watchdog_inv w \<Longrightarrow> watchdog_inv (startWatchdog w)"
  "watchdog_inv w \<Longrightarrow> watchdog_inv (stopWatchdog w)"
  "watchdog_inv w \<Longrightarrow> watchdog_inv (forget sid w)"
  by (auto simp: watchdog_inv_def newWatchdog_def startWatchdog_def stopWatchdog_def forget_def split: if_splits)

lemma tick_inv [inv_intros]: "watchdog_inv w \<Longrightarrow> watchdog_inv (tick room now w)"
  using fold_tickSample_inv[of w room now "collectSamples room"]
  by (auto simp: watchdog_inv_def tick_def Let_def)

text \<open>Everything the voice UI can do to a mounted watchdog, in any order and at any times.\<close>
inductive watchdog_reach :: "VoiceHealthWatchdog \<Rightarrow> bool" where
  init: "watchdog_reach newWatchdog"
| start: "watchdog_reach w \<Longrightarrow> watchdog_reach (startWatchdog w)"
| stop: "watchdog_reach w \<Longrightarrow> watchdog_reach (stopWatchdog w)"
| forget: "watchdog_reach w \<Longrightarrow> watchdog_reach (forget sid w)"
| tick: "watchdog_reach w \<Longrightarrow> wd_timer w \<Longrightarrow> watchdog_reach (tick room now w)"

text \<open>
  In every reachable state of the mounted watchdog each track record is filed under its own
  publication, was restarted no earlier than the stale window allows, and was escalated to a
  reconnect only after a restart and a full second window.
\<close>
theorem watchdog_reach_inv: "watchdog_reach w \<Longrightarrow> watchdog_inv w"
  by (induction rule: watchdog_reach.induct) (auto intro: inv_intros)

lemma watchdog_reach_inv_witness:
  "watchdog_inv (tick [\<lparr>rp_identity = ''bob'', rp_audioPubs = [\<lparr>pub_isAudio = True, pub_isSubscribed = True,
      pub_isMuted = False, pub_trackSid = ''TR'', pub_track = Some (StatsReport [])\<rparr>]\<rparr>] 0
      (startWatchdog newWatchdog))"
  by (rule watchdog_reach_inv) (intro watchdog_reach.intros; simp add: startWatchdog_def newWatchdog_def)

text \<open>The calls one evaluated track causes.\<close>
definition trackCalls :: "Room \<Rightarrow> int \<Rightarrow> VoiceHealthWatchdog \<Rightarrow> TrackHealthSample \<Rightarrow> RoomCall list" where
  "trackCalls room now w s =
     (let a = snd (evaluateTrackHealth (wd_states w (ths_publicationSid s)) (s\<lparr>ths_sampleAtMs := now\<rparr>))
      in if a = WNoop then [] else executeAction room a)"

lemma tickSample_simps:
  "wd_states (tickSample room now s w) = (wd_states w)(ths_publicationSid s \<mapsto>
     fst (evaluateTrackHealth (wd_states w (ths_publicationSid s)) (s\<lparr>ths_sampleAtMs := now\<rparr>)))"
  "wd_calls (tickSample room now s w) = wd_calls w @ trackCalls room now w s"
  by (simp_all add: tickSample_def trackCalls_def split: prod.splits)

lemma trackCalls_other:
  "ths_publicationSid x \<noteq> ths_publicationSid s \<Longrightarrow>
   trackCalls room now (tickSample room now s w) x = trackCalls room now w x"
  by (simp add: trackCalls_def tickSample_simps)

text \<open>One tick is the pure evaluator applied to every sampled track, and nothing else.\<close>
lemma fold_tickSample_states:
  "distinct (map ths_publicationSid ss) \<Longrightarrow>
   wd_states (fold (tickSample room now) ss w) sid =
      (case find_by ths_publicationSid sid ss of None \<Rightarrow> wd_states w sid
       | Some s \<Rightarrow> Some (fst (evaluateTrackHealth (wd_states w sid) (s\<lparr>ths_sampleAtMs := now\<rparr>))))"
proof (induction ss arbitrary: w)
  case (Cons s ss)
  then have "find_by ths_publicationSid (ths_publicationSid s) ss = None" by (simp add: find_by_None)
  then show ?case using Cons by (auto simp: tickSample_simps split: option.splits)
qed simp

lemma fold_tickSample_calls:
  "distinct (map ths_publicationSid ss) \<Longrightarrow>
   wd_calls (fold (tickSample room now) ss w) = wd_calls w @ concat (map (trackCalls room now w) ss)"
proof (induction ss arbitrary: w)
  case (Cons s ss)
  have "map (trackCalls room now (tickSample room now s w)) ss = map (trackCalls room now w) ss"
    using Cons.prems by (auto simp: image_iff intro!: trackCalls_other)
  then have "concat (map (trackCalls room now (tickSample room now s w)) ss) = concat (map (trackCalls room now w) ss)"
    by (rule arg_cong)
  then show ?case using Cons by (simp add: tickSample_simps)
qed simp

text \<open>
  A tick refines the evaluator: when the room's publications have distinct sids, the state of
  every sampled track becomes what \<open>evaluateTrackHealth\<close> says of its old state, every other track is
  forgotten, and the calls made on the room are those of the actions, in sampling order.
\<close>
theorem tick_evaluates_every_track:
  assumes "distinct (map ths_publicationSid (collectSamples room))"
  shows "wd_states (tick room now w) sid =
      (case find_by ths_publicationSid sid (collectSamples room) of None \<Rightarrow> None
       | Some s \<Rightarrow> Some (fst (evaluateTrackHealth (wd_states w sid) (s\<lparr>ths_sampleAtMs := now\<rparr>)))) \<and>
    wd_calls (tick room now w) = wd_calls w @
      concat (map (trackCalls room now w) (collectSamples room))"
  using fold_tickSample_states[OF assms, of room now w] fold_tickSample_calls[OF assms, of room now w]
  by (auto simp: tick_def Let_def find_by_None split: option.splits dest: find_by_SomeD)

lemma tick_evaluates_every_track_witness:
  "wd_states (tick [\<lparr>rp_identity = ''bob'', rp_audioPubs = [\<lparr>pub_isAudio = True, pub_isSubscribed = True,
      pub_isMuted = False, pub_trackSid = ''TR'', pub_track = Some (StatsReport [])\<rparr>]\<rparr>] 3
      newWatchdog) ''gone'' = None"
  using tick_evaluates_every_track[of "[\<lparr>rp_identity = ''bob'', rp_audioPubs = [\<lparr>pub_isAudio = True,
      pub_isSubscribed = True, pub_isMuted = False, pub_trackSid = ''TR'', pub_track = Some (StatsReport [])\<rparr>]\<rparr>]" 3
      newWatchdog "''gone''"]
  by (simp add: collectSamples_def samplePub_def)

text \<open>
  Only the byte count decides. A track that was restarted and whose counter then begins again
  below the old value, growing at every sample, is still taken for stalled: it makes no progress
  until it passes the old count, and the whole room is reconnected at the end of the second window.
\<close>
theorem counter_restart_still_reconnects:
  "let s = (\<lambda>b t. \<lparr>ths_publicationSid = sid, ths_participantIdentity = who, ths_bytesReceived = b,
         ths_jitter = None, ths_packetsLost = None, ths_sampleAtMs = t\<rparr>)
   in watchTrack None [s 900 0, s 900 2000, s 900 4000, s 900 6000, s 100 8000, s 300 10000, s 500 12000] =
      [WNoop, WNoop, WNoop, RestartSubscription sid who, WNoop, WNoop, ReconnectRoom (stall_reason sid 12000)]"
  unfolding Let_def by (simp add: evaluateTrackHealth_def watchdog_consts)

end
