(* ===== verification/Json.thy ===== *)
theory Json
  imports Prelude
begin

text \<open>
  JavaScript values that cross a boundary: what \<open>JSON.parse\<close> returns, what a \<open>postMessage\<close> event
  carries, what a Matrix event's content is. Numbers are integers. An object is an association list
  in property order; \<^const>\<open>None\<close> from a lookup is \<open>undefined\<close>.
\<close>

datatype json =
    JNull
  | JBool bool
  | JNum int
  | JStr str
  | JArr "json list"
  | JObj "(str \<times> json) list"

text \<open>Property access \<open>x.k\<close> on an own property; anything that has no such property gives undefined.\<close>
fun jget :: "json \<Rightarrow> str \<Rightarrow> json option" where
  "jget (JObj kvs) k = map_of kvs k"
| "jget _ k = None"

fun is_object :: "json \<Rightarrow> bool" where
  "is_object JNull = True"
| "is_object (JArr _) = True"
| "is_object (JObj _) = True"
| "is_object _ = False"

text \<open>\<open>typeof x === "object" && x !== null\<close>\<close>
definition nonnull_object :: "json option \<Rightarrow> bool" where
  "nonnull_object x = (case x of None \<Rightarrow> False | Some v \<Rightarrow> is_object v \<and> v \<noteq> JNull)"

fun as_str :: "json option \<Rightarrow> str option" where
  "as_str (Some (JStr s)) = Some s"
| "as_str _ = None"

fun as_num :: "json option \<Rightarrow> int option" where
  "as_num (Some (JNum n)) = Some n"
| "as_num _ = None"

fun as_bool :: "json option \<Rightarrow> bool option" where
  "as_bool (Some (JBool b)) = Some b"
| "as_bool _ = None"

fun as_arr :: "json option \<Rightarrow> json list option" where
  "as_arr (Some (JArr xs)) = Some xs"
| "as_arr _ = None"

lemma as_str_Some [simp]: "as_str x = Some s \<longleftrightarrow> x = Some (JStr s)"
  by (cases x rule: as_str.cases) auto

lemma as_num_Some [simp]: "as_num x = Some n \<longleftrightarrow> x = Some (JNum n)"
  by (cases x rule: as_num.cases) auto

lemma as_arr_Some [simp]: "as_arr x = Some n \<longleftrightarrow> x = Some (JArr n)"
  by (cases x rule: as_arr.cases) auto

text \<open>\<open>x?.k\<close>\<close>
definition jopt :: "json option \<Rightarrow> str \<Rightarrow> json option" where
  "jopt x k = (case x of None \<Rightarrow> None | Some v \<Rightarrow> jget v k)"

text \<open>A truthy string.\<close>
definition text_of :: "json option \<Rightarrow> str option" where
  "text_of x = (case as_str x of None \<Rightarrow> None | Some s \<Rightarrow> if s = [] then None else Some s)"

fun truthy :: "json option \<Rightarrow> bool" where
  "truthy None = False"
| "truthy (Some JNull) = False"
| "truthy (Some (JBool b)) = b"
| "truthy (Some (JNum n)) = (n \<noteq> 0)"
| "truthy (Some (JStr s)) = (s \<noteq> [])"
| "truthy (Some (JArr _)) = True"
| "truthy (Some (JObj _)) = True"

text \<open>\<open>x ?? y\<close>\<close>
fun nullish_or :: "json option \<Rightarrow> json option \<Rightarrow> json option" where
  "nullish_or None y = y"
| "nullish_or (Some JNull) y = y"
| "nullish_or x y = x"

text \<open>\<open>String(x)\<close>, the key that an arbitrary value selects in \<open>obj[x]\<close>.\<close>
fun js_string :: "json \<Rightarrow> str" where
  "js_string JNull = ''null''"
| "js_string (JBool b) = (if b then ''true'' else ''false'')"
| "js_string (JNum n) = int_text n"
| "js_string (JStr s) = s"
| "js_string (JArr xs) = join_with '','' (map (\<lambda>x. if x = JNull then [] else js_string x) xs)"
| "js_string (JObj _) = ''[object Object]''"

definition key_of :: "json option \<Rightarrow> str" where
  "key_of x = (case x of None \<Rightarrow> ''undefined'' | Some v \<Rightarrow> js_string v)"

text \<open>The own enumerable properties a spread \<open>{...x}\<close> copies.\<close>
fun spread :: "json \<Rightarrow> (str \<times> json) list" where
  "spread (JObj kvs) = kvs"
| "spread (JArr xs) = map (\<lambda>(i, x). (nat_text i, x)) (enumerate 0 xs)"
| "spread (JStr s) = map (\<lambda>(i, c). (nat_text i, JStr [c])) (enumerate 0 s)"
| "spread _ = []"

text \<open>\<open>x.includes(s)\<close> for a string s: membership in an array, substring of a string, and a thrown
  TypeError (None) on everything else.\<close>
fun js_includes :: "json option \<Rightarrow> str \<Rightarrow> bool option" where
  "js_includes (Some (JArr xs)) s = Some (JStr s \<in> set xs)"
| "js_includes (Some (JStr t)) s = Some (includes_sub s t)"
| "js_includes _ s = None"

end
