(* ===== verification/InputRouter.thy ===== *)
theory InputRouter
  imports Json
begin

text \<open>
  Who may do what in an extension session: \<open>client/src/components/extension/InputRouter.ts\<close> (the
  permission tables and \<open>check\<close>) and the message guards of \<open>client/src/extensions/sdk.ts\<close>.
  \<open>checkAny\<close> is the same function of the source at the types it has at run time, when the action and
  the overrides come from an iframe and are arbitrary values.
\<close>

section \<open>Modes, seats, actions\<close>

datatype Mode = Shared | SharedReadonly | SharedAdminInput | PerUser | Hybrid

datatype Seat = Host | Participant | Observer | Spectator

datatype InputAction = SendStateEvents | SendToDevice | React | PointerEvents | AdminCommands

record InputPermissions =
  ip_send_state_events :: "Seat list"
  ip_send_to_device :: "Seat list"
  ip_react :: "Seat list"
  ip_pointer_events :: "Seat list"
  ip_admin_commands :: "Seat list"

fun DEFAULT_PERMISSIONS :: "Mode \<Rightarrow> InputPermissions" where
  "DEFAULT_PERMISSIONS Shared = \<lparr>
     ip_send_state_events = [Host, Participant], ip_send_to_device = [Host, Participant],
     ip_react = [Host, Participant, Observer], ip_pointer_events = [Host, Participant],
     ip_admin_commands = [Host]\<rparr>"
| "DEFAULT_PERMISSIONS SharedReadonly = \<lparr>
     ip_send_state_events = [Host], ip_send_to_device = [Host],
     ip_react = [Host, Participant, Observer], ip_pointer_events = [Host],
     ip_admin_commands = [Host]\<rparr>"
| "DEFAULT_PERMISSIONS SharedAdminInput = \<lparr>
     ip_send_state_events = [Host], ip_send_to_device = [Host],
     ip_react = [Host, Participant, Observer], ip_pointer_events = [Host],
     ip_admin_commands = [Host]\<rparr>"
| "DEFAULT_PERMISSIONS PerUser = \<lparr>
     ip_send_state_events = [Host, Participant], ip_send_to_device = [Host, Participant],
     ip_react = [Host, Participant], ip_pointer_events = [Host, Participant],
     ip_admin_commands = [Host]\<rparr>"
| "DEFAULT_PERMISSIONS Hybrid = \<lparr>
     ip_send_state_events = [Host, Participant], ip_send_to_device = [Host, Participant],
     ip_react = [Host, Participant, Observer], ip_pointer_events = [Host, Participant],
     ip_admin_commands = [Host]\<rparr>"

fun permission_field :: "InputPermissions \<Rightarrow> InputAction \<Rightarrow> Seat list" where
  "permission_field p SendStateEvents = ip_send_state_events p"
| "permission_field p SendToDevice = ip_send_to_device p"
| "permission_field p React = ip_react p"
| "permission_field p PointerEvents = ip_pointer_events p"
| "permission_field p AdminCommands = ip_admin_commands p"

type_synonym PermissionOverrides = "InputAction \<Rightarrow> Seat list option"

definition check :: "Mode \<Rightarrow> Seat \<Rightarrow> InputAction \<Rightarrow> PermissionOverrides option \<Rightarrow> bool" where
  "check mode seat action overrides =
     (let effective = (case overrides of
            None \<Rightarrow> permission_field (DEFAULT_PERMISSIONS mode)
          | Some ov \<Rightarrow> (\<lambda>a. case ov a of Some seats \<Rightarrow> seats | None \<Rightarrow> permission_field (DEFAULT_PERMISSIONS mode) a))
      in seat \<in> set (effective action))"

section \<open>The same check on values from a frame\<close>

fun seat_name :: "Seat \<Rightarrow> str" where
  "seat_name Host = ''host''"
| "seat_name Participant = ''participant''"
| "seat_name Observer = ''observer''"
| "seat_name Spectator = ''spectator''"

fun action_name :: "InputAction \<Rightarrow> str" where
  "action_name SendStateEvents = ''send_state_events''"
| "action_name SendToDevice = ''send_to_device''"
| "action_name React = ''react''"
| "action_name PointerEvents = ''pointer_events''"
| "action_name AdminCommands = ''admin_commands''"

definition all_actions :: "InputAction list" where
  "all_actions = [SendStateEvents, SendToDevice, React, PointerEvents, AdminCommands]"

definition seats_json :: "Seat list \<Rightarrow> json" where
  "seats_json seats = JArr (map (JStr \<circ> seat_name) seats)"

definition permissions_json :: "InputPermissions \<Rightarrow> (str \<times> json) list" where
  "permissions_json p = map (\<lambda>a. (action_name a, seats_json (permission_field p a))) all_actions"

definition overrides_json :: "PermissionOverrides \<Rightarrow> json" where
  "overrides_json ov = JObj (concat (map (\<lambda>a. case ov a of
     None \<Rightarrow> [] | Some seats \<Rightarrow> [(action_name a, seats_json seats)]) all_actions))"

definition checkAny :: "Mode \<Rightarrow> Seat \<Rightarrow> json option \<Rightarrow> json option \<Rightarrow> bool option" where
  "checkAny mode seat action overrides =
     (let defaults = map_of (permissions_json (DEFAULT_PERMISSIONS mode));
          effective = (if truthy overrides then defaults ++ map_of (spread (the overrides)) else defaults)
      in js_includes (effective (key_of action)) (seat_name seat))"

lemma seat_name_inj [simp]: "seat_name a = seat_name b \<longleftrightarrow> a = b"
  by (cases a; cases b) simp_all

lemma action_name_inj [simp]: "action_name a = action_name b \<longleftrightarrow> a = b"
  by (cases a; cases b) simp_all

lemma in_all_actions [simp]: "a \<in> set all_actions"
  by (cases a) (simp_all add: all_actions_def)

lemma includes_seats [simp]: "js_includes (Some (seats_json seats)) (seat_name s) = Some (s \<in> set seats)"
  by (auto simp: seats_json_def)

lemma permissions_lookup [simp]:
  "map_of (permissions_json p) (action_name a) = Some (seats_json (permission_field p a))"
  by (cases a) (simp_all add: permissions_json_def all_actions_def)

lemma overrides_lookup [simp]:
  "map_of (spread (overrides_json ov)) (action_name a) = map_option seats_json (ov a)"
  by (cases a) (auto simp: overrides_json_def all_actions_def split: option.splits)

lemma overrides_truthy [simp]: "truthy (Some (overrides_json ov))"
  by (simp add: overrides_json_def)

text \<open>On well-typed arguments the two readings of \<open>check\<close> agree, and nothing is thrown.\<close>
lemma checkAny_check:
  "checkAny mode seat (Some (JStr (action_name a))) (map_option overrides_json ov) =
   Some (check mode seat a ov)"
  by (cases ov) (auto simp: checkAny_def check_def key_of_def Let_def map_add_def
      split: option.splits)

text \<open>
  The default tables grant by rank in every mode: a host may do everything, a spectator nothing,
  what an observer may do a participant may do, what a participant may do the host may do,
  administration is the host's alone, and an observer can at most react.
\<close>
theorem default_permissions_by_rank:
  "check mode Host a None \<and> \<not> check mode Spectator a None \<and>
   (check mode Observer a None \<longrightarrow> check mode Participant a None \<and> a = React) \<and>
   (check mode s AdminCommands None \<longleftrightarrow> s = Host) \<and>
   (mode \<in> {SharedReadonly, SharedAdminInput} \<longrightarrow> check mode s a None \<longrightarrow> s = Host \<or> a = React)"
  by (cases mode; cases a; cases s) (simp_all add: check_def)

lemma default_permissions_by_rank_witness: "check Shared Participant React None"
  using default_permissions_by_rank[of Shared React Host] by (simp add: check_def)

text \<open>
  Overrides win key by key: with a session's overrides the check of an action listed there is
  membership in the listed seats, and of every other action it is the mode's default.
\<close>
theorem check_overrides_per_key:
  "check mode seat a (Some ov) =
     (case ov a of Some seats \<Rightarrow> seat \<in> set seats | None \<Rightarrow> check mode seat a None)"
  by (auto simp: check_def Let_def split: option.splits)

end
