(* ===== verification/Sdk.thy ===== *)
theory Sdk
  imports InputRouter
begin

text \<open>
  The postMessage protocol between the shell and an extension frame,
  \<open>client/src/extensions/sdk.ts\<close>, with the layout descriptors of
  \<open>client/src/components/extension/ExtensionEmbed.tsx\<close> that its init message carries. A message is
  posted as the object \<open>message_json\<close> gives: the structured clone of the envelope the builder returns.
\<close>

definition CONCORD_SDK_VERSION :: int where "CONCORD_SDK_VERSION = 1"

datatype surface_type = TPanel | TModal | TPip | TFullscreen | TBackground | TBrowser

datatype anchor = LeftSidebar | RightSidebar | BottomBar | Center | ANone

text \<open>\<open>preferred_aspect?: string | null\<close>: absent, null, or a string.\<close>
datatype aspect = AspectUndefined | AspectNull | AspectStr str

record SurfaceDescriptor =
  sd_surface_id :: str
  sd_type :: surface_type
  sd_anchor :: anchor
  sd_min_width_px :: "int option"
  sd_min_height_px :: "int option"
  sd_preferred_aspect :: aspect
  sd_z_index :: "int option"

record ConcordInitPayload =
  ci_sessionId :: str
  ci_extensionId :: str
  ci_mode :: Mode
  ci_participantId :: str
  ci_seat :: Seat
  ci_surfaces :: "SurfaceDescriptor list"

record ConcordHostTransferPayload =
  ht_previousHostId :: str
  ht_newHostId :: str
  ht_newSeat :: Seat

record ConcordSurfaceResizePayload =
  sr_surfaceId :: str
  sr_widthPx :: int
  sr_heightPx :: int

record ConcordStateEventPayload =
  se_roomId :: str
  se_eventType :: str
  se_content :: json
  se_sender :: str
  se_originServerTs :: int
  se_stateKey :: "str option"

record ConcordPermissionDeniedPayload =
  pd_action :: str
  pd_reason :: str
  pd_detail :: "str option"

datatype ConcordShellMessage =
    CInit ConcordInitPayload
  | CParticipantJoin str Seat
  | CParticipantLeave str
  | CHostTransfer ConcordHostTransferPayload
  | CSurfaceResize ConcordSurfaceResizePayload
  | CStateEvent ConcordStateEventPayload
  | CPermissionDenied ConcordPermissionDeniedPayload

section \<open>Envelopes as posted\<close>

fun mode_name :: "Mode \<Rightarrow> str" where
  "mode_name Shared = ''shared''"
| "mode_name SharedReadonly = ''shared_readonly''"
| "mode_name SharedAdminInput = ''shared_admin_input''"
| "mode_name PerUser = ''per_user''"
| "mode_name Hybrid = ''hybrid''"

fun surface_type_name :: "surface_type \<Rightarrow> str" where
  "surface_type_name TPanel = ''panel''"
| "surface_type_name TModal = ''modal''"
| "surface_type_name TPip = ''pip''"
| "surface_type_name TFullscreen = ''fullscreen''"
| "surface_type_name TBackground = ''background''"
| "surface_type_name TBrowser = ''browser''"

fun anchor_name :: "anchor \<Rightarrow> str" where
  "anchor_name LeftSidebar = ''left_sidebar''"
| "anchor_name RightSidebar = ''right_sidebar''"
| "anchor_name BottomBar = ''bottom_bar''"
| "anchor_name Center = ''center''"
| "anchor_name ANone = ''none''"

definition opt_field :: "str \<Rightarrow> ('a \<Rightarrow> json) \<Rightarrow> 'a option \<Rightarrow> (str \<times> json) list" where
  "opt_field k f x = (case x of None \<Rightarrow> [] | Some v \<Rightarrow> [(k, f v)])"

definition descriptor_json :: "SurfaceDescriptor \<Rightarrow> json" where
  "descriptor_json d = JObj
     ([(''surface_id'', JStr (sd_surface_id d)), (''type'', JStr (surface_type_name (sd_type d))),
       (''anchor'', JStr (anchor_name (sd_anchor d)))] @
      opt_field ''min_width_px'' JNum (sd_min_width_px d) @
      opt_field ''min_height_px'' JNum (sd_min_height_px d) @
      (case sd_preferred_aspect d of AspectUndefined \<Rightarrow> [] | AspectNull \<Rightarrow> [(''preferred_aspect'', JNull)]
         | AspectStr s \<Rightarrow> [(''preferred_aspect'', JStr s)]) @
      opt_field ''z_index'' JNum (sd_z_index d))"

fun payload_json :: "ConcordShellMessage \<Rightarrow> json" where
  "payload_json (CInit p) = JObj
     [(''sessionId'', JStr (ci_sessionId p)), (''extensionId'', JStr (ci_extensionId p)),
      (''mode'', JStr (mode_name (ci_mode p))), (''participantId'', JStr (ci_participantId p)),
      (''seat'', JStr (seat_name (ci_seat p))), (''surfaces'', JArr (map descriptor_json (ci_surfaces p)))]"
| "payload_json (CParticipantJoin who seat) =
     JObj [(''participantId'', JStr who), (''seat'', JStr (seat_name seat))]"
| "payload_json (CParticipantLeave who) = JObj [(''participantId'', JStr who)]"
| "payload_json (CHostTransfer p) = JObj
     [(''previousHostId'', JStr (ht_previousHostId p)), (''newHostId'', JStr (ht_newHostId p)),
      (''newSeat'', JStr (seat_name (ht_newSeat p)))]"
| "payload_json (CSurfaceResize p) = JObj
     [(''surfaceId'', JStr (sr_surfaceId p)), (''widthPx'', JNum (sr_widthPx p)), (''heightPx'', JNum (sr_heightPx p))]"
| "payload_json (CStateEvent p) = JObj
     ([(''roomId'', JStr (se_roomId p)), (''eventType'', JStr (se_eventType p)), (''content'', se_content p),
       (''sender'', JStr (se_sender p)), (''originServerTs'', JNum (se_originServerTs p))] @
      opt_field ''stateKey'' JStr (se_stateKey p))"
| "payload_json (CPermissionDenied p) = JObj
     ([(''action'', JStr (pd_action p)), (''reason'', JStr (pd_reason p))] @ opt_field ''detail'' JStr (pd_detail p))"

fun message_type :: "ConcordShellMessage \<Rightarrow> str" where
  "message_type (CInit _) = ''concord:init''"
| "message_type (CParticipantJoin _ _) = ''concord:participant_join''"
| "message_type (CParticipantLeave _) = ''concord:participant_leave''"
| "message_type (CHostTransfer _) = ''concord:host_transfer''"
| "message_type (CSurfaceResize _) = ''concord:surface_resize''"
| "message_type (CStateEvent _) = ''concord:state_event''"
| "message_type (CPermissionDenied _) = ''concord:permission_denied''"

definition message_json :: "ConcordShellMessage \<Rightarrow> json" where
  "message_json m = JObj [(''type'', JStr (message_type m)), (''payload'', payload_json m),
     (''version'', JNum CONCORD_SDK_VERSION)]"

section \<open>Posting\<close>

record Frame =
  frame_src :: "str option"
  frame_hasWindow :: bool

text \<open>\<open>originOf\<close> is \<open>new URL(src, window.location.href).origin\<close>, None when the constructor throws.\<close>
definition resolvePostTargetOrigin :: "(str \<Rightarrow> str option) \<Rightarrow> Frame option \<Rightarrow> str" where
  "resolvePostTargetOrigin originOf frame =
     (case frame of None \<Rightarrow> ''*''
      | Some f \<Rightarrow> (case frame_src f of None \<Rightarrow> ''*''
        | Some src \<Rightarrow> if src = [] then ''*'' else (case originOf src of None \<Rightarrow> ''*'' | Some orig \<Rightarrow> orig)))"

definition postToFrame :: "(str \<Rightarrow> str option) \<Rightarrow> Frame option \<Rightarrow> ConcordShellMessage \<Rightarrow> (json \<times> str) option" where
  "postToFrame originOf frame m =
     (case frame of None \<Rightarrow> None
      | Some f \<Rightarrow> if frame_hasWindow f then Some (message_json m, resolvePostTargetOrigin originOf frame) else None)"

section \<open>Guards\<close>

definition isExtensionInboundMessage :: "json \<Rightarrow> bool" where
  "isExtensionInboundMessage data =
     (if \<not> nonnull_object (Some data) then False
      else (case as_str (jget data ''type'') of None \<Rightarrow> False | Some t \<Rightarrow> starts_with ''extension:'' t) \<and>
           jget data ''version'' = Some (JNum CONCORD_SDK_VERSION) \<and>
           nonnull_object (jget data ''payload''))"

fun manifestAllows :: "str list option \<Rightarrow> str list \<Rightarrow> bool" where
  "manifestAllows None anyOf = False"
| "manifestAllows (Some perms) [] = False"
| "manifestAllows (Some perms) (p # ps) = (if p \<in> set perms then True else manifestAllows (Some perms) ps)"

definition isConcordShellMessage :: "json \<Rightarrow> bool" where
  "isConcordShellMessage data =
     (if \<not> nonnull_object (Some data) then False
      else (case as_str (jget data ''type'') of None \<Rightarrow> False | Some t \<Rightarrow> starts_with ''concord:'' t) \<and>
           jget data ''version'' = Some (JNum CONCORD_SDK_VERSION))"

lemma manifestAllows_iff:
  "manifestAllows perms anyOf \<longleftrightarrow> (\<exists>ps. perms = Some ps \<and> set anyOf \<inter> set ps \<noteq> {})"
  by (induction perms anyOf rule: manifestAllows.induct) auto

text \<open>
  The two directions of the protocol are told apart by the guards: every envelope the shell's
  builders make is recognised by the extension's guard, carries a payload object and the protocol
  version, and is never taken for an inbound verb, so a frame cannot be answered by its own echo.
\<close>
theorem shell_messages_recognised:
  "isConcordShellMessage (message_json m) \<and> \<not> isExtensionInboundMessage (message_json m) \<and>
   jget (message_json m) ''payload'' = Some (payload_json m) \<and> nonnull_object (Some (payload_json m))"
proof -
  have "starts_with ''concord:'' (message_type m)" "\<not> starts_with ''extension:'' (message_type m)"
    by (cases m; simp add: starts_with_def)+
  moreover have "nonnull_object (Some (payload_json m))" by (cases m) (simp_all add: nonnull_object_def)
  ultimately show ?thesis
    by (simp add: isConcordShellMessage_def isExtensionInboundMessage_def message_json_def nonnull_object_def)
qed

end
