(* ===== verification/ExtensionEmbed.thy ===== *)
theory ExtensionEmbed
  imports Sdk
begin

text \<open>
  The shell's side of an extension session, \<open>client/src/components/extension/ExtensionEmbed.tsx\<close> and
  \<open>client/src/hooks/useExtensionBridge.ts\<close>: the layout normaliser, the two message handlers a frame can
  reach, the forwarding of room events to frames, and the bridge that feeds it.
\<close>

section \<open>Surfaces\<close>

text \<open>A session surface of the store, with its free-form layout record.\<close>
record ExtensionSurfaceInput =
  esi_surface_id :: str
  esi_layout :: "json option"

definition anchor_of_name :: "str \<Rightarrow> anchor option" where
  "anchor_of_name s = map_of (map (\<lambda>a. (anchor_name a, a)) [LeftSidebar, RightSidebar, BottomBar, Center, ANone]) s"

definition toSurfaceDescriptor :: "SurfaceDescriptor + ExtensionSurfaceInput \<Rightarrow> SurfaceDescriptor" where
  "toSurfaceDescriptor i = (case i of
     Inl d \<Rightarrow> d
   | Inr s \<Rightarrow>
      let layout = the (nullish_or (esi_layout s) (Some (JObj [])))
      in \<lparr>sd_surface_id = esi_surface_id s, sd_type = TPanel,
          sd_anchor = (case as_str (jget layout ''anchor'') of
             None \<Rightarrow> RightSidebar
           | Some a \<Rightarrow> (case anchor_of_name a of None \<Rightarrow> RightSidebar | Some x \<Rightarrow> x)),
          sd_min_width_px = as_num (jget layout ''min_width_px''),
          sd_min_height_px = as_num (jget layout ''min_height_px''),
          sd_preferred_aspect = (case jget layout ''preferred_aspect'' of
             Some (JStr x) \<Rightarrow> AspectStr x | Some JNull \<Rightarrow> AspectNull | _ \<Rightarrow> AspectUndefined),
          sd_z_index = as_num (jget layout ''z_index'')\<rparr>)"

definition DEFAULT_SURFACE :: SurfaceDescriptor where
  "DEFAULT_SURFACE = \<lparr>sd_surface_id = ''__default__'', sd_type = TPanel, sd_anchor = RightSidebar,
     sd_min_width_px = None, sd_min_height_px = None, sd_preferred_aspect = AspectUndefined, sd_z_index = Some 50\<rparr>"

text \<open>The surfaces in drawing order: the default one when there is none, stably sorted by z-index.\<close>
definition sortedSurfaces :: "(SurfaceDescriptor + ExtensionSurfaceInput) list option \<Rightarrow> SurfaceDescriptor list" where
  "sortedSurfaces surfaces =
     (let normalized = map_option (map toSurfaceDescriptor) surfaces;
          active = (case normalized of None \<Rightarrow> [DEFAULT_SURFACE] | Some [] \<Rightarrow> [DEFAULT_SURFACE] | Some ds \<Rightarrow> ds)
      in sort_key (\<lambda>d. case sd_z_index d of None \<Rightarrow> 0 | Some z \<Rightarrow> z) active)"

section \<open>Actions claimed by a frame\<close>

text \<open>What the handler of \<open>extension_action\<close> does: ignore the event, block it, accept it (with an
  acknowledgement when there is a source to answer), or die in a TypeError.\<close>
datatype action_outcome = ActIgnored | ActBlocked | ActAllowed "json list" | ActThrows

definition action_ack :: "json option \<Rightarrow> json" where
  "action_ack action = JObj ([(''type'', JStr ''extension_action_ack'')] @
     opt_field ''action'' id action @ [(''allowed'', JBool True)])"

definition onExtensionAction :: "Mode \<Rightarrow> Seat \<Rightarrow> json option \<Rightarrow> bool \<Rightarrow> action_outcome" where
  "onExtensionAction mode seat data hasSource =
     (case data of None \<Rightarrow> ActIgnored
      | Some d \<Rightarrow>
        if \<not> truthy (Some d) \<or> \<not> is_object d \<or> jget d ''type'' \<noteq> Some (JStr ''extension_action'') then ActIgnored
        else (case checkAny mode seat (jget d ''action'') (nullish_or (jget d ''permissions'') None) of
            None \<Rightarrow> ActThrows
          | Some False \<Rightarrow> ActBlocked
          | Some True \<Rightarrow> ActAllowed (if hasSource then [action_ack (jget d ''action'')] else [])))"

section \<open>State events requested by a frame\<close>

record SendStateArgs =
  ss_roomId :: json
  ss_eventType :: str
  ss_stateKey :: json
  ss_content :: json

text \<open>What the host's \<open>onSendStateEvent\<close> does with a request: it is not wired, it succeeds, or it fails
  (by throwing or by rejecting) with a message.\<close>
datatype backend = Unwired | Backend "SendStateArgs \<Rightarrow> str option"

record send_outcome =
  so_emitted :: "SendStateArgs list"
  so_replies :: "ConcordShellMessage list"

definition denied :: "bool \<Rightarrow> str \<Rightarrow> str option \<Rightarrow> send_outcome" where
  "denied hasSource reason detail = \<lparr>so_emitted = [], so_replies =
     (if hasSource then [CPermissionDenied \<lparr>pd_action = ''extension:send_state_event'', pd_reason = reason,
        pd_detail = detail\<rparr>] else [])\<rparr>"

definition emitState :: "backend \<Rightarrow> bool \<Rightarrow> SendStateArgs \<Rightarrow> send_outcome" where
  "emitState b hasSource args = (case b of
     Unwired \<Rightarrow> \<lparr>so_emitted = [], so_replies = []\<rparr>
   | Backend f \<Rightarrow> (case f args of
        None \<Rightarrow> \<lparr>so_emitted = [args], so_replies = []\<rparr>
      | Some err \<Rightarrow> \<lparr>so_emitted = [args], so_replies = so_replies (denied hasSource ''backend_error'' (Some err))\<rparr>))"

text \<open>The room a request addresses: its own \<open>roomId\<close>, any value, or else the session's room.\<close>
definition targetRoom :: "json \<Rightarrow> str option \<Rightarrow> json option" where
  "targetRoom payload roomId = nullish_or (jget payload ''roomId'') (map_option JStr roomId)"

definition onSendStateEvent ::
  "Mode \<Rightarrow> Seat \<Rightarrow> str list option \<Rightarrow> str option \<Rightarrow> backend \<Rightarrow> json \<Rightarrow> bool \<Rightarrow> send_outcome" where
  "onSendStateEvent mode seat manifestPermissions roomId b data hasSource =
     (if \<not> isExtensionInboundMessage data then \<lparr>so_emitted = [], so_replies = []\<rparr>
      else if jget data ''type'' \<noteq> Some (JStr ''extension:send_state_event'') then \<lparr>so_emitted = [], so_replies = []\<rparr>
      else
        let payload = the (jget data ''payload'');
            target = targetRoom payload roomId
        in case (as_str (jget payload ''eventType''), nonnull_object (jget payload ''content'')) of
             (Some eventType, True) \<Rightarrow>
               if \<not> truthy target then denied hasSource ''invalid_payload'' (Some ''no_room'')
               else if truthy (jget payload ''roomId'') \<and> roomId \<noteq> None \<and> roomId \<noteq> Some [] \<and>
                       jget payload ''roomId'' \<noteq> map_option JStr roomId
                    then denied hasSource ''session_role_forbidden'' (Some ''cross_room'')
               else if \<not> check mode seat SendStateEvents None then denied hasSource ''session_role_forbidden'' None
               else if manifestPermissions = None then denied hasSource ''manifest_unknown'' None
               else if \<not> manifestAllows manifestPermissions [''state_events'', ''matrix.send'']
                    then denied hasSource ''manifest_missing_permission'' (Some ''state_events|matrix.send'')
               else emitState b hasSource \<lparr>ss_roomId = the target, ss_eventType = eventType,
                      ss_stateKey = the (nullish_or (jget payload ''stateKey'') (Some (JStr []))),
                      ss_content = the (jget payload ''content'')\<rparr>
           | _ \<Rightarrow> denied hasSource ''invalid_payload'' None)"

section \<open>Room events forwarded to the frames\<close>

record IncomingMatrixEvent =
  im_type :: str
  im_content :: json
  im_sender :: str
  im_origin_server_ts :: int
  im_state_key :: "str option"

definition stateEventPayload :: "str \<Rightarrow> IncomingMatrixEvent \<Rightarrow> ConcordStateEventPayload" where
  "stateEventPayload roomId ev = \<lparr>se_roomId = roomId, se_eventType = im_type ev, se_content = im_content ev,
     se_sender = im_sender ev, se_originServerTs = im_origin_server_ts ev, se_stateKey = im_state_key ev\<rparr>"

text \<open>The effect: no subscription without a room and the manifest's permission; otherwise every event
  of the stream is posted to every frame of the container.\<close>
definition forwardRoomEvents ::
  "(str \<Rightarrow> str option) \<Rightarrow> str list option \<Rightarrow> str option \<Rightarrow> Frame list \<Rightarrow> IncomingMatrixEvent list \<Rightarrow> (json \<times> str) list" where
  "forwardRoomEvents originOf manifestPermissions roomId frames evs = (case roomId of
     None \<Rightarrow> []
   | Some rid \<Rightarrow>
       if rid = [] then []
       else if \<not> manifestAllows manifestPermissions [''state_events'', ''matrix.read''] then []
       else List.map_filter (\<lambda>(ev, f). postToFrame originOf (Some f) (CStateEvent (stateEventPayload rid ev)))
              (List.product evs frames))"

section \<open>The bridge to the Matrix client\<close>

text \<open>An event as matrix-js-sdk delivers it, and the bus it arrives on: the client's timeline, with the
  room it belongs to, or the target room's own state stream.\<close>
record MatrixEvent =
  me_id :: "str option"
  me_type :: str
  me_content :: "json option"
  me_sender :: "str option"
  me_ts :: "int option"
  me_state_key :: "str option"

datatype delivery = OnTimeline "str option" MatrixEvent | OnStateEvent MatrixEvent

definition toIncoming :: "int \<Rightarrow> MatrixEvent \<Rightarrow> IncomingMatrixEvent" where
  "toIncoming now ev = \<lparr>im_type = me_type ev,
     im_content = (case me_content ev of None \<Rightarrow> JObj [] | Some c \<Rightarrow> JObj (spread c)),
     im_sender = (case me_sender ev of None \<Rightarrow> [] | Some s \<Rightarrow> s),
     im_origin_server_ts = (case me_ts ev of None \<Rightarrow> now | Some t \<Rightarrow> t),
     im_state_key = me_state_key ev\<rparr>"

text \<open>The dedupe both listeners share: the set of seen ids, and what is handed on.\<close>
definition dedupe :: "int \<Rightarrow> MatrixEvent \<Rightarrow> str set \<Rightarrow> IncomingMatrixEvent list \<times> str set" where
  "dedupe now ev seen = (case me_id ev of
     None \<Rightarrow> ([toIncoming now ev], seen)
   | Some eid \<Rightarrow> if eid = [] then ([toIncoming now ev], seen)
       else if eid \<in> seen then ([], seen)
       else ([toIncoming now ev], insert eid seen))"

fun onDelivery :: "str \<Rightarrow> int \<Rightarrow> delivery \<Rightarrow> str set \<Rightarrow> IncomingMatrixEvent list \<times> str set" where
  "onDelivery rid now (OnTimeline room ev) seen =
     (if room \<noteq> Some rid then ([], seen) else dedupe now ev seen)"
| "onDelivery rid now (OnStateEvent ev) seen = dedupe now ev seen"

fun subscribeRoomEvents :: "str \<Rightarrow> (int \<times> delivery) list \<Rightarrow> str set \<Rightarrow> IncomingMatrixEvent list" where
  "subscribeRoomEvents rid [] seen = []"
| "subscribeRoomEvents rid ((now, d) # ds) seen =
     (let (out, seen') = onDelivery rid now d seen in out @ subscribeRoomEvents rid ds seen')"

section \<open>What the gates guarantee\<close>

lemma so_emitted_denied [simp]: "so_emitted (denied h r d) = []"
  by (simp add: denied_def)

lemma so_emitted_emitState: "so_emitted (emitState b h args) = (if b = Unwired then [] else [args])"
  by (auto simp: emitState_def split: backend.splits option.splits)

text \<open>
  C4. Gates of the state-event verb: while the session has a room, whatever a frame posts, a state
  event is emitted only into that room, only for a seat the mode's table lets send state events, and
  only when the manifest declares one of the two permissions; the emitted type and content are those
  of the request.
\<close>
theorem state_event_gated:
  assumes "args \<in> set (so_emitted (onSendStateEvent mode seat perms (Some room) b data src))" "room \<noteq> []"
  shows "ss_roomId args = JStr room \<and> check mode seat SendStateEvents None \<and>
    manifestAllows perms [''state_events'', ''matrix.send''] \<and>
    (\<exists>payload. jget data ''payload'' = Some payload \<and>
       jget payload ''eventType'' = Some (JStr (ss_eventType args)) \<and>
       jget payload ''content'' = Some (ss_content args))"
proof -
  have inb: "isExtensionInboundMessage data"
    using assms(1) by (rule contrapos_pp) (simp add: onSendStateEvent_def)
  have ty: "jget data ''type'' = Some (JStr ''extension:send_state_event'')"
    using assms(1) by (rule contrapos_pp) (simp add: onSendStateEvent_def)
  obtain payload where pl: "jget data ''payload'' = Some payload"
    using inb by (auto simp: isExtensionInboundMessage_def nonnull_object_def split: if_splits option.splits)
  have co: "nonnull_object (jget payload ''content'')"
    using assms(1) by (rule contrapos_pp) (simp add: onSendStateEvent_def inb ty pl Let_def split: option.splits)
  then obtain c where c: "jget payload ''content'' = Some c" by (auto simp: nonnull_object_def split: option.splits)
  have "as_str (jget payload ''eventType'') \<noteq> None"
    using assms(1) by (rule contrapos_pn) (simp add: onSendStateEvent_def inb ty pl Let_def)
  then obtain et where et: "as_str (jget payload ''eventType'') = Some et" by auto
  have all: "truthy (targetRoom payload (Some room)) \<and>
      \<not> (truthy (jget payload ''roomId'') \<and> jget payload ''roomId'' \<noteq> Some (JStr room)) \<and>
      check mode seat SendStateEvents None \<and> manifestAllows perms [''state_events'', ''matrix.send''] \<and>
      ss_roomId args = the (targetRoom payload (Some room)) \<and> ss_eventType args = et \<and> ss_content args = c"
    using assms by (simp add: onSendStateEvent_def inb ty pl et c co[unfolded c] so_emitted_emitState Let_def
        del: manifestAllows.simps split: if_splits)
  then have "targetRoom payload (Some room) = Some (JStr room)"
    by (cases "jget payload ''roomId''" rule: truthy.cases) (auto simp: targetRoom_def)
  with all pl et c show ?thesis by (auto simp del: manifestAllows.simps)
qed

lemma state_event_gated_witness:
  "ss_roomId \<lparr>ss_roomId = JStr ''!r:h'', ss_eventType = ''e'', ss_stateKey = JStr [], ss_content = JObj []\<rparr> =
     JStr ''!r:h'' \<and> check Shared Participant SendStateEvents None"
  using state_event_gated[of "\<lparr>ss_roomId = JStr ''!r:h'', ss_eventType = ''e'', ss_stateKey = JStr [], ss_content = JObj []\<rparr>"
    Shared Participant "Some [''matrix.send'']" "''!r:h''" "Backend (\<lambda>_. None)"
    "JObj [(''type'', JStr ''extension:send_state_event''), (''version'', JNum 1),
       (''payload'', JObj [(''eventType'', JStr ''e''), (''content'', JObj [])])]" True]
  by (simp add: onSendStateEvent_def isExtensionInboundMessage_def nonnull_object_def targetRoom_def
      check_def emitState_def starts_with_def CONCORD_SDK_VERSION_def)

text \<open>
  The room gate compares only when the shell has a room of its own: mounted without one, the
  handler emits into whatever room the frame names.
\<close>
theorem state_event_any_room_without_session_room:
  assumes "room \<noteq> []" "check mode seat SendStateEvents None" "manifestAllows perms [''state_events'', ''matrix.send'']"
  shows "so_emitted (onSendStateEvent mode seat perms None (Backend f)
      (JObj [(''type'', JStr ''extension:send_state_event''), (''version'', JNum 1),
         (''payload'', JObj [(''roomId'', JStr room), (''eventType'', JStr ''e''), (''content'', JObj [])])]) src) =
    [\<lparr>ss_roomId = JStr room, ss_eventType = ''e'', ss_stateKey = JStr [], ss_content = JObj []\<rparr>]"
proof -
  have "perms \<noteq> None" using assms(3) by (cases perms) auto
  then show ?thesis using assms
    by (simp add: onSendStateEvent_def isExtensionInboundMessage_def nonnull_object_def targetRoom_def
        so_emitted_emitState starts_with_def CONCORD_SDK_VERSION_def Let_def del: manifestAllows.simps)
qed

lemma state_event_any_room_without_session_room_witness:
  "so_emitted (onSendStateEvent Shared Host (Some [''state_events'']) None (Backend (\<lambda>_. None))
      (JObj [(''type'', JStr ''extension:send_state_event''), (''version'', JNum 1),
         (''payload'', JObj [(''roomId'', JStr ''!other''), (''eventType'', JStr ''e''), (''content'', JObj [])])]) True) =
    [\<lparr>ss_roomId = JStr ''!other'', ss_eventType = ''e'', ss_stateKey = JStr [], ss_content = JObj []\<rparr>]"
  by (rule state_event_any_room_without_session_room) (simp_all add: check_def)

text \<open>
  The action handler decides by the mode's table exactly when the message brings no permissions of
  its own: a known action is acknowledged to its sender if the seat may do it, and blocked otherwise.
\<close>
theorem extension_action_by_table:
  "onExtensionAction mode seat
     (Some (JObj [(''type'', JStr ''extension_action''), (''action'', JStr (action_name a))])) src =
   (if check mode seat a None
    then ActAllowed (if src then [JObj [(''type'', JStr ''extension_action_ack''),
           (''action'', JStr (action_name a)), (''allowed'', JBool True)]] else [])
    else ActBlocked)"
  using checkAny_check[of mode seat a None]
  by (simp add: onExtensionAction_def action_ack_def opt_field_def)

text \<open>
  The permissions that the handler honours come from the frame itself: in any mode, any seat, even a
  spectator, gets any action acknowledged by sending the permission to do it along.
\<close>
theorem frame_grants_itself_any_action:
  "onExtensionAction mode seat
     (Some (JObj [(''type'', JStr ''extension_action''), (''action'', JStr (action_name a)),
        (''permissions'', JObj [(action_name a, JArr [JStr (seat_name seat)])])])) True =
   ActAllowed [JObj [(''type'', JStr ''extension_action_ack''), (''action'', JStr (action_name a)),
        (''allowed'', JBool True)]]"
  by (simp add: onExtensionAction_def action_ack_def opt_field_def checkAny_def key_of_def Let_def)

section \<open>What reaches the frames\<close>

text \<open>The events the bridge has to hand on, by position: those of the room whose id did not occur before.\<close>
fun delivered_event :: "delivery \<Rightarrow> MatrixEvent" where
  "delivered_event (OnTimeline _ ev) = ev"
| "delivered_event (OnStateEvent ev) = ev"

fun of_room :: "str \<Rightarrow> delivery \<Rightarrow> bool" where
  "of_room rid (OnTimeline room _) = (room = Some rid)"
| "of_room rid (OnStateEvent _) = True"

definition event_key :: "str \<Rightarrow> delivery \<Rightarrow> str option" where
  "event_key rid d = (if of_room rid d \<and> me_id (delivered_event d) \<noteq> Some [] then me_id (delivered_event d) else None)"

definition first_delivery :: "str \<Rightarrow> str set \<Rightarrow> (int \<times> delivery) list \<Rightarrow> nat \<Rightarrow> bool" where
  "first_delivery rid seen ds i = (of_room rid (snd (ds ! i)) \<and>
     (\<forall>k. event_key rid (snd (ds ! i)) = Some k \<longrightarrow>
        k \<notin> seen \<and> (\<forall>j < i. event_key rid (snd (ds ! j)) \<noteq> Some k)))"

lemma onDelivery_cases:
  "onDelivery rid now d seen =
    (if first_delivery rid seen [(now, d)] 0
     then ([toIncoming now (delivered_event d)],
           case event_key rid d of None \<Rightarrow> seen | Some k \<Rightarrow> insert k seen)
     else ([], seen))"
  by (cases d) (auto simp: first_delivery_def event_key_def dedupe_def split: option.splits)

lemma first_delivery_Suc:
  "first_delivery rid seen ((now, d) # ds) (Suc i) =
   first_delivery rid (case event_key rid d of None \<Rightarrow> seen | Some k \<Rightarrow> insert k seen) ds i"
  by (auto simp: first_delivery_def All_less_Suc2 split: option.splits)

lemma subscribe_seen:
  "subscribeRoomEvents rid ds seen =
     map (\<lambda>i. toIncoming (fst (ds ! i)) (delivered_event (snd (ds ! i))))
       (filter (first_delivery rid seen ds) [0..<length ds])"
proof (induction ds arbitrary: seen)
  case (Cons x ds)
  obtain now d where x: "x = (now, d)" by fastforce
  let ?seen = "case event_key rid d of None \<Rightarrow> seen | Some k \<Rightarrow> insert k seen"
  have head: "first_delivery rid seen ((now, d) # ds) 0 = first_delivery rid seen [(now, d)] 0"
    by (simp add: first_delivery_def)
  have same: "subscribeRoomEvents rid ds (snd (onDelivery rid now d seen)) = subscribeRoomEvents rid ds ?seen"
    by (auto simp: onDelivery_cases first_delivery_def event_key_def insert_absorb split: option.splits if_splits)
  have "[0..<length (x # ds)] = 0 # map Suc [0..<length ds]" by (simp add: upt_conv_Cons map_Suc_upt del: upt_Suc)
  then show ?case
    using same Cons.IH[of ?seen]
    by (simp add: x filter_map comp_def first_delivery_Suc head split_beta del: upt_Suc)
       (simp add: onDelivery_cases comp_def)
qed simp

text \<open>
  C13. The bridge delivers each event of the room once: of the deliveries on both buses, in order, it
  hands on exactly those of the target room whose event id (if they have one) no earlier delivery of
  the room carried.
\<close>
theorem bridge_delivers_once:
  "subscribeRoomEvents rid ds {} =
     map (\<lambda>i. toIncoming (fst (ds ! i)) (delivered_event (snd (ds ! i))))
       (filter (first_delivery rid {} ds) [0..<length ds])"
  by (rule subscribe_seen)

text \<open>
  A frame sees room events only by permission: without a room, or without a manifest that declares
  \<open>state_events\<close> or \<open>matrix.read\<close>, nothing is posted; with them every event is posted to every live
  frame, in order, and only to the frame's own origin when its source parses.
\<close>
theorem events_forwarded_by_permission:
  "forwardRoomEvents originOf perms roomId frames evs =
     (if (\<exists>rid ps. roomId = Some rid \<and> rid \<noteq> [] \<and> perms = Some ps \<and>
            (''state_events'' \<in> set ps \<or> ''matrix.read'' \<in> set ps))
      then concat (map (\<lambda>ev. map (\<lambda>f. (message_json (CStateEvent (stateEventPayload (the roomId) ev)),
             resolvePostTargetOrigin originOf (Some f))) (filter frame_hasWindow frames)) evs)
      else [])"
proof -
  have post: "List.map_filter (\<lambda>(ev, f). postToFrame originOf (Some f) (CStateEvent (stateEventPayload rid ev)))
        (List.product evs frames) =
      concat (map (\<lambda>ev. map (\<lambda>f. (message_json (CStateEvent (stateEventPayload rid ev)),
             resolvePostTargetOrigin originOf (Some f))) (filter frame_hasWindow frames)) evs)" for rid
  proof (induction evs)
    case (Cons ev evs)
    have "List.map_filter (\<lambda>(ev, f). postToFrame originOf (Some f) (CStateEvent (stateEventPayload rid ev)))
        (map (Pair ev) frames) = map (\<lambda>f. (message_json (CStateEvent (stateEventPayload rid ev)),
             resolvePostTargetOrigin originOf (Some f))) (filter frame_hasWindow frames)"
      by (induction frames) (simp_all add: List.map_filter_simps postToFrame_def)
    then show ?case using Cons by (simp add: List.map_filter_def)
  qed (simp add: List.map_filter_simps)
  show ?thesis
    by (cases roomId; cases perms) (auto simp: forwardRoomEvents_def post)
qed

text \<open>
  The layout drops and invents no surface: what is drawn is a permutation of the normalised
  surfaces (the default panel when there are none), in ascending z-index, ties in the given order.
\<close>
theorem surfaces_sorted_stably:
  "mset (sortedSurfaces (Some ss)) = mset (if ss = [] then [DEFAULT_SURFACE] else map toSurfaceDescriptor ss) \<and>
   sorted (map (\<lambda>d. case sd_z_index d of None \<Rightarrow> 0 | Some z \<Rightarrow> z) (sortedSurfaces (Some ss))) \<and>
   filter (\<lambda>d. sd_z_index d = Some z) (sortedSurfaces (Some ss)) =
     filter (\<lambda>d. sd_z_index d = Some z) (if ss = [] then [DEFAULT_SURFACE] else map toSurfaceDescriptor ss)"
proof -
  let ?key = "\<lambda>d. case sd_z_index d of None \<Rightarrow> 0 | Some z \<Rightarrow> z"
  let ?xs = "if ss = [] then [DEFAULT_SURFACE] else map toSurfaceDescriptor ss"
  have e: "sortedSurfaces (Some ss) = sort_key ?key ?xs"
    by (cases ss) (simp_all add: sortedSurfaces_def)
  have sub: "filter (\<lambda>d. sd_z_index d = Some z) ys = filter (\<lambda>d. sd_z_index d = Some z) (filter (\<lambda>d. ?key d = z) ys)" for ys
    by (simp, rule filter_cong) auto
  have "filter (\<lambda>d. ?key d = z) (sort_key ?key ?xs) = filter (\<lambda>d. ?key d = z) ?xs" by (rule sort_key_stable)
  then have "filter (\<lambda>d. sd_z_index d = Some z) (sort_key ?key ?xs) = filter (\<lambda>d. sd_z_index d = Some z) ?xs"
    using sub[of "sort_key ?key ?xs"] sub[of ?xs] by simp
  moreover have "mset (sort_key ?key ?xs) = mset ?xs" by (rule mset_sort)
  moreover have "sorted (map ?key (sort_key ?key ?xs))" by (rule sorted_sort_key)
  ultimately show ?thesis unfolding e by (intro conjI)
qed

end
