(* ===== verification/BrowserSurface.thy ===== *)
theory BrowserSurface
  imports Prelude
begin

text \<open>
  The iframe allowlist, \<open>isBrowserSurfaceSrcAllowed\<close> of
  \<open>client/src/components/extension/BrowserSurface.tsx\<close>, with its three regular expressions written
  out as matchers. The URL parser is a parameter: \<open>originOf\<close> is \<open>new URL(s).origin\<close>, None when the
  constructor throws.
\<close>

definition is_host_char :: "char \<Rightarrow> bool" where
  "is_host_char c = (is_alpha c \<or> is_digit c \<or> c = CHR ''-'')"

definition is_ext_id_char :: "char \<Rightarrow> bool" where
  "is_ext_id_char c = (is_alpha c \<or> is_digit c \<or> c = CHR ''.'' \<or> c = CHR ''_'' \<or> c = CHR ''-'')"

definition slash_or_end :: "str \<Rightarrow> bool" where
  "slash_or_end s = (case s of [] \<Rightarrow> True | c # _ \<Rightarrow> c = CHR ''/'')"

text \<open>Neither class contains the character that must follow it, so the greedy match is the only one.\<close>
definition HOSTED_ALLOWLIST :: "str \<Rightarrow> bool" where
  "HOSTED_ALLOWLIST s = (starts_with ''https://'' s \<and>
     (let r = drop 8 s; label = takeWhile is_host_char r; t = dropWhile is_host_char r
      in label \<noteq> [] \<and> starts_with ''.concord.app'' t \<and> slash_or_end (drop 12 t)))"

definition EXT_PATH :: "str \<Rightarrow> bool" where
  "EXT_PATH s = (starts_with ''/ext/'' s \<and>
     (let r = drop 5 s in takeWhile is_ext_id_char r \<noteq> [] \<and> starts_with ''/'' (dropWhile is_ext_id_char r)))"

text \<open>The scan of \<open>PATH_TRAVERSAL\<close>; the flag says that the position is the start or follows a slash.\<close>
fun traversal_from :: "bool \<Rightarrow> str \<Rightarrow> bool" where
  "traversal_from b [] = False"
| "traversal_from b (c # s) =
     (b \<and> starts_with ''..'' (c # s) \<and> slash_or_end (drop 2 (c # s)) \<or> traversal_from (c = CHR ''/'') s)"

definition PATH_TRAVERSAL :: "str \<Rightarrow> bool" where
  "PATH_TRAVERSAL s = traversal_from True s"

definition isBrowserSurfaceSrcAllowed ::
  "(str \<Rightarrow> str option) \<Rightarrow> str \<Rightarrow> str \<Rightarrow> str option \<Rightarrow> bool" where
  "isBrowserSurfaceSrcAllowed originOf src origin devUrl =
     (if src = [] then False
      else if HOSTED_ALLOWLIST src then True
      else if EXT_PATH src \<and> \<not> PATH_TRAVERSAL src then True
      else if origin \<noteq> [] \<and> starts_with (origin @ ''/ext/'') src \<and>
              EXT_PATH (drop (length origin) src) \<and> \<not> PATH_TRAVERSAL (drop (length origin) src) then True
      else (case devUrl of None \<Rightarrow> False
        | Some d \<Rightarrow> d \<noteq> [] \<and> (case (originOf src, originOf d) of
             (Some u, Some v) \<Rightarrow> u = v | _ \<Rightarrow> False)))"

section \<open>The traversal test against path segments\<close>

lemma slash_or_end_split: "slash_or_end s \<longleftrightarrow> hd (split_on CHR ''/'' s) = []"
  by (cases s) (auto simp: slash_or_end_def split: list.splits)

lemma hd_split_append:
  "CHR ''/'' \<notin> set w \<Longrightarrow> split_on CHR ''/'' (w @ s) =
     (w @ hd (split_on CHR ''/'' s)) # tl (split_on CHR ''/'' s)"
  by (induction w) (auto split: list.splits)

lemma first_segment_dots:
  "starts_with ''..'' s \<and> slash_or_end (drop 2 s) \<longleftrightarrow> hd (split_on CHR ''/'' s) = ''..''"
proof
  assume a: "starts_with ''..'' s \<and> slash_or_end (drop 2 s)"
  then have "s = ''..'' @ drop 2 s"
    by (metis append_take_drop_id starts_with_def One_nat_def Suc_1 length_Cons list.size(3))
  then have "split_on CHR ''/'' s = split_on CHR ''/'' (''..'' @ drop 2 s)" by simp
  also have "hd \<dots> = ''..''"
    using a by (subst hd_split_append) (auto simp: slash_or_end_split)
  finally show "hd (split_on CHR ''/'' s) = ''..''" .
next
  assume a: "hd (split_on CHR ''/'' s) = ''..''"
  then obtain ws where "split_on CHR ''/'' s = ''..'' # ws" by (cases "split_on CHR ''/'' s") auto
  then have "s = join_with ''/'' (''..'' # ws)" by (metis join_split_on)
  then show "starts_with ''..'' s \<and> slash_or_end (drop 2 s)"
    by (cases ws) (auto simp: starts_with_def slash_or_end_def)
qed

lemma split_on_Cons_hd_tl:
  "split_on CHR ''/'' (c # s) =
    (if c = CHR ''/'' then [] # split_on CHR ''/'' s
     else (c # hd (split_on CHR ''/'' s)) # tl (split_on CHR ''/'' s))"
  by (auto split: list.splits)

lemma traversal_from_segments:
  "traversal_from b s \<longleftrightarrow>
     (if b then ''..'' \<in> set (split_on CHR ''/'' s) else ''..'' \<in> set (tl (split_on CHR ''/'' s)))"
proof (induction s arbitrary: b)
  case (Cons c s)
  have ht: "set (split_on CHR ''/'' t) = insert (hd (split_on CHR ''/'' t)) (set (tl (split_on CHR ''/'' t)))" for t
    using split_on_nonempty[of "CHR ''/''" t] by (metis list.exhaust_sel list.simps(15))
  have fs: "starts_with ''..'' (c # s) \<and> slash_or_end (drop 2 (c # s)) \<longleftrightarrow>
      hd (split_on CHR ''/'' (c # s)) = ''..''" by (rule first_segment_dots)
  show ?case
    using Cons.IH fs ht[of "c # s"] by (auto simp del: split_on.simps simp: split_on_Cons_hd_tl split: if_splits)
qed simp

lemma PATH_TRAVERSAL_segments: "PATH_TRAVERSAL s \<longleftrightarrow> ''..'' \<in> set (split_on CHR ''/'' s)"
  by (simp add: PATH_TRAVERSAL_def traversal_from_segments)

lemma ext_id_char_not_slash: "\<not> is_ext_id_char CHR ''/''"
  by (simp add: is_ext_id_char_def is_alpha_def is_digit_def char_code_def)

lemma takeWhile_no_slash: "CHR ''/'' \<notin> set (takeWhile is_ext_id_char r)"
  using ext_id_char_not_slash by (meson set_takeWhileD)

lemma EXT_PATH_segments:
  "EXT_PATH s \<Longrightarrow> \<exists>i rest. split_on CHR ''/'' s = [] # ''ext'' # i # rest \<and> i \<noteq> [] \<and> rest \<noteq> [] \<and>
     (\<forall>c \<in> set i. is_ext_id_char c)"
proof -
  assume e: "EXT_PATH s"
  define r where "r = drop 5 s"
  define i where "i = takeWhile is_ext_id_char r"
  define t where "t = drop 1 (dropWhile is_ext_id_char r)"
  have s: "s = ''/ext/'' @ r" using e starts_withD[of "''/ext/''" s] by (simp add: EXT_PATH_def r_def eval_nat_numeral)
  have i: "i \<noteq> []" using e by (simp add: EXT_PATH_def r_def i_def Let_def)
  have "starts_with ''/'' (dropWhile is_ext_id_char r)" using e by (simp add: EXT_PATH_def r_def Let_def)
  then have "dropWhile is_ext_id_char r = CHR ''/'' # t"
    by (cases "dropWhile is_ext_id_char r") (auto simp: starts_with_def t_def)
  then have r: "r = i @ CHR ''/'' # t" by (metis i_def takeWhile_dropWhile_id)
  have "split_on CHR ''/'' r = i # split_on CHR ''/'' t"
    using hd_split_append[of i "CHR ''/'' # t"] takeWhile_no_slash[of r, folded i_def] by (simp add: r)
  then have "split_on CHR ''/'' s = [] # ''ext'' # i # split_on CHR ''/'' t" by (simp add: s)
  then show ?thesis using i by (auto simp: i_def dest: set_takeWhileD)
qed

text \<open>
  A source accepted without the development bypass is an https URL on a concord.app subdomain,
  or, after the page's own origin is cut off, a path whose segments are the empty one, "ext", a
  nonempty extension id and at least one more, none of them "..".
\<close>
theorem allowed_src_shape:
  assumes "isBrowserSurfaceSrcAllowed originOf src origin None"
  shows "HOSTED_ALLOWLIST src \<or>
    (\<exists>path i rest. (src = path \<or> src = origin @ path) \<and>
       split_on CHR ''/'' path = [] # ''ext'' # i # rest \<and> i \<noteq> [] \<and> rest \<noteq> [] \<and>
       ''..'' \<notin> set (split_on CHR ''/'' path))"
proof (cases "HOSTED_ALLOWLIST src")
  case False
  have pick: "(\<exists>path i rest. (src = path \<or> src = origin @ path) \<and>
       split_on CHR ''/'' path = [] # ''ext'' # i # rest \<and> i \<noteq> [] \<and> rest \<noteq> [] \<and>
       ''..'' \<notin> set (split_on CHR ''/'' path))"
    if "src = path \<or> src = origin @ path" "EXT_PATH path" "\<not> PATH_TRAVERSAL path" for path
    using EXT_PATH_segments[OF that(2)] that(1,3) by (metis PATH_TRAVERSAL_segments)
  have "starts_with (origin @ ''/ext/'') src \<Longrightarrow> src = origin @ drop (length origin) src"
    by (auto simp: starts_with_prefix prefix_def)
  then have "(src = src \<or> src = origin @ src) \<and> EXT_PATH src \<and> \<not> PATH_TRAVERSAL src \<or>
     (src = origin @ drop (length origin) src \<and> EXT_PATH (drop (length origin) src) \<and>
      \<not> PATH_TRAVERSAL (drop (length origin) src))"
    using assms False by (simp add: isBrowserSurfaceSrcAllowed_def split: if_splits)
  then show ?thesis using pick by blast
qed simp

lemma allowed_src_shape_witness:
  "isBrowserSurfaceSrcAllowed (\<lambda>_. None) ''/ext/com.x/i.html'' ''https://h'' None \<and>
   \<not> isBrowserSurfaceSrcAllowed (\<lambda>_. None) ''/ext/../x'' ''https://h'' None \<and>
   (\<exists>path i rest. split_on CHR ''/'' path = [] # ''ext'' # i # rest \<and> i \<noteq> [])"
proof -
  have ok: "isBrowserSurfaceSrcAllowed (\<lambda>_. None) ''/ext/com.x/i.html'' ''https://h'' None"
    and no: "\<not> isBrowserSurfaceSrcAllowed (\<lambda>_. None) ''/ext/../x'' ''https://h'' None"
    and nh: "\<not> HOSTED_ALLOWLIST ''/ext/com.x/i.html''"
    by code_simp+
  from allowed_src_shape[OF ok] nh ok no show ?thesis by blast
qed

text \<open>
  The traversal filter reads the text, not the path the browser will resolve: a source whose
  segment is the percent-encoded double dot passes, on any page origin.
\<close>
theorem encoded_dots_are_accepted:
  "isBrowserSurfaceSrcAllowed originOf ''/ext/com.x/%2e%2e/%2e%2e/admin'' origin devUrl"
proof -
  have "EXT_PATH ''/ext/com.x/%2e%2e/%2e%2e/admin''" "\<not> PATH_TRAVERSAL ''/ext/com.x/%2e%2e/%2e%2e/admin''"
    by code_simp+
  then show ?thesis by (simp add: isBrowserSurfaceSrcAllowed_def)
qed

end
