(* ===== verification/Sources.thy ===== *)
theory Sources
  imports Json
begin

text \<open>
  The store of connected instances, \<open>client/src/stores/sources.ts\<close>: the source record, the domain
  helpers, every action of the store, and the migration of persisted states. Ids and dates come from
  the clock and a random generator and are arguments; the URL parser is a parameter. An absent, null
  or undefined \<open>ownerUserId\<close> is None: the code reads it through \<open>??\<close> only.
\<close>

section \<open>Records\<close>

datatype source_status = Connecting | Connected | Disconnected | SourceError

datatype source_platform = PConcord | PMatrix | PReticulum | PConcordP2p

record ConcordSource =
  src_id :: str
  src_host :: str
  src_instanceName :: "str option"
  src_inviteToken :: str
  src_accessToken :: "str option"
  src_userId :: "str option"
  src_deviceId :: "str option"
  src_apiBase :: str
  src_homeserverUrl :: str
  src_serverName :: "str option"
  src_delegatedFrom :: "str option"
  src_authFlows :: "str list option"
  src_authError :: "str option"
  src_status :: source_status
  src_enabled :: bool
  src_error :: "str option"
  src_addedAt :: str
  src_platform :: "source_platform option"
  src_ownerUserId :: "str option"
  src_isOwner :: "bool option"
  src_branding :: "json option"

record SourcesState =
  sources :: "ConcordSource list"
  boundUserId :: "str option"

text \<open>The instance configuration, \<open>HomeserverConfig\<close> as far as the stores read it.\<close>
record InstanceConfig =
  cfg_host :: str
  cfg_instance_name :: "str option"
  cfg_api_base :: str
  cfg_homeserver_url :: str

section \<open>Domains\<close>

text \<open>\<open>hostOf\<close> is \<open>new URL(u).host\<close>, None when the constructor throws.\<close>
definition getSourceHomeserverHost :: "(str \<Rightarrow> str option) \<Rightarrow> ConcordSource \<Rightarrow> str option" where
  "getSourceHomeserverHost hostOf s =
     (if src_homeserverUrl s = [] then None else map_option to_lower (hostOf (src_homeserverUrl s)))"

definition push_domain :: "str option \<Rightarrow> str list \<Rightarrow> str list" where
  "push_domain v ds = (case v of None \<Rightarrow> ds
     | Some x \<Rightarrow> let n = to_lower (trim x) in if n = [] \<or> n \<in> set ds then ds else ds @ [n])"

definition getSourceMatrixDomains :: "(str \<Rightarrow> str option) \<Rightarrow> ConcordSource \<Rightarrow> str list" where
  "getSourceMatrixDomains hostOf s =
     push_domain (getSourceHomeserverHost hostOf s)
       (push_domain (src_delegatedFrom s)
         (push_domain (src_serverName s) (push_domain (Some (src_host s)) [])))"

definition sourceMatchesMatrixDomain :: "(str \<Rightarrow> str option) \<Rightarrow> ConcordSource \<Rightarrow> str \<Rightarrow> bool" where
  "sourceMatchesMatrixDomain hostOf s domain =
     (let n = to_lower (trim domain) in if n = [] then False else n \<in> set (getSourceMatrixDomains hostOf s))"

section \<open>Ownership\<close>

definition isPrimarySource :: "ConcordSource \<Rightarrow> bool" where
  "isPrimarySource s =
     ((case src_platform s of None \<Rightarrow> PConcord | Some p \<Rightarrow> p) = PConcord \<and> trim (src_inviteToken s) = [])"

definition resolveOwnedSourceUserId :: "ConcordSource \<Rightarrow> str option \<Rightarrow> str option" where
  "resolveOwnedSourceUserId s bound =
     (if isPrimarySource s then None else (case src_ownerUserId s of Some u \<Rightarrow> Some u | None \<Rightarrow> bound))"

section \<open>Actions\<close>

text \<open>\<open>source\<close> comes with an arbitrary id and date, which the action replaces.\<close>
definition addSource :: "str \<Rightarrow> str \<Rightarrow> ConcordSource \<Rightarrow> SourcesState \<Rightarrow> SourcesState" where
  "addSource newId now s st = st\<lparr>sources := sources st @
     [s\<lparr>src_ownerUserId := (case src_ownerUserId s of Some u \<Rightarrow> Some u | None \<Rightarrow> boundUserId st),
        src_id := newId, src_addedAt := now\<rparr>]\<rparr>"

definition reorderSources :: "str \<Rightarrow> str \<Rightarrow> SourcesState \<Rightarrow> SourcesState" where
  "reorderSources activeId overId st =
     (if activeId = overId then st
      else (case (find_index (\<lambda>s. src_id s = activeId) (sources st), find_index (\<lambda>s. src_id s = overId) (sources st)) of
          (Some from_i, Some to_i) \<Rightarrow>
             st\<lparr>sources := insert_at to_i (sources st ! from_i) (remove_at from_i (sources st))\<rparr>
        | _ \<Rightarrow> st))"

text \<open>\<open>new Map(sources.map(...)).get(id)\<close>: the last source with that id.\<close>
definition byId :: "ConcordSource list \<Rightarrow> str \<Rightarrow> ConcordSource option" where
  "byId xs i = find_by src_id i (rev xs)"

fun ordered_listed :: "ConcordSource list \<Rightarrow> str list \<Rightarrow> str list \<Rightarrow> ConcordSource list \<times> str list" where
  "ordered_listed xs [] seen = ([], seen)"
| "ordered_listed xs (i # is) seen = (case byId xs i of
     None \<Rightarrow> ordered_listed xs is seen
   | Some s \<Rightarrow> if i \<in> set seen then ordered_listed xs is seen
       else (let (out, seen') = ordered_listed xs is (i # seen) in (s # out, seen')))"

definition setSourceOrder :: "str list \<Rightarrow> SourcesState \<Rightarrow> SourcesState" where
  "setSourceOrder orderedIds st =
     (let (out, seen) = ordered_listed (sources st) orderedIds []
      in st\<lparr>sources := out @ filter (\<lambda>s. src_id s \<notin> set seen) (sources st)\<rparr>)"

text \<open>One field of a \<open>Partial<ConcordSource>\<close>.\<close>
datatype source_field =
    FId str | FHost str | FInstanceName "str option" | FInviteToken str | FAccessToken "str option"
  | FUserId "str option" | FDeviceId "str option" | FApiBase str | FHomeserverUrl str
  | FServerName "str option" | FDelegatedFrom "str option" | FAuthFlows "str list option"
  | FAuthError "str option" | FStatus source_status | FEnabled bool | FError "str option"
  | FAddedAt str | FPlatform "source_platform option" | FOwnerUserId "str option"
  | FIsOwner "bool option" | FBranding "json option"

fun patch_field :: "source_field \<Rightarrow> ConcordSource \<Rightarrow> ConcordSource" where
  "patch_field (FId x) s = s\<lparr>src_id := x\<rparr>"
| "patch_field (FHost x) s = s\<lparr>src_host := x\<rparr>"
| "patch_field (FInstanceName x) s = s\<lparr>src_instanceName := x\<rparr>"
| "patch_field (FInviteToken x) s = s\<lparr>src_inviteToken := x\<rparr>"
| "patch_field (FAccessToken x) s = s\<lparr>src_accessToken := x\<rparr>"
| "patch_field (FUserId x) s = s\<lparr>src_userId := x\<rparr>"
| "patch_field (FDeviceId x) s = s\<lparr>src_deviceId := x\<rparr>"
| "patch_field (FApiBase x) s = s\<lparr>src_apiBase := x\<rparr>"
| "patch_field (FHomeserverUrl x) s = s\<lparr>src_homeserverUrl := x\<rparr>"
| "patch_field (FServerName x) s = s\<lparr>src_serverName := x\<rparr>"
| "patch_field (FDelegatedFrom x) s = s\<lparr>src_delegatedFrom := x\<rparr>"
| "patch_field (FAuthFlows x) s = s\<lparr>src_authFlows := x\<rparr>"
| "patch_field (FAuthError x) s = s\<lparr>src_authError := x\<rparr>"
| "patch_field (FStatus x) s = s\<lparr>src_status := x\<rparr>"
| "patch_field (FEnabled x) s = s\<lparr>src_enabled := x\<rparr>"
| "patch_field (FError x) s = s\<lparr>src_error := x\<rparr>"
| "patch_field (FAddedAt x) s = s\<lparr>src_addedAt := x\<rparr>"
| "patch_field (FPlatform x) s = s\<lparr>src_platform := x\<rparr>"
| "patch_field (FOwnerUserId x) s = s\<lparr>src_ownerUserId := x\<rparr>"
| "patch_field (FIsOwner x) s = s\<lparr>src_isOwner := x\<rparr>"
| "patch_field (FBranding x) s = s\<lparr>src_branding := x\<rparr>"

type_synonym source_patch = "source_field list"

definition apply_patch :: "source_patch \<Rightarrow> ConcordSource \<Rightarrow> ConcordSource" where
  "apply_patch p s = foldl (\<lambda>s f. patch_field f s) s p"

definition updateSource :: "str \<Rightarrow> source_patch \<Rightarrow> SourcesState \<Rightarrow> SourcesState" where
  "updateSource i p st = st\<lparr>sources := update_by src_id i (apply_patch p) (sources st)\<rparr>"

definition removeSource :: "str \<Rightarrow> SourcesState \<Rightarrow> SourcesState" where
  "removeSource i st = st\<lparr>sources := drop_by src_id i (sources st)\<rparr>"

definition getSource :: "str \<Rightarrow> SourcesState \<Rightarrow> ConcordSource option" where
  "getSource i st = find_by src_id i (sources st)"

definition connectedSources :: "SourcesState \<Rightarrow> ConcordSource list" where
  "connectedSources st = filter (\<lambda>s. src_status s = Connected \<and> src_enabled s) (sources st)"

text \<open>The record updates of the remaining actions.\<close>
datatype SourceUpdate = ToggleEnabled | MarkOwner bool | RefreshPrimary InstanceConfig

fun run_update :: "SourceUpdate \<Rightarrow> ConcordSource \<Rightarrow> ConcordSource" where
  "run_update ToggleEnabled s = s\<lparr>src_enabled := \<not> src_enabled s\<rparr>"
| "run_update (MarkOwner b) s = s\<lparr>src_isOwner := Some b\<rparr>"
| "run_update (RefreshPrimary c) s =
     s\<lparr>src_instanceName := (case cfg_instance_name c of Some n \<Rightarrow> Some n | None \<Rightarrow> src_instanceName s),
       src_apiBase := cfg_api_base c, src_homeserverUrl := cfg_homeserver_url c,
       src_status := Connected, src_ownerUserId := None\<rparr>"

definition toggleSource :: "str \<Rightarrow> SourcesState \<Rightarrow> SourcesState" where
  "toggleSource i st = st\<lparr>sources := update_by src_id i (run_update ToggleEnabled) (sources st)\<rparr>"

definition markOwner :: "str \<Rightarrow> bool \<Rightarrow> SourcesState \<Rightarrow> SourcesState" where
  "markOwner i b st = st\<lparr>sources := update_by src_id i (run_update (MarkOwner b)) (sources st)\<rparr>"

definition primarySource :: "str \<Rightarrow> str \<Rightarrow> InstanceConfig \<Rightarrow> ConcordSource" where
  "primarySource newId now c = \<lparr>src_id = newId, src_host = cfg_host c, src_instanceName = cfg_instance_name c,
     src_inviteToken = [], src_accessToken = None, src_userId = None, src_deviceId = None,
     src_apiBase = cfg_api_base c, src_homeserverUrl = cfg_homeserver_url c, src_serverName = None,
     src_delegatedFrom = None, src_authFlows = None, src_authError = None, src_status = Connected,
     src_enabled = True, src_error = None, src_addedAt = now, src_platform = None,
     src_ownerUserId = None, src_isOwner = None, src_branding = None\<rparr>"

definition ensurePrimarySource :: "str \<Rightarrow> str \<Rightarrow> InstanceConfig \<Rightarrow> SourcesState \<Rightarrow> SourcesState" where
  "ensurePrimarySource newId now c st =
     (case find (\<lambda>s. to_lower (src_host s) = to_lower (cfg_host c)) (sources st) of
        Some existing \<Rightarrow> st\<lparr>sources := update_by src_id (src_id existing) (run_update (RefreshPrimary c)) (sources st)\<rparr>
      | None \<Rightarrow> st\<lparr>sources := sources st @ [primarySource newId now c]\<rparr>)"

fun bindSources :: "str option \<Rightarrow> str option \<Rightarrow> ConcordSource list \<Rightarrow> ConcordSource list" where
  "bindSources userId bound [] = []"
| "bindSources userId bound (s # ss) =
     (if isPrimarySource s then s\<lparr>src_ownerUserId := None\<rparr> # bindSources userId bound ss
      else let owner = resolveOwnedSourceUserId s bound
           in if userId = None \<or> userId = Some [] \<or> owner \<noteq> userId then bindSources userId bound ss
              else s\<lparr>src_ownerUserId := owner\<rparr> # bindSources userId bound ss)"

definition bindToUser :: "str option \<Rightarrow> SourcesState \<Rightarrow> SourcesState" where
  "bindToUser userId st = st\<lparr>sources := bindSources userId (boundUserId st) (sources st), boundUserId := userId\<rparr>"

definition migrateFromSession :: "str \<Rightarrow> str \<Rightarrow> InstanceConfig option \<Rightarrow> SourcesState \<Rightarrow> SourcesState" where
  "migrateFromSession newId now config st =
     (if sources st \<noteq> [] then st
      else (case config of None \<Rightarrow> st | Some c \<Rightarrow> st\<lparr>sources := sources st @ [primarySource newId now c]\<rparr>))"

section \<open>Persisted states\<close>

text \<open>\<open>{...s, [k]: v}\<close> on a stored object; an undefined value is not stored.\<close>
definition obj_set :: "str \<Rightarrow> json option \<Rightarrow> (str \<times> json) list \<Rightarrow> (str \<times> json) list" where
  "obj_set k v s = (case v of
     None \<Rightarrow> filter (\<lambda>kv. fst kv \<noteq> k) s
   | Some x \<Rightarrow> if k \<in> fst ` set s then map (\<lambda>kv. if fst kv = k then (k, x) else kv) s else s @ [(k, x)])"

type_synonym stored_source = "(str \<times> json) list"

text \<open>\<open>isPrimarySource\<close> on a stored object; None when \<open>inviteToken.trim\<close> is not a function.\<close>
definition storedIsPrimary :: "stored_source \<Rightarrow> bool option" where
  "storedIsPrimary s =
     (if nullish_or (map_of s ''platform'') (Some (JStr ''concord'')) = Some (JStr ''concord'')
      then map_option (\<lambda>t. trim t = []) (as_str (map_of s ''inviteToken''))
      else Some False)"

definition migrate_v1 :: "stored_source \<Rightarrow> stored_source" where
  "migrate_v1 s = obj_set ''enabled'' (nullish_or (map_of s ''enabled'') (Some (JBool True))) s"

definition migrate_v2 :: "stored_source \<Rightarrow> stored_source" where
  "migrate_v2 s = obj_set ''platform'' (nullish_or (map_of s ''platform'') (Some (JStr ''concord''))) s"

definition migrate_v3 :: "stored_source \<Rightarrow> stored_source" where
  "migrate_v3 s = foldl (\<lambda>o1 k. obj_set k (nullish_or (map_of s k) None) o1) s
     [''serverName'', ''delegatedFrom'', ''authFlows'', ''authError'', ''deviceId'']"

definition migrate_v4 :: "stored_source \<Rightarrow> stored_source option" where
  "migrate_v4 s = (case storedIsPrimary s of None \<Rightarrow> None
     | Some True \<Rightarrow> Some (obj_set ''ownerUserId'' (Some JNull) s)
     | Some False \<Rightarrow> Some (obj_set ''ownerUserId'' (nullish_or (map_of s ''ownerUserId'') None) s))"

definition migrate_v5 :: "stored_source \<Rightarrow> stored_source" where
  "migrate_v5 s = obj_set ''isOwner'' (nullish_or (map_of s ''isOwner'') (Some (JBool False))) s"

definition migrate_v6 :: "stored_source \<Rightarrow> stored_source" where
  "migrate_v6 s = obj_set ''branding'' (nullish_or (map_of s ''branding'') None) s"

definition migrateSource :: "nat \<Rightarrow> stored_source \<Rightarrow> stored_source option" where
  "migrateSource version s0 =
     (let s1 = (if version = 0 then migrate_v1 s0 else s0);
          s2 = (if version < 2 then migrate_v2 s1 else s1);
          s3 = (if version < 3 then migrate_v3 s2 else s2)
      in case (if version < 4 then migrate_v4 s3 else Some s3) of None \<Rightarrow> None
         | Some s4 \<Rightarrow> let s5 = (if version < 5 then migrate_v5 s4 else s4)
              in Some (if version < 6 then migrate_v6 s5 else s5))"

text \<open>The persisted state: its sources, when the key is there, and the bound user. A source whose
  migration throws makes the whole migration throw.\<close>
definition migrate :: "nat \<Rightarrow> stored_source list option \<times> json option \<Rightarrow>
    (stored_source list option \<times> json option) option" where
  "migrate version st = (case fst st of
     None \<Rightarrow> Some st
   | Some ss \<Rightarrow>
       let ms = map (migrateSource version) ss;
           bound = (if version < 4 then nullish_or (snd st) (Some JNull) else snd st)
       in if None \<in> set ms then None else Some (Some (map the ms), bound))"

section \<open>The store's contract on ids\<close>

lemma run_update_id [simp]: "src_id (run_update u s) = src_id s"
  by (cases u) simp_all

definition keeps_id :: "source_patch \<Rightarrow> bool" where
  "keeps_id p = list_all (\<lambda>f. case f of FId _ \<Rightarrow> False | _ \<Rightarrow> True) p"

lemma apply_patch_id: "keeps_id p \<Longrightarrow> src_id (apply_patch p s) = src_id s"
proof (induction p arbitrary: s rule: rev_induct)
  case (snoc f p)
  then show ?case by (cases f) (simp_all add: apply_patch_def keeps_id_def)
qed (simp add: apply_patch_def)

interpretation source_updates: keyed_patch src_id run_update
  by unfold_locales simp

definition sourceIds :: "SourcesState \<Rightarrow> str list" where
  "sourceIds st = map src_id (sources st)"

lemma bindSources_eq:
  "bindSources u b ss = map (\<lambda>s. s\<lparr>src_ownerUserId := resolveOwnedSourceUserId s b\<rparr>)
     (filter (\<lambda>s. isPrimarySource s \<or> u \<noteq> None \<and> u \<noteq> Some [] \<and> resolveOwnedSourceUserId s b = u) ss)"
  by (induction ss) (auto simp: resolveOwnedSourceUserId_def Let_def)

lemma sourceIds_ops [simp]:
  "sourceIds (addSource i n s st) = sourceIds st @ [i]"
  "sourceIds (removeSource k st) = filter (\<lambda>x. x \<noteq> k) (sourceIds st)"
  "sourceIds (toggleSource k st) = sourceIds st"
  "sourceIds (markOwner k b st) = sourceIds st"
  "sourceIds (bindToUser u st) = map src_id (filter (\<lambda>s. isPrimarySource s \<or>
     u \<noteq> None \<and> u \<noteq> Some [] \<and> resolveOwnedSourceUserId s (boundUserId st) = u) (sources st))"
  by (simp_all add: sourceIds_def addSource_def removeSource_def drop_by_def toggleSource_def markOwner_def
      bindToUser_def bindSources_eq source_updates.keys_update filter_map comp_def)

lemma sourceIds_update: "keeps_id p \<Longrightarrow> sourceIds (updateSource k p st) = sourceIds st"
  by (simp add: sourceIds_def updateSource_def update_by_def apply_patch_id)

lemma sourceIds_ensure:
  "sourceIds (ensurePrimarySource i n c st) = sourceIds st \<or>
   sourceIds (ensurePrimarySource i n c st) = sourceIds st @ [i]"
  by (auto simp: ensurePrimarySource_def sourceIds_def primarySource_def source_updates.keys_update split: option.splits)

lemma sourceIds_migrate:
  "sourceIds (migrateFromSession i n c st) = sourceIds st \<or>
   sourceIds (migrateFromSession i n c st) = sourceIds st @ [i]"
  by (auto simp: migrateFromSession_def sourceIds_def primarySource_def split: option.splits)

lemma reorderSources_mset: "mset (sources (reorderSources a b st)) = mset (sources st)"
  by (auto simp: reorderSources_def mset_insert_at split: option.splits intro!: mset_remove_at dest: find_index_Some)

lemma byId_SomeD: "byId xs i = Some s \<Longrightarrow> s \<in> set xs \<and> src_id s = i"
  by (auto simp: byId_def dest: find_by_SomeD)

lemma byId_None: "byId xs i = None \<longleftrightarrow> i \<notin> src_id ` set xs"
  by (simp add: byId_def find_by_None)

lemma byId_distinct: "distinct (map src_id xs) \<Longrightarrow> s \<in> set xs \<Longrightarrow> byId xs (src_id s) = Some s"
proof -
  assume d: "distinct (map src_id xs)" and s: "s \<in> set xs"
  then obtain t where t: "byId xs (src_id s) = Some t" using byId_None by fastforce
  then have "t \<in> set xs" "src_id t = src_id s" using byId_SomeD by blast+
  then show ?thesis using t s d by (metis distinct_map inj_onD)
qed

text \<open>The ids a new order lists, each known one once, at its first mention.\<close>
fun new_ids :: "(str \<Rightarrow> bool) \<Rightarrow> str list \<Rightarrow> str list \<Rightarrow> str list" where
  "new_ids known [] seen = []"
| "new_ids known (i # is) seen =
     (if known i \<and> i \<notin> set seen then i # new_ids known is (i # seen) else new_ids known is seen)"

lemma set_new_ids: "set (new_ids known is seen) = {i \<in> set is. known i} - set seen"
  by (induction "is" arbitrary: seen) auto

lemma distinct_new_ids: "distinct (new_ids known is seen)"
  by (induction "is" arbitrary: seen) (auto simp: set_new_ids)

lemma ordered_listed_eq:
  "ordered_listed xs is seen = (let ks = new_ids (\<lambda>i. byId xs i \<noteq> None) is seen in (map (the \<circ> byId xs) ks, rev ks @ seen))"
  by (induction xs "is" seen rule: ordered_listed.induct) (auto simp: Let_def split: option.splits)

lemma setSourceOrder_eq:
  "sources (setSourceOrder is st) =
     (let ks = new_ids (\<lambda>i. i \<in> set (sourceIds st)) is []
      in map (the \<circ> byId (sources st)) ks @ filter (\<lambda>s. src_id s \<notin> set ks) (sources st))"
proof -
  have "(\<lambda>i. byId (sources st) i \<noteq> None) = (\<lambda>i. i \<in> set (sourceIds st))"
    by (simp add: fun_eq_iff byId_None sourceIds_def del: not_None_eq)
  then show ?thesis by (simp add: setSourceOrder_def ordered_listed_eq Let_def)
qed

lemma setSourceOrder_ids:
  assumes "distinct (sourceIds st)"
  shows "sourceIds (setSourceOrder is st) = new_ids (\<lambda>i. i \<in> set (sourceIds st)) is [] @
     filter (\<lambda>i. i \<notin> set is) (sourceIds st)"
proof -
  let ?ks = "new_ids (\<lambda>i. i \<in> set (sourceIds st)) is []"
  have "map (src_id \<circ> (the \<circ> byId (sources st))) ?ks = ?ks"
  proof (rule map_idI)
    fix k assume "k \<in> set ?ks"
    then have "byId (sources st) k \<noteq> None" by (auto simp: set_new_ids byId_None sourceIds_def simp del: not_None_eq)
    then show "(src_id \<circ> (the \<circ> byId (sources st))) k = k" using byId_SomeD by auto
  qed
  moreover have "filter (\<lambda>i. i \<notin> set ?ks) (sourceIds st) = filter (\<lambda>i. i \<notin> set is) (sourceIds st)"
    by (rule filter_cong) (auto simp: set_new_ids)
  moreover have "sourceIds (setSourceOrder is st) =
      map (src_id \<circ> (the \<circ> byId (sources st))) ?ks @ filter (\<lambda>i. i \<notin> set ?ks) (sourceIds st)"
    by (simp only: sourceIds_def[of "setSourceOrder is st"] setSourceOrder_eq Let_def)
       (simp add: sourceIds_def filter_map comp_def)
  ultimately show ?thesis by simp
qed

lemma setSourceOrder_distinct:
  "distinct (sourceIds st) \<Longrightarrow> distinct (sourceIds (setSourceOrder is st))"
  by (auto simp: setSourceOrder_ids distinct_new_ids set_new_ids)

lemma setSourceOrder_mset:
  assumes "distinct (sourceIds st)"
  shows "mset (sources (setSourceOrder is st)) = mset (sources st)"
proof -
  have d: "distinct (sources st)" "distinct (sources (setSourceOrder is st))"
    using assms setSourceOrder_distinct[OF assms, of "is"] by (simp_all add: sourceIds_def distinct_map)
  have "set (sources (setSourceOrder is st)) = set (sources st)"
  proof (intro set_eqI iffI)
    fix s assume "s \<in> set (sources (setSourceOrder is st))"
    then show "s \<in> set (sources st)"
      by (auto simp: setSourceOrder_eq Let_def set_new_ids sourceIds_def byId_None[symmetric] dest!: byId_SomeD
          simp del: not_None_eq split: option.splits)
         (metis byId_None byId_SomeD image_eqI option.collapse)
  next
    fix s assume s: "s \<in> set (sources st)"
    then have b: "byId (sources st) (src_id s) = Some s" using assms byId_distinct by (simp add: sourceIds_def)
    then show "s \<in> set (sources (setSourceOrder is st))"
      using s by (force simp: setSourceOrder_eq Let_def image_iff)
  qed
  then show ?thesis using d set_eq_iff_mset_eq_distinct by blast
qed

section \<open>Order\<close>

text \<open>
  Moving a tile moves that source and nothing else: after \<open>reorderSources\<close> the source stands where
  the tile it was dropped on stood, and the others keep their order.
\<close>
theorem reorderSources_moves_one:
  assumes "find_index (\<lambda>s. src_id s = a) (sources st) = Some i" "find_index (\<lambda>s. src_id s = b) (sources st) = Some j" "a \<noteq> b"
  shows "sources (reorderSources a b st) ! j = sources st ! i \<and>
    drop_by src_id a (sources (reorderSources a b st)) = drop_by src_id a (sources st) \<and>
    mset (sources (reorderSources a b st)) = mset (sources st)"
proof -
  have i: "i < length (sources st)" "src_id (sources st ! i) = a" and j: "j < length (sources st)"
    using assms find_index_Some by fastforce+
  have "sources (reorderSources a b st) = insert_at j (sources st ! i) (remove_at i (sources st))"
    using assms by (simp add: reorderSources_def)
  then show ?thesis
    using i j reorderSources_mset[of a b st]
    by (simp add: nth_insert_at length_remove_at drop_by_def filter_insert_at filter_remove_at)
qed

text \<open>
  A new tile order loses and duplicates nothing: \<open>setSourceOrder\<close> puts the known ids it is given
  first, each once, in the order of first mention, then every other source in its old order, whatever
  unknown or repeated ids the list holds.
\<close>
theorem setSourceOrder_permutes:
  assumes "distinct (sourceIds st)"
  shows "mset (sources (setSourceOrder is st)) = mset (sources st) \<and>
    sourceIds (setSourceOrder is st) = new_ids (\<lambda>i. i \<in> set (sourceIds st)) is [] @
      filter (\<lambda>i. i \<notin> set is) (sourceIds st)"
  using setSourceOrder_mset[OF assms] setSourceOrder_ids[OF assms] by blast

definition sampleSource :: "str \<Rightarrow> str \<Rightarrow> str option \<Rightarrow> ConcordSource" where
  "sampleSource i token own = (primarySource i [] \<lparr>cfg_host = i, cfg_instance_name = None, cfg_api_base = [],
     cfg_homeserver_url = []\<rparr>)\<lparr>src_inviteToken := token, src_ownerUserId := own\<rparr>"

lemma reorderSources_moves_one_witness:
  "sourceIds (reorderSources ''a'' ''c'' \<lparr>sources = [sampleSource ''a'' [] None, sampleSource ''b'' [] None,
     sampleSource ''c'' [] None], boundUserId = None\<rparr>) = [''b'', ''c'', ''a''] \<and>
   sources (reorderSources ''a'' ''c'' \<lparr>sources = [sampleSource ''a'' [] None, sampleSource ''b'' [] None,
     sampleSource ''c'' [] None], boundUserId = None\<rparr>) ! 2 = sampleSource ''a'' [] None"
  using reorderSources_moves_one[of "''a''" "\<lparr>sources = [sampleSource ''a'' [] None, sampleSource ''b'' [] None,
     sampleSource ''c'' [] None], boundUserId = None\<rparr>" 0 "''c''" 2]
  by (simp add: sampleSource_def primarySource_def sourceIds_def reorderSources_def insert_at_def remove_at_def)

lemma setSourceOrder_permutes_witness:
  "sourceIds (setSourceOrder [''c'', ''x'', ''c''] \<lparr>sources = [sampleSource ''a'' [] None, sampleSource ''b'' [] None,
     sampleSource ''c'' [] None], boundUserId = None\<rparr>) = [''c'', ''a'', ''b'']"
  using setSourceOrder_permutes[of "\<lparr>sources = [sampleSource ''a'' [] None, sampleSource ''b'' [] None,
     sampleSource ''c'' [] None], boundUserId = None\<rparr>" "[''c'', ''x'', ''c'']"]
  by (simp add: sampleSource_def primarySource_def sourceIds_def)

section \<open>Isolation of users\<close>

lemma isPrimarySource_owner [simp]: "isPrimarySource (s\<lparr>src_ownerUserId := x\<rparr>) = isPrimarySource s"
  by (simp add: isPrimarySource_def)

lemma sources_bindToUser:
  "sources (bindToUser u st) = map (\<lambda>s. s\<lparr>src_ownerUserId := resolveOwnedSourceUserId s (boundUserId st)\<rparr>)
     (filter (\<lambda>s. isPrimarySource s \<or> u \<noteq> None \<and> u \<noteq> Some [] \<and> resolveOwnedSourceUserId s (boundUserId st) = u) (sources st))"
  by (simp add: bindToUser_def bindSources_eq)

lemma boundUserId_bindToUser [simp]: "boundUserId (bindToUser u st) = u"
  by (simp add: bindToUser_def)

lemma bound_sources:
  "s \<in> set (sources (bindToUser u st)) \<Longrightarrow>
   isPrimarySource s \<and> src_ownerUserId s = None \<or> \<not> isPrimarySource s \<and> u \<noteq> None \<and> u \<noteq> Some [] \<and> src_ownerUserId s = u"
  by (auto simp: sources_bindToUser resolveOwnedSourceUserId_def split: if_splits)

lemma bound_owner:
  assumes "s \<in> set (sources (bindToUser u st))"
  shows "s\<lparr>src_ownerUserId := resolveOwnedSourceUserId s u\<rparr> = s"
    and "\<not> isPrimarySource s \<Longrightarrow> resolveOwnedSourceUserId s u = u"
  using bound_sources[OF assms] by (auto simp: resolveOwnedSourceUserId_def split: option.splits)

lemma bind_again: "sources (bindToUser u (bindToUser u st)) = sources (bindToUser u st)"
proof -
  let ?st = "bindToUser u st"
  have "filter (\<lambda>s. isPrimarySource s \<or> u \<noteq> None \<and> u \<noteq> Some [] \<and> resolveOwnedSourceUserId s u = u) (sources ?st) = sources ?st"
    using bound_sources bound_owner(2) by (intro filter_True) blast
  then show ?thesis using bound_owner(1) by (simp add: sources_bindToUser[of u ?st] map_idI)
qed

text \<open>
  Binding isolates users: after \<open>bindToUser u\<close> every source is an instance-global primary one
  without an owner or an invited one owned by \<open>u\<close>; binding the same user again changes nothing, and
  binding anyone else, or signing out, leaves the primary sources only.
\<close>
theorem bindToUser_isolates:
  "(\<forall>s \<in> set (sources (bindToUser u st)). isPrimarySource s \<and> src_ownerUserId s = None \<or>
      \<not> isPrimarySource s \<and> u \<noteq> None \<and> src_ownerUserId s = u) \<and>
   bindToUser u (bindToUser u st) = bindToUser u st \<and>
   (v \<noteq> u \<longrightarrow> sources (bindToUser v (bindToUser u st)) = filter isPrimarySource (sources (bindToUser u st)))"
proof (intro conjI impI)
  let ?st = "bindToUser u st"
  show "\<forall>s \<in> set (sources ?st). isPrimarySource s \<and> src_ownerUserId s = None \<or>
      \<not> isPrimarySource s \<and> u \<noteq> None \<and> src_ownerUserId s = u"
    using bound_sources by blast
  have "sources (bindToUser u ?st) = sources ?st" by (rule bind_again)
  then show "bindToUser u ?st = ?st" by (simp add: bindToUser_def)
  assume vu: "v \<noteq> u"
  have "filter (\<lambda>s. isPrimarySource s \<or> v \<noteq> None \<and> v \<noteq> Some [] \<and> resolveOwnedSourceUserId s u = v) (sources ?st) =
      filter isPrimarySource (sources ?st)"
    using bound_owner(2) vu by (intro filter_cong) auto
  moreover have "map (\<lambda>s. s\<lparr>src_ownerUserId := resolveOwnedSourceUserId s u\<rparr>) (filter isPrimarySource (sources ?st)) =
      filter isPrimarySource (sources ?st)"
    by (rule map_idI) (use bound_owner(1) in auto)
  ultimately show "sources (bindToUser v ?st) = filter isPrimarySource (sources ?st)"
    by (simp add: sources_bindToUser[of v ?st])
qed

lemma bindToUser_isolates_witness:
  "sourceIds (bindToUser (Some ''@b'') (bindToUser (Some ''@a'') \<lparr>sources = [sampleSource ''p'' [] (Some ''@x''),
      sampleSource ''i'' ''tok'' (Some ''@a'')], boundUserId = None\<rparr>)) = [''p'']"
  using bindToUser_isolates[of "Some ''@a''" "\<lparr>sources = [sampleSource ''p'' [] (Some ''@x''),
      sampleSource ''i'' ''tok'' (Some ''@a'')], boundUserId = None\<rparr>" "Some ''@b''"]
  by (simp add: sourceIds_def sources_bindToUser sampleSource_def primarySource_def isPrimarySource_def
      resolveOwnedSourceUserId_def trim_def is_space_def char_code_def)

section \<open>The primary source\<close>

lemma run_refresh_idem: "run_update (RefreshPrimary c) (run_update (RefreshPrimary c) s) = run_update (RefreshPrimary c) s"
  by (simp split: option.splits)

lemma find_host_update:
  "find (\<lambda>s. to_lower (src_host s) = h) (update_by src_id k (run_update (RefreshPrimary c)) ss) =
   map_option (\<lambda>s. if src_id s = k then run_update (RefreshPrimary c) s else s) (find (\<lambda>s. to_lower (src_host s) = h) ss)"
  by (induction ss) (auto simp: update_by_def)

text \<open>
  \<open>ensurePrimarySource\<close> is idempotent and does what it is called for: afterwards a connected,
  ownerless source with the instance's host and its current addresses is in the store, no source is
  lost, at most one is added, and asking again, with whatever new id and date, changes nothing.
\<close>
theorem ensurePrimarySource_idempotent:
  assumes "newId \<notin> set (sourceIds st)"
  shows "ensurePrimarySource otherId later c (ensurePrimarySource newId now c st) = ensurePrimarySource newId now c st \<and>
    sourceIds (ensurePrimarySource newId now c st) \<in> {sourceIds st, sourceIds st @ [newId]} \<and>
    (\<exists>s \<in> set (sources (ensurePrimarySource newId now c st)).
       to_lower (src_host s) = to_lower (cfg_host c) \<and> src_status s = Connected \<and> src_ownerUserId s = None \<and>
       src_apiBase s = cfg_api_base c \<and> src_homeserverUrl s = cfg_homeserver_url c)"
proof (cases "find (\<lambda>s. to_lower (src_host s) = to_lower (cfg_host c)) (sources st)")
  case None
  have same: "update_by src_id newId (run_update (RefreshPrimary c)) (sources st @ [primarySource newId now c]) =
      sources st @ [primarySource newId now c]"
    using assms source_updates.update_absent[of newId "sources st" "RefreshPrimary c"]
    by (auto simp: update_by_def primarySource_def sourceIds_def split: option.splits)
  have "find (\<lambda>s. to_lower (src_host s) = to_lower (cfg_host c)) (sources st @ [primarySource newId now c]) =
      Some (primarySource newId now c)"
    using None by (simp add: find_append_Nil primarySource_def)
  moreover have "src_id (primarySource newId now c) = newId" by (simp add: primarySource_def)
  ultimately show ?thesis using None sourceIds_ensure[of newId now c st] same
    by (auto simp: ensurePrimarySource_def primarySource_def)
next
  case (Some e)
  let ?up = "update_by src_id (src_id e) (run_update (RefreshPrimary c))"
  have e: "e \<in> set (sources st)" "to_lower (src_host e) = to_lower (cfg_host c)" using find_SomeD[OF Some] by auto
  have "?up (?up (sources st)) = ?up (sources st)"
    by (simp add: update_by_def run_refresh_idem comp_def del: run_update.simps)
  moreover have "run_update (RefreshPrimary c) e \<in> set (?up (sources st))"
    using e by (auto simp: update_by_def simp del: run_update.simps intro!: image_eqI[of _ _ e])
  ultimately show ?thesis
    using Some e by (auto simp: ensurePrimarySource_def find_host_update sourceIds_def source_updates.keys_update
        simp del: run_update.simps intro!: bexI[of _ "run_update (RefreshPrimary c) e"]) simp_all
qed

lemma ensurePrimarySource_idempotent_witness:
  "sourceIds (ensurePrimarySource ''n'' [] \<lparr>cfg_host = ''H'', cfg_instance_name = None, cfg_api_base = [],
     cfg_homeserver_url = []\<rparr> \<lparr>sources = [], boundUserId = None\<rparr>) \<in> {[], [''n'']}"
  using ensurePrimarySource_idempotent[of "''n''" "\<lparr>sources = [], boundUserId = None\<rparr>" "''m''" "[]"
    "\<lparr>cfg_host = ''H'', cfg_instance_name = None, cfg_api_base = [], cfg_homeserver_url = []\<rparr>" "[]"]
  by (simp add: sourceIds_def)

section \<open>Reachable states\<close>

text \<open>The store under its actions; a generated id is one that no source has.\<close>
inductive sources_reach :: "SourcesState \<Rightarrow> bool" where
  init: "sources_reach \<lparr>sources = [], boundUserId = None\<rparr>"
| add: "sources_reach st \<Longrightarrow> i \<notin> set (sourceIds st) \<Longrightarrow> sources_reach (addSource i now s st)"
| reorder: "sources_reach st \<Longrightarrow> sources_reach (reorderSources a b st)"
| order: "sources_reach st \<Longrightarrow> sources_reach (setSourceOrder is st)"
| update: "sources_reach st \<Longrightarrow> keeps_id p \<Longrightarrow> sources_reach (updateSource i p st)"
| remove: "sources_reach st \<Longrightarrow> sources_reach (removeSource i st)"
| toggle: "sources_reach st \<Longrightarrow> sources_reach (toggleSource i st)"
| owner: "sources_reach st \<Longrightarrow> sources_reach (markOwner i b st)"
| ensure: "sources_reach st \<Longrightarrow> i \<notin> set (sourceIds st) \<Longrightarrow> sources_reach (ensurePrimarySource i now c st)"
| bind: "sources_reach st \<Longrightarrow> sources_reach (bindToUser u st)"
| migrate: "sources_reach st \<Longrightarrow> i \<notin> set (sourceIds st) \<Longrightarrow> sources_reach (migrateFromSession i now cfg st)"

text \<open>
  In every reachable state of the store the ids are pairwise distinct, as long as generated ids are
  fresh and no patch rewrites an id; so an id names at most one source.
\<close>
theorem sources_reach_distinct: "sources_reach st \<Longrightarrow> distinct (sourceIds st)"
proof (induction rule: sources_reach.induct)
  case (reorder st a b)
  have "mset (sourceIds (reorderSources a b st)) = mset (sourceIds st)"
    using reorderSources_mset[of a b st] by (metis sourceIds_def mset_map)
  then show ?case using reorder by (metis mset_eq_imp_distinct_iff)
next
  case (ensure st i now c)
  then show ?case using sourceIds_ensure[of i now c st] by auto
next
  case (migrate st i now cfg)
  then show ?case using sourceIds_migrate[of i now cfg st] by auto
next
  case (bind st u)
  then show ?case by (simp add: distinct_map_filter sourceIds_def[of st])
qed (simp_all add: setSourceOrder_distinct sourceIds_update, simp add: sourceIds_def)

lemma sources_reach_distinct_witness:
  "distinct (sourceIds (addSource ''a'' [] (sampleSource [] ''t'' None) \<lparr>sources = [], boundUserId = None\<rparr>))"
  by (rule sources_reach_distinct) (intro sources_reach.intros; simp add: sourceIds_def)

section \<open>Migration\<close>

lemma map_of_obj_set: "map_of (obj_set k v s) k' = (if k' = k then v else map_of s k')"
proof (cases v)
  case None
  then show ?thesis by (induction s) (auto simp: obj_set_def)
next
  case (Some x)
  have upd: "map_of (map (\<lambda>kv. if fst kv = k then (k, x) else kv) s) k' =
      (if k' = k then map_option (\<lambda>_. x) (map_of s k) else map_of s k')"
    by (induction s) auto
  have out: "k \<notin> fst ` set s \<Longrightarrow> map_of s k = None" by (simp add: map_of_eq_None_iff)
  have inn: "k \<in> fst ` set s \<Longrightarrow> \<exists>y. map_of s k = Some y"
    by (metis map_of_eq_None_iff not_None_eq)
  show ?thesis
  proof (cases "k \<in> fst ` set s")
    case True
    then show ?thesis using Some upd inn by (auto simp: obj_set_def)
  next
    case False
    then show ?thesis using Some out by (cases "map_of s k'") (auto simp: obj_set_def map_add_def)
  qed
qed

text \<open>What a state persisted before version 2 becomes, field by field; the other fields are untouched.\<close>
lemma migrateSource_fields:
  assumes "migrateSource 0 s = Some t"
  shows "map_of t k =
    (if k = ''enabled'' then nullish_or (map_of s k) (Some (JBool True))
     else if k = ''platform'' then nullish_or (map_of s k) (Some (JStr ''concord''))
     else if k = ''isOwner'' then nullish_or (map_of s k) (Some (JBool False))
     else if k = ''ownerUserId'' then
       (if storedIsPrimary s = Some True then Some JNull else nullish_or (map_of s k) None)
     else if k \<in> {''serverName'', ''delegatedFrom'', ''authFlows'', ''authError'', ''deviceId'', ''branding''}
       then nullish_or (map_of s k) None
     else map_of s k)"
proof -
  let ?s3 = "migrate_v3 (migrate_v2 (migrate_v1 s))"
  have s3: "map_of ?s3 j =
    (if j = ''enabled'' then nullish_or (map_of s j) (Some (JBool True))
     else if j = ''platform'' then nullish_or (map_of s j) (Some (JStr ''concord''))
     else if j \<in> {''serverName'', ''delegatedFrom'', ''authFlows'', ''authError'', ''deviceId''}
       then nullish_or (map_of s j) None else map_of s j)" for j
    by (simp add: migrate_v3_def migrate_v2_def migrate_v1_def map_of_obj_set)
  have idem: "nullish_or (nullish_or x (Some (JStr a))) (Some (JStr a)) = nullish_or x (Some (JStr a))" for x a
    by (cases x rule: truthy.cases) auto
  have prim: "storedIsPrimary ?s3 = storedIsPrimary s"
    by (simp add: storedIsPrimary_def s3 idem)
  obtain s4 where s4: "migrate_v4 ?s3 = Some s4" and t: "t = migrate_v6 (migrate_v5 s4)"
    using assms by (auto simp: migrateSource_def Let_def split: option.splits)
  obtain b where b: "storedIsPrimary s = Some b"
    using s4 unfolding migrate_v4_def prim by (cases "storedIsPrimary s") auto
  have s4_eq: "s4 = obj_set ''ownerUserId'' (if b then Some JNull else nullish_or (map_of ?s3 ''ownerUserId'') None) ?s3"
    using s4 unfolding migrate_v4_def prim b by (cases b) simp_all
  have own: "map_of ?s3 ''ownerUserId'' = map_of s ''ownerUserId''" by (simp add: s3)
  have "map_of s4 j = (if j = ''ownerUserId'' then
        (if storedIsPrimary s = Some True then Some JNull else nullish_or (map_of s j) None) else map_of ?s3 j)" for j
    unfolding s4_eq map_of_obj_set own b by simp
  then show ?thesis by (simp add: t migrate_v5_def migrate_v6_def map_of_obj_set s3)
qed

end
