(* ===== verification/Storage.thy ===== *)
theory Storage
  imports Prelude
begin

text \<open>
  The browser's key-value storage as its clients rely on it. The contract is a locale over the three
  operations (read, write, remove); the client lemmas (what a sweep of removals leaves) are proved
  once inside it. The model's storage is an association list in insertion order, which also gives
  the key enumeration \<open>ls.key(i)\<close>.
\<close>

locale web_storage =
  fixes get :: "'s \<Rightarrow> 'k \<Rightarrow> 'v option"
    and put :: "'k \<Rightarrow> 'v \<Rightarrow> 's \<Rightarrow> 's"
    and remove :: "'k \<Rightarrow> 's \<Rightarrow> 's"
  assumes get_put: "get (put k v s) k' = (if k' = k then Some v else get s k')"
    and get_remove: "get (remove k s) k' = (if k' = k then None else get s k')"
begin

lemma get_sweep: "get (fold remove ks s) k = (if k \<in> set ks then None else get s k)"
  by (induction ks arbitrary: s) (auto simp: get_remove)

lemma put_then_remove: "get (remove k (put k v s)) k' = get (remove k s) k'"
  by (simp add: get_put get_remove)

lemma sweep_keeps: "k \<notin> set ks \<Longrightarrow> get (fold remove ks s) k = get s k"
  by (simp add: get_sweep)

lemma sweep_drops: "k \<in> set ks \<Longrightarrow> get (fold remove ks s) k = None"
  by (simp add: get_sweep)

end

type_synonym local_storage = "(str \<times> str) list"

definition getItem :: "local_storage \<Rightarrow> str \<Rightarrow> str option" where
  "getItem s k = map_of s k"

fun setItem :: "str \<Rightarrow> str \<Rightarrow> local_storage \<Rightarrow> local_storage" where
  "setItem k v [] = [(k, v)]"
| "setItem k v ((k', v') # s) = (if k = k' then (k, v) # s else (k', v') # setItem k v s)"

definition removeItem :: "str \<Rightarrow> local_storage \<Rightarrow> local_storage" where
  "removeItem k s = filter (\<lambda>kv. fst kv \<noteq> k) s"

definition storage_keys :: "local_storage \<Rightarrow> str list" where
  "storage_keys s = map fst s"

lemma getItem_setItem: "getItem (setItem k v s) k' = (if k' = k then Some v else getItem s k')"
  by (induction k v s rule: setItem.induct) (auto simp: getItem_def)

lemma getItem_removeItem: "getItem (removeItem k s) k' = (if k' = k then None else getItem s k')"
  by (induction s) (auto simp: getItem_def removeItem_def)

lemma getItem_keys: "getItem s k = None \<longleftrightarrow> k \<notin> set (storage_keys s)"
  by (simp add: getItem_def storage_keys_def map_of_eq_None_iff)

interpretation ls: web_storage getItem setItem removeItem
  by unfold_locales (simp_all add: getItem_setItem getItem_removeItem)

end
