(* ===== verification/JsonText.thy ===== *)
theory JsonText
  imports Json
begin

text \<open>
  The text form of JSON values as the client writes and reads it (\<open>JSON.stringify\<close> without
  indentation, \<open>JSON.parse\<close>), with their round trip. Numbers are integers: a text with a fraction, an
  exponent or an escape outside the Latin-1 alphabet is outside the model and reads as None, like a
  syntax error. The parser recurses with fuel; the length of the text is always enough for what
  \<open>stringify\<close> writes, which \<open>parse_stringify\<close> shows.
\<close>

section \<open>Writing\<close>

definition hex_digit :: "nat \<Rightarrow> char" where
  "hex_digit d = (if d < 10 then char_of (48 + d) else char_of (87 + d))"

definition escape_char :: "char \<Rightarrow> str" where
  "escape_char c = (let n = char_code c in
     if n = 34 then [CHR 0x5C, CHR 0x22]
     else if n = 92 then [CHR 0x5C, CHR 0x5C]
     else if n = 8 then [CHR 0x5C, CHR ''b'']
     else if n = 9 then [CHR 0x5C, CHR ''t'']
     else if n = 10 then [CHR 0x5C, CHR ''n'']
     else if n = 12 then [CHR 0x5C, CHR ''f'']
     else if n = 13 then [CHR 0x5C, CHR ''r'']
     else if n < 32 then [CHR 0x5C, CHR ''u'', CHR ''0'', CHR ''0'', hex_digit (n div 16), hex_digit (n mod 16)]
     else [c])"

definition quote :: "str \<Rightarrow> str" where
  "quote s = CHR 0x22 # concat (map escape_char s) @ [CHR 0x22]"

fun stringify :: "json \<Rightarrow> str" where
  "stringify JNull = ''null''"
| "stringify (JBool b) = (if b then ''true'' else ''false'')"
| "stringify (JNum n) = int_text n"
| "stringify (JStr s) = quote s"
| "stringify (JArr xs) = CHR ''['' # join_with '','' (map stringify xs) @ '']''"
| "stringify (JObj kvs) =
     CHR ''{'' # join_with '','' (map (\<lambda>(k, v). quote k @ CHR '':'' # stringify v) kvs) @ ''}''"

section \<open>Reading\<close>

definition is_json_ws :: "char \<Rightarrow> bool" where
  "is_json_ws c = (let n = char_code c in n = 32 \<or> n = 9 \<or> n = 10 \<or> n = 13)"

definition skip_ws :: "str \<Rightarrow> str" where
  "skip_ws s = dropWhile is_json_ws s"

definition hex_value :: "char \<Rightarrow> nat option" where
  "hex_value c = (let n = char_code c in
     if 48 \<le> n \<and> n \<le> 57 then Some (n - 48)
     else if 97 \<le> n \<and> n \<le> 102 then Some (n - 87)
     else if 65 \<le> n \<and> n \<le> 70 then Some (n - 55) else None)"

definition unescape :: "char \<Rightarrow> char option" where
  "unescape e = (let n = char_code e in
     if n = 34 \<or> n = 92 \<or> n = 47 then Some e
     else if n = 98 then Some (char_of (8::nat)) else if n = 102 then Some (char_of (12::nat))
     else if n = 110 then Some (char_of (10::nat)) else if n = 114 then Some (char_of (13::nat))
     else if n = 116 then Some (char_of (9::nat)) else None)"

definition hex4 :: "char \<Rightarrow> char \<Rightarrow> char \<Rightarrow> char \<Rightarrow> char option" where
  "hex4 a b c d = (case (hex_value a, hex_value b, hex_value c, hex_value d) of
     (Some w, Some x, Some y, Some z) \<Rightarrow>
        (let n = ((w * 16 + x) * 16 + y) * 16 + z in if n < 256 then Some (char_of n) else None)
   | _ \<Rightarrow> None)"

definition consume :: "char \<Rightarrow> (str \<times> str) option \<Rightarrow> (str \<times> str) option" where
  "consume c = map_option (\<lambda>(s, r). (c # s, r))"

text \<open>The characters of a string literal, from after its opening quote.\<close>
fun parse_chars :: "str \<Rightarrow> (str \<times> str) option" where
  "parse_chars [] = None"
| "parse_chars (c # s) =
     (if c = CHR 0x22 then Some ([], s)
      else if c = CHR 0x5C then
        (case s of
           [] \<Rightarrow> None
         | e # s1 \<Rightarrow>
            if e = CHR ''u'' then
              (case s1 of
                 h1 # h2 # h3 # h4 # s2 \<Rightarrow>
                   (case hex4 h1 h2 h3 h4 of None \<Rightarrow> None | Some x \<Rightarrow> consume x (parse_chars s2))
               | _ \<Rightarrow> None)
            else (case unescape e of None \<Rightarrow> None | Some x \<Rightarrow> consume x (parse_chars s1)))
      else if char_code c < 32 then None
      else consume c (parse_chars s))"

definition digits_value :: "str \<Rightarrow> nat" where
  "digits_value ds = foldl (\<lambda>n d. n * 10 + (char_code d - 48)) 0 ds"

definition parse_nat :: "str \<Rightarrow> (nat \<times> str) option" where
  "parse_nat s = (case s of [] \<Rightarrow> None | c # r \<Rightarrow>
     if \<not> is_digit c then None
     else let (ds, t) = (if c = CHR ''0'' then ([c], r) else (takeWhile is_digit s, dropWhile is_digit s))
       in (case t of [] \<Rightarrow> Some (digits_value ds, t)
           | d # _ \<Rightarrow> if d = CHR ''.'' \<or> d = CHR ''e'' \<or> d = CHR ''E'' then None else Some (digits_value ds, t)))"

definition parse_int :: "str \<Rightarrow> (int \<times> str) option" where
  "parse_int s = (case s of [] \<Rightarrow> None | c # r \<Rightarrow>
     if c = CHR ''-'' then map_option (\<lambda>(n, t). (- int n, t)) (parse_nat r)
     else map_option (\<lambda>(n, t). (int n, t)) (parse_nat s))"

text \<open>An object under construction: a repeated key keeps its first place and takes the last value.\<close>
fun obj_put :: "str \<Rightarrow> json \<Rightarrow> (str \<times> json) list \<Rightarrow> (str \<times> json) list" where
  "obj_put k v [] = [(k, v)]"
| "obj_put k v ((k', v') # kvs) = (if k = k' then (k, v) # kvs else (k', v') # obj_put k v kvs)"

definition obj_of :: "(str \<times> json) list \<Rightarrow> (str \<times> json) list" where
  "obj_of kvs = foldl (\<lambda>o1 (k, v). obj_put k v o1) [] kvs"

fun parse_value :: "nat \<Rightarrow> str \<Rightarrow> (json \<times> str) option"
and parse_elems :: "nat \<Rightarrow> str \<Rightarrow> (json list \<times> str) option"
and parse_members :: "nat \<Rightarrow> str \<Rightarrow> ((str \<times> json) list \<times> str) option" where
  "parse_value 0 s = None"
| "parse_value (Suc n) s0 = (let s = skip_ws s0 in case s of [] \<Rightarrow> None | c # r \<Rightarrow>
     if c = CHR ''['' then
       (case skip_ws r of d # r' \<Rightarrow>
          if d = CHR '']'' then Some (JArr [], r') else map_option (\<lambda>(xs, t). (JArr xs, t)) (parse_elems n r)
        | [] \<Rightarrow> None)
     else if c = CHR ''{'' then
       (case skip_ws r of d # r' \<Rightarrow>
          if d = CHR ''}'' then Some (JObj [], r') else map_option (\<lambda>(kvs, t). (JObj (obj_of kvs), t)) (parse_members n r)
        | [] \<Rightarrow> None)
     else if c = CHR 0x22 then map_option (\<lambda>(x, t). (JStr x, t)) (parse_chars r)
     else if starts_with ''null'' s then Some (JNull, drop 4 s)
     else if starts_with ''true'' s then Some (JBool True, drop 4 s)
     else if starts_with ''false'' s then Some (JBool False, drop 5 s)
     else map_option (\<lambda>(i, t). (JNum i, t)) (parse_int s))"
| "parse_elems 0 s = None"
| "parse_elems (Suc n) s = (case parse_value n s of None \<Rightarrow> None
     | Some (v, r) \<Rightarrow> (case skip_ws r of [] \<Rightarrow> None
        | c # r' \<Rightarrow> if c = CHR '','' then map_option (\<lambda>(vs, t). (v # vs, t)) (parse_elems n r')
                   else if c = CHR '']'' then Some ([v], r') else None))"
| "parse_members 0 s = None"
| "parse_members (Suc n) s = (case skip_ws s of [] \<Rightarrow> None
     | q # s1 \<Rightarrow> if q \<noteq> CHR 0x22 then None else
        (case parse_chars s1 of None \<Rightarrow> None | Some (k, s2) \<Rightarrow>
          (case skip_ws s2 of [] \<Rightarrow> None | c # s3 \<Rightarrow> if c \<noteq> CHR '':'' then None else
            (case parse_value n s3 of None \<Rightarrow> None | Some (v, r) \<Rightarrow>
              (case skip_ws r of [] \<Rightarrow> None
               | d # r' \<Rightarrow> if d = CHR '','' then map_option (\<lambda>(kvs, t). ((k, v) # kvs, t)) (parse_members n r')
                          else if d = CHR ''}'' then Some ([(k, v)], r') else None)))))"

definition json_parse :: "str \<Rightarrow> json option" where
  "json_parse s = (case parse_value (Suc (length s)) s of None \<Rightarrow> None
     | Some (v, r) \<Rightarrow> if skip_ws r = [] then Some v else None)"

section \<open>The round trip\<close>

lemma char_code_of: "char_code (char_of n) = n mod 256"
  by (simp add: char_code_def)

lemma char_of_code [simp]: "char_of (char_code c) = c"
  by (simp add: char_code_def)

lemma char_code_eqI: "char_code c = n \<Longrightarrow> c = char_of n"
  using char_of_code[of c] by simp

lemma char_of_lits [simp]:
  "char_of (34::nat) = CHR 0x22" "char_of (92::nat) = CHR 0x5C" "char_of (48::nat) = CHR ''0''"
  by code_simp+

lemma hex_value_digit: "d < 16 \<Longrightarrow> hex_value (hex_digit d) = Some d"
  by (simp add: hex_value_def hex_digit_def char_code_of Let_def)

lemma hex4_low:
  assumes "n < 32"
  shows "hex4 CHR ''0'' CHR ''0'' (hex_digit (n div 16)) (hex_digit (n mod 16)) = Some (char_of n)"
proof -
  have z: "hex_value CHR ''0'' = Some 0" by (simp add: hex_value_def char_code_def)
  have d: "n div 16 < 16" "n mod 16 < 16" using assms by auto
  have "n div 16 * 16 + n mod 16 = n" by simp
  then show ?thesis using assms by (simp add: hex4_def z hex_value_digit d Let_def)
qed

lemma parse_escape: "parse_chars (escape_char c @ s) = consume c (parse_chars s)"
proof -
  define n where "n = char_code c"
  have c: "c = char_of n" by (simp add: n_def)
  consider "n = 34" | "n = 92" | "n = 8" | "n = 9" | "n = 10" | "n = 12" | "n = 13"
    | "n < 32" "n \<notin> {8, 9, 10, 12, 13}" | "n \<ge> 32" "n \<noteq> 34" "n \<noteq> 92" by fastforce
  then show ?thesis
  proof cases
    case 8
    then have "escape_char c = [CHR 0x5C, CHR ''u'', CHR ''0'', CHR ''0'', hex_digit (n div 16), hex_digit (n mod 16)]"
      by (simp add: escape_char_def n_def[symmetric])
    then show ?thesis by (simp add: hex4_low[OF 8(1)] c)
  next
    case 9
    then have "escape_char c = [c]" by (simp add: escape_char_def n_def[symmetric])
    moreover have "c \<noteq> CHR 0x22" "c \<noteq> CHR 0x5C" using 9 by (auto simp: n_def char_code_def)
    ultimately show ?thesis using 9 by (simp add: n_def)
  qed (simp_all add: c escape_char_def unescape_def char_code_def)
qed

lemma parse_quoted: "parse_chars (concat (map escape_char s) @ CHR 0x22 # r) = Some (s, r)"
  by (induction s) (simp_all add: parse_escape consume_def)

definition follows :: "str \<Rightarrow> bool" where
  "follows r = (case r of [] \<Rightarrow> True | c # _ \<Rightarrow> \<not> is_digit c \<and> c \<noteq> CHR ''.'' \<and> c \<noteq> CHR ''e'' \<and> c \<noteq> CHR ''E'')"

lemma digit_char_code: "d < 10 \<Longrightarrow> char_code (digit_char d) = 48 + d"
  by (simp add: digit_char_def char_code_of)

lemma nat_text_digits: "c \<in> set (nat_text n) \<Longrightarrow> is_digit c"
proof (induction n rule: nat_text.induct)
  case (1 n)
  then show ?case
    by (auto simp: nat_text.simps[of n] is_digit_def digit_char_code split: if_splits)
qed

lemma nat_text_nonempty [simp]: "nat_text n \<noteq> []"
  by (simp add: nat_text.simps[of n])

lemma digits_value_append: "digits_value (xs @ [d]) = digits_value xs * 10 + (char_code d - 48)"
  by (simp add: digits_value_def)

lemma digits_value_nat_text [simp]: "digits_value (nat_text n) = n"
proof (induction n rule: nat_text.induct)
  case (1 n)
  show ?case
  proof (cases "n < 10")
    case False
    then have "digits_value (nat_text n) = n div 10 * 10 + n mod 10"
      using 1 by (simp add: nat_text.simps[of n] digits_value_append digit_char_code)
    then show ?thesis by simp
  qed (simp add: nat_text.simps[of n] digits_value_def digit_char_code)
qed

lemma hd_nat_text: "n > 0 \<Longrightarrow> hd (nat_text n) \<noteq> CHR ''0''"
proof (induction n rule: nat_text.induct)
  case (1 n)
  show ?case
  proof (cases "n < 10")
    case True
    then have "char_code (digit_char n) \<noteq> char_code CHR ''0''"
      using 1 by (simp add: digit_char_code char_code_def[of "CHR ''0''"])
    then show ?thesis using True by (auto simp: nat_text.simps[of n])
  qed (use 1 in \<open>simp add: nat_text.simps[of n]\<close>)
qed

lemma parse_nat_text: "follows r \<Longrightarrow> parse_nat (nat_text n @ r) = Some (n, r)"
proof -
  assume f: "follows r"
  obtain c t where ct: "nat_text n = c # t" by (cases "nat_text n") auto
  have dig: "is_digit c" using nat_text_digits[of c n] ct by simp
  have take: "takeWhile is_digit (nat_text n @ r) = nat_text n" "dropWhile is_digit (nat_text n @ r) = r"
    using nat_text_digits[of _ n] f by (auto simp: follows_def takeWhile_append dropWhile_append split: list.splits)
  have rest: "(case r of [] \<Rightarrow> Some (m, r)
     | d # _ \<Rightarrow> if d = CHR ''.'' \<or> d = CHR ''e'' \<or> d = CHR ''E'' then None else Some (m, r)) = Some (m, r)" for m :: nat
    using f by (simp add: follows_def split: list.splits)
  show ?thesis
  proof (cases "n = 0")
    case True
    then have "nat_text n = [CHR ''0'']" by (simp add: nat_text.simps digit_char_def)
    moreover have "digits_value ''0'' = 0" by (simp add: digits_value_def char_code_def)
    ultimately show ?thesis using True f
      by (cases r) (simp_all add: parse_nat_def is_digit_def char_code_def follows_def)
  next
    case False
    then have "c \<noteq> CHR ''0''" using hd_nat_text[of n] ct by simp
    then show ?thesis using dig take rest unfolding parse_nat_def
      by (simp only: ct append_Cons list.case if_False) (simp add: ct[symmetric])
  qed
qed

lemma parse_int_text: "follows r \<Longrightarrow> parse_int (int_text i @ r) = Some (i, r)"
proof (cases "i < 0")
  case True
  assume "follows r"
  then show ?thesis using True by (simp add: parse_int_def int_text_def parse_nat_text)
next
  case False
  assume f: "follows r"
  obtain c t where ct: "nat_text (nat i) = c # t" by (cases "nat_text (nat i)") auto
  have "is_digit c" using nat_text_digits[of c "nat i"] ct by simp
  then have "c \<noteq> CHR ''-''" by (auto simp: is_digit_def char_code_def)
  then have "parse_int (nat_text (nat i) @ r) = map_option (\<lambda>(n, t). (int n, t)) (parse_nat (nat_text (nat i) @ r))"
    by (simp add: parse_int_def ct)
  then show ?thesis using False f by (simp add: int_text_def parse_nat_text)
qed

text \<open>Objects whose keys are pairwise distinct, at every level: what a JavaScript object can hold.\<close>
fun json_ok :: "json \<Rightarrow> bool" where
  "json_ok (JArr xs) = (\<forall>x \<in> set xs. json_ok x)"
| "json_ok (JObj kvs) = (distinct (map fst kvs) \<and> (\<forall>kv \<in> set kvs. json_ok (snd kv)))"
| "json_ok _ = True"

lemma obj_put_fresh: "k \<notin> fst ` set kvs \<Longrightarrow> obj_put k v kvs = kvs @ [(k, v)]"
  by (induction k v kvs rule: obj_put.induct) auto

lemma obj_of_distinct: "distinct (map fst kvs) \<Longrightarrow> obj_of kvs = kvs"
proof (induction kvs rule: rev_induct)
  case (snoc kv kvs)
  then show ?case by (cases kv) (simp add: obj_of_def obj_put_fresh)
qed (simp add: obj_of_def)

lemma int_text_start: "\<exists>c t. int_text i = c # t \<and> (c = CHR ''-'' \<or> is_digit c)"
proof (cases "i < 0")
  case False
  obtain c t where "nat_text (nat i) = c # t" by (cases "nat_text (nat i)") auto
  then show ?thesis using False nat_text_digits[of c "nat i"] by (auto simp: int_text_def)
qed (simp add: int_text_def)

definition value_start :: "char \<Rightarrow> bool" where
  "value_start c = (c \<in> {CHR ''n'', CHR ''t'', CHR ''f'', CHR ''['', CHR ''{'', CHR 0x22, CHR ''-''} \<or> is_digit c)"

lemma value_start_not: "value_start c \<Longrightarrow> \<not> is_json_ws c \<and> c \<noteq> CHR '']'' \<and> c \<noteq> CHR ''}'' \<and> c \<noteq> CHR '',''"
  by (auto simp: value_start_def is_json_ws_def is_digit_def char_code_def)

lemma stringify_start: "\<exists>c t. stringify v = c # t \<and> value_start c"
proof (cases v)
  case (JNum i)
  obtain c t where "int_text i = c # t" "c = CHR ''-'' \<or> is_digit c" using int_text_start by blast
  then show ?thesis using JNum by (auto simp: value_start_def)
qed (auto simp: value_start_def quote_def)

lemma stringify_length: "length (stringify v) \<ge> 1"
  using stringify_start[of v] by auto

lemma skip_ws_start: "value_start c \<Longrightarrow> skip_ws (c # t) = c # t"
  using value_start_not by (simp add: skip_ws_def)

lemma skip_ws_keep [simp]:
  "skip_ws (CHR '','' # r) = CHR '','' # r" "skip_ws (CHR '']'' # r) = CHR '']'' # r"
  "skip_ws (CHR ''}'' # r) = CHR ''}'' # r" "skip_ws (CHR '':'' # r) = CHR '':'' # r"
  "skip_ws (CHR 0x22 # r) = CHR 0x22 # r" "skip_ws [] = []"
  by (simp_all add: skip_ws_def is_json_ws_def char_code_def)

lemma follows_delims [simp]: "follows (CHR '','' # r)" "follows (CHR '']'' # r)" "follows (CHR ''}'' # r)" "follows []"
  by (simp_all add: follows_def is_digit_def char_code_def)

definition reads_back :: "json \<Rightarrow> bool" where
  "reads_back v = (\<forall>n r. length (stringify v) \<le> n \<longrightarrow> follows r \<longrightarrow> parse_value n (stringify v @ r) = Some (v, r))"

lemma parse_elems_join:
  "xs \<noteq> [] \<Longrightarrow> (\<And>x. x \<in> set xs \<Longrightarrow> reads_back x) \<Longrightarrow> length (join_with '','' (map stringify xs)) < n \<Longrightarrow>
   parse_elems n (join_with '','' (map stringify xs) @ CHR '']'' # r) = Some (xs, r)"
proof (induction xs arbitrary: n)
  case (Cons x xs)
  obtain m where n: "n = Suc m" using Cons.prems(3) by (cases n) auto
  have x: "reads_back x" using Cons.prems(2) by simp
  show ?case
  proof (cases xs)
    case Nil
    then show ?thesis using x Cons.prems(3) by (simp add: n reads_back_def)
  next
    case (Cons y ys)
    have j: "join_with '','' (map stringify (x # xs)) = stringify x @ CHR '','' # join_with '','' (map stringify xs)"
      by (simp add: Cons)
    have "parse_value m (stringify x @ CHR '','' # join_with '','' (map stringify xs) @ CHR '']'' # r) =
        Some (x, CHR '','' # join_with '','' (map stringify xs) @ CHR '']'' # r)"
      using x Cons.prems(3) unfolding reads_back_def j n by simp
    moreover have "parse_elems m (join_with '','' (map stringify xs) @ CHR '']'' # r) = Some (xs, r)"
      using Cons.prems Cons.IH[of m] stringify_length[of x] j n Cons by simp
    ultimately show ?thesis unfolding j n by simp
  qed
qed simp

definition member_text :: "str \<times> json \<Rightarrow> str" where
  "member_text kv = quote (fst kv) @ CHR '':'' # stringify (snd kv)"

lemma parse_members_join:
  "kvs \<noteq> [] \<Longrightarrow> (\<And>kv. kv \<in> set kvs \<Longrightarrow> reads_back (snd kv)) \<Longrightarrow>
   length (join_with '','' (map member_text kvs)) < n \<Longrightarrow>
   parse_members n (join_with '','' (map member_text kvs) @ CHR ''}'' # r) = Some (kvs, r)"
proof (induction kvs arbitrary: n)
  case (Cons kv kvs)
  obtain m where n: "n = Suc m" using Cons.prems(3) by (cases n) auto
  obtain k v where kv: "kv = (k, v)" by fastforce
  have v: "reads_back v" using Cons.prems(2)[of kv] kv by simp
  have head: "member_text kv @ t = CHR 0x22 # concat (map escape_char k) @ CHR 0x22 # CHR '':'' # stringify v @ t" for t
    by (simp add: member_text_def quote_def kv)
  show ?case
  proof (cases kvs)
    case Nil
    then have "length (stringify v) \<le> m" using Cons.prems(3) by (simp add: n member_text_def quote_def kv)
    then show ?thesis using v Nil by (simp add: n parse_quoted reads_back_def kv member_text_def quote_def)
  next
    case (Cons y ys)
    have j: "join_with '','' (map member_text (kv # kvs)) = member_text kv @ CHR '','' # join_with '','' (map member_text kvs)"
      by (simp add: Cons)
    have len: "length (stringify v) \<le> m" "length (join_with '','' (map member_text kvs)) < m"
      using Cons.prems(3) unfolding j n by (simp_all add: member_text_def quote_def kv)
    have "parse_value m (stringify v @ CHR '','' # join_with '','' (map member_text kvs) @ CHR ''}'' # r) =
        Some (v, CHR '','' # join_with '','' (map member_text kvs) @ CHR ''}'' # r)"
      using v len unfolding reads_back_def by simp
    moreover have "parse_members m (join_with '','' (map member_text kvs) @ CHR ''}'' # r) = Some (kvs, r)"
      using Cons.prems Cons.IH[of m] len Cons by simp
    ultimately show ?thesis unfolding j n append_assoc head by (simp add: head parse_quoted kv)
  qed
qed simp

lemma reads_back_leaf:
  "reads_back JNull" "reads_back (JBool b)" "reads_back (JStr s)" "reads_back (JNum i)"
proof -
  show "reads_back (JNum i)"
    unfolding reads_back_def
  proof (intro allI impI)
    fix n r assume n: "length (stringify (JNum i)) \<le> n" and f: "follows r"
    obtain c t where ct: "int_text i = c # t" "c = CHR ''-'' \<or> is_digit c" using int_text_start by blast
    obtain m where m: "n = Suc m" using n ct by (cases n) auto
    have vs: "value_start c" using ct(2) by (auto simp: value_start_def)
    have c: "c \<noteq> CHR ''['' \<and> c \<noteq> CHR ''{'' \<and> c \<noteq> CHR 0x22 \<and> c \<noteq> CHR ''n'' \<and> c \<noteq> CHR ''t'' \<and> c \<noteq> CHR ''f''"
      using ct(2) by (auto simp: is_digit_def char_code_def)
    have "parse_int (c # t @ r) = Some (i, r)" using parse_int_text[OF f, of i] by (simp add: ct)
    then show "parse_value n (stringify (JNum i) @ r) = Some (JNum i, r)"
      using c by (simp add: m ct skip_ws_start[OF vs] Let_def starts_with_def)
  qed
  have n: "\<not> is_json_ws CHR ''n''" "\<not> is_json_ws CHR ''t''" "\<not> is_json_ws CHR ''f''" "\<not> is_json_ws CHR 0x22"
    by (simp_all add: is_json_ws_def char_code_def)
  have step: "reads_back v" if "\<And>m r. length (stringify v) \<le> Suc m \<Longrightarrow> parse_value (Suc m) (stringify v @ r) = Some (v, r)" for v
    unfolding reads_back_def
  proof (intro allI impI)
    fix n r assume "length (stringify v) \<le> n" "follows r"
    then show "parse_value n (stringify v @ r) = Some (v, r)"
      using that stringify_length[of v] by (cases n) auto
  qed
  show "reads_back JNull" "reads_back (JBool b)" "reads_back (JStr s)"
    by (rule step, simp add: skip_ws_def n starts_with_def quote_def parse_quoted)+
qed

lemma stringify_obj: "stringify (JObj kvs) = CHR ''{'' # join_with '','' (map member_text kvs) @ ''}''"
proof -
  have "(\<lambda>(k, v). quote k @ CHR '':'' # stringify v) = member_text"
    by (simp add: fun_eq_iff member_text_def)
  then show ?thesis by simp
qed

lemma not_ws_brackets: "\<not> is_json_ws CHR ''[''" "\<not> is_json_ws CHR ''{''"
  by (simp_all add: is_json_ws_def char_code_def)

lemma join_start:
  assumes "xs \<noteq> []" "\<And>x. x \<in> set xs \<Longrightarrow> \<exists>c t. f x = c # t \<and> value_start c"
  shows "\<exists>c t. join_with '','' (map f xs) = c # t \<and> value_start c"
proof (cases xs)
  case (Cons x ys)
  then obtain c t where "f x = c # t" "value_start c" using assms(2) by force
  then show ?thesis using Cons by (cases ys) auto
qed (use assms in simp)

lemma json_reads_back: "json_ok v \<Longrightarrow> reads_back v"
proof (induction v)
  case (JArr xs)
  show ?case
    unfolding reads_back_def
  proof (intro allI impI)
    fix n r assume n: "length (stringify (JArr xs)) \<le> n" and "follows r"
    obtain m where m: "n = Suc m" using n by (cases n) auto
    show "parse_value n (stringify (JArr xs) @ r) = Some (JArr xs, r)"
    proof (cases "xs = []")
      case True
      then show ?thesis by (simp add: m skip_ws_def not_ws_brackets is_json_ws_def char_code_def)
    next
      case False
      obtain c t where ct: "join_with '','' (map stringify xs) = c # t" "value_start c"
        using join_start[OF False, of stringify] stringify_start by blast
      have "parse_elems m (join_with '','' (map stringify xs) @ CHR '']'' # r) = Some (xs, r)"
        using JArr n m by (intro parse_elems_join[OF False]) auto
      then show ?thesis using ct value_start_not[OF ct(2)]
        by (simp add: m ct skip_ws_start skip_ws_def[of "CHR ''['' # _"] not_ws_brackets)
    qed
  qed
next
  case (JObj kvs)
  show ?case
    unfolding reads_back_def
  proof (intro allI impI)
    fix n r assume n: "length (stringify (JObj kvs)) \<le> n" and "follows r"
    obtain m where m: "n = Suc m" using n by (cases n) auto
    show "parse_value n (stringify (JObj kvs) @ r) = Some (JObj kvs, r)"
    proof (cases "kvs = []")
      case True
      then show ?thesis by (simp add: m skip_ws_def not_ws_brackets is_json_ws_def char_code_def)
    next
      case False
      have "\<exists>c t. member_text x = c # t \<and> value_start c" for x
        by (simp add: member_text_def quote_def value_start_def)
      then obtain c t where ct: "join_with '','' (map member_text kvs) = c # t" "value_start c"
        using join_start[OF False, of member_text] by blast
      have "parse_members m (join_with '','' (map member_text kvs) @ CHR ''}'' # r) = Some (kvs, r)"
        using JObj n m by (intro parse_members_join[OF False]) (auto simp: stringify_obj simp del: stringify.simps)
      then show ?thesis using ct value_start_not[OF ct(2)] JObj.prems
        by (simp add: stringify_obj m ct skip_ws_start skip_ws_def[of "CHR ''{'' # _"] not_ws_brackets obj_of_distinct
            del: stringify.simps)
    qed
  qed
qed (simp_all add: reads_back_leaf)

lemma parse_stringify:
  assumes "json_ok v"
  shows "json_parse (stringify v) = Some v"
proof -
  have "parse_value (Suc (length (stringify v))) (stringify v @ []) = Some (v, [])"
    by (rule json_reads_back[OF assms, unfolded reads_back_def, rule_format]) simp_all
  then show ?thesis by (simp add: json_parse_def del: parse_value.simps)
qed

end
