(* ===== verification/Session.thy ===== *)
theory Session
  imports Sources Storage JsonText
begin

text \<open>
  The signed-in session and its teardown: \<open>client/src/stores/auth.ts\<close> (login, guest login, logout,
  restore), the chosen instance of \<open>client/src/stores/serverConfig.ts\<close>, and
  \<open>client/src/lib/disconnectSource.ts\<close>, over the sources store and the browser's local storage. A Matrix
  client is the triple it is created from; the calls on it, on the server store and on IndexedDB are
  recorded in order. A stored field that is not a string reads as undefined (None).
\<close>

section \<open>State\<close>

record MatrixClientRef =
  mc_accessToken :: "str option"
  mc_userId :: "str option"
  mc_deviceId :: "str option"

record AuthState =
  au_client :: "MatrixClientRef option"
  au_userId :: "str option"
  au_accessToken :: "str option"
  au_isLoggedIn :: bool
  au_isLoading :: bool
  au_isGuest :: bool
  au_syncing :: bool

datatype session_call = StopClient MatrixClientRef | ResetServers | SetServerUrl str | DeleteDatabase str

record World =
  w_auth :: AuthState
  w_sources :: SourcesState
  w_config :: "InstanceConfig option"
  w_tauri :: bool
  w_ls :: local_storage
  w_calls :: "session_call list"

definition initialAuth :: AuthState where
  "initialAuth = \<lparr>au_client = None, au_userId = None, au_accessToken = None, au_isLoggedIn = False,
     au_isLoading = True, au_isGuest = False, au_syncing = False\<rparr>"

definition SESSION_KEY :: str where "SESSION_KEY = ''concord_session''"

definition call :: "session_call \<Rightarrow> World \<Rightarrow> World" where
  "call c w = w\<lparr>w_calls := w_calls w @ [c]\<rparr>"

definition bindSourcesTo :: "str option \<Rightarrow> World \<Rightarrow> World" where
  "bindSourcesTo u w = w\<lparr>w_sources := bindToUser u (w_sources w)\<rparr>"

section \<open>Instance configuration\<close>

definition setHomeserver :: "InstanceConfig \<Rightarrow> World \<Rightarrow> World" where
  "setHomeserver c w = (let w1 = w\<lparr>w_config := Some c\<rparr>
     in if w_tauri w then call (SetServerUrl (cfg_homeserver_url c)) w1 else w1)"

definition clearHomeserver :: "World \<Rightarrow> World" where
  "clearHomeserver w = (let w1 = w\<lparr>w_config := None\<rparr> in if w_tauri w then call (SetServerUrl []) w1 else w1)"

definition selectedHost :: "World \<Rightarrow> str option" where
  "selectedHost w = map_option cfg_host (w_config w)"

section \<open>Signing in and out\<close>

definition setSyncing :: "bool \<Rightarrow> World \<Rightarrow> World" where
  "setSyncing b w = w\<lparr>w_auth := (w_auth w)\<lparr>au_syncing := b\<rparr>\<rparr>"

definition session_text :: "str \<Rightarrow> str \<Rightarrow> str \<Rightarrow> str" where
  "session_text accessToken userId deviceId = stringify (JObj
     [(''accessToken'', JStr accessToken), (''userId'', JStr userId), (''deviceId'', JStr deviceId)])"

definition login :: "str \<Rightarrow> str \<Rightarrow> str \<Rightarrow> World \<Rightarrow> World" where
  "login accessToken userId deviceId w =
     (let client = \<lparr>mc_accessToken = Some accessToken, mc_userId = Some userId, mc_deviceId = Some deviceId\<rparr>;
          w1 = bindSourcesTo (Some userId) (call ResetServers w);
          w2 = w1\<lparr>w_ls := setItem SESSION_KEY (session_text accessToken userId deviceId) (w_ls w1)\<rparr>
      in w2\<lparr>w_auth := (w_auth w2)\<lparr>au_client := Some client, au_userId := Some userId,
           au_accessToken := Some accessToken, au_isLoggedIn := True, au_isGuest := False, au_isLoading := False\<rparr>\<rparr>)"

definition loginGuest :: "str \<Rightarrow> str \<Rightarrow> str \<Rightarrow> World \<Rightarrow> World" where
  "loginGuest accessToken userId deviceId w =
     (let client = \<lparr>mc_accessToken = Some accessToken, mc_userId = Some userId, mc_deviceId = Some deviceId\<rparr>;
          w1 = call ResetServers w;
          w2 = w1\<lparr>w_ls := removeItem SESSION_KEY (w_ls w1)\<rparr>
      in w2\<lparr>w_auth := (w_auth w2)\<lparr>au_client := Some client, au_userId := Some userId,
           au_accessToken := Some accessToken, au_isLoggedIn := True, au_isGuest := True, au_isLoading := False\<rparr>\<rparr>)"

definition logout :: "World \<Rightarrow> World" where
  "logout w =
     (let w1 = (case au_client (w_auth w) of None \<Rightarrow> w | Some c \<Rightarrow> call (StopClient c) w);
          w2 = bindSourcesTo None (call ResetServers w1);
          w3 = w2\<lparr>w_ls := removeItem SESSION_KEY (w_ls w2)\<rparr>
      in w3\<lparr>w_auth := \<lparr>au_client = None, au_userId = None, au_accessToken = None, au_isLoggedIn = False,
           au_isLoading = False, au_isGuest = False, au_syncing = False\<rparr>\<rparr>)"

definition stop_loading :: "World \<Rightarrow> World" where
  "stop_loading w = w\<lparr>w_auth := (w_auth w)\<lparr>au_isLoading := False\<rparr>\<rparr>"

text \<open>\<open>const { accessToken, userId, deviceId } = JSON.parse(stored)\<close>; None when it throws.\<close>
definition read_session :: "str \<Rightarrow> (str option \<times> str option \<times> str option) option" where
  "read_session stored = (case json_parse stored of
     None \<Rightarrow> None
   | Some v \<Rightarrow> if v = JNull then None
       else Some (as_str (jget v ''accessToken''), as_str (jget v ''userId''), as_str (jget v ''deviceId'')))"

definition restoreSession :: "World \<Rightarrow> bool \<times> World" where
  "restoreSession w = (case getItem (w_ls w) SESSION_KEY of
     None \<Rightarrow> (False, if au_isLoading (w_auth w) then stop_loading (call ResetServers w) else w)
   | Some stored \<Rightarrow>
       if stored = [] then (False, if au_isLoading (w_auth w) then stop_loading (call ResetServers w) else w)
       else (case read_session stored of
           None \<Rightarrow> (False, stop_loading (bindSourcesTo None (call ResetServers
                       (w\<lparr>w_ls := removeItem SESSION_KEY (w_ls w)\<rparr>))))
         | Some (accessToken, userId, deviceId) \<Rightarrow>
             if au_client (w_auth w) \<noteq> None \<and> au_accessToken (w_auth w) = accessToken \<and> au_userId (w_auth w) = userId
             then (True, if au_isLoading (w_auth w) then stop_loading w else w)
             else (let w1 = bindSourcesTo userId (call ResetServers w)
               in (True, w1\<lparr>w_auth := (w_auth w1)\<lparr>au_client := Some \<lparr>mc_accessToken = accessToken,
                      mc_userId = userId, mc_deviceId = deviceId\<rparr>, au_userId := userId, au_accessToken := accessToken,
                      au_isLoggedIn := True, au_isLoading := False\<rparr>\<rparr>))))"

section \<open>Disconnecting a source\<close>

definition store_name_char :: "char \<Rightarrow> bool" where
  "store_name_char c = (is_alpha c \<or> is_digit c \<or> c = CHR ''_'' \<or> c = CHR ''.'' \<or> c = CHR ''-'')"

text \<open>\<open>s.replace(/[^A-Za-z0-9_.-]+/g, "_")\<close>; the flag says that the previous character was replaced.\<close>
fun squash :: "bool \<Rightarrow> str \<Rightarrow> str" where
  "squash b [] = []"
| "squash b (c # s) = (if store_name_char c then c # squash False s
     else if b then squash True s else CHR ''_'' # squash True s)"

definition buildSyncDbName :: "str \<Rightarrow> str \<Rightarrow> str" where
  "buildSyncDbName userId homeserverUrl =
     ''concord_matrix_store_'' @ squash False (userId @ ''|'' @ homeserverUrl)"

definition isMatrixKey :: "str \<Rightarrow> bool" where
  "isMatrixKey k = (starts_with ''mxjssdk_'' k \<or> starts_with ''mx_pending_events_'' k \<or>
     starts_with ''mx_oidc_'' k \<or> starts_with ''concord_matrix_store_'' k)"

text \<open>Whether the sweep removes a key; the user id is the disconnected one, None when there is none.\<close>
definition purgesKey :: "str option \<Rightarrow> str \<Rightarrow> bool" where
  "purgesKey user k =
     (if k = [] then False
      else if isMatrixKey k then
        (case user of None \<Rightarrow> True | Some u \<Rightarrow> u = [] \<or> includes_sub u k)
      else (case user of None \<Rightarrow> False
        | Some u \<Rightarrow> u \<noteq> [] \<and> starts_with ''concord_'' k \<and> ends_with (CHR '':'' # u) k))"

definition purgeKeys :: "str option \<Rightarrow> local_storage \<Rightarrow> local_storage" where
  "purgeKeys user s = fold removeItem (filter (purgesKey user) (storage_keys s)) s"







section \<open>Sessions across a restart\<close>

text \<open>A new process: the auth store starts afresh, what is persisted stays.\<close>
definition restarted :: "World \<Rightarrow> World" where
  "restarted w = w\<lparr>w_auth := initialAuth, w_calls := []\<rparr>"

lemma call_simps [simp]:
  "w_auth (call c w) = w_auth w" "w_sources (call c w) = w_sources w" "w_config (call c w) = w_config w"
  "w_ls (call c w) = w_ls w" "w_tauri (call c w) = w_tauri w"
  by (simp_all add: call_def)

lemma bindSourcesTo_simps [simp]:
  "w_auth (bindSourcesTo u w) = w_auth w" "w_config (bindSourcesTo u w) = w_config w" "w_ls (bindSourcesTo u w) = w_ls w"
  "w_sources (bindSourcesTo u w) = bindToUser u (w_sources w)" "w_tauri (bindSourcesTo u w) = w_tauri w"
  by (simp_all add: bindSourcesTo_def)

lemma session_text_nonempty [simp]: "session_text a u d \<noteq> []"
  by (simp add: session_text_def)

lemma read_session_text: "read_session (session_text a u d) = Some (Some a, Some u, Some d)"
proof -
  have "as_str (Some (JStr x)) = Some x" for x by simp
  then show ?thesis unfolding read_session_def session_text_def by (subst parse_stringify) simp_all
qed

definition restoresNothing :: "World \<Rightarrow> bool" where
  "restoresNothing w = (let (ok, w') = restoreSession (restarted w)
     in \<not> ok \<and> au_client (w_auth w') = None \<and> \<not> au_isLoggedIn (w_auth w') \<and> \<not> au_isLoading (w_auth w'))"

text \<open>
  A login survives a restart and nothing else does: the session that \<open>login\<close> stores is read back by
  \<open>restoreSession\<close> in a new process with the same client, user and token, and the sources bound to that
  user; after a guest login or a logout the new process restores no session and stays signed out.
\<close>
theorem session_survives_restart:
  "(let (ok, w') = restoreSession (restarted (login a u d w))
    in ok \<and> au_client (w_auth w') = Some \<lparr>mc_accessToken = Some a, mc_userId = Some u, mc_deviceId = Some d\<rparr> \<and>
       au_userId (w_auth w') = Some u \<and> au_accessToken (w_auth w') = Some a \<and> au_isLoggedIn (w_auth w') \<and>
       \<not> au_isLoading (w_auth w') \<and> w_sources w' = bindToUser (Some u) (w_sources w)) \<and>
   restoresNothing (loginGuest a u d w) \<and> restoresNothing (logout w)"
proof (intro conjI)
  have bb: "bindToUser (Some u) (bindToUser (Some u) (w_sources w)) = bindToUser (Some u) (w_sources w)"
  proof -
    have "sources (bindToUser (Some u) (bindToUser (Some u) (w_sources w))) = sources (bindToUser (Some u) (w_sources w))"
      by (rule bind_again)
    then show ?thesis by (simp add: bindToUser_def)
  qed
  show "let (ok, w') = restoreSession (restarted (login a u d w))
    in ok \<and> au_client (w_auth w') = Some \<lparr>mc_accessToken = Some a, mc_userId = Some u, mc_deviceId = Some d\<rparr> \<and>
       au_userId (w_auth w') = Some u \<and> au_accessToken (w_auth w') = Some a \<and> au_isLoggedIn (w_auth w') \<and>
       \<not> au_isLoading (w_auth w') \<and> w_sources w' = bindToUser (Some u) (w_sources w)"
    by (simp add: restoreSession_def restarted_def login_def initialAuth_def ls.get_put read_session_text bb)
  show "restoresNothing (loginGuest a u d w)" "restoresNothing (logout w)"
    by (simp_all add: restoresNothing_def restoreSession_def restarted_def loginGuest_def logout_def initialAuth_def
        ls.get_remove stop_loading_def Let_def)
qed

text \<open>
  A guest login does not rebind the sources: whatever sources the previous user's binding left,
  invited ones with their access tokens included, stay in the store of the guest session.
\<close>
theorem guest_keeps_previous_sources:
  "w_sources (loginGuest a u d w) = w_sources w \<and> au_isGuest (w_auth (loginGuest a u d w)) \<and>
   au_userId (w_auth (loginGuest a u d w)) = Some u"
  by (simp add: loginGuest_def Let_def)

section \<open>What a disconnect removes\<close>

lemma fold_call_simps [simp]:
  "w_auth (fold (\<lambda>n. call (f n)) ns w) = w_auth w" "w_sources (fold (\<lambda>n. call (f n)) ns w) = w_sources w"
  "w_config (fold (\<lambda>n. call (f n)) ns w) = w_config w" "w_ls (fold (\<lambda>n. call (f n)) ns w) = w_ls w"
  by (induction ns arbitrary: w) simp_all


lemma clearHomeserver_simps [simp]:
  "w_auth (clearHomeserver w) = w_auth w" "w_sources (clearHomeserver w) = w_sources w"
  "w_config (clearHomeserver w) = None" "w_ls (clearHomeserver w) = w_ls w"
  by (simp_all add: clearHomeserver_def Let_def)

lemma logout_simps [simp]:
  "au_isLoggedIn (w_auth (logout w)) = False" "au_client (w_auth (logout w)) = None"
  "w_config (logout w) = w_config w" "w_ls (logout w) = removeItem SESSION_KEY (w_ls w)"
  by (simp_all add: logout_def Let_def split: option.splits)

lemma getItem_purgeKeys: "getItem (purgeKeys user s) k = (if purgesKey user k then None else getItem s k)"
  by (auto simp: purgeKeys_def ls.get_sweep getItem_keys)









lemma squash_chars: "c \<in> set (squash b s) \<Longrightarrow> store_name_char c"
proof (induction b s rule: squash.induct)
  case (2 b x s)
  have "store_name_char CHR ''_''" by (simp add: store_name_char_def)
  with 2 show ?case by (auto split: if_splits)
qed simp

lemma store_prefix_chars: "c \<in> set ''concord_matrix_store_'' \<Longrightarrow> store_name_char c"
proof -
  have "list_all store_name_char ''concord_matrix_store_''" by code_simp
  then show "c \<in> set ''concord_matrix_store_'' \<Longrightarrow> store_name_char c" by (simp only: list_all_iff)
qed

text \<open>
  The sweep never finds the sync-store entry of the user it disconnects: a Matrix user id holds an
  @ sign and the name of the store has every such character replaced, so the name does not include the
  user id and the key survives.
\<close>
theorem own_store_key_survives:
  assumes "CHR ''@'' \<in> set u"
  shows "isMatrixKey (buildSyncDbName u hs) \<and> \<not> purgesKey (Some u) (buildSyncDbName u hs) \<and>
    getItem (purgeKeys (Some u) s) (buildSyncDbName u hs) = getItem s (buildSyncDbName u hs)"
proof -
  have m: "isMatrixKey (buildSyncDbName u hs)" by (simp add: isMatrixKey_def buildSyncDbName_def starts_with_def)
  have "\<not> store_name_char CHR ''@''" by (simp add: store_name_char_def is_alpha_def is_digit_def char_code_def)
  then have "CHR ''@'' \<notin> set (buildSyncDbName u hs)"
    unfolding buildSyncDbName_def set_append using squash_chars store_prefix_chars by blast
  then have "\<not> includes_sub u (buildSyncDbName u hs)"
    using assms by (auto simp: includes_sub_sublist dest: set_mono_sublist)
  moreover have "u \<noteq> []" "buildSyncDbName u hs \<noteq> []" using assms by (auto simp: buildSyncDbName_def)
  ultimately have "\<not> purgesKey (Some u) (buildSyncDbName u hs)" using m by (simp add: purgesKey_def)
  then show ?thesis using m by (simp add: getItem_purgeKeys)
qed

lemma own_store_key_survives_witness:
  "getItem (purgeKeys (Some ''@a:h'') [(buildSyncDbName ''@a:h'' ''https://h'', ''v'')]) (buildSyncDbName ''@a:h'' ''https://h'') =
   Some ''v''"
  using own_store_key_survives[of "''@a:h''" "''https://h''" "[(buildSyncDbName ''@a:h'' ''https://h'', ''v'')]"]
  by (simp add: getItem_def)

text \<open>
  The sweep of the SDK's keys matches by inclusion, so it is not confined to the disconnected user:
  a cache key of any user whose id contains the disconnected id goes with it.
\<close>
theorem sweep_reaches_other_users:
  assumes "u \<noteq> []"
  shows "getItem (purgeKeys (Some u) s) (''mxjssdk_memory_filter_FILTER_SYNC_'' @ pre @ u @ suf) = None"
proof -
  have "sublist u (''mxjssdk_memory_filter_FILTER_SYNC_'' @ pre @ u @ suf)"
    unfolding sublist_def by (metis append_assoc)
  then show ?thesis using assms
    by (simp add: getItem_purgeKeys purgesKey_def isMatrixKey_def starts_with_def includes_sub_sublist)
qed

lemma sweep_reaches_other_users_witness:
  "getItem (purgeKeys (Some ''@al:h.org'') [(''mxjssdk_memory_filter_FILTER_SYNC_@al:h.org.uk'', ''f'')])
     ''mxjssdk_memory_filter_FILTER_SYNC_@al:h.org.uk'' = None"
  using sweep_reaches_other_users[of "''@al:h.org''" "[(''mxjssdk_memory_filter_FILTER_SYNC_@al:h.org.uk'', ''f'')]" "[]" "''.uk''"]
  by simp

end
