(* ===== verification/ServerStore.thy ===== *)
theory ServerStore
  imports Json
begin

text \<open>
  The store of servers and channels, \<open>client/src/stores/server.ts\<close>. An action that awaits the API is
  split where it awaits: its result is an argument (\<open>Inl\<close> the thrown message, \<open>Inr\<close> the value), and
  the part after the await is an operation of its own, so that other actions can run in between.
  Error toasts are recorded in the state. Matrix rooms are data.
\<close>

section \<open>Data\<close>

datatype channel_type = TextChannel | VoiceChannel | AppChannel | PlaceChannel

record Channel =
  ch_id :: int
  ch_name :: str
  ch_channel_type :: channel_type
  ch_matrix_room_id :: str
  ch_position :: int
  ch_extension_id :: "str option"
  ch_app_access_admin :: "bool option"

record Server =
  srv_id :: str
  srv_name :: str
  srv_icon_url :: "str option"
  srv_owner_id :: str
  srv_visibility :: str
  srv_abbreviation :: "str option"
  srv_media_uploads_enabled :: bool
  srv_rules_text :: "str option"
  srv_allow_user_channel_creation :: "bool option"
  srv_channels :: "Channel list"
  srv_federated :: "bool option"

record ServerMember =
  mem_user_id :: str
  mem_role :: str
  mem_display_name :: "str option"
  mem_joined_at :: str
  mem_can_kick :: bool
  mem_can_ban :: bool

record ServerState =
  servers :: "Server list"
  activeServerId :: "str option"
  activeChannelId :: "str option"
  members :: "str \<Rightarrow> ServerMember list option"
  toasts :: "str list"

definition FEDERATED_SERVER_ID_PREFIX :: str where "FEDERATED_SERVER_ID_PREFIX = ''federated:''"

definition is_federated_id :: "str \<Rightarrow> bool" where
  "is_federated_id i = starts_with FEDERATED_SERVER_ID_PREFIX i"

section \<open>Picking a server and a channel\<close>

definition is_word_char :: "char \<Rightarrow> bool" where
  "is_word_char c = (is_alpha c \<or> is_digit c \<or> c = CHR ''_'')"

text \<open>\<open>/\blobby\b/i\<close>; the flag says that the previous character is a word character.\<close>
fun lobby_from :: "bool \<Rightarrow> str \<Rightarrow> bool" where
  "lobby_from w [] = False"
| "lobby_from w (c # s) =
     (\<not> w \<and> to_lower (take 5 (c # s)) = ''lobby'' \<and>
        (case drop 5 (c # s) of [] \<Rightarrow> True | d # _ \<Rightarrow> \<not> is_word_char d)
      \<or> lobby_from (is_word_char c) s)"

definition or_first :: "'a option \<Rightarrow> 'a list \<Rightarrow> 'a option" where
  "or_first x ys = (case x of Some v \<Rightarrow> Some v | None \<Rightarrow> (case ys of [] \<Rightarrow> None | y # _ \<Rightarrow> Some y))"

definition pickLobbyServer :: "Server list \<Rightarrow> Server option" where
  "pickLobbyServer ss = or_first (find (\<lambda>s. lobby_from False (srv_name s)) ss) ss"

definition pickPreferredChannel :: "Server option \<Rightarrow> Channel option" where
  "pickPreferredChannel srv = (case srv of None \<Rightarrow> None
     | Some s \<Rightarrow> or_first (find (\<lambda>c. to_lower (ch_name c) = ''welcome'') (srv_channels s)) (srv_channels s))"

definition first_room :: "Server option \<Rightarrow> str option" where
  "first_room srv = (case srv of None \<Rightarrow> None
     | Some s \<Rightarrow> (case srv_channels s of [] \<Rightarrow> None | c # _ \<Rightarrow> Some (ch_matrix_room_id c)))"

section \<open>Matrix rooms\<close>

record FederatedRoom =
  fr_roomId :: str
  fr_name :: str
  fr_membership :: "str option"
  fr_dmInviter :: "str option"
  fr_type :: "str option"
  fr_space_children :: "str option list"
  fr_space_parents :: "str option list"

record MatrixRooms =
  mr_userId :: "str option"
  mr_rooms :: "FederatedRoom list"

definition concordServers :: "ServerState \<Rightarrow> Server list" where
  "concordServers st = filter (\<lambda>s. \<not> is_federated_id (srv_id s)) (servers st)"

definition managedRooms :: "ServerState \<Rightarrow> str list" where
  "managedRooms st = concat (map (\<lambda>s. map ch_matrix_room_id (srv_channels s)) (concordServers st))"

text \<open>\<open>userId.includes(":") ? userId.split(":")[1] : ""\<close>\<close>
definition localDomain :: "str \<Rightarrow> str" where
  "localDomain u = (case split_on CHR '':'' u of _ # d # _ \<Rightarrow> d | _ \<Rightarrow> [])"

definition isLocalRoom :: "str \<Rightarrow> str \<Rightarrow> bool" where
  "isLocalRoom d roomId = ends_with (CHR '':'' # d) roomId"

definition userIdOf :: "MatrixRooms \<Rightarrow> str" where
  "userIdOf m = (case mr_userId m of None \<Rightarrow> [] | Some u \<Rightarrow> u)"

definition isDm :: "FederatedRoom \<Rightarrow> bool" where
  "isDm r = (case fr_dmInviter r of None \<Rightarrow> False | Some i \<Rightarrow> i \<noteq> [])"

definition joinedFederated :: "MatrixRooms \<Rightarrow> ServerState \<Rightarrow> FederatedRoom list" where
  "joinedFederated m st = filter (\<lambda>r. fr_membership r = Some ''join'' \<and> fr_roomId r \<notin> set (managedRooms st) \<and>
     \<not> isDm r \<and> \<not> (localDomain (userIdOf m) \<noteq> [] \<and> isLocalRoom (localDomain (userIdOf m)) (fr_roomId r)))
     (mr_rooms m)"

text \<open>Pass 1 and 2: spaces, and which room is placed under which parent: first by the children pointers
  of joined spaces, then by a room's own first nonempty parent pointer. The store computes the
  grouping and no longer renders it.\<close>
definition isSpace :: "FederatedRoom \<Rightarrow> bool" where
  "isSpace r = (fr_type r = Some ''m.space'')"

definition state_keys :: "str option list \<Rightarrow> str list" where
  "state_keys ks = List.map_filter (\<lambda>k. case k of None \<Rightarrow> None | Some s \<Rightarrow> if s = [] then None else Some s) ks"

definition space_entries :: "FederatedRoom list \<Rightarrow> (str \<times> str list) list" where
  "space_entries rooms = map (\<lambda>r. (fr_roomId r, state_keys (fr_space_children r))) (filter isSpace rooms)"

fun add_child :: "str \<Rightarrow> str \<Rightarrow> (str \<times> str list) list \<Rightarrow> (str \<times> str list) list" where
  "add_child p c [] = [(p, [c])]"
| "add_child p c ((q, cs) # m) = (if p = q then (q, cs @ [c]) # m else (q, cs) # add_child p c m)"

fun place_rooms :: "FederatedRoom list \<Rightarrow> str list \<Rightarrow> (str \<times> str list) list \<Rightarrow> (str \<times> str list) list" where
  "place_rooms [] placed m = m"
| "place_rooms (r # rs) placed m =
     (if fr_roomId r \<in> set placed then place_rooms rs placed m
      else (case state_keys (fr_space_parents r) of
          [] \<Rightarrow> place_rooms rs placed m
        | p # _ \<Rightarrow> place_rooms rs (fr_roomId r # placed) (add_child p (fr_roomId r) m)))"

definition groupRooms :: "FederatedRoom list \<Rightarrow> (str \<times> str list) list" where
  "groupRooms rooms =
     (let entries = space_entries rooms
      in place_rooms (filter (\<lambda>r. \<not> isSpace r) rooms) (concat (map snd entries)) entries)"

definition hydrateFederatedRooms :: "MatrixRooms \<Rightarrow> ServerState \<Rightarrow> ServerState" where
  "hydrateFederatedRooms m st =
     (let grouping = groupRooms (joinedFederated m st); synthetic = []
      in st\<lparr>servers := concordServers st @ synthetic\<rparr>)"

text \<open>The rooms \<open>leaveOrphanRooms\<close> tries to leave, in order, and those it reports; \<open>leaves\<close> says
  whether the client's leave succeeds.\<close>
definition orphanRooms :: "MatrixRooms \<Rightarrow> ServerState \<Rightarrow> str list" where
  "orphanRooms m st =
     (if CHR '':'' \<notin> set (userIdOf m) then []
      else map fr_roomId (filter (\<lambda>r. fr_membership r = Some ''join'' \<and> fr_roomId r \<notin> set (managedRooms st) \<and>
             \<not> isDm r \<and> isLocalRoom (localDomain (userIdOf m)) (fr_roomId r)) (mr_rooms m)))"

definition leaveOrphanRooms :: "(str \<Rightarrow> bool) \<Rightarrow> MatrixRooms \<Rightarrow> ServerState \<Rightarrow> str list" where
  "leaveOrphanRooms leaves m st = filter leaves (orphanRooms m st)"

section \<open>Loading\<close>

definition resetState :: "ServerState \<Rightarrow> ServerState" where
  "resetState st = st\<lparr>servers := [], activeServerId := None, activeChannelId := None, members := Map.empty\<rparr>"

definition addToast :: "str \<Rightarrow> ServerState \<Rightarrow> ServerState" where
  "addToast m st = st\<lparr>toasts := toasts st @ [m]\<rparr>"

text \<open>The answers of the API: the list, the default server (its id and whether the user is a member),
  the explicit join, and the list after it.\<close>
record LoadAnswers =
  la_list :: "str + Server list"
  la_default :: "str + (str \<times> bool)"
  la_join :: "str + unit"
  la_list2 :: "str + Server list"

definition loadedServers :: "LoadAnswers \<Rightarrow> Server list \<Rightarrow> Server list" where
  "loadedServers a ss =
     (if ss \<noteq> [] then ss
      else (case la_default a of Inl _ \<Rightarrow> ss
        | Inr (sid, member) \<Rightarrow>
            if sid \<noteq> [] \<and> \<not> member then
              (case (la_join a, la_list2 a) of (Inr _, Inr ss2) \<Rightarrow> ss2 | _ \<Rightarrow> ss)
            else ss))"

definition select_default :: "Server list \<Rightarrow> ServerState \<Rightarrow> ServerState" where
  "select_default ss st =
     (let activeServer = (case activeServerId st of None \<Rightarrow> None
            | Some i \<Rightarrow> if i = [] then None else find_by srv_id i ss);
          stillExists = (case activeServer of None \<Rightarrow> False
            | Some s \<Rightarrow> \<exists>c \<in> set (srv_channels s). Some (ch_matrix_room_id c) = activeChannelId st)
      in if (activeServer = None \<or> \<not> stillExists) \<and> ss \<noteq> [] then
           st\<lparr>activeServerId := map_option srv_id (pickLobbyServer ss),
              activeChannelId := map_option ch_matrix_room_id (pickPreferredChannel (pickLobbyServer ss))\<rparr>
         else st)"

definition loadServers :: "LoadAnswers \<Rightarrow> ServerState \<Rightarrow> ServerState" where
  "loadServers a st = (case la_list a of
     Inl err \<Rightarrow> addToast err st
   | Inr ss0 \<Rightarrow>
       let ss = loadedServers a ss0;
           federated = filter (\<lambda>s. is_federated_id (srv_id s)) (servers st)
       in select_default ss (st\<lparr>servers := ss @ federated\<rparr>))"

section \<open>Actions after their API call\<close>

definition createServer :: "Server \<Rightarrow> ServerState \<Rightarrow> ServerState" where
  "createServer srv st = st\<lparr>servers := servers st @ [srv], activeServerId := Some (srv_id srv),
     activeChannelId := first_room (Some srv)\<rparr>"

definition with_channels :: "(Channel list \<Rightarrow> Channel list) \<Rightarrow> Server \<Rightarrow> Server" where
  "with_channels f s = s\<lparr>srv_channels := f (srv_channels s)\<rparr>"

definition createChannel :: "str \<Rightarrow> Channel \<Rightarrow> ServerState \<Rightarrow> ServerState" where
  "createChannel serverId c st =
     st\<lparr>servers := update_by srv_id serverId (with_channels (\<lambda>cs. cs @ [c])) (servers st)\<rparr>"

definition startServerExtension :: "str \<Rightarrow> Channel \<Rightarrow> ServerState \<Rightarrow> ServerState" where
  "startServerExtension serverId c st =
     st\<lparr>servers := update_by srv_id serverId (with_channels (\<lambda>cs. cs @ [c])) (servers st)\<rparr>"

definition drop_server :: "str \<Rightarrow> ServerState \<Rightarrow> ServerState" where
  "drop_server serverId st =
     (let remaining = drop_by srv_id serverId (servers st)
      in if activeServerId st = Some serverId then
           (let newActive = (case remaining of [] \<Rightarrow> None | s # _ \<Rightarrow> Some s)
            in st\<lparr>servers := remaining, activeServerId := map_option srv_id newActive,
                 activeChannelId := first_room newActive\<rparr>)
         else st\<lparr>servers := remaining\<rparr>)"

text \<open>The API call of \<open>deleteServer\<close> is made for real servers only; a failure leaves the store alone.\<close>
definition deleteServer :: "str \<Rightarrow> str + unit \<Rightarrow> ServerState \<Rightarrow> str + ServerState" where
  "deleteServer serverId answer st =
     (if is_federated_id serverId then Inr (drop_server serverId st)
      else (case answer of Inl err \<Rightarrow> Inl err | Inr _ \<Rightarrow> Inr (drop_server serverId st)))"

definition leaveServer :: "str \<Rightarrow> str + unit \<Rightarrow> ServerState \<Rightarrow> str + ServerState" where
  "leaveServer serverId answer st =
     (case answer of Inl err \<Rightarrow> Inl err | Inr _ \<Rightarrow> Inr (drop_server serverId st))"

definition deleteChannel :: "str \<Rightarrow> int \<Rightarrow> ServerState \<Rightarrow> ServerState" where
  "deleteChannel serverId channelId st =
     (let ss = update_by srv_id serverId (with_channels (drop_by ch_id channelId)) (servers st);
          activeServer = find_by srv_id serverId ss;
          wasActive = (case activeChannelId st of None \<Rightarrow> False
            | Some r \<Rightarrow> r \<noteq> [] \<and> (case activeServer of None \<Rightarrow> False
                | Some s \<Rightarrow> list_all (\<lambda>c. ch_matrix_room_id c \<noteq> r) (srv_channels s)))
      in if wasActive then st\<lparr>servers := ss, activeChannelId := first_room activeServer\<rparr>
         else st\<lparr>servers := ss\<rparr>)"

definition renameChannel :: "str \<Rightarrow> int \<Rightarrow> str \<Rightarrow> ServerState \<Rightarrow> ServerState" where
  "renameChannel serverId channelId name st =
     st\<lparr>servers := update_by srv_id serverId
        (with_channels (update_by ch_id channelId (\<lambda>c. c\<lparr>ch_name := name\<rparr>))) (servers st)\<rparr>"

definition MAX_SAFE_INTEGER :: nat where "MAX_SAFE_INTEGER = 2 ^ 53 - 1"

text \<open>The index a channel sorts by: its last position in the list of ids, or the largest integer. The
  comparator's fallback is the original order, which the stable sort keeps.\<close>
definition order_index :: "int list \<Rightarrow> Channel \<Rightarrow> nat" where
  "order_index ids c = (case find_index (\<lambda>i. i = ch_id c) (rev ids) of
     None \<Rightarrow> MAX_SAFE_INTEGER | Some k \<Rightarrow> length ids - 1 - k)"

definition reorderedChannels :: "int list \<Rightarrow> Channel list \<Rightarrow> Channel list" where
  "reorderedChannels ids cs = sort_key (order_index ids) cs"

text \<open>The optimistic half of \<open>reorderChannels\<close>: the snapshot it keeps (None when there is nothing to do)
  and the new state; then what a failed call does.\<close>
definition reorderChannels :: "str \<Rightarrow> int list \<Rightarrow> ServerState \<Rightarrow> Server list option \<times> ServerState" where
  "reorderChannels serverId ids st = (case find_by srv_id serverId (servers st) of
     None \<Rightarrow> (None, st)
   | Some prev \<Rightarrow> (Some (servers st),
       st\<lparr>servers := update_by srv_id serverId
          (with_channels (\<lambda>_. reorderedChannels ids (srv_channels prev))) (servers st)\<rparr>))"

definition reorderChannelsFailed :: "Server list \<Rightarrow> str \<Rightarrow> ServerState \<Rightarrow> ServerState" where
  "reorderChannelsFailed prevServers err st = addToast err (st\<lparr>servers := prevServers\<rparr>)"

definition loadMembers :: "str \<Rightarrow> str + ServerMember list \<Rightarrow> ServerState \<Rightarrow> ServerState" where
  "loadMembers serverId answer st = (case answer of Inl _ \<Rightarrow> st
     | Inr ms \<Rightarrow> st\<lparr>members := (members st)(serverId \<mapsto> ms)\<rparr>)"

text \<open>One field of a \<open>Partial<Server>\<close>; the callers never rewrite an id.\<close>
datatype server_field = SName str | SIconUrl "str option" | SOwnerId str | SVisibility str
  | SAbbreviation "str option" | SMedia bool | SRules "str option" | SUserChannels "bool option"
  | SChannels "Channel list" | SFederated "bool option"

fun set_server_field :: "server_field \<Rightarrow> Server \<Rightarrow> Server" where
  "set_server_field (SName x) s = s\<lparr>srv_name := x\<rparr>"
| "set_server_field (SIconUrl x) s = s\<lparr>srv_icon_url := x\<rparr>"
| "set_server_field (SOwnerId x) s = s\<lparr>srv_owner_id := x\<rparr>"
| "set_server_field (SVisibility x) s = s\<lparr>srv_visibility := x\<rparr>"
| "set_server_field (SAbbreviation x) s = s\<lparr>srv_abbreviation := x\<rparr>"
| "set_server_field (SMedia x) s = s\<lparr>srv_media_uploads_enabled := x\<rparr>"
| "set_server_field (SRules x) s = s\<lparr>srv_rules_text := x\<rparr>"
| "set_server_field (SUserChannels x) s = s\<lparr>srv_allow_user_channel_creation := x\<rparr>"
| "set_server_field (SChannels x) s = s\<lparr>srv_channels := x\<rparr>"
| "set_server_field (SFederated x) s = s\<lparr>srv_federated := x\<rparr>"

definition updateServer :: "str \<Rightarrow> server_field list \<Rightarrow> ServerState \<Rightarrow> ServerState" where
  "updateServer serverId fs st =
     st\<lparr>servers := update_by srv_id serverId (\<lambda>s. fold set_server_field fs s) (servers st)\<rparr>"

definition setActiveServer :: "str \<Rightarrow> ServerState \<Rightarrow> ServerState" where
  "setActiveServer serverId st = st\<lparr>activeServerId := Some serverId,
     activeChannelId := map_option ch_matrix_room_id (pickPreferredChannel (find_by srv_id serverId (servers st)))\<rparr>"

definition setActiveChannel :: "str \<Rightarrow> ServerState \<Rightarrow> ServerState" where
  "setActiveChannel room st = st\<lparr>activeChannelId := Some room\<rparr>"

definition activeServer :: "ServerState \<Rightarrow> Server option" where
  "activeServer st = find (\<lambda>s. Some (srv_id s) = activeServerId st) (servers st)"

definition activeChannel :: "ServerState \<Rightarrow> Channel option" where
  "activeChannel st = (case activeServer st of None \<Rightarrow> None
     | Some s \<Rightarrow> find (\<lambda>c. Some (ch_matrix_room_id c) = activeChannelId st) (srv_channels s))"

section \<open>The store's contract on server ids\<close>

text \<open>The record updates of the store, seen as patches that keep a server's id.\<close>
datatype ServerUpdate = Channels "Channel list \<Rightarrow> Channel list" | Fields "server_field list"

fun run_server_update :: "ServerUpdate \<Rightarrow> Server \<Rightarrow> Server" where
  "run_server_update (Channels f) s = with_channels f s"
| "run_server_update (Fields fs) s = fold set_server_field fs s"

lemma set_server_field_id: "srv_id (set_server_field f s) = srv_id s"
  by (cases f) simp_all

lemma fold_server_field_id: "srv_id (fold set_server_field fs s) = srv_id s"
  by (induction fs arbitrary: s) (simp_all add: set_server_field_id)

interpretation server_updates: keyed_patch srv_id run_server_update
proof
  fix p s show "srv_id (run_server_update p s) = srv_id s"
    by (cases p) (simp_all add: with_channels_def fold_server_field_id)
qed

interpretation channel_updates: keyed_patch ch_id "\<lambda>name c. c\<lparr>ch_name := name\<rparr>"
  by unfold_locales simp

lemma run_server_update_eqs:
  "run_server_update (Channels f) = with_channels f"
  "run_server_update (Fields fs) = (\<lambda>s. fold set_server_field fs s)"
  by (rule ext, simp)+

lemma find_with_channels:
  "find_by srv_id k (update_by srv_id i (with_channels f) ss) =
   (if k = i then map_option (with_channels f) (find_by srv_id k ss) else find_by srv_id k ss)"
  using server_updates.find_update[of k i "Channels f" ss] by (simp only: run_server_update_eqs)

text \<open>
  Renaming or adding a channel, or updating a server, touches that server only: the ids and the order
  of the servers stay, every other server is found unchanged, and the selection is kept.
\<close>
theorem server_updates_local:
  "map srv_id (servers (createChannel i c st)) = map srv_id (servers st) \<and>
   map srv_id (servers (renameChannel i n name st)) = map srv_id (servers st) \<and>
   map srv_id (servers (updateServer i fs st)) = map srv_id (servers st) \<and>
   find_by srv_id i (servers (createChannel i c st)) = map_option (with_channels (\<lambda>cs. cs @ [c])) (find_by srv_id i (servers st)) \<and>
   find_by srv_id i (servers (renameChannel i n name st)) =
     map_option (with_channels (update_by ch_id n (\<lambda>c. c\<lparr>ch_name := name\<rparr>))) (find_by srv_id i (servers st)) \<and>
   (k \<noteq> i \<longrightarrow> find_by srv_id k (servers (createChannel i c st)) = find_by srv_id k (servers st) \<and>
      find_by srv_id k (servers (renameChannel i n name st)) = find_by srv_id k (servers st) \<and>
      find_by srv_id k (servers (updateServer i fs st)) = find_by srv_id k (servers st)) \<and>
   activeServerId (updateServer i fs st) = activeServerId st \<and> activeChannelId (createChannel i c st) = activeChannelId st"
  using server_updates.keys_update[of i "Channels (\<lambda>cs. cs @ [c])" "servers st"]
    server_updates.keys_update[of i "Channels (update_by ch_id n (\<lambda>c. c\<lparr>ch_name := name\<rparr>))" "servers st"]
    server_updates.keys_update[of i "Fields fs" "servers st"] server_updates.find_update[of k i "Fields fs" "servers st"]
  by (simp add: createChannel_def renameChannel_def updateServer_def find_with_channels run_server_update_eqs)

section \<open>Selection\<close>

lemma or_first_in: "or_first x ys = Some v \<Longrightarrow> x = None \<or> the x \<in> set ys \<Longrightarrow> v \<in> set ys"
  by (cases x; cases ys) (auto simp: or_first_def)

lemma or_first_None: "or_first x ys = None \<longleftrightarrow> x = None \<and> ys = []"
  by (auto simp: or_first_def split: option.splits list.splits)

lemma or_first_find: "or_first (find p ys) ys = Some v \<Longrightarrow> v \<in> set ys"
  by (cases "find p ys") (auto dest: or_first_in find_SomeD simp: or_first_def split: list.splits)

lemma pickLobbyServer_in: "ss \<noteq> [] \<Longrightarrow> \<exists>s \<in> set ss. pickLobbyServer ss = Some s"
  unfolding pickLobbyServer_def using or_first_None or_first_find by (metis not_None_eq)

lemma pickPreferredChannel_in:
  "pickPreferredChannel (Some s) = None \<longleftrightarrow> srv_channels s = []"
  "pickPreferredChannel (Some s) = Some c \<Longrightarrow> c \<in> set (srv_channels s)"
  by (auto simp: pickPreferredChannel_def or_first_None find_None dest: or_first_find)

lemma activeServer_find_by:
  "activeServer st = (case activeServerId st of None \<Rightarrow> None | Some i \<Rightarrow> find_by srv_id i (servers st))"
proof (cases "activeServerId st")
  case None
  then show ?thesis by (simp add: activeServer_def find_None)
next
  case (Some i)
  then show ?thesis by (simp add: activeServer_def find_by_def)
qed

definition selection_ok :: "ServerState \<Rightarrow> bool" where
  "selection_ok st = (case activeServer st of None \<Rightarrow> False
     | Some s \<Rightarrow> if srv_channels s = [] then activeChannelId st = None else activeChannel st \<noteq> None)"

lemma select_default_servers [simp]: "servers (select_default ss st) = servers st"
  by (simp add: select_default_def Let_def)

lemma select_default_ok:
  assumes "ss \<noteq> []" "servers st = ss @ fs" "distinct (map srv_id ss)"
  shows "selection_ok (select_default ss st)"
proof -
  obtain lob where lob: "lob \<in> set ss" "pickLobbyServer ss = Some lob" using pickLobbyServer_in[OF assms(1)] by blast
  have "find_by srv_id (srv_id lob) ss = Some lob"
    unfolding find_by_def using lob(1) assms(3) by (intro find_Some_unique) (auto simp: distinct_map dest: inj_onD)
  then have fnd: "find_by srv_id (srv_id lob) (servers st) = Some lob" by (simp add: assms(2) find_by_append)
  define st1 where "st1 = st\<lparr>activeServerId := Some (srv_id lob),
      activeChannelId := map_option ch_matrix_room_id (pickPreferredChannel (Some lob))\<rparr>"
  have ok1: "selection_ok st1"
    using fnd pickPreferredChannel_in[of lob]
    by (cases "pickPreferredChannel (Some lob)")
       (auto simp: st1_def selection_ok_def activeServer_find_by activeChannel_def find_None)
  show ?thesis
  proof (cases "select_default ss st = st1")
    case False
    then obtain i s where i: "activeServerId st = Some i" "find_by srv_id i ss = Some s"
      and ex: "\<exists>c \<in> set (srv_channels s). Some (ch_matrix_room_id c) = activeChannelId st"
      and same: "select_default ss st = st"
      using assms(1) lob(2)
      by (auto simp: select_default_def st1_def Let_def split: option.splits if_splits)
    then show ?thesis
      by (auto simp: same selection_ok_def activeServer_find_by activeChannel_def assms(2) find_by_append find_None)
  qed (use ok1 in simp)
qed

text \<open>
  Loading lands somewhere: when the API yields servers, with distinct ids, the active server
  afterwards is one of the store's and the active channel one of its channels (or none when it has
  none); and the wrappers of federated rooms that were in the store are kept behind the loaded servers.
\<close>
theorem loadServers_selects:
  assumes "la_list a = Inr ss0" "loadedServers a ss0 \<noteq> []" "distinct (map srv_id (loadedServers a ss0))"
  shows "selection_ok (loadServers a st) \<and>
    servers (loadServers a st) = loadedServers a ss0 @ filter (\<lambda>s. is_federated_id (srv_id s)) (servers st)"
  using assms by (simp add: loadServers_def Let_def select_default_ok)

definition sampleServer :: "str \<Rightarrow> Channel list \<Rightarrow> Server" where
  "sampleServer i cs = \<lparr>srv_id = i, srv_name = i, srv_icon_url = None, srv_owner_id = [], srv_visibility = [],
     srv_abbreviation = None, srv_media_uploads_enabled = True, srv_rules_text = None,
     srv_allow_user_channel_creation = None, srv_channels = cs, srv_federated = None\<rparr>"

definition sampleChannel :: "int \<Rightarrow> str \<Rightarrow> Channel" where
  "sampleChannel i room = \<lparr>ch_id = i, ch_name = room, ch_channel_type = TextChannel, ch_matrix_room_id = room,
     ch_position = 0, ch_extension_id = None, ch_app_access_admin = None\<rparr>"

definition emptyState :: ServerState where
  "emptyState = \<lparr>servers = [], activeServerId = None, activeChannelId = None, members = Map.empty, toasts = []\<rparr>"

lemma loadServers_selects_witness:
  "selection_ok (loadServers \<lparr>la_list = Inr [sampleServer ''s'' [sampleChannel 1 ''!a'']], la_default = Inl [],
     la_join = Inl [], la_list2 = Inl []\<rparr> emptyState)"
  using loadServers_selects[of "\<lparr>la_list = Inr [sampleServer ''s'' [sampleChannel 1 ''!a'']], la_default = Inl [],
     la_join = Inl [], la_list2 = Inl []\<rparr>" "[sampleServer ''s'' [sampleChannel 1 ''!a'']]" emptyState]
  by (simp add: loadedServers_def)

lemma drop_server_servers [simp]: "servers (drop_server i st) = drop_by srv_id i (servers st)"
  by (simp add: drop_server_def Let_def)

text \<open>
  A server that is deleted or left is gone, with every other server kept in order, and is never left
  selected: if it was the active one, the first remaining server and its first channel are selected
  (nothing when none remains); otherwise the selection is untouched.
\<close>
theorem dropped_server_not_selected:
  "activeServerId (drop_server i st) \<noteq> Some i \<and>
   find_by srv_id k (servers (drop_server i st)) = (if k = i then None else find_by srv_id k (servers st)) \<and>
   deleteServer i (Inr ()) st = Inr (drop_server i st) \<and> leaveServer i (Inr ()) st = Inr (drop_server i st) \<and>
   (if activeServerId st = Some i
    then activeServerId (drop_server i st) = map_option srv_id (or_first None (drop_by srv_id i (servers st))) \<and>
         activeChannelId (drop_server i st) = first_room (or_first None (drop_by srv_id i (servers st)))
    else activeServerId (drop_server i st) = activeServerId st \<and> activeChannelId (drop_server i st) = activeChannelId st)"
proof -
  have "s \<in> set (drop_by srv_id i (servers st)) \<Longrightarrow> srv_id s \<noteq> i" for s by (simp add: set_drop_by)
  then show ?thesis
    by (auto simp: find_by_drop_by deleteServer_def leaveServer_def)
       (auto simp: drop_server_def Let_def or_first_def split: list.splits)
qed

text \<open>
  Deleting a channel of a server that is not the active one moves the selection: when the active
  channel belongs to another server, the active channel becomes the first remaining channel of the
  server the deletion was made on, while the active server stays, so no channel is active any more.
\<close>
theorem deleteChannel_steals_selection:
  assumes "activeServerId st = Some a" "find_by srv_id a (servers st) = Some srvA" "a \<noteq> b"
    "activeChannelId st = Some room" "room \<noteq> []" "room \<in> ch_matrix_room_id ` set (srv_channels srvA)"
    "find_by srv_id b (servers st) = Some srvB" "drop_by ch_id n (srv_channels srvB) = c # cs"
    "room \<notin> ch_matrix_room_id ` set (srv_channels srvB)"
    "ch_matrix_room_id c \<notin> ch_matrix_room_id ` set (srv_channels srvA)"
  shows "activeChannelId (deleteChannel b n st) = Some (ch_matrix_room_id c) \<and>
    activeServerId (deleteChannel b n st) = Some a \<and>
    activeChannel st \<noteq> None \<and> activeChannel (deleteChannel b n st) = None"
proof -
  have fb: "find_by srv_id b (update_by srv_id b (with_channels (drop_by ch_id n)) (servers st)) =
      Some (with_channels (drop_by ch_id n) srvB)"
    using assms(7) by (simp add: find_with_channels)
  have "set (c # cs) \<subseteq> set (srv_channels srvB)" using assms(8) set_drop_by[of ch_id n "srv_channels srvB"] by auto
  then have "list_all (\<lambda>x. ch_matrix_room_id x \<noteq> room) (c # cs)" using assms(9) by (auto simp: list_all_iff)
  then have d: "deleteChannel b n st = st\<lparr>servers := update_by srv_id b (with_channels (drop_by ch_id n)) (servers st),
      activeChannelId := Some (ch_matrix_room_id c)\<rparr>"
    using assms(4,5,8) by (simp add: deleteChannel_def Let_def fb with_channels_def first_room_def)
  have "activeServer (deleteChannel b n st) = Some srvA"
    using assms(1,2,3) by (simp add: d activeServer_find_by find_with_channels)
  then have "activeChannel (deleteChannel b n st) = None"
    using assms(10) unfolding activeChannel_def by (simp add: d find_None) (metis image_eqI)
  moreover have "activeChannel st \<noteq> None"
    using assms(1,2,4,6) by (auto simp: activeChannel_def activeServer_find_by find_None)
  ultimately show ?thesis using assms(1) by (simp add: d)
qed

lemma deleteChannel_steals_selection_witness:
  "activeChannelId (deleteChannel ''b'' 2 \<lparr>servers = [sampleServer ''a'' [sampleChannel 1 ''!a''],
     sampleServer ''b'' [sampleChannel 2 ''!x'', sampleChannel 3 ''!y'']], activeServerId = Some ''a'',
     activeChannelId = Some ''!a'', members = Map.empty, toasts = []\<rparr>) = Some ''!y''"
  using deleteChannel_steals_selection[of "\<lparr>servers = [sampleServer ''a'' [sampleChannel 1 ''!a''],
     sampleServer ''b'' [sampleChannel 2 ''!x'', sampleChannel 3 ''!y'']], activeServerId = Some ''a'',
     activeChannelId = Some ''!a'', members = Map.empty, toasts = []\<rparr>" "''a''"
     "sampleServer ''a'' [sampleChannel 1 ''!a'']" "''b''" "''!a''"
     "sampleServer ''b'' [sampleChannel 2 ''!x'', sampleChannel 3 ''!y'']" 2 "sampleChannel 3 ''!y''" "[]"]
  by (simp add: sampleServer_def sampleChannel_def drop_by_def)

section \<open>Channel order\<close>

lemma order_index_nth:
  assumes "distinct ids" "i < length ids" "ch_id c = ids ! i"
  shows "order_index ids c = i"
proof -
  have "ch_id c \<in> set (rev ids)" using assms by (simp add: nth_mem)
  then have "find_index (\<lambda>i. i = ch_id c) (rev ids) \<noteq> None"
    unfolding find_index_None by blast
  then obtain k where k: "find_index (\<lambda>i. i = ch_id c) (rev ids) = Some k" by blast
  have kl: "k < length ids" and "rev ids ! k = ids ! i" using find_index_Some[OF k] assms(3) by simp_all
  then have "ids ! (length ids - Suc k) = ids ! i" by (simp add: rev_nth)
  then have "length ids - Suc k = i" using assms(1,2) kl by (simp add: nth_eq_iff_index_eq)
  then show ?thesis using k by (simp add: order_index_def)
qed

lemma order_index_absent: "ch_id c \<notin> set ids \<Longrightarrow> order_index ids c = MAX_SAFE_INTEGER"
  unfolding order_index_def using find_index_None[of "\<lambda>i. i = ch_id c" "rev ids"] by auto

lemma sorted_by_index:
  assumes "distinct ids" "distinct (map ch_id cs)" "sorted (map (order_index ids) cs)" "ch_id ` set cs \<subseteq> set ids"
  shows "map ch_id cs = filter (\<lambda>i. i \<in> ch_id ` set cs) ids"
proof -
  define pos where "pos i = (THE k. k < length ids \<and> ids ! k = i)" for i
  have pos: "pos (ids ! k) = k" if "k < length ids" for k
    unfolding pos_def using that assms(1) by (intro the_equality) (auto simp: nth_eq_iff_index_eq)
  have ids_pos: "i \<in> set ids \<Longrightarrow> ids ! pos i = i" for i using pos by (metis in_set_conv_nth)
  have idx: "order_index ids c = pos (ch_id c)" if "c \<in> set cs" for c
    using that assms(4) order_index_nth[OF assms(1)] pos by (metis image_subset_iff in_set_conv_nth)
  let ?L = "map ch_id cs" and ?R = "filter (\<lambda>i. i \<in> ch_id ` set cs) ids"
  have L: "map pos ?L = map (order_index ids) cs" using idx by simp
  have inj: "inj_on pos (set ids)" by (metis inj_onI ids_pos)
  have set: "set ?L = set ?R" using assms(4) by auto
  have dL: "distinct (map pos ?L)"
    using assms(2,4) inj by (metis distinct_map inj_on_subset list.set_map)
  have dR: "distinct (map pos ?R)"
    using assms(1) inj by (auto simp: distinct_map intro: inj_on_subset)
  have upt: "map pos ids = [0..<length ids]"
    by (rule nth_equalityI) (simp_all add: pos)
  have "sorted (map pos ids)" by (simp add: upt)
  then have sR: "sorted (map pos ?R)" by (rule sorted_filter)
  have "map pos ?L = map pos ?R"
    using sorted_distinct_set_unique[OF _ dL sR dR] assms(3) L set by (metis list.set_map)
  then have "map (nth ids) (map pos ?L) = map (nth ids) (map pos ?R)" by simp
  moreover have "map (nth ids) (map pos ?L) = ?L" using assms(4) ids_pos by (auto simp: image_subset_iff)
  moreover have "map (nth ids) (map pos ?R) = ?R" unfolding map_map by (rule map_idI) (use ids_pos in auto)
  ultimately show ?thesis by simp
qed

lemma sorted_top_last:
  fixes k :: "'a \<Rightarrow> nat"
  shows "sorted (map k xs) \<Longrightarrow> \<forall>x \<in> set xs. k x \<le> M \<Longrightarrow>
    xs = filter (\<lambda>x. k x \<noteq> M) xs @ filter (\<lambda>x. k x = M) xs"
proof (induction xs)
  case (Cons x xs)
  show ?case
  proof (cases "k x = M")
    case True
    then have "\<forall>y \<in> set xs. k y = M" using Cons.prems by (auto intro: antisym)
    then have "filter (\<lambda>x. k x \<noteq> M) xs = []" "filter (\<lambda>x. k x = M) xs = xs"
      by (auto simp: filter_empty_conv filter_id_conv)
    then show ?thesis using True by simp
  next
    case False
    then show ?thesis using Cons by simp
  qed
qed simp

text \<open>
  Reordering is a permutation that does what it is told: the channels named in the list come in its
  order, those it does not name (voice channels, when only text channels are dragged) keep their
  relative order and come after them.
\<close>
theorem reorderedChannels_spec:
  assumes "distinct ids" "distinct (map ch_id cs)" "length ids \<le> MAX_SAFE_INTEGER"
  shows "mset (reorderedChannels ids cs) = mset cs \<and>
    map ch_id (reorderedChannels ids cs) =
      filter (\<lambda>i. i \<in> ch_id ` set cs) ids @ map ch_id (filter (\<lambda>c. ch_id c \<notin> set ids) cs)"
proof -
  let ?r = "reorderedChannels ids cs" and ?k = "order_index ids"
  have small: "?k c < MAX_SAFE_INTEGER" if c: "ch_id c \<in> set ids" for c
  proof -
    obtain i where "i < length ids" "ids ! i = ch_id c" using c by (metis in_set_conv_nth)
    then show ?thesis using order_index_nth[OF assms(1), of i c] assms(3) by simp
  qed
  have in_iff: "?k c = MAX_SAFE_INTEGER \<longleftrightarrow> ch_id c \<notin> set ids" for c
    using small order_index_absent by (metis less_irrefl)
  have le: "?k c \<le> MAX_SAFE_INTEGER" for c using small order_index_absent by (metis less_imp_le order_refl)
  have srt: "sorted (map ?k ?r)" unfolding reorderedChannels_def by (rule sorted_sort_key)
  let ?in = "filter (\<lambda>c. ?k c \<noteq> MAX_SAFE_INTEGER) ?r"
  have parts: "?r = ?in @ filter (\<lambda>c. ?k c = MAX_SAFE_INTEGER) ?r"
    by (rule sorted_top_last) (use srt le in auto)
  have out: "filter (\<lambda>c. ?k c = MAX_SAFE_INTEGER) ?r = filter (\<lambda>c. ch_id c \<notin> set ids) cs"
    unfolding reorderedChannels_def sort_key_stable by (simp add: in_iff)
  have m: "mset ?r = mset cs" by (simp add: reorderedChannels_def)
  then have dr: "distinct (map ch_id ?r)" by (metis assms(2) mset_map mset_eq_imp_distinct_iff)
  have rset: "set ?r = set cs" by (simp add: reorderedChannels_def)
  have "map ch_id ?in = filter (\<lambda>i. i \<in> ch_id ` set ?in) ids"
    using assms(1) dr srt by (intro sorted_by_index) (auto simp: in_iff distinct_map_filter sorted_filter)
  also have "\<dots> = filter (\<lambda>i. i \<in> ch_id ` set cs) ids"
    by (rule filter_cong) (auto simp: in_iff rset)
  finally have "map ch_id ?r = filter (\<lambda>i. i \<in> ch_id ` set cs) ids @ map ch_id (filter (\<lambda>c. ch_id c \<notin> set ids) cs)"
    by (subst parts) (simp add: out)
  with m show ?thesis by simp
qed

lemma reorderedChannels_spec_witness:
  "map ch_id (reorderedChannels [3, 1] [sampleChannel 1 ''a'', sampleChannel 2 ''b'', sampleChannel 3 ''c'']) = [3, 1, 2]"
  using reorderedChannels_spec[of "[3, 1]" "[sampleChannel 1 ''a'', sampleChannel 2 ''b'', sampleChannel 3 ''c'']"]
  by (simp add: sampleChannel_def MAX_SAFE_INTEGER_def)

text \<open>
  The rollback of a failed reorder restores the whole snapshot, not the order: whatever happened to
  the store while the call was in flight, a new channel, a rename, a server joined or left, is undone.
\<close>
theorem failed_reorder_undoes_other_changes:
  "servers (reorderChannelsFailed (servers st) err st') = servers st \<and>
   fst (reorderChannels i ids st) = (if find_by srv_id i (servers st) = None then None else Some (servers st)) \<and>
   servers (reorderChannelsFailed (servers st) err (createServer srv (snd (reorderChannels i ids st)))) = servers st"
  by (auto simp: reorderChannelsFailed_def addToast_def reorderChannels_def split: option.splits)

section \<open>Federated rooms\<close>

text \<open>
  Hydration leaves exactly the servers that are not federated wrappers, in order and unchanged, for
  whatever rooms the Matrix client knows: it is idempotent and creates no wrapper.
\<close>
theorem hydrate_keeps_concord_servers:
  "servers (hydrateFederatedRooms m st) = filter (\<lambda>s. \<not> is_federated_id (srv_id s)) (servers st) \<and>
   hydrateFederatedRooms m' (hydrateFederatedRooms m st) = hydrateFederatedRooms m st"
  by (simp add: hydrateFederatedRooms_def concordServers_def Let_def)

lemma localDomain_simple: "CHR '':'' \<notin> set d \<Longrightarrow> CHR '':'' \<notin> set u \<Longrightarrow> localDomain (u @ CHR '':'' # d) = d"
proof -
  assume d: "CHR '':'' \<notin> set d" and u: "CHR '':'' \<notin> set u"
  have free: "CHR '':'' \<notin> set w \<Longrightarrow> split_on CHR '':'' w = [w]" for w
    by (induction w) (auto split: list.splits)
  have "split_on CHR '':'' (u @ CHR '':'' # d) = [u, d]"
    using u by (induction u) (auto simp: free[OF d] split: list.splits)
  then show ?thesis by (simp add: localDomain_def)
qed

text \<open>
  The orphan cleanup is confined: for a user id of the form local-part, colon, domain, it leaves only
  rooms the user has joined, that no Concord server manages, that are no direct message, and whose id
  ends in the user's own domain; what it reports was left.
\<close>
theorem orphans_are_local:
  assumes "mr_userId m = Some (u @ CHR '':'' # d)" "CHR '':'' \<notin> set u" "CHR '':'' \<notin> set d"
    "i \<in> set (leaveOrphanRooms leaves m st)"
  shows "leaves i \<and> suffix (CHR '':'' # d) i \<and> i \<notin> set (managedRooms st) \<and>
    (\<exists>r \<in> set (mr_rooms m). fr_roomId r = i \<and> fr_membership r = Some ''join'' \<and> \<not> isDm r)"
  using assms localDomain_simple[of d u]
  by (auto simp: leaveOrphanRooms_def orphanRooms_def userIdOf_def isLocalRoom_def ends_with_suffix split: if_splits)

definition sampleRoom :: "str \<Rightarrow> FederatedRoom" where
  "sampleRoom i = \<lparr>fr_roomId = i, fr_name = [], fr_membership = Some ''join'', fr_dmInviter = None, fr_type = None,
     fr_space_children = [], fr_space_parents = []\<rparr>"

lemma orphans_are_local_witness:
  "suffix '':h'' ''!r:h'' \<and> ''!r:h'' \<in> set (leaveOrphanRooms (\<lambda>_. True) \<lparr>mr_userId = Some ''@u:h'',
     mr_rooms = [sampleRoom ''!r:h'', sampleRoom ''!r:k'']\<rparr> emptyState)"
proof -
  have i: "''!r:h'' \<in> set (leaveOrphanRooms (\<lambda>_. True) \<lparr>mr_userId = Some ''@u:h'',
     mr_rooms = [sampleRoom ''!r:h'', sampleRoom ''!r:k'']\<rparr> emptyState)"
    by (simp add: leaveOrphanRooms_def orphanRooms_def userIdOf_def sampleRoom_def managedRooms_def concordServers_def
        emptyState_def isDm_def isLocalRoom_def localDomain_def ends_with_def starts_with_def)
  from orphans_are_local[of "\<lparr>mr_userId = Some ''@u:h'', mr_rooms = [sampleRoom ''!r:h'', sampleRoom ''!r:k'']\<rparr>" "''@u''" "''h''"
      "''!r:h''" "\<lambda>_. True" emptyState] i
  show ?thesis by simp
qed

text \<open>
  A server name with a port breaks the confinement: the domain read from the user id stops at its
  second colon, so for \<open>@u:host:port\<close> the cleanup leaves rooms of the other homeserver \<open>host\<close>.
\<close>
theorem orphans_of_another_homeserver:
  "''!r:h.org'' \<in> set (leaveOrphanRooms (\<lambda>_. True)
     \<lparr>mr_userId = Some ''@u:h.org:8448'', mr_rooms = [sampleRoom ''!r:h.org'', sampleRoom ''!r:h.org:8448'']\<rparr> emptyState) \<and>
   ''!r:h.org:8448'' \<notin> set (leaveOrphanRooms (\<lambda>_. True)
     \<lparr>mr_userId = Some ''@u:h.org:8448'', mr_rooms = [sampleRoom ''!r:h.org'', sampleRoom ''!r:h.org:8448'']\<rparr> emptyState)"
  by (simp add: leaveOrphanRooms_def orphanRooms_def userIdOf_def sampleRoom_def managedRooms_def concordServers_def
      emptyState_def isDm_def isLocalRoom_def localDomain_def ends_with_def starts_with_def)

end
