(* ===== verification/Porch.thy ===== *)
theory Porch
  imports Prelude
begin

text \<open>
  Visiting a peer's porch, \<open>client/src/stores/visitorStore.ts\<close>, and the host's own porch,
  \<open>client/src/stores/porchStore.ts\<close>. Every action is split at its await: the synchronous part gives the
  new state and the requests it sends, \<open>visitorFinish\<close> is what the continuation does when the answer
  arrives. The step relations let answers arrive in any order between user actions.
\<close>

section \<open>Data\<close>

datatype KnockStatus = KPending | KAccepted | KRejected | KWithdrawn

record Knock =
  kn_id :: str
  kn_channel_id :: str
  kn_knocker_peer_id :: str
  kn_message :: "str option"
  kn_status :: KnockStatus
  kn_created_at :: int
  kn_resolved_at :: "int option"

datatype ChannelVisibility = Visible | NeedsKnock "KnockStatus option"

record PorchChannel =
  pc_id :: str
  pc_name :: str
  pc_kind :: str
  pc_acl_mode :: str
  pc_created_at :: int

record PorchListChannelRow =
  row_id :: str
  row_name :: str
  row_kind :: str
  row_acl_mode :: str
  row_created_at :: int
  row_visibility :: ChannelVisibility
  row_theme_summary :: "str option"

record ChannelMessage =
  cm_id :: str
  cm_channel_id :: str
  cm_author_peer_id :: str
  cm_body :: str
  cm_created_at :: int

record VisitorState =
  v_currentPeerId :: "str option"
  v_channels :: "PorchChannel list"
  v_rows :: "PorchListChannelRow list"
  v_selectedChannelId :: "str option"
  v_messages :: "ChannelMessage list"
  v_isLoading :: bool
  v_error :: "str option"

definition MESSAGE_PAGE_SIZE :: nat where "MESSAGE_PAGE_SIZE = 200"

definition rowToChannel :: "PorchListChannelRow \<Rightarrow> PorchChannel" where
  "rowToChannel r = \<lparr>pc_id = row_id r, pc_name = row_name r, pc_kind = row_kind r,
     pc_acl_mode = row_acl_mode r, pc_created_at = row_created_at r\<rparr>"

section \<open>Requests and answers\<close>

datatype visit_request =
    AskVisit str
  | AskMessages str str nat
  | AskPost str str str
  | AskKnock str str "str option"
  | AskWithdraw str str
  | AskStatus str str
  | AskChannels str

text \<open>What a request resolves to, per request; \<open>Failed\<close> carries the thrown error's text.\<close>
datatype visit_answer =
    Failed str
  | GotRows "PorchListChannelRow list"
  | GotMessages "ChannelMessage list"
  | GotMessage ChannelMessage
  | GotKnock Knock
  | GotStatus "Knock option"

definition nonempty :: "str option \<Rightarrow> bool" where
  "nonempty x = (x \<noteq> None \<and> x \<noteq> Some [])"

definition initialVisitor :: VisitorState where
  "initialVisitor = \<lparr>v_currentPeerId = None, v_channels = [], v_rows = [], v_selectedChannelId = None,
     v_messages = [], v_isLoading = False, v_error = None\<rparr>"

section \<open>User actions\<close>

definition openVisit :: "str \<Rightarrow> VisitorState \<Rightarrow> VisitorState \<times> visit_request list" where
  "openVisit peer st = (\<lparr>v_currentPeerId = Some peer, v_channels = [], v_rows = [], v_selectedChannelId = None,
     v_messages = [], v_isLoading = True, v_error = None\<rparr>, [AskVisit peer])"

definition closeVisit :: "VisitorState \<Rightarrow> VisitorState" where
  "closeVisit st = initialVisitor"

definition refreshMessages :: "VisitorState \<Rightarrow> VisitorState \<times> visit_request list" where
  "refreshMessages st = (if \<not> nonempty (v_currentPeerId st) \<or> \<not> nonempty (v_selectedChannelId st) then (st, [])
     else (st\<lparr>v_isLoading := True, v_error := None\<rparr>,
           [AskMessages (the (v_currentPeerId st)) (the (v_selectedChannelId st)) MESSAGE_PAGE_SIZE]))"

definition selectChannel :: "str \<Rightarrow> VisitorState \<Rightarrow> VisitorState \<times> visit_request list" where
  "selectChannel channelId st = (case find_by row_id channelId (v_rows st) of
     Some row \<Rightarrow> if row_visibility row \<noteq> Visible then (st\<lparr>v_error := Some ''channel_gated''\<rparr>, [])
                 else refreshMessages (st\<lparr>v_selectedChannelId := Some channelId, v_messages := [], v_error := None\<rparr>)
   | None \<Rightarrow> refreshMessages (st\<lparr>v_selectedChannelId := Some channelId, v_messages := [], v_error := None\<rparr>))"

definition sendMessage :: "str \<Rightarrow> VisitorState \<Rightarrow> VisitorState \<times> visit_request list" where
  "sendMessage body st = (if \<not> nonempty (v_currentPeerId st) \<or> \<not> nonempty (v_selectedChannelId st)
     then (st\<lparr>v_error := Some ''no_visit_target''\<rparr>, [])
     else if trim body = [] then (st, [])
     else (st, [AskPost (the (v_currentPeerId st)) (the (v_selectedChannelId st)) (trim body)]))"

definition knockOn :: "str \<Rightarrow> str option \<Rightarrow> VisitorState \<Rightarrow> VisitorState \<times> visit_request list" where
  "knockOn channelId message st = (if \<not> nonempty (v_currentPeerId st) then (st\<lparr>v_error := Some ''no_visit_target''\<rparr>, [])
     else (st, [AskKnock (the (v_currentPeerId st)) channelId message]))"

definition withdrawKnock :: "str \<Rightarrow> VisitorState \<Rightarrow> VisitorState \<times> visit_request list" where
  "withdrawKnock knockId st = (if \<not> nonempty (v_currentPeerId st) then (st\<lparr>v_error := Some ''no_visit_target''\<rparr>, [])
     else (st, [AskWithdraw (the (v_currentPeerId st)) knockId]))"

definition refreshKnockStatus :: "str \<Rightarrow> VisitorState \<Rightarrow> VisitorState \<times> visit_request list" where
  "refreshKnockStatus channelId st = (if \<not> nonempty (v_currentPeerId st) then (st, [])
     else (st, [AskStatus (the (v_currentPeerId st)) channelId]))"

definition refreshChannels :: "VisitorState \<Rightarrow> VisitorState \<times> visit_request list" where
  "refreshChannels st = (if \<not> nonempty (v_currentPeerId st) then (st, [])
     else (st, [AskChannels (the (v_currentPeerId st))]))"

section \<open>Continuations\<close>

definition set_visibility :: "str \<Rightarrow> ChannelVisibility \<Rightarrow> VisitorState \<Rightarrow> VisitorState" where
  "set_visibility channelId v st =
     st\<lparr>v_rows := update_by row_id channelId (\<lambda>r. r\<lparr>row_visibility := v\<rparr>) (v_rows st)\<rparr>"

definition openVisitDone :: "PorchListChannelRow list \<Rightarrow> VisitorState \<Rightarrow> VisitorState \<times> visit_request list" where
  "openVisitDone rows st =
     (let next_ch = map_option row_id (find (\<lambda>r. row_visibility r = Visible) rows);
          st1 = st\<lparr>v_channels := map rowToChannel rows, v_rows := rows, v_selectedChannelId := next_ch, v_isLoading := False\<rparr>
      in if nonempty next_ch then refreshMessages st1 else (st1, []))"

text \<open>The status an answer to a status request shows on the row.\<close>
definition status_visibility :: "Knock option \<Rightarrow> ChannelVisibility" where
  "status_visibility k = (if map_option kn_status k = Some KAccepted then Visible else NeedsKnock (map_option kn_status k))"

fun visitorFinish :: "visit_request \<Rightarrow> visit_answer \<Rightarrow> VisitorState \<Rightarrow> VisitorState \<times> visit_request list" where
  "visitorFinish (AskVisit peer) (GotRows rows) st = openVisitDone rows st"
| "visitorFinish (AskVisit peer) (Failed e) st = (st\<lparr>v_error := Some e, v_isLoading := False\<rparr>, [])"
| "visitorFinish (AskMessages peer c n) (GotMessages ms) st = (st\<lparr>v_messages := ms, v_isLoading := False\<rparr>, [])"
| "visitorFinish (AskMessages peer c n) (Failed e) st = (st\<lparr>v_error := Some e, v_isLoading := False\<rparr>, [])"
| "visitorFinish (AskPost peer c b) (GotMessage m) st = (st\<lparr>v_messages := v_messages st @ [m]\<rparr>, [])"
| "visitorFinish (AskKnock peer c m) (GotKnock k) st = (set_visibility c (NeedsKnock (Some (kn_status k))) st, [])"
| "visitorFinish (AskWithdraw peer k) (GotKnock w) st =
     (set_visibility (kn_channel_id w) (NeedsKnock (Some (kn_status w))) st, [])"
| "visitorFinish (AskStatus peer c) (GotStatus k) st = (set_visibility c (status_visibility k) st, [])"
| "visitorFinish (AskChannels peer) (GotRows rows) st = (st\<lparr>v_rows := rows, v_channels := map rowToChannel rows\<rparr>, [])"
| "visitorFinish _ (Failed e) st = (st\<lparr>v_error := Some e\<rparr>, [])"
| "visitorFinish _ _ st = (st, [])"

section \<open>Interleavings\<close>

text \<open>What the host answers: its rows, and messages that carry the channel they were asked for. The
  relation is parameterised by it, so that an answer can be told from another peer's.\<close>
record VisitHost =
  host_rows :: "PorchListChannelRow list"

definition honest :: "(str \<Rightarrow> VisitHost) \<Rightarrow> visit_request \<Rightarrow> visit_answer \<Rightarrow> bool" where
  "honest hosts req ans = (case (req, ans) of
     (_, Failed _) \<Rightarrow> True
   | (AskVisit p, GotRows rows) \<Rightarrow> rows = host_rows (hosts p)
   | (AskChannels p, GotRows rows) \<Rightarrow> rows = host_rows (hosts p)
   | (AskMessages p c _, GotMessages ms) \<Rightarrow> \<forall>m \<in> set ms. cm_channel_id m = c
   | (AskPost p c _, GotMessage m) \<Rightarrow> cm_channel_id m = c
   | (AskKnock p c _, GotKnock k) \<Rightarrow> kn_channel_id k = c
   | (AskWithdraw p _, GotKnock _) \<Rightarrow> True
   | (AskStatus p _, GotStatus _) \<Rightarrow> True
   | _ \<Rightarrow> False)"

text \<open>Whose list was stored last, after an answer.\<close>
fun list_owner :: "visit_request \<Rightarrow> visit_answer \<Rightarrow> str option \<Rightarrow> str option" where
  "list_owner (AskVisit p) (GotRows _) _ = Some p"
| "list_owner (AskChannels p) (GotRows _) _ = Some p"
| "list_owner _ _ q = q"

text \<open>A state, the requests under way, and the peer whose list was stored last since a visit was opened or closed.\<close>
inductive visit_reach :: "(str \<Rightarrow> VisitHost) \<Rightarrow> VisitorState \<Rightarrow> visit_request list \<Rightarrow> str option \<Rightarrow> bool"
  for hosts :: "str \<Rightarrow> VisitHost" where
  init: "visit_reach hosts initialVisitor [] None"
| opens: "visit_reach hosts st rs q \<Longrightarrow> openVisit p st = (st', qs) \<Longrightarrow> visit_reach hosts st' (rs @ qs) None"
| closes: "visit_reach hosts st rs q \<Longrightarrow> visit_reach hosts (closeVisit st) rs None"
| selects: "visit_reach hosts st rs q \<Longrightarrow> selectChannel c st = (st', qs) \<Longrightarrow> visit_reach hosts st' (rs @ qs) q"
| refreshes: "visit_reach hosts st rs q \<Longrightarrow> refreshMessages st = (st', qs) \<Longrightarrow> visit_reach hosts st' (rs @ qs) q"
| sends: "visit_reach hosts st rs q \<Longrightarrow> sendMessage b st = (st', qs) \<Longrightarrow> visit_reach hosts st' (rs @ qs) q"
| knocks: "visit_reach hosts st rs q \<Longrightarrow> knockOn c m st = (st', qs) \<Longrightarrow> visit_reach hosts st' (rs @ qs) q"
| withdraws: "visit_reach hosts st rs q \<Longrightarrow> withdrawKnock k st = (st', qs) \<Longrightarrow> visit_reach hosts st' (rs @ qs) q"
| polls: "visit_reach hosts st rs q \<Longrightarrow> refreshKnockStatus c st = (st', qs) \<Longrightarrow> visit_reach hosts st' (rs @ qs) q"
| relists: "visit_reach hosts st rs q \<Longrightarrow> refreshChannels st = (st', qs) \<Longrightarrow> visit_reach hosts st' (rs @ qs) q"
| answers: "visit_reach hosts st (rs1 @ req # rs2) q \<Longrightarrow> honest hosts req ans \<Longrightarrow>
     visitorFinish req ans st = (st', qs) \<Longrightarrow> visit_reach hosts st' (rs1 @ rs2 @ qs) (list_owner req ans q)"

inductive_cases visit_reachE: "visit_reach hosts st rs q"

section \<open>Rows and channels\<close>

definition rows_match :: "VisitorState \<Rightarrow> bool" where
  "rows_match st = (v_channels st = map rowToChannel (v_rows st))"

lemma rowToChannel_visibility [simp]: "rowToChannel (r\<lparr>row_visibility := v\<rparr>) = rowToChannel r"
  by (simp add: rowToChannel_def)

lemma map_rowToChannel_update:
  "map rowToChannel (update_by row_id c (\<lambda>r. r\<lparr>row_visibility := v\<rparr>) rows) = map rowToChannel rows"
  by (simp add: update_by_def)

interpretation row_updates: keyed_patch row_id "\<lambda>v r. r\<lparr>row_visibility := v\<rparr>"
  by unfold_locales simp

lemma row_ids_update: "row_id ` set (update_by row_id c (\<lambda>r. r\<lparr>row_visibility := v\<rparr>) rows) = row_id ` set rows"
  using row_updates.keys_update[of c v rows] by (metis list.set_map)

lemmas visitor_actions = openVisit_def closeVisit_def selectChannel_def refreshMessages_def sendMessage_def
  knockOn_def withdrawKnock_def refreshKnockStatus_def refreshChannels_def initialVisitor_def

lemma refreshMessages_simps [simp]:
  "v_rows (fst (refreshMessages st)) = v_rows st" "v_channels (fst (refreshMessages st)) = v_channels st"
  "v_currentPeerId (fst (refreshMessages st)) = v_currentPeerId st"
  "v_selectedChannelId (fst (refreshMessages st)) = v_selectedChannelId st"
  "v_messages (fst (refreshMessages st)) = v_messages st"
  by (simp_all add: refreshMessages_def)

lemma openVisitDone_simps [simp]:
  "v_rows (fst (openVisitDone rows st)) = rows" "v_channels (fst (openVisitDone rows st)) = map rowToChannel rows"
  "v_currentPeerId (fst (openVisitDone rows st)) = v_currentPeerId st"
  "v_messages (fst (openVisitDone rows st)) = v_messages st"
  "v_selectedChannelId (fst (openVisitDone rows st)) = map_option row_id (find (\<lambda>r. row_visibility r = Visible) rows)"
  by (simp_all add: openVisitDone_def Let_def)

lemma set_visibility_simps [simp]:
  "v_channels (set_visibility c v st) = v_channels st" "v_currentPeerId (set_visibility c v st) = v_currentPeerId st"
  "v_messages (set_visibility c v st) = v_messages st" "v_selectedChannelId (set_visibility c v st) = v_selectedChannelId st"
  "row_id ` set (v_rows (set_visibility c v st)) = row_id ` set (v_rows st)"
  "map rowToChannel (v_rows (set_visibility c v st)) = map rowToChannel (v_rows st)"
  by (simp_all add: set_visibility_def map_rowToChannel_update row_ids_update)

lemma visitorFinish_rows_match: "rows_match st \<Longrightarrow> rows_match (fst (visitorFinish req ans st))"
  by (cases "(req, ans, st)" rule: visitorFinish.cases) (simp_all add: rows_match_def)

lemma selectChannel_simps [simp]:
  "v_rows (fst (selectChannel c st)) = v_rows st" "v_channels (fst (selectChannel c st)) = v_channels st"
  "v_currentPeerId (fst (selectChannel c st)) = v_currentPeerId st"
  by (simp_all add: selectChannel_def split: option.splits)

text \<open>What is listed: the rows of the peer whose list was stored last, under their channels.\<close>
definition lists_rows_of :: "(str \<Rightarrow> VisitHost) \<Rightarrow> str option \<Rightarrow> VisitorState \<Rightarrow> bool" where
  "lists_rows_of hosts q st = (v_channels st = map rowToChannel (v_rows st) \<and>
     map rowToChannel (v_rows st) = (case q of None \<Rightarrow> [] | Some p \<Rightarrow> map rowToChannel (host_rows (hosts p))))"

lemma lists_rows_cong:
  "v_channels st' = v_channels st \<Longrightarrow> v_rows st' = v_rows st \<Longrightarrow> lists_rows_of hosts q st' = lists_rows_of hosts q st"
  by (simp add: lists_rows_of_def)

lemma lists_rows_visibility [simp]: "lists_rows_of hosts q (set_visibility c v st) = lists_rows_of hosts q st"
  by (simp add: lists_rows_of_def)

lemma visitorFinish_lists:
  assumes "lists_rows_of hosts q st" "honest hosts req ans"
  shows "lists_rows_of hosts (list_owner req ans q) (fst (visitorFinish req ans st))"
proof (cases "(req, ans, st)" rule: visitorFinish.cases)
  case (1 peer rows st)
  then show ?thesis using assms by (simp add: lists_rows_of_def honest_def)
next
  case (9 peer rows st)
  then show ?thesis using assms by (simp add: lists_rows_of_def honest_def)
qed (use assms in \<open>simp_all, simp_all add: lists_rows_of_def\<close>)

text \<open>
  C11. However requests and answers are interleaved, what is listed is one host's list in full, with the channels that belong
  to its rows: the list of the peer whose answer was stored last since the visit was opened or closed, and nothing before
  the first. That peer is the visited one only if answers come in order, as the next theorem shows.
\<close>
theorem listed_rows_of_last_answer:
  assumes "visit_reach hosts st rs q"
  shows "v_channels st = map rowToChannel (v_rows st) \<and>
    map rowToChannel (v_rows st) = (case q of None \<Rightarrow> [] | Some p \<Rightarrow> map rowToChannel (host_rows (hosts p)))"
proof -
  have "lists_rows_of hosts q st" using assms
  proof (induction rule: visit_reach.induct)
    case (selects st rs q c st' qs)
    then show ?case using selectChannel_simps[of c st] by (metis fst_conv lists_rows_cong)
  next
    case (refreshes st rs q st' qs)
    then show ?case using refreshMessages_simps[of st] by (metis fst_conv lists_rows_cong)
  next
    case (answers st rs1 req rs2 q ans st' qs)
    then show ?case using visitorFinish_lists[of hosts q st req ans] by (metis fst_conv)
  qed (auto simp: visitor_actions lists_rows_of_def split: if_splits)
  then show ?thesis by (simp add: lists_rows_of_def)
qed

definition porch_row :: "str \<Rightarrow> PorchListChannelRow" where
  "porch_row c = \<lparr>row_id = c, row_name = c, row_kind = ''text'', row_acl_mode = ''open'', row_created_at = 0,
     row_visibility = Visible, row_theme_summary = None\<rparr>"

definition two_hosts :: "str \<Rightarrow> VisitHost" where
  "two_hosts p = \<lparr>host_rows = (if p = ''A'' then [porch_row ''a''] else [porch_row ''b''])\<rparr>"

lemma listed_rows_of_last_answer_witness:
  "(let s1 = fst (openVisit ''A'' initialVisitor); s2 = fst (openVisit ''B'' s1);
        s3 = fst (visitorFinish (AskVisit ''B'') (GotRows [porch_row ''b'']) s2);
        s4 = fst (visitorFinish (AskVisit ''A'') (GotRows [porch_row ''a'']) s3)
    in v_currentPeerId s4 = Some ''B'' \<and> v_rows s4 \<noteq> [] \<and> v_channels s4 = [rowToChannel (porch_row ''a'')])"
proof -
  let ?s1 = "fst (openVisit ''A'' initialVisitor)" and ?s2 = "fst (openVisit ''B'' (fst (openVisit ''A'' initialVisitor)))"
  let ?s3 = "fst (visitorFinish (AskVisit ''B'') (GotRows [porch_row ''b'']) ?s2)"
  let ?q3 = "snd (visitorFinish (AskVisit ''B'') (GotRows [porch_row ''b'']) ?s2)"
  let ?s4 = "fst (visitorFinish (AskVisit ''A'') (GotRows [porch_row ''a'']) ?s3)"
  let ?q4 = "snd (visitorFinish (AskVisit ''A'') (GotRows [porch_row ''a'']) ?s3)"
  have "visit_reach two_hosts ?s1 ([] @ [AskVisit ''A'']) None"
    by (rule visit_reach.opens[OF visit_reach.init]) (simp add: openVisit_def)
  then have "visit_reach two_hosts ?s2 (([] @ [AskVisit ''A'']) @ [AskVisit ''B'']) None"
    by (rule visit_reach.opens) (simp add: openVisit_def)
  then have "visit_reach two_hosts ?s2 ([AskVisit ''A''] @ AskVisit ''B'' # []) None" by simp
  then have "visit_reach two_hosts ?s3 ([AskVisit ''A''] @ [] @ ?q3) (list_owner (AskVisit ''B'') (GotRows [porch_row ''b'']) None)"
    by (rule visit_reach.answers) (simp_all add: honest_def two_hosts_def)
  then have "visit_reach two_hosts ?s3 ([] @ AskVisit ''A'' # ?q3) (Some ''B'')" by simp
  then have "visit_reach two_hosts ?s4 ([] @ ?q3 @ ?q4) (list_owner (AskVisit ''A'') (GotRows [porch_row ''a'']) (Some ''B''))"
    by (rule visit_reach.answers) (simp_all add: honest_def two_hosts_def)
  from listed_rows_of_last_answer[OF this] show ?thesis by (auto simp: Let_def two_hosts_def openVisit_def)
qed

text \<open>
  No continuation checks that its visit is still open. When the visit is switched from one peer to
  another and the first peer's list arrives last, its channels are shown, and its first visible one is
  selected, under the second peer: the next message typed is posted to the second peer with the first
  one's channel id.
\<close>
theorem stale_visit_answer_wins:
  assumes "find (\<lambda>r. row_visibility r = Visible) rowsA = Some r" "row_id r \<noteq> []" "peerB \<noteq> []" "trim body \<noteq> []"
  shows "let s2 = fst (openVisit peerB (fst (openVisit peerA initialVisitor)));
             s3 = fst (visitorFinish (AskVisit peerB) (GotRows rowsB) s2);
             s4 = fst (visitorFinish (AskVisit peerA) (GotRows rowsA) s3)
    in v_currentPeerId s4 = Some peerB \<and> v_rows s4 = rowsA \<and> v_selectedChannelId s4 = Some (row_id r) \<and>
       snd (sendMessage body s4) = [AskPost peerB (row_id r) (trim body)]"
proof -
  define s3 where "s3 = fst (visitorFinish (AskVisit peerB) (GotRows rowsB)
      (fst (openVisit peerB (fst (openVisit peerA initialVisitor)))))"
  define s4 where "s4 = fst (visitorFinish (AskVisit peerA) (GotRows rowsA) s3)"
  have "v_currentPeerId s3 = Some peerB" by (simp add: s3_def openVisit_def)
  then have s4: "v_currentPeerId s4 = Some peerB" "v_rows s4 = rowsA" "v_selectedChannelId s4 = Some (row_id r)"
    using assms(1) by (simp_all add: s4_def)
  then have "snd (sendMessage body s4) = [AskPost peerB (row_id r) (trim body)]"
    using assms by (simp add: sendMessage_def nonempty_def)
  with s4 show ?thesis by (simp add: Let_def s4_def s3_def)
qed

lemma stale_visit_answer_wins_witness:
  "v_rows (fst (visitorFinish (AskVisit ''A'') (GotRows [\<lparr>row_id = ''c'', row_name = ''n'', row_kind = ''k'',
     row_acl_mode = ''open'', row_created_at = 0, row_visibility = Visible, row_theme_summary = None\<rparr>])
     (fst (visitorFinish (AskVisit ''B'') (GotRows []) (fst (openVisit ''B'' (fst (openVisit ''A'' initialVisitor)))))))) \<noteq> []"
  using stale_visit_answer_wins[of "[\<lparr>row_id = ''c'', row_name = ''n'', row_kind = ''k'',
     row_acl_mode = ''open'', row_created_at = 0, row_visibility = Visible, row_theme_summary = None\<rparr>]"
     "\<lparr>row_id = ''c'', row_name = ''n'', row_kind = ''k'', row_acl_mode = ''open'', row_created_at = 0,
       row_visibility = Visible, row_theme_summary = None\<rparr>" "''B''" "''hi''" "''A''" "[]"]
  by (simp add: Let_def trim_def is_space_def char_code_def)

text \<open>
  A gated channel cannot be entered from the list: selecting a row whose visibility is not visible
  sends nothing, reports the gate and keeps the selection and the messages; selecting a visible one
  clears the messages before it asks the visited peer for that channel's.
\<close>
theorem gated_channel_not_entered:
  assumes "find_by row_id c (v_rows st) = Some row"
  shows "selectChannel c st = (if row_visibility row \<noteq> Visible then (st\<lparr>v_error := Some ''channel_gated''\<rparr>, [])
    else if nonempty (v_currentPeerId st) \<and> c \<noteq> [] then
      (st\<lparr>v_selectedChannelId := Some c, v_messages := [], v_isLoading := True, v_error := None\<rparr>,
       [AskMessages (the (v_currentPeerId st)) c MESSAGE_PAGE_SIZE])
    else (st\<lparr>v_selectedChannelId := Some c, v_messages := [], v_error := None\<rparr>, []))"
  using assms by (simp add: selectChannel_def refreshMessages_def nonempty_def)

lemma gated_channel_not_entered_witness:
  "selectChannel ''c'' (initialVisitor\<lparr>v_rows := [\<lparr>row_id = ''c'', row_name = ''n'', row_kind = ''k'',
     row_acl_mode = ''closed'', row_created_at = 0, row_visibility = NeedsKnock None, row_theme_summary = None\<rparr>]\<rparr>) =
   (initialVisitor\<lparr>v_rows := [\<lparr>row_id = ''c'', row_name = ''n'', row_kind = ''k'',
     row_acl_mode = ''closed'', row_created_at = 0, row_visibility = NeedsKnock None, row_theme_summary = None\<rparr>],
     v_error := Some ''channel_gated''\<rparr>, [])"
  using gated_channel_not_entered[of "''c''" "initialVisitor\<lparr>v_rows := [\<lparr>row_id = ''c'', row_name = ''n'', row_kind = ''k'',
     row_acl_mode = ''closed'', row_created_at = 0, row_visibility = NeedsKnock None, row_theme_summary = None\<rparr>]\<rparr>"
     "\<lparr>row_id = ''c'', row_name = ''n'', row_kind = ''k'',
     row_acl_mode = ''closed'', row_created_at = 0, row_visibility = NeedsKnock None, row_theme_summary = None\<rparr>"]
  by simp

section \<open>The host's own porch\<close>

record PorchState =
  p_channels :: "PorchChannel list"
  p_selectedChannelId :: "str option"
  p_messages :: "ChannelMessage list"
  p_isLoaded :: bool
  p_isLoading :: bool
  p_error :: "str option"

datatype porch_request = ListMine | GetLocal str nat | PostLocal str str

datatype porch_answer = PFailed str | PChannels "PorchChannel list" | PMessages "ChannelMessage list" | PMessage ChannelMessage

definition porchRefreshMessages :: "bool \<Rightarrow> PorchState \<Rightarrow> PorchState \<times> porch_request list" where
  "porchRefreshMessages tauri st = (if \<not> tauri \<or> \<not> nonempty (p_selectedChannelId st) then (st, [])
     else (st\<lparr>p_isLoading := True, p_error := None\<rparr>, [GetLocal (the (p_selectedChannelId st)) MESSAGE_PAGE_SIZE]))"

definition porchLoadChannels :: "bool \<Rightarrow> PorchState \<Rightarrow> PorchState \<times> porch_request list" where
  "porchLoadChannels tauri st = (if \<not> tauri then (st\<lparr>p_error := Some ''native_only'', p_isLoaded := True\<rparr>, [])
     else (st\<lparr>p_isLoading := True, p_error := None\<rparr>, [ListMine]))"

definition porchSelectChannel :: "bool \<Rightarrow> str \<Rightarrow> PorchState \<Rightarrow> PorchState \<times> porch_request list" where
  "porchSelectChannel tauri c st = porchRefreshMessages tauri (st\<lparr>p_selectedChannelId := Some c, p_messages := []\<rparr>)"

definition porchSendMessage :: "bool \<Rightarrow> str \<Rightarrow> PorchState \<Rightarrow> PorchState \<times> porch_request list" where
  "porchSendMessage tauri body st = (if \<not> tauri then (st\<lparr>p_error := Some ''native_only''\<rparr>, [])
     else if \<not> nonempty (p_selectedChannelId st) then (st\<lparr>p_error := Some ''no_channel_selected''\<rparr>, [])
     else if trim body = [] then (st, [])
     else (st, [PostLocal (the (p_selectedChannelId st)) (trim body)]))"

fun porchFinish :: "porch_request \<Rightarrow> porch_answer \<Rightarrow> PorchState \<Rightarrow> PorchState \<times> porch_request list" where
  "porchFinish ListMine (PChannels cs) st =
     (let current = p_selectedChannelId st;
          next_ch = (case current of Some c \<Rightarrow> Some c | None \<Rightarrow> (case cs of [] \<Rightarrow> None | c # _ \<Rightarrow> Some (pc_id c)));
          st1 = st\<lparr>p_channels := cs, p_selectedChannelId := next_ch, p_isLoaded := True, p_isLoading := False\<rparr>
      in if nonempty next_ch \<and> next_ch \<noteq> current then porchRefreshMessages True st1 else (st1, []))"
| "porchFinish ListMine (PFailed e) st = (st\<lparr>p_error := Some e, p_isLoading := False\<rparr>, [])"
| "porchFinish (GetLocal c n) (PMessages ms) st = (st\<lparr>p_messages := ms, p_isLoading := False\<rparr>, [])"
| "porchFinish (GetLocal c n) (PFailed e) st = (st\<lparr>p_error := Some e, p_isLoading := False\<rparr>, [])"
| "porchFinish (PostLocal c b) (PMessage m) st = (st\<lparr>p_messages := p_messages st @ [m]\<rparr>, [])"
| "porchFinish (PostLocal c b) (PFailed e) st = (st\<lparr>p_error := Some e\<rparr>, [])"
| "porchFinish _ _ st = (st, [])"

text \<open>On the web build the own porch sends nothing, whatever the user does.\<close>
lemma web_porch_is_silent:
  "snd (porchLoadChannels False st) = [] \<and> snd (porchSelectChannel False c st) = [] \<and>
   snd (porchSendMessage False b st) = [] \<and> snd (porchRefreshMessages False st) = []"
  by (simp add: porchLoadChannels_def porchSelectChannel_def porchSendMessage_def porchRefreshMessages_def)

end
