(* ===== verification/Voice.thy ===== *)
theory Voice
  imports ServerStore Storage JsonText
begin

text \<open>
  Joining and leaving voice: the store \<open>client/src/stores/voice.ts\<close> with its connection lock and its
  persisted session, the path selector \<open>client/src/api/voicePath.ts\<close>, and the join flow
  \<open>client/src/components/voice/joinVoiceSession.ts\<close>. The flow is a state machine: one phase per await,
  one event per answer, so that attempts and user actions interleave; \<open>joinVoiceSession\<close> is its run to
  completion. Media devices, the Tauri commands and the token endpoint are the events.
\<close>

section \<open>The store\<close>

datatype VoiceConnectionState = VDisconnected | VConnecting | VConnected | VReconnecting | VFailed

datatype VoiceTransport = Livekit | Libp2pMesh

datatype VoiceChannelType = PlaceCall | VoiceCall

record VoiceSession =
  vse_serverId :: str
  vse_serverName :: "str option"
  vse_channelId :: str
  vse_channelName :: str
  vse_roomName :: str
  vse_returnChannelId :: "str option"
  vse_returnChannelName :: "str option"

record VoiceState =
  vo_connected :: bool
  vo_connectionState :: VoiceConnectionState
  vo_reconnectAttempt :: nat
  vo_transport :: VoiceTransport
  vo_token :: "str option"
  vo_livekitUrl :: "str option"
  vo_iceServers :: "json list"
  vo_serverId :: "str option"
  vo_serverName :: "str option"
  vo_channelId :: "str option"
  vo_channelName :: "str option"
  vo_roomName :: "str option"
  vo_returnChannelId :: "str option"
  vo_returnChannelName :: "str option"
  vo_micGranted :: bool
  vo_statsSessionId :: "int option"
  vo_channelType :: "VoiceChannelType option"
  vo_micActive :: bool
  vo_cameraActive :: bool

definition initialVoice :: VoiceState where
  "initialVoice = \<lparr>vo_connected = False, vo_connectionState = VDisconnected, vo_reconnectAttempt = 0,
     vo_transport = Livekit, vo_token = None, vo_livekitUrl = None, vo_iceServers = [], vo_serverId = None,
     vo_serverName = None, vo_channelId = None, vo_channelName = None, vo_roomName = None,
     vo_returnChannelId = None, vo_returnChannelName = None, vo_micGranted = False, vo_statsSessionId = None,
     vo_channelType = None, vo_micActive = False, vo_cameraActive = False\<rparr>"

text \<open>The parameters of \<open>connect\<close>. Its callers give every key but \<open>transport\<close>, whose absence is None.\<close>
record ConnectParams =
  cp_token :: str
  cp_livekitUrl :: str
  cp_iceServers :: "json list"
  cp_serverId :: str
  cp_serverName :: "str option"
  cp_channelId :: str
  cp_channelName :: str
  cp_roomName :: str
  cp_returnChannelId :: "str option"
  cp_returnChannelName :: "str option"
  cp_micGranted :: bool
  cp_channelType :: VoiceChannelType
  cp_transport :: "VoiceTransport option"

datatype stats_call = StartStats str str | EndStats int

text \<open>The store, the two storages it writes, and the signed-in user it asks the auth store for.\<close>
record VoiceWorld =
  vw_voice :: VoiceState
  vw_local :: local_storage
  vw_session :: local_storage
  vw_userId :: "str option"
  vw_accessToken :: "str option"
  vw_calls :: "stats_call list"

definition VOICE_SESSION_KEY :: str where "VOICE_SESSION_KEY = ''concord_voice_session''"
definition VOICE_STATS_SESSION_KEY :: str where "VOICE_STATS_SESSION_KEY = ''concord_voice_stats_session''"
definition MAX_RECONNECT_ATTEMPTS :: nat where "MAX_RECONNECT_ATTEMPTS = 3"
definition RECONNECT_BASE_DELAY_MS :: nat where "RECONNECT_BASE_DELAY_MS = 1000"

definition userScopedStorageKey :: "str \<Rightarrow> VoiceWorld \<Rightarrow> str" where
  "userScopedStorageKey base w = (case vw_userId w of None \<Rightarrow> base
     | Some u \<Rightarrow> if u = [] then base else base @ '':'' @ u)"

definition opt_json :: "str option \<Rightarrow> json" where
  "opt_json x = (case x of None \<Rightarrow> JNull | Some s \<Rightarrow> JStr s)"

definition session_json :: "VoiceSession \<Rightarrow> json" where
  "session_json s = JObj [(''serverId'', JStr (vse_serverId s)), (''serverName'', opt_json (vse_serverName s)),
     (''channelId'', JStr (vse_channelId s)), (''channelName'', JStr (vse_channelName s)),
     (''roomName'', JStr (vse_roomName s)), (''returnChannelId'', opt_json (vse_returnChannelId s)),
     (''returnChannelName'', opt_json (vse_returnChannelName s))]"

text \<open>What the function returns is the parsed value; the source only casts it. None is null.\<close>
definition getPendingVoiceSession :: "VoiceWorld \<Rightarrow> json option" where
  "getPendingVoiceSession w =
     (case (case getItem (vw_local w) (userScopedStorageKey VOICE_SESSION_KEY w) of
              Some r \<Rightarrow> Some r | None \<Rightarrow> getItem (vw_session w) VOICE_SESSION_KEY) of
        None \<Rightarrow> None
      | Some raw \<Rightarrow> if raw = [] then None
          else (case json_parse raw of None \<Rightarrow> None | Some v \<Rightarrow> if v = JNull then None else Some v))"

definition clearPendingVoiceSession :: "VoiceWorld \<Rightarrow> VoiceWorld" where
  "clearPendingVoiceSession w = w\<lparr>vw_local := removeItem (userScopedStorageKey VOICE_SESSION_KEY w) (vw_local w),
     vw_session := removeItem VOICE_SESSION_KEY (vw_session w)\<rparr>"

definition setConnectionState :: "VoiceConnectionState \<Rightarrow> VoiceWorld \<Rightarrow> VoiceWorld" where
  "setConnectionState s w = w\<lparr>vw_voice := (vw_voice w)\<lparr>vo_connectionState := s\<rparr>\<rparr>"

definition in_flight :: "VoiceWorld \<Rightarrow> bool" where
  "in_flight w = (vo_connectionState (vw_voice w) = VConnecting \<or> vo_connectionState (vw_voice w) = VReconnecting)"

definition beginConnectAttempt :: "bool \<Rightarrow> VoiceWorld \<Rightarrow> bool \<times> VoiceWorld" where
  "beginConnectAttempt reconnecting w = (if in_flight w then (False, w)
     else (True, setConnectionState (if reconnecting then VReconnecting else VConnecting) w))"

definition incrementReconnectAttempt :: "VoiceWorld \<Rightarrow> VoiceWorld" where
  "incrementReconnectAttempt w = w\<lparr>vw_voice := (vw_voice w)\<lparr>vo_reconnectAttempt := vo_reconnectAttempt (vw_voice w) + 1\<rparr>\<rparr>"

definition resetReconnectAttempt :: "VoiceWorld \<Rightarrow> VoiceWorld" where
  "resetReconnectAttempt w = w\<lparr>vw_voice := (vw_voice w)\<lparr>vo_reconnectAttempt := 0\<rparr>\<rparr>"

definition setMicActive :: "bool \<Rightarrow> VoiceWorld \<Rightarrow> VoiceWorld" where
  "setMicActive b w = w\<lparr>vw_voice := (vw_voice w)\<lparr>vo_micActive := b\<rparr>\<rparr>"

definition setCameraActive :: "bool \<Rightarrow> VoiceWorld \<Rightarrow> VoiceWorld" where
  "setCameraActive b w = w\<lparr>vw_voice := (vw_voice w)\<lparr>vo_cameraActive := b\<rparr>\<rparr>"

definition session_of :: "ConnectParams \<Rightarrow> VoiceSession" where
  "session_of p = \<lparr>vse_serverId = cp_serverId p, vse_serverName = cp_serverName p, vse_channelId = cp_channelId p,
     vse_channelName = cp_channelName p, vse_roomName = cp_roomName p,
     vse_returnChannelId = cp_returnChannelId p, vse_returnChannelName = cp_returnChannelName p\<rparr>"

definition connect :: "ConnectParams \<Rightarrow> VoiceWorld \<Rightarrow> VoiceWorld" where
  "connect p w =
     (let text = stringify (session_json (session_of p));
          w1 = w\<lparr>vw_local := setItem (userScopedStorageKey VOICE_SESSION_KEY w) text (vw_local w),
                 vw_session := setItem VOICE_SESSION_KEY text (vw_session w)\<rparr>;
          w2 = w1\<lparr>vw_voice := (vw_voice w1)\<lparr>vo_connected := True, vo_connectionState := VConnected,
                 vo_reconnectAttempt := 0, vo_channelType := Some (cp_channelType p),
                 vo_transport := (case cp_transport p of None \<Rightarrow> Livekit | Some t \<Rightarrow> t),
                 vo_token := Some (cp_token p), vo_livekitUrl := Some (cp_livekitUrl p),
                 vo_iceServers := cp_iceServers p, vo_serverId := Some (cp_serverId p),
                 vo_serverName := cp_serverName p, vo_channelId := Some (cp_channelId p),
                 vo_channelName := Some (cp_channelName p), vo_roomName := Some (cp_roomName p),
                 vo_returnChannelId := cp_returnChannelId p, vo_returnChannelName := cp_returnChannelName p,
                 vo_micGranted := cp_micGranted p\<rparr>\<rparr>
      in if vw_accessToken w2 \<noteq> None \<and> vw_accessToken w2 \<noteq> Some []
         then w2\<lparr>vw_calls := vw_calls w2 @ [StartStats (cp_channelId p) (cp_serverId p)]\<rparr> else w2)"

text \<open>The answer of the stats endpoint, whenever it arrives.\<close>
definition statsStarted :: "int \<Rightarrow> VoiceWorld \<Rightarrow> VoiceWorld" where
  "statsStarted i w = w\<lparr>vw_voice := (vw_voice w)\<lparr>vo_statsSessionId := Some i\<rparr>,
     vw_session := setItem VOICE_STATS_SESSION_KEY (int_text i) (vw_session w)\<rparr>"

text \<open>\<open>Number(text)\<close> on the texts the store writes; anything else reads as 0, which is falsy like NaN.\<close>
definition stats_number :: "str \<Rightarrow> int" where
  "stats_number s = (case parse_int (trim s) of Some (i, r) \<Rightarrow> if r = [] then i else 0 | None \<Rightarrow> 0)"

definition disconnect :: "VoiceWorld \<Rightarrow> VoiceWorld" where
  "disconnect w =
     (let sessionId = (case vo_statsSessionId (vw_voice w) of
              Some i \<Rightarrow> if i \<noteq> 0 then i else (case getItem (vw_session w) VOICE_STATS_SESSION_KEY of None \<Rightarrow> 0 | Some s \<Rightarrow> stats_number s)
            | None \<Rightarrow> (case getItem (vw_session w) VOICE_STATS_SESSION_KEY of None \<Rightarrow> 0 | Some s \<Rightarrow> stats_number s));
          w1 = (if sessionId = 0 then w
                else (if vw_accessToken w \<noteq> None \<and> vw_accessToken w \<noteq> Some []
                      then w\<lparr>vw_calls := vw_calls w @ [EndStats sessionId]\<rparr> else w)
                     \<lparr>vw_session := removeItem VOICE_STATS_SESSION_KEY (vw_session w)\<rparr>);
          w2 = clearPendingVoiceSession w1
      in w2\<lparr>vw_voice := initialVoice\<rparr>)"

section \<open>Choosing the path\<close>

datatype VoicePath = MeshPath | SfuPath

record VoiceParticipant =
  vp_matrix_user_id :: str
  vp_peer_id :: "str option"

text \<open>\<open>native\<close> is the answer of the Tauri command on a native build (\<open>Inl\<close> the error text), None on the
  web; \<open>node\<close> says whether the browser's libp2p node has been started.\<close>
definition selectVoicePath :: "(str + VoicePath \<times> str) option \<Rightarrow> bool \<Rightarrow> VoiceParticipant list \<Rightarrow> VoicePath \<times> str" where
  "selectVoicePath native node participants = (case native of
     Some (Inr d) \<Rightarrow> d
   | Some (Inl err) \<Rightarrow> (SfuPath, ''select_voice_path_error: '' @ err)
   | None \<Rightarrow>
       if \<not> node then (SfuPath, ''browser_libp2p_not_running'')
       else if length participants > 8 then (SfuPath, ''above_cap_8'')
       else if (\<exists>p \<in> set participants. vp_peer_id p = None \<or> vp_peer_id p = Some []) then (SfuPath, ''web_only_participant_present'')
       else (MeshPath, ''all_native_under_cap''))"

section \<open>The join flow\<close>

record JoinParams =
  jp_roomId :: str
  jp_channelName :: str
  jp_serverId :: str
  jp_activeServer :: "Server option"
  jp_activeChannelId :: "str option"
  jp_channelType :: "VoiceChannelType option"
  jp_serverName :: "str option"
  jp_returnChannelId :: "str option"
  jp_returnChannelName :: "str option"
  jp_reconnecting :: bool

record TokenAnswer =
  ta_token :: str
  ta_livekit_url :: str
  ta_ice_servers :: "json list option"

definition or_else :: "'a option \<Rightarrow> 'a option \<Rightarrow> 'a option" where
  "or_else x y = (case x of None \<Rightarrow> y | Some v \<Rightarrow> Some v)"

definition channelsOf :: "JoinParams \<Rightarrow> Channel list" where
  "channelsOf p = (case jp_activeServer p of None \<Rightarrow> [] | Some s \<Rightarrow> srv_channels s)"

text \<open>The text channel the user came from: the active one, when it is not a voice channel.\<close>
definition returnChannel :: "JoinParams \<Rightarrow> Channel option" where
  "returnChannel p = find (\<lambda>c. Some (ch_matrix_room_id c) = jp_activeChannelId p \<and> ch_channel_type c \<noteq> VoiceChannel) (channelsOf p)"

definition anyTextChannel :: "JoinParams \<Rightarrow> Channel option" where
  "anyTextChannel p = find (\<lambda>c. ch_channel_type c \<noteq> VoiceChannel) (channelsOf p)"

definition baseParams :: "JoinParams \<Rightarrow> bool \<Rightarrow> ConnectParams" where
  "baseParams p mic = \<lparr>cp_token = [], cp_livekitUrl = [], cp_iceServers = [], cp_serverId = jp_serverId p,
     cp_serverName = or_else (jp_serverName p) (map_option srv_name (jp_activeServer p)),
     cp_channelId = jp_roomId p, cp_channelName = jp_channelName p, cp_roomName = jp_roomId p,
     cp_returnChannelId = or_else (jp_returnChannelId p) (map_option ch_matrix_room_id (returnChannel p)),
     cp_returnChannelName = or_else (jp_returnChannelName p) (map_option ch_name (returnChannel p)),
     cp_micGranted = mic, cp_channelType = (case jp_channelType p of None \<Rightarrow> VoiceCall | Some t \<Rightarrow> t),
     cp_transport = None\<rparr>"

definition meshParams :: "JoinParams \<Rightarrow> bool \<Rightarrow> ConnectParams" where
  "meshParams p mic = (baseParams p mic)\<lparr>cp_transport := Some Libp2pMesh\<rparr>"

text \<open>\<open>wkLivekit || result.livekit_url || ws-form of the homeserver\<close>, with a trailing slash.\<close>
definition livekitUrl :: "str option \<Rightarrow> str \<Rightarrow> str \<Rightarrow> str" where
  "livekitUrl wk answer homeserver =
     (let raw = (if wk \<noteq> None \<and> wk \<noteq> Some [] then the wk else if answer \<noteq> [] then answer
                 else (if starts_with ''http'' homeserver then ''ws'' @ drop 4 homeserver else homeserver) @ ''/livekit/'')
      in if ends_with ''/'' raw then raw else raw @ ''/'')"

definition livekitParams :: "str option \<Rightarrow> str \<Rightarrow> JoinParams \<Rightarrow> bool \<Rightarrow> TokenAnswer \<Rightarrow> ConnectParams" where
  "livekitParams wk homeserver p mic t = (baseParams p mic)\<lparr>cp_token := ta_token t,
     cp_livekitUrl := livekitUrl wk (ta_livekit_url t) homeserver,
     cp_iceServers := (case ta_ice_servers t of None \<Rightarrow> [] | Some xs \<Rightarrow> xs),
     cp_returnChannelId := or_else (jp_returnChannelId p) (or_else (map_option ch_matrix_room_id (returnChannel p))
        (map_option ch_matrix_room_id (anyTextChannel p))),
     cp_returnChannelName := or_else (jp_returnChannelName p) (or_else (map_option ch_name (returnChannel p))
        (map_option ch_name (anyTextChannel p)))\<rparr>"

datatype join_phase = AwaitMic | AwaitAudio bool | AwaitPath bool | AwaitMesh bool | AwaitToken bool

text \<open>The answer to what a phase awaits. No microphone API counts as a denied microphone.\<close>
datatype join_event = MicResult bool | AudioReady | PathChosen VoicePath | MeshResult bool | TokenResult "str + TokenAnswer"

datatype join_outcome = Running join_phase | Done | Thrown str

text \<open>The instance configuration the flow reads: the well-known LiveKit URL and the homeserver's URL.\<close>
type_synonym voice_config = "str option \<times> str"

fun joinStep :: "voice_config \<Rightarrow> JoinParams \<Rightarrow> join_phase \<Rightarrow> join_event \<Rightarrow> VoiceWorld \<Rightarrow> join_outcome \<times> VoiceWorld" where
  "joinStep cfg p AwaitMic (MicResult g) w = (Running (AwaitAudio g), w)"
| "joinStep cfg p (AwaitAudio g) AudioReady w = (Running (AwaitPath g), w)"
| "joinStep cfg p (AwaitPath g) (PathChosen MeshPath) w = (Running (AwaitMesh g), w)"
| "joinStep cfg p (AwaitPath g) (PathChosen SfuPath) w = (Running (AwaitToken g), w)"
| "joinStep cfg p (AwaitMesh g) (MeshResult ok) w =
     (if ok then (Done, connect (meshParams p g) w) else (Running (AwaitToken g), w))"
| "joinStep cfg p (AwaitToken g) (TokenResult (Inl err)) w = (Thrown err, setConnectionState VDisconnected w)"
| "joinStep cfg p (AwaitToken g) (TokenResult (Inr t)) w = (Done, connect (livekitParams (fst cfg) (snd cfg) p g t) w)"
| "joinStep cfg p ph ev w = (Running ph, w)"

text \<open>What the environment answers to one attempt.\<close>
record JoinAnswers =
  ja_mic :: bool
  ja_path :: VoicePath
  ja_mesh :: bool
  ja_token :: "str + TokenAnswer"

fun next_event :: "JoinAnswers \<Rightarrow> join_phase \<Rightarrow> join_event" where
  "next_event a AwaitMic = MicResult (ja_mic a)"
| "next_event a (AwaitAudio _) = AudioReady"
| "next_event a (AwaitPath _) = PathChosen (ja_path a)"
| "next_event a (AwaitMesh _) = MeshResult (ja_mesh a)"
| "next_event a (AwaitToken _) = TokenResult (ja_token a)"

fun phases_left :: "join_phase \<Rightarrow> nat" where
  "phases_left AwaitMic = 4" | "phases_left (AwaitAudio _) = 3" | "phases_left (AwaitPath _) = 2"
| "phases_left (AwaitMesh _) = 1" | "phases_left (AwaitToken _) = 0"

lemma joinStep_progress:
  "joinStep cfg p ph (next_event a ph) w = (Running ph', w') \<Longrightarrow> phases_left ph' < phases_left ph"
  by (cases ph; cases "ja_path a"; cases "ja_token a") (auto split: if_splits)

function runJoin :: "voice_config \<Rightarrow> JoinParams \<Rightarrow> JoinAnswers \<Rightarrow> join_phase \<Rightarrow> VoiceWorld \<Rightarrow> join_outcome \<times> VoiceWorld" where
  "runJoin cfg p a ph w = (case joinStep cfg p ph (next_event a ph) w of
     (Running ph', w') \<Rightarrow> runJoin cfg p a ph' w'
   | (out, w') \<Rightarrow> (out, w'))"
  by pat_completeness auto
termination
  by (relation "measure (\<lambda>(cfg, p, a, ph, w). phases_left ph)") (auto dest: joinStep_progress sym)

declare runJoin.simps [simp del]

text \<open>None: another attempt holds the lock and the function returns at once.\<close>
definition joinVoiceSession :: "voice_config \<Rightarrow> JoinParams \<Rightarrow> JoinAnswers \<Rightarrow> VoiceWorld \<Rightarrow> join_outcome option \<times> VoiceWorld" where
  "joinVoiceSession cfg p a w =
     (let (claimed, w1) = beginConnectAttempt (jp_reconnecting p) w
      in if \<not> claimed then (None, w1)
         else (let (out, w2) = runJoin cfg p a AwaitMic w1 in (Some out, w2)))"

section \<open>The lock\<close>

lemma connect_state [simp]:
  "vo_connectionState (vw_voice (connect p w)) = VConnected" "vo_connected (vw_voice (connect p w))"
  "vo_channelId (vw_voice (connect p w)) = Some (cp_channelId p)"
  "vo_transport (vw_voice (connect p w)) = (case cp_transport p of None \<Rightarrow> Livekit | Some t \<Rightarrow> t)"
  by (simp_all add: connect_def Let_def)

lemma setConnectionState_simps [simp]:
  "vo_connectionState (vw_voice (setConnectionState s w)) = s"
  "vo_connected (vw_voice (setConnectionState s w)) = vo_connected (vw_voice w)"
  "vo_channelId (vw_voice (setConnectionState s w)) = vo_channelId (vw_voice w)"
  "vw_local (setConnectionState s w) = vw_local w" "vw_session (setConnectionState s w) = vw_session w"
  by (simp_all add: setConnectionState_def)

lemma run_from_mic:
  "runJoin cfg p a AwaitMic w =
    (if ja_path a = MeshPath \<and> ja_mesh a then (Done, connect (meshParams p (ja_mic a)) w)
     else (case ja_token a of
        Inl err \<Rightarrow> (Thrown err, setConnectionState VDisconnected w)
      | Inr t \<Rightarrow> (Done, connect (livekitParams (fst cfg) (snd cfg) p (ja_mic a) t) w)))"
  by (cases "ja_path a"; cases "ja_token a") (simp_all add: runJoin.simps)

text \<open>
  C1. An attempt that claims the lock gives it back, whatever the microphone, the path selector, the
  mesh and the token endpoint answer: it ends connected (over the mesh when that was chosen and joined,
  over LiveKit when a token came) or disconnected with the error thrown. An attempt that finds the
  lock taken changes nothing.
\<close>
theorem join_releases_lock:
  "joinVoiceSession cfg p a w = (out, w') \<Longrightarrow>
   (if in_flight w then out = None \<and> w' = w
    else \<not> in_flight w' \<and>
      (if ja_path a = MeshPath \<and> ja_mesh a
       then out = Some Done \<and> vo_connectionState (vw_voice w') = VConnected \<and>
            vo_channelId (vw_voice w') = Some (jp_roomId p) \<and> vo_transport (vw_voice w') = Libp2pMesh
       else (case ja_token a of
          Inr _ \<Rightarrow> out = Some Done \<and> vo_connectionState (vw_voice w') = VConnected \<and>
            vo_channelId (vw_voice w') = Some (jp_roomId p) \<and> vo_transport (vw_voice w') = Livekit
        | Inl err \<Rightarrow> out = Some (Thrown err) \<and> vo_connectionState (vw_voice w') = VDisconnected \<and>
            vo_connected (vw_voice w') = vo_connected (vw_voice w) \<and> vw_local w' = vw_local w)))"
  by (auto simp: joinVoiceSession_def beginConnectAttempt_def run_from_mic in_flight_def meshParams_def livekitParams_def
      baseParams_def split: if_splits sum.splits)

definition sampleJoin :: JoinParams where
  "sampleJoin = \<lparr>jp_roomId = ''!v'', jp_channelName = ''v'', jp_serverId = ''s'', jp_activeServer = None,
     jp_activeChannelId = None, jp_channelType = None, jp_serverName = None, jp_returnChannelId = None,
     jp_returnChannelName = None, jp_reconnecting = False\<rparr>"

definition sampleVoice :: VoiceWorld where
  "sampleVoice = \<lparr>vw_voice = initialVoice, vw_local = [], vw_session = [], vw_userId = Some ''@a'',
     vw_accessToken = None, vw_calls = []\<rparr>"

lemma join_releases_lock_witness:
  "\<not> in_flight (snd (joinVoiceSession (None, []) sampleJoin
     \<lparr>ja_mic = True, ja_path = SfuPath, ja_mesh = False, ja_token = Inl ''down''\<rparr> sampleVoice))"
  using join_releases_lock[of "(None, [])" sampleJoin "\<lparr>ja_mic = True, ja_path = SfuPath, ja_mesh = False, ja_token = Inl ''down''\<rparr>"
     sampleVoice "fst (joinVoiceSession (None, []) sampleJoin
       \<lparr>ja_mic = True, ja_path = SfuPath, ja_mesh = False, ja_token = Inl ''down''\<rparr> sampleVoice)"
     "snd (joinVoiceSession (None, []) sampleJoin
       \<lparr>ja_mic = True, ja_path = SfuPath, ja_mesh = False, ja_token = Inl ''down''\<rparr> sampleVoice)"]
  by (simp add: in_flight_def sampleVoice_def initialVoice_def)

text \<open>
  Attempts interleaved with each other, one await at a time, and, when \<open>leaving\<close> is set, with the
  user's \<open>disconnect\<close>.
\<close>
inductive voice_reach :: "bool \<Rightarrow> VoiceWorld \<Rightarrow> (JoinParams \<times> join_phase) list \<Rightarrow> bool" for leaving :: bool where
  init: "voice_reach leaving w []" if "\<not> in_flight w"
| begins: "voice_reach leaving w ats \<Longrightarrow> beginConnectAttempt (jp_reconnecting p) w = (True, w') \<Longrightarrow>
     voice_reach leaving w' (ats @ [(p, AwaitMic)])"
| refused: "voice_reach leaving w ats \<Longrightarrow> beginConnectAttempt reconnecting w = (False, w') \<Longrightarrow> voice_reach leaving w' ats"
| proceeds: "voice_reach leaving w (as @ (p, ph) # bs) \<Longrightarrow> joinStep cfg p ph ev w = (Running ph', w') \<Longrightarrow>
     voice_reach leaving w' (as @ (p, ph') # bs)"
| ends: "voice_reach leaving w (as @ (p, ph) # bs) \<Longrightarrow> joinStep cfg p ph ev w = (out, w') \<Longrightarrow>
     (\<And>q. out \<noteq> Running q) \<Longrightarrow> voice_reach leaving w' (as @ bs)"
| leaves: "leaving \<Longrightarrow> voice_reach leaving w ats \<Longrightarrow> voice_reach leaving (disconnect w) ats"

lemma joinStep_running: "joinStep cfg p ph ev w = (Running ph', w') \<Longrightarrow> w' = w"
  by (cases "(cfg, p, ph, ev, w)" rule: joinStep.cases) (auto split: if_splits)

lemma joinStep_ends: "joinStep cfg p ph ev w = (out, w') \<Longrightarrow> (\<And>q. out \<noteq> Running q) \<Longrightarrow> \<not> in_flight w'"
  by (cases "(cfg, p, ph, ev, w)" rule: joinStep.cases) (auto simp: in_flight_def split: if_splits)

lemma lock_counts_attempts:
  "voice_reach leaving w ats \<Longrightarrow> \<not> leaving \<Longrightarrow> length ats = (if in_flight w then 1 else 0)"
proof (induction rule: voice_reach.induct)
  case (begins w ats p w')
  then show ?case by (auto simp: beginConnectAttempt_def in_flight_def split: if_splits)
next
  case (proceeds w as p ph bs cfg ev ph' w')
  have "w' = w" using proceeds.hyps(2) by (rule joinStep_running)
  then show ?case using proceeds by simp
next
  case (ends w as p ph bs cfg ev out w')
  then have "\<not> in_flight w'" using joinStep_ends by metis
  then show ?case using ends by (auto split: if_splits)
qed (auto simp: beginConnectAttempt_def split: if_splits)

text \<open>
  C2. The lock excludes: while nobody disconnects, at most one attempt is in flight at any time, and the
  store says connecting or reconnecting exactly while one is, whatever other attempts try and in
  whatever order the answers come.
\<close>
theorem attempts_mutually_exclusive:
  "voice_reach False w ats \<Longrightarrow> length ats \<le> 1 \<and> (in_flight w \<longleftrightarrow> ats \<noteq> [])"
  using lock_counts_attempts[of False w ats] by (auto split: if_splits)

lemma attempts_mutually_exclusive_witness:
  "in_flight (snd (beginConnectAttempt False sampleVoice))"
proof -
  have "voice_reach False sampleVoice []"
    by (rule voice_reach.init) (simp add: sampleVoice_def in_flight_def initialVoice_def)
  then have "voice_reach False (snd (beginConnectAttempt False sampleVoice)) ([] @ [(sampleJoin, AwaitMic)])"
    by (rule voice_reach.begins) (simp add: beginConnectAttempt_def sampleJoin_def sampleVoice_def in_flight_def initialVoice_def)
  from attempts_mutually_exclusive[OF this] show ?thesis by simp
qed

lemma disconnect_voice [simp]: "vw_voice (disconnect w) = initialVoice"
  by (simp add: disconnect_def Let_def clearPendingVoiceSession_def)

text \<open>
  A disconnect while an attempt is in flight frees the lock under it: a second attempt can start
  beside the first, and the first still connects the user who left when its token arrives.
\<close>
theorem disconnect_breaks_exclusion:
  assumes "voice_reach True w [(p, AwaitToken mic)]" "\<not> jp_reconnecting q"
  shows "voice_reach True (snd (beginConnectAttempt False (disconnect w))) [(p, AwaitToken mic), (q, AwaitMic)] \<and>
    vo_connected (vw_voice (snd (joinStep cfg p (AwaitToken mic) (TokenResult (Inr t)) (disconnect w))))"
proof -
  let ?d = "disconnect w"
  have d: "voice_reach True ?d [(p, AwaitToken mic)]" using assms(1) by (rule voice_reach.leaves[OF TrueI])
  have "\<not> in_flight ?d" by (simp add: in_flight_def initialVoice_def)
  then have "beginConnectAttempt (jp_reconnecting q) ?d = (True, snd (beginConnectAttempt False ?d))"
    using assms(2) by (simp add: beginConnectAttempt_def)
  from voice_reach.begins[OF d this] show ?thesis by simp
qed

lemma disconnect_breaks_exclusion_witness:
  "\<exists>w. voice_reach True w [(sampleJoin, AwaitToken True), (sampleJoin, AwaitMic)]"
proof -
  let ?w = "setConnectionState VConnecting sampleVoice"
  have b: "beginConnectAttempt (jp_reconnecting sampleJoin) sampleVoice = (True, ?w)"
    by (simp add: beginConnectAttempt_def sampleJoin_def sampleVoice_def in_flight_def initialVoice_def)
  have i: "voice_reach True sampleVoice []"
    by (rule voice_reach.init) (simp add: sampleVoice_def in_flight_def initialVoice_def)
  have 1: "voice_reach True ?w ([] @ (sampleJoin, AwaitMic) # [])" using voice_reach.begins[OF i b] by simp
  have 2: "voice_reach True ?w ([] @ (sampleJoin, AwaitAudio True) # [])"
    by (rule voice_reach.proceeds[OF 1, where ev = "MicResult True"]) simp
  have 3: "voice_reach True ?w ([] @ (sampleJoin, AwaitPath True) # [])"
    by (rule voice_reach.proceeds[OF 2, where ev = AudioReady]) simp
  have 4: "voice_reach True ?w ([] @ (sampleJoin, AwaitToken True) # [])"
    by (rule voice_reach.proceeds[OF 3, where ev = "PathChosen SfuPath"]) simp
  have nr: "\<not> jp_reconnecting sampleJoin" by (simp add: sampleJoin_def)
  from disconnect_breaks_exclusion[OF 4[simplified] nr] show ?thesis by blast
qed

section \<open>The persisted session\<close>

lemma session_json_ok [simp]: "json_ok (session_json s)"
  by (simp add: session_json_def opt_json_def split: option.splits)

lemma stringify_nonempty [simp]: "stringify v \<noteq> []"
  using stringify_start[of v] by auto

lemma scoped_key_cong: "vw_userId w = vw_userId w' \<Longrightarrow> userScopedStorageKey b w = userScopedStorageKey b w'"
  by (simp add: userScopedStorageKey_def)

lemma connect_storage [simp]:
  "vw_userId (connect p w) = vw_userId w"
  "vw_local (connect p w) = setItem (userScopedStorageKey VOICE_SESSION_KEY w) (stringify (session_json (session_of p))) (vw_local w)"
  "vw_session (connect p w) = setItem VOICE_SESSION_KEY (stringify (session_json (session_of p))) (vw_session w)"
  by (simp_all add: connect_def Let_def)

lemma session_json_not_null [simp]: "session_json s \<noteq> JNull"
  by (simp add: session_json_def)

lemma disconnect_storage:
  "vw_userId (disconnect w) = vw_userId w"
  "vw_local (disconnect w) = removeItem (userScopedStorageKey VOICE_SESSION_KEY w) (vw_local w)"
  "getItem (vw_session (disconnect w)) VOICE_SESSION_KEY = None"
  by (auto simp: disconnect_def Let_def clearPendingVoiceSession_def ls.get_remove userScopedStorageKey_def)

text \<open>
  The session a connection persists is the one a page refresh finds: after \<open>connect\<close>, the pending
  session read back for the same user is exactly the one stored, whatever the names contain, and after
  \<open>disconnect\<close> there is none.
\<close>
theorem pending_session_roundtrip:
  "getPendingVoiceSession (connect p w) = Some (session_json (session_of p)) \<and>
   getPendingVoiceSession (disconnect (connect p w)) = None"
proof
  have "userScopedStorageKey b (connect p w) = userScopedStorageKey b w" for b by (rule scoped_key_cong) simp
  then show "getPendingVoiceSession (connect p w) = Some (session_json (session_of p))"
    by (simp add: getPendingVoiceSession_def ls.get_put parse_stringify)
  have "userScopedStorageKey b (disconnect w') = userScopedStorageKey b w'" for b w'
    by (rule scoped_key_cong) (simp add: disconnect_storage)
  then show "getPendingVoiceSession (disconnect (connect p w)) = None"
    by (simp add: getPendingVoiceSession_def disconnect_storage ls.get_remove)
qed

text \<open>
  The second copy of the session is not scoped to the user: in the same tab, another user without a
  pending session of their own is offered the previous user's.
\<close>
theorem pending_session_leaks_to_next_user:
  assumes "vw_userId w = Some a" "a \<noteq> []" "b \<noteq> []" "a \<noteq> b" "getItem (vw_local w) (VOICE_SESSION_KEY @ '':'' @ b) = None"
  shows "getPendingVoiceSession ((connect p w)\<lparr>vw_userId := Some b\<rparr>) = Some (session_json (session_of p))"
  using assms by (simp add: getPendingVoiceSession_def userScopedStorageKey_def ls.get_put parse_stringify)

lemma pending_session_leaks_to_next_user_witness:
  "getPendingVoiceSession ((connect (meshParams sampleJoin True) sampleVoice)\<lparr>vw_userId := Some ''@b''\<rparr>) =
   Some (session_json (session_of (meshParams sampleJoin True)))"
  by (rule pending_session_leaks_to_next_user[where a = "''@a''"]) (simp_all add: sampleVoice_def getItem_def)

text \<open>
  The browser's path selector chooses the mesh only when its own node runs, at most eight
  participants take part and every one of them has a peer id; an error of the native selector never
  chooses it.
\<close>
theorem mesh_only_when_viable:
  "(fst (selectVoicePath None node ps) = MeshPath \<longleftrightarrow>
      node \<and> length ps \<le> 8 \<and> (\<forall>p \<in> set ps. vp_peer_id p \<noteq> None \<and> vp_peer_id p \<noteq> Some [])) \<and>
   fst (selectVoicePath (Some (Inl err)) node ps) = SfuPath"
  by (auto simp: selectVoicePath_def)

end
