(* ===== verification/Codec.thy ===== *)
theory Codec
  imports JsonText "HOL-Library.Word"
begin

text \<open>
  The byte level under the peer protocols and the pairing links: \<open>TextEncoder\<close>/\<open>TextDecoder\<close>
  (UTF-8), \<open>btoa\<close>/\<open>atob\<close> (base64 over byte strings, decoded as the WHATWG "forgiving" decoder
  does), and the contract \<open>text_codec\<close> that the base64url pairs of \<open>lib/peerCard.ts\<close> and
  \<open>components/pairing/pairingSchema.ts\<close> are shown to meet.

  A byte is an \<^typ>\<open>8 word\<close>. Text is Latin-1 throughout, so \<open>utf8_decode\<close> gives \<^const>\<open>None\<close> on
  bytes whose decoding (a replacement character, or a character above U+00FF) leaves that alphabet.
\<close>

type_synonym byte = "8 word"
type_synonym bytes = "8 word list"

section \<open>Bytes and characters\<close>

text \<open>\<open>String.fromCharCode(b)\<close> and \<open>s.charCodeAt(i)\<close> stored in a \<open>Uint8Array\<close>.\<close>
definition byte_char :: "byte \<Rightarrow> char" where
  "byte_char b = char_of (unat b)"

definition char_byte :: "char \<Rightarrow> byte" where
  "char_byte c = word_of_nat (char_code c)"

lemma char_byte_char [simp]: "char_byte (byte_char b) = b"
proof -
  have "unat b < 256" using unsigned_less[of b] by simp
  then show ?thesis by (simp add: char_byte_def byte_char_def char_code_of)
qed

lemma map_char_byte_char [simp]: "map (char_byte \<circ> byte_char) bs = bs"
  by (induction bs) auto

section \<open>UTF-8\<close>

definition utf8_char :: "char \<Rightarrow> bytes" where
  "utf8_char c = (let n = char_code c in
     if n < 128 then [word_of_nat n] else [word_of_nat (192 + n div 64), word_of_nat (128 + n mod 64)])"

definition utf8_encode :: "str \<Rightarrow> bytes" where
  "utf8_encode s = concat (map utf8_char s)"

fun utf8_decode :: "bytes \<Rightarrow> str option" where
  "utf8_decode [] = Some []"
| "utf8_decode (b # r) =
     (if unat b < 128 then map_option (\<lambda>s. char_of (unat b) # s) (utf8_decode r)
      else case r of [] \<Rightarrow> None
      | c # r' \<Rightarrow>
          if (unat b = 194 \<or> unat b = 195) \<and> 128 \<le> unat c \<and> unat c < 192
          then map_option (\<lambda>s. char_of ((unat b - 192) * 64 + (unat c - 128)) # s) (utf8_decode r')
          else None)"

lemma unat_byte: "n < 256 \<Longrightarrow> unat (word_of_nat n :: byte) = n"
  by (simp add: unat_of_nat)

lemma utf8_decode_char: "utf8_decode (utf8_char c @ r) = map_option (\<lambda>s. c # s) (utf8_decode r)"
proof -
  define n where "n = char_code c"
  have n: "n < 256" and c: "c = char_of n" by (simp_all add: n_def char_code_less_256)
  show ?thesis
  proof (cases "n < 128")
    case True
    then have "utf8_char c = [word_of_nat n]" by (simp add: utf8_char_def n_def)
    then show ?thesis using True c by (simp add: unat_byte)
  next
    case False
    have q: "192 + n div 64 < 256" "128 + n mod 64 < 256" using n by (simp_all add: less_mult_imp_div_less)
    have "n div 64 = 2 \<or> n div 64 = 3" using False n by linarith
    moreover have "n div 64 * 64 + n mod 64 = n" by simp
    moreover have "utf8_char c = [word_of_nat (192 + n div 64), word_of_nat (128 + n mod 64)]"
      unfolding utf8_char_def Let_def n_def[symmetric] using False by (simp only: if_False)
    ultimately show ?thesis using c unat_byte[OF q(1)] unat_byte[OF q(2)] by (auto simp: c)
  qed
qed

lemma utf8_roundtrip [simp]: "utf8_decode (utf8_encode s) = Some s"
  by (induction s) (simp_all add: utf8_encode_def utf8_decode_char)

lemma utf8_length: "length (utf8_encode s) \<le> 2 * length s"
  by (induction s) (auto simp: utf8_encode_def utf8_char_def Let_def)

section \<open>Percent encoding\<close>

definition uri_unreserved :: "char \<Rightarrow> bool" where
  "uri_unreserved c = (is_alpha c \<or> is_digit c
     \<or> c \<in> {CHR ''-'', CHR ''_'', CHR ''.'', CHR ''!'', CHR ''~'', CHR ''*'', CHR 0x27, CHR ''('', CHR '')''})"

definition hex_upper :: "nat \<Rightarrow> char" where
  "hex_upper d = (if d < 10 then char_of (48 + d) else char_of (55 + d))"

definition percent_byte :: "byte \<Rightarrow> str" where
  "percent_byte b = [CHR ''%'', hex_upper (unat b div 16), hex_upper (unat b mod 16)]"

definition encode_char :: "char \<Rightarrow> str" where
  "encode_char c = (if uri_unreserved c then [c] else concat (map percent_byte (utf8_char c)))"

definition encodeURIComponent :: "str \<Rightarrow> str" where
  "encodeURIComponent s = concat (map encode_char s)"

text \<open>\<open>decodeURIComponent\<close>; None when it throws, and on text outside Latin-1.\<close>
fun percent_bytes :: "str \<Rightarrow> bytes option" where
  "percent_bytes [] = Some []"
| "percent_bytes (c # r) =
    (if c \<noteq> CHR ''%'' then map_option (\<lambda>bs. utf8_char c @ bs) (percent_bytes r)
     else case r of a # b # r' \<Rightarrow> (case (hex_value a, hex_value b) of
         (Some x, Some y) \<Rightarrow> map_option (\<lambda>bs. word_of_nat (16 * x + y) # bs) (percent_bytes r')
       | _ \<Rightarrow> None) | _ \<Rightarrow> None)"

definition decodeURIComponent :: "str \<Rightarrow> str option" where
  "decodeURIComponent s = (case percent_bytes s of None \<Rightarrow> None | Some bs \<Rightarrow> utf8_decode bs)"

lemma hex_upper_value: "d < 16 \<Longrightarrow> hex_value (hex_upper d) = Some d"
  by (cases "d < 10") (simp_all add: hex_value_def hex_upper_def char_code_of)

lemma hex_upper_hex: "d < 16 \<Longrightarrow> is_hex_digit (hex_upper d)"
  by (cases "d < 10") (simp_all add: is_hex_digit_def hex_upper_def char_code_of)

lemma byte_nibbles: "unat (b::byte) div 16 < 16" "unat b mod 16 < 16"
proof -
  have "unat b < 256" using unsigned_less[of b] by simp
  then show "unat b div 16 < 16" by simp
qed simp

lemma percent_byte_read: "percent_bytes (percent_byte b @ r) = map_option (\<lambda>bs. b # bs) (percent_bytes r)"
proof -
  note h = hex_upper_value[OF byte_nibbles(1)[of b]] hex_upper_value[OF byte_nibbles(2)[of b]]
  have "16 * (unat b div 16) + unat b mod 16 = unat b" by simp
  then have "word_of_nat (16 * (unat b div 16) + unat b mod 16) = (word_of_nat (unat b) :: byte)" by simp
  also have "\<dots> = b" by simp
  finally have "word_of_nat (16 * (unat b div 16) + unat b mod 16) = b" .
  then show ?thesis by (simp add: percent_byte_def h del: of_nat_add of_nat_mult)
qed

lemma percent_bytes_read: "percent_bytes (concat (map percent_byte bs) @ r) = map_option (\<lambda>cs. bs @ cs) (percent_bytes r)"
  by (induction bs) (simp_all add: percent_byte_read option.map_comp comp_def option.map_ident)

lemma encode_char_read: "percent_bytes (encode_char c @ r) = map_option (\<lambda>bs. utf8_char c @ bs) (percent_bytes r)"
proof (cases "uri_unreserved c")
  case True
  then have "c \<noteq> CHR ''%''" by (auto simp: uri_unreserved_def is_alpha_def is_digit_def char_code_def)
  then show ?thesis using True by (simp add: encode_char_def)
qed (simp add: encode_char_def percent_bytes_read)

lemma encoded_bytes: "percent_bytes (encodeURIComponent s) = Some (utf8_encode s)"
  by (induction s) (simp_all add: encodeURIComponent_def utf8_encode_def encode_char_read)

lemma decode_encode [simp]: "decodeURIComponent (encodeURIComponent s) = Some s"
  by (simp add: decodeURIComponent_def encoded_bytes)

lemma encoded_chars: "c \<in> set (encodeURIComponent s) \<Longrightarrow> uri_unreserved c \<or> c = CHR ''%'' \<or> is_hex_digit c"
proof -
  have b: "c \<in> set (percent_byte b) \<Longrightarrow> c = CHR ''%'' \<or> is_hex_digit c" for b
    using hex_upper_hex[OF byte_nibbles(1)[of b]] hex_upper_hex[OF byte_nibbles(2)[of b]] by (auto simp: percent_byte_def)
  show "c \<in> set (encodeURIComponent s) \<Longrightarrow> uri_unreserved c \<or> c = CHR ''%'' \<or> is_hex_digit c"
    using b by (auto simp: encodeURIComponent_def encode_char_def split: if_splits)
qed

lemma encoded_free:
  "CHR ''/'' \<notin> set (encodeURIComponent s)" "CHR ''?'' \<notin> set (encodeURIComponent s)" "CHR ''&'' \<notin> set (encodeURIComponent s)"
  "CHR ''='' \<notin> set (encodeURIComponent s)" "CHR ''#'' \<notin> set (encodeURIComponent s)"
  by (auto dest!: encoded_chars simp: uri_unreserved_def is_alpha_def is_digit_def is_hex_digit_def char_code_def)

section \<open>Base64\<close>

definition b64_char :: "nat \<Rightarrow> char" where
  "b64_char v = (if v < 26 then char_of (65 + v) else if v < 52 then char_of (71 + v)
     else if v < 62 then char_of (v - 4) else if v = 62 then CHR ''+'' else CHR ''/'')"

definition b64_value :: "char \<Rightarrow> nat option" where
  "b64_value c = (let n = char_code c in
     if 65 \<le> n \<and> n \<le> 90 then Some (n - 65) else if 97 \<le> n \<and> n \<le> 122 then Some (n - 71)
     else if 48 \<le> n \<and> n \<le> 57 then Some (n + 4) else if c = CHR ''+'' then Some 62
     else if c = CHR ''/'' then Some 63 else None)"

fun sextets :: "nat list \<Rightarrow> nat list" where
  "sextets [] = []"
| "sextets [a] = [a div 4, a mod 4 * 16]"
| "sextets [a, b] = [a div 4, a mod 4 * 16 + b div 16, b mod 16 * 4]"
| "sextets (a # b # c # r) =
     a div 4 # (a mod 4 * 16 + b div 16) # (b mod 16 * 4 + c div 64) # c mod 64 # sextets r"

text \<open>Groups of four six-bit values back to bytes; the low bits of a short last group are dropped.\<close>
fun octets :: "nat list \<Rightarrow> nat list" where
  "octets (a # b # c # d # r) =
     (a * 4 + b div 16) # (b mod 16 * 16 + c div 4) # (c mod 4 * 64 + d) # octets r"
| "octets [a, b, c] = [a * 4 + b div 16, b mod 16 * 16 + c div 4]"
| "octets [a, b] = [a * 4 + b div 16]"
| "octets _ = []"

definition btoa :: "str \<Rightarrow> str" where
  "btoa s = map b64_char (sextets (map char_code s)) @ replicate ((3 - length s mod 3) mod 3) CHR ''=''"

definition is_ascii_ws :: "char \<Rightarrow> bool" where
  "is_ascii_ws c = (char_code c \<in> {9, 10, 12, 13, 32})"

fun drop_last_pad :: "nat \<Rightarrow> str \<Rightarrow> str" where
  "drop_last_pad 0 s = s"
| "drop_last_pad (Suc n) s = (if s \<noteq> [] \<and> last s = CHR ''='' then drop_last_pad n (butlast s) else s)"

fun collect_options :: "'a option list \<Rightarrow> 'a list option" where
  "collect_options [] = Some []"
| "collect_options (x # xs) = (case (x, collect_options xs) of (Some y, Some ys) \<Rightarrow> Some (y # ys) | _ \<Rightarrow> None)"

definition atob :: "str \<Rightarrow> str option" where
  "atob s0 = (let s1 = filter (\<lambda>c. \<not> is_ascii_ws c) s0;
                 s2 = (if length s1 mod 4 = 0 then drop_last_pad 2 s1 else s1)
     in if length s2 mod 4 = 1 then None
        else map_option (\<lambda>vs. map char_of (octets vs)) (collect_options (map b64_value s2)))"

lemma small_div: "(b::nat) < 256 \<Longrightarrow> b div 16 < 16 \<and> b div 4 < 64 \<and> b div 64 < 4"
  by (simp add: less_mult_imp_div_less)

lemma sextet_bounds:
  fixes a b c :: nat
  assumes "a < 256" "b < 256" "c < 256"
  shows "a div 4 < 64" "a mod 4 * 16 + b div 16 < 64" "b mod 16 * 4 + c div 64 < 64" "b mod 16 * 4 < 64"
    "a mod 4 * 16 < 64"
proof -
  have "a mod 4 < 4" "b mod 16 < 16" by simp_all
  then show "a mod 4 * 16 + b div 16 < 64" "b mod 16 * 4 + c div 64 < 64" "b mod 16 * 4 < 64" "a mod 4 * 16 < 64" "a div 4 < 64"
    using small_div[OF assms(1)] small_div[OF assms(2)] small_div[OF assms(3)] by linarith+
qed

lemma octet_sextet:
  fixes b :: nat
  assumes "b < 256"
  shows "b div 16 div 16 = 0" "b div 16 mod 16 * 16 + b mod 16 = b"
    "b div 64 div 4 = 0" "b div 64 mod 4 * 64 + b mod 64 = b"
proof -
  have "b div 16 < 16" "b div 64 < 4" using small_div[OF assms] by auto
  then show "b div 16 div 16 = 0" "b div 16 mod 16 * 16 + b mod 16 = b"
    "b div 64 div 4 = 0" "b div 64 mod 4 * 64 + b mod 64 = b" by simp_all
qed

lemma sextets_bound: "\<forall>n \<in> set ns. n < 256 \<Longrightarrow> x \<in> set (sextets ns) \<Longrightarrow> x < 64"
proof (induction ns rule: sextets.induct)
  case (4 a b c r)
  have "a < 256" "b < 256" "c < 256" using 4(2) by auto
  from sextet_bounds[OF this] show ?case using 4 by auto
next
  case (3 a b)
  then show ?case using sextet_bounds[of a b 0] by auto
next
  case (2 a)
  then show ?case using sextet_bounds[of a 0 0] by auto
qed simp

lemma octets_sextets: "\<forall>n \<in> set ns. n < 256 \<Longrightarrow> octets (sextets ns) = ns"
  by (induction ns rule: sextets.induct) (simp_all add: octet_sextet)

lemma length_sextets: "length (sextets ns) = length ns div 3 * 4 + (if length ns mod 3 = 0 then 0 else length ns mod 3 + 1)"
proof (induction ns rule: sextets.induct)
  case (4 a b c r)
  have "length (a # b # c # r) = length r + 3" by simp
  moreover have "(length r + 3) div 3 = Suc (length r div 3)" "(length r + 3) mod 3 = length r mod 3" by simp_all
  ultimately show ?case using 4 by (simp only: sextets.simps list.size) simp
qed simp_all

lemma punctuation_codes:
  "char_code CHR ''+'' = 43" "char_code CHR ''/'' = 47" "char_code CHR ''='' = 61" "char_code CHR ''-'' = 45"
  "char_code CHR ''_'' = 95"
  by (simp_all add: char_code_def)

lemma b64_char_code:
  "v < 64 \<Longrightarrow> char_code (b64_char v) = (if v < 26 then 65 + v else if v < 52 then 71 + v else if v < 62 then v - 4
     else if v = 62 then 43 else 47)"
  by (auto simp: b64_char_def char_code_of punctuation_codes)

lemma b64_value_char [simp]: "v < 64 \<Longrightarrow> b64_value (b64_char v) = Some v"
proof -
  assume v: "v < 64"
  consider "v < 26" | "26 \<le> v" "v < 52" | "52 \<le> v" "v < 62" | "v = 62" | "v = 63" using v by linarith
  then show ?thesis
  proof cases
    case 1
    then show ?thesis unfolding b64_value_def Let_def by (simp add: b64_char_code)
  next
    case 2
    then show ?thesis unfolding b64_value_def Let_def by (simp add: b64_char_code)
  next
    case 3
    then have "48 \<le> v - 4 \<and> v - 4 \<le> 57" by linarith
    then show ?thesis using 3 by (simp add: b64_value_def b64_char_code)
  qed (simp_all add: b64_value_def b64_char_code b64_char_def punctuation_codes)
qed

text \<open>What no character of a base64 text is: white space, padding, or one the URL alphabet replaces by.\<close>
definition plain_b64 :: "char \<Rightarrow> bool" where
  "plain_b64 c = (char_code c \<notin> {9, 10, 12, 13, 32, 45, 61, 95})"

lemma plain_b64_char: "v < 64 \<Longrightarrow> plain_b64 (b64_char v)"
  by (auto simp: plain_b64_def b64_char_code split: if_splits)

lemma plain_b64_not: "plain_b64 c \<Longrightarrow> \<not> is_ascii_ws c \<and> c \<noteq> CHR ''='' \<and> c \<noteq> CHR ''-'' \<and> c \<noteq> CHR ''_''"
  by (auto simp: plain_b64_def is_ascii_ws_def punctuation_codes)

lemma collect_map_Some: "(\<And>x. x \<in> set xs \<Longrightarrow> f x = Some (g x)) \<Longrightarrow> collect_options (map f xs) = Some (map g xs)"
  by (induction xs) auto

definition b64_body :: "str \<Rightarrow> str" where
  "b64_body s = map b64_char (sextets (map char_code s))"

definition pad_count :: "str \<Rightarrow> nat" where
  "pad_count s = (3 - length s mod 3) mod 3"

lemma codes_bound: "\<forall>n \<in> set (map char_code s). n < 256"
  by (simp add: char_code_less_256)

lemma btoa_body: "btoa s = b64_body s @ replicate (pad_count s) CHR ''=''"
  by (simp add: btoa_def b64_body_def pad_count_def)

lemma body_plain: "c \<in> set (b64_body s) \<Longrightarrow> plain_b64 c"
  using sextets_bound[OF codes_bound] by (auto simp: b64_body_def plain_b64_char)

lemma body_value: "map_option (\<lambda>vs. map char_of (octets vs)) (collect_options (map b64_value (b64_body s))) = Some s"
proof -
  have "collect_options (map b64_value (b64_body s)) = Some (map id (sextets (map char_code s)))"
    unfolding b64_body_def map_map comp_def
    by (rule collect_map_Some) (use sextets_bound[OF codes_bound] in simp)
  then show ?thesis by (simp add: octets_sextets[OF codes_bound] comp_def)
qed

lemma pad_count_cases:
  obtains "pad_count s = 0" "length (b64_body s) mod 4 = 0"
    | "pad_count s = 1" "length (b64_body s) mod 4 = 3"
    | "pad_count s = 2" "length (b64_body s) mod 4 = 2"
proof -
  have b: "length (b64_body s) = length s div 3 * 4 + (if length s mod 3 = 0 then 0 else length s mod 3 + 1)"
    by (simp add: b64_body_def length_sextets)
  consider "length s mod 3 = 0" | "length s mod 3 = 1" | "length s mod 3 = 2" by linarith
  then show thesis
  proof cases
    case 1 then show ?thesis using b by (intro that(1)) (simp_all add: pad_count_def)
  next
    case 2
    then have "length (b64_body s) = length s div 3 * 4 + 2" using b by simp
    then show ?thesis using 2 by (intro that(3)) (simp_all add: pad_count_def del: add_2_eq_Suc')
  next
    case 3
    then have "length (b64_body s) = length s div 3 * 4 + 3" using b by simp
    then show ?thesis using 3 by (intro that(2)) (simp_all add: pad_count_def)
  qed
qed

lemma drop_last_pad_replicate:
  "k \<le> n \<Longrightarrow> CHR ''='' \<notin> set s \<Longrightarrow> drop_last_pad n (s @ replicate k CHR ''='') = s"
proof (induction n arbitrary: k)
  case (Suc n)
  show ?case
  proof (cases k)
    case 0
    then show ?thesis using Suc.prems by (auto dest: last_in_set)
  next
    case (Suc j)
    have "s @ replicate k CHR ''='' = (s @ replicate j CHR ''='') @ [CHR ''='']"
      using Suc by (simp add: replicate_append_same[symmetric] del: replicate_append_same)
    then have "drop_last_pad (Suc n) (s @ replicate k CHR ''='') = drop_last_pad n (s @ replicate j CHR ''='')"
      by (simp only: drop_last_pad.simps last_snoc butlast_snoc) simp
    then show ?thesis using Suc.IH[of j] Suc.prems Suc by simp
  qed
qed simp

lemma atob_btoa [simp]: "atob (btoa s) = Some s"
proof -
  have eq: "CHR ''='' \<notin> set (b64_body s)" using body_plain plain_b64_not by blast
  have "\<forall>c \<in> set (btoa s). \<not> is_ascii_ws c"
    using body_plain plain_b64_not by (auto simp: btoa_body is_ascii_ws_def punctuation_codes)
  then have f: "filter (\<lambda>c. \<not> is_ascii_ws c) (btoa s) = btoa s" by (simp add: filter_id_conv)
  have l: "length (btoa s) mod 4 = 0 \<and> pad_count s \<le> 2 \<and> length (b64_body s) mod 4 \<noteq> 1"
    by (cases s rule: pad_count_cases) (simp_all add: btoa_body mod_Suc)
  have d: "drop_last_pad 2 (btoa s) = b64_body s"
    unfolding btoa_body by (rule drop_last_pad_replicate) (use l eq in auto)
  show ?thesis unfolding atob_def Let_def f using l d body_value[of s] by simp
qed

section \<open>The base64url alphabet\<close>

text \<open>The replacements around \<open>btoa\<close> and \<open>atob\<close>; \<open>pad4\<close> is the \<open>while (s.length % 4 !== 0)\<close> loop.\<close>
definition url_char :: "char \<Rightarrow> char" where
  "url_char c = (if c = CHR ''+'' then CHR ''-'' else if c = CHR ''/'' then CHR ''_'' else c)"

definition std_char :: "char \<Rightarrow> char" where
  "std_char c = (if c = CHR ''-'' then CHR ''+'' else if c = CHR ''_'' then CHR ''/'' else c)"

definition strip_trailing :: "char \<Rightarrow> str \<Rightarrow> str" where
  "strip_trailing c s = rev (dropWhile (\<lambda>x. x = c) (rev s))"

function pad4 :: "str \<Rightarrow> str" where
  "pad4 s = (if length s mod 4 = 0 then s else pad4 (s @ ''=''))"
  by pat_completeness auto

termination
proof (relation "measure (\<lambda>s. (4 - length s mod 4) mod 4)")
  fix s :: str
  assume "length s mod 4 \<noteq> 0"
  moreover have "length s mod 4 < 4" by simp
  ultimately consider "length s mod 4 = 1" | "length s mod 4 = 2" | "length s mod 4 = 3" by linarith
  then show "(s @ ''='', s) \<in> measure (\<lambda>s. (4 - length s mod 4) mod 4)"
    by cases (simp_all add: mod_Suc)
qed simp

declare pad4.simps [simp del]

lemma url_std_char: "plain_b64 c \<Longrightarrow> std_char (url_char c) = c \<and> url_char c \<noteq> CHR ''=''"
  using plain_b64_not by (auto simp: url_char_def std_char_def)

lemma strip_trailing_replicate:
  "c \<notin> set s \<Longrightarrow> strip_trailing c (s @ replicate k c) = s"
proof -
  assume "c \<notin> set s"
  then have "dropWhile (\<lambda>x. x = c) (rev s) = rev s" 
    unfolding dropWhile_eq_self_iff by (metis hd_in_set set_rev)
  moreover have "dropWhile (\<lambda>x. x = c) (replicate k c @ rev s) = dropWhile (\<lambda>x. x = c) (rev s)"
    by (induction k) auto
  ultimately show ?thesis by (simp add: strip_trailing_def)
qed

lemma pad4_length: "length (pad4 s) mod 4 = 0"
  by (induction s rule: pad4.induct) (subst pad4.simps, simp)

lemma pad4_steps:
  "length s mod 4 = 0 \<Longrightarrow> pad4 s = s"
  "length s mod 4 = 3 \<Longrightarrow> pad4 s = s @ ''=''"
  "length s mod 4 = 2 \<Longrightarrow> pad4 s = s @ ''==''"
  by (subst pad4.simps, simp add: mod_Suc; (subst pad4.simps, simp add: mod_Suc)?;
      (subst pad4.simps, simp add: mod_Suc)?)+

lemma pad4_body: "pad4 (b64_body s) = btoa s"
  by (cases s rule: pad_count_cases) (simp_all add: pad4_steps btoa_body numeral_2_eq_2)

section \<open>The contract of a text codec\<close>

locale text_codec =
  fixes enc :: "str \<Rightarrow> 'w" and dec :: "'w \<Rightarrow> str option"
  assumes dec_enc: "dec (enc s) = Some s"
begin

lemma enc_inject: "enc s = enc t \<longleftrightarrow> s = t"
  by (metis dec_enc option.inject)

lemma dec_json:
  assumes "json_ok v"
  shows "(case dec (enc (stringify v)) of None \<Rightarrow> None | Some t \<Rightarrow> json_parse t) = Some v"
  using parse_stringify[OF assms] by (simp add: dec_enc)

end

interpretation utf8: text_codec utf8_encode utf8_decode
  by unfold_locales simp

end
