(* ===== verification/PeerCard.thy ===== *)
theory PeerCard
  imports Codec
begin

text \<open>
  The peer card codec of \<open>lib/peerCard.ts\<close>: the public triple another install needs to dial this
  one, as a \<open>concord://peer/\<close> link whose tail is base64url over UTF-8 over JSON. The encoder, the
  total decoder with its error texts, and the field-by-field validation are the source's; the
  decoder's result is \<^const>\<open>None\<close> only where the payload is text outside the Latin-1 alphabet of
  the model (the source goes on with replacement or wide characters there).
\<close>

definition SCHEME :: str where
  "SCHEME = ''concord://peer/''"

record peer_card =
  peerId :: str
  publicKeyHex :: str
  multiaddrs :: "str list"

type_synonym decode_result = "str + peer_card"

datatype decoded_text = Thrown | Decoded str | BeyondLatin1

definition base64urlEncode :: "str \<Rightarrow> str" where
  "base64urlEncode txt = (let binary = map byte_char (utf8_encode txt); b64 = btoa binary
     in strip_trailing CHR ''='' (map url_char b64))"

definition base64urlDecode :: "str \<Rightarrow> decoded_text" where
  "base64urlDecode txt = (case atob (pad4 (map std_char txt)) of None \<Rightarrow> Thrown
     | Some binary \<Rightarrow> (case utf8_decode (map char_byte binary) of None \<Rightarrow> BeyondLatin1 | Some s \<Rightarrow> Decoded s))"

definition card_payload :: "peer_card \<Rightarrow> json" where
  "card_payload c = JObj [(''peerId'', JStr (peerId c)), (''publicKeyHex'', JStr (publicKeyHex c)),
     (''multiaddrs'', JArr (map JStr (multiaddrs c)))]"

definition encodeToDeeplink :: "peer_card \<Rightarrow> str" where
  "encodeToDeeplink c = SCHEME @ base64urlEncode (stringify (card_payload c))"

fun nonempty_string :: "json \<Rightarrow> str option" where
  "nonempty_string (JStr s) = (if s = [] then None else Some s)"
| "nonempty_string _ = None"

definition validateCard :: "json \<Rightarrow> decode_result" where
  "validateCard parsed =
    (if \<not> nonnull_object (Some parsed) then Inl ''payload is not an object''
     else case as_str (jget parsed ''peerId'') of
       None \<Rightarrow> Inl ''peerId missing or empty''
     | Some pid \<Rightarrow> if pid = [] then Inl ''peerId missing or empty''
       else case as_str (jget parsed ''publicKeyHex'') of
         None \<Rightarrow> Inl ''publicKeyHex missing''
       | Some key \<Rightarrow>
         if length key \<noteq> 64 then Inl (''publicKeyHex must be 64 hex chars (got '' @ nat_text (length key) @ '')'')
         else if \<not> list_all is_hex_digit key then Inl ''publicKeyHex must be hexadecimal''
         else case as_arr (jget parsed ''multiaddrs'') of
           None \<Rightarrow> Inl ''multiaddrs missing or not an array''
         | Some addrs \<Rightarrow> if addrs = [] then Inl ''multiaddrs must not be empty''
           else case collect_options (map nonempty_string addrs) of
             None \<Rightarrow> Inl ''multiaddrs must be non-empty strings''
           | Some as \<Rightarrow> Inr \<lparr>peerId = pid, publicKeyHex = key, multiaddrs = as\<rparr>)"

definition decodeFromDeeplink :: "str \<Rightarrow> decode_result option" where
  "decodeFromDeeplink url =
    (if \<not> starts_with SCHEME url then Some (Inl (''URL must start with '' @ CHR 0x27 # SCHEME @ [CHR 0x27]))
     else let tail = drop (length SCHEME) url in
       if tail = [] then Some (Inl ''URL has no payload'')
       else case base64urlDecode tail of
         Thrown \<Rightarrow> Some (Inl ''payload is not valid base64url'')
       | BeyondLatin1 \<Rightarrow> None
       | Decoded txt \<Rightarrow> (case json_parse txt of
           None \<Rightarrow> Some (Inl ''payload is not valid JSON'')
         | Some parsed \<Rightarrow> Some (validateCard parsed)))"

definition encodeToQrPayload :: "peer_card \<Rightarrow> str" where
  "encodeToQrPayload c = encodeToDeeplink c"

definition decodeFromQrPayload :: "str \<Rightarrow> decode_result option" where
  "decodeFromQrPayload txt = decodeFromDeeplink txt"

lemmas card_defs [op_defs] = encodeToDeeplink_def decodeFromDeeplink_def encodeToQrPayload_def decodeFromQrPayload_def

section \<open>The base64url pair is a text codec\<close>

lemma url_body: "strip_trailing CHR ''='' (map url_char (btoa s)) = map url_char (b64_body s)"
proof -
  have "map url_char (btoa s) = map url_char (b64_body s) @ replicate (pad_count s) CHR ''=''"
    by (simp add: btoa_body url_char_def)
  moreover have "CHR ''='' \<notin> set (map url_char (b64_body s))" using body_plain url_std_char by fastforce
  ultimately show ?thesis using strip_trailing_replicate by metis
qed

lemma std_url_body: "map std_char (map url_char (b64_body s)) = b64_body s"
  unfolding map_map by (rule map_idI) (use body_plain url_std_char in auto)

lemma base64url_roundtrip: "base64urlDecode (base64urlEncode s) = Decoded s"
  unfolding base64urlEncode_def base64urlDecode_def Let_def url_body std_url_body pad4_body by simp

definition decoded :: "decoded_text \<Rightarrow> str option" where
  "decoded d = (case d of Decoded s \<Rightarrow> Some s | _ \<Rightarrow> None)"

interpretation card_codec: text_codec base64urlEncode "\<lambda>w. decoded (base64urlDecode w)"
  by unfold_locales (simp add: base64url_roundtrip decoded_def)

lemma base64urlEncode_nonempty: "s \<noteq> [] \<Longrightarrow> base64urlEncode s \<noteq> []"
proof -
  have "base64urlEncode [] = []" by code_simp
  then show "s \<noteq> [] \<Longrightarrow> base64urlEncode s \<noteq> []" using card_codec.enc_inject[of s "[]"] by auto
qed

section \<open>Which cards pass\<close>

definition card_ok :: "peer_card \<Rightarrow> bool" where
  "card_ok c = (peerId c \<noteq> [] \<and> length (publicKeyHex c) = 64 \<and> list_all is_hex_digit (publicKeyHex c)
     \<and> multiaddrs c \<noteq> [] \<and> list_all (\<lambda>a. a \<noteq> []) (multiaddrs c))"

lemma nonempty_string_Some [simp]: "nonempty_string v = Some s \<longleftrightarrow> v = JStr s \<and> s \<noteq> []"
  by (cases v) auto

lemma collect_map_Some_id: "collect_options (map Some ys) = Some ys"
  by (induction ys) auto

lemma collect_options_Some: "collect_options xs = Some ys \<longleftrightarrow> xs = map Some ys"
proof
  show "collect_options xs = Some ys \<Longrightarrow> xs = map Some ys"
    by (induction xs arbitrary: ys) (auto split: option.splits)
qed (simp add: collect_map_Some_id)

lemma map_nonempty_string: "map nonempty_string vs = map Some as \<Longrightarrow> list_all (\<lambda>a. a \<noteq> []) as"
  by (induction vs arbitrary: as) auto

lemma validate_payload: "card_ok c \<Longrightarrow> validateCard (card_payload c) = Inr c"
proof -
  assume ok: "card_ok c"
  have "collect_options (map nonempty_string (map JStr (multiaddrs c))) = Some (multiaddrs c)"
    using ok by (simp add: collect_options_Some card_ok_def list_all_iff)
  then show ?thesis using ok
    by (simp add: validateCard_def card_payload_def nonnull_object_def card_ok_def)
qed

lemma card_payload_ok: "json_ok (card_payload c)"
  by (auto simp: card_payload_def)

lemma validate_only_ok: "validateCard v = Inr c \<Longrightarrow> card_ok c"
proof -
  assume v: "validateCard v = Inr c"
  then obtain addrs where "collect_options (map nonempty_string addrs) = Some (multiaddrs c)" "addrs \<noteq> []"
    by (auto simp: validateCard_def split: if_splits option.splits)
  then have "map nonempty_string addrs = map Some (multiaddrs c)" "addrs \<noteq> []" by (simp_all add: collect_options_Some)
  then have "list_all (\<lambda>a. a \<noteq> []) (multiaddrs c)" "multiaddrs c \<noteq> []" by (auto dest: map_nonempty_string)
  then show ?thesis using v by (auto simp: validateCard_def card_ok_def split: if_splits option.splits)
qed

lemma decode_tail:
  "tail \<noteq> [] \<Longrightarrow> decodeFromDeeplink (SCHEME @ tail) =
     (case base64urlDecode tail of
         Thrown \<Rightarrow> Some (Inl ''payload is not valid base64url'')
       | BeyondLatin1 \<Rightarrow> None
       | Decoded txt \<Rightarrow> (case json_parse txt of
           None \<Rightarrow> Some (Inl ''payload is not valid JSON'')
         | Some parsed \<Rightarrow> Some (validateCard parsed)))"
  by (simp add: decodeFromDeeplink_def)

lemma deeplink_roundtrip: "card_ok c \<Longrightarrow> decodeFromDeeplink (encodeToDeeplink c) = Some (Inr c)"
proof -
  assume ok: "card_ok c"
  have "stringify (card_payload c) \<noteq> []" using stringify_length[of "card_payload c"] by auto
  then show ?thesis
    unfolding encodeToDeeplink_def
    by (subst decode_tail)
      (simp_all add: base64urlEncode_nonempty base64url_roundtrip parse_stringify card_payload_ok
        validate_payload[OF ok])
qed

lemma scanned_card_decodes: "card_ok c \<Longrightarrow> decodeFromQrPayload (encodeToQrPayload c) = Some (Inr c)"
  unfolding decodeFromQrPayload_def encodeToQrPayload_def by (rule deeplink_roundtrip)

section \<open>Properties\<close>

text \<open>A card with a peer id, a 64-digit hexadecimal key and at least one address, all non-empty,
  survives the link: decoding the encoded card gives it back.\<close>
theorem peer_card_roundtrip:
  assumes "card_ok c"
  shows "decodeFromQrPayload (encodeToQrPayload c) = Some (Inr c)"
  by (rule scanned_card_decodes[OF assms])

theorem peer_card_roundtrip_witness:
  "decodeFromQrPayload (encodeToQrPayload \<lparr>peerId = ''12D3'', publicKeyHex = replicate 64 CHR ''a'', multiaddrs = [''/ip4/10.0.0.1'']\<rparr>)
     = Some (Inr \<lparr>peerId = ''12D3'', publicKeyHex = replicate 64 CHR ''a'', multiaddrs = [''/ip4/10.0.0.1'']\<rparr>)"
  by (rule peer_card_roundtrip) code_simp

text \<open>C10. Whatever the link, a card the decoder accepts is well formed.\<close>
theorem decoded_card_is_valid:
  assumes "decodeFromDeeplink url = Some (Inr c)"
  shows "card_ok c \<and> starts_with SCHEME url"
proof -
  have s: "starts_with SCHEME url" using assms by (auto simp: decodeFromDeeplink_def split: if_splits)
  then obtain tail where url: "url = SCHEME @ tail" using starts_withD by blast
  have "tail \<noteq> []" using assms url by (auto simp: decodeFromDeeplink_def)
  then show ?thesis using assms s validate_only_ok
    by (auto simp: url decode_tail split: decoded_text.splits option.splits)
qed

theorem decoded_card_is_valid_witness:
  "let c = \<lparr>peerId = ''p'', publicKeyHex = replicate 64 CHR ''0'', multiaddrs = [''/m'']\<rparr>
   in decodeFromDeeplink (encodeToDeeplink c) = Some (Inr c) \<and> card_ok c \<and> starts_with SCHEME (encodeToDeeplink c)"
proof -
  have "card_ok \<lparr>peerId = ''p'', publicKeyHex = replicate 64 CHR ''0'', multiaddrs = [''/m'']\<rparr>" by code_simp
  from deeplink_roundtrip[OF this] decoded_card_is_valid[OF deeplink_roundtrip[OF this]]
  show ?thesis unfolding Let_def by blast
qed

end
