(* ===== verification/Pairing.thy ===== *)
theory Pairing
  imports PeerCard
begin

text \<open>
  The pairing link of \<open>components/pairing/pairingSchema.ts\<close>: \<open>PairingPayloadV1\<close>, its encoder, and the
  decoder with every rejection. The browser's URL parser is the parameter \<open>protocol_of\<close>: what
  \<open>new URL(raw).protocol\<close> is, or \<^const>\<open>None\<close> when the constructor throws.

  The source appends the browser's own error text to the two "failed" messages; it is left out here.
  A result is an error text or a \<open>HomeserverConfig\<close>; \<^const>\<open>None\<close> stands for payload text outside the
  model's Latin-1 alphabet, as in the peer card codec.
\<close>

record homeserver_config =
  host :: str
  homeserver_url :: str
  api_base :: str
  server_name :: "str option"
  livekit_url :: "str option"
  instance_name :: "str option"

definition PAIRING_URL_SCHEME :: str where
  "PAIRING_URL_SCHEME = ''concord+pair''"

definition PAIRING_URL_PREFIX :: str where
  "PAIRING_URL_PREFIX = PAIRING_URL_SCHEME @ ''://v1/?d=''"

text \<open>The message of a \<open>PairingDecodeError\<close>.\<close>
definition PairingDecodeError :: "str \<Rightarrow> str" where
  "PairingDecodeError reason = ''invalid pairing payload: '' @ reason"

definition b64urlEncode :: "str \<Rightarrow> str" where
  "b64urlEncode raw = (let binary = map byte_char (utf8_encode raw)
     in strip_trailing CHR ''='' (map url_char (btoa binary)))"

definition b64urlDecode :: "str \<Rightarrow> decoded_text" where
  "b64urlDecode encoded = (case atob (pad4 (map std_char encoded)) of None \<Rightarrow> Thrown
     | Some binary \<Rightarrow> (case utf8_decode (map char_byte binary) of None \<Rightarrow> BeyondLatin1 | Some s \<Rightarrow> Decoded s))"

text \<open>\<open>if (source.x) payload.x = source.x\<close>\<close>
definition optional_field :: "str \<Rightarrow> str option \<Rightarrow> (str \<times> json) list" where
  "optional_field k x = (case x of None \<Rightarrow> [] | Some s \<Rightarrow> if s = [] then [] else [(k, JStr s)])"

definition pairing_payload :: "homeserver_config \<Rightarrow> json" where
  "pairing_payload src = JObj ([(''v'', JNum 1), (''host'', JStr (host src)),
       (''homeserver_url'', JStr (homeserver_url src)), (''api_base'', JStr (api_base src))]
     @ optional_field ''server_name'' (server_name src) @ optional_field ''livekit_url'' (livekit_url src)
     @ optional_field ''instance_name'' (instance_name src))"

definition encodePairingPayload :: "homeserver_config \<Rightarrow> str" where
  "encodePairingPayload src = PAIRING_URL_PREFIX @ b64urlEncode (stringify (pairing_payload src))"

definition requireSecureUrl :: "(str \<Rightarrow> str option) \<Rightarrow> json option \<Rightarrow> str \<Rightarrow> bool \<Rightarrow> str + str" where
  "requireSecureUrl protocol_of raw label allowWss =
    (case as_str raw of
       None \<Rightarrow> Inl (PairingDecodeError (label @ '' is not a non-empty string''))
     | Some s \<Rightarrow> if s = [] then Inl (PairingDecodeError (label @ '' is not a non-empty string''))
       else case protocol_of s of
         None \<Rightarrow> Inl (PairingDecodeError (label @ '' is not a parsable URL''))
       | Some p \<Rightarrow>
           if p \<noteq> ''https:'' \<and> \<not> (allowWss \<and> p = ''wss:'')
           then Inl (PairingDecodeError (label @ '' must use https:// (got '' @ p @ '')''))
           else Inr (strip_trailing CHR ''/'' s))"

text \<open>\<open>typeof x === "string" && x.length > 0 ? x : undefined\<close>\<close>
definition optional_string :: "json option \<Rightarrow> str option" where
  "optional_string x = (case as_str x of None \<Rightarrow> None | Some s \<Rightarrow> if s = [] then None else Some s)"

definition read_body :: "(str \<Rightarrow> str option) \<Rightarrow> json \<Rightarrow> str + homeserver_config" where
  "read_body protocol_of body =
    (if \<not> nonnull_object (Some body) then Inl (PairingDecodeError ''payload is not a JSON object'')
     else if jget body ''v'' \<noteq> Some (JNum 1)
       then Inl (PairingDecodeError (''unsupported version tag: '' @ key_of (jget body ''v'')))
     else case as_str (jget body ''host'') of
       None \<Rightarrow> Inl (PairingDecodeError ''host is required'')
     | Some h \<Rightarrow> if h = [] then Inl (PairingDecodeError ''host is required'')
       else case requireSecureUrl protocol_of (jget body ''homeserver_url'') ''homeserver_url'' False of
         Inl e \<Rightarrow> Inl e
       | Inr hs \<Rightarrow> case requireSecureUrl protocol_of (jget body ''api_base'') ''api_base'' False of
         Inl e \<Rightarrow> Inl e
       | Inr ab \<Rightarrow> let sn = optional_string (jget body ''server_name'') in
         case (case optional_string (jget body ''livekit_url'') of None \<Rightarrow> Inr None
                | Some s \<Rightarrow> map_sum id Some (requireSecureUrl protocol_of (Some (JStr s)) ''livekit_url'' True)) of
           Inl e \<Rightarrow> Inl e
         | Inr lk \<Rightarrow> Inr \<lparr>host = h, homeserver_url = hs, api_base = ab, server_name = sn, livekit_url = lk,
             instance_name = optional_string (jget body ''instance_name'')\<rparr>)"

definition decodePairingPayload :: "(str \<Rightarrow> str option) \<Rightarrow> str \<Rightarrow> (str + homeserver_config) option" where
  "decodePairingPayload protocol_of input =
    (if input = [] then Some (Inl (PairingDecodeError ''empty input''))
     else if \<not> starts_with PAIRING_URL_PREFIX input \<and> starts_with (PAIRING_URL_SCHEME @ ''://'') input
       then Some (Inl (PairingDecodeError ''unsupported pairing URL version''))
     else let encoded = (if starts_with PAIRING_URL_PREFIX input then drop (length PAIRING_URL_PREFIX) input else input)
       in case b64urlDecode encoded of
         Thrown \<Rightarrow> Some (Inl (PairingDecodeError ''base64url decode failed''))
       | BeyondLatin1 \<Rightarrow> None
       | Decoded txt \<Rightarrow> (case json_parse txt of
           None \<Rightarrow> Some (Inl (PairingDecodeError ''JSON parse failed''))
         | Some obj \<Rightarrow> Some (read_body protocol_of obj)))"

section \<open>The codec and the fields\<close>

lemma b64url_same: "b64urlEncode = base64urlEncode" "b64urlDecode = base64urlDecode"
  by (simp_all add: fun_eq_iff b64urlEncode_def base64urlEncode_def b64urlDecode_def base64urlDecode_def Let_def)

interpretation pairing_codec: text_codec b64urlEncode "\<lambda>w. decoded (b64urlDecode w)"
  unfolding b64url_same by unfold_locales (rule card_codec.dec_enc)

lemma optional_field_simps [simp]:
  "optional_field k None = []" "optional_field k (Some s) = (if s = [] then [] else [(k, JStr s)])"
  by (simp_all add: optional_field_def)

lemma optional_string_simps [simp]:
  "optional_string None = None" "optional_string (Some (JStr s)) = (if s = [] then None else Some s)"
  by (simp_all add: optional_string_def)

text \<open>The keys a payload can have; every one is read back by the field that wrote it.\<close>

lemma payload_lookup:
  "jget (pairing_payload src) ''v'' = Some (JNum 1)"
  "jget (pairing_payload src) ''host'' = Some (JStr (host src))"
  "jget (pairing_payload src) ''homeserver_url'' = Some (JStr (homeserver_url src))"
  "jget (pairing_payload src) ''api_base'' = Some (JStr (api_base src))"
  "jget (pairing_payload src) ''server_name'' = map_of (optional_field ''server_name'' (server_name src)) ''server_name''"
  "jget (pairing_payload src) ''livekit_url'' = map_of (optional_field ''livekit_url'' (livekit_url src)) ''livekit_url''"
  "jget (pairing_payload src) ''instance_name'' = map_of (optional_field ''instance_name'' (instance_name src)) ''instance_name''"
  by (cases "server_name src"; cases "livekit_url src"; cases "instance_name src"; simp add: pairing_payload_def)+

lemma payload_ok: "json_ok (pairing_payload src)"
  by (cases "server_name src"; cases "livekit_url src"; cases "instance_name src"; simp add: pairing_payload_def)

text \<open>\<open>secure p u\<close>: the URL parser gives \<open>u\<close> a protocol the decoder lets through.\<close>
definition secure :: "(str \<Rightarrow> str option) \<Rightarrow> bool \<Rightarrow> str \<Rightarrow> bool" where
  "secure protocol_of ws u = (u \<noteq> [] \<and> (protocol_of u = Some ''https:'' \<or> ws \<and> protocol_of u = Some ''wss:''))"

lemma requireSecureUrl_Inr:
  "requireSecureUrl p raw label ws = Inr u \<longleftrightarrow> (\<exists>s. raw = Some (JStr s) \<and> secure p ws s \<and> u = strip_trailing CHR ''/'' s)"
  by (auto simp: requireSecureUrl_def secure_def split: option.splits if_splits)

lemma requireSecureUrl_ok: "secure p ws s \<Longrightarrow> requireSecureUrl p (Some (JStr s)) label ws = Inr (strip_trailing CHR ''/'' s)"
  by (simp add: requireSecureUrl_Inr)

text \<open>What a decoded configuration is in terms of the encoded one: empty options disappear, URLs lose
  their trailing slashes, everything else is unchanged.\<close>

definition nonempty_option :: "str option \<Rightarrow> str option" where
  "nonempty_option x = (if x = Some [] then None else x)"

definition as_paired :: "homeserver_config \<Rightarrow> homeserver_config" where
  "as_paired src = \<lparr>host = host src, homeserver_url = strip_trailing CHR ''/'' (homeserver_url src),
     api_base = strip_trailing CHR ''/'' (api_base src), server_name = nonempty_option (server_name src),
     livekit_url = map_option (strip_trailing CHR ''/'') (nonempty_option (livekit_url src)),
     instance_name = nonempty_option (instance_name src)\<rparr>"

definition pairable :: "(str \<Rightarrow> str option) \<Rightarrow> homeserver_config \<Rightarrow> bool" where
  "pairable p src = (host src \<noteq> [] \<and> secure p False (homeserver_url src) \<and> secure p False (api_base src)
     \<and> (case nonempty_option (livekit_url src) of None \<Rightarrow> True | Some u \<Rightarrow> secure p True u))"

lemma optional_read: "optional_string (map_of (optional_field k x) k) = nonempty_option x"
  by (cases x) (auto simp: nonempty_option_def)

lemma read_payload: "pairable p src \<Longrightarrow> read_body p (pairing_payload src) = Inr (as_paired src)"
proof -
  assume ok: "pairable p src"
  have obj: "nonnull_object (Some (pairing_payload src))" by (simp add: pairing_payload_def nonnull_object_def)
  have lk: "(case nonempty_option (livekit_url src) of None \<Rightarrow> Inr None
      | Some s \<Rightarrow> map_sum id Some (requireSecureUrl p (Some (JStr s)) ''livekit_url'' True))
      = Inr (map_option (strip_trailing CHR ''/'') (nonempty_option (livekit_url src)))"
    using ok by (auto simp: pairable_def requireSecureUrl_ok split: option.splits)
  show ?thesis using ok
    unfolding read_body_def Let_def payload_lookup optional_read lk
    by (simp add: obj pairable_def requireSecureUrl_ok as_paired_def)
qed

lemma read_body_Inr:
  assumes "read_body p body = Inr cfg"
  shows "host cfg \<noteq> [] \<and> (\<exists>raw. jget body ''homeserver_url'' = Some (JStr raw) \<and> secure p False raw
      \<and> homeserver_url cfg = strip_trailing CHR ''/'' raw)
    \<and> (\<exists>raw. jget body ''api_base'' = Some (JStr raw) \<and> secure p False raw \<and> api_base cfg = strip_trailing CHR ''/'' raw)
    \<and> (\<forall>u. livekit_url cfg = Some u \<longrightarrow> (\<exists>raw. secure p True raw \<and> u = strip_trailing CHR ''/'' raw))"
proof -
  obtain hs ab lk h where r: "h \<noteq> []" "requireSecureUrl p (jget body ''homeserver_url'') ''homeserver_url'' False = Inr hs"
      "requireSecureUrl p (jget body ''api_base'') ''api_base'' False = Inr ab"
      "(case optional_string (jget body ''livekit_url'') of None \<Rightarrow> Inr None
        | Some s \<Rightarrow> map_sum id Some (requireSecureUrl p (Some (JStr s)) ''livekit_url'' True)) = Inr lk"
      "host cfg = h" "homeserver_url cfg = hs" "api_base cfg = ab" "livekit_url cfg = lk"
    using assms unfolding read_body_def Let_def by (auto split: if_splits option.splits sum.splits)
  have "\<exists>raw. secure p True raw \<and> u = strip_trailing CHR ''/'' raw" if u: "lk = Some u" for u
  proof -
    obtain s v where "requireSecureUrl p (Some (JStr s)) ''livekit_url'' True = Inr v" "v = u"
      using r(4) u by (cases "optional_string (jget body ''livekit_url'')")
        (auto simp: map_sum_def split: sum.splits)
    then show ?thesis by (auto simp: requireSecureUrl_Inr)
  qed
  then show ?thesis using r by (auto simp: requireSecureUrl_Inr)
qed

lemma decode_encoded: "decodePairingPayload p (encodePairingPayload src) = Some (read_body p (pairing_payload src))"
proof -
  have "PAIRING_URL_PREFIX \<noteq> []" by code_simp
  then show ?thesis
    unfolding decodePairingPayload_def encodePairingPayload_def Let_def b64url_same
    by (simp add: base64url_roundtrip parse_stringify payload_ok)
qed

section \<open>Properties\<close>

text \<open>C8. A guest that scans the code the host shows gets the host's configuration, URLs without their
  trailing slashes and empty optional fields absent, provided the host's URLs are secure.\<close>
theorem pairing_roundtrip:
  assumes "pairable protocol_of src"
  shows "decodePairingPayload protocol_of (encodePairingPayload src) = Some (Inr (as_paired src))"
  using read_payload[OF assms] by (simp add: decode_encoded)

text \<open>A parser for the witnesses: the scheme is what precedes the first colon.\<close>
definition scheme_of :: "str \<Rightarrow> str option" where
  "scheme_of u = (if CHR '':'' \<in> set u then Some (takeWhile (\<lambda>c. c \<noteq> CHR '':'') u @ '':'') else None)"

definition sample_host :: homeserver_config where
  "sample_host = \<lparr>host = ''h.io'', homeserver_url = ''https://h.io/'', api_base = ''https://h.io/api'',
     server_name = Some [], livekit_url = Some ''wss://h.io/lk/'', instance_name = None\<rparr>"

theorem pairing_roundtrip_witness:
  "pairable scheme_of sample_host
    \<and> decodePairingPayload scheme_of (encodePairingPayload sample_host) = Some (Inr
       \<lparr>host = ''h.io'', homeserver_url = ''https://h.io'', api_base = ''https://h.io/api'',
        server_name = None, livekit_url = Some ''wss://h.io/lk'', instance_name = None\<rparr>)"
proof -
  have p: "pairable scheme_of sample_host" by code_simp
  have a: "as_paired sample_host = \<lparr>host = ''h.io'', homeserver_url = ''https://h.io'', api_base = ''https://h.io/api'',
      server_name = None, livekit_url = Some ''wss://h.io/lk'', instance_name = None\<rparr>" by code_simp
  show ?thesis using p pairing_roundtrip[OF p] unfolding a by simp
qed

text \<open>C9. No downgrade: whatever is scanned, a configuration the decoder returns has a host and comes
  from URLs the browser's parser gives the https protocol (https or wss for LiveKit).\<close>
theorem pairing_rejects_downgrade:
  assumes "decodePairingPayload protocol_of input = Some (Inr cfg)"
  shows "host cfg \<noteq> []
    \<and> (\<exists>raw. protocol_of raw = Some ''https:'' \<and> homeserver_url cfg = strip_trailing CHR ''/'' raw)
    \<and> (\<exists>raw. protocol_of raw = Some ''https:'' \<and> api_base cfg = strip_trailing CHR ''/'' raw)
    \<and> (\<forall>u. livekit_url cfg = Some u \<longrightarrow> (\<exists>raw. (protocol_of raw = Some ''https:'' \<or> protocol_of raw = Some ''wss:'')
          \<and> u = strip_trailing CHR ''/'' raw))"
proof -
  obtain body where "read_body protocol_of body = Inr cfg"
    using assms by (auto simp: decodePairingPayload_def Let_def split: if_splits decoded_text.splits option.splits)
  from read_body_Inr[OF this] show ?thesis by (auto simp: secure_def)
qed

theorem pairing_rejects_downgrade_witness:
  "let input = encodePairingPayload sample_host; cfg = as_paired sample_host
   in decodePairingPayload scheme_of input = Some (Inr cfg) \<and> host cfg \<noteq> []
     \<and> (\<exists>raw. scheme_of raw = Some ''https:'' \<and> homeserver_url cfg = strip_trailing CHR ''/'' raw)"
proof -
  have "pairable scheme_of sample_host" by code_simp
  then have d: "decodePairingPayload scheme_of (encodePairingPayload sample_host) = Some (Inr (as_paired sample_host))"
    by (simp add: decode_encoded read_payload)
  show ?thesis unfolding Let_def using d pairing_rejects_downgrade[OF d] by blast
qed

end
