(* ===== verification/Framing.thy ===== *)
theory Framing
  imports Codec
begin

text \<open>
  The length-prefixed framing of \<open>libp2p/federation.ts\<close>: a JSON body behind a 4-byte big-endian
  length, written in one piece and read from a stream that arrives in arbitrary chunks, and the two
  ends of one Matrix federation round trip over it.

  A stream is the list of chunks the reader gets before the remote closes. The contract the framing
  gives its users is the locale \<open>framed_channel\<close>; it is interpreted for this reader at 16 MiB and, in the
  voice theory, for the reader the voice mesh has of its own at 1 MiB.
\<close>

datatype stream_error =
    DialFailed
  | RequestTooLarge nat
  | Oversized nat
  | ClosedBeforePrefix
  | ClosedMidBody
  | NotJson
  | OutsideLatin1

section \<open>The length prefix\<close>

text \<open>\<open>DataView.setUint32(0, n, false)\<close>, which keeps n modulo 2^32, and \<open>getUint32(0, false)\<close>.\<close>
definition setUint32 :: "nat \<Rightarrow> bytes" where
  "setUint32 n = (let w = (word_of_nat n :: 32 word)
     in [ucast (drop_bit 24 w), ucast (drop_bit 16 w), ucast (drop_bit 8 w), ucast w])"

fun getUint32 :: "bytes \<Rightarrow> nat" where
  "getUint32 [a, b, c, d] = unat (or (or (push_bit 24 (ucast a)) (push_bit 16 (ucast b)))
     (or (push_bit 8 (ucast c)) (ucast d)) :: 32 word)"
| "getUint32 _ = 0"

lemma join_split_32:
  fixes w :: "32 word"
  shows "or (or (push_bit 24 (ucast (ucast (drop_bit 24 w) :: byte))) (push_bit 16 (ucast (ucast (drop_bit 16 w) :: byte))))
     (or (push_bit 8 (ucast (ucast (drop_bit 8 w) :: byte))) (ucast (ucast w :: byte))) = w"
    (is "?l = w")
proof (rule bit_word_eqI)
  fix i assume "i < LENGTH(32)"
  then have i: "i < 32" by simp
  consider "i < 8" | "8 \<le> i" "i < 16" | "16 \<le> i" "i < 24" | "24 \<le> i" using i by linarith
  then show "bit ?l i = bit w i" by cases (use i in \<open>auto simp add: bit_simps\<close>)
qed

lemma get_set_Uint32: "n < 2 ^ 32 \<Longrightarrow> getUint32 (setUint32 n) = n"
  by (simp add: setUint32_def Let_def join_split_32 unat_of_nat del: of_nat_unat)

lemma length_setUint32 [simp]: "length (setUint32 n) = 4"
  by (simp add: setUint32_def Let_def)

section \<open>Writing and reading an envelope\<close>

definition MAX_ENVELOPE_BYTES :: nat where
  "MAX_ENVELOPE_BYTES = 16 * 1024 * 1024"

definition frameEnvelope :: "bytes \<Rightarrow> bytes" where
  "frameEnvelope body = setUint32 (length body) @ body"

text \<open>The loop of \<open>readLengthPrefixedEnvelope\<close>: the bytes collected and the length once it is known.\<close>
fun read_chunks :: "nat \<Rightarrow> bytes \<Rightarrow> nat option \<Rightarrow> bytes list \<Rightarrow> stream_error + bytes" where
  "read_chunks cap collected len [] =
     Inl (if len = None then ClosedBeforePrefix else ClosedMidBody)"
| "read_chunks cap collected len (chunk # rest) =
     (let collected = collected @ chunk;
          fresh = (len = None \<and> 4 \<le> length collected);
          len = (if fresh then Some (getUint32 (take 4 collected)) else len)
      in case len of
           None \<Rightarrow> read_chunks cap collected len rest
         | Some n \<Rightarrow>
             if fresh \<and> cap < n then Inl (Oversized n)
             else if 4 + n \<le> length collected then Inr (take n (drop 4 collected))
             else read_chunks cap collected len rest)"

definition readLengthPrefixedEnvelope :: "bytes list \<Rightarrow> stream_error + bytes" where
  "readLengthPrefixedEnvelope chunks = read_chunks MAX_ENVELOPE_BYTES [] None chunks"

text \<open>What the reader computes, as a function of the bytes alone.\<close>
definition envelope_of :: "nat \<Rightarrow> bytes \<Rightarrow> stream_error + bytes" where
  "envelope_of cap bs =
     (if length bs < 4 then Inl ClosedBeforePrefix
      else let n = getUint32 (take 4 bs)
        in if cap < n then Inl (Oversized n)
           else if length bs < 4 + n then Inl ClosedMidBody
           else Inr (take n (drop 4 bs)))"

definition reading :: "nat \<Rightarrow> bytes \<Rightarrow> nat option \<Rightarrow> bool" where
  "reading cap collected len = (case len of
       None \<Rightarrow> length collected < 4
     | Some n \<Rightarrow> 4 \<le> length collected \<and> n = getUint32 (take 4 collected) \<and> n \<le> cap \<and> length collected < 4 + n)"

lemma read_chunks_envelope:
  "reading cap collected len \<Longrightarrow> read_chunks cap collected len chunks = envelope_of cap (collected @ concat chunks)"
proof (induction chunks arbitrary: collected len)
  case Nil
  then show ?case by (auto simp: reading_def envelope_of_def Let_def split: option.splits)
next
  case (Cons chunk rest)
  define bs where "bs = collected @ chunk"
  show ?case
  proof (cases "length bs < 4")
    case True
    then have l: "len = None" using Cons.prems by (auto simp: reading_def bs_def split: option.splits)
    have "reading cap bs None" using True by (simp add: reading_def)
    from Cons.IH[OF this] show ?thesis using True l by (simp add: bs_def)
  next
    case False
    define n where "n = getUint32 (take 4 bs)"
    have len: "len = None \<or> len = Some n \<and> n \<le> cap"
      using Cons.prems by (cases len) (auto simp: reading_def n_def bs_def)
    have whole: "take 4 (bs @ concat rest) = take 4 bs" "drop 4 (bs @ concat rest) = drop 4 bs @ concat rest"
      using False by simp_all
    consider "cap < n" | "n \<le> cap" "4 + n \<le> length bs" | "n \<le> cap" "length bs < 4 + n" by linarith
    then show ?thesis
    proof cases
      case 1
      then show ?thesis using len False whole
        by (auto simp: envelope_of_def Let_def n_def[symmetric] bs_def[symmetric] append_assoc[symmetric] simp del: append_assoc)
    next
      case 2
      then have "take n (drop 4 (bs @ concat rest)) = take n (drop 4 bs)" unfolding whole by simp
      then show ?thesis using 2 len False whole
        by (auto simp: envelope_of_def Let_def n_def[symmetric] bs_def[symmetric] append_assoc[symmetric] simp del: append_assoc)
    next
      case 3
      have "reading cap bs (Some n)" using 3 False by (simp add: reading_def n_def)
      from Cons.IH[OF this] show ?thesis using 3 len False
        by (auto simp: Let_def n_def[symmetric] bs_def[symmetric] append_assoc[symmetric] simp del: append_assoc)
    qed
  qed
qed

section \<open>The contract of a framed channel\<close>

locale framed_channel =
  fixes cap :: nat and frame :: "bytes \<Rightarrow> bytes" and read :: "bytes list \<Rightarrow> stream_error + bytes"
  assumes frame_prefix: "frame body = setUint32 (length body) @ body"
    and read_envelope: "read chunks = envelope_of cap (concat chunks)"
    and cap_32: "cap < 2 ^ 32"
begin

lemma read_chunking: "concat xs = concat ys \<Longrightarrow> read xs = read ys"
  by (simp add: read_envelope)

lemma read_frame:
  assumes "length body \<le> cap" "concat chunks = frame body @ rest"
  shows "read chunks = Inr body"
proof -
  have "getUint32 (setUint32 (length body)) = length body" using assms(1) cap_32 by (intro get_set_Uint32) simp
  then show ?thesis using assms by (simp add: read_envelope envelope_of_def frame_prefix)
qed

lemma read_bounded: "read chunks = Inr body \<Longrightarrow> length body \<le> cap"
  by (auto simp: read_envelope envelope_of_def Let_def split: if_splits)

lemma read_declared_too_large:
  "4 \<le> length (concat chunks) \<Longrightarrow> cap < getUint32 (take 4 (concat chunks)) \<Longrightarrow>
     read chunks = Inl (Oversized (getUint32 (take 4 (concat chunks))))"
  by (simp add: read_envelope envelope_of_def)

lemma read_truncated:
  "length body \<le> cap \<Longrightarrow> concat chunks = take k (frame body) \<Longrightarrow> k < 4 + length body \<Longrightarrow>
     read chunks = Inl (if k < 4 then ClosedBeforePrefix else ClosedMidBody)"
proof -
  assume k: "length body \<le> cap" "concat chunks = take k (frame body)" "k < 4 + length body"
  have g: "getUint32 (setUint32 (length body)) = length body" using k(1) cap_32 by (intro get_set_Uint32) simp
  show ?thesis
  proof (cases "k < 4")
    case False
    then have "concat chunks = setUint32 (length body) @ take (k - 4) body" using k(2) by (simp add: frame_prefix)
    then show ?thesis using k(1,3) g False
      unfolding read_envelope envelope_of_def Let_def by (simp add: min_def)
  qed (use k in \<open>simp add: read_envelope envelope_of_def frame_prefix\<close>)
qed

end

lemma read_chunks_whole: "read_chunks cap [] None chunks = envelope_of cap (concat chunks)"
  by (subst read_chunks_envelope) (simp_all add: reading_def)

interpretation federation: framed_channel MAX_ENVELOPE_BYTES frameEnvelope readLengthPrefixedEnvelope
  by unfold_locales
    (simp_all add: frameEnvelope_def readLengthPrefixedEnvelope_def read_chunks_whole MAX_ENVELOPE_BYTES_def)

section \<open>One Matrix federation round trip\<close>

record matrix_request =
  req_method :: str
  req_params :: "(str \<times> json) list"
  request_id :: int

definition request_json :: "matrix_request \<Rightarrow> json" where
  "request_json r = JObj [(''method'', JStr (req_method r)), (''params'', JObj (req_params r)),
     (''request_id'', JNum (request_id r))]"

datatype stream_op = Send bytes | CloseStream

text \<open>\<open>JSON.parse(new TextDecoder().decode(bytes))\<close>\<close>
definition parse_body :: "bytes \<Rightarrow> stream_error + json" where
  "parse_body bs = (case utf8_decode bs of None \<Rightarrow> Inl OutsideLatin1
     | Some t \<Rightarrow> (case json_parse t of None \<Rightarrow> Inl NotJson | Some v \<Rightarrow> Inr v))"

text \<open>\<open>dial\<close> is what dialling gives: nothing, or the remote end, the chunks it answers a frame with.
  The result is what was done to the stream and what the caller gets.\<close>
definition sendMatrixRequest ::
    "(bytes \<Rightarrow> bytes list) option \<Rightarrow> matrix_request \<Rightarrow> stream_op list \<times> (stream_error + json)" where
  "sendMatrixRequest dial request = (case dial of
     None \<Rightarrow> ([], Inl DialFailed)
   | Some remote \<Rightarrow>
       let body = utf8_encode (stringify (request_json request))
       in if MAX_ENVELOPE_BYTES < length body then ([CloseStream], Inl (RequestTooLarge (length body)))
          else let framed = frameEnvelope body
            in ([Send framed, CloseStream],
                case readLengthPrefixedEnvelope (remote framed) of Inl e \<Rightarrow> Inl e | Inr bs \<Rightarrow> parse_body bs))"

text \<open>The handler \<open>handleInboundMatrixRequest\<close> registers: every error is swallowed, the stream is always
  closed. The resolver is the embedder's; \<^const>\<open>None\<close> is a rejected promise.\<close>
definition inbound_handler :: "(json \<Rightarrow> str \<Rightarrow> json option) \<Rightarrow> str \<Rightarrow> bytes list \<Rightarrow> stream_op list" where
  "inbound_handler resolver remote chunks = (case readLengthPrefixedEnvelope chunks of
     Inl e \<Rightarrow> [CloseStream]
   | Inr bs \<Rightarrow> (case parse_body bs of
       Inl e \<Rightarrow> [CloseStream]
     | Inr request \<Rightarrow> (case resolver request remote of
         None \<Rightarrow> [CloseStream]
       | Some response \<Rightarrow>
           let body = utf8_encode (stringify response)
           in if MAX_ENVELOPE_BYTES < length body then [CloseStream]
              else [Send (frameEnvelope body), CloseStream])))"

fun sent :: "stream_op list \<Rightarrow> bytes list" where
  "sent [] = []"
| "sent (Send b # ops) = b # sent ops"
| "sent (CloseStream # ops) = sent ops"

lemma parse_body_encoded: "json_ok v \<Longrightarrow> parse_body (utf8_encode (stringify v)) = Inr v"
  by (simp add: parse_body_def parse_stringify)

section \<open>Properties\<close>

text \<open>C7. The reader is a function of the bytes, not of how the transport cut them up: for every chunking
  it returns the declared body, the oversize error, or the error of a stream that closed too early.\<close>
theorem reader_ignores_chunking:
  "readLengthPrefixedEnvelope chunks = envelope_of MAX_ENVELOPE_BYTES (concat chunks)"
  by (rule federation.read_envelope)

text \<open>A framed body within the cap is read back whole, whatever the chunks and whatever follows it.\<close>
theorem frame_read_roundtrip:
  assumes "length body \<le> MAX_ENVELOPE_BYTES" and "concat chunks = frameEnvelope body @ rest"
  shows "readLengthPrefixedEnvelope chunks = Inr body"
  using assms by (rule federation.read_frame)

theorem frame_read_roundtrip_witness:
  "readLengthPrefixedEnvelope [[0, 0], [0, 3, 7], [], [8, 9, 1]] = Inr [7, 8, 9]"
  by (rule frame_read_roundtrip[where rest = "[1]"])
    (simp_all add: MAX_ENVELOPE_BYTES_def frameEnvelope_def setUint32_def)

text \<open>C6. Both ends together: when request and response fit the cap, the caller
  of \<open>sendMatrixRequest\<close> gets exactly what the remote resolver returned for the request, under any chunking in either direction.\<close>
theorem matrix_round_trip:
  assumes "\<And>bs. concat (cut1 bs) = bs" and "\<And>bs. concat (cut2 bs) = bs"
    and "json_ok (request_json request)" and "length (utf8_encode (stringify (request_json request))) \<le> MAX_ENVELOPE_BYTES"
    and "resolver (request_json request) me = Some response"
    and "json_ok response" and "length (utf8_encode (stringify response)) \<le> MAX_ENVELOPE_BYTES"
  shows "snd (sendMatrixRequest (Some (\<lambda>bs. cut2 (concat (sent (inbound_handler resolver me (cut1 bs)))))) request)
    = Inr response"
proof -
  define req where "req = utf8_encode (stringify (request_json request))"
  define res where "res = utf8_encode (stringify response)"
  have "readLengthPrefixedEnvelope (cut1 (frameEnvelope req)) = Inr req"
    by (rule federation.read_frame[where rest = "[]"]) (use assms in \<open>simp_all add: req_def\<close>)
  then have h: "inbound_handler resolver me (cut1 (frameEnvelope req)) = [Send (frameEnvelope res), CloseStream]"
    using assms by (simp add: inbound_handler_def req_def parse_body_encoded res_def)
  have r: "readLengthPrefixedEnvelope (cut2 (frameEnvelope res)) = Inr res"
    by (rule federation.read_frame[where rest = "[]"]) (use assms in \<open>simp_all add: res_def\<close>)
  show ?thesis
    unfolding sendMatrixRequest_def Let_def req_def[symmetric] option.case
    using assms h r by (simp add: res_def parse_body_encoded req_def)
qed

definition ping :: matrix_request where
  "ping = \<lparr>req_method = ''ping'', req_params = [], request_id = 1\<rparr>"

theorem matrix_round_trip_witness:
  "snd (sendMatrixRequest (Some (\<lambda>bs. [concat (sent (inbound_handler (\<lambda>r who. jget r ''request_id'') ''me'' (map (\<lambda>b. [b]) bs)))])) ping)
    = Inr (JNum 1)"
proof -
  have l: "length (utf8_encode (stringify (request_json ping))) = 44" "length (utf8_encode (stringify (JNum 1))) = 1"
    by code_simp+
  have j: "json_ok (request_json ping)" "jget (request_json ping) ''request_id'' = Some (JNum 1)" by code_simp+
  show ?thesis
    by (rule matrix_round_trip) (use l j in \<open>simp_all add: concat_map_singleton MAX_ENVELOPE_BYTES_def\<close>)
qed

text \<open>Whatever arrives, an inbound stream is answered by at most one frame within the cap and then closed.\<close>
theorem inbound_handler_closes:
  "\<exists>frames. inbound_handler resolver remote chunks = map Send frames @ [CloseStream] \<and> length frames \<le> 1"
proof -
  have "[CloseStream] = map Send [] @ [CloseStream]" "\<And>b. [Send b, CloseStream] = map Send [b] @ [CloseStream]" by simp_all
  then have "inbound_handler resolver remote chunks = map Send (sent (inbound_handler resolver remote chunks)) @ [CloseStream]
     \<and> length (sent (inbound_handler resolver remote chunks)) \<le> 1"
    by (auto simp: inbound_handler_def Let_def split: sum.splits option.splits)
  then show ?thesis by blast
qed

end
