(* ===== verification/PorchWire.thy ===== *)
theory PorchWire
  imports Framing
begin

text \<open>
  The browser visitor's porch client of \<open>libp2p/porch.ts\<close>: the tagged requests, the framed round trip with
  its 1 MiB cap on the request, the unwrapping of the response, and one function per visitor operation.

  \<open>network\<close> is everything outside the file that stands between a peer id string and an open stream (the
  lazily started node, \<open>peerIdFromString\<close>, the dial): \<^const>\<open>None\<close> when one of them throws, otherwise
  the chunks the peer answers a frame with.
\<close>

definition PORCH_MAX_ENVELOPE_BYTES :: nat where
  "PORCH_MAX_ENVELOPE_BYTES = 1024 * 1024"

datatype porch_request =
    ListChannels
  | GetMessages str "int option" int
  | PostMessage str str
  | Knock str "str option"
  | KnockStatus str
  | WithdrawKnock str
  | GetTheme str
  | GetAssetBytes str
  | ListVault str str
  | GetVaultFile str str

definition or_null :: "('a \<Rightarrow> json) \<Rightarrow> 'a option \<Rightarrow> json" where
  "or_null f x = (case x of None \<Rightarrow> JNull | Some y \<Rightarrow> f y)"

definition call :: "str \<Rightarrow> json \<Rightarrow> json" where
  "call m p = JObj [(''method'', JStr m), (''params'', p)]"

fun porch_json :: "porch_request \<Rightarrow> json" where
  "porch_json ListChannels = call ''ListChannels'' JNull"
| "porch_json (GetMessages ch since lim) = call ''GetMessages''
     (JObj [(''channel_id'', JStr ch), (''since'', or_null JNum since), (''limit'', JNum lim)])"
| "porch_json (PostMessage ch body) = call ''PostMessage'' (JObj [(''channel_id'', JStr ch), (''body'', JStr body)])"
| "porch_json (Knock ch msg) = call ''Knock'' (JObj [(''channel_id'', JStr ch), (''message'', or_null JStr msg)])"
| "porch_json (KnockStatus ch) = call ''KnockStatus'' (JObj [(''channel_id'', JStr ch)])"
| "porch_json (WithdrawKnock k) = call ''WithdrawKnock'' (JObj [(''knock_id'', JStr k)])"
| "porch_json (GetTheme ch) = call ''GetTheme'' (JObj [(''channel_id'', JStr ch)])"
| "porch_json (GetAssetBytes a) = call ''GetAssetBytes'' (JObj [(''asset_id'', JStr a)])"
| "porch_json (ListVault ch path) = call ''ListVault'' (JObj [(''channel_id'', JStr ch), (''path'', JStr path)])"
| "porch_json (GetVaultFile ch path) = call ''GetVaultFile'' (JObj [(''channel_id'', JStr ch), (''path'', JStr path)])"

datatype porch_error =
    Transport stream_error
  | MissingResult
  | Refused str "json option"
  | NotAnObject
  | TooLarge str
  | NotBase64

definition sendPorchRequest ::
    "(bytes \<Rightarrow> bytes list) option \<Rightarrow> porch_request \<Rightarrow> stream_op list \<times> (porch_error + json)" where
  "sendPorchRequest dial request = (case dial of
     None \<Rightarrow> ([], Inl (Transport DialFailed))
   | Some remote \<Rightarrow>
       let body = utf8_encode (stringify (porch_json request))
       in if PORCH_MAX_ENVELOPE_BYTES < length body then ([CloseStream], Inl (Transport (RequestTooLarge (length body))))
          else let framed = frameEnvelope body
            in ([Send framed, CloseStream],
                map_sum Transport id (case readLengthPrefixedEnvelope (remote framed) of
                   Inl e \<Rightarrow> Inl e | Inr bs \<Rightarrow> parse_body bs)))"

text \<open>A property read on \<open>null\<close> throws; every other value JSON can carry has the property or lacks it.\<close>
definition unwrapResponse :: "json \<Rightarrow> porch_error + json" where
  "unwrapResponse response =
    (if response = JNull then Inl NotAnObject
     else if truthy (jget response ''ok'')
       then (case jget response ''result'' of None \<Rightarrow> Inl MissingResult | Some r \<Rightarrow> Inr r)
     else let err = nullish_or (jget response ''error'') (Some (JObj [(''code'', JNum 0), (''message'', JStr ''unknown'')]));
              code = (case err of None \<Rightarrow> None | Some e \<Rightarrow> jget e ''code'');
              message = (case err of None \<Rightarrow> None | Some e \<Rightarrow> jget e ''message'')
       in Inl (Refused (''porch error '' @ key_of code @ '': '' @ key_of message) code))"

type_synonym network = "str \<Rightarrow> (bytes \<Rightarrow> bytes list) option"

definition visit_call :: "network \<Rightarrow> str \<Rightarrow> porch_request \<Rightarrow> porch_error + json" where
  "visit_call network peer request = (case snd (sendPorchRequest (network peer) request) of
     Inl e \<Rightarrow> Inl e | Inr response \<Rightarrow> unwrapResponse response)"

definition browserVisitListChannels :: "network \<Rightarrow> str \<Rightarrow> porch_error + json" where
  "browserVisitListChannels network peer = visit_call network peer ListChannels"

definition browserVisitGetMessages :: "network \<Rightarrow> str \<Rightarrow> str \<Rightarrow> int option \<Rightarrow> int \<Rightarrow> porch_error + json" where
  "browserVisitGetMessages network peer ch since lim = visit_call network peer (GetMessages ch since lim)"

definition browserVisitPostMessage :: "network \<Rightarrow> str \<Rightarrow> str \<Rightarrow> str \<Rightarrow> porch_error + json" where
  "browserVisitPostMessage network peer ch body = visit_call network peer (PostMessage ch body)"

definition browserVisitKnock :: "network \<Rightarrow> str \<Rightarrow> str \<Rightarrow> str option \<Rightarrow> porch_error + json" where
  "browserVisitKnock network peer ch msg = visit_call network peer (Knock ch msg)"

definition browserVisitKnockStatus :: "network \<Rightarrow> str \<Rightarrow> str \<Rightarrow> porch_error + json" where
  "browserVisitKnockStatus network peer ch = visit_call network peer (KnockStatus ch)"

definition browserVisitWithdrawKnock :: "network \<Rightarrow> str \<Rightarrow> str \<Rightarrow> porch_error + json" where
  "browserVisitWithdrawKnock network peer k = visit_call network peer (WithdrawKnock k)"

definition browserVisitGetTheme :: "network \<Rightarrow> str \<Rightarrow> str \<Rightarrow> porch_error + json" where
  "browserVisitGetTheme network peer ch = visit_call network peer (GetTheme ch)"

text \<open>\<open>atob(payload.bytes_b64)\<close> converts its argument to a string first. A null payload throws.\<close>
definition browserVisitGetAssetBytes :: "network \<Rightarrow> str \<Rightarrow> str \<Rightarrow> porch_error + bytes" where
  "browserVisitGetAssetBytes network peer asset = (case visit_call network peer (GetAssetBytes asset) of
     Inl e \<Rightarrow> Inl e
   | Inr payload \<Rightarrow>
       if payload = JNull then Inl NotAnObject
       else if jget payload ''kind'' = Some (JStr ''too_large'')
       then Inl (TooLarge (''asset '' @ key_of (jget payload ''asset_id'') @ '' too large to preview inline: ''
               @ key_of (jget payload ''bytes'') @ '' bytes''))
       else (case atob (key_of (jget payload ''bytes_b64'')) of
           None \<Rightarrow> Inl NotBase64
         | Some bin \<Rightarrow> Inr (map char_byte bin)))"

definition browserVisitListVault :: "network \<Rightarrow> str \<Rightarrow> str \<Rightarrow> str \<Rightarrow> porch_error + json" where
  "browserVisitListVault network peer ch path = visit_call network peer (ListVault ch path)"

definition browserVisitGetVaultFile :: "network \<Rightarrow> str \<Rightarrow> str \<Rightarrow> str \<Rightarrow> porch_error + json" where
  "browserVisitGetVaultFile network peer ch path = visit_call network peer (GetVaultFile ch path)"

lemmas visit_defs [op_defs] = browserVisitListChannels_def browserVisitGetMessages_def browserVisitPostMessage_def
  browserVisitKnock_def browserVisitKnockStatus_def browserVisitWithdrawKnock_def browserVisitGetTheme_def
  browserVisitGetAssetBytes_def browserVisitListVault_def browserVisitGetVaultFile_def

section \<open>A peer that answers\<close>

text \<open>A porch host as the visitor sees it: it reads the framed request, answers with one framed body.\<close>
definition porch_host :: "(json \<Rightarrow> bytes) \<Rightarrow> bytes \<Rightarrow> bytes list" where
  "porch_host answer framed = (case readLengthPrefixedEnvelope [framed] of
     Inl e \<Rightarrow> []
   | Inr bs \<Rightarrow> (case parse_body bs of Inl e \<Rightarrow> [] | Inr request \<Rightarrow> [frameEnvelope (answer request)]))"

definition fits :: "porch_request \<Rightarrow> bool" where
  "fits request = (length (utf8_encode (stringify (porch_json request))) \<le> PORCH_MAX_ENVELOPE_BYTES)"

lemma porch_json_ok: "json_ok (porch_json r)"
  by (cases r) (auto simp: call_def or_null_def split: option.splits)

lemma caps: "n \<le> PORCH_MAX_ENVELOPE_BYTES \<Longrightarrow> n \<le> MAX_ENVELOPE_BYTES"
  by (simp add: PORCH_MAX_ENVELOPE_BYTES_def MAX_ENVELOPE_BYTES_def)

lemma porch_host_answers:
  assumes "fits request"
  shows "porch_host answer (frameEnvelope (utf8_encode (stringify (porch_json request))))
    = [frameEnvelope (answer (porch_json request))]"
proof -
  have "readLengthPrefixedEnvelope [frameEnvelope (utf8_encode (stringify (porch_json request)))]
      = Inr (utf8_encode (stringify (porch_json request)))"
    by (rule federation.read_frame[where rest = "[]"]) (use assms caps in \<open>simp_all add: fits_def\<close>)
  then show ?thesis by (simp add: porch_host_def parse_body_encoded porch_json_ok)
qed

lemma visit_call_host:
  assumes "fits request" "network peer = Some (porch_host answer)"
    and "length (answer (porch_json request)) \<le> MAX_ENVELOPE_BYTES"
  shows "visit_call network peer request = (case parse_body (answer (porch_json request)) of
     Inl e \<Rightarrow> Inl (Transport e) | Inr v \<Rightarrow> unwrapResponse v)"
proof -
  have "readLengthPrefixedEnvelope [frameEnvelope (answer (porch_json request))] = Inr (answer (porch_json request))"
    by (rule federation.read_frame[where rest = "[]"]) (use assms in simp_all)
  then show ?thesis using assms(1,2)
    by (simp add: visit_call_def sendPorchRequest_def Let_def fits_def porch_host_answers[OF assms(1)] split: sum.splits)
qed

definition ok_response :: "json \<Rightarrow> json" where
  "ok_response result = JObj [(''ok'', JBool True), (''result'', result)]"

definition json_bytes :: "json \<Rightarrow> bytes" where
  "json_bytes v = utf8_encode (stringify v)"

lemma visit_host_result:
  assumes "fits request" and "network peer = Some (porch_host (\<lambda>req. json_bytes (ok_response (host_result req))))"
    and "json_ok (host_result (porch_json request))"
    and "length (json_bytes (ok_response (host_result (porch_json request)))) \<le> MAX_ENVELOPE_BYTES"
  shows "visit_call network peer request = Inr (host_result (porch_json request))"
proof -
  have "json_ok (ok_response (host_result (porch_json request)))" using assms(3) by (simp add: ok_response_def)
  then have "parse_body (json_bytes (ok_response (host_result (porch_json request)))) = Inr (ok_response (host_result (porch_json request)))"
    by (simp add: json_bytes_def parse_body_encoded)
  then show ?thesis
    using visit_call_host[of request network peer "\<lambda>req. json_bytes (ok_response (host_result req))"] assms(1,2,4)
    by (simp add: ok_response_def unwrapResponse_def)
qed

lemma concat_replicate_letter: "concat (replicate n [c]) = replicate n c"
  by (induction n) simp_all

text \<open>A long answer: the \<open>n\<close>-letter text as an accepted result.\<close>
lemma letters_bytes:
  "n < length (json_bytes (ok_response (JStr (replicate n CHR ''a''))))"
  "length (json_bytes (ok_response (JStr (replicate n CHR ''a'')))) \<le> 2 * (n + 30)"
proof -
  have e: "escape_char CHR ''a'' = ''a''" by code_simp
  have "stringify (JStr (replicate n CHR ''a'')) = CHR 0x22 # replicate n CHR ''a'' @ [CHR 0x22]"
    by (simp add: quote_def e concat_replicate_letter)
  moreover have "length (quote ''ok'') = 4" "length (quote ''result'') = 8" by code_simp+
  ultimately have l: "length (stringify (ok_response (JStr (replicate n CHR ''a'')))) = n + 23"
    by (simp add: ok_response_def)
  have ge: "length s \<le> length (utf8_encode s)" for s
    by (induction s) (auto simp: utf8_encode_def utf8_char_def Let_def)
  show "n < length (json_bytes (ok_response (JStr (replicate n CHR ''a''))))"
    using ge[of "stringify (ok_response (JStr (replicate n CHR ''a'')))"] l by (simp add: json_bytes_def)
  show "length (json_bytes (ok_response (JStr (replicate n CHR ''a'')))) \<le> 2 * (n + 30)"
    using utf8_length[of "stringify (ok_response (JStr (replicate n CHR ''a'')))"] l by (simp add: json_bytes_def)
qed

lemma fits_list_channels: "fits ListChannels"
proof -
  have "length (utf8_encode (stringify (porch_json ListChannels))) = 39" by code_simp
  then show ?thesis by (simp add: fits_def PORCH_MAX_ENVELOPE_BYTES_def)
qed

section \<open>Properties\<close>

text \<open>A visitor operation whose request fits the cap gets from an answering host exactly the result the
  host computed for that request, for every result JSON can carry.\<close>
theorem visit_gets_host_result:
  assumes "fits request" and "network peer = Some (porch_host (\<lambda>req. json_bytes (ok_response (host_result req))))"
    and "json_ok (host_result (porch_json request))"
    and "length (json_bytes (ok_response (host_result (porch_json request)))) \<le> MAX_ENVELOPE_BYTES"
  shows "visit_call network peer request = Inr (host_result (porch_json request))"
  using assms by (rule visit_host_result)

theorem visit_gets_host_result_witness:
  "visit_call (\<lambda>p. Some (porch_host (\<lambda>req. json_bytes (ok_response (JArr []))))) ''12D3'' ListChannels = Inr (JArr [])"
proof -
  have l: "length (json_bytes (ok_response (JArr []))) = 23" by code_simp
  show ?thesis
    by (rule visit_gets_host_result[where host_result = "\<lambda>r. JArr []"])
      (use l fits_list_channels in \<open>simp_all add: MAX_ENVELOPE_BYTES_def\<close>)
qed

text \<open>The 1 MiB cap holds for what a visitor sends only: a response body of any size up to the 16 MiB of
  the federation reader is taken, so a peer can make the visitor buffer sixteen times the documented cap.\<close>
theorem porch_cap_not_enforced_on_responses:
  assumes "fits request" and "network peer = Some (porch_host answer)"
    and "PORCH_MAX_ENVELOPE_BYTES < length (answer (porch_json request))"
    and "length (answer (porch_json request)) \<le> MAX_ENVELOPE_BYTES"
    and "parse_body (answer (porch_json request)) = Inr (ok_response result)"
  shows "visit_call network peer request = Inr result"
  using visit_call_host[of request network peer answer] assms by (simp add: ok_response_def unwrapResponse_def)

theorem porch_cap_not_enforced_on_responses_witness:
  "let text_sent = JStr (replicate PORCH_MAX_ENVELOPE_BYTES CHR ''a'')
   in PORCH_MAX_ENVELOPE_BYTES < length (json_bytes (ok_response text_sent))
     \<and> visit_call (\<lambda>p. Some (porch_host (\<lambda>req. json_bytes (ok_response text_sent)))) ''12D3'' ListChannels = Inr text_sent"
proof -
  define v where "v = JStr (replicate PORCH_MAX_ENVELOPE_BYTES CHR ''a'')"
  have big: "PORCH_MAX_ENVELOPE_BYTES < length (json_bytes (ok_response v))" unfolding v_def by (rule letters_bytes)
  have small: "length (json_bytes (ok_response v)) \<le> MAX_ENVELOPE_BYTES"
    unfolding v_def by (rule order_trans[OF letters_bytes(2)]) (simp add: PORCH_MAX_ENVELOPE_BYTES_def MAX_ENVELOPE_BYTES_def)
  have "json_ok (ok_response v)" by (simp add: ok_response_def v_def)
  then have p: "parse_body (json_bytes (ok_response v)) = Inr (ok_response v)"
    by (simp add: json_bytes_def parse_body_encoded)
  have "visit_call (\<lambda>p. Some (porch_host (\<lambda>req. json_bytes (ok_response v)))) ''12D3'' ListChannels = Inr v"
    by (rule porch_cap_not_enforced_on_responses[OF fits_list_channels refl big small p])
  then show ?thesis using big unfolding Let_def v_def by blast
qed

text \<open>What a host answers for an asset under its inline cap.\<close>
definition inline_asset :: "str \<Rightarrow> str \<Rightarrow> bytes \<Rightarrow> json" where
  "inline_asset asset mime content = JObj [(''kind'', JStr ''inline''), (''asset_id'', JStr asset),
     (''mime_type'', JStr mime), (''bytes_b64'', JStr (btoa (map byte_char content)))]"

text \<open>An asset the host inlines arrives as the bytes it was, through base64, JSON and the framing.\<close>
theorem asset_bytes_arrive:
  assumes "fits (GetAssetBytes asset)"
    and "network peer = Some (porch_host (\<lambda>req. json_bytes (ok_response (inline_asset asset mime content))))"
    and "length (json_bytes (ok_response (inline_asset asset mime content))) \<le> MAX_ENVELOPE_BYTES"
  shows "browserVisitGetAssetBytes network peer asset = Inr content"
proof -
  have "visit_call network peer (GetAssetBytes asset) = Inr (inline_asset asset mime content)"
    by (rule visit_host_result[where host_result = "\<lambda>r. inline_asset asset mime content"])
      (use assms in \<open>simp_all add: inline_asset_def\<close>)
  then show ?thesis by (simp add: browserVisitGetAssetBytes_def key_of_def inline_asset_def)
qed

theorem asset_bytes_arrive_witness:
  "browserVisitGetAssetBytes
     (\<lambda>p. Some (porch_host (\<lambda>req. json_bytes (ok_response (inline_asset ''a1'' ''image/png'' [137, 80, 255])))))
     ''12D3'' ''a1'' = Inr [137, 80, 255]"
proof -
  have l: "length (utf8_encode (stringify (porch_json (GetAssetBytes ''a1'')))) \<le> 100"
    "length (json_bytes (ok_response (inline_asset ''a1'' ''image/png'' [137, 80, 255]))) \<le> 200" by code_simp+
  have m: "(100::nat) \<le> PORCH_MAX_ENVELOPE_BYTES" "(200::nat) \<le> MAX_ENVELOPE_BYTES"
    by (simp_all add: PORCH_MAX_ENVELOPE_BYTES_def MAX_ENVELOPE_BYTES_def)
  show ?thesis
  proof (rule asset_bytes_arrive)
    show "fits (GetAssetBytes ''a1'')" unfolding fits_def by (rule order_trans[OF l(1) m(1)])
    show "length (json_bytes (ok_response (inline_asset ''a1'' ''image/png'' [137, 80, 255]))) \<le> MAX_ENVELOPE_BYTES"
      by (rule order_trans[OF l(2) m(2)])
  qed (rule refl)
qed

end
