(* ===== verification/VoiceMesh.thy ===== *)
theory VoiceMesh
  imports Framing
begin

text \<open>
  The browser voice mesh of \<open>libp2p/voiceMesh.ts\<close>: the per-tab registry of rooms, joining with one phase
  per await, leaving in its two halves around the await, the inbound signalling handler, and the framed
  signalling messages.

  A microphone stream and a peer connection are numbers given out in order; what the browser and the
  network answer (microphone granted, handler registered, offer made, message delivered) are events. A
  room is an object other code keeps a reference to while it is mutated, so rooms live in a store and the
  registry maps room ids to their places. One inbound message is handled without interruption.
\<close>

definition MESH_MAX_ENVELOPE_BYTES :: nat where
  "MESH_MAX_ENVELOPE_BYTES = 1024 * 1024"

datatype SignalingMessage =
    Offer str int
  | Answer str int
  | IceCandidate str int
  | Bye int

fun signaling_json :: "SignalingMessage \<Rightarrow> json" where
  "signaling_json (Offer sdp n) = JObj [(''type'', JStr ''offer''), (''sdp'', JStr sdp), (''request_id'', JNum n)]"
| "signaling_json (Answer sdp n) = JObj [(''type'', JStr ''answer''), (''sdp'', JStr sdp), (''request_id'', JNum n)]"
| "signaling_json (IceCandidate c n) =
     JObj [(''type'', JStr ''ice_candidate''), (''candidate'', JStr c), (''request_id'', JNum n)]"
| "signaling_json (Bye n) = JObj [(''type'', JStr ''bye''), (''request_id'', JNum n)]"

definition mesh_frameEnvelope :: "bytes \<Rightarrow> bytes" where
  "mesh_frameEnvelope body = setUint32 (length body) @ body"

definition readEnvelope :: "bytes list \<Rightarrow> stream_error + bytes" where
  "readEnvelope chunks = read_chunks MESH_MAX_ENVELOPE_BYTES [] None chunks"

text \<open>What \<open>sendSignaling\<close> and \<open>sendSignalingByString\<close> do to the stream they open, and whether they resolve.\<close>
definition sendSignaling :: "SignalingMessage \<Rightarrow> stream_op list \<times> bool" where
  "sendSignaling msg = (let body = utf8_encode (stringify (signaling_json msg))
     in if MESH_MAX_ENVELOPE_BYTES < length body then ([CloseStream], False)
        else ([Send (mesh_frameEnvelope body), CloseStream], True))"

interpretation mesh_channel: framed_channel MESH_MAX_ENVELOPE_BYTES mesh_frameEnvelope readEnvelope
  by unfold_locales (simp_all add: mesh_frameEnvelope_def readEnvelope_def read_chunks_whole MESH_MAX_ENVELOPE_BYTES_def)

section \<open>Rooms, connections and the registry\<close>

text \<open>A peer connection: its number, the microphone whose tracks it sends, and the request id its
  candidates carry (\<^const>\<open>None\<close> on the initiator's side, which reads the room's counter then).\<close>
record RTCPeerConnection =
  pc_id :: nat
  pc_mic :: "nat option"
  pc_candidate_id :: "int option"

record MeshRoom =
  rm_id :: str
  rm_peers :: "(str \<times> RTCPeerConnection) list"
  rm_remoteAudio :: "(str \<times> str) list"
  rm_localStream :: "nat option"
  rm_nextRequestId :: int

record MeshWorld =
  mw_registry :: "(str \<times> nat) list"
  mw_rooms :: "MeshRoom list"
  mw_handler :: "(str \<times> nat option) option"
  mw_live :: "nat list"
  mw_open :: "nat list"
  mw_fresh :: nat
  mw_sent :: "(str \<times> SignalingMessage) list"

definition emptyMesh :: MeshWorld where
  "emptyMesh = \<lparr>mw_registry = [], mw_rooms = [], mw_handler = None, mw_live = [], mw_open = [], mw_fresh = 0, mw_sent = []\<rparr>"

definition map_put :: "'k \<Rightarrow> 'v \<Rightarrow> ('k \<times> 'v) list \<Rightarrow> ('k \<times> 'v) list" where
  "map_put k v kvs = filter (\<lambda>e. fst e \<noteq> k) kvs @ [(k, v)]"

definition map_drop :: "'k \<Rightarrow> ('k \<times> 'v) list \<Rightarrow> ('k \<times> 'v) list" where
  "map_drop k kvs = filter (\<lambda>e. fst e \<noteq> k) kvs"

definition set_room :: "nat \<Rightarrow> (MeshRoom \<Rightarrow> MeshRoom) \<Rightarrow> MeshWorld \<Rightarrow> MeshWorld" where
  "set_room obj f w = w\<lparr>mw_rooms := (mw_rooms w)[obj := f (mw_rooms w ! obj)]\<rparr>"

definition createPeerConnection :: "nat option \<Rightarrow> int option \<Rightarrow> MeshWorld \<Rightarrow> RTCPeerConnection \<times> MeshWorld" where
  "createPeerConnection mic cand w =
     (\<lparr>pc_id = mw_fresh w, pc_mic = mic, pc_candidate_id = cand\<rparr>,
      w\<lparr>mw_open := mw_fresh w # mw_open w, mw_fresh := Suc (mw_fresh w)\<rparr>)"

definition add_peer :: "nat \<Rightarrow> str \<Rightarrow> nat option \<Rightarrow> int option \<Rightarrow> MeshWorld \<Rightarrow> MeshWorld" where
  "add_peer obj remote mic cand w = (let (pc, w1) = createPeerConnection mic cand w
     in set_room obj (\<lambda>m. m\<lparr>rm_peers := map_put remote pc (rm_peers m)\<rparr>) w1)"

section \<open>Joining\<close>

datatype mesh_phase =
    AwaitMedia str "str list"
  | AwaitHandle str "str list" "nat option"
  | AwaitOffer nat str "str list"
  | AwaitSent nat str "str list" SignalingMessage
  | Joined nat
  | Refused

datatype mesh_event =
    MediaAnswer bool
  | HandlerAnswer bool
  | OfferAnswer "str option"
  | SentAnswer bool

text \<open>The loop over the participants up to its next await: those already connected are skipped.\<close>
fun initiate :: "nat \<Rightarrow> str list \<Rightarrow> MeshWorld \<Rightarrow> mesh_phase \<times> MeshWorld" where
  "initiate obj [] w = (Joined obj, w)"
| "initiate obj (r # rs) w =
     (if r \<in> fst ` set (rm_peers (mw_rooms w ! obj)) then initiate obj rs w
      else (AwaitOffer obj r rs, add_peer obj r (rm_localStream (mw_rooms w ! obj)) None w))"

definition joinMeshStart :: "str \<Rightarrow> str list \<Rightarrow> MeshWorld \<Rightarrow> mesh_phase" where
  "joinMeshStart roomId parts w = (if map_of (mw_registry w) roomId \<noteq> None then Refused else AwaitMedia roomId parts)"

fun joinMeshStep :: "mesh_phase \<Rightarrow> mesh_event \<Rightarrow> MeshWorld \<Rightarrow> mesh_phase \<times> MeshWorld" where
  "joinMeshStep (AwaitMedia roomId parts) (MediaAnswer granted) w =
     (if granted then (AwaitHandle roomId parts (Some (mw_fresh w)),
        w\<lparr>mw_live := mw_fresh w # mw_live w, mw_fresh := Suc (mw_fresh w)\<rparr>)
      else (AwaitHandle roomId parts None, w))"
| "joinMeshStep (AwaitHandle roomId parts mic) (HandlerAnswer ok) w =
     (if \<not> ok then (Refused, w)
      else let obj = length (mw_rooms w);
               room = \<lparr>rm_id = roomId, rm_peers = [], rm_remoteAudio = [], rm_localStream = mic, rm_nextRequestId = 1\<rparr>
        in initiate obj parts (w\<lparr>mw_handler := Some (roomId, mic), mw_rooms := mw_rooms w @ [room],
             mw_registry := map_put roomId obj (mw_registry w)\<rparr>))"
| "joinMeshStep (AwaitOffer obj r rs) (OfferAnswer sdp) w = (case sdp of
     None \<Rightarrow> initiate obj rs w
   | Some s \<Rightarrow> (AwaitSent obj r rs (Offer s (rm_nextRequestId (mw_rooms w ! obj))),
       set_room obj (\<lambda>m. m\<lparr>rm_nextRequestId := rm_nextRequestId m + 1\<rparr>) w))"
| "joinMeshStep (AwaitSent obj r rs env) (SentAnswer ok) w =
     initiate obj rs (if ok then w\<lparr>mw_sent := mw_sent w @ [(r, env)]\<rparr> else w)"
| "joinMeshStep ph ev w = (ph, w)"

section \<open>Leaving and signalling\<close>

definition leaveMeshBegin :: "str \<Rightarrow> MeshWorld \<Rightarrow> nat option \<times> MeshWorld" where
  "leaveMeshBegin roomId w = (case map_of (mw_registry w) roomId of
     None \<Rightarrow> (None, w)
   | Some obj \<Rightarrow> (Some obj, w\<lparr>mw_registry := map_drop roomId (mw_registry w)\<rparr>))"

text \<open>From the awaited \<open>unhandle\<close> on.\<close>
definition leaveMeshFinish :: "nat \<Rightarrow> MeshWorld \<Rightarrow> MeshWorld" where
  "leaveMeshFinish obj w = (let room = mw_rooms w ! obj
     in set_room obj (\<lambda>m. m\<lparr>rm_remoteAudio := []\<rparr>)
       (w\<lparr>mw_handler := None,
          mw_open := filter (\<lambda>p. p \<notin> pc_id ` snd ` set (rm_peers room)) (mw_open w),
          mw_live := filter (\<lambda>s. Some s \<noteq> rm_localStream room) (mw_live w)\<rparr>))"

definition leaveMesh :: "str \<Rightarrow> MeshWorld \<Rightarrow> MeshWorld" where
  "leaveMesh roomId w = (case leaveMeshBegin roomId w of
     (None, w1) \<Rightarrow> w1 | (Some obj, w1) \<Rightarrow> leaveMeshFinish obj w1)"

text \<open>\<open>ontrack\<close>: the remote track gets an audio element, or the one it has gets the stream.\<close>
definition onTrack :: "nat \<Rightarrow> str \<Rightarrow> str \<Rightarrow> MeshWorld \<Rightarrow> MeshWorld" where
  "onTrack obj trackId stream w = set_room obj (\<lambda>m. m\<lparr>rm_remoteAudio := map_put trackId stream (rm_remoteAudio m)\<rparr>) w"

text \<open>\<open>onicecandidate\<close> of the connection to \<open>remote\<close>; \<open>ok\<close> is whether the message went out.\<close>
definition onIceCandidate :: "nat \<Rightarrow> str \<Rightarrow> str \<Rightarrow> bool \<Rightarrow> MeshWorld \<Rightarrow> MeshWorld" where
  "onIceCandidate obj remote cand ok w = (case map_of (rm_peers (mw_rooms w ! obj)) remote of
     None \<Rightarrow> w
   | Some pc \<Rightarrow>
       let n = (case pc_candidate_id pc of None \<Rightarrow> rm_nextRequestId (mw_rooms w ! obj) | Some n \<Rightarrow> n)
       in if ok then w\<lparr>mw_sent := mw_sent w @ [(remote, IceCandidate cand n)]\<rparr> else w)"

text \<open>The registered handler on one message; \<open>answer\<close> is the answer made and whether it was delivered.\<close>
definition handleInbound :: "str \<Rightarrow> SignalingMessage \<Rightarrow> str option \<Rightarrow> bool \<Rightarrow> MeshWorld \<Rightarrow> MeshWorld" where
  "handleInbound remote msg answer ok w = (case mw_handler w of None \<Rightarrow> w
   | Some (roomId, mic) \<Rightarrow> (case map_of (mw_registry w) roomId of None \<Rightarrow> w
     | Some obj \<Rightarrow>
       let pc = map_of (rm_peers (mw_rooms w ! obj)) remote
       in case msg of
            Offer sdp n \<Rightarrow>
              let w1 = (if pc = None then add_peer obj remote mic (Some n) w else w)
              in (case answer of None \<Rightarrow> w1
                  | Some s \<Rightarrow> if ok then w1\<lparr>mw_sent := mw_sent w1 @ [(remote, Answer s n)]\<rparr> else w1)
          | Answer sdp n \<Rightarrow> w
          | IceCandidate c n \<Rightarrow> w
          | Bye n \<Rightarrow> (case pc of None \<Rightarrow> w
              | Some p \<Rightarrow> set_room obj (\<lambda>m. m\<lparr>rm_peers := map_drop remote (rm_peers m)\<rparr>)
                  (w\<lparr>mw_open := filter (\<lambda>q. q \<noteq> pc_id p) (mw_open w)\<rparr>))))"

section \<open>Who owns what is open\<close>

definition registered :: "MeshWorld \<Rightarrow> nat set" where
  "registered w = snd ` set (mw_registry w)"

definition room_pcs :: "MeshRoom \<Rightarrow> nat set" where
  "room_pcs m = pc_id ` snd ` set (rm_peers m)"

definition owned_pcs :: "MeshWorld \<Rightarrow> nat set" where
  "owned_pcs w = (\<Union>i \<in> registered w. room_pcs (mw_rooms w ! i))"

definition owned_mics :: "MeshWorld \<Rightarrow> nat set" where
  "owned_mics w = (\<Union>i \<in> registered w. set_option (rm_localStream (mw_rooms w ! i)))"

definition mesh_inv :: "nat set \<Rightarrow> MeshWorld \<Rightarrow> bool" where
  "mesh_inv mics w = (distinct (map fst (mw_registry w)) \<and> (\<forall>i \<in> registered w. i < length (mw_rooms w))
     \<and> set (mw_open w) \<subseteq> owned_pcs w \<and> set (mw_live w) \<subseteq> mics \<union> owned_mics w)"

fun pending_mics :: "mesh_phase \<Rightarrow> nat set" where
  "pending_mics (AwaitHandle _ _ mic) = set_option mic"
| "pending_mics _ = {}"

fun phase_room :: "mesh_phase \<Rightarrow> nat set" where
  "phase_room (AwaitOffer obj _ _) = {obj}"
| "phase_room (AwaitSent obj _ _ _) = {obj}"
| "phase_room _ = {}"

definition join_inv :: "mesh_phase \<Rightarrow> MeshWorld \<Rightarrow> bool" where
  "join_inv ph w = (mesh_inv (pending_mics ph) w \<and> phase_room ph \<subseteq> registered w)"

lemma set_map_put: "set (map_put k v kvs) = insert (k, v) {e \<in> set kvs. fst e \<noteq> k}"
  by (auto simp: map_put_def)

lemma set_map_drop: "set (map_drop k kvs) = {e \<in> set kvs. fst e \<noteq> k}"
  by (auto simp: map_drop_def)

lemma distinct_map_put_drop:
  "distinct (map fst kvs) \<Longrightarrow> distinct (map fst (map_put k v kvs))"
  "distinct (map fst kvs) \<Longrightarrow> distinct (map fst (map_drop k kvs))"
  by (auto simp: map_put_def map_drop_def distinct_map_filter)

lemma set_room_simps [simp]:
  "mw_registry (set_room obj f w) = mw_registry w" "mw_open (set_room obj f w) = mw_open w"
  "mw_live (set_room obj f w) = mw_live w" "length (mw_rooms (set_room obj f w)) = length (mw_rooms w)"
  "mw_handler (set_room obj f w) = mw_handler w" "mw_sent (set_room obj f w) = mw_sent w" "mw_fresh (set_room obj f w) = mw_fresh w"
  "registered (set_room obj f w) = registered w"
  by (simp_all add: set_room_def registered_def)

lemma room_set_room: "mw_rooms (set_room obj f w) ! i =
    (if i = obj \<and> obj < length (mw_rooms w) then f (mw_rooms w ! obj) else mw_rooms w ! i)"
  by (cases "obj < length (mw_rooms w)"; cases "i = obj") (simp_all add: set_room_def list_update_beyond not_less)

text \<open>What changes in a step that keeps the registry: more peers are owned, microphones stay with their rooms.\<close>

lemma mesh_inv_grow:
  assumes "mesh_inv mics w" "mw_registry w' = mw_registry w" "length (mw_rooms w') = length (mw_rooms w)"
    and "\<And>i. rm_localStream (mw_rooms w' ! i) = rm_localStream (mw_rooms w ! i)"
    and "set (mw_live w') \<subseteq> set (mw_live w)"
    and "set (mw_open w') \<subseteq> owned_pcs w'"
  shows "mesh_inv mics w'"
proof -
  have "registered w' = registered w" using assms(2) by (simp add: registered_def)
  moreover have "owned_mics w' = owned_mics w" using calculation assms(4) by (simp add: owned_mics_def)
  ultimately show ?thesis using assms by (auto simp: mesh_inv_def)
qed

lemma add_peer_fields [simp]:
  "mw_registry (add_peer obj r mic cand w) = mw_registry w" "mw_live (add_peer obj r mic cand w) = mw_live w"
  "mw_open (add_peer obj r mic cand w) = mw_fresh w # mw_open w"
  "registered (add_peer obj r mic cand w) = registered w"
  "length (mw_rooms (add_peer obj r mic cand w)) = length (mw_rooms w)"
  "rm_localStream (mw_rooms (add_peer obj r mic cand w) ! i) = rm_localStream (mw_rooms w ! i)"
  by (simp_all add: add_peer_def createPeerConnection_def room_set_room Let_def registered_def)

lemma add_peer_pcs:
  assumes "obj < length (mw_rooms w)" "r \<notin> fst ` set (rm_peers (mw_rooms w ! obj))"
  shows "room_pcs (mw_rooms (add_peer obj r mic cand w) ! i) =
    room_pcs (mw_rooms w ! i) \<union> (if i = obj then {mw_fresh w} else {})"
proof -
  have "{e \<in> set (rm_peers (mw_rooms w ! obj)). fst e \<noteq> r} = set (rm_peers (mw_rooms w ! obj))"
    using assms(2) by force
  then show ?thesis using assms(1)
    by (simp add: add_peer_def createPeerConnection_def room_set_room Let_def room_pcs_def set_map_put)
qed

lemma mesh_inv_add_peer:
  assumes "mesh_inv mics w" "obj \<in> registered w" "r \<notin> fst ` set (rm_peers (mw_rooms w ! obj))"
  shows "mesh_inv mics (add_peer obj r mic cand w)"
proof -
  have l: "obj < length (mw_rooms w)" using assms(1,2) by (simp add: mesh_inv_def)
  have "owned_pcs (add_peer obj r mic cand w) = insert (mw_fresh w) (owned_pcs w)"
    using assms(2) by (auto simp: owned_pcs_def add_peer_pcs[OF l assms(3)] split: if_splits)
  then show ?thesis using assms(1) by (intro mesh_inv_grow[OF assms(1)]) (auto simp: mesh_inv_def)
qed

lemma mesh_inv_initiate:
  assumes "mesh_inv {} w" "obj \<in> registered w" "initiate obj rs w = (ph, w')"
  shows "join_inv ph w' \<and> ph \<noteq> Refused"
  using assms
proof (induction obj rs w rule: initiate.induct)
  case (2 obj r rs w)
  show ?case
  proof (cases "r \<in> fst ` set (rm_peers (mw_rooms w ! obj))")
    case False
    then have "ph = AwaitOffer obj r rs" "w' = add_peer obj r (rm_localStream (mw_rooms w ! obj)) None w"
      using 2(4) by auto
    then show ?thesis using mesh_inv_add_peer[OF 2(2,3) False] 2(3) by (simp add: join_inv_def)
  qed (use 2 in simp)
qed (auto simp: join_inv_def)

lemma mesh_inv_set_room:
  assumes "mesh_inv mics w" "\<And>m. rm_peers (f m) = rm_peers m" "\<And>m. rm_localStream (f m) = rm_localStream m"
  shows "mesh_inv mics (set_room obj f w)"
proof -
  have "room_pcs (mw_rooms (set_room obj f w) ! i) = room_pcs (mw_rooms w ! i)" for i
    using assms(2) by (auto simp: room_set_room room_pcs_def)
  then have "owned_pcs (set_room obj f w) = owned_pcs w" by (simp add: owned_pcs_def)
  then show ?thesis using assms(1,3)
    by (intro mesh_inv_grow[OF assms(1)]) (auto simp: room_set_room mesh_inv_def)
qed

lemma mesh_inv_sent [simp]: "mesh_inv mics (w\<lparr>mw_sent := s\<rparr>) = mesh_inv mics w"
  by (simp add: mesh_inv_def owned_pcs_def owned_mics_def registered_def)

lemma registered_sent [simp]: "registered (w\<lparr>mw_sent := s\<rparr>) = registered w"
  by (simp add: registered_def)

lemma mesh_inv_media:
  "mesh_inv mics w \<Longrightarrow> mesh_inv (insert m mics) (w\<lparr>mw_live := m # mw_live w, mw_fresh := n\<rparr>)"
  by (auto simp: mesh_inv_def owned_pcs_def owned_mics_def registered_def)

text \<open>A new room takes over the microphone that was waiting for it.\<close>

lemma mesh_inv_new_room:
  assumes "mesh_inv (set_option mic) w" "map_of (mw_registry w) k = None"
    and "rm_localStream room = mic"
    and "w1 = w\<lparr>mw_handler := h, mw_rooms := mw_rooms w @ [room], mw_registry := map_put k (length (mw_rooms w)) (mw_registry w)\<rparr>"
  shows "mesh_inv {} w1 \<and> length (mw_rooms w) \<in> registered w1"
proof -
  define n where "n = length (mw_rooms w)"
  have "{e \<in> set (mw_registry w). fst e \<noteq> k} = set (mw_registry w)" using assms(2) by (force simp: map_of_eq_None_iff)
  then have reg: "registered w1 = insert n (registered w)" by (simp add: registered_def assms(4) set_map_put n_def)
  have lt: "i < n" if "i \<in> registered w" for i using assms(1) that by (simp add: mesh_inv_def n_def)
  have old: "mw_rooms w1 ! i = mw_rooms w ! i" if "i < n" for i using that by (simp add: assms(4) n_def nth_append)
  have new: "mw_rooms w1 ! n = room" by (simp add: assms(4) n_def)
  have "owned_pcs w \<subseteq> owned_pcs w1" unfolding owned_pcs_def reg using old lt by fastforce
  moreover have "owned_mics w1 = set_option mic \<union> owned_mics w"
    unfolding owned_mics_def reg using old lt new assms(3) by simp
  moreover have "i < length (mw_rooms w1)" if "i \<in> registered w1" for i
    using that lt reg by (auto simp: assms(4) n_def less_Suc_eq)
  moreover have "mw_open w1 = mw_open w" "mw_live w1 = mw_live w" "distinct (map fst (mw_registry w1))"
    using assms(1) by (simp_all add: assms(4) mesh_inv_def distinct_map_put_drop)
  ultimately show ?thesis using assms(1) reg unfolding mesh_inv_def n_def by auto
qed

lemma mesh_inv_join_step:
  assumes "join_inv ph w" "joinMeshStep ph ev w = (ph', w')" "\<And>b. ev = HandlerAnswer b \<Longrightarrow> b"
    and "\<And>k parts mic. ph = AwaitHandle k parts mic \<Longrightarrow> map_of (mw_registry w) k = None"
  shows "join_inv ph' w'"
proof (cases "(ph, ev, w)" rule: joinMeshStep.cases)
  case (1 roomId parts granted w0)
  then have "mesh_inv {} w" using assms(1) by (simp add: join_inv_def)
  then show ?thesis using assms(2) 1 mesh_inv_media[of "{}" w] by (auto simp: join_inv_def split: if_splits)
next
  case (2 roomId parts mic ok w0)
  define w1 where "w1 = w\<lparr>mw_handler := Some (roomId, mic), mw_rooms := mw_rooms w @
      [\<lparr>rm_id = roomId, rm_peers = [], rm_remoteAudio = [], rm_localStream = mic, rm_nextRequestId = 1\<rparr>],
      mw_registry := map_put roomId (length (mw_rooms w)) (mw_registry w)\<rparr>"
  have "mesh_inv {} w1 \<and> length (mw_rooms w) \<in> registered w1"
    by (rule mesh_inv_new_room[OF _ _ _ w1_def]) (use 2 assms(1,4) in \<open>simp_all add: join_inv_def\<close>)
  moreover have "initiate (length (mw_rooms w)) parts w1 = (ph', w')"
    using assms(2,3) 2 by (simp add: w1_def Let_def)
  ultimately show ?thesis using mesh_inv_initiate by blast
next
  case (3 obj r rs sdp w0)
  have inv: "mesh_inv {} w" "obj \<in> registered w" using assms(1) 3 by (auto simp: join_inv_def)
  show ?thesis
  proof (cases sdp)
    case None
    then show ?thesis using assms(2) 3 mesh_inv_initiate[OF inv] by simp
  next
    case (Some s)
    then show ?thesis using assms(2) 3 inv by (auto simp: join_inv_def intro!: mesh_inv_set_room)
  qed
next
  case (4 obj r rs env ok w0)
  define w1 where "w1 = (if ok then w\<lparr>mw_sent := mw_sent w @ [(r, env)]\<rparr> else w)"
  have "mesh_inv {} w1" "obj \<in> registered w1" using assms(1) 4 by (simp_all add: join_inv_def w1_def)
  moreover have "initiate obj rs w1 = (ph', w')" using assms(2) 4 by (auto simp: w1_def)
  ultimately show ?thesis using mesh_inv_initiate by blast
qed (use assms(1,2) in auto)

section \<open>Leaving and the handler keep the ownership\<close>

lemma mesh_inv_leave:
  assumes inv: "mesh_inv mics w"
  shows "mesh_inv mics (leaveMesh roomId w)"
proof (cases "map_of (mw_registry w) roomId")
  case (Some obj)
  define w' where "w' = leaveMesh roomId w"
  have reg: "mw_registry w' = map_drop roomId (mw_registry w)"
    and op: "set (mw_open w') = set (mw_open w) - room_pcs (mw_rooms w ! obj)"
    and live: "set (mw_live w') = set (mw_live w) - set_option (rm_localStream (mw_rooms w ! obj))"
    and len: "length (mw_rooms w') = length (mw_rooms w)"
    using Some by (auto simp: w'_def leaveMesh_def leaveMeshBegin_def leaveMeshFinish_def Let_def room_pcs_def)
  have rooms: "room_pcs (mw_rooms w' ! i) = room_pcs (mw_rooms w ! i)"
    "rm_localStream (mw_rooms w' ! i) = rm_localStream (mw_rooms w ! i)" for i
    using Some by (auto simp: w'_def leaveMesh_def leaveMeshBegin_def leaveMeshFinish_def Let_def room_set_room room_pcs_def)
  have "distinct (map fst (mw_registry w))" using inv by (simp add: mesh_inv_def)
  then have only: "snd e = obj" if "e \<in> set (mw_registry w)" "fst e = roomId" for e
    using that Some map_of_is_SomeI[of "mw_registry w" roomId "snd e"] by (metis option.inject prod.collapse)
  then have r1: "registered w \<subseteq> insert obj (registered w')" "registered w' \<subseteq> registered w"
    unfolding registered_def reg set_map_drop by force+
  have "owned_pcs w \<subseteq> room_pcs (mw_rooms w ! obj) \<union> owned_pcs w'"
    "owned_mics w \<subseteq> set_option (rm_localStream (mw_rooms w ! obj)) \<union> owned_mics w'"
    unfolding owned_pcs_def owned_mics_def rooms using r1(1) by blast+
  moreover have "distinct (map fst (mw_registry w'))" unfolding reg using inv
    by (simp add: mesh_inv_def distinct_map_put_drop)
  ultimately have "mesh_inv mics w'" using inv r1(2) unfolding mesh_inv_def op live len by blast
  then show ?thesis by (simp add: w'_def)
qed (use inv in \<open>simp add: leaveMesh_def leaveMeshBegin_def\<close>)

lemma mesh_inv_bye:
  assumes inv: "mesh_inv mics w" and pc: "map_of (rm_peers (mw_rooms w ! obj)) remote = Some p"
    and dist: "distinct (map fst (rm_peers (mw_rooms w ! obj)))"
  shows "mesh_inv mics (set_room obj (\<lambda>m. m\<lparr>rm_peers := map_drop remote (rm_peers m)\<rparr>)
     (w\<lparr>mw_open := filter (\<lambda>q. q \<noteq> pc_id p) (mw_open w)\<rparr>))" (is "mesh_inv mics ?w")
proof -
  have only: "e = (remote, p)" if "e \<in> set (rm_peers (mw_rooms w ! obj))" "fst e = remote" for e
    using that pc map_of_is_SomeI[OF dist, of remote "snd e"] by (metis option.inject prod.collapse)
  have "room_pcs (mw_rooms w ! i) \<subseteq> insert (pc_id p) (room_pcs (mw_rooms ?w ! i))" for i
    using only by (force simp: room_set_room room_pcs_def set_map_drop)
  then have "owned_pcs w \<subseteq> insert (pc_id p) (owned_pcs ?w)"
    unfolding owned_pcs_def by (auto simp: registered_def)
  then show ?thesis using inv
    by (intro mesh_inv_grow[OF inv]) (auto simp: room_set_room mesh_inv_def)
qed

definition peers_distinct :: "MeshWorld \<Rightarrow> bool" where
  "peers_distinct w = (\<forall>m \<in> set (mw_rooms w). distinct (map fst (rm_peers m)))"

lemma peers_distinct_set_room:
  assumes "peers_distinct w" "\<And>m. distinct (map fst (rm_peers m)) \<Longrightarrow> distinct (map fst (rm_peers (f m)))"
  shows "peers_distinct (set_room obj f w)"
proof (cases "obj < length (mw_rooms w)")
  case True
  then show ?thesis using assms 
    by (auto simp: peers_distinct_def set_room_def dest!: set_update_subset_insert[THEN subsetD])
next
  case False
  then show ?thesis using assms(1) by (simp add: peers_distinct_def set_room_def list_update_beyond not_less)
qed

lemma peers_distinct_upd [simp]:
  "peers_distinct (w\<lparr>mw_open := a\<rparr>) = peers_distinct w" "peers_distinct (w\<lparr>mw_live := a\<rparr>) = peers_distinct w"
  "peers_distinct (w\<lparr>mw_fresh := n\<rparr>) = peers_distinct w" "peers_distinct (w\<lparr>mw_sent := s\<rparr>) = peers_distinct w"
  "peers_distinct (w\<lparr>mw_registry := r\<rparr>) = peers_distinct w" "peers_distinct (w\<lparr>mw_handler := h\<rparr>) = peers_distinct w"
  by (simp_all add: peers_distinct_def)

lemma peers_distinct_add_peer: "peers_distinct w \<Longrightarrow> peers_distinct (add_peer obj r mic cand w)"
  by (simp add: add_peer_def createPeerConnection_def)
    (rule peers_distinct_set_room, simp_all add: distinct_map_put_drop)

lemma peers_distinct_initiate: "peers_distinct w \<Longrightarrow> initiate obj rs w = (ph, w') \<Longrightarrow> peers_distinct w'"
  by (induction obj rs w rule: initiate.induct) (auto simp: peers_distinct_add_peer split: if_splits)

lemma peers_distinct_join_step:
  assumes "peers_distinct w" "joinMeshStep ph ev w = (ph', w')"
  shows "peers_distinct w'"
proof (cases "(ph, ev, w)" rule: joinMeshStep.cases)
  case (2 roomId parts mic ok w0)
  then show ?thesis using assms
    by (auto simp: Let_def split: if_splits elim!: peers_distinct_initiate[rotated]) (auto simp: peers_distinct_def)
next
  case (3 obj r rs sdp w0)
  then show ?thesis using assms peers_distinct_initiate
    by (auto split: option.splits intro: peers_distinct_set_room)
next
  case (4 obj r rs env ok w0)
  then have "initiate obj rs (if ok then w\<lparr>mw_sent := mw_sent w @ [(r, env)]\<rparr> else w) = (ph', w')"
    using assms(2) by (cases ok) auto
  then show ?thesis by (rule peers_distinct_initiate[rotated]) (use assms(1) in simp)
qed (use assms in \<open>auto split: if_splits\<close>)

lemma peers_distinct_leave: "peers_distinct w \<Longrightarrow> peers_distinct (leaveMesh k w)"
  by (auto simp: leaveMesh_def leaveMeshBegin_def leaveMeshFinish_def Let_def split: option.splits
      intro!: peers_distinct_set_room)

lemma inbound_keeps:
  assumes "mesh_inv mics w" "peers_distinct w"
  shows "mesh_inv mics (handleInbound remote msg answer ok w) \<and> peers_distinct (handleInbound remote msg answer ok w)"
proof (cases "mw_handler w")
  case (Some h)
  obtain k mic where h: "h = (k, mic)" by force
  show ?thesis
  proof (cases "map_of (mw_registry w) (fst h)")
    case (Some obj)
    have obj: "obj \<in> registered w" using map_of_SomeD[OF Some] by (force simp: registered_def)
    then have lt: "obj < length (mw_rooms w)" using assms(1) by (simp add: mesh_inv_def)
    show ?thesis
    proof (cases msg)
      case (Offer sdp n)
      define w1 where "w1 = (if map_of (rm_peers (mw_rooms w ! obj)) remote = None
        then add_peer obj remote mic (Some n) w else w)"
      have "mesh_inv mics w1 \<and> peers_distinct w1"
        using assms obj by (auto simp: w1_def map_of_eq_None_iff peers_distinct_add_peer intro!: mesh_inv_add_peer)
      moreover have "handleInbound remote msg answer ok w = (case answer of None \<Rightarrow> w1
          | Some s \<Rightarrow> if ok then w1\<lparr>mw_sent := mw_sent w1 @ [(remote, Answer s n)]\<rparr> else w1)"
        using Some \<open>mw_handler w = Some h\<close> Offer
        by (cases answer; cases ok) (simp_all add: h handleInbound_def Let_def w1_def)
      ultimately show ?thesis by (cases answer) simp_all
    next
      case (Bye n)
      show ?thesis
      proof (cases "map_of (rm_peers (mw_rooms w ! obj)) remote")
        case None
        then show ?thesis using assms Some \<open>mw_handler w = Some h\<close> Bye
          by (cases h) (simp add: handleInbound_def)
      next
        case (Some p)
        have "distinct (map fst (rm_peers (mw_rooms w ! obj)))"
          using assms(2) lt by (simp add: peers_distinct_def)
        from mesh_inv_bye[OF assms(1) Some this] show ?thesis
          using assms(2) Some \<open>map_of (mw_registry w) (fst h) = Some obj\<close> \<open>mw_handler w = Some h\<close> Bye
          by (cases h) (auto simp: handleInbound_def distinct_map_put_drop intro!: peers_distinct_set_room)
      qed
    qed (use assms Some \<open>mw_handler w = Some h\<close> in \<open>cases h, simp add: handleInbound_def\<close>)+
  qed (use assms Some in \<open>cases h, simp add: handleInbound_def\<close>)
qed (use assms in \<open>simp add: handleInbound_def\<close>)

section \<open>Whole operations\<close>

text \<open>What one join is answered: the microphone, the handler registration, and per participant the offer
  made and whether it was delivered.\<close>
record MeshAnswers =
  ma_media :: bool
  ma_handler :: bool
  ma_offer :: "str \<Rightarrow> str option"
  ma_sent :: "str \<Rightarrow> bool"

fun mesh_answer :: "MeshAnswers \<Rightarrow> mesh_phase \<Rightarrow> mesh_event" where
  "mesh_answer a (AwaitMedia _ _) = MediaAnswer (ma_media a)"
| "mesh_answer a (AwaitHandle _ _ _) = HandlerAnswer (ma_handler a)"
| "mesh_answer a (AwaitOffer _ r _) = OfferAnswer (ma_offer a r)"
| "mesh_answer a (AwaitSent _ r _ _) = SentAnswer (ma_sent a r)"
| "mesh_answer a _ = MediaAnswer False"

fun settled :: "mesh_phase \<Rightarrow> bool" where
  "settled (Joined _) = True" | "settled Refused = True" | "settled _ = False"

fun mesh_steps_left :: "mesh_phase \<Rightarrow> nat" where
  "mesh_steps_left (AwaitMedia _ parts) = 2 * length parts + 3"
| "mesh_steps_left (AwaitHandle _ parts _) = 2 * length parts + 2"
| "mesh_steps_left (AwaitOffer _ _ rs) = 2 * length rs + 2"
| "mesh_steps_left (AwaitSent _ _ rs _) = 2 * length rs + 1"
| "mesh_steps_left _ = 0"

lemma initiate_steps: "initiate obj rs w = (ph, w') \<Longrightarrow> mesh_steps_left ph \<le> 2 * length rs"
  by (induction obj rs w rule: initiate.induct) (auto split: if_splits)

lemma join_step_progress:
  "\<not> settled ph \<Longrightarrow> joinMeshStep ph (mesh_answer a ph) w = (ph', w') \<Longrightarrow> mesh_steps_left ph' < mesh_steps_left ph"
  by (cases ph) (auto split: if_splits option.splits dest!: initiate_steps simp: Let_def)

function runJoinMesh :: "MeshAnswers \<Rightarrow> mesh_phase \<Rightarrow> MeshWorld \<Rightarrow> mesh_phase \<times> MeshWorld" where
  "runJoinMesh a ph w = (if settled ph then (ph, w)
     else let (ph', w') = joinMeshStep ph (mesh_answer a ph) w in runJoinMesh a ph' w')"
  by pat_completeness auto
termination
proof (relation "measure (\<lambda>(a, ph, w). mesh_steps_left ph)")
  fix a ph w x ph' w'
  assume "\<not> settled ph" "x = joinMeshStep ph (mesh_answer a ph) w" "(ph', w') = x"
  then have "mesh_steps_left ph' < mesh_steps_left ph" using join_step_progress[of ph a w ph' w'] by simp
  from this show "((a, ph', w'), a, ph, w) \<in> measure (\<lambda>(a, ph, w). mesh_steps_left ph)" by simp
qed simp

declare runJoinMesh.simps [simp del]

definition joinMesh :: "MeshAnswers \<Rightarrow> str \<Rightarrow> str list \<Rightarrow> MeshWorld \<Rightarrow> mesh_phase \<times> MeshWorld" where
  "joinMesh a roomId parts w = runJoinMesh a (joinMeshStart roomId parts w) w"

text \<open>A phase that still waits for its handler waits for a room that is not registered.\<close>
fun waits_fresh :: "mesh_phase \<Rightarrow> MeshWorld \<Rightarrow> bool" where
  "waits_fresh (AwaitMedia k _) w = (map_of (mw_registry w) k = None)"
| "waits_fresh (AwaitHandle k _ _) w = (map_of (mw_registry w) k = None)"
| "waits_fresh _ w = True"

lemma initiate_not_waiting: "initiate obj rs w = (ph, w') \<Longrightarrow> waits_fresh ph w''"
  by (induction obj rs w rule: initiate.induct) (auto split: if_splits)

lemma waits_fresh_step: "waits_fresh ph w \<Longrightarrow> joinMeshStep ph ev w = (ph', w') \<Longrightarrow> waits_fresh ph' w'"
  by (cases "(ph, ev, w)" rule: joinMeshStep.cases)
    (auto simp: Let_def split: if_splits option.splits dest: initiate_not_waiting)

lemma runJoinMesh_inv:
  assumes "ma_handler a" "join_inv ph w" "peers_distinct w" "waits_fresh ph w" "runJoinMesh a ph w = (ph', w')"
  shows "join_inv ph' w' \<and> peers_distinct w' \<and> settled ph'"
  using assms
proof (induction a ph w rule: runJoinMesh.induct)
  case (1 a ph w)
  show ?case
  proof (cases "settled ph")
    case False
    obtain ph1 w1 where st: "joinMeshStep ph (mesh_answer a ph) w = (ph1, w1)" by force
    have h: "b" if "mesh_answer a ph = HandlerAnswer b" for b using that 1(2) by (cases ph) auto
    have f: "map_of (mw_registry w) k = None" if "ph = AwaitHandle k parts mic" for k parts mic
      using that 1(5) by simp
    have "join_inv ph1 w1" by (rule mesh_inv_join_step[OF 1(3) st h f])
    moreover have "runJoinMesh a ph1 w1 = (ph', w')" using 1(6) False st by (simp add: runJoinMesh.simps[of a ph])
    ultimately show ?thesis
      using 1(1)[OF False st[symmetric] refl 1(2)] peers_distinct_join_step[OF 1(4) st] waits_fresh_step[OF 1(5) st] by blast
  qed (use 1 in \<open>simp add: runJoinMesh.simps[of a ph]\<close>)
qed

section \<open>Reachable meshes\<close>

inductive mesh_reach :: "MeshWorld \<Rightarrow> bool" where
  init: "mesh_reach emptyMesh"
| joins: "mesh_reach w \<Longrightarrow> ma_handler a \<Longrightarrow> joinMesh a roomId parts w = (ph, w') \<Longrightarrow> mesh_reach w'"
| leaves: "mesh_reach w \<Longrightarrow> mesh_reach (leaveMesh roomId w)"
| hears: "mesh_reach w \<Longrightarrow> mesh_reach (handleInbound remote msg answer ok w)"
| plays: "mesh_reach w \<Longrightarrow> mesh_reach (onTrack obj track stream w)"
| trickles: "mesh_reach w \<Longrightarrow> mesh_reach (onIceCandidate obj remote cand ok w)"

lemma settled_no_pending: "settled ph \<Longrightarrow> pending_mics ph = {}"
  by (cases ph) auto

lemma mesh_reach_inv: "mesh_reach w \<Longrightarrow> mesh_inv {} w \<and> peers_distinct w"
proof (induction rule: mesh_reach.induct)
  case init
  then show ?case by (simp add: emptyMesh_def mesh_inv_def registered_def peers_distinct_def owned_pcs_def)
next
  case (joins w a roomId parts ph w')
  define p0 where "p0 = joinMeshStart roomId parts w"
  have "join_inv p0 w" "waits_fresh p0 w"
    using joins.IH by (auto simp: p0_def joinMeshStart_def join_inv_def)
  then have "join_inv ph w' \<and> peers_distinct w' \<and> settled ph"
    using joins runJoinMesh_inv[of a p0 w ph w'] by (simp add: joinMesh_def p0_def)
  then show ?case using settled_no_pending by (auto simp: join_inv_def)
next
  case (plays w obj track stream)
  then show ?case by (auto simp: onTrack_def intro!: mesh_inv_set_room peers_distinct_set_room)
next
  case (trickles w obj remote cand ok)
  then show ?case by (auto simp: onIceCandidate_def Let_def split: option.splits)
qed (auto simp: mesh_inv_leave peers_distinct_leave inbound_keeps)

section \<open>Every interleaving\<close>

text \<open>The mesh with the joins under way, each at one of its awaits, and the rooms whose leave waits for \<open>unhandle\<close>. Beside it a
  ledger of what the code loses: the microphones and connections of no room that a leave could still reach.\<close>
record MeshRun =
  mr_world :: MeshWorld
  mr_joins :: "mesh_phase list"
  mr_leaving :: "nat list"
  mr_lostMics :: "nat set"
  mr_lostPcs :: "nat set"

datatype mesh_act =
    CallJoin str "str list" | AnswerJoin nat mesh_event | BeginLeave str | FinishLeave nat
  | Hear str SignalingMessage "str option" bool | Track nat str str | Candidate nat str str bool

definition quietRun :: MeshRun where
  "quietRun = \<lparr>mr_world = emptyMesh, mr_joins = [], mr_leaving = [], mr_lostMics = {}, mr_lostPcs = {}\<rparr>"

text \<open>The rooms that a leave has reached or can reach.\<close>
definition held :: "MeshRun \<Rightarrow> nat set" where
  "held r = registered (mr_world r) \<union> set (mr_leaving r)"

text \<open>A join loses its microphone when the node refuses the handler; when its room was registered by another join meanwhile, that
  room is lost with what it has; and a connection it opens is lost when its room has been left.\<close>
fun lost_mics :: "mesh_phase \<Rightarrow> mesh_event \<Rightarrow> MeshWorld \<Rightarrow> nat set" where
  "lost_mics (AwaitHandle k parts mic) (HandlerAnswer ok) w =
     (if \<not> ok then set_option mic
      else case map_of (mw_registry w) k of None \<Rightarrow> {} | Some obj \<Rightarrow> set_option (rm_localStream (mw_rooms w ! obj)))"
| "lost_mics ph ev w = {}"

fun lost_pcs :: "mesh_phase \<Rightarrow> mesh_event \<Rightarrow> nat set \<Rightarrow> MeshWorld \<Rightarrow> MeshWorld \<Rightarrow> nat set" where
  "lost_pcs (AwaitHandle k parts mic) (HandlerAnswer ok) H w w' =
     (case map_of (mw_registry w) k of None \<Rightarrow> {} | Some obj \<Rightarrow> if ok then room_pcs (mw_rooms w ! obj) else {})"
| "lost_pcs (AwaitOffer obj p ps) ev H w w' = (if obj \<in> H then {} else set (mw_open w') - set (mw_open w))"
| "lost_pcs (AwaitSent obj p ps env) ev H w w' = (if obj \<in> H then {} else set (mw_open w') - set (mw_open w))"
| "lost_pcs ph ev H w w' = {}"

fun mesh_do :: "mesh_act \<Rightarrow> MeshRun \<Rightarrow> MeshRun" where
  "mesh_do (CallJoin k parts) r = (case joinMeshStart k parts (mr_world r) of Refused \<Rightarrow> r | ph \<Rightarrow> r\<lparr>mr_joins := mr_joins r @ [ph]\<rparr>)"
| "mesh_do (AnswerJoin n ev) r = (if n < length (mr_joins r) then
     let ph = mr_joins r ! n in case joinMeshStep ph ev (mr_world r) of (ph', w') \<Rightarrow>
       r\<lparr>mr_world := w', mr_joins := (mr_joins r)[n := ph'], mr_lostMics := lost_mics ph ev (mr_world r) \<union> mr_lostMics r,
         mr_lostPcs := lost_pcs ph ev (held r) (mr_world r) w' \<union> mr_lostPcs r\<rparr>
     else r)"
| "mesh_do (BeginLeave k) r = (case leaveMeshBegin k (mr_world r) of (None, w') \<Rightarrow> r
     | (Some obj, w') \<Rightarrow> r\<lparr>mr_world := w', mr_leaving := obj # mr_leaving r\<rparr>)"
| "mesh_do (FinishLeave obj) r = (if obj \<in> set (mr_leaving r)
     then r\<lparr>mr_world := leaveMeshFinish obj (mr_world r), mr_leaving := removeAll obj (mr_leaving r)\<rparr> else r)"
| "mesh_do (Hear remote msg answer ok) r = r\<lparr>mr_world := handleInbound remote msg answer ok (mr_world r)\<rparr>"
| "mesh_do (Track obj track stream) r = r\<lparr>mr_world := onTrack obj track stream (mr_world r)\<rparr>"
| "mesh_do (Candidate obj remote cand ok) r = r\<lparr>mr_world := onIceCandidate obj remote cand ok (mr_world r)\<rparr>"

definition pcs_of :: "nat set \<Rightarrow> MeshWorld \<Rightarrow> nat set" where
  "pcs_of H w = (\<Union>i \<in> H. room_pcs (mw_rooms w ! i))"

definition mics_of :: "nat set \<Rightarrow> MeshWorld \<Rightarrow> nat set" where
  "mics_of H w = (\<Union>i \<in> H. set_option (rm_localStream (mw_rooms w ! i)))"

definition pending :: "mesh_phase list \<Rightarrow> nat set" where
  "pending phs = (\<Union>ph \<in> set phs. pending_mics ph)"

text \<open>Everything that is on is in a room held, waits in a join, or is in the ledger.\<close>
definition ledger :: "nat set \<Rightarrow> mesh_phase list \<Rightarrow> nat set \<Rightarrow> nat set \<Rightarrow> MeshWorld \<Rightarrow> bool" where
  "ledger H phs lm lp w = (distinct (map fst (mw_registry w)) \<and> distinct (map snd (mw_registry w)) \<and> peers_distinct w \<and> registered w \<subseteq> H \<and> (\<forall>i \<in> H. i < length (mw_rooms w))
     \<and> (\<forall>ph \<in> set phs. \<forall>i \<in> phase_room ph. i < length (mw_rooms w))
     \<and> set (mw_open w) \<subseteq> pcs_of H w \<union> lp \<and> set (mw_live w) \<subseteq> mics_of H w \<union> pending phs \<union> lm)"

definition ledger_ok :: "MeshRun \<Rightarrow> bool" where
  "ledger_ok r = (ledger (held r) (mr_joins r) (mr_lostMics r) (mr_lostPcs r) (mr_world r)
     \<and> set (mr_leaving r) \<inter> registered (mr_world r) = {})"

lemma initiate_effect:
  "initiate obj rs w = (ph, w') \<Longrightarrow> w' = w \<and> ph = Joined obj \<or> (\<exists>p ps. p \<notin> fst ` set (rm_peers (mw_rooms w ! obj))
     \<and> ph = AwaitOffer obj p ps \<and> w' = add_peer obj p (rm_localStream (mw_rooms w ! obj)) None w)"
  by (induction obj rs w rule: initiate.induct) (auto split: if_splits)

lemma pending_update: "n < length phs \<Longrightarrow> pending phs \<subseteq> pending_mics (phs ! n) \<union> pending (phs[n := ph])"
proof
  fix m
  assume n: "n < length phs" and "m \<in> pending phs"
  then obtain k where k: "k < length phs" "m \<in> pending_mics (phs ! k)" by (auto simp: pending_def in_set_conv_nth)
  have "phs ! k \<in> set (phs[n := ph])" if "k \<noteq> n" using k(1) that by (metis length_list_update nth_list_update_neq nth_mem)
  then show "m \<in> pending_mics (phs ! n) \<union> pending (phs[n := ph])" using k(2) by (cases "k = n") (auto simp: pending_def)
qed

lemma phase_kept: "phs ! n = ph \<Longrightarrow> phs[n := ph] = phs"
  by auto

lemma phases_update: "ph' \<in> set (phs[n := ph]) \<Longrightarrow> ph' = ph \<or> ph' \<in> set phs"
  using set_update_subset_insert by fastforce

text \<open>A step that keeps the registry and the rooms' microphones, and gives up no connection that stays open.\<close>
lemma ledger_grow:
  assumes "ledger H phs lm lp w" "mw_registry w' = mw_registry w" "length (mw_rooms w') = length (mw_rooms w)" "peers_distinct w'"
    and "\<And>i. rm_localStream (mw_rooms w' ! i) = rm_localStream (mw_rooms w ! i)" "set (mw_live w') \<subseteq> set (mw_live w)"
    and "set (mw_open w') \<subseteq> pcs_of H w' \<union> lp'"
  shows "ledger H phs lm lp' w'"
proof -
  have "registered w' = registered w" "mics_of H w' = mics_of H w" using assms(2,5) by (simp_all add: registered_def mics_of_def)
  then show ?thesis using assms unfolding ledger_def by auto
qed

lemma ledger_add_peer:
  assumes "ledger H phs lm lp w" "obj < length (mw_rooms w)" "q \<notin> fst ` set (rm_peers (mw_rooms w ! obj))"
  shows "ledger H phs lm ((if obj \<in> H then {} else set (mw_open (add_peer obj q mic cand w)) - set (mw_open w)) \<union> lp) (add_peer obj q mic cand w)"
proof (rule ledger_grow[OF assms(1)])
  show "peers_distinct (add_peer obj q mic cand w)" using assms(1) peers_distinct_add_peer by (simp add: ledger_def)
  have "pcs_of H w \<subseteq> pcs_of H (add_peer obj q mic cand w)" unfolding pcs_of_def add_peer_pcs[OF assms(2,3)] by blast
  moreover have "mw_fresh w \<in> pcs_of H (add_peer obj q mic cand w)" if "obj \<in> H" using that unfolding pcs_of_def add_peer_pcs[OF assms(2,3)] by auto
  moreover have "set (mw_open w) \<subseteq> pcs_of H w \<union> lp" using assms(1) by (simp add: ledger_def)
  ultimately show "set (mw_open (add_peer obj q mic cand w)) \<subseteq> pcs_of H (add_peer obj q mic cand w)
      \<union> ((if obj \<in> H then {} else set (mw_open (add_peer obj q mic cand w)) - set (mw_open w)) \<union> lp)"
    by (cases "obj \<in> H") (simp_all, blast+)
qed simp_all

lemma ledger_phase:
  assumes "ledger H phs lm lp w" "n < length phs" "pending_mics (phs ! n) \<subseteq> pending_mics ph \<union> lm'" "lm \<subseteq> lm'" "lp \<subseteq> lp'"
    and "\<forall>i \<in> phase_room ph. i < length (mw_rooms w)"
  shows "ledger H (phs[n := ph]) lm' lp' w"
proof -
  have "ph \<in> set (phs[n := ph])" using assms(2) by (simp add: set_update_memI)
  then have "pending phs \<subseteq> pending (phs[n := ph]) \<union> lm'" using pending_update[OF assms(2), of ph] assms(3) by (auto simp: pending_def)
  moreover have "\<forall>ph' \<in> set (phs[n := ph]). \<forall>i \<in> phase_room ph'. i < length (mw_rooms w)"
    using assms(1,6) unfolding ledger_def by (auto dest!: phases_update)
  moreover have "set (mw_open w) \<subseteq> pcs_of H w \<union> lp" "set (mw_live w) \<subseteq> mics_of H w \<union> pending phs \<union> lm"
    using assms(1) by (simp_all add: ledger_def)
  moreover have "distinct (map fst (mw_registry w))" "distinct (map snd (mw_registry w))" "peers_distinct w" "registered w \<subseteq> H" "\<forall>i \<in> H. i < length (mw_rooms w)"
    using assms(1) by (simp_all add: ledger_def)
  ultimately show ?thesis using assms(4,5) unfolding ledger_def by (intro conjI) blast+
qed

lemma ledger_initiate:
  assumes "ledger H phs lm lp w" "n < length phs" "pending_mics (phs ! n) = {}" "obj < length (mw_rooms w)" "initiate obj rs w = (ph, w')"
  shows "ledger H (phs[n := ph]) lm ((if obj \<in> H then {} else set (mw_open w') - set (mw_open w)) \<union> lp) w'"
proof -
  consider "w' = w" "ph = Joined obj" | p ps where "p \<notin> fst ` set (rm_peers (mw_rooms w ! obj))" "ph = AwaitOffer obj p ps"
      "w' = add_peer obj p (rm_localStream (mw_rooms w ! obj)) None w"
    using initiate_effect[OF assms(5)] by blast
  then show ?thesis
  proof cases
    case 1
    show ?thesis unfolding 1 by (rule ledger_phase[OF assms(1,2)]) (use assms(3) in simp_all)
  next
    case (2 p ps)
    have "ledger H phs lm ((if obj \<in> H then {} else set (mw_open w') - set (mw_open w)) \<union> lp) w'" unfolding 2(3) by (rule ledger_add_peer[OF assms(1,4) 2(1)])
    then show ?thesis by (rule ledger_phase[OF _ assms(2)]) (use assms(3,4) 2 in simp_all)
  qed
qed

lemma ledger_set_room:
  assumes "ledger H phs lm lp w" "\<And>m. rm_peers (f m) = rm_peers m" "\<And>m. rm_localStream (f m) = rm_localStream m"
  shows "ledger H phs lm lp (set_room obj f w)"
proof -
  have "room_pcs (mw_rooms (set_room obj f w) ! i) = room_pcs (mw_rooms w ! i)" for i
    using assms(2) by (simp add: room_set_room room_pcs_def)
  then have "pcs_of H (set_room obj f w) = pcs_of H w" by (simp add: pcs_of_def)
  moreover have "peers_distinct (set_room obj f w)" using assms(1,2) by (intro peers_distinct_set_room) (simp_all add: ledger_def)
  ultimately show ?thesis using assms(1,3) by (intro ledger_grow[OF assms(1)]) (auto simp: room_set_room ledger_def)
qed

lemma ledger_sent [simp]: "ledger H phs lm lp (w\<lparr>mw_sent := s\<rparr>) = ledger H phs lm lp w"
  by (simp add: ledger_def pcs_of_def mics_of_def)

text \<open>A room is registered: it takes the microphone of its join, and the place of a room of that name.\<close>
lemma ledger_registered:
  assumes "ledger H phs lm lp w" "n < length phs" "phs ! n = AwaitHandle k parts mic" "registered w \<union> set lv = H"
    and "w1 = w\<lparr>mw_handler := h, mw_rooms := mw_rooms w @ [\<lparr>rm_id = k, rm_peers = [], rm_remoteAudio = [], rm_localStream = mic, rm_nextRequestId = 1\<rparr>],
      mw_registry := map_put k (length (mw_rooms w)) (mw_registry w)\<rparr>"
  shows "ledger (registered w1 \<union> set lv) (phs[n := Joined (length (mw_rooms w))]) (lost_mics (phs ! n) (HandlerAnswer True) w \<union> lm)
     (lost_pcs (phs ! n) (HandlerAnswer True) H w w2 \<union> lp) w1"
proof -
  let ?obj = "length (mw_rooms w)" and ?H = "registered w1 \<union> set lv"
  have lt: "i < ?obj" if "i \<in> H" for i using assms(1) that by (simp add: ledger_def)
  have old: "mw_rooms w1 ! i = mw_rooms w ! i" if "i \<in> H" for i using lt[OF that] by (simp add: assms(5) nth_append)
  have new: "mw_rooms w1 ! ?obj = \<lparr>rm_id = k, rm_peers = [], rm_remoteAudio = [], rm_localStream = mic, rm_nextRequestId = 1\<rparr>"
    by (simp add: assms(5))
  have reg: "?obj \<in> ?H" "?H \<subseteq> insert ?obj H" using assms(4) by (auto simp: assms(5) registered_def set_map_put)
  have d: "distinct (map fst (mw_registry w))" using assms(1) by (simp add: ledger_def)
  have gone: "i \<in> ?H \<or> map_of (mw_registry w) k = Some i" if "i \<in> H" for i
  proof (cases "i \<in> set lv")
    case False
    then have "i \<in> registered w" using that assms(4) by auto
    then obtain k' where "(k', i) \<in> set (mw_registry w)" by (auto simp: registered_def)
    show ?thesis
    proof (cases "k' = k")
      case True
      then show ?thesis using map_of_is_SomeI[OF d, of k' i] \<open>(k', i) \<in> set (mw_registry w)\<close> by simp
    next
      case False
      then have "(k', i) \<in> set (mw_registry w1)" using \<open>(k', i) \<in> set (mw_registry w)\<close> by (simp add: assms(5) set_map_put)
      then have "i \<in> registered w1" unfolding registered_def by force
      then show ?thesis by simp
    qed
  qed simp
  have pcs: "pcs_of H w \<subseteq> pcs_of ?H w1 \<union> lost_pcs (phs ! n) (HandlerAnswer True) H w w2"
  proof
    fix x
    assume "x \<in> pcs_of H w"
    then obtain i where i: "i \<in> H" "x \<in> room_pcs (mw_rooms w ! i)" by (auto simp: pcs_of_def)
    show "x \<in> pcs_of ?H w1 \<union> lost_pcs (phs ! n) (HandlerAnswer True) H w w2"
    proof (cases "i \<in> ?H")
      case True
      have "x \<in> room_pcs (mw_rooms w1 ! i)" using i(2) old[OF i(1)] by simp
      then show ?thesis using True unfolding pcs_of_def by blast
    next
      case False
      then show ?thesis using gone[OF i(1)] i(2) assms(3) by simp
    qed
  qed
  have mics: "mics_of H w \<union> set_option mic \<subseteq> mics_of ?H w1 \<union> lost_mics (phs ! n) (HandlerAnswer True) w"
  proof
    fix x
    assume "x \<in> mics_of H w \<union> set_option mic"
    then consider i where "i \<in> H" "x \<in> set_option (rm_localStream (mw_rooms w ! i))" | "x \<in> set_option mic" by (auto simp: mics_of_def)
    then show "x \<in> mics_of ?H w1 \<union> lost_mics (phs ! n) (HandlerAnswer True) w"
    proof cases
      case 1
      show ?thesis
      proof (cases "i \<in> ?H")
        case True
        have "x \<in> set_option (rm_localStream (mw_rooms w1 ! i))" using 1(2) old[OF 1(1)] by simp
        then show ?thesis using True unfolding mics_of_def by blast
      next
        case False
        then show ?thesis using gone[OF 1(1)] 1(2) assms(3) by simp
      qed
    next
      case 2
      then show ?thesis using reg(1) new by (force simp: mics_of_def)
    qed
  qed
  have len: "length (mw_rooms w1) = Suc ?obj" by (simp add: assms(5))
  have pend: "pending phs \<subseteq> set_option mic \<union> pending (phs[n := Joined ?obj])" using pending_update[OF assms(2)] assms(3) by fastforce
  have rooms: "\<forall>ph \<in> set (phs[n := Joined ?obj]). \<forall>i \<in> phase_room ph. i < length (mw_rooms w1)"
    using assms(1) unfolding ledger_def len by (auto dest!: phases_update intro: less_SucI)
  have same: "mw_open w1 = mw_open w" "mw_live w1 = mw_live w" by (simp_all add: assms(5))
  have on: "set (mw_open w) \<subseteq> pcs_of H w \<union> lp" "set (mw_live w) \<subseteq> mics_of H w \<union> pending phs \<union> lm"
    using assms(1) by (simp_all add: ledger_def)
  have "?obj \<notin> snd ` set (mw_registry w)" using assms(1) by (auto simp: ledger_def registered_def)
  then have "?obj \<notin> snd ` set (map_drop k (mw_registry w))" by (auto simp: map_drop_def)
  moreover have "distinct (map snd (map_drop k (mw_registry w)))" using assms(1) by (simp add: ledger_def map_drop_def distinct_map_filter)
  ultimately have "distinct (map snd (mw_registry w1))" by (simp add: assms(5) map_put_def map_drop_def)
  moreover have "peers_distinct w1" "distinct (map fst (mw_registry w1))"
    using assms(1) d by (auto simp: ledger_def peers_distinct_def assms(5) distinct_map_put_drop)
  moreover have "set (mw_open w1) \<subseteq> pcs_of ?H w1 \<union> (lost_pcs (phs ! n) (HandlerAnswer True) H w w2 \<union> lp)"
    using on(1) pcs unfolding same by blast
  moreover have "set (mw_live w1) \<subseteq> mics_of ?H w1 \<union> pending (phs[n := Joined ?obj]) \<union> (lost_mics (phs ! n) (HandlerAnswer True) w \<union> lm)"
    using on(2) mics pend unfolding same by blast
  moreover have "i < length (mw_rooms w1)" if "i \<in> ?H" for i
    using subsetD[OF reg(2) that] lt[of i] len by auto
  then have "\<forall>i \<in> ?H. i < length (mw_rooms w1)" by blast
  ultimately show ?thesis using rooms unfolding ledger_def by blast
qed

lemma step_registered:
  assumes "joinMeshStep (AwaitHandle k parts mic) (HandlerAnswer True) w = (ph, w')"
  shows "\<exists>w1. w1 = w\<lparr>mw_handler := Some (k, mic), mw_rooms := mw_rooms w @ [\<lparr>rm_id = k, rm_peers = [], rm_remoteAudio = [], rm_localStream = mic,
      rm_nextRequestId = 1\<rparr>], mw_registry := map_put k (length (mw_rooms w)) (mw_registry w)\<rparr> \<and> initiate (length (mw_rooms w)) parts w1 = (ph, w')"
  using assms by (simp add: Let_def)

lemma initiate_registry: "initiate obj rs w = (ph, w') \<Longrightarrow> registered w' = registered w"
  using initiate_effect[of obj rs w ph w'] by auto

lemma ledger_answered:
  assumes "ledger H phs lm lp w" "n < length phs" "registered w \<union> set lv = H" "joinMeshStep (phs ! n) ev w = (ph, w')"
  shows "ledger (registered w' \<union> set lv) (phs[n := ph]) (lost_mics (phs ! n) ev w \<union> lm) (lost_pcs (phs ! n) ev H w w' \<union> lp) w'"
proof (cases "(phs ! n, ev, w)" rule: joinMeshStep.cases)
  case (1 k parts granted w0)
  then have w: "w' = (if granted then w\<lparr>mw_live := mw_fresh w # mw_live w, mw_fresh := Suc (mw_fresh w)\<rparr> else w)"
    "ph = AwaitHandle k parts (if granted then Some (mw_fresh w) else None)" using assms(4) by auto
  have "ledger H (phs[n := ph]) lm lp w" by (rule ledger_phase[OF assms(1,2)]) (use 1 w(2) in simp_all)
  moreover have "mw_fresh w \<in> pending (phs[n := ph])" if granted
    using that w(2) assms(2) by (auto simp: pending_def intro!: bexI[of _ ph] set_update_memI)
  ultimately have "ledger H (phs[n := ph]) lm lp w'"
    unfolding w(1) by (auto simp: ledger_def pcs_of_def mics_of_def registered_def)
  moreover have "registered w' \<union> set lv = H" using assms(3) by (simp add: w(1) registered_def)
  ultimately show ?thesis using 1 by simp
next
  case (2 k parts mic ok w0)
  show ?thesis
  proof (cases ok)
    case False
    then have w: "w' = w" "ph = Refused" using assms(4) 2 by auto
    show ?thesis unfolding w assms(3)
      by (rule ledger_phase[OF assms(1,2)]) (use 2 False in auto)
  next
    case True
    then have step: "joinMeshStep (AwaitHandle k parts mic) (HandlerAnswer True) w = (ph, w')" using assms(4) 2 by simp
    from step_registered[OF step] obtain w1 where w1: "w1 = w\<lparr>mw_handler := Some (k, mic), mw_rooms := mw_rooms w @ [\<lparr>rm_id = k, rm_peers = [],
        rm_remoteAudio = [], rm_localStream = mic, rm_nextRequestId = 1\<rparr>], mw_registry := map_put k (length (mw_rooms w)) (mw_registry w)\<rparr>"
      "initiate (length (mw_rooms w)) parts w1 = (ph, w')" by blast
    have at: "phs ! n = AwaitHandle k parts mic" "ev = HandlerAnswer True" using 2 True by auto
    note l = ledger_registered[OF assms(1,2) at(1) assms(3) w1(1), of w']
    have "length (mw_rooms w) \<in> registered w1" by (simp add: w1(1) registered_def set_map_put)
    then show ?thesis
      using ledger_initiate[OF l _ _ _ w1(2), of n] assms(2) at(2) initiate_registry[OF w1(2)]
      by (simp add: w1(1))
  qed
next
  case (3 obj q rs sdp w0)
  then have at: "phs ! n = AwaitOffer obj q rs" by simp
  then have o: "obj < length (mw_rooms w)" using assms(1) nth_mem[OF assms(2)] by (force simp: ledger_def)
  have lost: "lost_mics (phs ! n) ev w \<union> lm = lm" "lost_pcs (phs ! n) ev H w w' = (if obj \<in> H then {} else set (mw_open w') - set (mw_open w))" "pending_mics (phs ! n) = {}"
    by (simp_all add: at)
  show ?thesis unfolding lost
  proof (cases sdp)
    case None
    then have "initiate obj rs w = (ph, w')" using assms(4) 3 by simp
    from ledger_initiate[OF assms(1,2) lost(3) o this] initiate_registry[OF this] assms(3)
    show "ledger (registered w' \<union> set lv) (phs[n := ph]) lm ((if obj \<in> H then {} else set (mw_open w') - set (mw_open w)) \<union> lp) w'" by simp
  next
    case (Some sd)
    then have w: "ph = AwaitSent obj q rs (Offer sd (rm_nextRequestId (mw_rooms w ! obj)))"
      "w' = set_room obj (\<lambda>m. m\<lparr>rm_nextRequestId := rm_nextRequestId m + 1\<rparr>) w" using assms(4) 3 by auto
    have "ledger H (phs[n := ph]) lm ((if obj \<in> H then {} else set (mw_open w') - set (mw_open w)) \<union> lp) w"
      by (rule ledger_phase[OF assms(1,2)]) (use lost(3) w(1) o in auto)
    then show "ledger (registered w' \<union> set lv) (phs[n := ph]) lm ((if obj \<in> H then {} else set (mw_open w') - set (mw_open w)) \<union> lp) w'"
      using assms(3) unfolding w(2) by (simp add: ledger_set_room)
  qed
next
  case (4 obj q rs env ok w0)
  then have at: "phs ! n = AwaitSent obj q rs env" by simp
  then have o: "obj < length (mw_rooms w)" using assms(1) nth_mem[OF assms(2)] by (force simp: ledger_def)
  have lost: "lost_mics (phs ! n) ev w \<union> lm = lm" "lost_pcs (phs ! n) ev H w w' = (if obj \<in> H then {} else set (mw_open w') - set (mw_open w))" "pending_mics (phs ! n) = {}"
    by (simp_all add: at)
  define w1 where "w1 = (if ok then w\<lparr>mw_sent := mw_sent w @ [(q, env)]\<rparr> else w)"
  have i: "initiate obj rs w1 = (ph, w')" using assms(4) 4 by (cases ok) (auto simp: w1_def)
  have w1: "ledger H phs lm lp w1" "obj < length (mw_rooms w1)" "mw_open w1 = mw_open w" "registered w1 = registered w"
    using assms(1) o by (simp_all add: w1_def)
  have l: "ledger H (phs[n := ph]) lm ((if obj \<in> H then {} else set (mw_open w') - set (mw_open w)) \<union> lp) w'"
    using ledger_initiate[OF w1(1) assms(2) lost(3) w1(2) i] by (simp only: w1(3))
  have "registered w' \<union> set lv = H" using initiate_registry[OF i] w1(4) assms(3) by simp
  then show ?thesis unfolding lost using l by (simp only:)
qed (use assms in \<open>auto simp: phase_kept\<close>)

lemma ledger_left:
  assumes "ledger H phs lm lp w" "obj \<notin> registered w"
  shows "ledger (H - {obj}) phs lm lp (leaveMeshFinish obj w)"
proof -
  let ?w = "leaveMeshFinish obj w"
  have f: "mw_registry ?w = mw_registry w" "registered ?w = registered w" "length (mw_rooms ?w) = length (mw_rooms w)"
    "set (mw_open ?w) = set (mw_open w) - room_pcs (mw_rooms w ! obj)"
    "set (mw_live ?w) = set (mw_live w) - set_option (rm_localStream (mw_rooms w ! obj))"
    by (auto simp: leaveMeshFinish_def Let_def room_pcs_def registered_def)
  have r: "room_pcs (mw_rooms ?w ! i) = room_pcs (mw_rooms w ! i)" "rm_localStream (mw_rooms ?w ! i) = rm_localStream (mw_rooms w ! i)" for i
    by (auto simp: leaveMeshFinish_def Let_def room_set_room room_pcs_def)
  have "peers_distinct ?w" using assms(1) by (auto simp: ledger_def leaveMeshFinish_def Let_def intro!: peers_distinct_set_room)
  moreover have "pcs_of H w \<subseteq> pcs_of (H - {obj}) ?w \<union> room_pcs (mw_rooms w ! obj)"
    "mics_of H w \<subseteq> mics_of (H - {obj}) ?w \<union> set_option (rm_localStream (mw_rooms w ! obj))"
    unfolding pcs_of_def mics_of_def r by blast+
  ultimately show ?thesis using assms unfolding ledger_def f by auto
qed

lemma ledger_heard:
  assumes "ledger H phs lm lp w"
  shows "ledger H phs lm lp (handleInbound remote msg answer ok w)"
proof -
  have lt: "obj < length (mw_rooms w) \<and> obj \<in> H" if "map_of (mw_registry w) k = Some obj" for k obj
    using assms map_of_SomeD[OF that] by (force simp: ledger_def registered_def)
  have bye: "ledger H phs lm lp (set_room obj (\<lambda>m. m\<lparr>rm_peers := map_drop remote (rm_peers m)\<rparr>) (w\<lparr>mw_open := filter (\<lambda>q. q \<noteq> pc_id p) (mw_open w)\<rparr>))"
    if "obj < length (mw_rooms w)" "map_of (rm_peers (mw_rooms w ! obj)) remote = Some p" for obj p
  proof -
    have d: "distinct (map fst (rm_peers (mw_rooms w ! obj)))" using assms that(1) by (simp add: ledger_def peers_distinct_def)
    have only: "e = (remote, p)" if "e \<in> set (rm_peers (mw_rooms w ! obj))" "fst e = remote" for e
      using that \<open>map_of _ remote = _\<close> map_of_is_SomeI[OF d, of remote "snd e"] by (metis option.inject prod.collapse)
    let ?w = "set_room obj (\<lambda>m. m\<lparr>rm_peers := map_drop remote (rm_peers m)\<rparr>) (w\<lparr>mw_open := filter (\<lambda>q. q \<noteq> pc_id p) (mw_open w)\<rparr>)"
    have "room_pcs (mw_rooms w ! i) \<subseteq> insert (pc_id p) (room_pcs (mw_rooms ?w ! i))" for i
      using only by (force simp: room_set_room room_pcs_def set_map_drop)
    then have "pcs_of H w \<subseteq> insert (pc_id p) (pcs_of H ?w)" unfolding pcs_of_def by blast
    moreover have "peers_distinct ?w" using assms by (intro peers_distinct_set_room) (simp_all add: ledger_def distinct_map_put_drop)
    ultimately show ?thesis using assms by (intro ledger_grow[OF assms]) (auto simp: room_set_room ledger_def)
  qed
  have offer: "ledger H phs lm lp (add_peer obj remote mic c w)"
    if "map_of (mw_registry w) k = Some obj" "map_of (rm_peers (mw_rooms w ! obj)) remote = None" for obj k mic c
    using ledger_add_peer[OF assms, of obj remote mic c] lt[OF that(1)] that(2) by (simp add: map_of_eq_None_iff)
  show ?thesis
    using assms bye offer lt
    by (auto simp: handleInbound_def Let_def split: option.splits SignalingMessage.splits)
qed

lemma heard_registry: "registered (handleInbound remote msg answer ok w) = registered w"
  by (simp add: handleInbound_def Let_def registered_def split: option.splits SignalingMessage.splits)

lemma answered_registers:
  assumes "joinMeshStep ph ev w = (ph', w')"
  shows "registered w' \<subseteq> insert (length (mw_rooms w)) (registered w)"
proof (cases "(ph, ev, w)" rule: joinMeshStep.cases)
  case (2 k parts mic ok w0)
  define w1 where "w1 = w\<lparr>mw_handler := Some (k, mic), mw_rooms := mw_rooms w @ [\<lparr>rm_id = k, rm_peers = [], rm_remoteAudio = [],
     rm_localStream = mic, rm_nextRequestId = 1\<rparr>], mw_registry := map_put k (length (mw_rooms w)) (mw_registry w)\<rparr>"
  have "registered w1 \<subseteq> insert (length (mw_rooms w)) (registered w)" by (auto simp: w1_def registered_def set_map_put)
  then show ?thesis using assms 2 initiate_registry[of "length (mw_rooms w)" parts w1 ph' w'] by (auto simp: Let_def w1_def split: if_splits)
next
  case (4 obj q rs env ok w0)
  then show ?thesis using assms initiate_registry by (cases ok) fastforce+
next
  case (3 obj q rs sdp w0)
  then show ?thesis using assms initiate_registry[of obj rs w ph' w'] by (cases sdp) auto
qed (use assms in \<open>auto simp: registered_def split: if_splits\<close>)

lemma ledger_do: "ledger_ok r \<Longrightarrow> ledger_ok (mesh_do act r)"
proof -
  assume r: "ledger_ok r"
  let ?w = "mr_world r"
  have l: "ledger (held r) (mr_joins r) (mr_lostMics r) (mr_lostPcs r) ?w" and d: "set (mr_leaving r) \<inter> registered ?w = {}"
    using r by (simp_all add: ledger_ok_def)
  show ?thesis
  proof (cases act)
    case (CallJoin k parts)
    have "ledger_ok (r\<lparr>mr_joins := mr_joins r @ [AwaitMedia k parts]\<rparr>)" using l d by (auto simp: ledger_ok_def held_def ledger_def pending_def)
    then show ?thesis using r CallJoin by (simp add: joinMeshStart_def)
  next
    case (AnswerJoin n ev)
    obtain ph w' where s: "joinMeshStep (mr_joins r ! n) ev ?w = (ph, w')" by fastforce
    show ?thesis
    proof (cases "n < length (mr_joins r)")
      case True
      have "length (mw_rooms ?w) \<notin> set (mr_leaving r)" using l by (auto simp: ledger_def held_def)
      then have "set (mr_leaving r) \<inter> registered w' = {}" using d answered_registers[OF s] by blast
      then show ?thesis using ledger_answered[OF l True _ s, of "mr_leaving r"] AnswerJoin True s by (simp add: held_def ledger_ok_def Let_def)
    next
      case False
      then show ?thesis using r AnswerJoin by simp
    qed
  next
    case (BeginLeave k)
    show ?thesis
    proof (cases "map_of (mw_registry ?w) k")
      case None
      then show ?thesis using r BeginLeave by (simp add: leaveMeshBegin_def)
    next
      case (Some obj)
      let ?w' = "?w\<lparr>mw_registry := map_drop k (mw_registry ?w)\<rparr>"
      have dist: "distinct (map fst (mw_registry ?w))" using l by (simp add: ledger_def)
      have "registered ?w \<subseteq> insert obj (registered ?w')"
      proof
        fix i
        assume "i \<in> registered ?w"
        then obtain k' where "(k', i) \<in> set (mw_registry ?w)" by (auto simp: registered_def)
        then show "i \<in> insert obj (registered ?w')"
          using Some map_of_is_SomeI[OF dist, of k' i] by (cases "k' = k") (force simp: registered_def set_map_drop)+
      qed
      moreover have "obj \<in> registered ?w" "registered ?w' \<subseteq> registered ?w" using map_of_SomeD[OF Some] by (force simp: registered_def set_map_drop)+
      ultimately have h: "insert obj (registered ?w' \<union> set (mr_leaving r)) = held r" by (auto simp: held_def)
      have "ledger (held r) (mr_joins r) (mr_lostMics r) (mr_lostPcs r) ?w'"
        using l \<open>registered ?w' \<subseteq> registered ?w\<close> distinct_map_put_drop(2)[OF dist, of k]
        by (auto simp: ledger_def pcs_of_def mics_of_def map_drop_def distinct_map_filter)
      moreover have "obj \<notin> registered ?w'"
      proof
        assume "obj \<in> registered ?w'"
        then obtain k' where k': "(k', obj) \<in> set (mw_registry ?w)" "k' \<noteq> k" by (auto simp: registered_def set_map_drop)
        have "inj_on snd (set (mw_registry ?w))" using l by (simp add: ledger_def distinct_map)
        then show False using inj_onD[of snd _ "(k', obj)" "(k, obj)"] k' map_of_SomeD[OF Some] by auto
      qed
      ultimately show ?thesis using BeginLeave Some h d \<open>registered ?w' \<subseteq> registered ?w\<close>
        by (auto simp: leaveMeshBegin_def ledger_ok_def held_def)
    qed
  next
    case (FinishLeave obj)
    show ?thesis
    proof (cases "obj \<in> set (mr_leaving r)")
      case True
      then have n: "obj \<notin> registered ?w" using d by blast
      have "registered (leaveMeshFinish obj ?w) = registered ?w" by (simp add: leaveMeshFinish_def Let_def registered_def)
      moreover have "held r - {obj} = registered ?w \<union> set (removeAll obj (mr_leaving r))" using n by (auto simp: held_def)
      ultimately show ?thesis using ledger_left[OF l n] FinishLeave True d by (auto simp: ledger_ok_def held_def)
    next
      case False
      then show ?thesis using r FinishLeave by simp
    qed
  next
    case (Hear remote msg answer ok)
    then show ?thesis using ledger_heard[OF l] d by (simp add: ledger_ok_def held_def heard_registry)
  next
    case (Track obj track stream)
    then show ?thesis using ledger_set_room[OF l] d by (simp add: onTrack_def ledger_ok_def held_def)
  next
    case (Candidate obj remote cand ok)
    then show ?thesis using l d by (simp add: onIceCandidate_def ledger_ok_def held_def Let_def split: option.splits)
  qed
qed

section \<open>Properties\<close>

text \<open>C5. When every room has been left, nothing stays on that could still be stopped: after any calls of join and leave, inbound
  messages, tracks and candidates, their awaits answered in any order, once no join and no leave is under way and no room is
  registered, the microphone streams that are live and the peer connections that are open are those of the ledger, which
  a join loses that the node refuses, that finds its room registered by another meanwhile, or whose room was left.\<close>
theorem left_mesh_releases_everything:
  assumes "r = fold mesh_do acts quietRun" and "list_all settled (mr_joins r)" and "mr_leaving r = []" and "mw_registry (mr_world r) = []"
  shows "set (mw_open (mr_world r)) \<subseteq> mr_lostPcs r \<and> set (mw_live (mr_world r)) \<subseteq> mr_lostMics r"
proof -
  have "ledger_ok x \<Longrightarrow> ledger_ok (fold mesh_do acts x)" for x
    by (induction acts arbitrary: x) (simp_all add: ledger_do)
  moreover have "ledger_ok quietRun"
    by (simp add: quietRun_def emptyMesh_def ledger_ok_def ledger_def held_def registered_def peers_distinct_def)
  ultimately have "ledger_ok r" using assms(1) by simp
  moreover have "pending (mr_joins r) = {}" using assms(2) settled_no_pending by (auto simp: pending_def list_all_iff)
  moreover have "held r = {}" using assms(3,4) by (simp add: held_def registered_def)
  ultimately show ?thesis by (simp add: ledger_ok_def ledger_def pcs_of_def mics_of_def)
qed

text \<open>Of a join that is accepted, alone with its room and not left before it is through, nothing gets into the ledger.\<close>
lemma orderly_join_loses_nothing:
  "lost_mics (AwaitHandle k parts mic) (HandlerAnswer True) w = {}" "lost_pcs (AwaitHandle k parts mic) (HandlerAnswer True) H w w' = {}"
    if "map_of (mw_registry w) k = None"
  using that by simp_all



definition all_answers :: MeshAnswers where
  "all_answers = \<lparr>ma_media = True, ma_handler = True, ma_offer = (\<lambda>r. Some r), ma_sent = (\<lambda>r. True)\<rparr>"

definition two_party :: MeshWorld where
  "two_party = snd (joinMesh all_answers ''room'' [''A'', ''B''] emptyMesh)"

lemma two_party_reach: "mesh_reach two_party"
proof -
  obtain ph where "joinMesh all_answers ''room'' [''A'', ''B''] emptyMesh = (ph, two_party)"
    by (simp add: two_party_def prod_eq_iff)
  then show ?thesis by (rule mesh_reach.joins[OF mesh_reach.init, rotated]) (simp add: all_answers_def)
qed

text \<open>Where every join is accepted and run through before anything else happens, nothing at all stays on.\<close>
lemma orderly_mesh_releases_everything:
  assumes "mesh_reach w" and "mw_registry w = []"
  shows "mw_open w = [] \<and> mw_live w = []"
  using mesh_reach_inv[OF assms(1)] assms(2)
  by (simp add: mesh_inv_def registered_def owned_pcs_def owned_mics_def)

text \<open>A call with one participant, a second room that the node refuses meanwhile, and the leave.\<close>
definition refused_second :: "mesh_act list" where
  "refused_second = [CallJoin ''room'' [''A''], AnswerJoin 0 (MediaAnswer True), AnswerJoin 0 (HandlerAnswer True), CallJoin ''second'' [],
     AnswerJoin 0 (OfferAnswer (Some ''sdp'')), AnswerJoin 1 (MediaAnswer True), AnswerJoin 0 (SentAnswer True), AnswerJoin 1 (HandlerAnswer False),
     BeginLeave ''room'', FinishLeave 0]"

lemma refused_second_ends:
  "mr_joins (fold mesh_do refused_second quietRun) = [Joined 0, Refused]" "mr_leaving (fold mesh_do refused_second quietRun) = []"
  "mw_registry (mr_world (fold mesh_do refused_second quietRun)) = []" "mr_lostPcs (fold mesh_do refused_second quietRun) = {}"
  "mr_lostMics (fold mesh_do refused_second quietRun) = {2}" "mw_live (mr_world (fold mesh_do refused_second quietRun)) = [2]"
  "mw_open (mr_world (fold mesh_do (take 9 refused_second) quietRun)) = [1]"
  by (simp_all add: refused_second_def quietRun_def emptyMesh_def joinMeshStart_def add_peer_def createPeerConnection_def set_room_def
    Let_def map_put_def map_drop_def leaveMeshBegin_def leaveMeshFinish_def held_def registered_def)

theorem left_mesh_releases_everything_witness:
  "mw_open (mr_world (fold mesh_do (take 9 refused_second) quietRun)) = [1] \<and> mw_open (mr_world (fold mesh_do refused_second quietRun)) = []
    \<and> set (mw_live (mr_world (fold mesh_do refused_second quietRun))) \<subseteq> {2}"
proof -
  have "list_all settled (mr_joins (fold mesh_do refused_second quietRun))" by (simp add: refused_second_ends(1))
  from left_mesh_releases_everything[OF refl this refused_second_ends(2,3)] show ?thesis
    by (simp only: refused_second_ends(4,5,7)) simp
qed

text \<open>A signalling message within the 1 MiB cap reaches the remote handler as it was, however the stream
  is cut up.\<close>
theorem signaling_roundtrip:
  assumes "sendSignaling msg = ([Send framed, CloseStream], True)" and "concat chunks = framed"
  shows "\<exists>body. readEnvelope chunks = Inr body \<and> parse_body body = Inr (signaling_json msg)"
proof -
  define body where "body = utf8_encode (stringify (signaling_json msg))"
  have l: "length body \<le> MESH_MAX_ENVELOPE_BYTES" "framed = mesh_frameEnvelope body"
    using assms(1) by (auto simp: sendSignaling_def Let_def body_def split: if_splits)
  have "readEnvelope chunks = Inr body"
    by (rule mesh_channel.read_frame[where rest = "[]"]) (use l assms(2) in simp_all)
  moreover have "json_ok (signaling_json msg)" by (cases msg) auto
  ultimately show ?thesis by (auto simp: body_def parse_body_encoded)
qed

theorem signaling_roundtrip_witness:
  "\<exists>framed. sendSignaling (Bye 3) = ([Send framed, CloseStream], True)
    \<and> (\<exists>body. readEnvelope (map (\<lambda>b. [b]) framed) = Inr body \<and> parse_body body = Inr (signaling_json (Bye 3)))"
proof -
  have "length (utf8_encode (stringify (signaling_json (Bye 3)))) \<le> 100" by code_simp
  then have "\<not> MESH_MAX_ENVELOPE_BYTES < length (utf8_encode (stringify (signaling_json (Bye 3))))"
    by (simp add: MESH_MAX_ENVELOPE_BYTES_def)
  then obtain framed where f: "sendSignaling (Bye 3) = ([Send framed, CloseStream], True)"
    unfolding sendSignaling_def Let_def by (simp only: if_False)
  have "concat (map (\<lambda>b. [b]) framed) = framed" by (simp add: concat_map_singleton)
  from f signaling_roundtrip[OF f this] show ?thesis by blast
qed

text \<open>When the node refuses the signalling handler (it has one already: a second room), the join fails but the
  microphone it opened stays on, in no room that could be left to stop it.\<close>
theorem refused_join_keeps_microphone:
  assumes "ma_media a" and "\<not> ma_handler a" and "map_of (mw_registry w) roomId = None"
  shows "\<exists>w'. joinMesh a roomId parts w = (Refused, w') \<and> mw_live w' = mw_fresh w # mw_live w
    \<and> mw_registry w' = mw_registry w \<and> mw_rooms w' = mw_rooms w"
  using assms by (simp add: joinMesh_def joinMeshStart_def runJoinMesh.simps)

theorem refused_join_keeps_microphone_witness:
  "\<exists>w'. joinMesh (all_answers\<lparr>ma_handler := False\<rparr>) ''second'' [] two_party = (Refused, w')
    \<and> mw_live w' = mw_fresh two_party # mw_live two_party
    \<and> mw_registry w' = mw_registry two_party \<and> mw_rooms w' = mw_rooms two_party"
proof (rule refused_join_keeps_microphone)
  show "map_of (mw_registry two_party) ''second'' = None" by code_simp
qed (simp_all add: all_answers_def)

text \<open>A join that is still offering when its room is left goes on: it opens the next participant's connection
  in the room that is no longer registered, where no leave will close it.\<close>
theorem join_goes_on_after_leave:
  assumes "map_of (mw_registry w) roomId = Some obj" and "mesh_inv {} w"
    and "s \<notin> fst ` set (rm_peers (mw_rooms w ! obj))"
  shows "let w1 = leaveMesh roomId w; w2 = snd (joinMeshStep (AwaitOffer obj r (s # rs)) (OfferAnswer None) w1)
    in mw_open w2 = mw_fresh w1 # mw_open w1 \<and> map_of (mw_registry w2) roomId = None"
proof -
  have r: "rm_peers (mw_rooms (leaveMesh roomId w) ! obj) = rm_peers (mw_rooms w ! obj)"
    using assms(1) by (simp add: leaveMesh_def leaveMeshBegin_def leaveMeshFinish_def Let_def room_set_room)
  have "map_of (mw_registry (leaveMesh roomId w)) roomId = None"
    using assms(1) by (simp add: leaveMesh_def leaveMeshBegin_def leaveMeshFinish_def Let_def map_of_eq_None_iff set_map_drop)
      force
  then show ?thesis using assms(3) unfolding Let_def by (simp add: r)
qed

theorem join_goes_on_after_leave_witness:
  "let w1 = leaveMesh ''room'' two_party;
       w2 = snd (joinMeshStep (AwaitOffer 0 ''B'' [''C'']) (OfferAnswer None) w1)
   in mw_open w2 = mw_fresh w1 # mw_open w1 \<and> map_of (mw_registry w2) ''room'' = None"
proof (rule join_goes_on_after_leave)
  show "mesh_inv {} two_party" using mesh_reach_inv[OF two_party_reach] by blast
  show "map_of (mw_registry two_party) ''room'' = Some 0" by code_simp
  have "set (map fst (rm_peers (mw_rooms two_party ! 0))) = {''A'', ''B''}" by code_simp
  then show "''C'' \<notin> fst ` set (rm_peers (mw_rooms two_party ! 0))"
    by simp
qed

text \<open>The candidates of an offered connection do not carry the offer's request id: once the offer's message is
  made, a candidate reads the counter the offer has already moved on.\<close>
lemma candidate_id_is_not_the_offers:
  assumes "map_of (rm_peers (mw_rooms w ! obj)) r = Some pc" and "pc_candidate_id pc = None" and "obj < length (mw_rooms w)"
  shows "\<exists>n. fst (joinMeshStep (AwaitOffer obj r rs) (OfferAnswer (Some sdp)) w) = AwaitSent obj r rs (Offer sdp n)
    \<and> last (mw_sent (onIceCandidate obj r c True (snd (joinMeshStep (AwaitOffer obj r rs) (OfferAnswer (Some sdp)) w))))
        = (r, IceCandidate c (n + 1))"
  using assms by (simp add: onIceCandidate_def room_set_room)

end
