(* ===== verification/Peers.thy ===== *)
theory Peers
  imports PeerCard Storage
begin

text \<open>
  The paired peers: the browser's peer list in the local storage (\<open>stores/peerStoreBrowser.ts\<close>), the
  normalisation of what the native backend answers (\<open>api/peerStore.ts\<close>), and the store the views read
  (\<open>stores/peerStore.ts\<close>), whose browser operations go to the former and whose native ones await the latter.

  The specification of the list is a partial map from peer ids to peers; the operations on the stored JSON
  text are shown to refine it. Dates are ISO texts passed in.
\<close>

datatype PeerSource = Qr | Deeplink | MatrixRoomCard | Dht

record KnownPeer =
  kp_peerId :: str
  kp_publicKeyHex :: str
  kp_multiaddrs :: "str list"
  kp_source :: PeerSource
  kp_firstSeen :: str
  kp_lastSeen :: str
  kp_accessGranted :: bool
  kp_lastAccessGrantAt :: "str option"

section \<open>The native backend's answers\<close>

text \<open>\<open>parseSource\<close>: an unknown variant is the least trusted source.\<close>
definition parseSource :: "str \<Rightarrow> PeerSource" where
  "parseSource raw = (if raw = ''Qr'' then Qr else if raw = ''Deeplink'' then Deeplink
     else if raw = ''MatrixRoom'' then MatrixRoomCard else Dht)"

record RawKnownPeer =
  raw_peerId :: str
  raw_publicKeyHex :: str
  raw_multiaddrs :: "str list"
  raw_source :: str
  raw_firstSeen :: str
  raw_lastSeen :: str
  raw_accessGranted :: "bool option"
  raw_lastAccessGrantAt :: "str option"

definition fromRaw :: "RawKnownPeer \<Rightarrow> KnownPeer" where
  "fromRaw raw = \<lparr>kp_peerId = raw_peerId raw, kp_publicKeyHex = raw_publicKeyHex raw,
     kp_multiaddrs = raw_multiaddrs raw, kp_source = parseSource (raw_source raw),
     kp_firstSeen = raw_firstSeen raw, kp_lastSeen = raw_lastSeen raw,
     kp_accessGranted = (case raw_accessGranted raw of None \<Rightarrow> True | Some b \<Rightarrow> b),
     kp_lastAccessGrantAt = raw_lastAccessGrantAt raw\<rparr>"

section \<open>The list in the local storage\<close>

definition BROWSER_PEER_STORE_KEY :: str where
  "BROWSER_PEER_STORE_KEY = ''concord:browser:peer-store''"

text \<open>The storage of the runtime: absent, or there with its items; \<open>be_denied\<close> is the message a write throws.\<close>
record BrowserEnv =
  be_storage :: "local_storage option"
  be_denied :: "str option"

fun source_text :: "PeerSource \<Rightarrow> str" where
  "source_text Qr = ''qr''" | "source_text Deeplink = ''deeplink''"
| "source_text MatrixRoomCard = ''matrix_room''" | "source_text Dht = ''dht''"

definition source_of :: "str \<Rightarrow> PeerSource option" where
  "source_of s = (if s = ''qr'' then Some Qr else if s = ''deeplink'' then Some Deeplink
     else if s = ''matrix_room'' then Some MatrixRoomCard else if s = ''dht'' then Some Dht else None)"

definition peer_json :: "KnownPeer \<Rightarrow> json" where
  "peer_json p = JObj [(''peerId'', JStr (kp_peerId p)), (''publicKeyHex'', JStr (kp_publicKeyHex p)),
     (''multiaddrs'', JArr (map JStr (kp_multiaddrs p))), (''source'', JStr (source_text (kp_source p))),
     (''firstSeen'', JStr (kp_firstSeen p)), (''lastSeen'', JStr (kp_lastSeen p)),
     (''accessGranted'', JBool (kp_accessGranted p)),
     (''lastAccessGrantAt'', (case kp_lastAccessGrantAt p of None \<Rightarrow> JNull | Some t \<Rightarrow> JStr t))]"

definition envelope_json :: "KnownPeer list \<Rightarrow> json" where
  "envelope_json ps = JObj [(''version'', JNum 1), (''peers'', JArr (map peer_json ps))]"

text \<open>One entry of the stored list: rebuilt field by field, skipped when a required field is not there.\<close>
definition read_peer :: "json \<Rightarrow> KnownPeer option" where
  "read_peer e =
    (case (as_str (jget e ''peerId''), as_str (jget e ''publicKeyHex''), as_arr (jget e ''multiaddrs''),
           as_str (jget e ''source''), as_str (jget e ''firstSeen''), as_str (jget e ''lastSeen'')) of
       (Some i, Some k, Some addrs, Some src, Some f, Some l) \<Rightarrow>
         (case source_of src of None \<Rightarrow> None
          | Some source \<Rightarrow> Some \<lparr>kp_peerId = i, kp_publicKeyHex = k, kp_multiaddrs = List.map_filter nonempty_string addrs,
              kp_source = source, kp_firstSeen = f, kp_lastSeen = l,
              kp_accessGranted = (case as_bool (jget e ''accessGranted'') of None \<Rightarrow> True | Some b \<Rightarrow> b),
              kp_lastAccessGrantAt = as_str (jget e ''lastAccessGrantAt'')\<rparr>)
     | _ \<Rightarrow> None)"

definition listBrowserPeers :: "BrowserEnv \<Rightarrow> KnownPeer list" where
  "listBrowserPeers env = (case be_storage env of None \<Rightarrow> []
     | Some s \<Rightarrow> (case getItem s BROWSER_PEER_STORE_KEY of None \<Rightarrow> []
       | Some raw \<Rightarrow> if raw = [] then [] else (case json_parse raw of None \<Rightarrow> []
         | Some parsed \<Rightarrow> (case as_arr (jget parsed ''peers'') of None \<Rightarrow> []
           | Some entries \<Rightarrow> List.map_filter read_peer entries))))"

definition persistBrowserPeers :: "KnownPeer list \<Rightarrow> BrowserEnv \<Rightarrow> str option \<times> BrowserEnv" where
  "persistBrowserPeers ps env = (case be_storage env of
     None \<Rightarrow> (Some ''browser storage is unavailable in this environment'', env)
   | Some s \<Rightarrow> (case be_denied env of
       Some msg \<Rightarrow> (Some (''couldn'' @ CHR 0x27 # ''t persist peers to browser storage: '' @ msg), env)
     | None \<Rightarrow> (None, env\<lparr>be_storage := Some (setItem BROWSER_PEER_STORE_KEY (stringify (envelope_json ps)) s)\<rparr>)))"

text \<open>\<open>const write = persist(peers); if (!write.ok) return write; return \<lbrace> ok: true, value \<rbrace>\<close>\<close>
definition saving :: "KnownPeer list \<Rightarrow> 'a \<Rightarrow> BrowserEnv \<Rightarrow> (str + 'a) \<times> BrowserEnv" where
  "saving ps v env = (case persistBrowserPeers ps env of (Some e, env') \<Rightarrow> (Inl e, env') | (None, env') \<Rightarrow> (Inr v, env'))"

definition merge_addrs :: "str list \<Rightarrow> str list \<Rightarrow> str list" where
  "merge_addrs old new = foldl (\<lambda>m a. if a \<in> set m then m else m @ [a]) old new"

definition addBrowserPeerFromCard :: "peer_card \<Rightarrow> PeerSource \<Rightarrow> str \<Rightarrow> BrowserEnv \<Rightarrow> (str + KnownPeer) \<times> BrowserEnv" where
  "addBrowserPeerFromCard c source nowIso env =
    (if peerId c = [] then (Inl ''peerId missing or empty'', env)
     else if length (publicKeyHex c) \<noteq> 64 \<or> \<not> list_all is_hex_digit (publicKeyHex c)
       then (Inl ''publicKeyHex must be 64 hex chars'', env)
     else if multiaddrs c = [] then (Inl ''multiaddrs must be non-empty'', env)
     else let existing = listBrowserPeers env in
       case find_index (\<lambda>p. kp_peerId p = peerId c) existing of
         Some i \<Rightarrow>
           let prior = existing ! i;
               updated = prior\<lparr>kp_multiaddrs := merge_addrs (kp_multiaddrs prior) (multiaddrs c), kp_lastSeen := nowIso\<rparr>
           in saving (existing[i := updated]) updated env
       | None \<Rightarrow>
           let updated = \<lparr>kp_peerId = peerId c, kp_publicKeyHex = publicKeyHex c, kp_multiaddrs = multiaddrs c,
                 kp_source = source, kp_firstSeen = nowIso, kp_lastSeen = nowIso, kp_accessGranted = True,
                 kp_lastAccessGrantAt = Some nowIso\<rparr>
           in saving (existing @ [updated]) updated env)"

definition removeBrowserPeer :: "str \<Rightarrow> BrowserEnv \<Rightarrow> (str + bool) \<times> BrowserEnv" where
  "removeBrowserPeer i env =
    (let existing = listBrowserPeers env; remaining = drop_by kp_peerId i existing
     in if length remaining = length existing then (Inr False, env) else saving remaining True env)"

definition revokeBrowserPeerAccess :: "str \<Rightarrow> BrowserEnv \<Rightarrow> (str + KnownPeer option) \<times> BrowserEnv" where
  "revokeBrowserPeerAccess i env =
    (let existing = listBrowserPeers env in
     case find_index (\<lambda>p. kp_peerId p = i) existing of None \<Rightarrow> (Inr None, env)
     | Some n \<Rightarrow> let updated = (existing ! n)\<lparr>kp_accessGranted := False\<rparr>
         in saving (existing[n := updated]) (Some updated) env)"

definition grantBrowserPeerAccess :: "str \<Rightarrow> str \<Rightarrow> BrowserEnv \<Rightarrow> (str + KnownPeer option) \<times> BrowserEnv" where
  "grantBrowserPeerAccess i nowIso env =
    (let existing = listBrowserPeers env in
     case find_index (\<lambda>p. kp_peerId p = i) existing of None \<Rightarrow> (Inr None, env)
     | Some n \<Rightarrow> let updated = (existing ! n)\<lparr>kp_accessGranted := True, kp_lastAccessGrantAt := Some nowIso\<rparr>
         in saving (existing[n := updated]) (Some updated) env)"

section \<open>The store\<close>

record PeerStoreState =
  ps_knownPeers :: "KnownPeer list"
  ps_isLoading :: bool
  ps_error :: "str option"

definition loadBrowser :: "BrowserEnv \<Rightarrow> PeerStoreState \<Rightarrow> PeerStoreState" where
  "loadBrowser env st = st\<lparr>ps_knownPeers := listBrowserPeers env, ps_isLoading := False, ps_error := None\<rparr>"

definition addFromCardBrowser ::
    "peer_card \<Rightarrow> PeerSource \<Rightarrow> str \<Rightarrow> BrowserEnv \<times> PeerStoreState \<Rightarrow> KnownPeer option \<times> BrowserEnv \<times> PeerStoreState" where
  "addFromCardBrowser c source nowIso w = (case addBrowserPeerFromCard c source nowIso (fst w) of
     (Inl e, env) \<Rightarrow> (None, env, (snd w)\<lparr>ps_error := Some e\<rparr>)
   | (Inr p, env) \<Rightarrow> (Some p, env, (snd w)\<lparr>ps_knownPeers := listBrowserPeers env, ps_error := None\<rparr>))"

text \<open>The tail \<open>revokeAccess\<close> and \<open>grantAccess\<close> share: the row with the id is replaced by the answer.\<close>
definition mirrorRow :: "str \<Rightarrow> str + KnownPeer option \<Rightarrow> PeerStoreState \<Rightarrow> PeerStoreState" where
  "mirrorRow i answer st = (case answer of
     Inl e \<Rightarrow> st\<lparr>ps_error := Some e\<rparr>
   | Inr None \<Rightarrow> st
   | Inr (Some p) \<Rightarrow> st\<lparr>ps_knownPeers := map (\<lambda>q. if kp_peerId q = i then p else q) (ps_knownPeers st), ps_error := None\<rparr>)"

definition revokeAccessBrowser :: "str \<Rightarrow> BrowserEnv \<times> PeerStoreState \<Rightarrow> BrowserEnv \<times> PeerStoreState" where
  "revokeAccessBrowser i w = (case revokeBrowserPeerAccess i (fst w) of (a, env) \<Rightarrow> (env, mirrorRow i a (snd w)))"

definition grantAccessBrowser :: "str \<Rightarrow> str \<Rightarrow> BrowserEnv \<times> PeerStoreState \<Rightarrow> BrowserEnv \<times> PeerStoreState" where
  "grantAccessBrowser i nowIso w = (case grantBrowserPeerAccess i nowIso (fst w) of (a, env) \<Rightarrow> (env, mirrorRow i a (snd w)))"

definition removeBrowser :: "str \<Rightarrow> BrowserEnv \<times> PeerStoreState \<Rightarrow> BrowserEnv \<times> PeerStoreState" where
  "removeBrowser i w = (case removeBrowserPeer i (fst w) of
     (Inl e, env) \<Rightarrow> (env, (snd w)\<lparr>ps_error := Some e\<rparr>)
   | (Inr removed, env) \<Rightarrow> (env, if removed
       then (snd w)\<lparr>ps_knownPeers := drop_by kp_peerId i (ps_knownPeers (snd w)), ps_error := None\<rparr> else snd w))"

text \<open>The native operations: what is set before the backend is asked, and what its answer does.\<close>
definition loadNativeBegin :: "PeerStoreState \<Rightarrow> PeerStoreState" where
  "loadNativeBegin st = st\<lparr>ps_isLoading := True, ps_error := None\<rparr>"

definition loadNativeDone :: "str + RawKnownPeer list \<Rightarrow> PeerStoreState \<Rightarrow> PeerStoreState" where
  "loadNativeDone answer st = (case answer of
     Inl e \<Rightarrow> st\<lparr>ps_isLoading := False, ps_error := Some e\<rparr>
   | Inr raw \<Rightarrow> st\<lparr>ps_knownPeers := map fromRaw raw, ps_isLoading := False, ps_error := None\<rparr>)"

text \<open>A native add awaits a reload when it succeeds.\<close>
definition addFromCardNativeDone :: "str + RawKnownPeer \<Rightarrow> PeerStoreState \<Rightarrow> PeerStoreState" where
  "addFromCardNativeDone answer st = (case answer of
     Inl e \<Rightarrow> st\<lparr>ps_error := Some e\<rparr> | Inr raw \<Rightarrow> loadNativeBegin st)"

definition accessNativeDone :: "str \<Rightarrow> str + RawKnownPeer option \<Rightarrow> PeerStoreState \<Rightarrow> PeerStoreState" where
  "accessNativeDone i answer st = mirrorRow i (map_sum id (map_option fromRaw) answer) st"

definition removeNativeDone :: "str \<Rightarrow> str + bool \<Rightarrow> PeerStoreState \<Rightarrow> PeerStoreState" where
  "removeNativeDone i answer st = (case answer of
     Inl e \<Rightarrow> st\<lparr>ps_error := Some e\<rparr>
   | Inr removed \<Rightarrow> if removed then st\<lparr>ps_knownPeers := drop_by kp_peerId i (ps_knownPeers st)\<rparr> else st)"

text \<open>The \<open>peer_paired_error\<close> listener.\<close>
definition onPairedError :: "str option \<Rightarrow> str option \<Rightarrow> PeerStoreState \<Rightarrow> PeerStoreState" where
  "onPairedError stage message st = st\<lparr>ps_error := Some ((case stage of None \<Rightarrow> ''unknown'' | Some s \<Rightarrow> s) @ '': '' @
     (case message of None \<Rightarrow> ''peer-paired error'' | Some m \<Rightarrow> m))\<rparr>"

section \<open>What is written is what is listed\<close>

definition clean :: "KnownPeer \<Rightarrow> KnownPeer" where
  "clean p = p\<lparr>kp_multiaddrs := filter (\<lambda>a. a \<noteq> []) (kp_multiaddrs p)\<rparr>"

lemma clean_id [simp]: "kp_peerId (clean p) = kp_peerId p"
  by (simp add: clean_def)

lemma map_filter_nonempty: "List.map_filter nonempty_string (map JStr as) = filter (\<lambda>a. a \<noteq> []) as"
  by (induction as) (auto simp: List.map_filter_def)

lemma source_of_text [simp]: "source_of (source_text src) = Some src"
  by (cases src) (simp_all add: source_of_def)

lemma read_peer_json: "read_peer (peer_json p) = Some (clean p)"
  by (simp add: read_peer_def peer_json_def clean_def map_filter_nonempty split: option.splits)

lemma map_filter_read: "List.map_filter read_peer (map peer_json ps) = map clean ps"
  by (induction ps) (simp_all add: List.map_filter_def read_peer_json)

lemma envelope_ok: "json_ok (envelope_json ps)"
  by (auto simp: envelope_json_def peer_json_def split: option.splits)

definition writable :: "BrowserEnv \<Rightarrow> bool" where
  "writable env = (be_storage env \<noteq> None \<and> be_denied env = None)"

lemma saving_lists:
  assumes "writable env"
  obtains env' where "saving ps v env = (Inr v, env')" "listBrowserPeers env' = map clean ps" "writable env'"
proof -
  obtain s where s: "be_storage env = Some s" "be_denied env = None" using assms by (auto simp: writable_def)
  define env' where "env' = env\<lparr>be_storage := Some (setItem BROWSER_PEER_STORE_KEY (stringify (envelope_json ps)) s)\<rparr>"
  have "stringify (envelope_json ps) \<noteq> []" using stringify_length[of "envelope_json ps"] by auto
  moreover have "as_arr (jget (envelope_json ps) ''peers'') = Some (map peer_json ps)" by (simp add: envelope_json_def)
  ultimately have "listBrowserPeers env' = map clean ps"
    by (simp add: listBrowserPeers_def env'_def getItem_setItem parse_stringify envelope_ok map_filter_read del: as_arr_Some)
  moreover have "saving ps v env = (Inr v, env')" using s by (simp add: saving_def persistBrowserPeers_def env'_def)
  ultimately show thesis using that s by (simp add: env'_def writable_def)
qed

lemma saving_denied: "\<not> writable env \<Longrightarrow> \<exists>e. saving ps v env = (Inl e, env)"
  by (cases "be_storage env"; cases "be_denied env") (auto simp: saving_def persistBrowserPeers_def writable_def)

lemma listed_clean: "p \<in> set (listBrowserPeers env) \<Longrightarrow> clean p = p"
proof -
  have "a \<in> set (List.map_filter nonempty_string xs) \<Longrightarrow> a \<noteq> []" for a xs
    by (auto simp: List.map_filter_def)
  then have "read_peer e = Some p \<Longrightarrow> clean p = p" for e p
    by (auto simp: read_peer_def clean_def filter_id_conv split: option.splits)
  moreover have "listBrowserPeers env = [] \<or> (\<exists>es. listBrowserPeers env = List.map_filter read_peer es)"
    unfolding listBrowserPeers_def by (fastforce split: option.split)
  ultimately show "p \<in> set (listBrowserPeers env) \<Longrightarrow> clean p = p"
    by (auto simp: List.map_filter_def)
qed

lemma map_clean_listed: "map clean (listBrowserPeers env) = listBrowserPeers env"
  by (rule map_idI) (rule listed_clean)

section \<open>Replacing the first row with a key\<close>

lemma find_by_update:
  assumes "find_index (\<lambda>x. key x = k) xs = Some n" "key y = k"
  shows "find_by key k' (xs[n := y]) = (if k' = k then Some y else find_by key k' xs)"
  using assms
proof (induction xs arbitrary: n)
  case (Cons x xs)
  then show ?case by (cases "key x = k") (auto split: if_splits)
qed simp

lemma find_by_index:
  "find_by key k xs = map_option (\<lambda>n. xs ! n) (find_index (\<lambda>x. key x = k) xs)"
  by (induction xs) (auto simp: option.map_comp comp_def)

lemma keys_update_index:
  assumes "find_index (\<lambda>x. key x = k) xs = Some n" "key y = k"
  shows "map key (xs[n := y]) = map key xs"
  using find_index_Some[OF assms(1)] assms(2) by (metis list_update_id map_update)

lemma update_index_distinct:
  assumes "find_index (\<lambda>x. key x = k) xs = Some n" "key y = k" "distinct (map key xs)"
  shows "xs[n := y] = map (\<lambda>q. if key q = k then y else q) xs"
proof (rule nth_equalityI)
  fix i assume "i < length (xs[n := y])"
  then show "xs[n := y] ! i = map (\<lambda>q. if key q = k then y else q) xs ! i"
    using find_index_Some[OF assms(1)] assms(3) nth_eq_iff_index_eq[OF assms(3), of i n]
    by (auto simp: nth_list_update)
qed simp

section \<open>The specification: a map of peers\<close>

datatype PeerOp =
    AddPeer peer_card PeerSource str
  | RemovePeer str
  | RevokePeer str
  | GrantPeer str str

fun run_op :: "PeerOp \<Rightarrow> BrowserEnv \<Rightarrow> BrowserEnv" where
  "run_op (AddPeer c src now) env = snd (addBrowserPeerFromCard c src now env)"
| "run_op (RemovePeer i) env = snd (removeBrowserPeer i env)"
| "run_op (RevokePeer i) env = snd (revokeBrowserPeerAccess i env)"
| "run_op (GrantPeer i now) env = snd (grantBrowserPeerAccess i now env)"

definition peer_map :: "BrowserEnv \<Rightarrow> str \<Rightarrow> KnownPeer option" where
  "peer_map env i = find_by kp_peerId i (listBrowserPeers env)"

definition card_fits :: "peer_card \<Rightarrow> bool" where
  "card_fits c = (peerId c \<noteq> [] \<and> length (publicKeyHex c) = 64 \<and> list_all is_hex_digit (publicKeyHex c) \<and> multiaddrs c \<noteq> [])"

text \<open>A pairing keeps what is known of the peer and adds addresses; a new peer has access.\<close>
definition paired :: "peer_card \<Rightarrow> PeerSource \<Rightarrow> str \<Rightarrow> KnownPeer option \<Rightarrow> KnownPeer" where
  "paired c src now prior = (case prior of
     Some p \<Rightarrow> p\<lparr>kp_multiaddrs := merge_addrs (kp_multiaddrs p) (multiaddrs c), kp_lastSeen := now\<rparr>
   | None \<Rightarrow> \<lparr>kp_peerId = peerId c, kp_publicKeyHex = publicKeyHex c, kp_multiaddrs = multiaddrs c,
       kp_source = src, kp_firstSeen = now, kp_lastSeen = now, kp_accessGranted = True, kp_lastAccessGrantAt = Some now\<rparr>)"

fun spec_op :: "PeerOp \<Rightarrow> (str \<Rightarrow> KnownPeer option) \<Rightarrow> str \<Rightarrow> KnownPeer option" where
  "spec_op (AddPeer c src now) m =
     (if card_fits c then m(peerId c := Some (clean (paired c src now (m (peerId c))))) else m)"
| "spec_op (RemovePeer i) m = m(i := None)"
| "spec_op (RevokePeer i) m = m(i := map_option (\<lambda>p. p\<lparr>kp_accessGranted := False\<rparr>) (m i))"
| "spec_op (GrantPeer i now) m =
     m(i := map_option (\<lambda>p. p\<lparr>kp_accessGranted := True, kp_lastAccessGrantAt := Some now\<rparr>) (m i))"

lemma map_clean_update: "map clean ((listBrowserPeers env)[n := p]) = (listBrowserPeers env)[n := clean p]"
  by (simp add: map_update map_clean_listed)

lemma peer_map_update:
  assumes "writable env" "find_index (\<lambda>p. kp_peerId p = i) (listBrowserPeers env) = Some n" "kp_peerId p = i"
  shows "peer_map (snd (saving ((listBrowserPeers env)[n := p]) v env)) = (peer_map env)(i := Some (clean p))"
proof -
  obtain env' where e: "saving ((listBrowserPeers env)[n := p]) v env = (Inr v, env')"
    "listBrowserPeers env' = map clean ((listBrowserPeers env)[n := p])"
    using saving_lists[OF assms(1)] by metis
  show ?thesis using find_by_update[OF assms(2), of "clean p"] assms(3)
    by (auto simp: e peer_map_def map_clean_update fun_eq_iff)
qed

lemma peer_map_at: "find_index (\<lambda>p. kp_peerId p = i) (listBrowserPeers env) = Some n \<Longrightarrow>
    peer_map env i = Some (listBrowserPeers env ! n) \<and> kp_peerId (listBrowserPeers env ! n) = i
    \<and> clean (listBrowserPeers env ! n) = listBrowserPeers env ! n"
  using find_index_Some[of _ "listBrowserPeers env" n] listed_clean[of "listBrowserPeers env ! n" env]
  by (auto simp: peer_map_def find_by_index)

lemma peer_map_absent: "find_index (\<lambda>p. kp_peerId p = i) (listBrowserPeers env) = None \<Longrightarrow> peer_map env i = None"
  by (simp add: peer_map_def find_by_index)

lemma add_absent:
  assumes "card_fits c" "find_index (\<lambda>p. kp_peerId p = peerId c) (listBrowserPeers env) = None"
    and "new = paired c src now None"
  shows "addBrowserPeerFromCard c src now env = saving (listBrowserPeers env @ [new]) new env \<and> kp_peerId new = peerId c"
  using assms by (simp add: addBrowserPeerFromCard_def card_fits_def Let_def paired_def)

lemma add_present:
  assumes "card_fits c" "find_index (\<lambda>p. kp_peerId p = peerId c) (listBrowserPeers env) = Some n"
    and "new = paired c src now (peer_map env (peerId c))"
  shows "addBrowserPeerFromCard c src now env = saving ((listBrowserPeers env)[n := new]) new env \<and> kp_peerId new = peerId c"
  using assms peer_map_at[OF assms(2)] by (simp add: addBrowserPeerFromCard_def card_fits_def Let_def paired_def)

lemma run_op_add:
  assumes "writable env" "card_fits c"
  shows "fst (addBrowserPeerFromCard c src now env) = Inr (paired c src now (peer_map env (peerId c)))
    \<and> peer_map (snd (addBrowserPeerFromCard c src now env))
        = (peer_map env)(peerId c := Some (clean (paired c src now (peer_map env (peerId c)))))"
proof (cases "find_index (\<lambda>p. kp_peerId p = peerId c) (listBrowserPeers env)")
  case None
  define new where "new = paired c src now None"
  have new: "kp_peerId new = peerId c" and a: "addBrowserPeerFromCard c src now env = saving (listBrowserPeers env @ [new]) new env"
    using add_absent[OF assms(2) None new_def] by simp_all
  obtain env' where e: "saving (listBrowserPeers env @ [new]) new env = (Inr new, env')"
    "listBrowserPeers env' = map clean (listBrowserPeers env @ [new])"
    using saving_lists[OF assms(1)] by metis
  have "peer_map env' = (peer_map env)(peerId c := Some (clean new))"
    using peer_map_absent[OF None] new
    by (auto simp: fun_eq_iff peer_map_def e(2) map_clean_listed find_by_append split: option.splits)
  then show ?thesis unfolding a e(1) using peer_map_absent[OF None] by (simp add: new_def)
next
  case (Some n)
  define new where "new = paired c src now (peer_map env (peerId c))"
  have new: "kp_peerId new = peerId c" and a: "addBrowserPeerFromCard c src now env = saving ((listBrowserPeers env)[n := new]) new env"
    using add_present[OF assms(2) Some new_def] by simp_all
  obtain env' where "saving ((listBrowserPeers env)[n := new]) new env = (Inr new, env')"
    using saving_lists[OF assms(1)] by metis
  then show ?thesis using peer_map_update[OF assms(1) Some new, of new] by (simp add: a new_def[symmetric])
qed

lemma run_op_remove:
  assumes "writable env"
  shows "peer_map (snd (removeBrowserPeer i env)) = (peer_map env)(i := None)"
proof (cases "length (drop_by kp_peerId i (listBrowserPeers env)) = length (listBrowserPeers env)")
  case True
  then have "drop_by kp_peerId i (listBrowserPeers env) = listBrowserPeers env"
    unfolding drop_by_def by (metis filter_id_conv length_filter_less less_irrefl)
  then have "peer_map env i = None" unfolding peer_map_def using find_by_drop_by[of kp_peerId i i "listBrowserPeers env"] by simp
  then show ?thesis using True by (simp add: removeBrowserPeer_def Let_def fun_upd_idem)
next
  case False
  obtain env' where e: "saving (drop_by kp_peerId i (listBrowserPeers env)) True env = (Inr True, env')"
    "listBrowserPeers env' = map clean (drop_by kp_peerId i (listBrowserPeers env))"
    using saving_lists[OF assms(1)] by metis
  have "listBrowserPeers env' = drop_by kp_peerId i (listBrowserPeers env)"
    unfolding e(2) by (rule map_idI) (auto simp: set_drop_by listed_clean)
  then show ?thesis using False e(1)
    by (auto simp: removeBrowserPeer_def Let_def peer_map_def find_by_drop_by fun_eq_iff)
qed

lemma run_op_access:
  assumes "writable env"
  shows "peer_map (snd (revokeBrowserPeerAccess i env))
      = (peer_map env)(i := map_option (\<lambda>p. p\<lparr>kp_accessGranted := False\<rparr>) (peer_map env i))"
    and "peer_map (snd (grantBrowserPeerAccess i now env))
      = (peer_map env)(i := map_option (\<lambda>p. p\<lparr>kp_accessGranted := True, kp_lastAccessGrantAt := Some now\<rparr>) (peer_map env i))"
proof -
  have same: "clean p = p \<Longrightarrow> clean (p\<lparr>kp_accessGranted := b\<rparr>) = p\<lparr>kp_accessGranted := b\<rparr>"
    "clean p = p \<Longrightarrow> clean (p\<lparr>kp_accessGranted := b, kp_lastAccessGrantAt := t\<rparr>) = p\<lparr>kp_accessGranted := b, kp_lastAccessGrantAt := t\<rparr>"
    for p b t by (cases p; simp add: clean_def)+
  show "peer_map (snd (revokeBrowserPeerAccess i env))
      = (peer_map env)(i := map_option (\<lambda>p. p\<lparr>kp_accessGranted := False\<rparr>) (peer_map env i))"
    "peer_map (snd (grantBrowserPeerAccess i now env))
      = (peer_map env)(i := map_option (\<lambda>p. p\<lparr>kp_accessGranted := True, kp_lastAccessGrantAt := Some now\<rparr>) (peer_map env i))"
    by (cases "find_index (\<lambda>p. kp_peerId p = i) (listBrowserPeers env)";
        simp add: revokeBrowserPeerAccess_def grantBrowserPeerAccess_def Let_def peer_map_absent fun_upd_idem
          peer_map_at same peer_map_update[OF assms])+
qed

lemma add_rejected: "\<not> card_fits c \<Longrightarrow> \<exists>e. addBrowserPeerFromCard c src now env = (Inl e, env)"
  by (auto simp: addBrowserPeerFromCard_def card_fits_def)

section \<open>The view's copy\<close>

text \<open>The browser operations in any order, with writes being denied and allowed again in between.\<close>
inductive peers_reach :: "BrowserEnv \<times> PeerStoreState \<Rightarrow> bool" where
  loaded: "distinct (map kp_peerId (listBrowserPeers env)) \<Longrightarrow> peers_reach (env, loadBrowser env st)"
| adds: "peers_reach w \<Longrightarrow> peers_reach (snd (addFromCardBrowser c src now w))"
| revokes: "peers_reach w \<Longrightarrow> peers_reach (revokeAccessBrowser i w)"
| grants: "peers_reach w \<Longrightarrow> peers_reach (grantAccessBrowser i now w)"
| removes: "peers_reach w \<Longrightarrow> peers_reach (removeBrowser i w)"
| quota: "peers_reach (env, st) \<Longrightarrow> peers_reach (env\<lparr>be_denied := d\<rparr>, st)"

definition mirrors :: "BrowserEnv \<times> PeerStoreState \<Rightarrow> bool" where
  "mirrors w = (ps_knownPeers (snd w) = listBrowserPeers (fst w) \<and> distinct (map kp_peerId (listBrowserPeers (fst w))))"

lemma saving_cases:
  obtains e where "saving ps v env = (Inl e, env)"
    | env' where "saving ps v env = (Inr v, env')" "listBrowserPeers env' = map clean ps"
  using saving_lists[of env ps v] saving_denied[of env ps v] by metis

lemma clean_access:
  "clean p = p \<Longrightarrow> clean (p\<lparr>kp_accessGranted := b\<rparr>) = p\<lparr>kp_accessGranted := b\<rparr>"
  "clean p = p \<Longrightarrow> clean (p\<lparr>kp_accessGranted := b, kp_lastAccessGrantAt := t\<rparr>) = p\<lparr>kp_accessGranted := b, kp_lastAccessGrantAt := t\<rparr>"
  by (cases p; simp add: clean_def)+

lemma mirrors_row:
  assumes "mirrors (env, st)" "find_index (\<lambda>p. kp_peerId p = i) (listBrowserPeers env) = Some n"
    and "kp_peerId p = i" "clean p = p"
    and "saving ((listBrowserPeers env)[n := p]) (Some p) env = (a, env')"
  shows "mirrors (env', mirrorRow i a st)"
proof -
  have d: "distinct (map kp_peerId (listBrowserPeers env))" "ps_knownPeers st = listBrowserPeers env"
    using assms(1) by (simp_all add: mirrors_def)
  show ?thesis
  proof (cases rule: saving_cases[of "(listBrowserPeers env)[n := p]" "Some p" env])
    case (1 e)
    then have "a = Inl e" "env' = env" using assms(5) by simp_all
    then show ?thesis using d by (simp add: mirrors_def mirrorRow_def)
  next
    case (2 env2)
    then have a: "a = Inr (Some p)" "env' = env2" using assms(5) by simp_all
    have l: "listBrowserPeers env' = (listBrowserPeers env)[n := p]"
      using 2(2) assms(4) by (simp only: a map_clean_update)
    have "distinct (map kp_peerId (listBrowserPeers env'))"
      unfolding l keys_update_index[OF assms(2,3)] by (rule d(1))
    moreover have "ps_knownPeers (mirrorRow i a st) = listBrowserPeers env'"
      unfolding l update_index_distinct[OF assms(2,3) d(1)] by (simp add: a(1) mirrorRow_def d(2))
    ultimately show ?thesis by (simp add: mirrors_def)
  qed
qed

lemma mirrors_revoke: "mirrors w \<Longrightarrow> mirrors (revokeAccessBrowser i w)"
proof (cases "find_index (\<lambda>p. kp_peerId p = i) (listBrowserPeers (fst w))")
  case None
  then show "mirrors w \<Longrightarrow> ?thesis"
    by (simp add: revokeAccessBrowser_def revokeBrowserPeerAccess_def mirrorRow_def)
next
  case (Some n)
  assume m: "mirrors w"
  define p where "p = (listBrowserPeers (fst w) ! n)\<lparr>kp_accessGranted := False\<rparr>"
  have p: "kp_peerId p = i" "clean p = p" using peer_map_at[OF Some] by (simp_all add: p_def clean_access)
  obtain a env' where sv: "saving ((listBrowserPeers (fst w))[n := p]) (Some p) (fst w) = (a, env')" by force
  have "revokeAccessBrowser i w = (env', mirrorRow i a (snd w))"
    using Some sv by (simp add: revokeAccessBrowser_def revokeBrowserPeerAccess_def p_def)
  then show ?thesis using mirrors_row[of "fst w" "snd w", OF _ Some p sv] m by simp
qed

lemma mirrors_grant: "mirrors w \<Longrightarrow> mirrors (grantAccessBrowser i now w)"
proof (cases "find_index (\<lambda>p. kp_peerId p = i) (listBrowserPeers (fst w))")
  case None
  then show "mirrors w \<Longrightarrow> ?thesis"
    by (simp add: grantAccessBrowser_def grantBrowserPeerAccess_def mirrorRow_def)
next
  case (Some n)
  assume m: "mirrors w"
  define p where "p = (listBrowserPeers (fst w) ! n)\<lparr>kp_accessGranted := True, kp_lastAccessGrantAt := Some now\<rparr>"
  have p: "kp_peerId p = i" "clean p = p" using peer_map_at[OF Some] by (simp_all add: p_def clean_access)
  obtain a env' where sv: "saving ((listBrowserPeers (fst w))[n := p]) (Some p) (fst w) = (a, env')" by force
  have "grantAccessBrowser i now w = (env', mirrorRow i a (snd w))"
    using Some sv by (simp add: grantAccessBrowser_def grantBrowserPeerAccess_def p_def)
  then show ?thesis using mirrors_row[of "fst w" "snd w", OF _ Some p sv] m by simp
qed

lemma mirrors_remove: "mirrors w \<Longrightarrow> mirrors (removeBrowser i w)"
proof -
  assume m: "mirrors w"
  define env where "env = fst w"
  define rest where "rest = drop_by kp_peerId i (listBrowserPeers env)"
  have cl: "map clean rest = rest" by (rule map_idI) (auto simp: rest_def set_drop_by listed_clean)
  have d: "distinct (map kp_peerId (listBrowserPeers env))" "ps_knownPeers (snd w) = listBrowserPeers env"
    using m by (simp_all add: mirrors_def env_def)
  have r: "removeBrowserPeer i env = (if length rest = length (listBrowserPeers env) then (Inr False, env) else saving rest True env)"
    by (simp add: removeBrowserPeer_def Let_def rest_def)
  show ?thesis
  proof (cases "length rest = length (listBrowserPeers env)")
    case True
    then have "removeBrowser i w = w" using r by (simp add: removeBrowser_def env_def[symmetric]) (simp add: env_def)
    then show ?thesis using m by simp
  next
    case False
    show ?thesis
    proof (cases rule: saving_cases[of rest True env])
      case (1 e)
      then have "removeBrowser i w = (env, (snd w)\<lparr>ps_error := Some e\<rparr>)"
        using False r by (simp add: removeBrowser_def env_def[symmetric])
      then show ?thesis using d by (simp add: mirrors_def)
    next
      case (2 env')
      then have "removeBrowser i w = (env', (snd w)\<lparr>ps_knownPeers := rest, ps_error := None\<rparr>)"
        using False r d(2) by (simp add: removeBrowser_def env_def[symmetric] rest_def)
      moreover have "distinct (map kp_peerId rest)" unfolding rest_def by (rule distinct_keys_drop_by[OF d(1)])
      ultimately show ?thesis using 2(2) cl by (simp add: mirrors_def)
    qed
  qed
qed

lemma mirrors_add: "mirrors w \<Longrightarrow> mirrors (snd (addFromCardBrowser c src now w))"
proof -
  assume m: "mirrors w"
  define env where "env = fst w"
  have d: "distinct (map kp_peerId (listBrowserPeers env))" "ps_knownPeers (snd w) = listBrowserPeers env"
    using m by (simp_all add: mirrors_def env_def)
  obtain a env' where ad: "addBrowserPeerFromCard c src now env = (a, env')" by force
  have "(\<exists>e. a = Inl e \<and> env' = env) \<or> (\<exists>p. a = Inr p \<and> distinct (map kp_peerId (listBrowserPeers env')))"
  proof (cases "card_fits c")
    case False
    then show ?thesis using add_rejected[OF False, of src now env] ad by auto
  next
    case True
    show ?thesis
    proof (cases "find_index (\<lambda>p. kp_peerId p = peerId c) (listBrowserPeers env)")
      case None
      then have fresh: "peerId c \<notin> kp_peerId ` set (listBrowserPeers env)" by (auto simp: find_index_None)
      obtain new where n: "kp_peerId new = peerId c"
        "addBrowserPeerFromCard c src now env = saving (listBrowserPeers env @ [new]) new env"
        using add_absent[OF True None refl] by metis
      then show ?thesis using ad fresh d(1)
        by (cases rule: saving_cases[of "listBrowserPeers env @ [new]" new env]) (auto simp: map_clean_listed)
    next
      case (Some n)
      obtain new where n: "kp_peerId new = peerId c"
        "addBrowserPeerFromCard c src now env = saving ((listBrowserPeers env)[n := new]) new env"
        using add_present[OF True Some refl] by metis
      have k: "map kp_peerId ((listBrowserPeers env)[n := clean new]) = map kp_peerId (listBrowserPeers env)"
        by (rule keys_update_index[OF Some]) (simp add: n)
      show ?thesis using ad n d(1) k
        by (cases rule: saving_cases[of "(listBrowserPeers env)[n := new]" new env]) (auto simp: map_clean_update simp del: map_update)
    qed
  qed
  then show ?thesis using d by (auto simp: addFromCardBrowser_def ad env_def[symmetric] mirrors_def)
qed

lemma listed_denied [simp]: "listBrowserPeers (env\<lparr>be_denied := d\<rparr>) = listBrowserPeers env"
  by (simp add: listBrowserPeers_def)

lemma peers_reach_mirrors: "peers_reach w \<Longrightarrow> mirrors w"
proof (induction rule: peers_reach.induct)
  case (loaded env st)
  then show ?case by (simp add: mirrors_def loadBrowser_def)
next
  case (quota env st d)
  then show ?case by (simp add: mirrors_def)
qed (simp_all add: mirrors_add mirrors_revoke mirrors_grant mirrors_remove)

section \<open>Properties\<close>

text \<open>C14. While the storage takes writes, the operations on the stored text are the operations on a map of
  peers: pairing adds or merges, removing forgets, revoking and granting flip the one flag, and no other
  peer changes.\<close>
theorem browser_peers_refine_map:
  assumes "writable env"
  shows "peer_map (run_op oper env) = spec_op oper (peer_map env)"
proof (cases oper)
  case (AddPeer c src now)
  show ?thesis
  proof (cases "card_fits c")
    case False
    then obtain e where "addBrowserPeerFromCard c src now env = (Inl e, env)" using add_rejected by blast
    then show ?thesis using False AddPeer by simp
  qed (use run_op_add[OF assms] AddPeer in simp)
qed (simp_all add: run_op_remove[OF assms] run_op_access[OF assms])

definition sample_card :: peer_card where
  "sample_card = \<lparr>peerId = ''12D3'', publicKeyHex = replicate 64 CHR ''a'', multiaddrs = [''/ip4/10.0.0.1'', []]\<rparr>"

theorem browser_peers_refine_map_witness:
  "map_option kp_multiaddrs (peer_map (run_op (AddPeer sample_card Qr ''t'') \<lparr>be_storage = Some [], be_denied = None\<rparr>) ''12D3'')
    = Some [''/ip4/10.0.0.1'']"
proof -
  have "writable \<lparr>be_storage = Some [], be_denied = None\<rparr>" by (simp add: writable_def)
  moreover have "map_option kp_multiaddrs (spec_op (AddPeer sample_card Qr ''t'') (peer_map \<lparr>be_storage = Some [], be_denied = None\<rparr>) ''12D3'')
      = Some [''/ip4/10.0.0.1'']"
    by code_simp
  ultimately show ?thesis by (simp only: browser_peers_refine_map)
qed

text \<open>When the storage is absent or refuses the write, no operation changes anything, and a pairing reports it.\<close>
theorem denied_write_changes_nothing:
  assumes "\<not> writable env"
  shows "run_op oper env = env \<and> (\<exists>e. fst (addBrowserPeerFromCard c src now env) = Inl e)"
proof -
  have s1: "snd (saving ps v env) = env" for ps and v :: KnownPeer
    using saving_denied[OF assms, of ps v] by auto
  have s2: "snd (saving ps v env) = env" for ps and v :: bool
    using saving_denied[OF assms, of ps v] by auto
  have s3: "snd (saving ps v env) = env" for ps and v :: "KnownPeer option"
    using saving_denied[OF assms, of ps v] by auto
  have s4: "\<exists>e. fst (saving ps v env) = Inl e" for ps and v :: KnownPeer
    using saving_denied[OF assms, of ps v] by auto
  have a: "snd (addBrowserPeerFromCard c src now env) = env \<and> (\<exists>e. fst (addBrowserPeerFromCard c src now env) = Inl e)"
    for c src now
    by (auto simp: addBrowserPeerFromCard_def Let_def s1 s4 split: option.splits)
  show ?thesis using a by (cases oper)
      (auto simp: removeBrowserPeer_def revokeBrowserPeerAccess_def grantBrowserPeerAccess_def Let_def s2 s3 split: option.splits)
qed

theorem denied_write_changes_nothing_witness:
  "run_op (AddPeer sample_card Qr ''t'') \<lparr>be_storage = None, be_denied = None\<rparr> = \<lparr>be_storage = None, be_denied = None\<rparr>"
  using denied_write_changes_nothing[of "\<lparr>be_storage = None, be_denied = None\<rparr>" "AddPeer sample_card Qr ''t''"]
  by (simp add: writable_def)

text \<open>What the views show is what is stored: after any sequence of browser operations, writes denied in
  between included, the store's copy equals the stored list and no peer is listed twice.\<close>
theorem peer_store_mirrors_storage:
  assumes "peers_reach w"
  shows "ps_knownPeers (snd w) = listBrowserPeers (fst w) \<and> distinct (map kp_peerId (ps_knownPeers (snd w)))"
  using peers_reach_mirrors[OF assms] by (simp add: mirrors_def)

definition empty_peers :: "BrowserEnv \<times> PeerStoreState" where
  "empty_peers = (\<lparr>be_storage = Some [], be_denied = None\<rparr>,
     loadBrowser \<lparr>be_storage = Some [], be_denied = None\<rparr> \<lparr>ps_knownPeers = [], ps_isLoading = True, ps_error = None\<rparr>)"

theorem peer_store_mirrors_storage_witness:
  "ps_knownPeers (snd (removeBrowser ''x'' (snd (addFromCardBrowser sample_card Qr ''t'' empty_peers))))
    = listBrowserPeers (fst (removeBrowser ''x'' (snd (addFromCardBrowser sample_card Qr ''t'' empty_peers))))"
proof -
  have "peers_reach empty_peers" unfolding empty_peers_def by (rule peers_reach.loaded) code_simp
  then have "peers_reach (removeBrowser ''x'' (snd (addFromCardBrowser sample_card Qr ''t'' empty_peers)))"
    by (intro peers_reach.removes peers_reach.adds)
  from peer_store_mirrors_storage[OF this] show ?thesis by (rule conjunct1)
qed

end
