(* ===== verification/Fingerprint.thy ===== *)
theory Fingerprint
  imports Codec
begin

text \<open>
  The short identity of \<open>libp2p/fingerprint.ts\<close>: hexadecimal decoding with \<open>parseInt\<close>, the base32
  encoder over a 32-bit shift register, and the fingerprint of a public key. SHA-256 is the browser's: the
  parameter \<open>digest\<close>.

  The encoder's specification is on bits: the input as one bit string, cut into groups of five from the
  most significant end, the last group filled with zeros.
\<close>

section \<open>Hexadecimal\<close>

text \<open>\<open>parseInt(s, 16)\<close>: leading white space, a sign, a \<open>0x\<close> prefix, then as many digits as there are; NaN
  (\<^const>\<open>None\<close>) without a digit.\<close>
definition parseInt16 :: "str \<Rightarrow> int option" where
  "parseInt16 s0 =
    (let s1 = dropWhile is_space s0;
         neg = (s1 \<noteq> [] \<and> hd s1 = CHR ''-'');
         s2 = (if s1 \<noteq> [] \<and> (hd s1 = CHR ''-'' \<or> hd s1 = CHR ''+'') then tl s1 else s1);
         s3 = (if starts_with ''0x'' s2 \<or> starts_with ''0X'' s2 then drop 2 s2 else s2);
         ds = takeWhile is_hex_digit s3
     in if ds = [] then None
        else let n = int (foldl (\<lambda>n d. n * 16 + (case hex_value d of None \<Rightarrow> 0 | Some v \<Rightarrow> v)) 0 ds)
          in Some (if neg then - n else n))"

fun hex_pairs :: "str \<Rightarrow> bytes option" where
  "hex_pairs (a # b # r) = (case parseInt16 [a, b] of None \<Rightarrow> None
     | Some n \<Rightarrow> map_option (\<lambda>bs. word_of_int n # bs) (hex_pairs r))"
| "hex_pairs _ = Some []"

definition hexToBytes :: "str \<Rightarrow> str + bytes" where
  "hexToBytes hex = (if length hex mod 2 \<noteq> 0 then Inl ''hex must have even length''
     else case hex_pairs hex of None \<Rightarrow> Inl ''hex contains non-hex characters'' | Some bs \<Rightarrow> Inr bs)"

section \<open>Base32\<close>

definition ALPHABET :: str where
  "ALPHABET = ''ABCDEFGHIJKLMNOPQRSTUVWXYZ234567''"

text \<open>JavaScript's bitwise operators work on signed 32-bit integers.\<close>
definition alphabet_at :: "32 word \<Rightarrow> char" where
  "alphabet_at w = ALPHABET ! unat (and w 31)"

text \<open>\<open>while (bits >= 5)\<close>: the characters it appends and the bits left.\<close>
function emit_groups :: "32 word \<Rightarrow> nat \<Rightarrow> str \<times> nat" where
  "emit_groups buffer bits = (if 5 \<le> bits
     then let (s, rest) = emit_groups buffer (bits - 5) in (alphabet_at (signed_drop_bit (bits - 5) buffer) # s, rest)
     else ([], bits))"
  by pat_completeness auto
termination by (relation "measure snd") auto

declare emit_groups.simps [simp del]

fun base32_loop :: "bytes \<Rightarrow> 32 word \<Rightarrow> nat \<Rightarrow> str" where
  "base32_loop [] buffer bits = (if 0 < bits then [alphabet_at (push_bit (5 - bits) buffer)] else [])"
| "base32_loop (b # input) buffer bits =
     (let buffer = or (push_bit 8 buffer) (ucast b);
          (s, bits) = emit_groups buffer (bits + 8)
      in s @ base32_loop input buffer bits)"

definition base32NopadUpper :: "bytes \<Rightarrow> str" where
  "base32NopadUpper input = base32_loop input 0 0"

definition FINGERPRINT_LEN :: nat where
  "FINGERPRINT_LEN = 16"

definition fingerprintForHex :: "(bytes \<Rightarrow> bytes) \<Rightarrow> str \<Rightarrow> str + str" where
  "fingerprintForHex digest publicKeyHex =
    (if length publicKeyHex \<noteq> 64
     then Inl (''publicKeyHex must be 64 hex chars (got '' @ nat_text (length publicKeyHex) @ '')'')
     else case hexToBytes publicKeyHex of Inl e \<Rightarrow> Inl e
     | Inr bytes \<Rightarrow> Inr (take FINGERPRINT_LEN (base32NopadUpper (digest bytes))))"

section \<open>Bit strings\<close>

definition bits_value :: "bool list \<Rightarrow> nat" where
  "bits_value bs = foldl (\<lambda>n b. 2 * n + of_bool b) 0 bs"

lemma bits_value_foldl: "foldl (\<lambda>n b. 2 * n + of_bool b) m bs = m * 2 ^ length bs + bits_value bs"
proof (induction bs arbitrary: m)
  case (Cons b bs)
  show ?case unfolding bits_value_def foldl.simps Cons[of "2 * m + of_bool b"] Cons[of "2 * 0 + of_bool b"]
    by (simp add: algebra_simps)
qed (simp add: bits_value_def)

lemma bits_value_append: "bits_value (xs @ ys) = bits_value xs * 2 ^ length ys + bits_value ys"
  unfolding bits_value_def foldl_append by (simp only: bits_value_foldl bits_value_def[symmetric])

lemma bits_value_snoc: "bits_value (xs @ [b]) = 2 * bits_value xs + of_bool b"
  by (simp add: bits_value_def)

lemma bits_value_zeros [simp]: "bits_value (replicate k False) = 0"
  by (induction k) (simp_all add: bits_value_def)

lemma bits_value_less: "bits_value bs < 2 ^ length bs"
proof (induction bs rule: rev_induct)
  case (snoc b bs)
  then show ?case by (cases b) (simp_all add: bits_value_snoc)
qed (simp add: bits_value_def)

lemma bits_value_inject: "length xs = length ys \<Longrightarrow> bits_value xs = bits_value ys \<Longrightarrow> xs = ys"
proof (induction xs arbitrary: ys rule: rev_induct)
  case (snoc b xs)
  then obtain ys' c where ys: "ys = ys' @ [c]" by (metis append_butlast_last_id length_0_conv length_append_singleton nat.distinct(1))
  have "2 * bits_value xs + of_bool b = 2 * bits_value ys' + of_bool c" using snoc.prems ys by (simp add: bits_value_snoc)
  then have "bits_value xs = bits_value ys' \<and> b = c" by (cases b; cases c) (simp_all, presburger+)
  then show ?case using snoc ys by simp
qed simp

definition byte_bits :: "byte \<Rightarrow> bool list" where
  "byte_bits b = map (\<lambda>i. bit b (7 - i)) [0..<8]"

lemma length_byte_bits [simp]: "length (byte_bits b) = 8"
  by (simp add: byte_bits_def)

lemma bits_value_Cons: "bits_value (b # bs) = of_bool b * 2 ^ length bs + bits_value bs"
  using bits_value_append[of "[b]" bs] by (simp add: bits_value_def)

lemma bits_value_bits: "bits_value (map (\<lambda>i. bit a (k - 1 - i)) [0..<k]) = take_bit k (a :: nat)"
proof (induction k)
  case (Suc k)
  have "map (\<lambda>i. bit a (Suc k - 1 - i)) [0..<Suc k] = bit a k # map (\<lambda>i. bit a (k - 1 - i)) [0..<k]"
    by (simp add: upt_conv_Cons map_Suc_upt[symmetric] del: upt_Suc)
  then show ?case using Suc by (simp add: bits_value_Cons take_bit_Suc_from_most ac_simps)
qed (simp add: bits_value_def)

lemma bits_value_byte: "bits_value (byte_bits b) = unat b"
proof -
  have "byte_bits b = map (\<lambda>i. bit (unat b) (8 - 1 - i)) [0..<8]"
    by (simp add: byte_bits_def bit_unsigned_iff)
  then have "bits_value (byte_bits b) = take_bit 8 (unat b)" by (simp only: bits_value_bits)
  moreover have "unat b < 256" using unsigned_less[of b] by simp
  ultimately show ?thesis by (simp add: take_bit_eq_mod)
qed

text \<open>The reference encoder.\<close>
function base32_bits :: "bool list \<Rightarrow> str" where
  "base32_bits bs = (if bs = [] then []
     else if length bs < 5 then [ALPHABET ! bits_value (bs @ replicate (5 - length bs) False)]
     else ALPHABET ! bits_value (take 5 bs) # base32_bits (drop 5 bs))"
  by pat_completeness auto
termination by (relation "measure length") auto

declare base32_bits.simps [simp del]

lemma unat_low5: "unat (take_bit 5 (w :: 32 word)) = unat w mod 32"
proof -
  have "unat (take_bit 5 w) = take_bit 5 (unat w)" by (rule unsigned_take_bit_eq)
  then show ?thesis by (simp only: take_bit_eq_mod) simp
qed

lemma alphabet_at_value: "unat w mod 32 = v \<Longrightarrow> alphabet_at w = ALPHABET ! v"
proof -
  have "and w 31 = take_bit 5 w" by (simp add: take_bit_eq_mask mask_eq_exp_minus_1)
  then show "unat w mod 32 = v \<Longrightarrow> ?thesis" by (simp only: alphabet_at_def unat_low5)
qed

lemma shifted_mod: "k \<le> 27 \<Longrightarrow> unat (signed_drop_bit k (w :: 32 word)) mod 32 = unat w div 2 ^ k mod 32"
proof -
  assume k: "k \<le> 27"
  have "take_bit 5 (signed_drop_bit k w) = take_bit 5 (drop_bit k w)"
    by (rule bit_word_eqI) (use k in \<open>auto simp: bit_simps\<close>)
  then have "unat (take_bit 5 (signed_drop_bit k w)) = unat (take_bit 5 (drop_bit k w))" by simp
  then show ?thesis by (simp only: unat_low5 unat_drop_bit_eq) (simp add: drop_bit_eq_div)
qed

text \<open>\<open>holds bs w\<close>: the pending bits are the low bits of the register, whatever is above them.\<close>
definition holds :: "bool list \<Rightarrow> 32 word \<Rightarrow> bool" where
  "holds bs w = (unat w mod 2 ^ length bs = bits_value bs)"

lemma emit_one:
  assumes "holds bs w" "5 \<le> length bs" "length bs \<le> 32"
  shows "alphabet_at (signed_drop_bit (length bs - 5) w) = ALPHABET ! bits_value (take 5 bs)" "holds (drop 5 bs) w"
proof -
  define k where "k = length bs - 5"
  have l: "length bs = k + 5" "k \<le> 27" using assms by (simp_all add: k_def)
  have v: "bits_value bs = bits_value (take 5 bs) * 2 ^ k + bits_value (drop 5 bs)"
    using bits_value_append[of "take 5 bs" "drop 5 bs"] by (simp add: k_def)
  have lt: "bits_value (drop 5 bs) < 2 ^ k" using bits_value_less[of "drop 5 bs"] by (simp add: k_def)
  have h: "unat w mod (2 ^ k * 32) = bits_value bs" using assms(1) by (simp add: holds_def l power_add)
  have "unat w div 2 ^ k mod 32 = unat w mod (2 ^ k * 32) div 2 ^ k" by (simp add: mod_mult2_eq)
  also have "\<dots> = bits_value (take 5 bs)" unfolding h v using lt by simp
  finally have "unat (signed_drop_bit k w) mod 32 = bits_value (take 5 bs)" using shifted_mod[OF l(2)] by simp
  then show "alphabet_at (signed_drop_bit (length bs - 5) w) = ALPHABET ! bits_value (take 5 bs)"
    unfolding k_def by (rule alphabet_at_value)
  have "unat w mod 2 ^ k = unat w mod (2 ^ k * 32) mod 2 ^ k" by (simp add: mod_mult2_eq)
  also have "\<dots> = bits_value (drop 5 bs)" unfolding h v using lt by simp
  finally show "holds (drop 5 bs) w" by (simp add: holds_def k_def)
qed

lemma emit_groups_bits:
  "holds bs w \<Longrightarrow> length bs \<le> 32 \<Longrightarrow> emit_groups w (length bs) = (s, n) \<Longrightarrow>
     \<exists>rest. n = length rest \<and> n < 5 \<and> holds rest w \<and> (\<forall>more. base32_bits (bs @ more) = s @ base32_bits (rest @ more))"
proof (induction bs arbitrary: s rule: measure_induct_rule[of length])
  case (less bs)
  show ?case
  proof (cases "5 \<le> length bs")
    case False
    then have "s = [] \<and> n = length bs" using less.prems(3) by (simp add: emit_groups.simps[of w "length bs"])
    then show ?thesis using False less.prems(1) by (intro exI[of _ bs]) simp
  next
    case True
    obtain s' where s': "emit_groups w (length (drop 5 bs)) = (s', n)"
      "s = alphabet_at (signed_drop_bit (length bs - 5) w) # s'"
      using less.prems(3) True by (auto simp: emit_groups.simps[of w "length bs"] split: prod.splits)
    have sub: "length (drop 5 bs) < length bs" "length (drop 5 bs) \<le> 32" using True less.prems(2) by auto
    obtain rest where r: "n = length rest" "n < 5" "holds rest w"
      "\<forall>more. base32_bits (drop 5 bs @ more) = s' @ base32_bits (rest @ more)"
      using less.IH[OF sub(1) emit_one(2)[OF less.prems(1) True less.prems(2)] sub(2) s'(1)] by blast
    have "base32_bits (bs @ more) = s @ base32_bits (rest @ more)" for more
      using True r(4) by (subst base32_bits.simps) (auto simp: s'(2) emit_one(1)[OF less.prems(1) True less.prems(2)])
    then show ?thesis using r by blast
  qed
qed

lemma holds_shift: "holds bs w \<Longrightarrow> length bs \<le> 24 \<Longrightarrow> holds (bs @ byte_bits b) (or (push_bit 8 w) (ucast b))"
proof -
  assume h: "holds bs w" and l: "length bs \<le> 24"
  define k where "k = length bs"
  have b: "unat b < 256" using unsigned_less[of b] by simp
  have "or (push_bit 8 w) (ucast b) = push_bit 8 w + (ucast b :: 32 word)"
    by (rule disjunctive_add[symmetric]) (auto simp: bit_simps dest: bit_imp_le_length)
  moreover have "unat (push_bit 8 w) = (unat w * 256) mod 2 ^ 32"
    by (simp only: unsigned_push_bit_eq) (simp add: take_bit_eq_mod push_bit_eq_mult)
  moreover have "unat (ucast b :: 32 word) = unat b"
    using b by (simp only: unsigned_ucast_eq) (simp add: take_bit_eq_mod)
  ultimately have u: "unat (or (push_bit 8 w) (ucast b)) = (unat w * 256 + unat b) mod 2 ^ 32"
    by (simp add: unat_word_ariths mod_simps)
  have "2 ^ (k + 8) dvd (2 ^ 32 :: nat)" using l by (intro le_imp_power_dvd) (simp add: k_def)
  then have "unat (or (push_bit 8 w) (ucast b)) mod 2 ^ (k + 8) = (unat w * 256 + unat b) mod 2 ^ (k + 8)"
    unfolding u by (simp add: mod_mod_cancel)
  also have "\<dots> = unat w mod 2 ^ k * 256 + unat b"
    using b by (simp add: power_add mult.commute[of _ "256::nat"] mod_mult2_eq)
  also have "\<dots> = bits_value (bs @ byte_bits b)" using h by (simp add: holds_def k_def bits_value_append bits_value_byte)
  finally show ?thesis by (simp add: holds_def k_def)
qed

lemma base32_loop_bits:
  "holds bs w \<Longrightarrow> length bs < 5 \<Longrightarrow> base32_loop input w (length bs) = base32_bits (bs @ concat (map byte_bits input))"
proof (induction input arbitrary: bs w)
  case Nil
  show ?case
  proof (cases "bs = []")
    case False
    define k where "k = 5 - length bs"
    have l: "length bs = 5 - k" "0 < k" "k < 5" using Nil.prems(2) False by (auto simp: k_def)
    have "unat (push_bit k w) = (unat w * 2 ^ k) mod 2 ^ 32"
      by (simp only: unsigned_push_bit_eq) (simp add: take_bit_eq_mod push_bit_eq_mult)
    then have "unat (push_bit k w) mod 32 = (unat w * 2 ^ k) mod 32"
      by (simp add: mod_mod_cancel)
    also have "\<dots> = (unat w * 2 ^ k) mod (2 ^ (5 - k) * 2 ^ k)"
      using l by (intro arg_cong2[where f = "(mod)"] refl) (simp flip: power_add)
    also have "\<dots> = unat w mod 2 ^ (5 - k) * 2 ^ k" by (simp add: mult_mod_left)
    also have "\<dots> = bits_value (bs @ replicate k False)"
      using Nil.prems(1) l(1) by (simp add: holds_def bits_value_append bits_value_zeros)
    finally have "alphabet_at (push_bit k w) = ALPHABET ! bits_value (bs @ replicate k False)" by (rule alphabet_at_value)
    then show ?thesis using False Nil.prems(2) by (simp add: base32_bits.simps[of bs] k_def)
  qed (simp add: base32_bits.simps)
next
  case (Cons b input)
  define w' where "w' = or (push_bit 8 w) (ucast b)"
  define bs' where "bs' = bs @ byte_bits b"
  have h: "holds bs' w'" "length bs' \<le> 32" "length bs' = length bs + 8"
    using holds_shift[OF Cons.prems(1)] Cons.prems(2) by (simp_all add: w'_def bs'_def)
  obtain s n where e: "emit_groups w' (length bs') = (s, n)" by force
  obtain rest where r: "n = length rest" "n < 5" "holds rest w'"
    "\<forall>more. base32_bits (bs' @ more) = s @ base32_bits (rest @ more)"
    using emit_groups_bits[OF h(1,2) e] by blast
  have "base32_loop (b # input) w (length bs) = s @ base32_loop input w' n"
    using e h(3) by (simp add: w'_def Let_def)
  also have "\<dots> = base32_bits (bs' @ concat (map byte_bits input))"
    using Cons.IH[of rest w'] r by simp
  finally show ?case by (simp add: bs'_def)
qed

section \<open>Cutting and comparing encodings\<close>

lemma base32_is_bits: "base32NopadUpper input = base32_bits (concat (map byte_bits input))"
  using base32_loop_bits[of "[]" 0 input] by (simp add: base32NopadUpper_def holds_def bits_value_def)

lemma take_base32_bits: "5 * n \<le> length bs \<Longrightarrow> take n (base32_bits bs) = base32_bits (take (5 * n) bs)"
proof (induction n arbitrary: bs)
  case (Suc n)
  have l: "bs \<noteq> []" "5 \<le> length bs" "5 * n \<le> length (drop 5 bs)" using Suc.prems by auto
  have t: "take 5 (take (5 * Suc n) bs) = take 5 bs" "drop 5 (take (5 * Suc n) bs) = take (5 * n) (drop 5 bs)"
    by (simp_all add: drop_take)
  have "take (Suc n) (base32_bits bs) = ALPHABET ! bits_value (take 5 bs) # base32_bits (take (5 * n) (drop 5 bs))"
    using l Suc.IH[OF l(3)] by (subst base32_bits.simps) simp
  also have "\<dots> = base32_bits (take (5 * Suc n) bs)"
    using l Suc.prems t by (subst (2) base32_bits.simps) (simp del: drop_take take_drop mult_Suc_right)
  finally show ?case .
qed (simp add: base32_bits.simps)

lemma length_base32_bits: "length bs = 5 * n \<Longrightarrow> length (base32_bits bs) = n"
proof (induction n arbitrary: bs)
  case (Suc n)
  then show ?case by (subst base32_bits.simps) auto
qed (simp add: base32_bits.simps)

lemma alphabet_inject: "i < 32 \<Longrightarrow> j < 32 \<Longrightarrow> ALPHABET ! i = ALPHABET ! j \<Longrightarrow> i = j"
proof -
  have "distinct ALPHABET" "length ALPHABET = 32" by code_simp+
  then show "i < 32 \<Longrightarrow> j < 32 \<Longrightarrow> ALPHABET ! i = ALPHABET ! j \<Longrightarrow> i = j" by (metis nth_eq_iff_index_eq)
qed

lemma base32_bits_inject:
  "length xs = 5 * n \<Longrightarrow> length ys = 5 * n \<Longrightarrow> base32_bits xs = base32_bits ys \<Longrightarrow> xs = ys"
proof (induction n arbitrary: xs ys)
  case (Suc n)
  have l: "xs \<noteq> []" "ys \<noteq> []" "5 \<le> length xs" "5 \<le> length ys" using Suc.prems by auto
  have e: "ALPHABET ! bits_value (take 5 xs) = ALPHABET ! bits_value (take 5 ys)"
    "base32_bits (drop 5 xs) = base32_bits (drop 5 ys)"
    using Suc.prems(3) l by (simp_all add: base32_bits.simps[of xs] base32_bits.simps[of ys])
  have lt: "bits_value (take 5 xs) < 32" "bits_value (take 5 ys) < 32"
    using bits_value_less[of "take 5 xs"] bits_value_less[of "take 5 ys"] l by simp_all
  have "take 5 xs = take 5 ys"
    using alphabet_inject[OF lt e(1)] l by (intro bits_value_inject) simp_all
  moreover have "drop 5 xs = drop 5 ys" using Suc e(2) by simp
  ultimately show ?case by (metis append_take_drop_id)
qed simp

lemma byte_bits_inject: "byte_bits a = byte_bits b \<Longrightarrow> a = b"
  by (metis bits_value_byte word_unat_eq_iff)

lemma bytes_bits_inject: "length xs = length ys \<Longrightarrow> concat (map byte_bits xs) = concat (map byte_bits ys) \<Longrightarrow> xs = ys"
proof (induction xs ys rule: list_induct2)
  case (Cons x xs y ys)
  then have "byte_bits x = byte_bits y" "concat (map byte_bits xs) = concat (map byte_bits ys)" by simp_all
  then show ?case using Cons.IH byte_bits_inject by simp
qed simp

lemma length_bytes_bits: "length (concat (map byte_bits xs)) = 8 * length xs"
  by (induction xs) simp_all

lemma take_bytes_bits: "take (8 * n) (concat (map byte_bits xs)) = concat (map byte_bits (take n xs))"
proof (induction n arbitrary: xs)
  case (Suc n)
  then show ?case by (cases xs) simp_all
qed simp

lemma prefix_of_digest:
  assumes "10 \<le> length ds"
  shows "take FINGERPRINT_LEN (base32NopadUpper ds) = base32_bits (concat (map byte_bits (take 10 ds)))"
proof -
  have "5 * 16 \<le> length (concat (map byte_bits ds))" using assms by (simp add: length_bytes_bits)
  from take_base32_bits[OF this] show ?thesis
    using take_bytes_bits[of 10 ds] by (simp add: FINGERPRINT_LEN_def base32_is_bits)
qed

section \<open>Hexadecimal text\<close>

definition byte_hex :: "byte \<Rightarrow> str" where
  "byte_hex b = [hex_digit (unat b div 16), hex_digit (unat b mod 16)]"

lemma hex_digit_plain:
  assumes "d < 16"
  shows "is_hex_digit (hex_digit d)" "\<not> is_space (hex_digit d)" "hex_digit d \<noteq> CHR ''-''" "hex_digit d \<noteq> CHR ''+''"
    "hex_digit d \<noteq> CHR ''x''" "hex_digit d \<noteq> CHR ''X''"
proof -
  define n where "n = char_code (hex_digit d)"
  have n: "48 \<le> n \<and> n \<le> 57 \<or> 97 \<le> n \<and> n \<le> 102"
    using assms by (simp add: n_def hex_digit_def char_code_of)
  then show "is_hex_digit (hex_digit d)" "\<not> is_space (hex_digit d)"
    unfolding is_hex_digit_def is_space_def Let_def n_def by linarith+
  have "hex_digit d \<noteq> c" if "n \<noteq> char_code c" for c using that by (auto simp: n_def)
  note neq = this
  show "hex_digit d \<noteq> CHR ''-''" "hex_digit d \<noteq> CHR ''+''" "hex_digit d \<noteq> CHR ''x''" "hex_digit d \<noteq> CHR ''X''"
    by (rule neq, insert n, simp add: char_code_def, linarith?)+
qed

lemma parse_hex_digits:
  assumes "a < 16" "b < 16"
  shows "parseInt16 [hex_digit a, hex_digit b] = Some (int (a * 16 + b))"
  using hex_digit_plain[OF assms(1)] hex_digit_plain[OF assms(2)] assms
  unfolding parseInt16_def Let_def by (simp add: starts_with_def hex_value_digit)

lemma hex_pairs_bytes: "hex_pairs (concat (map byte_hex bs)) = Some bs"
proof (induction bs)
  case (Cons b bs)
  have "unat b < 256" using unsigned_less[of b] by simp
  then have "parseInt16 (byte_hex b) = Some (int (unat b div 16 * 16 + unat b mod 16))"
    unfolding byte_hex_def by (intro parse_hex_digits) (simp_all add: less_mult_imp_div_less)
  then have "parseInt16 (byte_hex b) = Some (int (unat b))" by (simp only: div_mult_mod_eq)
  then show ?case using Cons by (simp add: byte_hex_def)
qed simp

lemma length_bytes_hex: "length (concat (map byte_hex bs)) = 2 * length bs"
  by (induction bs) (simp_all add: byte_hex_def)

lemma hex_pairs_append: "length p mod 2 = 0 \<Longrightarrow> hex_pairs (p @ q) =
    (case (hex_pairs p, hex_pairs q) of (Some a, Some b) \<Rightarrow> Some (a @ b) | _ \<Rightarrow> None)"
proof (induction p rule: hex_pairs.induct)
  case (1 a b r)
  then have "length r mod 2 = 0" by (simp add: mod_Suc split: if_splits)
  with 1(1) show ?case by (cases "parseInt16 [a, b]"; cases "hex_pairs r"; cases "hex_pairs q") simp_all
qed (simp_all split: option.split)

lemma hex_digit_facts: "is_hex_digit c \<Longrightarrow> \<not> is_space c \<and> c \<noteq> CHR ''-'' \<and> c \<noteq> CHR ''+''"
  by (auto simp: is_hex_digit_def is_space_def Let_def char_code_def)

lemma parse_lenient:
  assumes "is_hex_digit c" "\<not> is_hex_digit d" "d \<noteq> CHR ''x''" "d \<noteq> CHR ''X''"
  shows "parseInt16 [c, d] = parseInt16 [CHR ''0'', c]"
proof -
  have z: "is_hex_digit CHR ''0''" "hex_value CHR ''0'' = Some 0" "\<not> is_space CHR ''0''" by code_simp+
  have x: "c \<noteq> CHR ''x''" "c \<noteq> CHR ''X''" using assms(1) by (auto simp: is_hex_digit_def Let_def char_code_def)
  show ?thesis using hex_digit_facts[OF assms(1)] assms x z
    unfolding parseInt16_def Let_def by (simp add: starts_with_def)
qed

section \<open>Properties\<close>

text \<open>C16. The encoder over the 32-bit register is base32 of the bit string: cut in fives from the most significant
  bit, the last group filled with zeros; the bits the register keeps above the pending ones never show.\<close>
theorem base32_encodes_bits:
  "base32NopadUpper input = base32_bits (concat (map byte_bits input))"
  by (rule base32_is_bits)

text \<open>For keys written as hexadecimal text, the fingerprint has sixteen characters, and two keys have the same
  one exactly when their digests agree in the first ten bytes.\<close>
theorem fingerprint_identifies_ten_bytes:
  assumes "length k1 = 32" and "length k2 = 32" and "\<And>bs. length (digest bs) = 32"
  shows "(\<exists>f. fingerprintForHex digest (concat (map byte_hex k1)) = Inr f \<and> length f = 16)
    \<and> (fingerprintForHex digest (concat (map byte_hex k1)) = fingerprintForHex digest (concat (map byte_hex k2))
        \<longleftrightarrow> take 10 (digest k1) = take 10 (digest k2))"
proof -
  have f: "fingerprintForHex digest (concat (map byte_hex k)) = Inr (base32_bits (concat (map byte_bits (take 10 (digest k)))))"
    if "length k = 32" for k
    using that assms(3)
    by (simp add: fingerprintForHex_def hexToBytes_def length_bytes_hex hex_pairs_bytes prefix_of_digest)
  have l: "length (concat (map byte_bits (take 10 (digest k)))) = 5 * 16" for k
    unfolding length_bytes_bits by (simp add: assms(3))
  have "base32_bits (concat (map byte_bits (take 10 (digest k1)))) = base32_bits (concat (map byte_bits (take 10 (digest k2))))
      \<longleftrightarrow> take 10 (digest k1) = take 10 (digest k2)"
    using base32_bits_inject[OF l l] bytes_bits_inject[of "take 10 (digest k1)" "take 10 (digest k2)"] assms(3) by auto
  then show ?thesis using f[OF assms(1)] f[OF assms(2)] length_base32_bits[OF l] by simp
qed

theorem fingerprint_identifies_ten_bytes_witness:
  "fingerprintForHex (\<lambda>bs. take 32 (bs @ replicate 32 0)) (concat (map byte_hex (replicate 32 1)))
    \<noteq> fingerprintForHex (\<lambda>bs. take 32 (bs @ replicate 32 0)) (concat (map byte_hex (replicate 32 2)))"
proof -
  have "take 10 (take 32 (replicate 32 1 @ replicate 32 0)) \<noteq> take 10 (take 32 (replicate 32 2 @ replicate 32 (0 :: byte)))"
    by simp
  then show ?thesis
    using fingerprint_identifies_ten_bytes[of "replicate 32 1" "replicate 32 2" "\<lambda>bs. take 32 (bs @ replicate 32 0)"] by simp
qed

text \<open>The decoder is not strict: a pair whose second character is no hexadecimal digit is read as its first
  digit alone, so a key text that is not hexadecimal gets the fingerprint of another key.\<close>
theorem fingerprint_accepts_non_hex:
  assumes "length p = 62" and "is_hex_digit c" and "\<not> is_hex_digit d" and "d \<noteq> CHR ''x''" and "d \<noteq> CHR ''X''"
  shows "fingerprintForHex digest (p @ [c, d]) = fingerprintForHex digest (p @ [CHR ''0'', c])"
  using assms parse_lenient[OF assms(2-5)]
  by (simp add: fingerprintForHex_def hexToBytes_def hex_pairs_append)

theorem fingerprint_accepts_non_hex_witness:
  "fingerprintForHex digest (replicate 62 CHR ''a'' @ ''7g'') = fingerprintForHex digest (replicate 62 CHR ''a'' @ ''07'')"
  by (rule fingerprint_accepts_non_hex) code_simp+

end
