(* ===== verification/ChatWidgets.thy ===== *)
theory ChatWidgets
  imports Json
begin

text \<open>
  \<open>components/chat/chatWidgets.ts\<close>: the composer commands that pin a widget to a message, the check of
  the widget payload a message carries, and the tally of a poll from the reactions of its message.
  The reactions are those \<open>hooks/useMatrix.ts\<close> extracts; the type is declared here, where it is first used.
\<close>

datatype tone = Info | Success | Warning | Error

datatype ChatWidget =
    Poll (wi_question: str) (wi_options: "str list")
  | Checklist (wi_title: str) (wi_items: "str list")
  | Status str str tone

text \<open>The keycaps of the digits 1 to 8, a digit followed by U+FE0F U+20E3, by their UTF-8 bytes.\<close>
definition keycap :: "nat \<Rightarrow> str" where
  "keycap n = [digit_char n, CHR 0xEF, CHR 0xB8, CHR 0x8F, CHR 0xE2, CHR 0x83, CHR 0xA3]"

definition POLL_REACTION_EMOJIS :: "str list" where
  "POLL_REACTION_EMOJIS = map keycap [1, 2, 3, 4, 5, 6, 7, 8]"

definition newline :: str where
  "newline = [CHR 0x0A]"

section \<open>The composer\<close>

text \<open>The parts of a command after its prefix: cut at bars, trimmed, the empty ones dropped.\<close>
definition command_parts :: "str \<Rightarrow> str \<Rightarrow> str list" where
  "command_parts cmd trimmed = filter (\<lambda>part. part \<noteq> []) (map trim (split_on CHR ''|'' (drop (length cmd) trimmed)))"

definition heading :: "str \<Rightarrow> str \<Rightarrow> str" where
  "heading kind title = ''# '' @ kind @ newline @ newline @ ''**'' @ title @ ''**'' @ newline @ newline"

definition normalizeStatusTone :: "str \<Rightarrow> tone" where
  "normalizeStatusTone raw =
    (let value = to_lower (trim raw)
     in if value = ''success'' \<or> value = ''healthy'' \<or> value = ''green'' then Success
        else if value = ''warning'' \<or> value = ''yellow'' then Warning
        else if value = ''error'' \<or> value = ''critical'' \<or> value = ''red'' then Error
        else Info)"

definition parsePoll :: "str \<Rightarrow> (str \<times> ChatWidget) option" where
  "parsePoll trimmed = (if \<not> starts_with ''/poll '' trimmed then None
     else case command_parts ''/poll '' trimmed of
       question # options \<Rightarrow> if length options < 2 then None
         else Some (heading ''Poll'' question @
             join_with newline (map (\<lambda>(i, option). nat_text (i + 1) @ ''. '' @ option) (enumerate 0 options)),
           Poll question (take (length POLL_REACTION_EMOJIS) options))
     | [] \<Rightarrow> None)"

definition parseChecklist :: "str \<Rightarrow> (str \<times> ChatWidget) option" where
  "parseChecklist trimmed = (if \<not> starts_with ''/checklist '' trimmed then None
     else case command_parts ''/checklist '' trimmed of
       title # items \<Rightarrow> if items = [] then None
         else Some (heading ''Checklist'' title @ join_with newline (map (\<lambda>item. ''- [ ] '' @ item) items),
           Checklist title items)
     | [] \<Rightarrow> None)"

definition parseStatus :: "str \<Rightarrow> (str \<times> ChatWidget) option" where
  "parseStatus trimmed = (if \<not> starts_with ''/status '' trimmed then None
     else case command_parts ''/status '' trimmed of
       title # summary # rawTone # _ \<Rightarrow>
         Some (heading ''Status'' title @ summary, Status title summary (normalizeStatusTone rawTone))
     | _ \<Rightarrow> None)"

text \<open>A command with too few parts falls through to the next one; what is no command is sent as typed.\<close>
definition parseWidgetComposerCommand :: "str \<Rightarrow> str \<times> ChatWidget option" where
  "parseWidgetComposerCommand input =
    (let trimmed = trim input
     in case parsePoll trimmed of Some (b, w) \<Rightarrow> (b, Some w)
        | None \<Rightarrow> (case parseChecklist trimmed of Some (b, w) \<Rightarrow> (b, Some w)
          | None \<Rightarrow> (case parseStatus trimmed of Some (b, w) \<Rightarrow> (b, Some w) | None \<Rightarrow> (input, None))))"

section \<open>The payload on the wire\<close>

fun tone_text :: "tone \<Rightarrow> str" where
  "tone_text Info = ''info''" | "tone_text Success = ''success''"
| "tone_text Warning = ''warning''" | "tone_text Error = ''error''"

fun widget_json :: "ChatWidget \<Rightarrow> json" where
  "widget_json (Poll q opts) = JObj [(''kind'', JStr ''poll''), (''question'', JStr q), (''options'', JArr (map JStr opts))]"
| "widget_json (Checklist t items) = JObj [(''kind'', JStr ''checklist''), (''title'', JStr t), (''items'', JArr (map JStr items))]"
| "widget_json (Status t s tn) =
     JObj [(''kind'', JStr ''status''), (''title'', JStr t), (''summary'', JStr s), (''tone'', JStr (tone_text tn))]"

text \<open>\<open>xs.every((x) => typeof x === "string" && x.trim().length > 0)\<close>, with the strings.\<close>
fun solid_string :: "json \<Rightarrow> str option" where
  "solid_string (JStr s) = (if trim s = [] then None else Some s)"
| "solid_string _ = None"

definition every_solid :: "json list \<Rightarrow> bool" where
  "every_solid xs = list_all (\<lambda>x. solid_string x \<noteq> None) xs"

definition validateChatWidget :: "json option \<Rightarrow> str + ChatWidget" where
  "validateChatWidget raw =
    (case raw of None \<Rightarrow> Inl ''widget payload must be an object''
     | Some widget \<Rightarrow>
       if \<not> nonnull_object raw then Inl ''widget payload must be an object''
       else if jget widget ''kind'' = Some (JStr ''poll'') then
         (case (as_str (jget widget ''question''), as_arr (jget widget ''options'')) of
            (Some q, Some opts) \<Rightarrow>
              if length opts < 2 \<or> length POLL_REACTION_EMOJIS < length opts \<or> \<not> every_solid opts
              then Inl ''poll widget options must be 2-8 non-empty strings''
              else Inr (Poll q (List.map_filter solid_string opts))
          | _ \<Rightarrow> Inl ''poll widget requires question + options'')
       else if jget widget ''kind'' = Some (JStr ''checklist'') then
         (case (as_str (jget widget ''title''), as_arr (jget widget ''items'')) of
            (Some t, Some items) \<Rightarrow>
              if \<not> every_solid items then Inl ''checklist items must be non-empty strings''
              else Inr (Checklist t (List.map_filter solid_string items))
          | _ \<Rightarrow> Inl ''checklist widget requires title + items'')
       else if jget widget ''kind'' = Some (JStr ''status'') then
         (case (as_str (jget widget ''title''), as_str (jget widget ''summary'')) of
            (Some t, Some s) \<Rightarrow>
              Inr (Status t s (normalizeStatusTone (key_of (nullish_or (jget widget ''tone'') (Some (JStr ''info''))))))
          | _ \<Rightarrow> Inl ''status widget requires title + summary'')
       else Inl (''unsupported widget kind: '' @ key_of (jget widget ''kind'')))"

section \<open>The tally of a poll\<close>

record Reaction =
  rx_emoji :: str
  rx_count :: nat
  rx_userIds :: "str list"
  rx_eventIds :: "(str \<times> str) list"

record PollVote =
  pv_emoji :: "str option"
  pv_option :: str
  pv_count :: nat
  pv_selected :: bool
  pv_reactionEventId :: "str option"

text \<open>Past the eighth option there is no emoji, and no reaction is found for it.\<close>
definition getPollVoteSummary :: "Reaction list \<Rightarrow> str list \<Rightarrow> str option \<Rightarrow> PollVote list" where
  "getPollVoteSummary reactions options currentUserId =
    map (\<lambda>(index, option).
      let emoji = (if index < length POLL_REACTION_EMOJIS then Some (POLL_REACTION_EMOJIS ! index) else None);
          reaction = find (\<lambda>r. Some (rx_emoji r) = emoji) reactions
      in \<lparr>pv_emoji = emoji, pv_option = option,
          pv_count = (case reaction of None \<Rightarrow> 0 | Some r \<Rightarrow> rx_count r),
          pv_selected = (case (currentUserId, reaction) of (Some u, Some r) \<Rightarrow> u \<in> set (rx_userIds r) | _ \<Rightarrow> False),
          pv_reactionEventId = (case (currentUserId, reaction) of (Some u, Some r) \<Rightarrow> map_of (rx_eventIds r) u | _ \<Rightarrow> None)\<rparr>)
      (enumerate 0 options)"

section \<open>What the composer makes is accepted\<close>

lemma trim_idem [simp]: "trim (trim s) = trim s"
proof -
  define a where "a = dropWhile is_space s"
  define b where "b = rev (dropWhile is_space (rev a))"
  have "prefix b a" unfolding b_def by (metis suffix_dropWhile suffix_to_prefix rev_rev_ident)
  then have "b \<noteq> [] \<Longrightarrow> \<not> is_space (hd b)"
    unfolding a_def by (metis hd_append2 hd_dropWhile prefix_def append_is_Nil_conv)
  then have "dropWhile is_space b = b" by (cases b) simp_all
  moreover have "dropWhile is_space (rev b) = rev b" unfolding b_def by (simp add: dropWhile_idem)
  moreover have "trim s = b" by (simp add: trim_def a_def b_def)
  ultimately show ?thesis by (simp add: trim_def)
qed

lemma parts_solid: "p \<in> set (command_parts c s) \<Longrightarrow> trim p = p \<and> p \<noteq> []"
  by (auto simp: command_parts_def)

lemma solid_strings:
  "(\<And>p. p \<in> set ps \<Longrightarrow> trim p = p \<and> p \<noteq> []) \<Longrightarrow>
     every_solid (map JStr ps) \<and> List.map_filter solid_string (map JStr ps) = ps"
  by (induction ps) (auto simp: every_solid_def List.map_filter_def)

lemma tone_text_normalizes: "normalizeStatusTone (tone_text t) = t"
proof -
  have "normalizeStatusTone ''info'' = Info" "normalizeStatusTone ''success'' = Success"
    "normalizeStatusTone ''warning'' = Warning" "normalizeStatusTone ''error'' = Error" by code_simp+
  then show ?thesis by (cases t) simp_all
qed

lemma poll_emojis: "length POLL_REACTION_EMOJIS = 8"
  by code_simp

lemma poll_accepted:
  assumes "parsePoll s = Some (b, w)"
  shows "validateChatWidget (Some (widget_json w)) = Inr w"
proof -
  obtain q opts where p: "command_parts ''/poll '' s = q # opts" "2 \<le> length opts" "w = Poll q (take 8 opts)"
    using assms by (auto simp: parsePoll_def poll_emojis not_less split: if_splits list.splits)
  have "trim p = p \<and> p \<noteq> []" if "p \<in> set (take 8 opts)" for p
    by (rule parts_solid[of p "''/poll ''" s]) (use that in_set_takeD[of p 8 opts] p(1) in auto)
  from solid_strings[OF this] p(2) show ?thesis
    by (simp add: p(3) validateChatWidget_def nonnull_object_def poll_emojis)
qed

lemma checklist_accepted:
  assumes "parseChecklist s = Some (b, w)"
  shows "validateChatWidget (Some (widget_json w)) = Inr w"
proof -
  obtain t items where p: "command_parts ''/checklist '' s = t # items" "w = Checklist t items"
    using assms by (auto simp: parseChecklist_def split: if_splits list.splits)
  have "trim p = p \<and> p \<noteq> []" if "p \<in> set items" for p
    by (rule parts_solid[of p "''/checklist ''" s]) (use that p(1) in auto)
  from solid_strings[OF this] show ?thesis by (simp add: p(2) validateChatWidget_def nonnull_object_def)
qed

lemma status_accepted:
  assumes "parseStatus s = Some (b, w)"
  shows "validateChatWidget (Some (widget_json w)) = Inr w"
proof -
  obtain t sm tn where "w = Status t sm tn"
    using assms by (auto simp: parseStatus_def split: if_splits list.splits)
  then show ?thesis by (simp add: validateChatWidget_def nonnull_object_def key_of_def tone_text_normalizes)
qed

lemma find_emoji_beyond: "find (\<lambda>r. Some (rx_emoji r) = None) reactions = None"
  by (induction reactions) simp_all

section \<open>Properties\<close>

text \<open>Every widget the composer makes passes the check of the receiving side, and arrives as it was made.\<close>
theorem composed_widget_accepted:
  assumes "parseWidgetComposerCommand input = (body, Some w)"
  shows "validateChatWidget (Some (widget_json w)) = Inr w"
  using assms poll_accepted checklist_accepted status_accepted
  by (auto simp: parseWidgetComposerCommand_def Let_def split: option.splits prod.splits)

theorem composed_widget_accepted_witness:
  "validateChatWidget (Some (widget_json (Poll ''tea?'' [''yes'', ''no'']))) = Inr (Poll ''tea?'' [''yes'', ''no''])"
proof -
  have "snd (parseWidgetComposerCommand ''/poll tea? | yes || no '') = Some (Poll ''tea?'' [''yes'', ''no''])" by code_simp
  then show ?thesis
    using composed_widget_accepted[of "''/poll tea? | yes || no ''" "fst (parseWidgetComposerCommand ''/poll tea? | yes || no '')"]
    by (metis prod.collapse)
qed

end
