(* ===== verification/Timeline.thy ===== *)
theory Timeline
  imports ChatWidgets Codec
begin

text \<open>
  The message view of \<open>hooks/useMatrix.ts\<close>: trimming a room's timeline, the two passes that turn timeline
  events into the messages a room shows (edits and reactions folded in), the state machine around them (binding
  a room, the initial scrollback, paging, re-extraction), and the events that sending, editing and reacting
  post, with the retry of a refused message. \<open>api/media.ts\<close> gives the attachment URLs.

  The Matrix SDK is what holds the timelines: an event is the record of what its accessors return, and a room is
  the list of its live events. Relations, keys and bodies are read as the strings the source casts them to.
\<close>

record matrix_event =
  ev_id :: str
  ev_sender :: str
  ev_type :: str
  ev_ts :: int
  ev_redacted :: bool
  ev_content :: json

section \<open>Keyed collections\<close>

text \<open>\<open>if (!m.has(k)) m.set(k, fresh); update(m.get(k))\<close> on a JavaScript map, in insertion order.\<close>
fun upsert :: "'k \<Rightarrow> ('v option \<Rightarrow> 'v) \<Rightarrow> ('k \<times> 'v) list \<Rightarrow> ('k \<times> 'v) list" where
  "upsert k f [] = [(k, f None)]"
| "upsert k f ((k', v) # m) = (if k = k' then (k', f (Some v)) # m else (k', v) # upsert k f m)"

lemma map_of_upsert [simp]: "map_of (upsert k f m) k' = (if k' = k then Some (f (map_of m k)) else map_of m k')"
  by (induction k f m rule: upsert.induct) auto

lemma find_append_Some: "find p xs = Some x \<Longrightarrow> find p (xs @ ys) = Some x"
  by (induction xs) (auto split: if_splits)

lemma keys_upsert: "map fst (upsert k f m) = map fst m @ (if k \<in> fst ` set m then [] else [k])"
  by (induction k f m rule: upsert.induct) auto

lemma distinct_upsert [simp]: "distinct (map fst (upsert k f m)) \<longleftrightarrow> distinct (map fst m)"
  by (auto simp: keys_upsert)

lemma set_upsert: "distinct (map fst m) \<Longrightarrow> (k', v) \<in> set (upsert k f m) \<longleftrightarrow>
    (if k' = k then v = f (map_of m k) else (k', v) \<in> set m)"
  by (metis distinct_upsert map_of_eq_Some_iff map_of_upsert option.inject)

section \<open>Trimming\<close>

definition MAX_TIMELINE_EVENTS :: nat where
  "MAX_TIMELINE_EVENTS = 500"

text \<open>The SDK's \<open>timeline.removeEvent(id)\<close> takes out the event with that id.\<close>
definition removeEvent :: "str \<Rightarrow> matrix_event list \<Rightarrow> matrix_event list" where
  "removeEvent i evs = filter (\<lambda>e. ev_id e \<noteq> i) evs"

definition trimTimeline :: "matrix_event list \<Rightarrow> matrix_event list" where
  "trimTimeline events =
    (if length events \<le> MAX_TIMELINE_EVENTS then events
     else fold (\<lambda>ev timeline. if ev_id ev = [] then timeline else removeEvent (ev_id ev) timeline)
       (take (length events - MAX_TIMELINE_EVENTS) events) events)"

section \<open>Attachment URLs\<close>

text \<open>\<open>/^mxc:\/\/([^/]+)\/(.+)$/\<close>: the server and the media id; \<open>.\<close> stops at line ends.\<close>
definition mxc_match :: "str \<Rightarrow> (str \<times> str) option" where
  "mxc_match s = (if \<not> starts_with ''mxc://'' s then None
     else let r = drop 6 s;
              server = takeWhile (\<lambda>c. c \<noteq> CHR ''/'') r;
              media = drop (Suc (length server)) r
       in if server = [] \<or> length r \<le> length server \<or> media = [] \<or> list_ex (\<lambda>c. char_code c = 10 \<or> char_code c = 13) media
          then None else Some (server, media))"

definition mxcToHttp :: "str \<Rightarrow> str \<Rightarrow> str option \<Rightarrow> str option" where
  "mxcToHttp apiBase mxcUrl accessToken = (case accessToken of None \<Rightarrow> None
     | Some token \<Rightarrow> if token = [] then None
       else map_option (\<lambda>(server, media). apiBase @ ''/media/download/'' @ encodeURIComponent server @ ''/'' @
         encodeURIComponent media @ ''?token='' @ encodeURIComponent token) (mxc_match mxcUrl))"

section \<open>Extraction\<close>

definition relates_to :: "matrix_event \<Rightarrow> json option" where
  "relates_to ev = jget (ev_content ev) ''m.relates_to''"

text \<open>The target and the key of a reaction event.\<close>
definition reaction_target :: "matrix_event \<Rightarrow> (str \<times> str) option" where
  "reaction_target ev =
    (if ev_redacted ev \<or> ev_type ev \<noteq> ''m.reaction'' then None
     else let rel = relates_to ev in
       if jopt rel ''rel_type'' \<noteq> Some (JStr ''m.annotation'') then None
       else case (text_of (jopt rel ''event_id''), text_of (jopt rel ''key'')) of
         (Some t, Some k) \<Rightarrow> Some (t, k) | _ \<Rightarrow> None)"

definition is_edit :: "matrix_event \<Rightarrow> bool" where
  "is_edit ev = (jopt (relates_to ev) ''rel_type'' = Some (JStr ''m.replace''))"

text \<open>The target and the new body of an edit event.\<close>
definition edit_target :: "matrix_event \<Rightarrow> (str \<times> str) option" where
  "edit_target ev =
    (if ev_redacted ev \<or> ev_type ev \<noteq> ''m.room.message'' \<or> \<not> is_edit ev then None
     else case (text_of (jopt (relates_to ev) ''event_id''),
                text_of (jopt (jget (ev_content ev) ''m.new_content'') ''body'')) of
       (Some t, Some b) \<Rightarrow> Some (t, b) | _ \<Rightarrow> None)"

record reaction_entry =
  en_userIds :: "str list"
  en_eventIds :: "(str \<times> str) list"

definition no_entry :: reaction_entry where
  "no_entry = \<lparr>en_userIds = [], en_eventIds = []\<rparr>"

text \<open>A sender counts once; the first of its reactions is the one on record.\<close>
definition add_reactor :: "str \<Rightarrow> str \<Rightarrow> reaction_entry \<Rightarrow> reaction_entry" where
  "add_reactor sender i e = (if sender \<in> set (en_userIds e) then e
     else \<lparr>en_userIds = en_userIds e @ [sender], en_eventIds = upsert sender (\<lambda>_. i) (en_eventIds e)\<rparr>)"

type_synonym emoji_map = "(str \<times> reaction_entry) list"
type_synonym timeline_index = "(str \<times> emoji_map) list \<times> (str \<times> str) list"

definition add_reaction :: "str \<Rightarrow> str \<Rightarrow> str \<Rightarrow> str \<Rightarrow> (str \<times> emoji_map) list \<Rightarrow> (str \<times> emoji_map) list" where
  "add_reaction target emoji sender i rm =
    upsert target (\<lambda>em. upsert emoji (\<lambda>e. add_reactor sender i (case e of None \<Rightarrow> no_entry | Some e \<Rightarrow> e))
      (case em of None \<Rightarrow> [] | Some em \<Rightarrow> em)) rm"

text \<open>Pass 1, one event.\<close>
definition index_step :: "matrix_event \<Rightarrow> timeline_index \<Rightarrow> timeline_index" where
  "index_step ev idx = (case idx of (reactionMap, editMap) \<Rightarrow>
    (case reaction_target ev of
       Some (t, k) \<Rightarrow> (add_reaction t k (ev_sender ev) (ev_id ev) reactionMap, editMap)
     | None \<Rightarrow> (case edit_target ev of
         Some (t, b) \<Rightarrow> (reactionMap, upsert t (\<lambda>_. b) editMap)
       | None \<Rightarrow> (reactionMap, editMap))))"

definition index_events :: "matrix_event list \<Rightarrow> timeline_index" where
  "index_events timeline = fold index_step timeline ([], [])"

record ChatMessage =
  cm_id :: str
  cm_sender :: str
  cm_body :: str
  cm_timestamp :: int
  cm_redacted :: bool
  cm_edited :: bool
  cm_msgtype :: str
  cm_url :: "str option"
  cm_info :: "json option"
  cm_reactions :: "Reaction list"
  cm_chartRaw :: "json option"
  cm_widgetRaw :: "json option"

definition shown_event :: "matrix_event \<Rightarrow> bool" where
  "shown_event ev = (ev_type ev = ''m.room.message'' \<and> \<not> is_edit ev)"

definition reaction_list :: "emoji_map option \<Rightarrow> Reaction list" where
  "reaction_list em = (case em of None \<Rightarrow> []
     | Some m \<Rightarrow> map (\<lambda>(k, e). \<lparr>rx_emoji = k, rx_count = length (en_userIds e), rx_userIds = en_userIds e, rx_eventIds = en_eventIds e\<rparr>)
         (filter (\<lambda>(k, e). en_userIds e \<noteq> []) m))"

text \<open>The session's values the extraction reads: the API base and the access token.\<close>
record media_env =
  me_apiBase :: str
  me_token :: "str option"

text \<open>Pass 2, one event.\<close>
definition to_message :: "media_env \<Rightarrow> timeline_index \<Rightarrow> matrix_event \<Rightarrow> ChatMessage" where
  "to_message env idx ev =
    (let redacted = ev_redacted ev;
         content = (if redacted then JObj [] else ev_content ev);
         editBody = map_of (snd idx) (ev_id ev)
     in \<lparr>cm_id = ev_id ev, cm_sender = ev_sender ev,
         cm_body = (if redacted then [] else case editBody of Some b \<Rightarrow> b
           | None \<Rightarrow> (case text_of (jget content ''body'') of None \<Rightarrow> [] | Some b \<Rightarrow> b)),
         cm_timestamp = ev_ts ev, cm_redacted = redacted, cm_edited = (editBody \<noteq> None),
         cm_msgtype = (case text_of (jget content ''msgtype'') of None \<Rightarrow> ''m.text'' | Some t \<Rightarrow> t),
         cm_url = (case text_of (jget content ''url'') of None \<Rightarrow> None
           | Some mxc \<Rightarrow> if redacted then None else mxcToHttp (me_apiBase env) mxc (me_token env)),
         cm_info = (if redacted then None else jget content ''info''),
         cm_reactions = reaction_list (map_of (fst idx) (ev_id ev)),
         cm_chartRaw = (if redacted then None else jget content ''com.concord.chart''),
         cm_widgetRaw = (if redacted then None else jget content ''com.concord.widget'')\<rparr>)"

text \<open>Only the last thousand events are looked at.\<close>
definition recent :: "matrix_event list \<Rightarrow> matrix_event list" where
  "recent fullTimeline = drop (length fullTimeline - 1000) fullTimeline"

definition extractMessages :: "media_env \<Rightarrow> matrix_event list \<Rightarrow> ChatMessage list" where
  "extractMessages env fullTimeline =
    (let timeline = recent fullTimeline
     in map (to_message env (index_events timeline)) (filter shown_event timeline))"

fun bool_text :: "bool \<Rightarrow> str" where
  "bool_text True = ''true''" | "bool_text False = ''false''"

definition message_key :: "ChatMessage \<Rightarrow> str" where
  "message_key m = cm_id m @ '':'' @ bool_text (cm_redacted m) @ '':'' @ bool_text (cm_edited m) @ '':'' @
     nat_text (length (cm_body m)) @ '':'' @ (if truthy (cm_chartRaw m) then ''c'' else ''.'') @ '':'' @
     (if truthy (cm_widgetRaw m) then ''w'' else ''.'') @ '':'' @
     concat (map (\<lambda>r. rx_emoji r @ nat_text (rx_count r)) (cm_reactions m))"

definition idsKey :: "ChatMessage list \<Rightarrow> str" where
  "idsKey msgs = join_with '','' (map message_key msgs)"

section \<open>The view of a room\<close>

text \<open>The hook's state. \<open>rv_gen\<close> counts the effects: a continuation of an earlier one is cancelled.\<close>
record RoomView =
  rv_room :: "str option"
  rv_gen :: nat
  rv_messages :: "ChatMessage list"
  rv_lastIds :: str
  rv_isPaginating :: bool
  rv_hasMore :: bool

definition freshView :: RoomView where
  "freshView = \<lparr>rv_room = None, rv_gen = 0, rv_messages = [], rv_lastIds = [], rv_isPaginating = False, rv_hasMore = True\<rparr>"

text \<open>The client's rooms with their live timelines.\<close>
type_synonym rooms = "str \<Rightarrow> matrix_event list option"

definition live :: "rooms \<Rightarrow> RoomView \<Rightarrow> matrix_event list option" where
  "live rooms st = (case rv_room st of None \<Rightarrow> None | Some r \<Rightarrow> rooms r)"

text \<open>\<open>extractMessages\<close>: the messages are set only when their key differs from the last one.\<close>
definition refresh :: "media_env \<Rightarrow> rooms \<Rightarrow> RoomView \<Rightarrow> RoomView" where
  "refresh env rooms st = (case live rooms st of None \<Rightarrow> st
     | Some evs \<Rightarrow> let msgs = extractMessages env evs
         in if idsKey msgs = rv_lastIds st then st else st\<lparr>rv_lastIds := idsKey msgs, rv_messages := msgs\<rparr>)"

text \<open>The effect of \<open>[client, roomId]\<close>; the flag says whether it starts an initial scrollback.\<close>
definition bindRoom :: "media_env \<Rightarrow> rooms \<Rightarrow> str option \<Rightarrow> RoomView \<Rightarrow> bool \<times> RoomView" where
  "bindRoom env rooms roomId st0 =
    (let st = st0\<lparr>rv_room := roomId, rv_gen := Suc (rv_gen st0)\<rparr>
     in case roomId of
       None \<Rightarrow> (False, st\<lparr>rv_messages := [], rv_lastIds := [], rv_hasMore := True\<rparr>)
     | Some r \<Rightarrow> let st = refresh env rooms st
         in case rooms r of
           Some evs \<Rightarrow> if list_ex (\<lambda>e. ev_type e = ''m.room.message'') evs then (False, st)
             else (True, st\<lparr>rv_isPaginating := True\<rparr>)
         | None \<Rightarrow> (False, st))"

text \<open>The answer to the initial scrollback of effect \<open>gen\<close>: whether there is more, or a failure.\<close>
definition scrollbackDone :: "media_env \<Rightarrow> rooms \<Rightarrow> nat \<Rightarrow> bool option \<Rightarrow> RoomView \<Rightarrow> RoomView" where
  "scrollbackDone env rooms gen answer st =
    (if gen \<noteq> rv_gen st then st
     else (case answer of None \<Rightarrow> st | Some again \<Rightarrow> refresh env rooms (st\<lparr>rv_hasMore := again\<rparr>))\<lparr>rv_isPaginating := False\<rparr>)"

definition loadMoreBegin :: "rooms \<Rightarrow> RoomView \<Rightarrow> RoomView option" where
  "loadMoreBegin rooms st =
    (if rv_room st = None \<or> rv_isPaginating st \<or> \<not> rv_hasMore st \<or> live rooms st = None then None
     else Some (st\<lparr>rv_isPaginating := True\<rparr>))"

text \<open>The answer is not tied to the room it was asked for; the extraction is of the room then bound.\<close>
definition loadMoreDone :: "media_env \<Rightarrow> rooms \<Rightarrow> bool option \<Rightarrow> RoomView \<Rightarrow> RoomView" where
  "loadMoreDone env rooms answer st =
    (case answer of None \<Rightarrow> st | Some again \<Rightarrow> refresh env rooms (st\<lparr>rv_hasMore := again\<rparr>))\<lparr>rv_isPaginating := False\<rparr>"

section \<open>Sending\<close>

definition edit_content :: "str \<Rightarrow> str \<Rightarrow> json" where
  "edit_content eventId newBody = JObj [(''m.new_content'', JObj [(''msgtype'', JStr ''m.text''), (''body'', JStr newBody)]),
     (''m.relates_to'', JObj [(''rel_type'', JStr ''m.replace''), (''event_id'', JStr eventId)]),
     (''msgtype'', JStr ''m.text''), (''body'', JStr (''* '' @ newBody))]"

definition reaction_content :: "str \<Rightarrow> str \<Rightarrow> json" where
  "reaction_content eventId emoji = JObj [(''m.relates_to'',
     JObj [(''rel_type'', JStr ''m.annotation''), (''event_id'', JStr eventId), (''key'', JStr emoji)])]"

text \<open>What \<open>client.sendMessage\<close> or \<open>client.sendTextMessage\<close> posts.\<close>
definition message_content :: "str \<Rightarrow> json" where
  "message_content typed = (case parseWidgetComposerCommand typed of (body, w) \<Rightarrow>
     JObj ([(''msgtype'', JStr ''m.text''), (''body'', JStr body)] @
       (case w of None \<Rightarrow> [] | Some w \<Rightarrow> [(''com.concord.widget'', widget_json w)])))"

definition getMsgtype :: "str \<Rightarrow> str" where
  "getMsgtype mimeType = (if starts_with ''image/'' mimeType then ''m.image''
     else if starts_with ''audio/'' mimeType then ''m.audio''
     else if starts_with ''video/'' mimeType then ''m.video'' else ''m.file'')"

text \<open>A file message: the upload's URI and the dimensions an image decodes to.\<close>
definition file_content :: "str \<Rightarrow> str \<Rightarrow> int \<Rightarrow> str \<Rightarrow> (int \<times> int) option \<Rightarrow> json" where
  "file_content name mimeType bytes uri dims = JObj [(''msgtype'', JStr (getMsgtype mimeType)), (''body'', JStr name),
     (''url'', JStr uri), (''info'', JObj ([(''mimetype'', JStr mimeType), (''size'', JNum bytes)] @
       (case dims of Some (w, h) \<Rightarrow> if starts_with ''image/'' mimeType then [(''w'', JNum w), (''h'', JNum h)] else []
        | None \<Rightarrow> [])))]"

datatype send_step = SendMessage json | RejoinRooms str | CountMessage str

definition membership_lost :: "str \<Rightarrow> bool" where
  "membership_lost msg = (includes_sub ''M_FORBIDDEN'' msg \<and> includes_sub ''membership'' msg)"

text \<open>The world a send meets: the answers to its first and second try, to the rejoin, and the session.\<close>
record send_env =
  se_room :: "str option"
  se_first :: "str option"
  se_second :: "str option"
  se_rejoin :: "str option"
  se_token :: "str option"
  se_serverId :: "str option"

definition present :: "str option \<Rightarrow> bool" where
  "present x = (case x of None \<Rightarrow> False | Some s \<Rightarrow> s \<noteq> [])"

text \<open>The error thrown (or none) and what was done on the network. \<open>se_first\<close> and the like are errors.\<close>
definition sendRoomMessage :: "send_env \<Rightarrow> str \<Rightarrow> str option \<times> send_step list" where
  "sendRoomMessage env typed =
    (if \<not> present (se_room env) then (Some ''Not connected to a channel'', [])
     else let post = SendMessage (message_content typed);
              ready = present (se_token env) \<and> present (se_serverId env);
              server = (case se_serverId env of None \<Rightarrow> [] | Some s \<Rightarrow> s);
              count = (if ready then [CountMessage server] else [])
       in case se_first env of
         None \<Rightarrow> (None, post # count)
       | Some err \<Rightarrow>
           if \<not> membership_lost err \<or> \<not> ready then (Some err, [post])
           else (case se_rejoin env of
             Some e \<Rightarrow> (Some e, [post, RejoinRooms server])
           | None \<Rightarrow> (case se_second env of
               Some e \<Rightarrow> (Some e, [post, RejoinRooms server, post])
             | None \<Rightarrow> (None, [post, RejoinRooms server, post] @ count))))"

section \<open>The specification of the extraction\<close>

text \<open>The values of a list in the order of their first occurrence.\<close>
definition firsts :: "'a list \<Rightarrow> 'a list" where
  "firsts xs = fold (\<lambda>x acc. if x \<in> set acc then acc else acc @ [x]) xs []"

lemma firsts_Nil [simp]: "firsts [] = []"
  by (simp add: firsts_def)

lemma firsts_snoc: "firsts (xs @ [x]) = (if x \<in> set (firsts xs) then firsts xs else firsts xs @ [x])"
  by (simp add: firsts_def)

lemma set_firsts [simp]: "set (firsts xs) = set xs"
  by (induction xs rule: rev_induct) (auto simp: firsts_snoc)

lemma distinct_firsts [simp]: "distinct (firsts xs)"
  by (induction xs rule: rev_induct) (auto simp: firsts_snoc)

lemma firsts_eq_Nil [simp]: "firsts xs = [] \<longleftrightarrow> xs = []"
  by (metis set_firsts set_empty)

text \<open>What the events say: who reacted how to a message, and what its edits are.\<close>
definition reactions_to :: "matrix_event list \<Rightarrow> str \<Rightarrow> str \<Rightarrow> matrix_event list" where
  "reactions_to w t k = filter (\<lambda>e. reaction_target e = Some (t, k)) w"

definition emojis_on :: "matrix_event list \<Rightarrow> str \<Rightarrow> str list" where
  "emojis_on w t = List.map_filter (\<lambda>e. case reaction_target e of Some (t', k) \<Rightarrow> if t' = t then Some k else None | None \<Rightarrow> None) w"

definition reactors :: "matrix_event list \<Rightarrow> str \<Rightarrow> str \<Rightarrow> str list" where
  "reactors w t k = firsts (map ev_sender (reactions_to w t k))"

definition first_reaction :: "matrix_event list \<Rightarrow> str \<Rightarrow> str \<Rightarrow> str \<Rightarrow> str" where
  "first_reaction w t k s = (case find (\<lambda>e. ev_sender e = s) (reactions_to w t k) of None \<Rightarrow> [] | Some e \<Rightarrow> ev_id e)"

definition reaction_spec :: "matrix_event list \<Rightarrow> str \<Rightarrow> str \<Rightarrow> Reaction" where
  "reaction_spec w t k = \<lparr>rx_emoji = k, rx_count = length (reactors w t k), rx_userIds = reactors w t k,
     rx_eventIds = map (\<lambda>s. (s, first_reaction w t k s)) (reactors w t k)\<rparr>"

definition reactions_spec :: "matrix_event list \<Rightarrow> str \<Rightarrow> Reaction list" where
  "reactions_spec w t = map (reaction_spec w t) (firsts (emojis_on w t))"

definition edits_of :: "matrix_event list \<Rightarrow> str \<Rightarrow> str list" where
  "edits_of w t = List.map_filter (\<lambda>e. case edit_target e of Some (t', b) \<Rightarrow> if t' = t then Some b else None | None \<Rightarrow> None) w"

definition last_edit :: "matrix_event list \<Rightarrow> str \<Rightarrow> str option" where
  "last_edit w t = (if edits_of w t = [] then None else Some (last (edits_of w t)))"

definition entry_spec :: "matrix_event list \<Rightarrow> str \<Rightarrow> str \<Rightarrow> reaction_entry" where
  "entry_spec w t k = \<lparr>en_userIds = reactors w t k, en_eventIds = map (\<lambda>s. (s, first_reaction w t k s)) (reactors w t k)\<rparr>"

definition emoji_spec :: "matrix_event list \<Rightarrow> str \<Rightarrow> emoji_map option" where
  "emoji_spec w t = (if emojis_on w t = [] then None
     else Some (map (\<lambda>k. (k, entry_spec w t k)) (firsts (emojis_on w t))))"

section \<open>The passes compute the specification\<close>

lemma upsert_map:
  "distinct ks \<Longrightarrow> upsert k f (map (\<lambda>x. (x, g x)) ks) =
     (if k \<in> set ks then map (\<lambda>x. (x, if x = k then f (Some (g k)) else g x)) ks
      else map (\<lambda>x. (x, g x)) ks @ [(k, f None)])"
proof (induction ks)
  case (Cons a ks)
  then show ?case by (cases "a = k") (auto intro!: map_cong)
qed simp

lemma edit_not_reaction: "reaction_target e = Some x \<Longrightarrow> edit_target e = None"
  by (auto simp: reaction_target_def edit_target_def split: if_splits)

lemma emojis_on_snoc: "emojis_on (w @ [e]) t =
    emojis_on w t @ (case reaction_target e of Some (t', k) \<Rightarrow> if t' = t then [k] else [] | None \<Rightarrow> [])"
  by (auto simp: emojis_on_def List.map_filter_def split: option.splits)

lemma edits_of_snoc: "edits_of (w @ [e]) t =
    edits_of w t @ (case edit_target e of Some (t', b) \<Rightarrow> if t' = t then [b] else [] | None \<Rightarrow> [])"
  by (auto simp: edits_of_def List.map_filter_def split: option.splits)

lemma reactions_to_snoc: "reactions_to (w @ [e]) t k =
    reactions_to w t k @ (if reaction_target e = Some (t, k) then [e] else [])"
  by (simp add: reactions_to_def)

lemma emoji_reactors: "k \<in> set (emojis_on w t) \<longleftrightarrow> reactors w t k \<noteq> []"
proof -
  have "k \<in> set (emojis_on w t) \<longleftrightarrow> (\<exists>e \<in> set w. reaction_target e = Some (t, k))"
    unfolding emojis_on_def by (induction w) (auto simp: map_filter_simps split: option.splits if_splits)
  also have "\<dots> \<longleftrightarrow> reactors w t k \<noteq> []"
    by (auto simp: reactors_def reactions_to_def filter_empty_conv)
  finally show ?thesis .
qed

lemma entry_other: "reaction_target e \<noteq> Some (t, k) \<Longrightarrow> entry_spec (w @ [e]) t k = entry_spec w t k"
  by (simp add: entry_spec_def reactors_def first_reaction_def reactions_to_snoc)

lemma entry_empty: "k \<notin> set (emojis_on w t) \<Longrightarrow> entry_spec w t k = no_entry"
  by (simp add: emoji_reactors entry_spec_def no_entry_def)

lemma first_reaction_snoc:
  "reaction_target e = Some (t, k) \<Longrightarrow> first_reaction (w @ [e]) t k s =
     (if s \<in> set (reactors w t k) then first_reaction w t k s else if s = ev_sender e then ev_id e else [])"
proof -
  assume r: "reaction_target e = Some (t, k)"
  have "s \<in> set (reactors w t k) \<longleftrightarrow> find (\<lambda>e. ev_sender e = s) (reactions_to w t k) \<noteq> None"
    by (auto simp: reactors_def find_None)
  then show ?thesis using r
    by (cases "find (\<lambda>e. ev_sender e = s) (reactions_to w t k)")
      (auto simp: first_reaction_def reactions_to_snoc find_append_Nil find_append_Some)
qed

lemma entry_snoc:
  assumes "reaction_target e = Some (t, k)"
  shows "entry_spec (w @ [e]) t k = add_reactor (ev_sender e) (ev_id e) (entry_spec w t k)"
proof -
  have rs: "reactors (w @ [e]) t k =
      (if ev_sender e \<in> set (reactors w t k) then reactors w t k else reactors w t k @ [ev_sender e])"
    by (simp add: reactors_def reactions_to_snoc assms firsts_snoc)
  have same: "map (\<lambda>s. (s, first_reaction (w @ [e]) t k s)) (reactors w t k)
      = map (\<lambda>s. (s, first_reaction w t k s)) (reactors w t k)"
    by (simp add: first_reaction_snoc[OF assms])
  have d: "distinct (reactors w t k)" by (simp add: reactors_def)
  show ?thesis
    by (simp add: entry_spec_def add_reactor_def rs same upsert_map[OF d] first_reaction_snoc[OF assms])
qed

text \<open>The reaction map and the edit map after pass 1.\<close>
lemma index_snoc: "index_events (w @ [e]) = index_step e (index_events w)"
  by (simp add: index_events_def)

lemma emoji_spec_snoc:
  assumes "reaction_target e = Some (t, k)"
  shows "emoji_spec (w @ [e]) t = Some (upsert k (\<lambda>en. add_reactor (ev_sender e) (ev_id e) (case en of None \<Rightarrow> no_entry | Some en \<Rightarrow> en))
     (case emoji_spec w t of None \<Rightarrow> [] | Some em \<Rightarrow> em))"
proof -
  have ks: "emojis_on (w @ [e]) t = emojis_on w t @ [k]" using assms by (simp add: emojis_on_snoc)
  have em: "(case emoji_spec w t of None \<Rightarrow> [] | Some em \<Rightarrow> em) = map (\<lambda>k. (k, entry_spec w t k)) (firsts (emojis_on w t))"
    by (simp add: emoji_spec_def)
  have others: "k' \<noteq> k \<Longrightarrow> entry_spec (w @ [e]) t k' = entry_spec w t k'" for k'
    by (rule entry_other) (simp add: assms)
  show ?thesis
  proof (cases "k \<in> set (emojis_on w t)")
    case True
    then show ?thesis
      by (auto simp: em upsert_map emoji_spec_def ks firsts_snoc entry_snoc[OF assms] others intro!: map_cong)
  next
    case False
    then have "map (\<lambda>k'. (k', entry_spec (w @ [e]) t k')) (firsts (emojis_on w t)) = map (\<lambda>k'. (k', entry_spec w t k')) (firsts (emojis_on w t))"
      by (intro map_cong refl) (metis False others set_firsts)
    then show ?thesis using False
      by (simp add: em upsert_map emoji_spec_def ks firsts_snoc entry_snoc[OF assms] entry_empty)
  qed
qed

lemma emoji_spec_other:
  assumes "\<And>k. reaction_target e \<noteq> Some (t, k)"
  shows "emoji_spec (w @ [e]) t = emoji_spec w t"
proof -
  have "emojis_on (w @ [e]) t = emojis_on w t" using assms by (auto simp: emojis_on_snoc split: option.splits)
  then show ?thesis by (simp add: emoji_spec_def entry_other[OF assms])
qed

lemma index_lookup:
  "map_of (fst (index_events w)) t = emoji_spec w t \<and> map_of (snd (index_events w)) t = last_edit w t"
proof (induction w rule: rev_induct)
  case Nil
  then show ?case by (simp add: index_events_def emoji_spec_def last_edit_def emojis_on_def edits_of_def map_filter_simps)
next
  case (snoc e w)
  show ?case
  proof (cases "reaction_target e")
    case None
    have em: "emoji_spec (w @ [e]) t = emoji_spec w t" by (rule emoji_spec_other) (simp add: None)
    show ?thesis using snoc
      by (auto simp: index_snoc index_step_def None em last_edit_def edits_of_snoc split: prod.splits option.splits)
  next
    case (Some tk)
    then obtain t' k where r: "reaction_target e = Some (t', k)" by (cases tk) auto
    have ed: "last_edit (w @ [e]) t = last_edit w t"
      by (simp add: last_edit_def edits_of_snoc edit_not_reaction[OF r])
    show ?thesis
    proof (cases "t' = t")
      case True
      then show ?thesis using snoc r emoji_spec_snoc[of e t k w]
        by (cases "index_events w") (simp add: index_snoc index_step_def add_reaction_def ed)
    next
      case False
      then have "emoji_spec (w @ [e]) t = emoji_spec w t" by (intro emoji_spec_other) (simp add: r)
      then show ?thesis using snoc r False
        by (cases "index_events w") (simp add: index_snoc index_step_def add_reaction_def ed)
    qed
  qed
qed

lemma reaction_list_spec: "reaction_list (emoji_spec w t) = reactions_spec w t"
proof -
  have "filter (\<lambda>(k, e). en_userIds e \<noteq> []) (map (\<lambda>k. (k, entry_spec w t k)) (firsts (emojis_on w t)))
      = map (\<lambda>k. (k, entry_spec w t k)) (firsts (emojis_on w t))"
    by (rule filter_True) (auto simp: entry_spec_def emoji_reactors)
  then show ?thesis
    by (auto simp: reaction_list_def emoji_spec_def reactions_spec_def entry_spec_def reaction_spec_def)
qed

text \<open>A message as the events around it say it is.\<close>
definition message_spec :: "media_env \<Rightarrow> matrix_event list \<Rightarrow> matrix_event \<Rightarrow> ChatMessage" where
  "message_spec env w ev = (let c = to_message env ([], []) ev in
     c\<lparr>cm_body := (if ev_redacted ev then [] else case last_edit w (ev_id ev) of Some b \<Rightarrow> b | None \<Rightarrow> cm_body c),
       cm_edited := (last_edit w (ev_id ev) \<noteq> None),
       cm_reactions := reactions_spec w (ev_id ev)\<rparr>)"

lemma to_message_spec: "to_message env (index_events w) ev = message_spec env w ev"
proof -
  have "map_of (snd (index_events w)) (ev_id ev) = last_edit w (ev_id ev)"
    and "reaction_list (map_of (fst (index_events w)) (ev_id ev)) = reactions_spec w (ev_id ev)"
    using index_lookup[of w "ev_id ev"] reaction_list_spec[of w "ev_id ev"] by simp_all
  then show ?thesis
    by (auto simp: to_message_def message_spec_def Let_def split: option.split)
qed

lemma extract_spec: "extractMessages env evs = map (message_spec env (recent evs)) (filter shown_event (recent evs))"
  by (simp add: extractMessages_def to_message_spec Let_def)

section \<open>One more event\<close>

lemma recent_short: "length evs \<le> 1000 \<Longrightarrow> recent evs = evs"
  by (simp add: recent_def)

lemma reactions_spec_other:
  assumes "\<And>k. reaction_target e \<noteq> Some (t, k)"
  shows "reactions_spec (w @ [e]) t = reactions_spec w t"
  using emoji_spec_other[OF assms] reaction_list_spec by metis

lemma message_spec_id [simp]: "cm_id (message_spec env w ev) = ev_id ev" "cm_redacted (message_spec env w ev) = ev_redacted ev"
  by (simp_all add: message_spec_def to_message_def Let_def)

lemma message_spec_edit:
  assumes "edit_target e = Some (t, b)"
  shows "message_spec env (w @ [e]) ev = (let c = message_spec env w ev in
     if cm_id c = t then c\<lparr>cm_body := if cm_redacted c then [] else b, cm_edited := True\<rparr> else c)"
proof -
  have nr: "reaction_target e = None" using assms edit_not_reaction[of e] by (cases "reaction_target e") auto
  have rx: "reactions_spec (w @ [e]) t' = reactions_spec w t'" for t' by (rule reactions_spec_other) (simp add: nr)
  have ed: "last_edit (w @ [e]) t' = (if t' = t then Some b else last_edit w t')" for t'
    using assms by (auto simp: last_edit_def edits_of_snoc)
  show ?thesis by (simp add: message_spec_def Let_def rx ed to_message_def)
qed

lemma message_spec_reaction:
  assumes "reaction_target e = Some (t, k)"
  shows "message_spec env (w @ [e]) ev = (let c = message_spec env w ev in
     if cm_id c = t then c\<lparr>cm_reactions := reactions_spec (w @ [e]) t\<rparr> else c)"
proof -
  have ed: "last_edit (w @ [e]) t' = last_edit w t'" for t'
    by (simp add: last_edit_def edits_of_snoc edit_not_reaction[OF assms])
  have "t' \<noteq> t \<Longrightarrow> reactions_spec (w @ [e]) t' = reactions_spec w t'" for t'
    by (rule reactions_spec_other) (simp add: assms)
  then show ?thesis by (simp add: message_spec_def Let_def ed to_message_def)
qed

definition edit_event :: "str \<Rightarrow> str \<Rightarrow> matrix_event \<Rightarrow> bool" where
  "edit_event i body e = (ev_type e = ''m.room.message'' \<and> \<not> ev_redacted e \<and> ev_content e = edit_content i body)"

definition reaction_event :: "str \<Rightarrow> str \<Rightarrow> matrix_event \<Rightarrow> bool" where
  "reaction_event i k e = (ev_type e = ''m.reaction'' \<and> \<not> ev_redacted e \<and> ev_content e = reaction_content i k)"

lemma edit_event_target:
  "edit_event i body e \<Longrightarrow> i \<noteq> [] \<Longrightarrow> body \<noteq> [] \<Longrightarrow> edit_target e = Some (i, body) \<and> \<not> shown_event e"
  by (simp add: edit_event_def edit_target_def is_edit_def shown_event_def relates_to_def jopt_def edit_content_def text_of_def)

lemma reaction_event_target:
  "reaction_event i k e \<Longrightarrow> i \<noteq> [] \<Longrightarrow> k \<noteq> [] \<Longrightarrow> reaction_target e = Some (i, k) \<and> \<not> shown_event e"
  by (simp add: reaction_event_def reaction_target_def shown_event_def relates_to_def jopt_def reaction_content_def text_of_def)

lemma extract_edit:
  assumes "length evs < 1000" "edit_event i body e" "i \<noteq> []" "body \<noteq> []"
  shows "extractMessages env (evs @ [e]) = map (\<lambda>c. if cm_id c = i
     then c\<lparr>cm_body := if cm_redacted c then [] else body, cm_edited := True\<rparr> else c) (extractMessages env evs)"
  using assms edit_event_target[OF assms(2-4)]
  by (simp add: extract_spec recent_short message_spec_edit Let_def)

lemma extract_reaction:
  assumes "length evs < 1000" "reaction_event i k e" "i \<noteq> []" "k \<noteq> []"
  shows "extractMessages env (evs @ [e]) = map (\<lambda>c. if cm_id c = i
     then c\<lparr>cm_reactions := reactions_spec (evs @ [e]) i\<rparr> else c) (extractMessages env evs)"
  using assms reaction_event_target[OF assms(2-4)]
  by (simp add: extract_spec recent_short message_spec_reaction Let_def)

lemma find_reaction:
  "find (\<lambda>r. rx_emoji r = k) (reactions_spec w t) = (if k \<in> set (emojis_on w t) then Some (reaction_spec w t k) else None)"
proof -
  have "find (\<lambda>r. rx_emoji r = k) (map (reaction_spec w t) ks) = (if k \<in> set ks then Some (reaction_spec w t k) else None)" for ks
    by (induction ks) (auto simp: reaction_spec_def)
  then show ?thesis by (simp add: reactions_spec_def)
qed

lemma poll_summary_nth:
  "n < length options \<Longrightarrow> getPollVoteSummary rs options user ! n =
    (let emoji = (if n < length POLL_REACTION_EMOJIS then Some (POLL_REACTION_EMOJIS ! n) else None);
         reaction = find (\<lambda>r. Some (rx_emoji r) = emoji) rs
     in \<lparr>pv_emoji = emoji, pv_option = options ! n,
         pv_count = (case reaction of None \<Rightarrow> 0 | Some r \<Rightarrow> rx_count r),
         pv_selected = (case (user, reaction) of (Some u, Some r) \<Rightarrow> u \<in> set (rx_userIds r) | _ \<Rightarrow> False),
         pv_reactionEventId = (case (user, reaction) of (Some u, Some r) \<Rightarrow> map_of (rx_eventIds r) u | _ \<Rightarrow> None)\<rparr>)"
  unfolding getPollVoteSummary_def by (subst nth_map) (simp_all add: nth_enumerate_eq del: enumerate_simps)

lemma map_of_graph: "u \<in> set us \<Longrightarrow> map_of (map (\<lambda>s. (s, f s)) us) u = Some (f u)"
  by (induction us) auto

lemma length_reactors: "length (reactors w t k) = card {ev_sender e |e. e \<in> set w \<and> reaction_target e = Some (t, k)}"
proof -
  have "length (reactors w t k) = card (set (reactors w t k))"
    by (simp only: reactors_def distinct_card[OF distinct_firsts])
  also have "set (reactors w t k) = {ev_sender e |e. e \<in> set w \<and> reaction_target e = Some (t, k)}"
    by (auto simp: reactors_def reactions_to_def)
  finally show ?thesis .
qed

lemma first_reaction_event:
  assumes "u \<in> set (reactors w t k)"
  shows "\<exists>e \<in> set w. reaction_target e = Some (t, k) \<and> ev_sender e = u \<and> ev_id e = first_reaction w t k u"
proof -
  have "find (\<lambda>e. ev_sender e = u) (reactions_to w t k) \<noteq> None" using assms by (auto simp: reactors_def find_None)
  then obtain e where e: "find (\<lambda>e. ev_sender e = u) (reactions_to w t k) = Some e" by auto
  have m: "e \<in> set w" "reaction_target e = Some (t, k)" "ev_sender e = u"
    using find_SomeD[OF e] by (simp_all add: reactions_to_def)
  have "first_reaction w t k u = ev_id e" by (simp add: first_reaction_def e)
  with m show ?thesis by metis
qed

lemma message_key_edit:
  assumes "cm_edited c" "length (cm_body c) = length b" "\<not> cm_redacted c"
  shows "message_key (c\<lparr>cm_body := b, cm_edited := True\<rparr>) = message_key c"
  using assms by (simp add: message_key_def)

section \<open>Trimming\<close>

lemma remove_ids:
  assumes "\<forall>e \<in> set xs. ev_id e \<noteq> []"
  shows "fold (\<lambda>ev timeline. if ev_id ev = [] then timeline else removeEvent (ev_id ev) timeline) xs ys
    = filter (\<lambda>e. ev_id e \<notin> ev_id ` set xs) ys"
  using assms by (induction xs arbitrary: ys) (auto simp: removeEvent_def intro!: filter_cong)

lemma trim_newest:
  assumes "distinct (map ev_id evs)" "[] \<notin> ev_id ` set evs"
  shows "trimTimeline evs = drop (length evs - MAX_TIMELINE_EVENTS) evs"
proof (cases "length evs \<le> MAX_TIMELINE_EVENTS")
  case False
  define n where "n = length evs - MAX_TIMELINE_EVENTS"
  have split: "evs = take n evs @ drop n evs" by simp
  have "\<forall>e \<in> set (take n evs). ev_id e \<noteq> []" using assms(2) set_take_subset[of n evs] by force
  then have "trimTimeline evs = filter (\<lambda>e. ev_id e \<notin> ev_id ` set (take n evs)) (take n evs @ drop n evs)"
    using False by (simp add: trimTimeline_def remove_ids n_def)
  also have "\<dots> = filter (\<lambda>e. ev_id e \<notin> ev_id ` set (take n evs)) (take n evs)
      @ filter (\<lambda>e. ev_id e \<notin> ev_id ` set (take n evs)) (drop n evs)" by (rule filter_append)
  also have "filter (\<lambda>e. ev_id e \<notin> ev_id ` set (take n evs)) (take n evs) = []" by (simp add: filter_empty_conv)
  also have "[] @ filter (\<lambda>e. ev_id e \<notin> ev_id ` set (take n evs)) (drop n evs)
      = filter (\<lambda>e. ev_id e \<notin> ev_id ` set (take n evs)) (drop n evs)" by simp
  also have "\<dots> = drop n evs"
  proof (rule filter_True, rule ballI)
    fix e assume e: "e \<in> set (drop n evs)"
    have "distinct (map ev_id (take n evs) @ map ev_id (drop n evs))" using assms(1) split by (metis map_append)
    then show "ev_id e \<notin> ev_id ` set (take n evs)" using e by auto
  qed
  finally show ?thesis by (simp add: n_def)
qed (simp add: trimTimeline_def)

section \<open>Properties\<close>

definition said :: "str \<Rightarrow> str \<Rightarrow> str \<Rightarrow> json \<Rightarrow> matrix_event" where
  "said i who ty content = \<lparr>ev_id = i, ev_sender = who, ev_type = ty, ev_ts = 0, ev_redacted = False, ev_content = content\<rparr>"

definition hello :: matrix_event where
  "hello = said ''$1'' ''@a:x'' ''m.room.message'' (JObj [(''msgtype'', JStr ''m.text''), (''body'', JStr ''hello'')])"

definition no_media :: media_env where
  "no_media = \<lparr>me_apiBase = ''/api'', me_token = None\<rparr>"

text \<open>C17. The two passes compute what the events say: of the last thousand events every message that is no edit
  is shown once, in order, with the body of its last unredacted edit, and under it each emoji once, with the
  distinct senders of its unredacted reactions in the order they first reacted.\<close>
theorem extraction_folds_events:
  "extractMessages env evs = map (message_spec env (recent evs)) (filter shown_event (recent evs))"
  by (rule extract_spec)

text \<open>The edit that \<open>useEditMessage\<close> posts shows its text in the place of the message, as edited, and changes
  nothing else; a redacted message stays empty. Nothing is asked of the sender of the edit: whoever posts
  it, the text stands under the name of the message's author.\<close>
theorem edit_replaces_body:
  assumes "length evs < 1000" and "edit_event i body e" and "i \<noteq> []" and "body \<noteq> []"
  shows "extractMessages env (evs @ [e]) = map (\<lambda>c. if cm_id c = i
     then c\<lparr>cm_body := if cm_redacted c then [] else body, cm_edited := True\<rparr> else c) (extractMessages env evs)"
  by (rule extract_edit[OF assms])

theorem edit_replaces_body_witness:
  "map (\<lambda>c. (cm_sender c, cm_body c)) (extractMessages no_media [hello, said ''$2'' ''@mallory:x'' ''m.room.message'' (edit_content ''$1'' ''bye'')])
    = [(''@a:x'', ''bye'')]"
proof -
  have "edit_event ''$1'' ''bye'' (said ''$2'' ''@mallory:x'' ''m.room.message'' (edit_content ''$1'' ''bye''))"
    by (simp add: edit_event_def said_def)
  from edit_replaces_body[OF _ this, of "[hello]" no_media]
  have "extractMessages no_media [hello, said ''$2'' ''@mallory:x'' ''m.room.message'' (edit_content ''$1'' ''bye'')]
      = map (\<lambda>c. if cm_id c = ''$1'' then c\<lparr>cm_body := if cm_redacted c then [] else ''bye'', cm_edited := True\<rparr> else c)
          (extractMessages no_media [hello])" by simp
  moreover have "map (\<lambda>c. (cm_sender c, cm_id c, cm_redacted c)) (extractMessages no_media [hello]) = [(''@a:x'', ''$1'', False)]"
    by code_simp
  ultimately show ?thesis by auto
qed

text \<open>Voting in a poll counts: after a reaction with the keycap of an option, that option of the poll under the
  message is selected for the voter, counts the distinct users that gave this reaction, and names one of the
  voter's own reactions as the one to redact.\<close>
theorem poll_vote_counts:
  assumes "length evs < 1000" and "reaction_event i (POLL_REACTION_EMOJIS ! n) e" and "i \<noteq> []"
    and "n < length POLL_REACTION_EMOJIS" and "n < length options"
    and "c \<in> set (extractMessages env (evs @ [e]))" and "cm_id c = i"
  shows "\<exists>mine. let v = getPollVoteSummary (cm_reactions c) options (Some (ev_sender e)) ! n in
     pv_selected v \<and> pv_option v = options ! n
     \<and> pv_count v = card {ev_sender r |r. r \<in> set (evs @ [e]) \<and> reaction_target r = Some (i, POLL_REACTION_EMOJIS ! n)}
     \<and> mine \<in> set (evs @ [e]) \<and> ev_sender mine = ev_sender e
     \<and> reaction_target mine = Some (i, POLL_REACTION_EMOJIS ! n) \<and> pv_reactionEventId v = Some (ev_id mine)"
proof -
  define k where "k = POLL_REACTION_EMOJIS ! n"
  have k: "k \<noteq> []"
  proof -
    have "\<forall>k \<in> set POLL_REACTION_EMOJIS. k \<noteq> []" by (simp add: POLL_REACTION_EMOJIS_def keycap_def)
    then show ?thesis unfolding k_def by (rule bspec) (rule nth_mem[OF assms(4)])
  qed
  have tg: "reaction_target e = Some (i, k)"
    using reaction_event_target[OF assms(2)] assms(3) k by (simp add: k_def)
  have rx: "cm_reactions c = reactions_spec (evs @ [e]) i"
  proof -
    obtain c0 where c0: "c = (if cm_id c0 = i then c0\<lparr>cm_reactions := reactions_spec (evs @ [e]) i\<rparr> else c0)"
      using assms(6) unfolding extract_reaction[OF assms(1) assms(2)[folded k_def] assms(3) k] set_map by (rule imageE)
    show ?thesis using assms(7) unfolding c0 by (cases "cm_id c0 = i") simp_all
  qed
  have u: "ev_sender e \<in> set (reactors (evs @ [e]) i k)" by (auto simp: reactors_def reactions_to_def tg)
  then have ke: "k \<in> set (emojis_on (evs @ [e]) i)" by (auto simp: emoji_reactors)
  obtain mine where m: "mine \<in> set (evs @ [e])" "reaction_target mine = Some (i, k)" "ev_sender mine = ev_sender e"
    "ev_id mine = first_reaction (evs @ [e]) i k (ev_sender e)"
    using first_reaction_event[OF u] by blast
  have v: "getPollVoteSummary (cm_reactions c) options (Some (ev_sender e)) ! n =
      \<lparr>pv_emoji = Some k, pv_option = options ! n, pv_count = length (reactors (evs @ [e]) i k), pv_selected = True,
        pv_reactionEventId = Some (ev_id mine)\<rparr>"
  proof -
    have "getPollVoteSummary (cm_reactions c) options (Some (ev_sender e)) ! n =
        (let reaction = find (\<lambda>r. Some (rx_emoji r) = Some k) (cm_reactions c)
         in \<lparr>pv_emoji = Some k, pv_option = options ! n,
          pv_count = (case reaction of None \<Rightarrow> 0 | Some r \<Rightarrow> rx_count r),
          pv_selected = (case reaction of Some r \<Rightarrow> ev_sender e \<in> set (rx_userIds r) | _ \<Rightarrow> False),
          pv_reactionEventId = (case reaction of Some r \<Rightarrow> map_of (rx_eventIds r) (ev_sender e) | _ \<Rightarrow> None)\<rparr>)"
      by (simp only: poll_summary_nth[OF assms(5)] if_P[OF assms(4)] k_def[symmetric] Let_def option.case prod.case)
    also have "find (\<lambda>r. Some (rx_emoji r) = Some k) (cm_reactions c) = Some (reaction_spec (evs @ [e]) i k)"
      using ke by (simp only: option.inject rx find_reaction if_True)
    finally show ?thesis using u by (simp add: reaction_spec_def map_of_graph m(4) Let_def del: append_assoc)
  qed
  show ?thesis
    by (intro exI[of _ mine]) (use m in \<open>simp only: v Let_def k_def[symmetric] length_reactors PollVote.simps simp_thms\<close>)
qed

definition poll :: matrix_event where
  "poll = said ''$1'' ''@a:x'' ''m.room.message'' (message_content ''/poll tea? | yes | no'')"

definition vote :: matrix_event where
  "vote = said ''$2'' ''@b:x'' ''m.reaction'' (reaction_content ''$1'' (POLL_REACTION_EMOJIS ! 1))"

theorem poll_vote_counts_witness:
  "pv_selected (getPollVoteSummary (cm_reactions (hd (extractMessages no_media [poll, vote]))) [''yes'', ''no''] (Some ''@b:x'') ! 1)"
proof -
  have r: "reaction_event ''$1'' (POLL_REACTION_EMOJIS ! 1) vote" "ev_sender vote = ''@b:x''"
    by (simp_all add: reaction_event_def vote_def said_def)
  have x: "map cm_id (extractMessages no_media [poll, vote]) = [''$1'']" by code_simp
  then have c: "hd (extractMessages no_media [poll, vote]) \<in> set (extractMessages no_media ([poll] @ [vote]))"
    "cm_id (hd (extractMessages no_media [poll, vote])) = ''$1''"
    by (cases "extractMessages no_media [poll, vote]"; simp)+
  show ?thesis
    using poll_vote_counts[OF _ r(1) _ _ _ c, of "[''yes'', ''no'']"] by (simp add: r(2) poll_emojis Let_def)
qed

text \<open>Trimming keeps the newest five hundred events of a room, in order, whenever its events have distinct ids.\<close>
theorem trim_keeps_newest:
  assumes "distinct (map ev_id evs)" and "[] \<notin> ev_id ` set evs"
  shows "trimTimeline evs = drop (length evs - 500) evs"
  using trim_newest[OF assms] by (simp add: MAX_TIMELINE_EVENTS_def)

theorem trim_keeps_newest_witness:
  "length (trimTimeline (map (\<lambda>n. said (replicate (Suc n) CHR ''x'') [] [] JNull) [0..<502])) = 500"
proof -
  have d: "distinct (map ev_id (map (\<lambda>n. said (replicate (Suc n) CHR ''x'') [] [] JNull) [0..<502]))"
    by (simp add: distinct_map inj_on_def said_def del: upt_Suc replicate_Suc)
  have n: "[] \<notin> ev_id ` set (map (\<lambda>n. said (replicate (Suc n) CHR ''x'') [] [] JNull) [0..<502])"
    by (auto simp: said_def)
  show ?thesis unfolding trim_keeps_newest[OF d n] by simp
qed

text \<open>A second edit of the same length never shows: the view's key has the length of the body in it, not the
  body, so a view that shows the first edit stays as it is.\<close>
theorem second_edit_not_shown:
  assumes "length evs < 999" and "edit_event i b1 e1" and "edit_event i b2 e2" and "i \<noteq> []" and "b1 \<noteq> []"
    and "length b1 = length b2" and "rv_room st = Some r" and "rooms r = Some (evs @ [e1] @ [e2])"
    and "rv_messages st = extractMessages env (evs @ [e1])" and "rv_lastIds st = idsKey (rv_messages st)"
  shows "refresh env rooms st = st \<and> extractMessages env (evs @ [e1] @ [e2]) =
     map (\<lambda>c. if cm_id c = i then c\<lparr>cm_body := if cm_redacted c then [] else b2, cm_edited := True\<rparr> else c) (rv_messages st)"
proof -
  have b2: "b2 \<noteq> []" using assms(5,6) by auto
  have two: "extractMessages env (evs @ [e1] @ [e2]) =
      map (\<lambda>c. if cm_id c = i then c\<lparr>cm_body := if cm_redacted c then [] else b2, cm_edited := True\<rparr> else c) (rv_messages st)"
    using extract_edit[of "evs @ [e1]" i b2 e2 env] assms(1,3,4,9) b2 by simp
  have first: "rv_messages st =
      map (\<lambda>c. if cm_id c = i then c\<lparr>cm_body := if cm_redacted c then [] else b1, cm_edited := True\<rparr> else c) (extractMessages env evs)"
    using extract_edit[of evs i b1 e1 env] assms(1,2,4,5,9) by simp
  have one: "cm_id c = i \<Longrightarrow> cm_edited c \<and> cm_body c = (if cm_redacted c then [] else b1)"
    if c: "c \<in> set (rv_messages st)" for c
  proof -
    obtain c0 where c0: "c = (if cm_id c0 = i then c0\<lparr>cm_body := if cm_redacted c0 then [] else b1, cm_edited := True\<rparr> else c0)"
      using c unfolding first set_map by (rule imageE)
    show "cm_id c = i \<Longrightarrow> cm_edited c \<and> cm_body c = (if cm_redacted c then [] else b1)"
      unfolding c0 by (cases "cm_id c0 = i") simp_all
  qed
  have "map message_key (extractMessages env (evs @ [e1] @ [e2])) = map message_key (rv_messages st)"
    unfolding two map_map
  proof (rule map_cong[OF refl])
    fix c assume c: "c \<in> set (rv_messages st)"
    show "(message_key \<circ> (\<lambda>c. if cm_id c = i then c\<lparr>cm_body := if cm_redacted c then [] else b2, cm_edited := True\<rparr> else c)) c = message_key c"
    proof (cases "cm_id c = i")
      case True
      then show ?thesis using one[OF c True] assms(6) by (cases "cm_redacted c") (simp_all add: message_key_def)
    qed simp
  qed
  then have "idsKey (extractMessages env (evs @ [e1] @ [e2])) = rv_lastIds st" by (simp add: idsKey_def assms(10))
  then show ?thesis using two by (simp add: refresh_def live_def assms(7,8))
qed

definition edits :: "matrix_event list" where
  "edits = [said ''$2'' ''@a:x'' ''m.room.message'' (edit_content ''$1'' ''tea''),
     said ''$3'' ''@a:x'' ''m.room.message'' (edit_content ''$1'' ''ale'')]"

theorem second_edit_not_shown_witness:
  "let st = refresh no_media (\<lambda>_. Some (hello # take 1 edits)) (freshView\<lparr>rv_room := Some ''!r''\<rparr>);
       st2 = refresh no_media (\<lambda>_. Some (hello # edits)) st
   in map cm_body (rv_messages st2) = [''tea''] \<and> map cm_body (extractMessages no_media (hello # edits)) = [''ale'']"
proof -
  define st where "st = refresh no_media (\<lambda>_. Some (hello # take 1 edits)) (freshView\<lparr>rv_room := Some ''!r''\<rparr>)"
  have e: "edit_event ''$1'' ''tea'' (edits ! 0)" "edit_event ''$1'' ''ale'' (edits ! 1)"
    by (simp_all add: edits_def edit_event_def said_def)
  have l: "edits = [edits ! 0] @ [edits ! 1]" by (simp add: edits_def)
  have m: "map cm_body (extractMessages no_media (hello # take 1 edits)) = [''tea'']"
    "map cm_body (extractMessages no_media (hello # edits)) = [''ale'']"
    "idsKey (extractMessages no_media (hello # take 1 edits)) \<noteq> []" by code_simp+
  have st: "rv_room st = Some ''!r''" "rv_messages st = extractMessages no_media (hello # take 1 edits)"
    "rv_lastIds st = idsKey (rv_messages st)"
    using m(3) by (simp_all add: st_def refresh_def live_def freshView_def Let_def)
  have t: "hello # take 1 edits = [hello] @ [edits ! 0]" by (simp add: edits_def)
  have "refresh no_media (\<lambda>_. Some (hello # edits)) st = st"
    using second_edit_not_shown[OF _ e _ _ _ st(1) _ _ st(3), of "[hello]" "\<lambda>_. Some (hello # edits)" no_media] l st(2) t
    by simp
  then show ?thesis using m st(2) unfolding Let_def st_def[symmetric] by simp
qed

text \<open>Leaving a room during its initial scrollback stops paging: the cancelled scrollback never clears the flag, so
  in the next room that has messages no older ones can be loaded.\<close>
theorem switching_away_stops_paging:
  assumes "rooms a = Some evs" and "\<not> list_ex (\<lambda>e. ev_type e = ''m.room.message'') evs"
    and "rooms b = Some evs'" and "list_ex (\<lambda>e. ev_type e = ''m.room.message'') evs'"
    and "bindRoom env rooms (Some a) st = (started, st1)" and "bindRoom env rooms (Some b) st1 = (started', st2)"
  shows "started \<and> \<not> started' \<and> scrollbackDone env rooms' (rv_gen st1) answer st2 = st2 \<and> loadMoreBegin rooms' st2 = None"
proof -
  have keep: "rv_isPaginating (refresh env rooms x) = rv_isPaginating x \<and> rv_gen (refresh env rooms x) = rv_gen x" for x
    by (simp add: refresh_def Let_def split: option.split)
  have "started \<and> rv_isPaginating st1" using assms(1,2,5) by (auto simp: bindRoom_def Let_def)
  moreover have "\<not> started' \<and> rv_isPaginating st2 = rv_isPaginating st1 \<and> rv_gen st2 = Suc (rv_gen st1)"
    using assms(3,4,6) by (auto simp: bindRoom_def Let_def keep)
  ultimately show ?thesis by (simp add: scrollbackDone_def loadMoreBegin_def)
qed

theorem switching_away_stops_paging_witness:
  "let rooms = [''!a'' \<mapsto> [], ''!b'' \<mapsto> [hello]]; (started, st1) = bindRoom no_media rooms (Some ''!a'') freshView;
       (started', st2) = bindRoom no_media rooms (Some ''!b'') st1
   in loadMoreBegin rooms (scrollbackDone no_media rooms (rv_gen st1) (Some True) st2) = None"
proof -
  define rooms where "rooms = [''!a'' \<mapsto> [], ''!b'' \<mapsto> [hello]]"
  obtain started st1 where b1: "bindRoom no_media rooms (Some ''!a'') freshView = (started, st1)" by force
  obtain started' st2 where b2: "bindRoom no_media rooms (Some ''!b'') st1 = (started', st2)" by force
  have r: "rooms ''!a'' = Some []" "rooms ''!b'' = Some [hello]" "list_ex (\<lambda>e. ev_type e = ''m.room.message'') [hello]"
    by (simp_all add: rooms_def hello_def said_def)
  show ?thesis
    using switching_away_stops_paging[OF r(1) _ r(2,3) b1 b2] b1 b2 by (simp add: rooms_def[symmetric] Let_def)
qed

text \<open>A refused message is tried again once, after a rejoin, and only when the refusal says the membership is gone
  and there is a session: a send succeeds exactly when a try does, posts at most twice, and is counted when it
  succeeded with a session.\<close>
theorem send_retries_once:
  assumes "present (se_room env)"
  shows "let ready = present (se_token env) \<and> present (se_serverId env); post = SendMessage (message_content typed) in
      (fst (sendRoomMessage env typed) = None \<longleftrightarrow> se_first env = None
        \<or> membership_lost (the (se_first env)) \<and> ready \<and> se_rejoin env = None \<and> se_second env = None)
      \<and> length (filter (\<lambda>s. s = post) (snd (sendRoomMessage env typed))) \<in> {1, 2}
      \<and> ((\<exists>s. CountMessage s \<in> set (snd (sendRoomMessage env typed))) \<longleftrightarrow> fst (sendRoomMessage env typed) = None \<and> ready)"
  using assms
  by (cases "se_first env"; cases "se_rejoin env"; cases "se_second env"; cases "membership_lost (the (se_first env))")
    (simp_all add: sendRoomMessage_def Let_def)

theorem send_retries_once_witness:
  "fst (sendRoomMessage \<lparr>se_room = Some ''!r'', se_first = Some ''M_FORBIDDEN: no membership'', se_second = None, se_rejoin = None,
     se_token = Some ''t'', se_serverId = Some ''s''\<rparr> ''hi'') = None"
proof -
  have "present (Some ''!r'')" "present (Some ''t'')" "present (Some ''s'')" "membership_lost ''M_FORBIDDEN: no membership''"
    by code_simp+
  then show ?thesis
    using send_retries_once[of "\<lparr>se_room = Some ''!r'', se_first = Some ''M_FORBIDDEN: no membership'', se_second = None,
      se_rejoin = None, se_token = Some ''t'', se_serverId = Some ''s''\<rparr>" "''hi''"] by (simp add: Let_def)
qed

end
