(* ===== verification/MatrixSync.thy ===== *)
theory MatrixSync
  imports Prelude
begin

text \<open>
  \<open>useMatrixSync\<close> of \<open>hooks/useMatrix.ts\<close>: what the client does on each sync event (the connection flag, the
  automatic logout on a rejected token), when it rebuilds the federated servers, and how it answers invites.
  The events and the client's rooms are the Matrix SDK's; what the hook does is a list of effects.
\<close>

datatype SyncState = SYNCING | PREPARED | ERROR | STOPPED | RECONNECTING | CATCHUP

record sync_event =
  sy_state :: SyncState
  sy_errcode :: "str option"

datatype sync_effect = SetSyncing bool | ToastSessionExpired | Logout

text \<open>One sync event; the state is \<open>tokenErrorCount\<close>.\<close>
definition onSync :: "sync_event \<Rightarrow> nat \<Rightarrow> nat \<times> sync_effect list" where
  "onSync ev tokenErrorCount =
    (if sy_state ev = SYNCING \<or> sy_state ev = PREPARED then (0, [SetSyncing True])
     else let flag = SetSyncing (sy_state ev \<noteq> ERROR \<and> sy_state ev \<noteq> STOPPED)
       in if sy_state ev = ERROR \<and> sy_errcode ev = Some ''M_UNKNOWN_TOKEN''
          then (Suc tokenErrorCount, flag # (if 3 \<le> Suc tokenErrorCount then [ToastSessionExpired, Logout] else []))
          else (tokenErrorCount, [flag]))"

definition sync_count :: "sync_event list \<Rightarrow> nat" where
  "sync_count evs = fold (\<lambda>ev n. fst (onSync ev n)) evs 0"

text \<open>The signature of the joined rooms, and the hydration that is skipped while it stays the same.\<close>
definition joined_signature :: "str list \<Rightarrow> str" where
  "joined_signature ids = join_with '','' (sort ids)"

definition hydrateFederated :: "str list \<Rightarrow> str \<Rightarrow> bool \<times> str" where
  "hydrateFederated joined prevIdsSig =
    (let s = joined_signature joined in if s = prevIdsSig then (False, prevIdsSig) else (True, s))"

record room_member =
  mb_userId :: str
  mb_roomId :: str
  mb_membership :: "str option"

definition onMembership :: "str \<Rightarrow> room_member \<Rightarrow> str option" where
  "onMembership self member =
    (if mb_userId member \<noteq> self \<or> mb_membership member \<noteq> Some ''invite'' then None else Some (mb_roomId member))"

text \<open>After the join: the servers are loaded again unless the room is a direct chat or nobody is signed in.\<close>
definition after_autojoin :: "str option \<Rightarrow> str option \<Rightarrow> bool" where
  "after_autojoin dmInviter accessToken =
    (dmInviter = None \<and> (case accessToken of None \<Rightarrow> False | Some t \<Rightarrow> t \<noteq> []))"

section \<open>Counting rejections\<close>

definition sync_ok :: "sync_event \<Rightarrow> bool" where
  "sync_ok ev = (sy_state ev = SYNCING \<or> sy_state ev = PREPARED)"

definition token_error :: "sync_event \<Rightarrow> bool" where
  "token_error ev = (sy_state ev = ERROR \<and> sy_errcode ev = Some ''M_UNKNOWN_TOKEN'')"

text \<open>The events since the last successful sync, the latest first.\<close>
definition since_ok :: "sync_event list \<Rightarrow> sync_event list" where
  "since_ok evs = takeWhile (\<lambda>ev. \<not> sync_ok ev) (rev evs)"

lemma onSync_cases:
  "sync_ok ev \<Longrightarrow> onSync ev n = (0, [SetSyncing True])"
  "token_error ev \<Longrightarrow> onSync ev n = (Suc n, SetSyncing False # (if 3 \<le> Suc n then [ToastSessionExpired, Logout] else []))"
  "\<not> sync_ok ev \<Longrightarrow> \<not> token_error ev \<Longrightarrow> onSync ev n = (n, [SetSyncing (sy_state ev \<noteq> ERROR \<and> sy_state ev \<noteq> STOPPED)])"
  by (auto simp: onSync_def sync_ok_def token_error_def Let_def)

lemma token_error_not_ok: "token_error ev \<Longrightarrow> \<not> sync_ok ev"
  by (auto simp: token_error_def sync_ok_def)

lemma sync_count_spec: "sync_count evs = length (filter token_error (since_ok evs))"
proof (induction evs rule: rev_induct)
  case (snoc ev evs)
  have "sync_count (evs @ [ev]) = fst (onSync ev (sync_count evs))" by (simp add: sync_count_def)
  then show ?case using snoc onSync_cases[of ev "sync_count evs"] token_error_not_ok[of ev]
    by (cases "sync_ok ev"; cases "token_error ev") (simp_all add: since_ok_def)
qed (simp add: sync_count_def since_ok_def)

section \<open>The signature tells the rooms\<close>

definition room_id :: "str \<Rightarrow> bool" where
  "room_id i = (i \<noteq> [] \<and> CHR '','' \<notin> set i)"

lemma join_empty: "\<forall>x \<in> set xs. room_id x \<Longrightarrow> join_with s xs = [] \<longleftrightarrow> xs = []"
  by (cases xs; cases "tl xs") (auto simp: room_id_def)

lemma signature_inject:
  assumes "\<forall>i \<in> set xs. room_id i" "\<forall>i \<in> set ys. room_id i"
  shows "joined_signature xs = joined_signature ys \<longleftrightarrow> mset xs = mset ys"
proof
  assume eq: "joined_signature xs = joined_signature ys"
  have "sort xs = sort ys"
  proof (cases "sort xs = [] \<or> sort ys = []")
    case True
    then show ?thesis using eq join_empty[of "sort xs" "'',''"] join_empty[of "sort ys" "'',''"] assms
      by (auto simp: joined_signature_def)
  next
    case False
    then have "split_on CHR '','' (joined_signature xs) = sort xs" "split_on CHR '','' (joined_signature ys) = sort ys"
      using assms by (auto simp: joined_signature_def room_id_def intro!: split_join)
    then show ?thesis using eq by simp
  qed
  then show "mset xs = mset ys" by (metis mset_sort)
next
  assume "mset xs = mset ys"
  then have "sort xs = sort ys" by (metis mset_sort properties_for_sort sorted_sort)
  then show "joined_signature xs = joined_signature ys" by (simp add: joined_signature_def)
qed

section \<open>Properties\<close>

text \<open>C18. The user is logged out at the third rejection of the token since the last successful sync, and at every one
  after it, and never otherwise; other failures in between neither count nor start the count again.\<close>
theorem logout_at_third_rejection:
  "Logout \<in> set (snd (onSync ev (sync_count evs)))
     \<longleftrightarrow> token_error ev \<and> 2 \<le> length (filter token_error (since_ok evs))"
  using onSync_cases[of ev "sync_count evs"] token_error_not_ok[of ev]
  by (cases "sync_ok ev"; cases "token_error ev") (auto simp: sync_count_spec)

text \<open>The federated servers are rebuilt exactly when the rooms the user has joined are not those of the last
  rebuild, however the client orders them.\<close>
theorem hydrates_on_change:
  assumes "\<forall>i \<in> set before. room_id i" and "\<forall>i \<in> set now. room_id i"
  shows "hydrateFederated now (joined_signature before) = (mset now \<noteq> mset before, joined_signature now)"
  using signature_inject[OF assms(2,1)] by (auto simp: hydrateFederated_def Let_def)

theorem hydrates_on_change_witness:
  "\<not> fst (hydrateFederated [''!b:x'', ''!a:x''] (joined_signature [''!a:x'', ''!b:x'']))"
proof -
  have "\<forall>i \<in> set [''!a:x'', ''!b:x'']. room_id i" by (simp add: room_id_def)
  then show ?thesis using hydrates_on_change[of "[''!a:x'', ''!b:x'']" "[''!b:x'', ''!a:x'']"] by (simp add: add_mset_commute)
qed

end
