(* ===== verification/Unread.thy ===== *)
theory Unread
  imports Timeline
begin

text \<open>
  \<open>hooks/useUnreadCounts.ts\<close>: the unread and highlight counts the client computes from a room's live timeline,
  the event a read marker is put on, and the gates of the receipts. \<open>hasUserReadEvent\<close> is the SDK's account of
  the user's receipts: the argument \<open>read\<close>.
\<close>

definition UNREAD_CONTRIBUTING_TYPES :: "str list" where
  "UNREAD_CONTRIBUTING_TYPES = [''m.room.message'', ''m.room.encrypted'', ''m.sticker'', ''m.call.invite'']"

definition UNREAD_DISPLAY_CAP :: nat where
  "UNREAD_DISPLAY_CAP = 99"

definition contributes :: "matrix_event \<Rightarrow> bool" where
  "contributes ev = (ev_type ev \<in> set UNREAD_CONTRIBUTING_TYPES)"

fun last_contributing :: "matrix_event list \<Rightarrow> matrix_event option" where
  "last_contributing [] = None"
| "last_contributing (ev # older) = (if contributes ev then Some ev else last_contributing older)"

definition findLastUnreadContributingEvent :: "matrix_event list \<Rightarrow> matrix_event option" where
  "findLastUnreadContributingEvent timeline = last_contributing (rev timeline)"

text \<open>The message mentions the user, or its body contains the user's id. A \<open>m.mentions\<close> that is no array falls
  through to the body.\<close>
definition highlights :: "str \<Rightarrow> matrix_event \<Rightarrow> bool" where
  "highlights userId ev =
    ((case as_arr (jopt (jget (ev_content ev) ''m.mentions'') ''user_ids'') of
        None \<Rightarrow> False | Some ids \<Rightarrow> JStr userId \<in> set ids)
     \<or> (case as_str (jget (ev_content ev) ''body'') of None \<Rightarrow> False | Some body \<Rightarrow> includes_sub userId body))"

text \<open>The walk from the latest event back; the first one already read ends it.\<close>
fun walk_unread :: "(str \<Rightarrow> bool) \<Rightarrow> str \<Rightarrow> matrix_event list \<Rightarrow> nat \<times> nat \<Rightarrow> nat \<times> nat" where
  "walk_unread read userId [] counts = counts"
| "walk_unread read userId (ev # older) counts =
     (if \<not> contributes ev \<or> ev_sender ev = userId \<or> ev_id ev = [] then walk_unread read userId older counts
      else if read (ev_id ev) then counts
      else walk_unread read userId older
        (Suc (fst counts), snd counts + (if highlights userId ev then 1 else 0)))"

definition computeUnreadForRoom :: "(str \<Rightarrow> bool) \<Rightarrow> str \<Rightarrow> matrix_event list \<Rightarrow> nat \<times> nat" where
  "computeUnreadForRoom read userId events =
    (case walk_unread read userId (rev events) (0, 0) of
       (unread, highlight) \<Rightarrow> (min unread (UNREAD_DISPLAY_CAP + 1), highlight))"

text \<open>The event the room's read marker is set on.\<close>
definition markRoomRead :: "matrix_event list option \<Rightarrow> matrix_event option" where
  "markRoomRead room = (case room of None \<Rightarrow> None
     | Some timeline \<Rightarrow> (case findLastUnreadContributingEvent timeline of None \<Rightarrow> None
       | Some ev \<Rightarrow> if ev_id ev = [] then None else Some ev))"

section \<open>The counts of all rooms\<close>

record client_room =
  cr_roomId :: str
  cr_timeline :: "matrix_event list"
  cr_read :: "str \<Rightarrow> bool"

record count_state =
  cs_counts :: "(str \<times> nat) list"
  cs_prevKey :: str

definition counts_of :: "(nat \<times> nat \<Rightarrow> nat) \<Rightarrow> str \<Rightarrow> client_room list \<Rightarrow> (str \<times> nat) list" where
  "counts_of selector userId rooms =
    fold (\<lambda>room m. let v = selector (computeUnreadForRoom (cr_read room) userId (cr_timeline room))
        in if 0 < v then upsert (cr_roomId room) (\<lambda>_. v) m else m) rooms []"

definition counts_key :: "(str \<times> nat) list \<Rightarrow> str" where
  "counts_key m = join_with '','' (map (\<lambda>(i, c). i @ '':'' @ nat_text c) m)"

definition updateCounts :: "(nat \<times> nat \<Rightarrow> nat) \<Rightarrow> str \<Rightarrow> client_room list \<Rightarrow> count_state \<Rightarrow> count_state" where
  "updateCounts selector userId rooms st =
    (let m = counts_of selector userId rooms
     in if counts_key m = cs_prevKey st then st else \<lparr>cs_counts = m, cs_prevKey = counts_key m\<rparr>)"

section \<open>The gates of the receipts\<close>

definition switch_receipt :: "str option \<Rightarrow> bool \<Rightarrow> bool \<Rightarrow> bool" where
  "switch_receipt roomId isVisible documentVisible = (present roomId \<and> isVisible \<and> documentVisible)"

record timeline_notice =
  tn_roomId :: "str option"
  tn_removed :: bool
  tn_liveEvent :: bool

definition live_receipt :: "str option \<Rightarrow> bool \<Rightarrow> bool \<Rightarrow> timeline_notice \<Rightarrow> bool" where
  "live_receipt roomId isVisible documentVisible n =
    (present roomId \<and> \<not> tn_removed n \<and> tn_liveEvent n \<and> tn_roomId n = roomId \<and> isVisible \<and> documentVisible)"

section \<open>What the walk counts\<close>

text \<open>Messages of others, and the run of them since the last one the user has read, the latest first.\<close>
definition countable :: "str \<Rightarrow> matrix_event \<Rightarrow> bool" where
  "countable userId ev = (contributes ev \<and> ev_sender ev \<noteq> userId \<and> ev_id ev \<noteq> [])"

definition unread_run :: "(str \<Rightarrow> bool) \<Rightarrow> str \<Rightarrow> matrix_event list \<Rightarrow> matrix_event list" where
  "unread_run read userId events =
    takeWhile (\<lambda>ev. \<not> read (ev_id ev)) (filter (countable userId) (rev events))"

lemma walk_spec:
  "walk_unread read userId evs (u, h) =
    (let run = takeWhile (\<lambda>ev. \<not> read (ev_id ev)) (filter (countable userId) evs)
     in (u + length run, h + length (filter (highlights userId) run)))"
  by (induction evs arbitrary: u h) (simp_all add: countable_def Let_def)

lemma last_contributing_split:
  "last_contributing evs = Some ev \<Longrightarrow> \<exists>later older. evs = later @ ev # older \<and> contributes ev \<and> (\<forall>e \<in> set later. \<not> contributes e)"
proof (induction evs)
  case (Cons e evs)
  show ?case
  proof (cases "contributes e")
    case True
    then show ?thesis using Cons.prems by (intro exI[of _ "[]"] exI[of _ evs]) auto
  next
    case False
    then obtain later older where "evs = later @ ev # older" "contributes ev" "\<forall>e \<in> set later. \<not> contributes e"
      using Cons by auto
    then show ?thesis using False by (intro exI[of _ "e # later"] exI[of _ older]) simp
  qed
qed simp

section \<open>Properties\<close>

text \<open>C19. The badge counts the messages, encrypted messages, stickers and calls of others since the last of them
  the user has read, one hundred at most; the highlight those that mention the user.\<close>
theorem unread_counts_run:
  "computeUnreadForRoom read userId events =
     (min (length (unread_run read userId events)) 100,
      length (filter (highlights userId) (unread_run read userId events)))"
  by (simp add: computeUnreadForRoom_def walk_spec unread_run_def UNREAD_DISPLAY_CAP_def Let_def)

text \<open>Marking a room read clears its badge: once the receipt on the marked event is in, so that it and every event
  before it count as read, both counts are zero, even when the marked event is the user's own.\<close>
theorem marking_clears_badge:
  assumes "markRoomRead (Some events) = Some ev"
    and "\<And>older later e. events = older @ ev # later \<Longrightarrow> e \<in> set (older @ [ev]) \<Longrightarrow> read (ev_id e)"
  shows "computeUnreadForRoom read userId events = (0, 0)"
proof -
  have "last_contributing (rev events) = Some ev"
    using assms(1) by (auto simp: markRoomRead_def findLastUnreadContributingEvent_def split: option.splits if_splits)
  then obtain later older where s: "rev events = later @ ev # older" "\<forall>e \<in> set later. \<not> contributes e"
    using last_contributing_split by blast
  then have "events = rev older @ ev # rev later" by (metis rev_rev_ident rev_append rev.simps(2) append_assoc append_Cons append_Nil)
  then have r: "e \<in> set (ev # older) \<Longrightarrow> read (ev_id e)" for e using assms(2) by auto
  have "filter (countable userId) later = []" using s(2) by (auto simp: filter_empty_conv countable_def)
  then have "unread_run read userId events = takeWhile (\<lambda>ev. \<not> read (ev_id ev)) (filter (countable userId) (ev # older))"
    by (simp add: unread_run_def s(1))
  also have "\<dots> = []"
  proof -
    have "\<forall>x \<in> set (filter (countable userId) (ev # older)). read (ev_id x)" using r by auto
    then show ?thesis by (cases "filter (countable userId) (ev # older)") simp_all
  qed
  finally show ?thesis by (simp add: computeUnreadForRoom_def walk_spec unread_run_def Let_def)
qed

theorem marking_clears_badge_witness:
  "computeUnreadForRoom (\<lambda>i. i \<in> {''$0'', ''$1''}) ''@me:x''
     [said ''$0'' ''@b:x'' ''m.room.message'' JNull, hello, said ''$2'' ''@b:x'' ''m.reaction'' JNull] = (0, 0)"
proof (rule marking_clears_badge)
  show "markRoomRead (Some [said ''$0'' ''@b:x'' ''m.room.message'' JNull, hello, said ''$2'' ''@b:x'' ''m.reaction'' JNull]) = Some hello"
    by (simp add: markRoomRead_def findLastUnreadContributingEvent_def contributes_def UNREAD_CONTRIBUTING_TYPES_def said_def hello_def)
  fix older later :: "matrix_event list" and e
  assume s: "[said ''$0'' ''@b:x'' ''m.room.message'' JNull, hello, said ''$2'' ''@b:x'' ''m.reaction'' JNull] = older @ hello # later"
    and e: "e \<in> set (older @ [hello])"
  have n: "said ''$0'' ''@b:x'' ''m.room.message'' JNull \<noteq> hello" "said ''$2'' ''@b:x'' ''m.reaction'' JNull \<noteq> hello"
    by (simp_all add: said_def hello_def)
  have "older = [said ''$0'' ''@b:x'' ''m.room.message'' JNull]"
    using s n by (auto simp: append_eq_Cons_conv Cons_eq_append_conv)
  then show "ev_id e \<in> {''$0'', ''$1''}" using e by (auto simp: said_def hello_def)
qed

end
