(* ===== verification/NoiseGate.thy ===== *)
theory NoiseGate
  imports Complex_Main Prelude
begin

text \<open>
  \<open>voice/noiseGate.ts\<close>: the microphone processor. Its audio graph is the set of connections between the
  nodes it builds, its gate a two-state machine with hysteresis and a hold time, driven by the level of the
  samples. The Web Audio nodes are the browser's: connecting and disconnecting them is the change of the
  connections, their sound is not modelled. Levels, gains and times are exact reals.
\<close>

definition INPUT_NOISE_GATE_HYSTERESIS_DB :: real where "INPUT_NOISE_GATE_HYSTERESIS_DB = 6"
definition INPUT_NOISE_GATE_HOLD_MS :: real where "INPUT_NOISE_GATE_HOLD_MS = 220"
definition INPUT_SIGNAL_METER_FLOOR_DB :: real where "INPUT_SIGNAL_METER_FLOOR_DB = - 72"
definition INPUT_SIGNAL_METER_CEIL_DB :: real where "INPUT_SIGNAL_METER_CEIL_DB = - 6"
definition SILENCE_FLOOR_DB :: real where "SILENCE_FLOOR_DB = - 100"

record VoiceInputSettings =
  vi_masterInputVolume :: real
  vi_preferredInputDeviceId :: "str option"
  vi_echoCancellation :: bool
  vi_noiseSuppression :: bool
  vi_autoGainControl :: bool
  vi_inputNoiseGateEnabled :: bool
  vi_inputNoiseGateThresholdDb :: real
  vi_voiceClarityEnabled :: "bool option"
  vi_voiceClarityStrength :: "real option"

section \<open>Levels\<close>

definition computeSignalLevelDb :: "real list \<Rightarrow> real" where
  "computeSignalLevelDb samples =
    (if samples = [] then SILENCE_FLOOR_DB
     else let rms = sqrt (sum_list (map (\<lambda>v. v * v) samples) / real (length samples))
       in if rms \<le> 0 then SILENCE_FLOOR_DB else max SILENCE_FLOOR_DB (20 * log 10 rms))"

definition normalizeSignalLevelDbToMeter :: "real \<Rightarrow> real \<Rightarrow> real \<Rightarrow> real" where
  "normalizeSignalLevelDbToMeter levelDb floorDb ceilDb =
    (if levelDb \<le> floorDb then 0 else if ceilDb \<le> levelDb then 1 else (levelDb - floorDb) / (ceilDb - floorDb))"

definition resolveNoiseGateOpenState :: "real \<Rightarrow> real \<Rightarrow> bool \<Rightarrow> real \<Rightarrow> real \<Rightarrow> real \<Rightarrow> bool" where
  "resolveNoiseGateOpenState levelDb thresholdDb wasOpen nowMs heldUntilMs hysteresisDb =
    (if thresholdDb \<le> levelDb then True
     else if wasOpen \<and> thresholdDb - hysteresisDb \<le> levelDb then True
     else nowMs < heldUntilMs)"

record MicTrackConstraints =
  mc_echoCancellation :: bool
  mc_noiseSuppression :: bool
  mc_autoGainControl :: bool
  mc_idealDeviceId :: "str option"
  mc_voiceIsolation :: bool

definition buildMicTrackConstraints :: "bool \<Rightarrow> VoiceInputSettings \<Rightarrow> MicTrackConstraints" where
  "buildMicTrackConstraints isolationSupported s =
    \<lparr>mc_echoCancellation = vi_echoCancellation s, mc_noiseSuppression = vi_noiseSuppression s,
     mc_autoGainControl = vi_autoGainControl s,
     mc_idealDeviceId = (case vi_preferredInputDeviceId s of None \<Rightarrow> None | Some d \<Rightarrow> if d = [] then None else Some d),
     mc_voiceIsolation = (isolationSupported \<and> vi_noiseSuppression s)\<rparr>"

section \<open>The processor\<close>

datatype audio_node =
    SourceNode | HighpassFilter | ClarityNotch | ClarityPresence | ClaritySibilance | ClarityCompressor
  | ClarityMakeupGain | AnalyserNode | OutputGainNode | GateGainNode | DestinationNode

datatype processed_track = OwnTrack | InputTrack

text \<open>The parameters \<open>tuneClarityNodes\<close> sets.\<close>
record clarity_params =
  cp_presenceGain :: real
  cp_sibilanceGain :: real
  cp_threshold :: real
  cp_ratio :: real
  cp_makeup :: real

record NoiseGateProcessor =
  ng_settings :: VoiceInputSettings
  ng_built :: bool
  ng_wires :: "(audio_node \<times> audio_node) list"
  ng_clarityBypassed :: bool
  ng_clarity :: clarity_params
  ng_outputGain :: real
  ng_gateTarget :: bool
  ng_gateOpen :: bool
  ng_heldUntilMs :: real
  ng_monitoring :: bool
  ng_processedTrack :: "processed_track option"
  ng_stopped :: nat

definition connect_to :: "audio_node \<Rightarrow> audio_node \<Rightarrow> (audio_node \<times> audio_node) list \<Rightarrow> (audio_node \<times> audio_node) list" where
  "connect_to a b ws = List.insert (a, b) ws"

text \<open>\<open>a.disconnect(b)\<close>; the exception when they are not connected is caught by the caller.\<close>
definition disconnect_from :: "audio_node \<Rightarrow> audio_node \<Rightarrow> (audio_node \<times> audio_node) list \<Rightarrow> (audio_node \<times> audio_node) list" where
  "disconnect_from a b ws = removeAll (a, b) ws"

definition clarityOn :: "VoiceInputSettings \<Rightarrow> bool" where
  "clarityOn s = (vi_voiceClarityEnabled s \<noteq> Some False)"

definition clarityStrength :: "VoiceInputSettings \<Rightarrow> real" where
  "clarityStrength s = (case vi_voiceClarityStrength s of None \<Rightarrow> 1 / 2 | Some x \<Rightarrow> x)"

definition tuned :: "real \<Rightarrow> clarity_params" where
  "tuned strength = (let s = max 0 (min 1 strength)
     in \<lparr>cp_presenceGain = 4 * s, cp_sibilanceGain = - 3 * s, cp_threshold = - 18 - 12 * s, cp_ratio = 1 + 4 * s,
         cp_makeup = 10 powr (6 * s / 20)\<rparr>)"

definition tuneClarityNodes :: "real \<Rightarrow> NoiseGateProcessor \<Rightarrow> NoiseGateProcessor" where
  "tuneClarityNodes strength p = (if ng_built p then p\<lparr>ng_clarity := tuned strength\<rparr> else p)"

definition routeClarity :: "bool \<Rightarrow> NoiseGateProcessor \<Rightarrow> NoiseGateProcessor" where
  "routeClarity engaged p =
    (if \<not> ng_built p \<or> engaged = (\<not> ng_clarityBypassed p) then p
     else let ws = disconnect_from HighpassFilter ClarityNotch
                (disconnect_from ClarityMakeupGain OutputGainNode
                  (disconnect_from HighpassFilter OutputGainNode (ng_wires p)))
       in if engaged
          then p\<lparr>ng_wires := connect_to ClarityMakeupGain OutputGainNode (connect_to HighpassFilter ClarityNotch ws),
                 ng_clarityBypassed := False\<rparr>
          else p\<lparr>ng_wires := connect_to HighpassFilter OutputGainNode ws, ng_clarityBypassed := True\<rparr>)"

definition rampGate :: "bool \<Rightarrow> NoiseGateProcessor \<Rightarrow> NoiseGateProcessor" where
  "rampGate opening p = (if ng_built p then p\<lparr>ng_gateTarget := opening\<rparr> else p)"

definition newProcessor :: "VoiceInputSettings \<Rightarrow> NoiseGateProcessor" where
  "newProcessor s = \<lparr>ng_settings = s, ng_built = False, ng_wires = [], ng_clarityBypassed = True, ng_clarity = tuned 0,
     ng_outputGain = 0, ng_gateTarget = False, ng_gateOpen = False, ng_heldUntilMs = 0, ng_monitoring = False,
     ng_processedTrack = None, ng_stopped = 0\<rparr>"

text \<open>\<open>ng_stopped\<close> counts the tracks of its own the processor has stopped.\<close>
definition destroy :: "NoiseGateProcessor \<Rightarrow> NoiseGateProcessor" where
  "destroy p = p\<lparr>ng_monitoring := False, ng_wires := [], ng_built := False,
     ng_stopped := ng_stopped p + (if ng_processedTrack p = Some OwnTrack then 1 else 0),
     ng_processedTrack := None, ng_clarityBypassed := True\<rparr>"

definition static_wires :: "(audio_node \<times> audio_node) list" where
  "static_wires = [(SourceNode, HighpassFilter), (HighpassFilter, AnalyserNode), (ClarityNotch, ClarityPresence),
     (ClarityPresence, ClaritySibilance), (ClaritySibilance, ClarityCompressor), (ClarityCompressor, ClarityMakeupGain),
     (OutputGainNode, GateGainNode), (GateGainNode, DestinationNode)]"

text \<open>\<open>buildable\<close>: the audio context could make the source, the first step that may throw; \<open>hasOutput\<close>: the
  destination has a track.\<close>
definition restart :: "bool \<Rightarrow> bool \<Rightarrow> NoiseGateProcessor \<Rightarrow> NoiseGateProcessor" where
  "restart buildable hasOutput p0 =
    (let p1 = (destroy p0)\<lparr>ng_gateOpen := \<not> vi_inputNoiseGateEnabled (ng_settings p0), ng_heldUntilMs := 0\<rparr>
     in if \<not> buildable then p1\<lparr>ng_processedTrack := Some InputTrack\<rparr>
        else let p2 = p1\<lparr>ng_built := True, ng_wires := static_wires, ng_outputGain := vi_masterInputVolume (ng_settings p0),
                   ng_gateTarget := ng_gateOpen p1\<rparr>;
                 p3 = tuneClarityNodes (clarityStrength (ng_settings p0)) p2;
                 p4 = routeClarity (clarityOn (ng_settings p0)) p3
          in p4\<lparr>ng_processedTrack := Some (if hasOutput then OwnTrack else InputTrack), ng_monitoring := True\<rparr>)"

definition updateSettings :: "VoiceInputSettings \<Rightarrow> NoiseGateProcessor \<Rightarrow> NoiseGateProcessor" where
  "updateSettings s p0 =
    (let prev = ng_settings p0;
         p1 = p0\<lparr>ng_settings := s\<rparr>;
         p2 = (if ng_built p1 then p1\<lparr>ng_outputGain := vi_masterInputVolume s\<rparr> else p1);
         p3 = (if ng_built p2 \<and> \<not> vi_inputNoiseGateEnabled s
               then rampGate True (p2\<lparr>ng_gateOpen := True, ng_heldUntilMs := 0\<rparr>) else p2);
         p4 = (if clarityOn s then tuneClarityNodes (clarityStrength s) p3 else p3)
     in if clarityOn s \<noteq> clarityOn prev then routeClarity (clarityOn s) p4 else p4)"

text \<open>One tick of the 40 ms monitor: the level of the samples and the time.\<close>
definition monitorTick :: "real \<Rightarrow> real \<Rightarrow> NoiseGateProcessor \<Rightarrow> NoiseGateProcessor" where
  "monitorTick levelDb nowMs p =
    (if \<not> ng_monitoring p \<or> \<not> ng_built p then p
     else if \<not> vi_inputNoiseGateEnabled (ng_settings p)
     then if ng_gateOpen p then p else rampGate True (p\<lparr>ng_gateOpen := True\<rparr>)
     else let thresholdDb = vi_inputNoiseGateThresholdDb (ng_settings p);
              held = (if thresholdDb \<le> levelDb then nowMs + INPUT_NOISE_GATE_HOLD_MS else ng_heldUntilMs p);
              shouldOpen = resolveNoiseGateOpenState levelDb thresholdDb (ng_gateOpen p) nowMs held INPUT_NOISE_GATE_HYSTERESIS_DB;
              p1 = p\<lparr>ng_heldUntilMs := held\<rparr>
       in if shouldOpen = ng_gateOpen p then p1 else rampGate shouldOpen (p1\<lparr>ng_gateOpen := shouldOpen\<rparr>))"

text \<open>The processor the room shares.\<close>
definition getVoiceInputProcessor :: "VoiceInputSettings \<Rightarrow> NoiseGateProcessor option \<Rightarrow> NoiseGateProcessor" where
  "getVoiceInputProcessor s shared = (case shared of None \<Rightarrow> newProcessor s | Some p \<Rightarrow> updateSettings s p)"

section \<open>Audibility\<close>

definition audible :: "NoiseGateProcessor \<Rightarrow> bool" where
  "audible p = ((SourceNode, DestinationNode) \<in> (set (ng_wires p))\<^sup>+)"

definition dry :: "NoiseGateProcessor \<Rightarrow> bool" where
  "dry p = ((HighpassFilter, OutputGainNode) \<in> set (ng_wires p))"

definition wet :: "NoiseGateProcessor \<Rightarrow> bool" where
  "wet p = ((HighpassFilter, ClarityNotch) \<in> set (ng_wires p) \<and> (ClarityMakeupGain, OutputGainNode) \<in> set (ng_wires p))"

text \<open>The wires of a built processor are the static ones and those of the paths taken.\<close>
definition wired :: "NoiseGateProcessor \<Rightarrow> (audio_node \<times> audio_node) set \<Rightarrow> bool" where
  "wired p extra = (set (ng_wires p) = set static_wires \<union> extra)"

definition dry_wires :: "(audio_node \<times> audio_node) set" where
  "dry_wires = {(HighpassFilter, OutputGainNode)}"

definition wet_wires :: "(audio_node \<times> audio_node) set" where
  "wet_wires = {(HighpassFilter, ClarityNotch), (ClarityMakeupGain, OutputGainNode)}"

text \<open>What the processor does while it runs: settings that change, and ticks of the monitor.\<close>
datatype gate_event = Update VoiceInputSettings | Tick real real

fun gate_step :: "gate_event \<Rightarrow> NoiseGateProcessor \<Rightarrow> NoiseGateProcessor" where
  "gate_step (Update s) p = updateSettings s p"
| "gate_step (Tick levelDb nowMs) p = monitorTick levelDb nowMs p"

definition gate_run :: "gate_event list \<Rightarrow> NoiseGateProcessor \<Rightarrow> NoiseGateProcessor" where
  "gate_run es p = fold gate_step es p"

lemma gate_run_snoc: "gate_run (es @ [e]) p = gate_step e (gate_run es p)"
  by (simp add: gate_run_def)

lemma tick_frame:
  "ng_wires (monitorTick l t p) = ng_wires p \<and> ng_built (monitorTick l t p) = ng_built p
    \<and> ng_clarityBypassed (monitorTick l t p) = ng_clarityBypassed p \<and> ng_settings (monitorTick l t p) = ng_settings p
    \<and> ng_monitoring (monitorTick l t p) = ng_monitoring p"
  by (simp add: monitorTick_def rampGate_def Let_def)

lemma update_frame:
  "ng_built (updateSettings s p) = ng_built p" "ng_settings (updateSettings s p) = s"
  "ng_monitoring (updateSettings s p) = ng_monitoring p"
  by (simp_all add: updateSettings_def routeClarity_def tuneClarityNodes_def rampGate_def Let_def)

lemma update_route:
  assumes "ng_built p"
  shows "ng_wires (updateSettings s p) = ng_wires (if clarityOn s = clarityOn (ng_settings p) then p else routeClarity (clarityOn s) p)
    \<and> ng_clarityBypassed (updateSettings s p) =
        ng_clarityBypassed (if clarityOn s = clarityOn (ng_settings p) then p else routeClarity (clarityOn s) p)"
  using assms by (simp add: updateSettings_def routeClarity_def tuneClarityNodes_def rampGate_def Let_def)

section \<open>Which wires there are\<close>

definition path_wires :: "bool \<Rightarrow> bool \<Rightarrow> (audio_node \<times> audio_node) set" where
  "path_wires routed bypassed = (if \<not> routed then {} else if bypassed then dry_wires else wet_wires)"

text \<open>\<open>routed\<close>: the clarity chain has been engaged since the graph was built.\<close>
definition graph_inv :: "bool \<Rightarrow> NoiseGateProcessor \<Rightarrow> bool" where
  "graph_inv routed p = (ng_built p \<and> (clarityOn (ng_settings p) \<longrightarrow> routed) \<and> ng_clarityBypassed p = (\<not> clarityOn (ng_settings p))
     \<and> wired p (path_wires routed (ng_clarityBypassed p)))"

lemma route_engaged:
  assumes "ng_built p" "ng_clarityBypassed p" "wired p (path_wires routed True)"
  shows "wired (routeClarity True p) wet_wires \<and> \<not> ng_clarityBypassed (routeClarity True p)"
  using assms by (auto simp: routeClarity_def Let_def wired_def path_wires_def connect_to_def disconnect_from_def
      static_wires_def dry_wires_def wet_wires_def)

lemma route_bypassed:
  assumes "ng_built p" "\<not> ng_clarityBypassed p" "wired p wet_wires"
  shows "wired (routeClarity False p) dry_wires \<and> ng_clarityBypassed (routeClarity False p)"
  using assms by (auto simp: routeClarity_def Let_def wired_def connect_to_def disconnect_from_def
      static_wires_def dry_wires_def wet_wires_def)

lemma graph_inv_update:
  assumes "graph_inv routed p"
  shows "graph_inv (routed \<or> clarityOn s) (updateSettings s p)"
proof -
  have b: "ng_built p" and w: "wired p (path_wires routed (ng_clarityBypassed p))" and r: "clarityOn (ng_settings p) \<longrightarrow> routed"
    and c: "ng_clarityBypassed p = (\<not> clarityOn (ng_settings p))" using assms unfolding graph_inv_def by blast+
  note f = update_frame[of s p] update_route[OF b, of s]
  consider "clarityOn s = clarityOn (ng_settings p)" | "clarityOn s" "\<not> clarityOn (ng_settings p)"
    | "\<not> clarityOn s" "clarityOn (ng_settings p)" by blast
  then show ?thesis
  proof cases
    case 1
    then show ?thesis using f b w r c by (auto simp: graph_inv_def wired_def path_wires_def)
  next
    case 2
    then show ?thesis using f b c route_engaged[OF b, of routed] w by (simp add: graph_inv_def wired_def path_wires_def)
  next
    case 3
    then show ?thesis using f b c r route_bypassed[OF b] w by (simp add: graph_inv_def wired_def path_wires_def)
  qed
qed

lemma graph_inv_tick: "graph_inv routed p \<Longrightarrow> graph_inv routed (monitorTick l t p)"
  by (simp add: graph_inv_def wired_def tick_frame)

lemma graph_inv_restart: "graph_inv (clarityOn (ng_settings p)) (restart True out p)"
proof -
  define q where "q = (destroy p)\<lparr>ng_gateOpen := \<not> vi_inputNoiseGateEnabled (ng_settings p), ng_heldUntilMs := 0,
    ng_built := True, ng_wires := static_wires, ng_outputGain := vi_masterInputVolume (ng_settings p),
    ng_gateTarget := \<not> vi_inputNoiseGateEnabled (ng_settings p), ng_clarity := tuned (clarityStrength (ng_settings p))\<rparr>"
  have q: "ng_built q" "ng_clarityBypassed q" "wired q {}" "ng_settings q = ng_settings p"
    by (simp_all add: q_def destroy_def wired_def)
  have r: "restart True out p = (routeClarity (clarityOn (ng_settings p)) q)
      \<lparr>ng_processedTrack := Some (if out then OwnTrack else InputTrack), ng_monitoring := True\<rparr>"
    by (simp add: restart_def Let_def q_def tuneClarityNodes_def destroy_def)
  have k: "ng_settings (routeClarity e q) = ng_settings p" "ng_built (routeClarity e q)" for e
    using q by (simp_all add: routeClarity_def Let_def)
  show ?thesis
  proof (cases "clarityOn (ng_settings p)")
    case True
    then show ?thesis using route_engaged[OF q(1,2), of False] q(3) k
      by (simp add: graph_inv_def r path_wires_def wired_def)
  next
    case False
    then have "routeClarity False q = q" using q(2) by (simp add: routeClarity_def)
    then show ?thesis using False q by (simp add: graph_inv_def r path_wires_def wired_def)
  qed
qed

fun engages :: "gate_event \<Rightarrow> bool" where
  "engages (Update s) = clarityOn s"
| "engages (Tick _ _) = False"

lemma graph_inv_run:
  "graph_inv routed p \<Longrightarrow> graph_inv (routed \<or> list_ex engages es) (gate_run es p)"
proof (induction es rule: rev_induct)
  case (snoc e es)
  then show ?case
    using graph_inv_update[of "routed \<or> list_ex engages es" "gate_run es p"] graph_inv_tick
    by (cases e) (simp_all add: gate_run_snoc disj_assoc)
qed (simp add: gate_run_def)

section \<open>Where the sound goes\<close>

lemma trancl_closed: "(a, b) \<in> r\<^sup>+ \<Longrightarrow> a \<in> C \<Longrightarrow> (\<And>x y. (x, y) \<in> r \<Longrightarrow> x \<in> C \<Longrightarrow> y \<in> C) \<Longrightarrow> b \<in> C"
  by (induction rule: trancl.induct) blast+

lemma silent_wires: "wired p {} \<Longrightarrow> \<not> audible p"
proof
  assume w: "wired p {}" and a: "audible p"
  have "DestinationNode \<in> {SourceNode, HighpassFilter, AnalyserNode}"
    by (rule trancl_closed[OF a[unfolded audible_def]]) (use w in \<open>auto simp: wired_def static_wires_def\<close>)
  then show False by simp
qed

lemma wire_trancl: "(a, b) \<in> r \<Longrightarrow> (b, c) \<in> r\<^sup>+ \<Longrightarrow> (a, c) \<in> r\<^sup>+"
  by (rule trancl_into_trancl2)

lemma output_path:
  assumes "wired p extra"
  shows "(OutputGainNode, DestinationNode) \<in> (set (ng_wires p))\<^sup>+"
    "(ClarityNotch, ClarityMakeupGain) \<in> (set (ng_wires p))\<^sup>+" "(SourceNode, HighpassFilter) \<in> set (ng_wires p)"
proof -
  have w: "set static_wires \<subseteq> set (ng_wires p)" using assms by (simp add: wired_def)
  show "(OutputGainNode, DestinationNode) \<in> (set (ng_wires p))\<^sup>+"
    by (rule wire_trancl[of _ GateGainNode], use w in \<open>simp add: static_wires_def\<close>,
        rule r_into_trancl, use w in \<open>simp add: static_wires_def\<close>)
  show "(ClarityNotch, ClarityMakeupGain) \<in> (set (ng_wires p))\<^sup>+"
    by (rule wire_trancl[of _ ClarityPresence], use w in \<open>simp add: static_wires_def\<close>,
        rule wire_trancl[of _ ClaritySibilance], use w in \<open>simp add: static_wires_def\<close>,
        rule wire_trancl[of _ ClarityCompressor], use w in \<open>simp add: static_wires_def\<close>,
        rule r_into_trancl, use w in \<open>simp add: static_wires_def\<close>)
  show "(SourceNode, HighpassFilter) \<in> set (ng_wires p)" using w by (simp add: static_wires_def)
qed

lemma dry_audible: "wired p dry_wires \<Longrightarrow> audible p"
  unfolding audible_def
  by (rule wire_trancl[OF output_path(3)], assumption, rule wire_trancl[OF _ output_path(1)])
    (auto simp: wired_def dry_wires_def)

lemma wet_audible: "wired p wet_wires \<Longrightarrow> audible p"
proof -
  assume w: "wired p wet_wires"
  have "(ClarityMakeupGain, DestinationNode) \<in> (set (ng_wires p))\<^sup>+"
    by (rule wire_trancl[OF _ output_path(1)[OF w]]) (use w in \<open>simp add: wired_def wet_wires_def\<close>)
  from trancl_trans[OF output_path(2)[OF w] this]
  have "(HighpassFilter, DestinationNode) \<in> (set (ng_wires p))\<^sup>+"
    by (rule wire_trancl[rotated]) (use w in \<open>simp add: wired_def wet_wires_def\<close>)
  then show ?thesis unfolding audible_def by (rule wire_trancl[OF output_path(3)[OF w]])
qed

lemma graph_inv_audible: "graph_inv routed p \<Longrightarrow> audible p = routed \<and> (dry p \<longleftrightarrow> routed \<and> ng_clarityBypassed p) \<and> (wet p \<longleftrightarrow> routed \<and> \<not> ng_clarityBypassed p)"
  using silent_wires[of p] dry_audible[of p] wet_audible[of p]
  by (cases routed; cases "ng_clarityBypassed p")
    (auto simp: graph_inv_def path_wires_def wired_def dry_def wet_def dry_wires_def wet_wires_def static_wires_def)

section \<open>The gate over its history\<close>

text \<open>The gate on samples (level, time), the latest first: it is open when the sample reaches the threshold, when it
  was open and the sample is within the hysteresis, or within the hold time of an earlier sample that did.\<close>
fun open_spec :: "real \<Rightarrow> (real \<times> real) list \<Rightarrow> bool" where
  "open_spec thr [] = False"
| "open_spec thr ((l, t) # older) = (thr \<le> l \<or> thr - 6 \<le> l \<and> open_spec thr older
     \<or> (\<exists>(l', t') \<in> set older. thr \<le> l' \<and> t < t' + 220))"

definition loud_until :: "real \<Rightarrow> (real \<times> real) list \<Rightarrow> real \<Rightarrow> bool" where
  "loud_until thr samples held = (\<forall>t \<ge> 0. (t < held) = (\<exists>(l', t') \<in> set samples. thr \<le> l' \<and> t < t' + 220))"

definition ticks :: "(real \<times> real) list \<Rightarrow> gate_event list" where
  "ticks samples = map (\<lambda>(l, t). Tick l t) samples"

definition gated :: "real \<Rightarrow> NoiseGateProcessor \<Rightarrow> bool" where
  "gated thr p = (ng_built p \<and> ng_monitoring p \<and> vi_inputNoiseGateEnabled (ng_settings p)
     \<and> vi_inputNoiseGateThresholdDb (ng_settings p) = thr)"

lemma gated_tick: "gated thr p \<Longrightarrow> gated thr (monitorTick l t p)"
  by (simp add: gated_def tick_frame)

lemma gated_tick_effect:
  assumes "gated thr p"
  shows "ng_heldUntilMs (monitorTick l t p) = (if thr \<le> l then t + 220 else ng_heldUntilMs p)"
    and "ng_gateOpen (monitorTick l t p) = (thr \<le> l \<or> ng_gateOpen p \<and> thr - 6 \<le> l \<or> t < ng_heldUntilMs p)"
    and "ng_gateTarget p = ng_gateOpen p \<Longrightarrow> ng_gateTarget (monitorTick l t p) = ng_gateOpen (monitorTick l t p)"
  using assms by (auto simp: gated_def monitorTick_def Let_def resolveNoiseGateOpenState_def rampGate_def
      INPUT_NOISE_GATE_HOLD_MS_def INPUT_NOISE_GATE_HYSTERESIS_DB_def)

lemma loud_until_snoc:
  assumes "loud_until thr samples held" "\<forall>(l', t') \<in> set samples. t' \<le> t"
  shows "loud_until thr (samples @ [(l, t)]) (if thr \<le> l then t + 220 else held)"
proof (cases "thr \<le> l")
  case True
  have "(\<exists>(l', t') \<in> set (samples @ [(l, t)]). thr \<le> l' \<and> u < t' + 220) = (u < t + 220)" for u
    using assms(2) True by force
  then show ?thesis using True by (simp add: loud_until_def)
next
  case False
  then show ?thesis using assms(1) by (simp add: loud_until_def)
qed

lemma gate_history:
  assumes "gated thr p" "\<not> ng_gateOpen p" "ng_heldUntilMs p = 0" "\<not> ng_gateTarget p"
    and "sorted (map snd samples)" "\<forall>(l, t) \<in> set samples. 0 \<le> t"
  shows "gated thr (gate_run (ticks samples) p) \<and> loud_until thr samples (ng_heldUntilMs (gate_run (ticks samples) p))
    \<and> ng_gateOpen (gate_run (ticks samples) p) = open_spec thr (rev samples)
    \<and> ng_gateTarget (gate_run (ticks samples) p) = ng_gateOpen (gate_run (ticks samples) p)"
  using assms(5,6)
proof (induction samples rule: rev_induct)
  case Nil
  then show ?case using assms(1-4) by (auto simp: gate_run_def ticks_def loud_until_def)
next
  case (snoc x samples)
  obtain l t where x: "x = (l, t)" by (cases x)
  define q where "q = gate_run (ticks samples) p"
  have ih: "gated thr q" "loud_until thr samples (ng_heldUntilMs q)" "ng_gateOpen q = open_spec thr (rev samples)"
    "ng_gateTarget q = ng_gateOpen q"
    using snoc by (simp_all add: q_def sorted_append)
  have r: "gate_run (ticks (samples @ [x])) p = monitorTick l t q"
    by (simp add: ticks_def gate_run_snoc x q_def)
  have le: "\<forall>(l', t') \<in> set samples. t' \<le> t" using snoc.prems(1) by (force simp: x sorted_append)
  have held: "(t < ng_heldUntilMs q) = (\<exists>(l', t') \<in> set samples. thr \<le> l' \<and> t < t' + 220)"
    using ih(2) snoc.prems(2) by (simp add: loud_until_def x)
  show ?case
    unfolding r
    using gated_tick[OF ih(1), of l t] gated_tick_effect[OF ih(1), of l t] ih loud_until_snoc[OF ih(2) le, of l]
    by (simp add: x held) blast
qed

section \<open>Properties\<close>

text \<open>C20. The microphone is heard exactly when voice clarity was on when its graph was built or has been turned on
  since, never over both paths at once. When clarity is off from the start nothing connects the filter to the
  output: the destination stays silent, with the gate open, until clarity is turned on.\<close>
theorem heard_iff_clarity_was_on:
  "audible (gate_run es (restart True out p)) = (clarityOn (ng_settings p) \<or> list_ex engages es)
     \<and> \<not> (dry (gate_run es (restart True out p)) \<and> wet (gate_run es (restart True out p)))"
  using graph_inv_audible[OF graph_inv_run[OF graph_inv_restart[of p out], of es]] by blast

text \<open>C21. The gate over any run of the monitor from closed is the gate over its history: open for a sample at the
  threshold, while it stays within the hysteresis, and for 220 ms after the last sample at the threshold; and the
  gain follows.\<close>
theorem gate_follows_history:
  assumes "gated thr p" and "\<not> ng_gateOpen p" and "ng_heldUntilMs p = 0" and "\<not> ng_gateTarget p"
    and "sorted (map snd samples)" and "\<forall>(l, t) \<in> set samples. 0 \<le> t"
  shows "ng_gateOpen (gate_run (ticks samples) p) = open_spec thr (rev samples)
    \<and> ng_gateTarget (gate_run (ticks samples) p) = open_spec thr (rev samples)"
  using gate_history[OF assms] by blast

text \<open>The level of samples between -1 and 1 is between -100 and 0 dB, and the meter is between 0 and 1 and grows
  with the level.\<close>
theorem meter_in_range:
  assumes "\<forall>v \<in> set samples. \<bar>v\<bar> \<le> 1" and "floorDb < ceilDb" and "a \<le> b"
  shows "- 100 \<le> computeSignalLevelDb samples \<and> computeSignalLevelDb samples \<le> 0
    \<and> 0 \<le> normalizeSignalLevelDbToMeter a floorDb ceilDb \<and> normalizeSignalLevelDbToMeter b floorDb ceilDb \<le> 1
    \<and> normalizeSignalLevelDbToMeter a floorDb ceilDb \<le> normalizeSignalLevelDbToMeter b floorDb ceilDb"
proof -
  have "sum_list (map (\<lambda>v. v * v) samples) \<le> real (length samples)"
    using assms(1) by (induction samples) (auto simp: abs_le_square_iff[of _ 1, simplified] power2_eq_square intro: add_mono)
  then have le: "sqrt (sum_list (map (\<lambda>v. v * v) samples) / real (length samples)) \<le> 1"
    by (cases "samples = []") (simp_all add: divide_le_eq)
  have "- 100 \<le> computeSignalLevelDb samples \<and> computeSignalLevelDb samples \<le> 0"
    using le by (auto simp: computeSignalLevelDb_def SILENCE_FLOOR_DB_def Let_def not_le log_le_zero_cancel_iff)
  moreover have "0 \<le> (a - floorDb) / (ceilDb - floorDb)" if "floorDb < a" using that assms(2) by simp
  moreover have "(x - floorDb) / (ceilDb - floorDb) \<le> 1" if "x < ceilDb" for x using that assms(2) by (simp add: divide_le_eq)
  moreover have "(a - floorDb) / (ceilDb - floorDb) \<le> (b - floorDb) / (ceilDb - floorDb)"
    using assms(2,3) by (simp add: divide_right_mono)
  moreover have "0 \<le> (b - floorDb) / (ceilDb - floorDb)" if "floorDb < b" using that assms(2) by simp
  ultimately show ?thesis using assms(2,3) unfolding normalizeSignalLevelDbToMeter_def by auto
qed

definition sample_settings :: VoiceInputSettings where
  "sample_settings = \<lparr>vi_masterInputVolume = 1, vi_preferredInputDeviceId = None, vi_echoCancellation = True,
     vi_noiseSuppression = True, vi_autoGainControl = True, vi_inputNoiseGateEnabled = True,
     vi_inputNoiseGateThresholdDb = - 42, vi_voiceClarityEnabled = Some False, vi_voiceClarityStrength = None\<rparr>"

theorem gate_follows_history_witness:
  "ng_gateOpen (gate_run (ticks [(- 40, 0), (- 60, 200)]) (restart True True (newProcessor sample_settings)))
    \<and> \<not> ng_gateOpen (gate_run (ticks [(- 40, 0), (- 60, 240)]) (restart True True (newProcessor sample_settings)))"
proof -
  define p where "p = restart True True (newProcessor sample_settings)"
  have p: "gated (- 42) p" "\<not> ng_gateOpen p" "ng_heldUntilMs p = 0" "\<not> ng_gateTarget p"
    by (simp_all add: p_def gated_def restart_def newProcessor_def sample_settings_def destroy_def tuneClarityNodes_def
        routeClarity_def clarityOn_def Let_def)
  show ?thesis
    using gate_follows_history[OF p, of "[(- 40, 0), (- 60, 200)]"] gate_follows_history[OF p, of "[(- 40, 0), (- 60, 240)]"]
    by (simp add: p_def)
qed

theorem meter_in_range_witness:
  "- 100 \<le> computeSignalLevelDb [1 / 2, - 1 / 2] \<and> normalizeSignalLevelDbToMeter (- 40) (- 72) (- 6) \<le> 1"
  using meter_in_range[of "[1 / 2, - 1 / 2]" "- 72" "- 6" "- 80" "- 40"] by simp

end
