(* ===== verification/Discovery.thy ===== *)
theory Discovery
  imports Pairing
begin

text \<open>
  From an address to a server. \<open>lib/detectAddress.ts\<close> tells peer links, multiaddresses and peer ids from
  host names and probes a host for its protocol; \<open>api/wellKnown.ts\<close> reads the host's well-known documents
  and resolves them to a configuration. Fetching is the network's: an answer is the outcome the two modules
  look at. \<open>parse_url\<close> is the browser's URL constructor, giving protocol and host or throwing.
\<close>

section \<open>Answers of the network\<close>

datatype fetch_outcome = NetworkError | Answer (fo_status: nat) (fo_contentType: str) (fo_json: "json option")

datatype discovery_error =
    DnsResolutionError str
  | HttpServerError str nat
  | JsonParseError str
  | InvalidUrlError str str

datatype well_known = Found json | Absent

definition fetchWellKnown :: "str \<Rightarrow> str \<Rightarrow> str \<Rightarrow> fetch_outcome \<Rightarrow> discovery_error + well_known" where
  "fetchWellKnown h path label outcome =
    (let url = ''https://'' @ h @ path in
     case outcome of
       NetworkError \<Rightarrow> Inl (DnsResolutionError h)
     | Answer status contentType body \<Rightarrow>
         if status = 404 then Inr Absent
         else if 500 \<le> status then Inl (HttpServerError h status)
         else if \<not> (200 \<le> status \<and> status \<le> 299) then Inr Absent
         else if includes_sub ''text/html'' contentType then Inr Absent
         else (case body of None \<Rightarrow> Inl (JsonParseError (label @ '' at '' @ url))
           | Some v \<Rightarrow> if \<not> nonnull_object (Some v) then Inl (JsonParseError (label @ '' at '' @ url)) else Inr (Found v)))"

section \<open>Fields of the documents\<close>

definition assertHttpsUrl :: "(str \<Rightarrow> (str \<times> str) option) \<Rightarrow> json option \<Rightarrow> str \<Rightarrow> discovery_error + str" where
  "assertHttpsUrl parse_url raw label =
    (case as_str raw of
       None \<Rightarrow> Inl (InvalidUrlError (key_of raw) (label @ '' is not a string''))
     | Some s \<Rightarrow> if s = [] then Inl (InvalidUrlError [] (label @ '' is not a string''))
       else (case parse_url s of
         None \<Rightarrow> Inl (InvalidUrlError s (label @ '' is not a parsable URL''))
       | Some (protocol, _) \<Rightarrow>
           if protocol \<noteq> ''https:''
           then Inl (InvalidUrlError s (label @ '' must use https:// (got '' @ protocol @ '')''))
           else Inr (strip_trailing CHR ''/'' s)))"

definition isHexColor :: "json option \<Rightarrow> bool" where
  "isHexColor raw = (case as_str raw of None \<Rightarrow> False
     | Some s \<Rightarrow> length s = 7 \<and> hd s = CHR ''#'' \<and> list_all is_hex_digit (tl s))"

record HomeserverBranding =
  br_primaryColor :: str
  br_accentColor :: str
  br_logoUrl :: "str option"

text \<open>\<open>/^https?:\/\/.+/\<close>\<close>
definition logo_ok :: "str \<Rightarrow> bool" where
  "logo_ok s = (\<exists>p \<in> {''http://'', ''https://''}. starts_with p s \<and>
     (case drop (length p) s of [] \<Rightarrow> False | c # _ \<Rightarrow> char_code c \<noteq> 10 \<and> char_code c \<noteq> 13))"

definition read_branding :: "json option \<Rightarrow> HomeserverBranding option" where
  "read_branding b = (if \<not> nonnull_object b then None
     else case (as_str (jopt b ''primary_color''), as_str (jopt b ''accent_color'')) of
       (Some p, Some a) \<Rightarrow> if isHexColor (Some (JStr p)) \<and> isHexColor (Some (JStr a))
         then Some \<lparr>br_primaryColor = p, br_accentColor = a,
           br_logoUrl = (case as_str (jopt b ''logo_url'') of None \<Rightarrow> None | Some l \<Rightarrow> if logo_ok l then Some l else None)\<rparr>
         else None
     | _ \<Rightarrow> None)"

record HomeserverConfig =
  hc_host :: str
  hc_homeserver_url :: str
  hc_server_name :: "str option"
  hc_api_base :: str
  hc_identity_server_url :: "str option"
  hc_livekit_url :: "str option"
  hc_instance_name :: "str option"
  hc_features :: "str list option"
  hc_turn_servers :: "json list option"
  hc_node_role :: "str option"
  hc_tunnel_anchor :: "bool option"
  hc_branding :: "HomeserverBranding option"

text \<open>Sequencing of steps that may throw.\<close>
fun and_then :: "'e + 'a \<Rightarrow> ('a \<Rightarrow> 'e + 'b) \<Rightarrow> 'e + 'b" where
  "and_then (Inl e) f = Inl e"
| "and_then (Inr x) f = f x"

lemma and_then_Inr: "and_then x f = Inr y \<longleftrightarrow> (\<exists>a. x = Inr a \<and> f a = Inr y)"
  by (cases x) auto

section \<open>Resolving the documents\<close>

record matrix_part =
  mp_homeserver_url :: str
  mp_server_name :: "str option"
  mp_identity_server_url :: "str option"

definition resolve_matrix :: "(str \<Rightarrow> (str \<times> str) option) \<Rightarrow> str \<Rightarrow> json option \<Rightarrow> discovery_error + matrix_part" where
  "resolve_matrix parse_url canonicalHost matrixConfig =
    (let fallback = assertHttpsUrl parse_url (Some (JStr (''https://'' @ canonicalHost))) ''homeserver fallback'' in
     if truthy matrixConfig then
       (let server = jopt matrixConfig ''m.homeserver''; raw = jopt server ''base_url'';
            idRaw = jopt (jopt matrixConfig ''m.identity_server'') ''base_url'' in
        and_then (if raw = None then fallback else assertHttpsUrl parse_url raw ''m.homeserver.base_url'') (\<lambda>url.
        and_then (if idRaw = None then Inr None
                  else map_sum id Some (assertHttpsUrl parse_url idRaw ''m.identity_server.base_url'')) (\<lambda>ident.
        Inr \<lparr>mp_homeserver_url = url,
             mp_server_name = map_option (\<lambda>n. to_lower (trim n)) (text_of (jopt server ''server_name'')),
             mp_identity_server_url = ident\<rparr>)))
     else and_then fallback (\<lambda>url. Inr \<lparr>mp_homeserver_url = url, mp_server_name = None, mp_identity_server_url = None\<rparr>))"

definition resolve_livekit :: "(str \<Rightarrow> (str \<times> str) option) \<Rightarrow> json option \<Rightarrow> discovery_error + str option" where
  "resolve_livekit parse_url raw = (case text_of raw of None \<Rightarrow> Inr None
     | Some s \<Rightarrow> (case parse_url s of
         None \<Rightarrow> Inl (InvalidUrlError s ''livekit_url is not a parsable URL'')
       | Some (protocol, _) \<Rightarrow>
           if protocol \<noteq> ''https:'' \<and> protocol \<noteq> ''wss:''
           then Inl (InvalidUrlError s (''livekit_url must use https:// or wss:// (got '' @ protocol @ '')''))
           else Inr (Some (strip_trailing CHR ''/'' s))))"

record concord_part =
  cp_api_base :: str
  cp_livekit_url :: "str option"
  cp_instance_name :: "str option"
  cp_features :: "str list option"
  cp_turn_servers :: "json list option"
  cp_node_role :: "str option"
  cp_tunnel_anchor :: "bool option"
  cp_branding :: "HomeserverBranding option"

definition resolve_concord :: "(str \<Rightarrow> (str \<times> str) option) \<Rightarrow> str \<Rightarrow> well_known \<Rightarrow> discovery_error + concord_part" where
  "resolve_concord parse_url canonicalHost concordResult =
    (let fallback = assertHttpsUrl parse_url (Some (JStr (''https://'' @ canonicalHost @ ''/api''))) ''api_base fallback'' in
     case concordResult of
       Found body \<Rightarrow>
         and_then (case text_of (jget body ''api_base'') of None \<Rightarrow> fallback
             | Some s \<Rightarrow> assertHttpsUrl parse_url (Some (JStr s)) ''api_base'') (\<lambda>api.
         and_then (resolve_livekit parse_url (jget body ''livekit_url'')) (\<lambda>livekit.
         Inr \<lparr>cp_api_base = api, cp_livekit_url = livekit,
              cp_instance_name = text_of (jget body ''instance_name''),
              cp_features = map_option (List.map_filter nonempty_string) (as_arr (jget body ''features'')),
              cp_turn_servers = map_option (filter (\<lambda>s. jget s ''urls'' \<noteq> None)) (as_arr (jget body ''turn_servers'')),
              cp_node_role = (case as_str (jget body ''node_role'') of None \<Rightarrow> None
                | Some r \<Rightarrow> if r \<in> {''anchor'', ''leaf'', ''hybrid''} then Some r else None),
              cp_tunnel_anchor = as_bool (jget body ''tunnel_anchor''),
              cp_branding = read_branding (jget body ''branding'')\<rparr>))
     | Absent \<Rightarrow> and_then fallback (\<lambda>api.
         Inr \<lparr>cp_api_base = api, cp_livekit_url = None, cp_instance_name = None, cp_features = None, cp_turn_servers = None,
              cp_node_role = None, cp_tunnel_anchor = None, cp_branding = None\<rparr>))"

text \<open>\<open>host.trim().replace(/^https?:\/\//, "").replace(/\/+$/, "")\<close>\<close>
definition strip_scheme :: "str \<Rightarrow> str" where
  "strip_scheme s = (if starts_with ''https://'' s then drop 8 s else if starts_with ''http://'' s then drop 7 s else s)"

definition bare_host :: "str \<Rightarrow> str" where
  "bare_host s = strip_trailing CHR ''/'' (strip_scheme s)"

text \<open>A rejected optional document counts as absent.\<close>
definition settled_or_absent :: "discovery_error + well_known \<Rightarrow> well_known" where
  "settled_or_absent r = (case r of Inl _ \<Rightarrow> Absent | Inr w \<Rightarrow> w)"

definition assembled :: "str \<Rightarrow> matrix_part \<Rightarrow> concord_part \<Rightarrow> HomeserverConfig" where
  "assembled canonicalHost m c =
    \<lparr>hc_host = canonicalHost, hc_homeserver_url = mp_homeserver_url m, hc_server_name = mp_server_name m,
     hc_api_base = cp_api_base c, hc_identity_server_url = mp_identity_server_url m,
     hc_livekit_url = cp_livekit_url c, hc_instance_name = cp_instance_name c, hc_features = cp_features c,
     hc_turn_servers = cp_turn_servers c, hc_node_role = cp_node_role c,
     hc_tunnel_anchor = cp_tunnel_anchor c, hc_branding = cp_branding c\<rparr>"

text \<open>The three fetches are \<open>matrix/client\<close>, \<open>concord/client\<close> and \<open>config.json\<close>.\<close>
definition discoverHomeserver ::
    "(str \<Rightarrow> (str \<times> str) option) \<Rightarrow> str \<Rightarrow> fetch_outcome \<Rightarrow> fetch_outcome \<Rightarrow> fetch_outcome \<Rightarrow> discovery_error + HomeserverConfig" where
  "discoverHomeserver parse_url entered matrix concord element =
    (let trimmed = bare_host (trim entered) in
     if trimmed = [] then Inl (InvalidUrlError entered ''hostname is empty'')
     else case parse_url (''https://'' @ trimmed) of
       None \<Rightarrow> Inl (InvalidUrlError trimmed ''hostname is not well-formed'')
     | Some (_, canonicalHost) \<Rightarrow>
       if canonicalHost = [] then Inl (InvalidUrlError trimmed ''hostname is empty after parsing'')
       else
         and_then (fetchWellKnown canonicalHost ''/.well-known/matrix/client'' ''matrix/client'' matrix) (\<lambda>matrixResult.
         let concordResult = settled_or_absent (fetchWellKnown canonicalHost ''/.well-known/concord/client'' ''concord/client'' concord);
             elementResult = settled_or_absent (fetchWellKnown canonicalHost ''/config.json'' ''element-web config'' element);
             matrixConfig = (case matrixResult of Found body \<Rightarrow> Some body
               | Absent \<Rightarrow> (case elementResult of Found body \<Rightarrow> jget body ''default_server_config'' | Absent \<Rightarrow> None))
         in and_then (resolve_matrix parse_url canonicalHost matrixConfig) (\<lambda>m.
            and_then (resolve_concord parse_url canonicalHost concordResult) (\<lambda>c.
            Inr (assembled canonicalHost m c)))))"

section \<open>The kind of an address\<close>

datatype p2p_kind = PeerCardDeeplink | PairUrl | MultiAddr | PeerIdText

datatype AddressKind =
    ConcordHttp str
  | MatrixHost str
  | ConcordP2p p2p_kind str
  | UnknownHost str
  | InvalidAddress

definition PEER_CARD_DEEPLINK_PREFIX :: str where "PEER_CARD_DEEPLINK_PREFIX = ''concord://peer/''"
definition PAIR_URL_PREFIX :: str where "PAIR_URL_PREFIX = ''concord+pair://''"

definition looksLikeMultiaddr :: "str \<Rightarrow> bool" where
  "looksLikeMultiaddr input = list_ex (\<lambda>tag. starts_with (''/'' @ tag @ ''/'') input)
     [''ip4'', ''ip6'', ''dns'', ''dns4'', ''dns6'', ''unix'']"

text \<open>\<open>/^[1-9A-HJ-NP-Za-km-z]+$/\<close>\<close>
definition is_base58 :: "char \<Rightarrow> bool" where
  "is_base58 c = ((is_digit c \<and> c \<noteq> CHR ''0'') \<or> (is_alpha c \<and> c \<noteq> CHR ''I'' \<and> c \<noteq> CHR ''O'' \<and> c \<noteq> CHR ''l''))"

definition looksLikePeerId :: "str \<Rightarrow> bool" where
  "looksLikePeerId input = (CHR ''/'' \<notin> set input \<and> CHR 0x5C \<notin> set input \<and> input \<noteq> [] \<and> list_all is_base58 input \<and> 46 \<le> length input)"

definition all_digits :: "str \<Rightarrow> bool" where
  "all_digits s = (s \<noteq> [] \<and> list_all is_digit s)"

text \<open>\<open>(:\d+)?$\<close> after the host part, which has no colon.\<close>
definition port_ok :: "str \<Rightarrow> bool" where
  "port_ok s = (case s of [] \<Rightarrow> True | c # p \<Rightarrow> c = CHR '':'' \<and> all_digits p)"

definition host_part :: "str \<Rightarrow> str" where
  "host_part s = takeWhile (\<lambda>c. c \<noteq> CHR '':'') s"

definition is_bare_ipv4 :: "str \<Rightarrow> bool" where
  "is_bare_ipv4 s = (let h = host_part s; labels = split_on CHR ''.'' h
     in port_ok (drop (length h) s) \<and> length labels = 4 \<and> list_all all_digits labels)"

text \<open>\<open>/^[A-Za-z0-9.-]+\.[A-Za-z]{2,}(:\d+)?$/\<close>: the label after the last dot is the one the pattern ends with.\<close>
definition is_domain :: "str \<Rightarrow> bool" where
  "is_domain s = (let h = host_part s;
      tld = rev (takeWhile (\<lambda>c. c \<noteq> CHR ''.'') (rev h));
      before = take (length h - Suc (length tld)) h
    in port_ok (drop (length h) s) \<and> length tld < length h \<and> before \<noteq> []
       \<and> list_all (\<lambda>c. is_alpha c \<or> is_digit c \<or> c = CHR ''.'' \<or> c = CHR ''-'') before
       \<and> list_all is_alpha tld \<and> 2 \<le> length tld)"

definition tryHostname :: "str \<Rightarrow> str option" where
  "tryHostname input =
    (let hostOnly = hd (split_on CHR ''/'' (bare_host input)) in
     if hostOnly = [] then None
     else if list_ex (\<lambda>c. is_space c \<or> c \<in> set ''?#@'') hostOnly then None
     else if is_bare_ipv4 hostOnly then None
     else if \<not> is_domain hostOnly then None
     else Some (to_lower hostOnly))"

definition probeWellKnown :: "fetch_outcome \<Rightarrow> bool" where
  "probeWellKnown outcome = (case outcome of NetworkError \<Rightarrow> False
     | Answer status contentType _ \<Rightarrow> 200 \<le> status \<and> status \<le> 299 \<and> \<not> includes_sub ''text/html'' contentType)"

text \<open>The verdict; the arguments are what the host answers on the two paths.\<close>
definition detectAddressKind :: "(str \<Rightarrow> fetch_outcome) \<Rightarrow> (str \<Rightarrow> fetch_outcome) \<Rightarrow> str \<Rightarrow> AddressKind" where
  "detectAddressKind concordProbe matrixProbe rawInput =
    (let input = trim rawInput in
     if input = [] then InvalidAddress
     else if starts_with PEER_CARD_DEEPLINK_PREFIX input then ConcordP2p PeerCardDeeplink input
     else if starts_with PAIR_URL_PREFIX input then ConcordP2p PairUrl input
     else if looksLikeMultiaddr input then ConcordP2p MultiAddr input
     else if looksLikePeerId input then ConcordP2p PeerIdText input
     else case tryHostname input of None \<Rightarrow> InvalidAddress
       | Some h \<Rightarrow>
           if probeWellKnown (concordProbe h) then ConcordHttp h
           else if probeWellKnown (matrixProbe h) then MatrixHost h
           else UnknownHost h)"

section \<open>What resolving ensures\<close>

definition https_url :: "(str \<Rightarrow> (str \<times> str) option) \<Rightarrow> str \<Rightarrow> bool" where
  "https_url parse_url u = (\<exists>raw h. parse_url raw = Some (''https:'', h) \<and> raw \<noteq> [] \<and> u = strip_trailing CHR ''/'' raw)"

definition media_url :: "(str \<Rightarrow> (str \<times> str) option) \<Rightarrow> str \<Rightarrow> bool" where
  "media_url parse_url u = (\<exists>raw p h. parse_url raw = Some (p, h) \<and> (p = ''https:'' \<or> p = ''wss:'') \<and> raw \<noteq> []
     \<and> u = strip_trailing CHR ''/'' raw)"

lemma https_urlI: "parse_url raw = Some (''https:'', h) \<Longrightarrow> raw \<noteq> [] \<Longrightarrow> https_url parse_url (strip_trailing CHR ''/'' raw)"
  unfolding https_url_def by blast

lemma media_urlI: "parse_url raw = Some (p, h) \<Longrightarrow> p = ''https:'' \<or> p = ''wss:'' \<Longrightarrow> raw \<noteq> [] \<Longrightarrow>
    media_url parse_url (strip_trailing CHR ''/'' raw)"
  unfolding media_url_def by blast

lemma assertHttpsUrl_Inr: "assertHttpsUrl parse_url raw label = Inr u \<Longrightarrow> https_url parse_url u"
  by (auto simp: assertHttpsUrl_def split: option.splits if_splits intro: https_urlI)

lemma text_of_Some: "text_of x = Some s \<longleftrightarrow> x = Some (JStr s) \<and> s \<noteq> []"
  by (auto simp: text_of_def split: option.splits)

lemma resolve_matrix_Inr:
  assumes "resolve_matrix parse_url h cfg = Inr m"
  shows "https_url parse_url (mp_homeserver_url m) \<and> (\<forall>u. mp_identity_server_url m = Some u \<longrightarrow> https_url parse_url u)"
  using assms
  by (auto simp: resolve_matrix_def Let_def and_then_Inr map_sum_def split: if_splits sum.splits dest: assertHttpsUrl_Inr)

lemma resolve_livekit_Inr:
  assumes "resolve_livekit parse_url raw = Inr (Some u)"
  shows "media_url parse_url u"
  using assms by (auto simp: resolve_livekit_def text_of_Some split: option.splits if_splits intro: media_urlI)

lemma resolve_concord_Inr:
  assumes "resolve_concord parse_url h r = Inr c"
  shows "https_url parse_url (cp_api_base c) \<and> (\<forall>u. cp_livekit_url c = Some u \<longrightarrow> media_url parse_url u)
    \<and> cp_instance_name c \<noteq> Some []"
  using assms
  by (auto simp: resolve_concord_def Let_def and_then_Inr text_of_Some split: well_known.splits option.splits
      dest: assertHttpsUrl_Inr resolve_livekit_Inr)

lemma discover_parts:
  assumes "discoverHomeserver parse_url entered matrix concord element = Inr cfg"
  obtains m c cfgm r where "resolve_matrix parse_url (hc_host cfg) cfgm = Inr m" "resolve_concord parse_url (hc_host cfg) r = Inr c"
    "hc_host cfg \<noteq> []" "hc_homeserver_url cfg = mp_homeserver_url m" "hc_identity_server_url cfg = mp_identity_server_url m"
    "hc_api_base cfg = cp_api_base c" "hc_livekit_url cfg = cp_livekit_url c" "hc_instance_name cfg = cp_instance_name c"
  using assms unfolding discoverHomeserver_def Let_def
  by (auto simp: and_then_Inr assembled_def split: if_splits option.splits)

section \<open>Links and hosts\<close>

lemma trim_free: "\<forall>c \<in> set s. \<not> is_space c \<Longrightarrow> trim s = s"
proof -
  assume a: "\<forall>c \<in> set s. \<not> is_space c"
  have "dropWhile is_space t = t" if "set t \<subseteq> set s" for t using a that by (cases t) auto
  then show ?thesis by (simp add: trim_def)
qed

lemma plain_url_char: "v < 64 \<Longrightarrow> \<not> is_space (url_char (b64_char v))"
  by (auto simp: url_char_def is_space_def Let_def b64_char_code punctuation_codes split: if_splits)

lemma body_url_free: "c \<in> set (b64_body s) \<Longrightarrow> \<not> is_space (url_char c)"
proof -
  assume "c \<in> set (b64_body s)"
  then obtain v where "v \<in> set (sextets (map char_code s))" "c = b64_char v" unfolding b64_body_def set_map by blast
  then show ?thesis using plain_url_char[of v] sextets_bound[OF codes_bound] by metis
qed

lemma link_tail_free: "c \<in> set (base64urlEncode s) \<Longrightarrow> \<not> is_space c"
  unfolding base64urlEncode_def Let_def url_body using body_url_free by auto

lemma deeplink_free: "\<forall>c \<in> set (encodeToDeeplink pc). \<not> is_space c"
proof -
  have "\<forall>c \<in> set SCHEME. \<not> is_space c" by code_simp
  then show ?thesis using link_tail_free by (auto simp: encodeToDeeplink_def)
qed

lemma pairing_free: "\<forall>c \<in> set (encodePairingPayload src). \<not> is_space c"
proof -
  have "\<forall>c \<in> set PAIRING_URL_PREFIX. \<not> is_space c" by code_simp
  then show ?thesis using link_tail_free by (auto simp: encodePairingPayload_def b64url_same)
qed

definition host_char :: "char \<Rightarrow> bool" where
  "host_char c = (is_digit c \<or> is_alpha c \<and> lower_char c = c \<or> c = CHR ''.'' \<or> c = CHR ''-'' \<or> c = CHR '':'')"

lemma lower_host_char: "is_alpha c \<or> is_digit c \<or> c = CHR ''.'' \<or> c = CHR ''-'' \<or> c = CHR '':'' \<Longrightarrow> host_char (lower_char c)"
  by (auto simp: host_char_def is_alpha_def is_digit_def lower_char_def char_code_of Let_def char_code_def split: if_splits)

lemma domain_chars:
  assumes "is_domain s" "c \<in> set s"
  shows "is_alpha c \<or> is_digit c \<or> c = CHR ''.'' \<or> c = CHR ''-'' \<or> c = CHR '':''"
proof -
  define h where "h = host_part s"
  define tld where "tld = rev (takeWhile (\<lambda>c. c \<noteq> CHR ''.'') (rev h))"
  define before where "before = take (length h - Suc (length tld)) h"
  have d: "port_ok (drop (length h) s)" "length tld < length h" "list_all is_alpha tld"
    "list_all (\<lambda>c. is_alpha c \<or> is_digit c \<or> c = CHR ''.'' \<or> c = CHR ''-'') before"
    using assms(1) unfolding is_domain_def Let_def h_def[symmetric] tld_def[symmetric] before_def[symmetric] by blast+
  have hs: "s = h @ drop (length h) s" unfolding h_def host_part_def by (metis takeWhile_dropWhile_id dropWhile_eq_drop)
  define D where "D = dropWhile (\<lambda>c. c \<noteq> CHR ''.'') (rev h)"
  have rh: "rev h = rev tld @ D" by (simp add: tld_def D_def)
  have "D \<noteq> []"
  proof
    assume "D = []"
    then have "length (rev h) = length tld" using rh by simp
    then show False using d(2) by simp
  qed
  moreover have "hd D = CHR ''.''" using \<open>D \<noteq> []\<close> hd_dropWhile[of "\<lambda>c. c \<noteq> CHR ''.''" "rev h"] by (simp add: D_def)
  ultimately obtain r where r: "D = CHR ''.'' # r" by (cases D) simp_all
  have "rev (rev h) = rev (rev tld @ CHR ''.'' # r)" unfolding rh r ..
  then have h: "h = rev r @ CHR ''.'' # tld" by simp
  then have "before = rev r" by (simp add: before_def)
  then have hc: "c' \<in> set h \<Longrightarrow> is_alpha c' \<or> is_digit c' \<or> c' = CHR ''.'' \<or> c' = CHR ''-''" for c'
    using d(3,4) by (auto simp: h list_all_iff)
  have "c' \<in> set (drop (length h) s) \<Longrightarrow> c' = CHR '':'' \<or> is_digit c'" for c'
    using d(1) by (auto simp: port_ok_def all_digits_def list_all_iff split: list.splits)
  then show ?thesis using hc assms(2) hs by (metis Un_iff set_append)
qed

lemma tryHostname_chars: "tryHostname input = Some h \<Longrightarrow> h \<noteq> [] \<and> (\<forall>c \<in> set h. host_char c)"
  using domain_chars lower_host_char
  by (auto simp: tryHostname_def Let_def to_lower_def split: if_splits)

section \<open>Properties\<close>

definition to_pairing :: "HomeserverConfig \<Rightarrow> homeserver_config" where
  "to_pairing cfg = \<lparr>host = hc_host cfg, homeserver_url = hc_homeserver_url cfg, api_base = hc_api_base cfg,
     server_name = hc_server_name cfg, livekit_url = hc_livekit_url cfg, instance_name = hc_instance_name cfg\<rparr>"

text \<open>Taking the trailing slashes off a URL that parses leaves one that parses to the same protocol.\<close>
definition keeps_protocol :: "(str \<Rightarrow> (str \<times> str) option) \<Rightarrow> bool" where
  "keeps_protocol parse_url = (parse_url [] = None \<and>
     (\<forall>u p h. parse_url u = Some (p, h) \<longrightarrow> (\<exists>h'. parse_url (strip_trailing CHR ''/'' u) = Some (p, h'))))"

text \<open>A parser for the witnesses.\<close>
definition split_url :: "str \<Rightarrow> (str \<times> str) option" where
  "split_url u = map_option (\<lambda>p. (p, takeWhile (\<lambda>c. c \<noteq> CHR ''/'') (drop (length p + 2) u))) (scheme_of u)"

lemma strip_trailing_idem: "strip_trailing c (strip_trailing c s) = strip_trailing c s"
  by (simp add: strip_trailing_def dropWhile_idem)

lemma strip_trailing_split: "\<exists>k. s = strip_trailing c s @ replicate k c"
proof -
  have "\<exists>k. r = replicate k c @ dropWhile (\<lambda>x. x = c) r" for r
  proof (induction r)
    case (Cons x r)
    then obtain k where "r = replicate k c @ dropWhile (\<lambda>x. x = c) r" by blast
    then show ?case by (cases "x = c") (auto intro: exI[of _ "Suc k"] exI[of _ 0])
  qed simp
  then obtain k where "rev s = replicate k c @ dropWhile (\<lambda>x. x = c) (rev s)" by blast
  then have "s = rev (dropWhile (\<lambda>x. x = c) (rev s)) @ replicate k c" by (metis rev_append rev_replicate rev_rev_ident)
  then show ?thesis by (auto simp: strip_trailing_def)
qed

lemma split_url_keeps: "keeps_protocol split_url"
proof -
  have "scheme_of (strip_trailing CHR ''/'' u) = scheme_of u" for u
  proof -
    obtain k where k: "u = strip_trailing CHR ''/'' u @ replicate k CHR ''/''" using strip_trailing_split by blast
    define t where "t = strip_trailing CHR ''/'' u"
    have "scheme_of (t @ replicate k CHR ''/'') = scheme_of t"
      by (cases "CHR '':'' \<in> set t") (auto simp: scheme_of_def takeWhile_append1)
    then show ?thesis using k by (simp add: t_def)
  qed
  then show ?thesis by (auto simp: keeps_protocol_def split_url_def scheme_of_def)
qed

text \<open>C22. No downgrade in discovery: whatever the host answers, a configuration it yields has a host, and every endpoint
  in it comes from a URL the browser's parser gives the https protocol (https or wss for LiveKit).\<close>
theorem discovered_urls_secure:
  assumes "discoverHomeserver parse_url entered matrix concord element = Inr cfg"
  shows "hc_host cfg \<noteq> [] \<and> https_url parse_url (hc_homeserver_url cfg) \<and> https_url parse_url (hc_api_base cfg)
    \<and> (\<forall>u. hc_identity_server_url cfg = Some u \<longrightarrow> https_url parse_url u)
    \<and> (\<forall>u. hc_livekit_url cfg = Some u \<longrightarrow> media_url parse_url u)"
proof (rule discover_parts[OF assms])
  fix m c cfgm r
  assume "resolve_matrix parse_url (hc_host cfg) cfgm = Inr m" "resolve_concord parse_url (hc_host cfg) r = Inr c"
    "hc_host cfg \<noteq> []" "hc_homeserver_url cfg = mp_homeserver_url m" "hc_identity_server_url cfg = mp_identity_server_url m"
    "hc_api_base cfg = cp_api_base c" "hc_livekit_url cfg = cp_livekit_url c" "hc_instance_name cfg = cp_instance_name c"
  then show ?thesis using resolve_matrix_Inr resolve_concord_Inr by metis
qed

text \<open>Only the Matrix document can fail discovery with a network, server or parse error: the Concord document and
  the Element configuration fall back, whatever goes wrong with them.\<close>
theorem discovery_fails_by_matrix:
  assumes "discoverHomeserver parse_url entered matrix concord element = Inl err"
  shows "(\<exists>raw reason. err = InvalidUrlError raw reason)
    \<or> (\<forall>concord' element'. discoverHomeserver parse_url entered matrix concord' element' = Inl err)
      \<and> (matrix = NetworkError \<or> (\<exists>status ct body. matrix = Answer status ct body \<and> (500 \<le> status \<or> 200 \<le> status \<and> status \<le> 299)))"
proof -
  have r: "(\<exists>raw reason. e = InvalidUrlError raw reason)" if "assertHttpsUrl p x l = Inl e" for p x l e
    using that by (auto simp: assertHttpsUrl_def split: option.splits if_splits)
  have rm: "(\<exists>raw reason. e = InvalidUrlError raw reason)" if "resolve_matrix p h x = Inl e" for p h x e
    using that r unfolding resolve_matrix_def Let_def
    by (auto simp: map_sum_def split: if_splits sum.splits elim!: and_then.elims)
  have rc: "(\<exists>raw reason. e = InvalidUrlError raw reason)" if "resolve_concord p h x = Inl e" for p h x e
    using that r unfolding resolve_concord_def resolve_livekit_def Let_def
    by (auto split: if_splits sum.splits well_known.splits option.splits elim!: and_then.elims)
  show ?thesis
  proof (cases "bare_host (trim entered) = [] \<or> parse_url (''https://'' @ bare_host (trim entered)) = None
      \<or> (\<exists>p. parse_url (''https://'' @ bare_host (trim entered)) = Some (p, []))")
    case True
    then show ?thesis using assms by (auto simp: discoverHomeserver_def Let_def split: if_splits)
  next
    case False
    then obtain p h where ok: "bare_host (trim entered) \<noteq> []" "parse_url (''https://'' @ bare_host (trim entered)) = Some (p, h)" "h \<noteq> []"
      by (cases "parse_url (''https://'' @ bare_host (trim entered))") auto
    show ?thesis
    proof (cases "fetchWellKnown h ''/.well-known/matrix/client'' ''matrix/client'' matrix")
      case (Inl e)
      then have "discoverHomeserver parse_url entered matrix c' e' = Inl e" for c' e'
        using ok by (simp add: discoverHomeserver_def)
      moreover have "matrix = NetworkError \<or> (\<exists>status ct body. matrix = Answer status ct body \<and> (500 \<le> status \<or> 200 \<le> status \<and> status \<le> 299))"
        using Inl by (auto simp: fetchWellKnown_def Let_def split: fetch_outcome.splits if_splits)
      ultimately show ?thesis using assms by simp
    next
      case (Inr w)
      obtain mc where d: "discoverHomeserver parse_url entered matrix concord element =
          and_then (resolve_matrix parse_url h mc) (\<lambda>m.
          and_then (resolve_concord parse_url h (settled_or_absent (fetchWellKnown h ''/.well-known/concord/client'' ''concord/client'' concord))) (\<lambda>c.
          Inr (assembled h m c)))"
        using ok Inr by (simp add: discoverHomeserver_def Let_def assembled_def)
      show ?thesis
      proof (cases "resolve_matrix parse_url h mc")
        case (Inl e)
        then show ?thesis using assms rm[OF Inl] by (simp add: d)
      next
        case (Inr m)
        then show ?thesis using assms rc unfolding d
          by (cases "resolve_concord parse_url h (settled_or_absent (fetchWellKnown h ''/.well-known/concord/client'' ''concord/client'' concord))") auto
      qed
    qed
  qed
qed

definition sample_matrix :: fetch_outcome where
  "sample_matrix = Answer 200 ''application/json''
     (Some (JObj [(''m.homeserver'', JObj [(''base_url'', JStr ''https://m.x.org/''), (''server_name'', JStr '' X.org'')])]))"

definition sample_concord :: fetch_outcome where
  "sample_concord = Answer 200 ''application/json'' (Some (JObj [(''livekit_url'', JStr ''wss://lk.x.org'')]))"

lemma sample_discovery:
  "discoverHomeserver split_url '' https://x.org/ '' sample_matrix sample_concord NetworkError = Inr
     \<lparr>hc_host = ''x.org'', hc_homeserver_url = ''https://m.x.org'', hc_server_name = Some ''x.org'', hc_api_base = ''https://x.org/api'',
      hc_identity_server_url = None, hc_livekit_url = Some ''wss://lk.x.org'', hc_instance_name = None, hc_features = None,
      hc_turn_servers = None, hc_node_role = None, hc_tunnel_anchor = None, hc_branding = None\<rparr>"
  by code_simp

theorem discovered_urls_secure_witness:
  "https_url split_url ''https://m.x.org'' \<and> media_url split_url ''wss://lk.x.org''"
  using discovered_urls_secure[OF sample_discovery] by simp

theorem discovery_fails_by_matrix_witness:
  "discoverHomeserver split_url ''x.org'' NetworkError sample_concord sample_matrix = Inl (DnsResolutionError ''x.org'')"
proof -
  have "discoverHomeserver split_url ''x.org'' NetworkError NetworkError NetworkError = Inl (DnsResolutionError ''x.org'')"
    by code_simp
  from discovery_fails_by_matrix[OF this] show ?thesis by simp
qed

lemma media_kept: "keeps_protocol parse_url \<Longrightarrow> media_url parse_url u \<Longrightarrow> secure (\<lambda>u. map_option fst (parse_url u)) True u"
  unfolding keeps_protocol_def media_url_def secure_def by fastforce

lemma https_kept: "keeps_protocol parse_url \<Longrightarrow> https_url parse_url u \<Longrightarrow> secure (\<lambda>u. map_option fst (parse_url u)) False u"
  unfolding keeps_protocol_def https_url_def secure_def by fastforce

lemma secured_stripped:
  "https_url p u \<Longrightarrow> strip_trailing CHR ''/'' u = u" "media_url p u \<Longrightarrow> strip_trailing CHR ''/'' u = u"
  by (auto simp: https_url_def media_url_def strip_trailing_idem)

text \<open>A discovered server can be paired: a phone that scans the code made of a discovered configuration gets its
  host, endpoints and names, as the browser's parser keeps the protocol of a URL without its trailing slashes.\<close>
theorem discovered_server_pairs:
  assumes "keeps_protocol parse_url" and "discoverHomeserver parse_url entered matrix concord element = Inr cfg"
  shows "decodePairingPayload (\<lambda>u. map_option fst (parse_url u)) (encodePairingPayload (to_pairing cfg))
     = Some (Inr ((to_pairing cfg)\<lparr>server_name := nonempty_option (hc_server_name cfg)\<rparr>))"
proof (rule discover_parts[OF assms(2)])
  fix m c cfgm r
  assume a: "resolve_matrix parse_url (hc_host cfg) cfgm = Inr m" "resolve_concord parse_url (hc_host cfg) r = Inr c"
    "hc_host cfg \<noteq> []" "hc_homeserver_url cfg = mp_homeserver_url m" "hc_identity_server_url cfg = mp_identity_server_url m"
    "hc_api_base cfg = cp_api_base c" "hc_livekit_url cfg = cp_livekit_url c" "hc_instance_name cfg = cp_instance_name c"
  have u: "https_url parse_url (hc_homeserver_url cfg)" "https_url parse_url (hc_api_base cfg)" "hc_instance_name cfg \<noteq> Some []"
    "\<And>l. hc_livekit_url cfg = Some l \<Longrightarrow> media_url parse_url l"
    using resolve_matrix_Inr[OF a(1)] resolve_concord_Inr[OF a(2)] a by simp_all
  have l: "hc_livekit_url cfg = Some l \<Longrightarrow> l \<noteq> []" for l using media_kept[OF assms(1) u(4)] by (simp add: secure_def)
  have "pairable (\<lambda>u. map_option fst (parse_url u)) (to_pairing cfg)"
    using https_kept[OF assms(1) u(1)] https_kept[OF assms(1) u(2)] a(3) media_kept[OF assms(1) u(4)]
    by (auto simp: pairable_def to_pairing_def nonempty_option_def split: option.split)
  moreover have "as_paired (to_pairing cfg) = (to_pairing cfg)\<lparr>server_name := nonempty_option (hc_server_name cfg)\<rparr>"
    using secured_stripped(1)[OF u(1)] secured_stripped(1)[OF u(2)] secured_stripped(2)[OF u(4)] u(3) l
    by (cases "hc_livekit_url cfg") (auto simp: as_paired_def to_pairing_def nonempty_option_def)
  ultimately show ?thesis by (simp add: decode_encoded read_payload)
qed

theorem discovered_server_pairs_witness:
  "\<exists>input. decodePairingPayload (\<lambda>u. map_option fst (split_url u)) input
     = Some (Inr \<lparr>host = ''x.org'', homeserver_url = ''https://m.x.org'', api_base = ''https://x.org/api'',
         server_name = Some ''x.org'', livekit_url = Some ''wss://lk.x.org'', instance_name = None\<rparr>)"
  using discovered_server_pairs[OF split_url_keeps sample_discovery] by (auto simp: to_pairing_def nonempty_option_def)

text \<open>Links are recognised before anything is probed: pasting the link of a card or the code of a host is that,
  unchanged, whatever the network would answer.\<close>
theorem pasted_links_detected:
  "detectAddressKind concordProbe matrixProbe (encodeToDeeplink pc) = ConcordP2p PeerCardDeeplink (encodeToDeeplink pc)
    \<and> detectAddressKind concordProbe matrixProbe (encodePairingPayload src) = ConcordP2p PairUrl (encodePairingPayload src)"
proof -
  have t: "trim (encodeToDeeplink pc) = encodeToDeeplink pc" "trim (encodePairingPayload src) = encodePairingPayload src"
    using trim_free[OF deeplink_free] trim_free[OF pairing_free] by blast+
  have s: "SCHEME = PEER_CARD_DEEPLINK_PREFIX" "PAIRING_URL_PREFIX = PAIR_URL_PREFIX @ ''v1/?d=''" by code_simp+
  have n: "PEER_CARD_DEEPLINK_PREFIX \<noteq> []" "PAIR_URL_PREFIX \<noteq> []" by code_simp+
  have x: "starts_with PEER_CARD_DEEPLINK_PREFIX (encodeToDeeplink pc)" "encodeToDeeplink pc \<noteq> []"
    using n by (simp_all add: encodeToDeeplink_def s)
  have y: "starts_with PAIR_URL_PREFIX (encodePairingPayload src)" "encodePairingPayload src \<noteq> []"
    using n by (simp_all add: encodePairingPayload_def s)
  have "\<not> starts_with PEER_CARD_DEEPLINK_PREFIX (encodePairingPayload src)"
    by (simp add: encodePairingPayload_def s(2) starts_with_def PEER_CARD_DEEPLINK_PREFIX_def PAIR_URL_PREFIX_def)
  then show ?thesis using x y by (simp add: detectAddressKind_def t)
qed

text \<open>What is probed is a host: a verdict about a host carries a non-empty lower-case name of letters, digits,
  dots, dashes and a port, and says what its two documents answered, Concord first.\<close>
theorem detected_host_probed:
  assumes "detectAddressKind concordProbe matrixProbe input \<in> {ConcordHttp h, MatrixHost h, UnknownHost h}"
  shows "h \<noteq> [] \<and> (\<forall>c \<in> set h. host_char c) \<and> detectAddressKind concordProbe matrixProbe input =
     (if probeWellKnown (concordProbe h) then ConcordHttp h else if probeWellKnown (matrixProbe h) then MatrixHost h else UnknownHost h)"
proof -
  have "tryHostname (trim input) = Some h" using assms by (auto simp: detectAddressKind_def Let_def split: if_splits option.splits)
  then show ?thesis using assms tryHostname_chars[of "trim input" h]
    by (auto simp: detectAddressKind_def Let_def split: if_splits option.splits)
qed

theorem detected_host_probed_witness:
  "host_char CHR ''x'' \<and> detectAddressKind (\<lambda>_. NetworkError) (\<lambda>_. sample_matrix) '' HTTPS is https://X.org/a'' \<noteq> MatrixHost ''x.org''
    \<and> list_all host_char ''x.org:8448''"
proof -
  have d: "detectAddressKind (\<lambda>_. NetworkError) (\<lambda>_. sample_matrix) ''https://X.org:8448/a'' = MatrixHost ''x.org:8448''" by code_simp
  have "detectAddressKind (\<lambda>_. NetworkError) (\<lambda>_. sample_matrix) '' HTTPS is https://X.org/a'' = InvalidAddress" by code_simp
  moreover have "list_all host_char ''x.org:8448''"
    using detected_host_probed[of "\<lambda>_. NetworkError" "\<lambda>_. sample_matrix" "''https://X.org:8448/a''" "''x.org:8448''"] d
    by (simp add: list_all_iff)
  ultimately show ?thesis by simp
qed

end
