(* ===== verification/ExtensionSession.thy ===== *)
theory ExtensionSession
  imports Codec Sdk
begin

text \<open>
  Shared extension sessions: \<open>stores/extension.ts\<close> builds a session, publishes it as a room state event and
  ends it; \<open>hooks/useExtension.ts\<close> reads the room's state events back, rejecting whatever is not a well-formed
  session of an installed extension, and falls back to the legacy event. Sending the event is the Matrix client:
  an operation yields the event it sends. Ids and times come from the browser and are arguments.
\<close>

section \<open>The session\<close>

record ExtensionDefinition =
  ed_id :: str
  ed_name :: str
  ed_url :: str
  ed_icon :: str
  ed_description :: str
  ed_permissions :: "str list"

text \<open>The modes are those of the input router.\<close>
type_synonym ExtensionSessionMode = Mode
datatype ExtensionSessionStatus = SessionActive | SessionEnded
datatype ExtensionVisibility = VisAll | VisHostOnly | VisOwnerOnly | VisAdminsOnly | VisBoundUsers
datatype ExtensionInputPolicy = InNone | InAll | InHostOnly | InAdminsOnly | InOwnerOnly | InBoundUsers
datatype BindingRole = RoleHost | RoleAdmin | RoleParticipant | RoleSpectator

record ExtensionLaunchEntry =
  le_url :: str
  le_allow_origin :: str
  le_persist_profile :: bool

record ExtensionLaunchDescriptor =
  ld_entries :: "(str \<times> ExtensionLaunchEntry) list"
  ld_args :: "(str \<times> json) list"

record ExtensionSurface =
  xs_surface_id :: str
  xs_role :: str
  xs_owner_user_id :: "str option"
  xs_launch_ref :: str
  xs_visible_to :: ExtensionVisibility
  xs_input_policy :: ExtensionInputPolicy
  xs_layout :: "(str \<times> json) list"
  xs_pointer :: bool
  xs_keyboard :: bool
  xs_resize :: bool
  xs_audio :: bool

record ExtensionBinding =
  xb_binding_id :: str
  xb_user_id :: str
  xb_seat_id :: "str option"
  xb_role :: BindingRole
  xb_surface_ids :: "str list"
  xb_input_on :: "str list"

record ExtensionPermissions =
  xp_host_can_end :: bool
  xp_admins_can_override :: bool
  xp_default_input_policy :: ExtensionInputPolicy

datatype extension_source = LegacySource | SessionSource

record ActiveExtension =
  ae_source :: extension_source
  ae_eventType :: str
  ae_stateKey :: str
  ae_sessionId :: str
  ae_extensionId :: str
  ae_extensionUrl :: str
  ae_extensionName :: str
  ae_extensionIcon :: str
  ae_hostUserId :: str
  ae_startedAt :: int
  ae_updatedAt :: int
  ae_mode :: ExtensionSessionMode
  ae_status :: ExtensionSessionStatus
  ae_launch :: ExtensionLaunchDescriptor
  ae_surfaces :: "ExtensionSurface list"
  ae_bindings :: "ExtensionBinding list"
  ae_permissions :: ExtensionPermissions
  ae_title :: str
  ae_summary :: str

definition LEGACY_EXTENSION_EVENT_TYPE :: str where "LEGACY_EXTENSION_EVENT_TYPE = ''com.concord.extension''"
definition EXTENSION_SESSION_EVENT_TYPE :: str where "EXTENSION_SESSION_EVENT_TYPE = ''com.concord.extension.session''"

section \<open>Names of the enumerations\<close>

fun visibility_text :: "ExtensionVisibility \<Rightarrow> str" where
  "visibility_text VisAll = ''all''" | "visibility_text VisHostOnly = ''host_only''"
| "visibility_text VisOwnerOnly = ''owner_only''" | "visibility_text VisAdminsOnly = ''admins_only''"
| "visibility_text VisBoundUsers = ''bound_users''"

fun policy_text :: "ExtensionInputPolicy \<Rightarrow> str" where
  "policy_text InNone = ''none''" | "policy_text InAll = ''all''" | "policy_text InHostOnly = ''host_only''"
| "policy_text InAdminsOnly = ''admins_only''" | "policy_text InOwnerOnly = ''owner_only''"
| "policy_text InBoundUsers = ''bound_users''"

fun role_text :: "BindingRole \<Rightarrow> str" where
  "role_text RoleHost = ''host''" | "role_text RoleAdmin = ''admin''"
| "role_text RoleParticipant = ''participant''" | "role_text RoleSpectator = ''spectator''"

text \<open>\<open>SET.has(x)\<close> and the cast that follows it: the value with that name.\<close>
definition named :: "('a \<Rightarrow> str) \<Rightarrow> 'a list \<Rightarrow> str \<Rightarrow> 'a option" where
  "named txt values s = find (\<lambda>v. txt v = s) values"

definition SESSION_MODES :: "ExtensionSessionMode list" where
  "SESSION_MODES = [Shared, SharedReadonly, SharedAdminInput, PerUser, Hybrid]"
definition INPUT_POLICIES :: "ExtensionInputPolicy list" where
  "INPUT_POLICIES = [InNone, InAll, InHostOnly, InAdminsOnly, InOwnerOnly, InBoundUsers]"
definition VISIBILITY_POLICIES :: "ExtensionVisibility list" where
  "VISIBILITY_POLICIES = [VisAll, VisHostOnly, VisOwnerOnly, VisAdminsOnly, VisBoundUsers]"
definition BINDING_ROLES :: "BindingRole list" where
  "BINDING_ROLES = [RoleHost, RoleAdmin, RoleParticipant, RoleSpectator]"

lemma named_mode [simp]: "named mode_name SESSION_MODES (mode_name m) = Some m"
  by (cases m) (simp_all add: named_def SESSION_MODES_def)
lemma named_policy [simp]: "named policy_text INPUT_POLICIES (policy_text p) = Some p"
  by (cases p) (simp_all add: named_def INPUT_POLICIES_def)
lemma named_visibility [simp]: "named visibility_text VISIBILITY_POLICIES (visibility_text v) = Some v"
  by (cases v) (simp_all add: named_def VISIBILITY_POLICIES_def)
lemma named_role [simp]: "named role_text BINDING_ROLES (role_text r) = Some r"
  by (cases r) (simp_all add: named_def BINDING_ROLES_def)

section \<open>Building and publishing\<close>

definition shared_surface :: ExtensionSurface where
  "shared_surface = \<lparr>xs_surface_id = ''surf_shared_main'', xs_role = ''shared_main'', xs_owner_user_id = None,
     xs_launch_ref = ''primary'', xs_visible_to = VisAll, xs_input_policy = InHostOnly,
     xs_layout = [(''region'', JStr ''main'')], xs_pointer = True, xs_keyboard = True, xs_resize = True, xs_audio = False\<rparr>"

definition host_binding :: "str \<Rightarrow> ExtensionBinding" where
  "host_binding userId = \<lparr>xb_binding_id = ''bind_'' @ userId, xb_user_id = userId, xb_seat_id = Some ''seat_host'',
     xb_role = RoleHost, xb_surface_ids = [''surf_shared_main''], xb_input_on = [''surf_shared_main'']\<rparr>"

definition default_permissions :: ExtensionPermissions where
  "default_permissions = \<lparr>xp_host_can_end = True, xp_admins_can_override = True, xp_default_input_policy = InHostOnly\<rparr>"

definition primary_launch :: "str \<Rightarrow> ExtensionLaunchDescriptor" where
  "primary_launch url = \<lparr>ld_entries = [(''primary'', \<lparr>le_url = url, le_allow_origin = ''self'', le_persist_profile = False\<rparr>)], ld_args = []\<rparr>"

definition buildActiveSession :: "ExtensionDefinition \<Rightarrow> str \<Rightarrow> str \<Rightarrow> int \<Rightarrow> ActiveExtension" where
  "buildActiveSession d userId sessionId now =
    \<lparr>ae_source = SessionSource, ae_eventType = EXTENSION_SESSION_EVENT_TYPE, ae_stateKey = sessionId, ae_sessionId = sessionId,
     ae_extensionId = ed_id d, ae_extensionUrl = ed_url d, ae_extensionName = ed_name d, ae_extensionIcon = ed_icon d,
     ae_hostUserId = userId, ae_startedAt = now, ae_updatedAt = now, ae_mode = SharedAdminInput, ae_status = SessionActive,
     ae_launch = primary_launch (ed_url d), ae_surfaces = [shared_surface], ae_bindings = [host_binding userId],
     ae_permissions = default_permissions, ae_title = ed_name d, ae_summary = ed_description d\<rparr>"

fun status_text :: "ExtensionSessionStatus \<Rightarrow> str" where
  "status_text SessionActive = ''active''" | "status_text SessionEnded = ''ended''"

definition launch_json :: "ExtensionLaunchDescriptor \<Rightarrow> json" where
  "launch_json l = JObj [(''kind'', JStr ''browser_surface''),
     (''entries'', JObj (map (\<lambda>(k, e). (k, JObj [(''url'', JStr (le_url e)), (''allow_origin'', JStr (le_allow_origin e)),
        (''persist_profile'', JBool (le_persist_profile e))])) (ld_entries l))),
     (''args'', JObj (ld_args l))]"

fun nullable_json :: "str option \<Rightarrow> json" where
  "nullable_json None = JNull" | "nullable_json (Some s) = JStr s"

definition surface_json :: "ExtensionSurface \<Rightarrow> json" where
  "surface_json s = JObj [(''surface_id'', JStr (xs_surface_id s)), (''kind'', JStr ''browser''), (''role'', JStr (xs_role s)),
     (''owner_user_id'', nullable_json (xs_owner_user_id s)), (''launch_ref'', JStr (xs_launch_ref s)),
     (''visible_to'', JStr (visibility_text (xs_visible_to s))), (''input_policy'', JStr (policy_text (xs_input_policy s))),
     (''layout'', JObj (xs_layout s)),
     (''capabilities'', JObj [(''pointer'', JBool (xs_pointer s)), (''keyboard'', JBool (xs_keyboard s)),
        (''resize'', JBool (xs_resize s)), (''audio'', JBool (xs_audio s))])]"

definition binding_json :: "ExtensionBinding \<Rightarrow> json" where
  "binding_json b = JObj [(''binding_id'', JStr (xb_binding_id b)), (''user_id'', JStr (xb_user_id b)),
     (''seat_id'', nullable_json (xb_seat_id b)), (''role'', JStr (role_text (xb_role b))),
     (''surface_ids'', JArr (map JStr (xb_surface_ids b))), (''input_on'', JArr (map JStr (xb_input_on b)))]"

definition serializeSessionContent :: "ActiveExtension \<Rightarrow> ExtensionSessionStatus \<Rightarrow> int \<Rightarrow> json" where
  "serializeSessionContent ext status updatedAt = JObj [(''version'', JNum 1), (''session_id'', JStr (ae_sessionId ext)),
     (''extension_id'', JStr (ae_extensionId ext)), (''mode'', JStr (mode_name (ae_mode ext))),
     (''status'', JStr (status_text status)), (''host_user_id'', JStr (ae_hostUserId ext)),
     (''created_at'', JNum (ae_startedAt ext)), (''updated_at'', JNum updatedAt),
     (''catalog'', JObj [(''url'', JStr (ae_extensionUrl ext)), (''name'', JStr (ae_extensionName ext)),
        (''icon'', JStr (ae_extensionIcon ext))]),
     (''launch'', launch_json (ae_launch ext)), (''surfaces'', JArr (map surface_json (ae_surfaces ext))),
     (''bindings'', JArr (map binding_json (ae_bindings ext))),
     (''permissions'', JObj [(''host_can_end'', JBool (xp_host_can_end (ae_permissions ext))),
        (''admins_can_override'', JBool (xp_admins_can_override (ae_permissions ext))),
        (''default_input_policy'', JStr (policy_text (xp_default_input_policy (ae_permissions ext))))]),
     (''meta'', JObj [(''title'', JStr (ae_title ext)), (''summary'', JStr (ae_summary ext))])]"

section \<open>Reading back\<close>

text \<open>\<open>isRecord\<close>: an object that is neither null nor an array.\<close>
fun as_record :: "json option \<Rightarrow> (str \<times> json) list option" where
  "as_record (Some (JObj kvs)) = Some kvs"
| "as_record _ = None"

lemma as_record_Some [simp]: "as_record x = Some kvs \<longleftrightarrow> x = Some (JObj kvs)"
  by (cases x rule: as_record.cases) auto

definition normalizeCatalogPrefix :: "str \<Rightarrow> str" where
  "normalizeCatalogPrefix url = (if ends_with ''/'' url then url else url @ ''/'')"

definition isAllowlistedLaunchUrl :: "str \<Rightarrow> str \<Rightarrow> bool" where
  "isAllowlistedLaunchUrl catalogUrl launchUrl =
    (launchUrl = catalogUrl \<or> starts_with (normalizeCatalogPrefix catalogUrl) launchUrl)"

definition read_entry :: "str \<Rightarrow> json \<Rightarrow> ExtensionLaunchEntry option" where
  "read_entry catalogUrl v = (case (as_record (Some v), as_str (jget v ''url'')) of
     (Some _, Some url) \<Rightarrow> if \<not> isAllowlistedLaunchUrl catalogUrl url then None
       else Some \<lparr>le_url = url,
         le_allow_origin = (case as_str (jget v ''allow_origin'') of None \<Rightarrow> ''self'' | Some t \<Rightarrow> t),
         le_persist_profile = (jget v ''persist_profile'' = Some (JBool True))\<rparr>
   | _ \<Rightarrow> None)"

definition normalizeLaunchEntries :: "str \<Rightarrow> json option \<Rightarrow> (str \<times> ExtensionLaunchEntry) list option" where
  "normalizeLaunchEntries catalogUrl raw = (case as_record raw of None \<Rightarrow> None
     | Some kvs \<Rightarrow> (case collect_options (map (\<lambda>(k, v). map_option (Pair k) (read_entry catalogUrl v)) kvs) of
         None \<Rightarrow> None | Some entries \<Rightarrow> if entries = [] then None else Some entries))"

definition flag_unless_false :: "json option \<Rightarrow> bool" where
  "flag_unless_false x = (x \<noteq> Some (JBool False))"

definition read_surface :: "json \<Rightarrow> ExtensionSurface option" where
  "read_surface item =
    (if as_record (Some item) = None \<or> jget item ''kind'' \<noteq> Some (JStr ''browser'') then None
     else case (as_str (jget item ''surface_id''), as_str (jget item ''role''), as_str (jget item ''launch_ref''),
                as_str (jget item ''visible_to''), as_str (jget item ''input_policy'')) of
       (Some i, Some r, Some l, Some vis, Some pol) \<Rightarrow>
         (case (named visibility_text VISIBILITY_POLICIES vis, named policy_text INPUT_POLICIES pol) of
            (Some v, Some p) \<Rightarrow>
              let caps = (case as_record (jget item ''capabilities'') of None \<Rightarrow> JObj [] | Some kvs \<Rightarrow> JObj kvs)
              in Some \<lparr>xs_surface_id = i, xs_role = r, xs_owner_user_id = as_str (jget item ''owner_user_id''),
                   xs_launch_ref = l, xs_visible_to = v, xs_input_policy = p,
                   xs_layout = (case as_record (jget item ''layout'') of None \<Rightarrow> [] | Some kvs \<Rightarrow> kvs),
                   xs_pointer = flag_unless_false (jget caps ''pointer''), xs_keyboard = flag_unless_false (jget caps ''keyboard''),
                   xs_resize = flag_unless_false (jget caps ''resize''), xs_audio = (jget caps ''audio'' = Some (JBool True))\<rparr>
          | _ \<Rightarrow> None)
     | _ \<Rightarrow> None)"

definition normalizeSurfaces :: "json option \<Rightarrow> ExtensionSurface list option" where
  "normalizeSurfaces raw = (case as_arr raw of None \<Rightarrow> None
     | Some items \<Rightarrow> if items = [] then None else collect_options (map read_surface items))"

fun string_value :: "json \<Rightarrow> str option" where
  "string_value (JStr s) = Some s"
| "string_value _ = None"

definition read_binding :: "json \<Rightarrow> ExtensionBinding option" where
  "read_binding item =
    (if as_record (Some item) = None then None
     else case (as_str (jget item ''binding_id''), as_str (jget item ''user_id''), as_arr (jget item ''surface_ids''),
                as_arr (jget item ''input_on''), as_str (jget item ''role'')) of
       (Some i, Some u, Some sids, Some ins, Some rl) \<Rightarrow>
         (case (named role_text BINDING_ROLES rl, collect_options (map string_value sids), collect_options (map string_value ins)) of
            (Some r, Some ss, Some ons) \<Rightarrow> Some \<lparr>xb_binding_id = i, xb_user_id = u, xb_seat_id = as_str (jget item ''seat_id''),
               xb_role = r, xb_surface_ids = ss, xb_input_on = ons\<rparr>
          | _ \<Rightarrow> None)
     | _ \<Rightarrow> None)"

definition normalizeBindings :: "json option \<Rightarrow> ExtensionBinding list option" where
  "normalizeBindings raw = (case as_arr raw of None \<Rightarrow> None | Some items \<Rightarrow> collect_options (map read_binding items))"

definition normalizeLaunch :: "str \<Rightarrow> json option \<Rightarrow> ExtensionLaunchDescriptor option" where
  "normalizeLaunch catalogUrl raw = (case as_record raw of None \<Rightarrow> None
     | Some kvs \<Rightarrow> if jget (JObj kvs) ''kind'' \<noteq> Some (JStr ''browser_surface'') then None
       else (case normalizeLaunchEntries catalogUrl (jget (JObj kvs) ''entries'') of None \<Rightarrow> None
         | Some entries \<Rightarrow> Some \<lparr>ld_entries = entries,
             ld_args = (case as_record (jget (JObj kvs) ''args'') of None \<Rightarrow> [] | Some args \<Rightarrow> args)\<rparr>))"

definition find_definition :: "ExtensionDefinition list \<Rightarrow> str \<Rightarrow> str \<Rightarrow> ExtensionDefinition option" where
  "find_definition catalog extensionId url = find (\<lambda>d. ed_id d = extensionId \<and> ed_url d = url) catalog"

text \<open>The first checks: status, version, ids, times and mode.\<close>
definition session_header :: "json \<Rightarrow> str option \<Rightarrow> (str \<times> str \<times> str \<times> int \<times> int \<times> ExtensionSessionMode) option" where
  "session_header content stateKey =
    (if jget content ''status'' \<noteq> Some (JStr ''active'') \<or> jget content ''version'' \<noteq> Some (JNum 1) then None
     else let sessionId = (case as_str (jget content ''session_id'') of None \<Rightarrow> stateKey | Some s \<Rightarrow> Some s);
              createdAt = as_num (jget content ''created_at'');
              updatedAt = (case as_num (jget content ''updated_at'') of None \<Rightarrow> createdAt | Some n \<Rightarrow> Some n)
       in case (sessionId, text_of (jget content ''extension_id''), text_of (jget content ''host_user_id''), createdAt, updatedAt,
                text_of (jget content ''mode'')) of
         (Some sid, Some eid, Some hostId, Some created, Some updated, Some mtxt) \<Rightarrow>
           (case named mode_name SESSION_MODES mtxt of None \<Rightarrow> None
            | Some m \<Rightarrow>
              if sid = [] \<or> (case stateKey of None \<Rightarrow> False | Some k \<Rightarrow> k \<noteq> [] \<and> k \<noteq> sid) then None
              else Some (sid, eid, hostId, created, updated, m))
       | _ \<Rightarrow> None)"

text \<open>The catalog reference: URL and name.\<close>
definition catalog_ref :: "json \<Rightarrow> (str \<times> str) option" where
  "catalog_ref content = (let catalogRef = jget content ''catalog'' in
     if as_record catalogRef = None then None
     else case (as_str (jopt catalogRef ''url''), as_str (jopt catalogRef ''name'')) of
       (Some url, Some nm) \<Rightarrow> Some (url, nm) | _ \<Rightarrow> None)"

definition record_or_empty :: "json option \<Rightarrow> json" where
  "record_or_empty x = (case as_record x of None \<Rightarrow> JObj [] | Some kvs \<Rightarrow> JObj kvs)"

definition read_permissions :: "json \<Rightarrow> ExtensionPermissions" where
  "read_permissions perms = \<lparr>xp_host_can_end = flag_unless_false (jget perms ''host_can_end''),
     xp_admins_can_override = flag_unless_false (jget perms ''admins_can_override''),
     xp_default_input_policy = (case as_str (jget perms ''default_input_policy'') of None \<Rightarrow> InHostOnly
       | Some p \<Rightarrow> (case named policy_text INPUT_POLICIES p of None \<Rightarrow> InHostOnly | Some pol \<Rightarrow> pol))\<rparr>"

definition parseExtensionSessionContent :: "ExtensionDefinition list \<Rightarrow> json \<Rightarrow> str option \<Rightarrow> ActiveExtension option" where
  "parseExtensionSessionContent catalog content stateKey =
    (case (session_header content stateKey, catalog_ref content) of
       (Some (sid, eid, hostId, created, updated, m), Some (url, nm)) \<Rightarrow>
         (case (find_definition catalog eid url, normalizeLaunch url (jget content ''launch''),
                normalizeSurfaces (jget content ''surfaces''), normalizeBindings (jget content ''bindings'')) of
            (Some d, Some launch, Some surfaces, Some bindings) \<Rightarrow>
              let meta = record_or_empty (jget content ''meta'')
              in Some \<lparr>ae_source = SessionSource, ae_eventType = EXTENSION_SESSION_EVENT_TYPE, ae_stateKey = sid,
                 ae_sessionId = sid, ae_extensionId = eid, ae_extensionUrl = url, ae_extensionName = nm,
                 ae_extensionIcon = (case as_str (jopt (jget content ''catalog'') ''icon'') of None \<Rightarrow> ed_icon d | Some i \<Rightarrow> i),
                 ae_hostUserId = hostId, ae_startedAt = created, ae_updatedAt = updated, ae_mode = m,
                 ae_status = SessionActive, ae_launch = launch, ae_surfaces = surfaces, ae_bindings = bindings,
                 ae_permissions = read_permissions (record_or_empty (jget content ''permissions'')),
                 ae_title = (case as_str (jget meta ''title'') of None \<Rightarrow> nm | Some t \<Rightarrow> t),
                 ae_summary = (case as_str (jget meta ''summary'') of None \<Rightarrow> ed_description d | Some t \<Rightarrow> t)\<rparr>
          | _ \<Rightarrow> None)
     | _ \<Rightarrow> None)"

definition parseLegacyExtensionContent :: "ExtensionDefinition list \<Rightarrow> json \<Rightarrow> ActiveExtension option" where
  "parseLegacyExtensionContent catalog content =
    (if \<not> truthy (jget content ''active'') then None
     else case (as_str (jget content ''extension_id''), as_str (jget content ''extension_url''),
                as_str (jget content ''extension_name''), as_str (jget content ''host_user_id''), as_num (jget content ''started_at'')) of
       (Some eid, Some url, Some nm, Some hostId, Some started) \<Rightarrow>
         map_option (\<lambda>d. \<lparr>ae_source = LegacySource, ae_eventType = LEGACY_EXTENSION_EVENT_TYPE, ae_stateKey = [],
            ae_sessionId = ''legacy_'' @ eid @ ''_'' @ int_text started, ae_extensionId = eid, ae_extensionUrl = url,
            ae_extensionName = nm, ae_extensionIcon = ed_icon d, ae_hostUserId = hostId, ae_startedAt = started,
            ae_updatedAt = started, ae_mode = SharedAdminInput, ae_status = SessionActive, ae_launch = primary_launch url,
            ae_surfaces = [shared_surface], ae_bindings = [host_binding hostId], ae_permissions = default_permissions,
            ae_title = nm, ae_summary = ed_description d\<rparr>) (find_definition catalog eid url)
     | _ \<Rightarrow> None)"

section \<open>The store and the room\<close>

text \<open>A room state event as the hook sees it: its content and state key.\<close>
record session_event =
  se_content :: json
  se_stateKey :: "str option"

text \<open>\<open>readState\<close>: the session last updated, the earlier event among equals; without one, the legacy event.\<close>
definition readState :: "ExtensionDefinition list \<Rightarrow> session_event list \<Rightarrow> json option \<Rightarrow> ActiveExtension option" where
  "readState catalog sessions legacy =
    (let found = sort_key (\<lambda>s. - ae_updatedAt s)
           (List.map_filter (\<lambda>e. parseExtensionSessionContent catalog (se_content e) (se_stateKey e)) sessions)
     in case found of s # _ \<Rightarrow> Some s
        | [] \<Rightarrow> (case legacy of None \<Rightarrow> None | Some content \<Rightarrow> parseLegacyExtensionContent catalog content))"

record ExtensionState =
  xt_activeExtensions :: "str \<Rightarrow> ActiveExtension option"
  xt_catalog :: "ExtensionDefinition list"
  xt_catalogLoaded :: bool
  xt_menuOpen :: bool

record state_event =
  st_room :: str
  st_type :: str
  st_content :: json
  st_key :: str

definition setActiveExtension :: "str \<Rightarrow> ActiveExtension option \<Rightarrow> ExtensionState \<Rightarrow> ExtensionState" where
  "setActiveExtension roomId ext st = st\<lparr>xt_activeExtensions := (xt_activeExtensions st)(roomId := ext)\<rparr>"

definition setMenuOpen :: "bool \<Rightarrow> ExtensionState \<Rightarrow> ExtensionState" where
  "setMenuOpen menuOpen st = st\<lparr>xt_menuOpen := menuOpen\<rparr>"

text \<open>A state event of either type makes the hook read the room again and show what it finds.\<close>
definition onStateEvent :: "str \<Rightarrow> str \<Rightarrow> session_event list \<Rightarrow> json option \<Rightarrow> ExtensionState \<Rightarrow> ExtensionState" where
  "onStateEvent roomId eventType sessions legacy st =
    (if eventType = EXTENSION_SESSION_EVENT_TYPE \<or> eventType = LEGACY_EXTENSION_EVENT_TYPE
     then setActiveExtension roomId (readState (xt_catalog st) sessions legacy) st else st)"

text \<open>The server's catalog entry; its permissions may be missing.\<close>
record ServerExtension =
  sx_definition :: ExtensionDefinition
  sx_permissions :: "str list option"

definition catalog_entry :: "ServerExtension \<Rightarrow> ExtensionDefinition" where
  "catalog_entry e = (sx_definition e)\<lparr>ed_permissions := (case sx_permissions e of None \<Rightarrow> [] | Some ps \<Rightarrow> ps)\<rparr>"

definition reloadCatalog :: "ServerExtension list option \<Rightarrow> ExtensionState \<Rightarrow> ExtensionState" where
  "reloadCatalog answer st = (case answer of None \<Rightarrow> st
     | Some exts \<Rightarrow> st\<lparr>xt_catalog := map catalog_entry exts, xt_catalogLoaded := True\<rparr>)"

definition loadCatalog :: "ServerExtension list option \<Rightarrow> ExtensionState \<Rightarrow> ExtensionState" where
  "loadCatalog answer st = (if xt_catalogLoaded st then st else reloadCatalog answer st)"

text \<open>\<open>userId\<close> is that of the signed-in user, if a client is there; \<open>sentAt\<close> is when the content is serialised.\<close>
definition startExtension :: "str option \<Rightarrow> str \<Rightarrow> int \<Rightarrow> int \<Rightarrow> str \<Rightarrow> str \<Rightarrow> ExtensionState \<Rightarrow> ExtensionState \<times> state_event list" where
  "startExtension userId sessionId now sentAt roomId extensionId st =
    (case userId of None \<Rightarrow> (st, [])
     | Some u \<Rightarrow> if u = [] then (st, [])
       else case find (\<lambda>d. ed_id d = extensionId) (xt_catalog st) of None \<Rightarrow> (st, [])
       | Some d \<Rightarrow> let s = buildActiveSession d u sessionId now
           in ((setActiveExtension roomId (Some s) st)\<lparr>xt_menuOpen := False\<rparr>,
               [\<lparr>st_room = roomId, st_type = EXTENSION_SESSION_EVENT_TYPE,
                 st_content = serializeSessionContent s SessionActive sentAt, st_key = ae_stateKey s\<rparr>]))"

definition stopExtension :: "bool \<Rightarrow> int \<Rightarrow> str \<Rightarrow> ExtensionState \<Rightarrow> ExtensionState \<times> state_event list" where
  "stopExtension hasClient sentAt roomId st =
    (if \<not> hasClient then (st, [])
     else (setActiveExtension roomId None st,
       [case xt_activeExtensions st roomId of
          Some a \<Rightarrow> if ae_source a = SessionSource
            then \<lparr>st_room = roomId, st_type = EXTENSION_SESSION_EVENT_TYPE,
                   st_content = serializeSessionContent a SessionEnded sentAt, st_key = ae_stateKey a\<rparr>
            else \<lparr>st_room = roomId, st_type = LEGACY_EXTENSION_EVENT_TYPE, st_content = JObj [(''active'', JBool False)], st_key = []\<rparr>
        | None \<Rightarrow> \<lparr>st_room = roomId, st_type = LEGACY_EXTENSION_EVENT_TYPE, st_content = JObj [(''active'', JBool False)], st_key = []\<rparr>]))"

definition isHost :: "ActiveExtension option \<Rightarrow> str option \<Rightarrow> bool" where
  "isHost active userId = (case (active, userId) of (Some a, Some u) \<Rightarrow> u \<noteq> [] \<and> ae_hostUserId a = u | _ \<Rightarrow> False)"

section \<open>What is published reads back\<close>

lemma surface_back: "read_surface (surface_json s) = Some s"
  by (cases s; cases "xs_owner_user_id s") (simp_all add: read_surface_def surface_json_def flag_unless_false_def)

lemma string_values: "collect_options (map string_value (map JStr ss)) = Some ss"
  by (induction ss) simp_all

lemma binding_back: "read_binding (binding_json b) = Some b"
  by (cases b; cases "xb_seat_id b") (simp_all add: read_binding_def binding_json_def string_values del: map_map)

lemma collect_back: "(\<And>x. x \<in> set xs \<Longrightarrow> f (g x) = Some x) \<Longrightarrow> collect_options (map f (map g xs)) = Some xs"
  by (induction xs) auto

definition launch_within :: "str \<Rightarrow> ExtensionLaunchDescriptor \<Rightarrow> bool" where
  "launch_within url l = (ld_entries l \<noteq> [] \<and> (\<forall>(k, e) \<in> set (ld_entries l). isAllowlistedLaunchUrl url (le_url e)))"

lemma launch_back: "launch_within url l \<Longrightarrow> normalizeLaunch url (Some (launch_json l)) = Some l"
proof -
  assume w: "launch_within url l"
  have "collect_options (map (\<lambda>(k, v). map_option (Pair k) (read_entry url v))
      (map (\<lambda>(k, e). (k, JObj [(''url'', JStr (le_url e)), (''allow_origin'', JStr (le_allow_origin e)),
        (''persist_profile'', JBool (le_persist_profile e))])) (ld_entries l))) = Some (ld_entries l)"
    by (rule collect_back) (use w in \<open>auto simp: launch_within_def read_entry_def\<close>)
  then show ?thesis using w
    by (simp add: normalizeLaunch_def launch_json_def normalizeLaunchEntries_def launch_within_def del: map_map)
qed

text \<open>A session a client would publish: an installed extension, a host, launch URLs within the extension's.\<close>
definition publishable :: "ExtensionDefinition list \<Rightarrow> ActiveExtension \<Rightarrow> bool" where
  "publishable catalog a = (ae_source a = SessionSource \<and> ae_eventType a = EXTENSION_SESSION_EVENT_TYPE \<and> ae_status a = SessionActive
     \<and> ae_stateKey a = ae_sessionId a \<and> ae_sessionId a \<noteq> [] \<and> ae_extensionId a \<noteq> [] \<and> ae_hostUserId a \<noteq> []
     \<and> find_definition catalog (ae_extensionId a) (ae_extensionUrl a) \<noteq> None
     \<and> launch_within (ae_extensionUrl a) (ae_launch a) \<and> ae_surfaces a \<noteq> [])"

lemma mode_named: "named mode_name SESSION_MODES (mode_name m) = Some m" "mode_name m \<noteq> []"
  by (cases m; simp add: named_def SESSION_MODES_def)+

lemma session_back:
  assumes "publishable catalog a"
  shows "parseExtensionSessionContent catalog (serializeSessionContent a SessionActive t) (Some (ae_stateKey a)) = Some (a\<lparr>ae_updatedAt := t\<rparr>)"
proof -
  obtain d where d: "find_definition catalog (ae_extensionId a) (ae_extensionUrl a) = Some d"
    using assms by (auto simp: publishable_def)
  have s: "normalizeSurfaces (Some (JArr (map surface_json (ae_surfaces a)))) = Some (ae_surfaces a)"
    using assms collect_back[of "ae_surfaces a" read_surface surface_json, OF surface_back]
    by (simp add: normalizeSurfaces_def publishable_def del: map_map)
  have b: "normalizeBindings (Some (JArr (map binding_json (ae_bindings a)))) = Some (ae_bindings a)"
    using collect_back[of "ae_bindings a" read_binding binding_json, OF binding_back] by (simp add: normalizeBindings_def del: map_map)
  have l: "normalizeLaunch (ae_extensionUrl a) (Some (launch_json (ae_launch a))) = Some (ae_launch a)"
    using assms launch_back by (simp add: publishable_def)
  have h: "session_header (serializeSessionContent a SessionActive t) (Some (ae_stateKey a))
      = Some (ae_sessionId a, ae_extensionId a, ae_hostUserId a, ae_startedAt a, t, ae_mode a)"
    using assms by (simp add: session_header_def serializeSessionContent_def publishable_def mode_named text_of_def Let_def)
  have c: "catalog_ref (serializeSessionContent a SessionActive t) = Some (ae_extensionUrl a, ae_extensionName a)"
    by (simp add: catalog_ref_def serializeSessionContent_def jopt_def)
  have p: "read_permissions (record_or_empty (jget (serializeSessionContent a SessionActive t) ''permissions'')) = ae_permissions a"
    by (cases "ae_permissions a") (simp add: serializeSessionContent_def record_or_empty_def read_permissions_def flag_unless_false_def)
  have j: "jget (serializeSessionContent a SessionActive t) ''launch'' = Some (launch_json (ae_launch a))"
    "jget (serializeSessionContent a SessionActive t) ''surfaces'' = Some (JArr (map surface_json (ae_surfaces a)))"
    "jget (serializeSessionContent a SessionActive t) ''bindings'' = Some (JArr (map binding_json (ae_bindings a)))"
    "jopt (jget (serializeSessionContent a SessionActive t) ''catalog'') ''icon'' = Some (JStr (ae_extensionIcon a))"
    "jget (record_or_empty (jget (serializeSessionContent a SessionActive t) ''meta'')) ''title'' = Some (JStr (ae_title a))"
    "jget (record_or_empty (jget (serializeSessionContent a SessionActive t) ''meta'')) ''summary'' = Some (JStr (ae_summary a))"
    by (simp_all add: serializeSessionContent_def record_or_empty_def jopt_def)
  show ?thesis using assms
    unfolding parseExtensionSessionContent_def h c p j
    by (auto simp: publishable_def Let_def d s b l j intro!: ActiveExtension.equality)
qed

lemma session_ended: "parseExtensionSessionContent catalog (serializeSessionContent a SessionEnded t) key = None"
  by (simp add: parseExtensionSessionContent_def session_header_def serializeSessionContent_def)

section \<open>What is accepted\<close>

lemma collect_within:
  "collect_options (map (\<lambda>(k, v). map_option (Pair k) (read_entry url v)) kvs) = Some es \<Longrightarrow>
     (k, e) \<in> set es \<Longrightarrow> isAllowlistedLaunchUrl url (le_url e)"
proof (induction kvs arbitrary: es)
  case (Cons kv kvs)
  then show ?case
    by (cases kv) (auto simp: read_entry_def split: option.splits if_splits)
qed simp

lemma launch_accepted: "normalizeLaunch url raw = Some l \<Longrightarrow> launch_within url l"
  by (auto simp: normalizeLaunch_def normalizeLaunchEntries_def launch_within_def split: option.splits if_splits
      dest: collect_within)

lemma collect_nonempty: "collect_options xs = Some ys \<Longrightarrow> xs \<noteq> [] \<Longrightarrow> ys \<noteq> []"
  by (cases xs) (auto split: option.splits)

lemma surfaces_accepted: "normalizeSurfaces raw = Some ss \<Longrightarrow> ss \<noteq> []"
  using collect_nonempty by (fastforce simp: normalizeSurfaces_def split: option.splits if_splits)

lemma text_of_nonempty: "text_of x = Some s \<Longrightarrow> s \<noteq> []"
  by (auto simp: text_of_def split: option.splits if_splits)

lemma header_accepted:
  assumes "session_header content key = Some (sid, eid, hostId, created, updated, m)"
  shows "sid \<noteq> [] \<and> eid \<noteq> [] \<and> hostId \<noteq> [] \<and> (key \<noteq> None \<longrightarrow> key \<noteq> Some [] \<longrightarrow> key = Some sid)"
  using assms unfolding session_header_def Let_def
  by (auto split: if_splits option.splits dest: text_of_nonempty)

lemma session_accepted:
  assumes "parseExtensionSessionContent catalog content key = Some a"
  shows "publishable catalog a \<and> (key \<noteq> None \<longrightarrow> key \<noteq> Some [] \<longrightarrow> key = Some (ae_stateKey a))"
proof (cases "session_header content key")
  case None
  then show ?thesis using assms by (simp add: parseExtensionSessionContent_def)
next
  case (Some hd)
  then obtain sid eid hostId created updated m where h: "session_header content key = Some (sid, eid, hostId, created, updated, m)"
    by (cases hd) auto
  show ?thesis
  proof (cases "catalog_ref content")
    case None
    then show ?thesis using assms h by (simp add: parseExtensionSessionContent_def)
  next
    case (Some un)
    then obtain url nm where c: "catalog_ref content = Some (url, nm)" by (cases un) auto
    show ?thesis using assms header_accepted[OF h] unfolding parseExtensionSessionContent_def h c
      by (cases "find_definition catalog eid url"; cases "normalizeLaunch url (jget content ''launch'')";
          cases "normalizeSurfaces (jget content ''surfaces'')"; cases "normalizeBindings (jget content ''bindings'')")
        (auto simp: publishable_def Let_def dest: launch_accepted surfaces_accepted)
  qed
qed

lemma find_definition_Some: "find_definition catalog i u = Some d \<Longrightarrow> d \<in> set catalog \<and> ed_id d = i \<and> ed_url d = u"
  using find_SomeD[of _ catalog d] by (auto simp: find_definition_def)

lemma built_publishable:
  assumes "u \<noteq> []" "sid \<noteq> []" "ed_id d \<noteq> []" "find_definition catalog (ed_id d) (ed_url d) \<noteq> None"
  shows "publishable catalog (buildActiveSession d u sid now)"
  using assms by (simp add: publishable_def buildActiveSession_def launch_within_def primary_launch_def isAllowlistedLaunchUrl_def)

lemma map_filter_single: "List.map_filter f [x] = (case f x of None \<Rightarrow> [] | Some y \<Rightarrow> [y])"
  by (simp add: List.map_filter_def split: option.split)

lemma set_map_filter_iff: "x \<in> set (List.map_filter f xs) \<longleftrightarrow> (\<exists>e \<in> set xs. f e = Some x)"
  by (induction xs) (auto simp: List.map_filter_def)

section \<open>Properties\<close>

definition as_read :: "state_event \<Rightarrow> session_event" where
  "as_read ev = \<lparr>se_content = st_content ev, se_stateKey = Some (st_key ev)\<rparr>"

text \<open>A session starts and ends for everybody: what \<open>startExtension\<close> publishes is read by every client that has
  the extension in its catalog as the session the host built, hosted by the host; and once \<open>stopExtension\<close> has
  published its end, no client reads a session from it.\<close>
theorem session_starts_and_ends:
  assumes "find (\<lambda>d. ed_id d = eid) (xt_catalog st) = Some d" and "u \<noteq> []" and "sid \<noteq> []" and "eid \<noteq> []"
    and "find_definition catalog eid (ed_url d) \<noteq> None"
    and "startExtension (Some u) sid now sentAt room eid st = (st1, started)"
    and "stopExtension True stoppedAt room st1 = (st2, stopped)"
  shows "readState catalog (map as_read started) legacy = Some ((buildActiveSession d u sid now)\<lparr>ae_updatedAt := sentAt\<rparr>)
    \<and> isHost (readState catalog (map as_read started) legacy) (Some u)
    \<and> readState catalog (map as_read stopped) None = None \<and> map st_key stopped = map st_key started
    \<and> xt_activeExtensions st2 room = None"
proof -
  define a where "a = buildActiveSession d u sid now"
  have e: "ed_id d = eid" using find_SomeD[OF assms(1)] by simp
  have p: "publishable catalog a" unfolding a_def by (rule built_publishable) (use assms(2-5) e in simp_all)
  have s1: "started = [\<lparr>st_room = room, st_type = EXTENSION_SESSION_EVENT_TYPE,
      st_content = serializeSessionContent a SessionActive sentAt, st_key = ae_stateKey a\<rparr>]"
    "xt_activeExtensions st1 room = Some a"
    using assms(1,2,6) by (auto simp: startExtension_def Let_def a_def setActiveExtension_def)
  have src: "ae_source a = SessionSource" by (simp add: a_def buildActiveSession_def)
  have s2: "stopped = [\<lparr>st_room = room, st_type = EXTENSION_SESSION_EVENT_TYPE,
      st_content = serializeSessionContent a SessionEnded stoppedAt, st_key = ae_stateKey a\<rparr>]"
    "xt_activeExtensions st2 room = None"
    using assms(7) s1(2) src by (auto simp: stopExtension_def setActiveExtension_def)
  have r: "readState catalog (map as_read started) legacy = Some (a\<lparr>ae_updatedAt := sentAt\<rparr>)"
    by (simp add: readState_def s1(1) as_read_def map_filter_single session_back[OF p])
  moreover have "readState catalog (map as_read stopped) None = None"
    by (simp add: readState_def s2(1) as_read_def map_filter_single session_ended)
  ultimately show ?thesis using assms(2) s1(1) s2 by (simp add: isHost_def a_def buildActiveSession_def)
qed

text \<open>C23. Whatever a room's state holds, an accepted session is that of an extension in the catalog, has a host and a
  surface, opens only URLs at or below the extension's, and is filed under its own key.\<close>
theorem accepted_session_confined:
  assumes "parseExtensionSessionContent catalog content key = Some a"
  shows "(\<exists>d \<in> set catalog. ed_id d = ae_extensionId a \<and> ed_url d = ae_extensionUrl a)
    \<and> ae_hostUserId a \<noteq> [] \<and> ae_surfaces a \<noteq> [] \<and> ld_entries (ae_launch a) \<noteq> []
    \<and> (\<forall>(k, e) \<in> set (ld_entries (ae_launch a)). le_url e = ae_extensionUrl a
        \<or> starts_with (normalizeCatalogPrefix (ae_extensionUrl a)) (le_url e))
    \<and> (key \<noteq> None \<longrightarrow> key \<noteq> Some [] \<longrightarrow> key = Some (ae_stateKey a))"
  using session_accepted[OF assms] find_definition_Some
  by (fastforce simp: publishable_def launch_within_def isAllowlistedLaunchUrl_def)

text \<open>Reading is stable: an accepted session, published again as it was read, is accepted again as the same.\<close>
theorem accepted_session_republishes:
  assumes "parseExtensionSessionContent catalog content key = Some a"
  shows "parseExtensionSessionContent catalog (serializeSessionContent a SessionActive (ae_updatedAt a)) (Some (ae_stateKey a)) = Some a"
  using session_back[of catalog a "ae_updatedAt a"] session_accepted[OF assms] by simp

text \<open>Of several sessions in a room the one updated last is shown.\<close>
theorem newest_session_shown:
  assumes "readState catalog sessions legacy = Some a" and "e \<in> set sessions"
    and "parseExtensionSessionContent catalog (se_content e) (se_stateKey e) = Some b"
  shows "ae_updatedAt b \<le> ae_updatedAt a
    \<and> (\<exists>e' \<in> set sessions. parseExtensionSessionContent catalog (se_content e') (se_stateKey e') = Some a)"
proof -
  define read where "read = (\<lambda>e :: session_event. parseExtensionSessionContent catalog (se_content e) (se_stateKey e))"
  define found where "found = sort_key (\<lambda>s. - ae_updatedAt s) (List.map_filter read sessions)"
  have st: "set found = {s. \<exists>e \<in> set sessions. read e = Some s}" unfolding found_def by (auto simp: set_map_filter_iff)
  then have b: "b \<in> set found" using assms(2,3) by (auto simp: read_def)
  then obtain s rest where f: "found = s # rest" by (cases found) auto
  have "s = a" using assms(1) f by (simp add: readState_def read_def[symmetric] found_def[symmetric])
  moreover have "sorted (map (\<lambda>s. - ae_updatedAt s) found)" by (simp add: found_def)
  then have "\<forall>x \<in> set rest. - ae_updatedAt s \<le> - ae_updatedAt x" by (simp add: f)
  moreover have "a \<in> set found" using \<open>s = a\<close> f by simp
  ultimately show ?thesis using b st f by (auto simp: read_def)
qed

text \<open>The prefix test looks at the text only: dot segments lead out of the extension's directory.\<close>
lemma dotdot_allowlisted: "isAllowlistedLaunchUrl ''https://h/ext/app/'' ''https://h/ext/app/../other/''"
  by code_simp

definition whiteboard :: ExtensionDefinition where
  "whiteboard = \<lparr>ed_id = ''wb'', ed_name = ''Board'', ed_url = ''https://h/ext/wb/'', ed_icon = ''x'', ed_description = ''d'', ed_permissions = []\<rparr>"

definition fresh_store :: ExtensionState where
  "fresh_store = \<lparr>xt_activeExtensions = (\<lambda>_. None), xt_catalog = [whiteboard], xt_catalogLoaded = True, xt_menuOpen = True\<rparr>"

lemma whiteboard_found:
  "find (\<lambda>d. ed_id d = ''wb'') (xt_catalog fresh_store) = Some whiteboard"
  "find_definition [whiteboard] ''wb'' (ed_url whiteboard) = Some whiteboard"
  by (simp_all add: fresh_store_def whiteboard_def find_definition_def)

definition board_content :: "int \<Rightarrow> json" where
  "board_content t = serializeSessionContent (buildActiveSession whiteboard ''@a:x'' ''s1'' 1) SessionActive t"

lemma board_reads:
  "parseExtensionSessionContent [whiteboard] (board_content t) (Some ''s1'') = Some ((buildActiveSession whiteboard ''@a:x'' ''s1'' 1)\<lparr>ae_updatedAt := t\<rparr>)"
proof -
  have "publishable [whiteboard] (buildActiveSession whiteboard ''@a:x'' ''s1'' 1)"
    using whiteboard_found(2) by (intro built_publishable) (simp_all add: whiteboard_def)
  from session_back[OF this, of t] show ?thesis by (simp add: board_content_def buildActiveSession_def)
qed

theorem session_starts_and_ends_witness:
  "isHost (readState [whiteboard] (map as_read (snd (startExtension (Some ''@a:x'') ''s1'' 1 2 ''!r'' ''wb'' fresh_store))) None) (Some ''@a:x'')"
proof -
  obtain st1 ev1 where a: "startExtension (Some ''@a:x'') ''s1'' 1 2 ''!r'' ''wb'' fresh_store = (st1, ev1)" by force
  obtain st2 ev2 where b: "stopExtension True 3 ''!r'' st1 = (st2, ev2)" by force
  have "isHost (readState [whiteboard] (map as_read ev1) None) (Some ''@a:x'')"
    using session_starts_and_ends[OF whiteboard_found(1) _ _ _ _ a b, of "[whiteboard]" None] whiteboard_found(2) by blast
  then show ?thesis using a by simp
qed

theorem accepted_session_confined_witness:
  "\<exists>d \<in> set [whiteboard]. ed_id d = ''wb'' \<and> ed_url d = ''https://h/ext/wb/''"
  using accepted_session_confined[OF board_reads[of 2]] by (simp add: buildActiveSession_def whiteboard_def)

theorem accepted_session_republishes_witness:
  "parseExtensionSessionContent [whiteboard] (serializeSessionContent ((buildActiveSession whiteboard ''@a:x'' ''s1'' 1)\<lparr>ae_updatedAt := 2\<rparr>) SessionActive 2) (Some ''s1'')
    = Some ((buildActiveSession whiteboard ''@a:x'' ''s1'' 1)\<lparr>ae_updatedAt := 2\<rparr>)"
  using accepted_session_republishes[OF board_reads[of 2]] by (simp add: buildActiveSession_def)

theorem newest_session_shown_witness:
  "map_option ae_updatedAt (readState [whiteboard] [\<lparr>se_content = board_content 5, se_stateKey = Some ''s1''\<rparr>,
     \<lparr>se_content = board_content 9, se_stateKey = Some ''s1''\<rparr>] None) = Some 9"
proof -
  let ?es = "[\<lparr>se_content = board_content 5, se_stateKey = Some ''s1''\<rparr>, \<lparr>se_content = board_content 9, se_stateKey = Some ''s1''\<rparr>]"
  have m: "List.map_filter (\<lambda>e. parseExtensionSessionContent [whiteboard] (se_content e) (se_stateKey e)) ?es
      = map (\<lambda>t. (buildActiveSession whiteboard ''@a:x'' ''s1'' 1)\<lparr>ae_updatedAt := t\<rparr>) [5, 9]"
    by (simp add: List.map_filter_def board_reads)
  have "readState [whiteboard] ?es None \<noteq> None"
    unfolding readState_def m by (simp add: Let_def)
  then obtain a where a: "readState [whiteboard] ?es None = Some a" by auto
  have "9 \<le> ae_updatedAt a \<and> (\<exists>e' \<in> set ?es. parseExtensionSessionContent [whiteboard] (se_content e') (se_stateKey e') = Some a)"
    using newest_session_shown[OF a, of "\<lparr>se_content = board_content 9, se_stateKey = Some ''s1''\<rparr>"] board_reads[of 9]
    by (simp add: buildActiveSession_def)
  then show ?thesis using a board_reads by (auto simp: buildActiveSession_def)
qed

end
