(* ===== verification/Picker.thy ===== *)
theory Picker
  imports Session Discovery
begin

text \<open>
  Connecting to a first server: the screen \<open>components/auth/ServerPickerScreen.tsx\<close> as a state machine over
  \<open>Discovery\<close>, \<open>Pairing\<close> and the stores of \<open>Session\<close>, with the start of the embedded host
  (\<open>api/hostingProfile.ts\<close>, \<open>api/servitude.ts\<close>) and its polling loop. The native shell and the
  clock answer: they are arguments. A failure of theirs is Some message when it is an Error. An ellipsis and a
  dash are their three UTF-8 bytes.
\<close>

definition dots :: str where "dots = [CHR 0xE2, CHR 0x80, CHR 0xA6]"
definition emdash :: str where "emdash = [CHR 0xE2, CHR 0x80, CHR 0x94]"

section \<open>The embedded host\<close>

datatype ServitudeState = ServStopped | ServStarting | ServRunning | ServStopping

definition isServitudeState :: "json option \<Rightarrow> ServitudeState option" where
  "isServitudeState value = (case as_str value of None \<Rightarrow> None
     | Some s \<Rightarrow> if s = ''stopped'' then Some ServStopped else if s = ''starting'' then Some ServStarting
         else if s = ''running'' then Some ServRunning else if s = ''stopping'' then Some ServStopping else None)"

definition isServitudeStatusResponse :: "json \<Rightarrow> ServitudeState option" where
  "isServitudeStatusResponse value = (if \<not> nonnull_object (Some value) \<or> \<not> nonnull_object (jget value ''degraded_transports'')
     then None else isServitudeState (jget value ''state''))"

text \<open>The answer of the shell, or the message of the error that is thrown.\<close>
definition servitudeStatus :: "bool \<Rightarrow> str option + json \<Rightarrow> str option + ServitudeState" where
  "servitudeStatus isTauri answer =
    (if \<not> isTauri then Inr ServStopped
     else case answer of Inl err \<Rightarrow> Inl err
       | Inr response \<Rightarrow> (case isServitudeStatusResponse response of
           None \<Rightarrow> Inl (Some (''servitude_status returned unexpected shape: '' @ stringify response))
         | Some s \<Rightarrow> Inr s))"

text \<open>The commands sent to the shell, and the error thrown. The arguments are the errors the two commands give.\<close>
definition setHostingProfile :: "bool \<Rightarrow> str option \<Rightarrow> str option \<times> str list" where
  "setHostingProfile isTauri failure =
    (if \<not> isTauri then (Some (''setHostingProfile: web builds cannot change the profile '' @ emdash @
        '' this instance is configured via the CONCORD_PROFILE env var on the docker stack.''), [])
     else (failure, [''set_servitude_profile'']))"

definition servitudeStart :: "bool \<Rightarrow> str option \<Rightarrow> str option \<times> str list" where
  "servitudeStart isTauri failure = (if \<not> isTauri then (Some ''not-in-tauri'', []) else (failure, [''servitude_start'']))"

definition startHostingServitude :: "bool \<Rightarrow> str option \<Rightarrow> str option \<Rightarrow> str option \<times> str list" where
  "startHostingServitude isTauri profileFailure startFailure =
    (case setHostingProfile isTauri profileFailure of
       (Some e, calls) \<Rightarrow> (Some e, calls)
     | (None, calls) \<Rightarrow> (case servitudeStart isTauri startFailure of (e, calls') \<Rightarrow> (e, calls @ calls')))"

section \<open>The screen\<close>

datatype ServerOrigin = OriginJoin | OriginMatrix | OriginHost | OriginBridge
datatype host_stage = StagePreparing | StageStarting | StageWaiting | StageRunning | StageFailed

datatype UiState =
    Menu
  | Hosting host_stage str
  | Input ServerOrigin
  | ConnectingTo ServerOrigin
  | Success HomeserverConfig str ServerOrigin
  | Failure str bool ServerOrigin

record Picker =
  pk_host :: str
  pk_ui :: UiState
  pk_pasteBlob :: str
  pk_scannerOpen :: bool
  pk_guestLoading :: bool
  pk_guestError :: "str option"
  pk_generation :: nat

definition initialPicker :: "bool \<Rightarrow> Picker" where
  "initialPicker isTauri = \<lparr>pk_host = [], pk_ui = (if isTauri then Menu else Input OriginJoin), pk_pasteBlob = [],
     pk_scannerOpen = False, pk_guestLoading = False, pk_guestError = None, pk_generation = 0\<rparr>"

text \<open>\<open>err.message\<close> of the discovery errors that the texts quote.\<close>
fun discovery_message :: "discovery_error \<Rightarrow> str" where
  "discovery_message (InvalidUrlError url reason) = ''Invalid URL '' @ url @ '': '' @ reason"
| "discovery_message (HttpServerError h status) = h @ '' returned HTTP '' @ nat_text status"
| "discovery_message (JsonParseError url) = url @ '' returned invalid JSON''"
| "discovery_message (DnsResolutionError h) = ''Could not reach '' @ h @ '' '' @ emdash @ '' DNS lookup or network failure''"

fun formatDiscoveryError :: "discovery_error \<Rightarrow> str \<times> bool" where
  "formatDiscoveryError (DnsResolutionError h) =
     (''Couldn'' @ CHR 0x27 # ''t reach that host. Check the spelling and your internet connection, then try again.'', True)"
| "formatDiscoveryError (InvalidUrlError u r) =
     (''That doesn'' @ CHR 0x27 # ''t look like a valid hostname: '' @ discovery_message (InvalidUrlError u r), True)"
| "formatDiscoveryError (HttpServerError h s) =
     (''The server is returning errors ('' @ discovery_message (HttpServerError h s) @
      ''). Try again in a few minutes, or contact the instance operator.'', True)"
| "formatDiscoveryError (JsonParseError u) =
     (''That host responded, but its discovery document is malformed. This instance may be misconfigured.'', True)"

definition origin_of :: "UiState \<Rightarrow> ServerOrigin" where
  "origin_of ui = (case ui of Input o' \<Rightarrow> o' | _ \<Rightarrow> OriginJoin)"

definition plain_config :: "str \<Rightarrow> str \<Rightarrow> str \<Rightarrow> str \<Rightarrow> HomeserverConfig" where
  "plain_config h hs api nm = \<lparr>hc_host = h, hc_homeserver_url = hs, hc_server_name = None, hc_api_base = api,
     hc_identity_server_url = None, hc_livekit_url = None, hc_instance_name = Some nm, hc_features = Some [],
     hc_turn_servers = None, hc_node_role = None, hc_tunnel_anchor = None, hc_branding = None\<rparr>"

definition matrix_config :: "str \<Rightarrow> HomeserverConfig" where
  "matrix_config matrixHost = plain_config matrixHost (''https://'' @ matrixHost) (''https://'' @ matrixHost) matrixHost"

text \<open>\<open>handleConnect\<close> up to its await: the host to discover, if any.\<close>
definition connectBegin :: "Picker \<Rightarrow> Picker \<times> str option" where
  "connectBegin pk = (let trimmed = trim (pk_host pk); origin = origin_of (pk_ui pk) in
     if trimmed = [] then (pk, None)
     else if origin = OriginMatrix then
       (let config = matrix_config (bare_host trimmed)
        in (pk\<lparr>pk_ui := Success config (hc_api_base config) origin\<rparr>, None))
     else (pk\<lparr>pk_ui := ConnectingTo origin\<rparr>, Some trimmed))"

definition connectDone :: "ServerOrigin \<Rightarrow> discovery_error + HomeserverConfig \<Rightarrow> Picker \<Rightarrow> Picker" where
  "connectDone origin result pk = (case result of
     Inr discovered \<Rightarrow> pk\<lparr>pk_ui := Success discovered (hc_api_base discovered) origin\<rparr>
   | Inl err \<Rightarrow> (case formatDiscoveryError err of (message, recoverable) \<Rightarrow> pk\<lparr>pk_ui := Failure message recoverable origin\<rparr>))"

definition setApiBaseOverride :: "str \<Rightarrow> Picker \<Rightarrow> Picker" where
  "setApiBaseOverride v pk = (case pk_ui pk of Success d ov o' \<Rightarrow> pk\<lparr>pk_ui := Success d v o'\<rparr> | _ \<Rightarrow> pk)"

definition handleReset :: "bool \<Rightarrow> Picker \<Rightarrow> Picker" where
  "handleReset isTauri pk0 = (let pk = pk0\<lparr>pk_generation := Suc (pk_generation pk0)\<rparr> in
     if isTauri then pk\<lparr>pk_ui := Menu, pk_host := []\<rparr> else pk\<lparr>pk_ui := Input OriginJoin\<rparr>)"

definition handleEditHost :: "Picker \<Rightarrow> Picker" where
  "handleEditHost pk = (case pk_ui pk of Success d ov o' \<Rightarrow> pk\<lparr>pk_ui := Input o'\<rparr> | _ \<Rightarrow> pk)"

definition handleChooseJoin :: "Picker \<Rightarrow> Picker" where
  "handleChooseJoin pk = pk\<lparr>pk_host := [], pk_ui := Input OriginJoin\<rparr>"

definition handleChooseMatrix :: "Picker \<Rightarrow> Picker" where
  "handleChooseMatrix pk = pk\<lparr>pk_host := [], pk_ui := Input OriginMatrix\<rparr>"

definition handleChooseBridge :: "Picker \<Rightarrow> Picker" where
  "handleChooseBridge pk = pk\<lparr>pk_host := ''localhost:8080'', pk_ui := Input OriginBridge\<rparr>"

text \<open>\<open>handleBrowseAsGuest\<close> around its await; the answer is the error, or none.\<close>
definition guestBegin :: "Picker \<Rightarrow> Picker" where
  "guestBegin pk = pk\<lparr>pk_guestLoading := True, pk_guestError := None\<rparr>"

definition guestDone :: "str option \<Rightarrow> Picker \<Rightarrow> Picker" where
  "guestDone failure pk = (case failure of None \<Rightarrow> pk | Some e \<Rightarrow> pk\<lparr>pk_guestError := Some e\<rparr>)\<lparr>pk_guestLoading := False\<rparr>"

section \<open>Committing a server\<close>

definition to_instance :: "HomeserverConfig \<Rightarrow> InstanceConfig" where
  "to_instance c = \<lparr>cfg_host = hc_host c, cfg_instance_name = hc_instance_name c, cfg_api_base = hc_api_base c,
     cfg_homeserver_url = hc_homeserver_url c\<rparr>"

text \<open>\<open>setHomeserver\<close>, then \<open>ensurePrimarySource\<close>; the id and date of a new source are drawn.\<close>
definition commitServer :: "str \<Rightarrow> str \<Rightarrow> HomeserverConfig \<Rightarrow> World \<Rightarrow> World" where
  "commitServer newId now c w0 = (let w = setHomeserver (to_instance c) w0
     in w\<lparr>w_sources := ensurePrimarySource newId now (to_instance c) (w_sources w)\<rparr>)"

text \<open>The configuration the success screen confirms.\<close>
definition finalConfig :: "HomeserverConfig \<Rightarrow> str \<Rightarrow> HomeserverConfig" where
  "finalConfig discovered override = discovered\<lparr>hc_api_base := strip_trailing CHR ''/'' override\<rparr>"

text \<open>\<open>onConnected()\<close> is the flag.\<close>
definition handleConfirm :: "str \<Rightarrow> str \<Rightarrow> Picker \<Rightarrow> World \<Rightarrow> bool \<times> World" where
  "handleConfirm newId now pk w = (case pk_ui pk of
     Success d ov o' \<Rightarrow> (True, commitServer newId now (finalConfig d ov) w)
   | _ \<Rightarrow> (False, w))"

definition from_pairing :: "homeserver_config \<Rightarrow> HomeserverConfig" where
  "from_pairing p = \<lparr>hc_host = host p, hc_homeserver_url = homeserver_url p, hc_server_name = server_name p,
     hc_api_base = api_base p, hc_identity_server_url = None, hc_livekit_url = livekit_url p,
     hc_instance_name = instance_name p, hc_features = None, hc_turn_servers = None, hc_node_role = None,
     hc_tunnel_anchor = None, hc_branding = None\<rparr>"

definition handlePairingSuccess :: "str \<Rightarrow> str \<Rightarrow> HomeserverConfig \<Rightarrow> Picker \<Rightarrow> World \<Rightarrow> Picker \<times> World" where
  "handlePairingSuccess newId now discovered pk w = (pk\<lparr>pk_scannerOpen := False\<rparr>, commitServer newId now discovered w)"

section \<open>Pasting a configuration\<close>

text \<open>The text to parse: a \<open>concord://\<close> link is base64 or percent-encoded.\<close>
definition pasted_text :: "str \<Rightarrow> str option" where
  "pasted_text raw = (if \<not> starts_with ''concord://'' raw then Some raw
     else let rest = drop 10 raw in (case atob rest of Some t \<Rightarrow> Some t | None \<Rightarrow> decodeURIComponent rest))"

text \<open>\<open>parsed as HomeserverConfig\<close>; an optional field of another type reads as undefined.\<close>
definition cast_config :: "str \<Rightarrow> str \<Rightarrow> str \<Rightarrow> json \<Rightarrow> HomeserverConfig" where
  "cast_config h hs api v = \<lparr>hc_host = h, hc_homeserver_url = hs, hc_server_name = as_str (jget v ''server_name''),
     hc_api_base = api, hc_identity_server_url = as_str (jget v ''identity_server_url''),
     hc_livekit_url = as_str (jget v ''livekit_url''), hc_instance_name = as_str (jget v ''instance_name''),
     hc_features = (case as_arr (jget v ''features'') of None \<Rightarrow> None | Some fs \<Rightarrow> collect_options (map (\<lambda>f. as_str (Some f)) fs)),
     hc_turn_servers = as_arr (jget v ''turn_servers''), hc_node_role = as_str (jget v ''node_role''),
     hc_tunnel_anchor = as_bool (jget v ''tunnel_anchor''), hc_branding = None\<rparr>"

text \<open>\<open>thrown\<close> is the message of the engine's exception for a text that is no JSON.\<close>
definition handlePasteBlob :: "(str \<Rightarrow> str) \<Rightarrow> Picker \<Rightarrow> Picker" where
  "handlePasteBlob thrown pk =
    (let raw = trim (pk_pasteBlob pk); origin = origin_of (pk_ui pk) in
     if raw = [] then pk
     else case (case pasted_text raw of None \<Rightarrow> None | Some t \<Rightarrow> json_parse t) of
       None \<Rightarrow> pk\<lparr>pk_ui := Failure (''Paste couldn'' @ CHR 0x27 # ''t be parsed: '' @ thrown raw) True origin\<rparr>
     | Some parsed \<Rightarrow>
         (case (as_str (jget parsed ''api_base''), as_str (jget parsed ''homeserver_url''), as_str (jget parsed ''host'')) of
            (Some api, Some hs, Some h) \<Rightarrow>
              if \<not> starts_with ''https://'' api \<or> \<not> starts_with ''https://'' hs
              then pk\<lparr>pk_ui := Failure ''Pasted config has non-HTTPS URLs. Only https:// is allowed.'' True origin\<rparr>
              else pk\<lparr>pk_ui := Success (cast_config h hs api parsed) api origin\<rparr>
          | _ \<Rightarrow> pk\<lparr>pk_ui := Failure ''Pasted config is missing required fields (host, homeserver_url, api_base).'' True origin\<rparr>))"

section \<open>Hosting\<close>

definition POLL_MS :: nat where "POLL_MS = 500"
definition TIMEOUT_MS :: nat where "TIMEOUT_MS = 60000"

fun stageFor :: "ServitudeState \<Rightarrow> UiState" where
  "stageFor ServStopped = Hosting StagePreparing (''Preparing local instance'' @ dots)"
| "stageFor ServStarting = Hosting StageStarting (''Starting bundled Matrix homeserver'' @ dots)"
| "stageFor ServRunning = Hosting StageRunning ''Local instance ready.''"
| "stageFor ServStopping = Hosting StageFailed ''Local instance stopped unexpectedly while starting.''"

definition localConfig :: HomeserverConfig where
  "localConfig = plain_config ''localhost:8765'' ''http://localhost:8765'' ''http://localhost:8765/api'' ''Local Concord Node''"

text \<open>\<open>handleChooseHost\<close> up to its first await; the generation of the attempt when one starts.\<close>
definition hostBegin :: "bool \<Rightarrow> Picker \<Rightarrow> Picker \<times> nat option" where
  "hostBegin isTauri pk =
    (if \<not> isTauri then (pk\<lparr>pk_ui := Failure (''Embedded hosting is only available in the native desktop app. '' @
        ''Use a browser to connect to an existing instance instead.'') False OriginHost\<rparr>, None)
     else (pk\<lparr>pk_generation := Suc (pk_generation pk), pk_ui := stageFor ServStopped\<rparr>, Some (Suc (pk_generation pk))))"

text \<open>The start of the host has failed; an attempt the user has left changes nothing.\<close>
definition hostStartFailed :: "nat \<Rightarrow> str option \<Rightarrow> Picker \<Rightarrow> Picker" where
  "hostStartFailed gen err pk = (if pk_generation pk \<noteq> gen then pk
     else pk\<lparr>pk_ui := Hosting StageFailed (case err of Some m \<Rightarrow> ''Couldn'' @ CHR 0x27 # ''t start the embedded host: '' @ m
       | None \<Rightarrow> ''Couldn'' @ CHR 0x27 # ''t start the embedded host.'')\<rparr>)"

datatype poll_end = PollLeft | PollReady | PollStopping | PollFailed | PollTimedOut

text \<open>What a round of a current attempt shows, and how it ends the loop, if it does.\<close>
definition pollRound :: "str option + ServitudeState \<Rightarrow> UiState \<times> poll_end option" where
  "pollRound answer = (case answer of
     Inl err \<Rightarrow> (Hosting StageFailed (case err of Some m \<Rightarrow> ''Status poll failed: '' @ m | None \<Rightarrow> ''Status poll failed.''), Some PollFailed)
   | Inr s \<Rightarrow> (stageFor s, if s = ServRunning then Some PollReady else if s = ServStopping then Some PollStopping else None))"

definition timed_out :: UiState where
  "timed_out = Hosting StageFailed ''Local instance did not start within 60s. Check the app logs and try again.''"

text \<open>What the loop meets in round \<open>i\<close>: the time since it began, whether its attempt is still the current one
  before and after the request, and the answer.\<close>
record poll_env =
  pe_elapsed :: "nat \<Rightarrow> nat"
  pe_before :: "nat \<Rightarrow> bool"
  pe_after :: "nat \<Rightarrow> bool"
  pe_answer :: "nat \<Rightarrow> str option + ServitudeState"

text \<open>The loop need not end when the clock stands still: None. It yields how it ended and the screens it showed.\<close>
partial_function (option) host_poll :: "poll_env \<Rightarrow> nat \<Rightarrow> UiState list \<Rightarrow> (poll_end \<times> UiState list) option" where
  "host_poll env i shown =
    (if pe_elapsed env i < TIMEOUT_MS then
       (if \<not> pe_before env i \<or> \<not> pe_after env i then Some (PollLeft, shown)
        else case pollRound (pe_answer env i) of
          (ui, Some how) \<Rightarrow> Some (how, shown @ [ui])
        | (ui, None) \<Rightarrow> host_poll env (Suc i) (shown @ [ui]))
     else if \<not> pe_before env i then Some (PollLeft, shown)
     else Some (PollTimedOut, shown @ [timed_out]))"

text \<open>One round of attempt \<open>gen\<close> on the screen and the stores.\<close>
definition hostRound :: "nat \<Rightarrow> str option + ServitudeState \<Rightarrow> str \<Rightarrow> str \<Rightarrow> Picker \<Rightarrow> World \<Rightarrow> poll_end option \<times> Picker \<times> World" where
  "hostRound gen answer newId now pk w =
    (if pk_generation pk \<noteq> gen then (Some PollLeft, pk, w)
     else case pollRound answer of (ui, how) \<Rightarrow>
       (how, pk\<lparr>pk_ui := ui\<rparr>, if how = Some PollReady then commitServer newId now localConfig w else w))"

definition hostTimedOut :: "nat \<Rightarrow> Picker \<Rightarrow> Picker" where
  "hostTimedOut gen pk = (if pk_generation pk \<noteq> gen then pk else pk\<lparr>pk_ui := timed_out\<rparr>)"

section \<open>The screen in use\<close>

datatype screen_event =
    ChooseJoin | ChooseMatrix | ChooseBridge | ChooseHost | OpenScanner | TypeHost str | TypePaste str | Submit | Paste
  | Discovered fetch_outcome fetch_outcome fetch_outcome | Override str | EditHost | Confirm str str | Reset
  | Scanned str str str | StartFailed nat "str option" | Polled nat "str option + ServitudeState" str str | PollTimeout nat

text \<open>The screen, the stores behind it, the host being discovered, the attempts to host whose loop still runs, and
  what has been committed; \<open>sc_closed\<close> once \<open>onConnected\<close> was called.\<close>
record Screen =
  sc_pk :: Picker
  sc_world :: World
  sc_discovering :: "(ServerOrigin \<times> str) option"
  sc_loops :: "nat list"
  sc_commits :: "HomeserverConfig list"
  sc_closed :: bool

definition committed :: "HomeserverConfig \<Rightarrow> Picker \<Rightarrow> World \<Rightarrow> Screen \<Rightarrow> Screen" where
  "committed c pk w s = s\<lparr>sc_pk := pk, sc_world := w, sc_commits := sc_commits s @ [c], sc_closed := True\<rparr>"

definition in_menu :: "Screen \<Rightarrow> bool" where
  "in_menu s = (\<not> sc_closed s \<and> pk_ui (sc_pk s) = Menu)"

definition in_input :: "Screen \<Rightarrow> bool" where
  "in_input s = (\<not> sc_closed s \<and> (case pk_ui (sc_pk s) of Input _ \<Rightarrow> True | _ \<Rightarrow> False))"

definition in_success :: "Screen \<Rightarrow> bool" where
  "in_success s = (\<not> sc_closed s \<and> (case pk_ui (sc_pk s) of Success _ _ _ \<Rightarrow> True | _ \<Rightarrow> False))"

definition resettable :: "Screen \<Rightarrow> bool" where
  "resettable s = (\<not> sc_closed s \<and> (case pk_ui (sc_pk s) of Input _ \<Rightarrow> True | Failure _ _ _ \<Rightarrow> True | Hosting _ _ \<Rightarrow> True | _ \<Rightarrow> False))"

text \<open>A step of the screen: the buttons of the phase it is in, and the answers of what is under way.\<close>
fun screen_step :: "(str \<Rightarrow> (str \<times> str) option) \<Rightarrow> (str \<Rightarrow> str) \<Rightarrow> bool \<Rightarrow> screen_event \<Rightarrow> Screen \<Rightarrow> Screen option" where
  "screen_step p thrown t ChooseJoin s = (if in_menu s then Some (s\<lparr>sc_pk := handleChooseJoin (sc_pk s)\<rparr>) else None)"
| "screen_step p thrown t ChooseMatrix s = (if in_menu s then Some (s\<lparr>sc_pk := handleChooseMatrix (sc_pk s)\<rparr>) else None)"
| "screen_step p thrown t ChooseBridge s = (if in_menu s then Some (s\<lparr>sc_pk := handleChooseBridge (sc_pk s)\<rparr>) else None)"
| "screen_step p thrown t ChooseHost s = (if in_menu s then (case hostBegin t (sc_pk s) of
       (pk, None) \<Rightarrow> Some (s\<lparr>sc_pk := pk\<rparr>)
     | (pk, Some gen) \<Rightarrow> Some (s\<lparr>sc_pk := pk, sc_loops := gen # sc_loops s\<rparr>)) else None)"
| "screen_step p thrown t OpenScanner s = (if in_menu s then Some (s\<lparr>sc_pk := (sc_pk s)\<lparr>pk_scannerOpen := True\<rparr>\<rparr>) else None)"
| "screen_step p thrown t (TypeHost v) s = (if in_input s then Some (s\<lparr>sc_pk := (sc_pk s)\<lparr>pk_host := v\<rparr>\<rparr>) else None)"
| "screen_step p thrown t (TypePaste v) s = (if in_input s then Some (s\<lparr>sc_pk := (sc_pk s)\<lparr>pk_pasteBlob := v\<rparr>\<rparr>) else None)"
| "screen_step p thrown t Submit s = (if in_input s then (case connectBegin (sc_pk s) of (pk, h) \<Rightarrow>
       Some (s\<lparr>sc_pk := pk, sc_discovering := map_option (Pair (origin_of (pk_ui (sc_pk s)))) h\<rparr>)) else None)"
| "screen_step p thrown t Paste s = (if in_input s then Some (s\<lparr>sc_pk := handlePasteBlob thrown (sc_pk s)\<rparr>) else None)"
| "screen_step p thrown t (Discovered matrix concord element) s = (if sc_closed s then None else case sc_discovering s of
       None \<Rightarrow> None
     | Some (origin, h) \<Rightarrow> Some (s\<lparr>sc_pk := connectDone origin (discoverHomeserver p h matrix concord element) (sc_pk s),
         sc_discovering := None\<rparr>))"
| "screen_step p thrown t (Override v) s = (if in_success s then Some (s\<lparr>sc_pk := setApiBaseOverride v (sc_pk s)\<rparr>) else None)"
| "screen_step p thrown t EditHost s = (if in_success s then Some (s\<lparr>sc_pk := handleEditHost (sc_pk s)\<rparr>) else None)"
| "screen_step p thrown t (Confirm newId now) s = (if \<not> in_success s then None else case pk_ui (sc_pk s) of
       Success d ov o' \<Rightarrow> Some (committed (finalConfig d ov) (sc_pk s) (snd (handleConfirm newId now (sc_pk s) (sc_world s))) s)
     | _ \<Rightarrow> None)"
| "screen_step p thrown t Reset s = (if resettable s then Some (s\<lparr>sc_pk := handleReset t (sc_pk s)\<rparr>) else None)"
| "screen_step p thrown t (Scanned text newId now) s = (if sc_closed s \<or> \<not> pk_scannerOpen (sc_pk s) then None
     else case decodePairingPayload (\<lambda>u. map_option fst (p u)) text of
       Some (Inr cfg) \<Rightarrow> (case handlePairingSuccess newId now (from_pairing cfg) (sc_pk s) (sc_world s) of
         (pk, w) \<Rightarrow> Some (committed (from_pairing cfg) pk w s))
     | _ \<Rightarrow> None)"
| "screen_step p thrown t (StartFailed gen err) s = (if sc_closed s \<or> gen \<notin> set (sc_loops s) then None
     else Some (s\<lparr>sc_pk := hostStartFailed gen err (sc_pk s), sc_loops := removeAll gen (sc_loops s)\<rparr>))"
| "screen_step p thrown t (Polled gen answer newId now) s = (if sc_closed s \<or> gen \<notin> set (sc_loops s) then None
     else case hostRound gen answer newId now (sc_pk s) (sc_world s) of
       (None, pk, w) \<Rightarrow> Some (s\<lparr>sc_pk := pk\<rparr>)
     | (Some PollReady, pk, w) \<Rightarrow> Some (committed localConfig pk w (s\<lparr>sc_loops := removeAll gen (sc_loops s)\<rparr>))
     | (Some how, pk, w) \<Rightarrow> Some (s\<lparr>sc_pk := pk, sc_loops := removeAll gen (sc_loops s)\<rparr>))"
| "screen_step p thrown t (PollTimeout gen) s = (if sc_closed s \<or> gen \<notin> set (sc_loops s) then None
     else Some (s\<lparr>sc_pk := hostTimedOut gen (sc_pk s), sc_loops := removeAll gen (sc_loops s)\<rparr>))"

definition openScreen :: "bool \<Rightarrow> World \<Rightarrow> Screen" where
  "openScreen isTauri w = \<lparr>sc_pk = initialPicker isTauri, sc_world = w, sc_discovering = None, sc_loops = [],
     sc_commits = [], sc_closed = False\<rparr>"

inductive screen_reach :: "(str \<Rightarrow> (str \<times> str) option) \<Rightarrow> (str \<Rightarrow> str) \<Rightarrow> bool \<Rightarrow> World \<Rightarrow> Screen \<Rightarrow> bool"
  for p thrown t w where
  opened: "screen_reach p thrown t w (openScreen t w)"
| used: "screen_reach p thrown t w s \<Longrightarrow> screen_step p thrown t e s = Some s' \<Longrightarrow> screen_reach p thrown t w s'"

section \<open>The polling loop ends\<close>

text \<open>\<open>setTimeout(r, POLL_MS)\<close> does not return early.\<close>
definition clock_runs :: "poll_env \<Rightarrow> bool" where
  "clock_runs env = (\<forall>i. pe_elapsed env i + POLL_MS \<le> pe_elapsed env (Suc i))"

text \<open>Round \<open>n\<close> is reached from round \<open>i\<close> and finds the host running.\<close>
definition ready_at :: "poll_env \<Rightarrow> nat \<Rightarrow> nat \<Rightarrow> bool" where
  "ready_at env i n = (i \<le> n \<and> pe_answer env n = Inr ServRunning
     \<and> (\<forall>j. i \<le> j \<and> j \<le> n \<longrightarrow> pe_elapsed env j < TIMEOUT_MS \<and> pe_before env j \<and> pe_after env j)
     \<and> (\<forall>j. i \<le> j \<and> j < n \<longrightarrow> pe_answer env j = Inr ServStopped \<or> pe_answer env j = Inr ServStarting))"

lemma clock_lower: "clock_runs env \<Longrightarrow> 500 * i \<le> pe_elapsed env i"
proof (induction i)
  case (Suc i)
  then have "pe_elapsed env i + 500 \<le> pe_elapsed env (Suc i)" by (simp add: clock_runs_def POLL_MS_def)
  then show ?case using Suc by simp
qed simp

lemma pollRound_cases:
  "(pollRound a = (ui, how)) \<Longrightarrow> (how = Some PollReady \<longleftrightarrow> a = Inr ServRunning)
     \<and> (how = None \<longleftrightarrow> a = Inr ServStopped \<or> a = Inr ServStarting) \<and> how \<noteq> Some PollLeft \<and> how \<noteq> Some PollTimedOut
     \<and> (\<exists>st m. ui = Hosting st m)"
  by (cases a; cases "projr a") (auto simp: pollRound_def split: if_splits option.splits)

lemma ready_first: "pe_answer env i = Inr ServRunning \<Longrightarrow> ready_at env i n \<longleftrightarrow> n = i \<and> ready_at env i i"
  by (auto simp: ready_at_def dest!: spec[of _ i])

lemma ready_later:
  assumes "pe_answer env i = Inr ServStopped \<or> pe_answer env i = Inr ServStarting"
  shows "ready_at env i n \<longleftrightarrow> pe_elapsed env i < TIMEOUT_MS \<and> pe_before env i \<and> pe_after env i \<and> ready_at env (Suc i) n"
proof -
  have split: "(\<forall>j. i \<le> j \<and> j \<le> n \<longrightarrow> P j) \<longleftrightarrow> P i \<and> (\<forall>j. Suc i \<le> j \<and> j \<le> n \<longrightarrow> P j)" if "i \<le> n" for P
    using that by (metis Suc_leD Suc_leI le_eq_less_or_eq le_refl)
  have split': "(\<forall>j. i \<le> j \<and> j < n \<longrightarrow> P j) \<longleftrightarrow> P i \<and> (\<forall>j. Suc i \<le> j \<and> j < n \<longrightarrow> P j)" if "i < n" for P
    using that by (metis Suc_leD Suc_leI le_eq_less_or_eq le_refl)
  have "ready_at env i n \<Longrightarrow> i < n" using assms by (auto simp: ready_at_def le_less)
  moreover have "ready_at env (Suc i) n \<Longrightarrow> i < n" by (simp add: ready_at_def)
  ultimately show ?thesis using assms
    by (cases "i < n") (auto simp: ready_at_def split split' less_imp_le Suc_le_eq)
qed

lemma not_ready: "\<not> (pe_elapsed env i < TIMEOUT_MS \<and> pe_before env i \<and> pe_after env i) \<Longrightarrow> \<not> ready_at env i n"
  by (auto simp: ready_at_def)

lemma not_ready_answer: "pe_answer env i \<notin> {Inr ServRunning, Inr ServStopped, Inr ServStarting} \<Longrightarrow> \<not> ready_at env i n"
  by (auto simp: ready_at_def le_less)

lemma host_poll_ends:
  assumes "clock_runs env"
  shows "i + k = 120 \<Longrightarrow> \<exists>how shown. host_poll env i acc = Some (how, acc @ shown) \<and> length shown \<le> Suc k
    \<and> (how = PollReady \<longleftrightarrow> (\<exists>n. ready_at env i n))"
proof (induction k arbitrary: i acc)
  case 0
  then have "TIMEOUT_MS \<le> pe_elapsed env i" using clock_lower[OF assms, of i] by (simp add: TIMEOUT_MS_def)
  then show ?case using not_ready[of env i] by (auto simp: host_poll.simps)
next
  case (Suc k)
  obtain ui how where r: "pollRound (pe_answer env i) = (ui, how)" by (cases "pollRound (pe_answer env i)")
  note c = pollRound_cases[OF r]
  show ?case
  proof (cases "pe_elapsed env i < TIMEOUT_MS \<and> pe_before env i \<and> pe_after env i")
    case False
    then show ?thesis using not_ready[OF False] by (auto simp: host_poll.simps)
  next
    case current: True
    show ?thesis
    proof (cases how)
      case None
      obtain how' shown where "host_poll env (Suc i) (acc @ [ui]) = Some (how', (acc @ [ui]) @ shown)" "length shown \<le> Suc k"
          "how' = PollReady \<longleftrightarrow> (\<exists>n. ready_at env (Suc i) n)"
        using Suc.IH[of "Suc i" "acc @ [ui]"] Suc.prems by auto
      then show ?thesis using current None c ready_later[of env i] r by (auto simp: host_poll.simps[of env i])
    next
      case (Some h)
      then have "h = PollReady \<longleftrightarrow> (\<exists>n. ready_at env i n)"
        using c current not_ready_answer[of env i] ready_first[of env i] by (auto simp: ready_at_def le_less)
      then show ?thesis using current Some r by (auto simp: host_poll.simps[of env i])
    qed
  qed
qed

section \<open>What is committed\<close>

definition secure_endpoint :: "(str \<Rightarrow> (str \<times> str) option) \<Rightarrow> str \<Rightarrow> bool" where
  "secure_endpoint parse_url u = (https_url parse_url u \<or> starts_with ''https://'' u)"

lemma discovered_endpoint: "discoverHomeserver p h m c e = Inr cfg \<Longrightarrow> secure_endpoint p (hc_homeserver_url cfg)"
  by (erule discover_parts) (use resolve_matrix_Inr in \<open>auto simp: secure_endpoint_def\<close>)

lemma paired_endpoint:
  assumes "decodePairingPayload (\<lambda>u. map_option fst (p u)) text = Some (Inr cfg)"
  shows "secure_endpoint p (homeserver_url cfg)"
proof -
  obtain body where "read_body (\<lambda>u. map_option fst (p u)) body = Inr cfg"
    using assms by (auto simp: decodePairingPayload_def Let_def split: if_splits decoded_text.splits option.splits)
  from read_body_Inr[OF this] show ?thesis by (auto simp: secure_endpoint_def secure_def intro: https_urlI)
qed

definition offered_ok :: "(str \<Rightarrow> (str \<times> str) option) \<Rightarrow> UiState \<Rightarrow> bool" where
  "offered_ok p ui = (case ui of Success d ov o' \<Rightarrow> secure_endpoint p (hc_homeserver_url d) | _ \<Rightarrow> True)"

definition hosting :: "UiState \<Rightarrow> bool" where
  "hosting ui = (case ui of Hosting _ _ \<Rightarrow> True | _ \<Rightarrow> False)"

definition connecting :: "UiState \<Rightarrow> bool" where
  "connecting ui = (case ui of ConnectingTo _ \<Rightarrow> True | _ \<Rightarrow> False)"

lemma phase_simps [simp]:
  "hosting (Hosting st m)" "hosting (stageFor a)" "\<not> hosting Menu" "\<not> hosting (Input o')" "\<not> hosting (ConnectingTo o')"
  "\<not> hosting (Success d ov o')" "\<not> hosting (Failure m r o')"
  "connecting (ConnectingTo o')" "\<not> connecting Menu" "\<not> connecting (Input o')" "\<not> connecting (Hosting st m)"
  "\<not> connecting (Success d ov o')" "\<not> connecting (Failure m r o')"
  "offered_ok p Menu" "offered_ok p (Input o')" "offered_ok p (Hosting st m)" "offered_ok p (ConnectingTo o')"
  "offered_ok p (Failure m r o')" "offered_ok p (stageFor a)"
  "offered_ok p (Success d ov o') \<longleftrightarrow> secure_endpoint p (hc_homeserver_url d)"
  by (simp_all add: hosting_def connecting_def offered_ok_def) (cases a; simp)+

lemma host_poll_shows:
  assumes "host_poll env i acc = Some r"
  shows "list_all hosting acc \<longrightarrow> list_all hosting (snd r)"
proof (rule host_poll.raw_induct[where P = "\<lambda>env i acc r. list_all hosting acc \<longrightarrow> list_all hosting (snd r)", OF _ assms])
  fix poll env i acc r
  assume IH: "\<And>env i acc r. poll env i acc = Some r \<Longrightarrow> list_all hosting acc \<longrightarrow> list_all hosting (snd r)"
    and run: "(if pe_elapsed env i < TIMEOUT_MS then
       (if \<not> pe_before env i \<or> \<not> pe_after env i then Some (PollLeft, acc)
        else case pollRound (pe_answer env i) of
          (ui, Some how) \<Rightarrow> Some (how, acc @ [ui])
        | (ui, None) \<Rightarrow> poll env (Suc i) (acc @ [ui]))
     else if \<not> pe_before env i then Some (PollLeft, acc)
     else Some (PollTimedOut, acc @ [timed_out])) = Some r"
  obtain ui how where r: "pollRound (pe_answer env i) = (ui, how)" by (cases "pollRound (pe_answer env i)")
  show "list_all hosting acc \<longrightarrow> list_all hosting (snd r)"
    using run r pollRound_cases[OF r] IH[of env "Suc i" "acc @ [ui]" r]
    by (auto simp: timed_out_def split: if_splits option.splits)
qed

text \<open>An attempt to host that is the current one is on screen.\<close>
definition loops_ok :: "nat \<Rightarrow> UiState \<Rightarrow> nat list \<Rightarrow> bool" where
  "loops_ok gen ui ls = (\<forall>g \<in> set ls. g \<le> gen \<and> (g = gen \<longrightarrow> hosting ui))"

definition commits_ok :: "(str \<Rightarrow> (str \<times> str) option) \<Rightarrow> HomeserverConfig list \<Rightarrow> bool" where
  "commits_ok p cs = (\<forall>c \<in> set cs. c = localConfig \<or> secure_endpoint p (hc_homeserver_url c))"

text \<open>What holds of the screen at any time.\<close>
definition screen_inv :: "(str \<Rightarrow> (str \<times> str) option) \<Rightarrow> Screen \<Rightarrow> bool" where
  "screen_inv p s = (offered_ok p (pk_ui (sc_pk s)) \<and> commits_ok p (sc_commits s)
     \<and> loops_ok (pk_generation (sc_pk s)) (pk_ui (sc_pk s)) (sc_loops s)
     \<and> (sc_discovering s \<noteq> None \<longrightarrow> connecting (pk_ui (sc_pk s)))
     \<and> length (sc_commits s) = (if sc_closed s then 1 else 0))"

lemma loops_ok_move: "loops_ok gen ui ls \<Longrightarrow> set ls' \<subseteq> set ls \<Longrightarrow> (hosting ui \<longrightarrow> hosting ui') \<Longrightarrow> loops_ok gen ui' ls'"
  by (auto simp: loops_ok_def)

lemma loops_ok_fresh: "loops_ok gen ui ls \<Longrightarrow> loops_ok (Suc gen) ui' ls"
  by (fastforce simp: loops_ok_def)

lemma loops_ok_start: "loops_ok gen ui ls \<Longrightarrow> hosting ui' \<Longrightarrow> loops_ok (Suc gen) ui' (Suc gen # ls)"
  by (fastforce simp: loops_ok_def)

lemma paste_offered: "offered_ok p (pk_ui pk) \<Longrightarrow> offered_ok p (pk_ui (handlePasteBlob thrown pk))"
  by (auto simp: handlePasteBlob_def Let_def offered_ok_def cast_config_def secure_endpoint_def split: option.splits)

lemma connect_offered:
  "offered_ok p (pk_ui pk) \<Longrightarrow> connectBegin pk = (pk', h) \<Longrightarrow> offered_ok p (pk_ui pk')
     \<and> (h \<noteq> None \<longrightarrow> connecting (pk_ui pk')) \<and> pk_generation pk' = pk_generation pk"
  by (auto simp: connectBegin_def Let_def offered_ok_def matrix_config_def plain_config_def secure_endpoint_def starts_with_def
      split: if_splits)

lemma discovered_offered: "offered_ok p (pk_ui (connectDone o' (discoverHomeserver p h m c e) pk))"
  by (auto simp: connectDone_def offered_ok_def discovered_endpoint split: sum.splits prod.splits)

lemma paste_generation: "pk_generation (handlePasteBlob thrown pk) = pk_generation pk"
  by (simp add: handlePasteBlob_def Let_def split: option.splits)

lemma round_shows:
  assumes "hostRound gen answer newId now pk w = (how, pk', w')"
  shows "pk_generation pk' = pk_generation pk \<and> (pk_generation pk = gen \<longrightarrow> hosting (pk_ui pk') \<and> offered_ok p (pk_ui pk'))
    \<and> (pk_generation pk \<noteq> gen \<longrightarrow> pk' = pk \<and> w' = w \<and> how = Some PollLeft) \<and> (how \<noteq> Some PollReady \<longrightarrow> w' = w)"
  using assms pollRound_cases[of answer] by (auto simp: hostRound_def split: if_splits prod.splits)

lemma inv_parts:
  assumes "screen_inv p s"
  shows "offered_ok p (pk_ui (sc_pk s))" "commits_ok p (sc_commits s)" "loops_ok (pk_generation (sc_pk s)) (pk_ui (sc_pk s)) (sc_loops s)"
    "\<not> connecting (pk_ui (sc_pk s)) \<Longrightarrow> sc_discovering s = None"
    "length (sc_commits s) = (if sc_closed s then 1 else 0)"
  using assms by (auto simp: screen_inv_def simp del: not_None_eq)

lemma inv_move:
  assumes "screen_inv p s" "sc_commits s' = sc_commits s" "sc_closed s' = sc_closed s" "set (sc_loops s') \<subseteq> set (sc_loops s)"
    "offered_ok p (pk_ui (sc_pk s'))" "pk_generation (sc_pk s') = pk_generation (sc_pk s)"
    "hosting (pk_ui (sc_pk s)) \<longrightarrow> hosting (pk_ui (sc_pk s'))" "sc_discovering s' \<noteq> None \<longrightarrow> connecting (pk_ui (sc_pk s'))"
  shows "screen_inv p s'"
  using inv_parts[OF assms(1)] assms(2-8) loops_ok_move[of _ _ "sc_loops s" "sc_loops s'"] by (simp add: screen_inv_def)

lemma inv_commit:
  assumes "screen_inv p s" "\<not> sc_closed s" "c = localConfig \<or> secure_endpoint p (hc_homeserver_url c)"
    "offered_ok p (pk_ui pk)" "hosting (pk_ui (sc_pk s)) \<longrightarrow> hosting (pk_ui pk)" "connecting (pk_ui (sc_pk s)) \<longrightarrow> connecting (pk_ui pk)"
    "pk_generation pk = pk_generation (sc_pk s)" "set ls \<subseteq> set (sc_loops s)"
  shows "screen_inv p (committed c pk w (s\<lparr>sc_loops := ls\<rparr>))"
  using inv_parts[OF assms(1)] assms loops_ok_move[of _ _ "sc_loops s" ls]
  by (auto simp: screen_inv_def committed_def commits_ok_def)

lemma phases:
  "in_menu s \<Longrightarrow> \<not> sc_closed s \<and> pk_ui (sc_pk s) = Menu"
  "in_input s \<Longrightarrow> \<not> sc_closed s \<and> (\<exists>o'. pk_ui (sc_pk s) = Input o')"
  "in_success s \<Longrightarrow> \<not> sc_closed s \<and> (\<exists>d ov o'. pk_ui (sc_pk s) = Success d ov o')"
  "resettable s \<Longrightarrow> \<not> sc_closed s \<and> \<not> connecting (pk_ui (sc_pk s))"
  by (auto simp: in_menu_def in_input_def in_success_def resettable_def connecting_def split: UiState.splits)

lemma paste_phase: "\<not> hosting (pk_ui pk) \<Longrightarrow> \<not> connecting (pk_ui pk) \<Longrightarrow> \<not> connecting (pk_ui (handlePasteBlob thrown pk))"
  by (auto simp: handlePasteBlob_def Let_def split: option.splits)

lemma inv_step:
  assumes "screen_inv p s" "screen_step p thrown t e s = Some s'"
  shows "screen_inv p s'"
proof (cases e)
  case ChooseJoin
  then have "in_menu s" "s' = s\<lparr>sc_pk := handleChooseJoin (sc_pk s)\<rparr>" using assms(2) by (auto split: if_splits)
  then show ?thesis using inv_parts(4)[OF assms(1)] phases(1)
    by (intro inv_move[OF assms(1)]) (auto simp: handleChooseJoin_def)
next
  case ChooseMatrix
  then have "in_menu s" "s' = s\<lparr>sc_pk := handleChooseMatrix (sc_pk s)\<rparr>" using assms(2) by (auto split: if_splits)
  then show ?thesis using inv_parts(4)[OF assms(1)] phases(1)
    by (intro inv_move[OF assms(1)]) (auto simp: handleChooseMatrix_def)
next
  case ChooseBridge
  then have "in_menu s" "s' = s\<lparr>sc_pk := handleChooseBridge (sc_pk s)\<rparr>" using assms(2) by (auto split: if_splits)
  then show ?thesis using inv_parts(4)[OF assms(1)] phases(1)
    by (intro inv_move[OF assms(1)]) (auto simp: handleChooseBridge_def)
next
  case ChooseHost
  then have "in_menu s" using assms(2) by (auto split: if_splits)
  then show ?thesis using ChooseHost assms inv_parts[OF assms(1)] phases(1)[of s] loops_ok_start[of _ _ "sc_loops s"]
    by (cases t) (auto simp: hostBegin_def screen_inv_def intro: loops_ok_move[OF _ subset_refl])
next
  case OpenScanner
  then have "in_menu s" "s' = s\<lparr>sc_pk := (sc_pk s)\<lparr>pk_scannerOpen := True\<rparr>\<rparr>" using assms(2) by (auto split: if_splits)
  then show ?thesis using inv_parts[OF assms(1)] by (intro inv_move[OF assms(1)]) (auto simp: phases(1))
next
  case (TypeHost v)
  then have "in_input s" "s' = s\<lparr>sc_pk := (sc_pk s)\<lparr>pk_host := v\<rparr>\<rparr>" using assms(2) by (auto split: if_splits)
  then show ?thesis using inv_parts[OF assms(1)] phases(2)[of s] by (intro inv_move[OF assms(1)]) auto
next
  case (TypePaste v)
  then have "in_input s" "s' = s\<lparr>sc_pk := (sc_pk s)\<lparr>pk_pasteBlob := v\<rparr>\<rparr>" using assms(2) by (auto split: if_splits)
  then show ?thesis using inv_parts[OF assms(1)] phases(2)[of s] by (intro inv_move[OF assms(1)]) auto
next
  case Submit
  then obtain pk h where "in_input s" "connectBegin (sc_pk s) = (pk, h)"
      "s' = s\<lparr>sc_pk := pk, sc_discovering := map_option (Pair (origin_of (pk_ui (sc_pk s)))) h\<rparr>"
    using assms(2) by (auto split: if_splits prod.splits)
  then show ?thesis using connect_offered[OF inv_parts(1)[OF assms(1)], of pk h] phases(2)[of s]
    by (intro inv_move[OF assms(1)]) auto
next
  case Paste
  then have "in_input s" "s' = s\<lparr>sc_pk := handlePasteBlob thrown (sc_pk s)\<rparr>" using assms(2) by (auto split: if_splits)
  then show ?thesis using inv_parts[OF assms(1)] phases(2)[of s] paste_offered[of p "sc_pk s"] paste_generation[of thrown "sc_pk s"]
    by (intro inv_move[OF assms(1)]) auto
next
  case (Discovered m c e')
  then obtain o' h where "sc_discovering s = Some (o', h)" "s' = s\<lparr>sc_pk := connectDone o' (discoverHomeserver p h m c e') (sc_pk s), sc_discovering := None\<rparr>"
    using assms(2) by (auto split: if_splits option.splits)
  moreover have "pk_generation (connectDone o' r pk) = pk_generation pk" for r pk
    by (simp add: connectDone_def split: sum.split prod.split)
  ultimately show ?thesis using assms(1) discovered_offered
    by (intro inv_move[OF assms(1)]) (auto simp: screen_inv_def hosting_def connecting_def split: UiState.splits)
next
  case (Override v)
  then have "in_success s" "s' = s\<lparr>sc_pk := setApiBaseOverride v (sc_pk s)\<rparr>" using assms(2) by (auto split: if_splits)
  then show ?thesis using inv_parts[OF assms(1)] phases(3)[of s]
    by (intro inv_move[OF assms(1)]) (auto simp: setApiBaseOverride_def)
next
  case EditHost
  then have "in_success s" "s' = s\<lparr>sc_pk := handleEditHost (sc_pk s)\<rparr>" using assms(2) by (auto split: if_splits)
  then show ?thesis using inv_parts[OF assms(1)] phases(3)[of s]
    by (intro inv_move[OF assms(1)]) (auto simp: handleEditHost_def)
next
  case (Confirm i n)
  then have c: "in_success s" using assms(2) by (auto split: if_splits)
  then obtain d ov o' where "pk_ui (sc_pk s) = Success d ov o'" using phases(3) by blast
  then show ?thesis using c Confirm assms phases(3)[OF c] inv_parts[OF assms(1)] inv_commit[OF assms(1), of "finalConfig d ov" "sc_pk s" "sc_loops s"]
    by (auto simp: finalConfig_def)
next
  case Reset
  then have r: "resettable s" "s' = s\<lparr>sc_pk := handleReset t (sc_pk s)\<rparr>" using assms(2) by (auto split: if_splits)
  then show ?thesis using inv_parts[OF assms(1)] phases(4)[OF r(1)] loops_ok_fresh
    by (auto simp: screen_inv_def handleReset_def Let_def)
next
  case (Scanned payload i n)
  then obtain cfg where "\<not> sc_closed s" "decodePairingPayload (\<lambda>u. map_option fst (p u)) payload = Some (Inr cfg)"
      "s' = committed (from_pairing cfg) ((sc_pk s)\<lparr>pk_scannerOpen := False\<rparr>) (commitServer i n (from_pairing cfg) (sc_world s)) s"
    using assms(2) by (auto simp: handlePairingSuccess_def split: if_splits option.splits sum.splits)
  then show ?thesis using inv_parts[OF assms(1)] paired_endpoint[of p payload cfg]
      inv_commit[OF assms(1), of "from_pairing cfg" "(sc_pk s)\<lparr>pk_scannerOpen := False\<rparr>" "sc_loops s"]
    by (auto simp: from_pairing_def)
next
  case (StartFailed g err)
  then have "g \<in> set (sc_loops s)" "s' = s\<lparr>sc_pk := hostStartFailed g err (sc_pk s), sc_loops := removeAll g (sc_loops s)\<rparr>"
    using assms(2) by (auto split: if_splits)
  then show ?thesis using assms(1) inv_parts[OF assms(1)] by (intro inv_move[OF assms(1)]) (auto simp: hostStartFailed_def loops_ok_def screen_inv_def hosting_def split: UiState.splits)
next
  case (PollTimeout g)
  then have "g \<in> set (sc_loops s)" "s' = s\<lparr>sc_pk := hostTimedOut g (sc_pk s), sc_loops := removeAll g (sc_loops s)\<rparr>"
    using assms(2) by (auto split: if_splits)
  then show ?thesis using assms(1) inv_parts[OF assms(1)] by (intro inv_move[OF assms(1)]) (auto simp: hostTimedOut_def timed_out_def loops_ok_def screen_inv_def hosting_def split: UiState.splits)
next
  case (Polled g answer i n)
  then have l: "g \<in> set (sc_loops s)" "\<not> sc_closed s" using assms(2) by (auto split: if_splits)
  obtain how pk w where r: "hostRound g answer i n (sc_pk s) (sc_world s) = (how, pk, w)" by (cases "hostRound g answer i n (sc_pk s) (sc_world s)")
  have pk: "pk_generation pk = pk_generation (sc_pk s)" "offered_ok p (pk_ui pk)" "hosting (pk_ui (sc_pk s)) \<longrightarrow> hosting (pk_ui pk)"
      "connecting (pk_ui (sc_pk s)) \<longrightarrow> connecting (pk_ui pk)"
    using round_shows[OF r, where p = p] inv_parts[OF assms(1)] l(1)
    by (cases "pk_generation (sc_pk s) = g"; auto simp: loops_ok_def hosting_def connecting_def split: UiState.splits)+
  have d: "sc_discovering s \<noteq> None \<longrightarrow> connecting (pk_ui pk)" using pk(4) assms(1) by (auto simp: screen_inv_def)
  have c: "screen_inv p (committed localConfig pk w (s\<lparr>sc_loops := removeAll g (sc_loops s)\<rparr>))"
    using inv_commit[OF assms(1) l(2), of localConfig pk "removeAll g (sc_loops s)" w] pk by auto
  have m: "screen_inv p (s\<lparr>sc_pk := pk, sc_loops := ls\<rparr>)" if "set ls \<subseteq> set (sc_loops s)" for ls
    by (rule inv_move[OF assms(1)]) (use pk d that in auto)
  have "s\<lparr>sc_pk := pk\<rparr> = s\<lparr>sc_pk := pk, sc_loops := sc_loops s\<rparr>" by simp
  then have m0: "screen_inv p (s\<lparr>sc_pk := pk\<rparr>)" using m[of "sc_loops s"] by simp
  show ?thesis using assms(2) Polled l r c m0 m[of "removeAll g (sc_loops s)"]
    by (auto split: option.splits poll_end.splits)
qed

lemma reach_inv: "screen_reach p thrown t w s \<Longrightarrow> screen_inv p s"
proof (induction rule: screen_reach.induct)
  case opened
  show ?case by (simp add: screen_inv_def openScreen_def initialPicker_def commits_ok_def loops_ok_def)
next
  case (used s e s')
  then show ?case using inv_step by blast
qed

section \<open>Properties\<close>

text \<open>C24. Hosting comes to an end: when the timer does not fire early, the polling loop returns after at most 121
  rounds; every screen it shows on the way is a hosting stage; and it ends with the host ready exactly when some round finds it running in time, the user still
  there, and every round before it found it stopped or starting.\<close>
theorem hosting_ends:
  assumes "clock_runs env"
  shows "\<exists>how shown. host_poll env 0 [] = Some (how, shown) \<and> length shown \<le> 121
    \<and> list_all hosting shown \<and> (how = PollReady \<longleftrightarrow> (\<exists>n. ready_at env 0 n))"
  using host_poll_ends[OF assms, of 0 120 "[]"] host_poll_shows[of env 0 "[]"] by fastforce

text \<open>Whatever the user does on the screen and whatever hosts, codes and the shell answer: at most one server is
  committed, the screen closes with it, and its homeserver is the local host, one whose URL the browser gives
  the https protocol, or one that was pasted as https.\<close>
theorem picker_commits_secure:
  assumes "screen_reach parse_url thrown isTauri w s"
  shows "length (sc_commits s) = (if sc_closed s then 1 else 0)
    \<and> (c \<in> set (sc_commits s) \<longrightarrow> c = localConfig \<or> https_url parse_url (hc_homeserver_url c)
        \<or> starts_with ''https://'' (hc_homeserver_url c))"
  using reach_inv[OF assms] by (auto simp: screen_inv_def commits_ok_def secure_endpoint_def)

text \<open>An attempt to host that the user has left is dead: in every reachable screen that is not showing it, its
  answers change neither the screen nor the stores and commit nothing.\<close>
theorem left_attempt_is_dead:
  assumes "screen_reach parse_url thrown isTauri w s" and "screen_step parse_url thrown isTauri (Polled gen answer newId now) s = Some s'"
    and "\<not> hosting (pk_ui (sc_pk s))"
  shows "sc_pk s' = sc_pk s \<and> sc_world s' = sc_world s \<and> sc_commits s' = sc_commits s \<and> gen \<notin> set (sc_loops s')"
proof -
  have "gen \<noteq> pk_generation (sc_pk s)"
    using reach_inv[OF assms(1)] assms(2,3) by (auto simp: screen_inv_def loops_ok_def split: if_splits)
  then show ?thesis using assms(2) by (auto simp: hostRound_def split: if_splits)
qed

text \<open>The API base of the success screen is free text: for every text there is a way to have it committed, also
  without https, next to a homeserver that was checked.\<close>
theorem override_is_unchecked:
  assumes "discoverHomeserver parse_url (trim entered) matrix concord element = Inr cfg" and "trim entered \<noteq> []"
  shows "\<exists>s c. screen_reach parse_url thrown isTauri w s \<and> sc_commits s = [c] \<and> hc_homeserver_url c = hc_homeserver_url cfg
    \<and> hc_api_base c = strip_trailing CHR ''/'' api"
proof -
  define s0 where "s0 = openScreen isTauri w"
  obtain s1 where s1: "screen_reach parse_url thrown isTauri w s1" "pk_ui (sc_pk s1) = Input OriginJoin" "\<not> sc_closed s1" "sc_commits s1 = []"
  proof (cases isTauri)
    case False
    then show ?thesis using that[of s0] screen_reach.opened[of parse_url thrown isTauri w]
      by (simp add: s0_def openScreen_def initialPicker_def)
  next
    case True
    have "screen_step parse_url thrown isTauri ChooseJoin s0 = Some (s0\<lparr>sc_pk := handleChooseJoin (sc_pk s0)\<rparr>)"
      using True by (simp add: s0_def openScreen_def initialPicker_def in_menu_def)
    then have "screen_reach parse_url thrown isTauri w (s0\<lparr>sc_pk := handleChooseJoin (sc_pk s0)\<rparr>)"
      using screen_reach.used[OF screen_reach.opened] unfolding s0_def by blast
    then show ?thesis by (rule that) (simp_all add: handleChooseJoin_def s0_def openScreen_def)
  qed
  define s2 where "s2 = s1\<lparr>sc_pk := (sc_pk s1)\<lparr>pk_host := entered\<rparr>\<rparr>"
  have s2: "screen_reach parse_url thrown isTauri w s2"
    by (rule screen_reach.used[OF s1(1), of "TypeHost entered"]) (use s1 in \<open>simp add: s2_def in_input_def\<close>)
  define s3 where "s3 = s2\<lparr>sc_pk := (sc_pk s2)\<lparr>pk_ui := ConnectingTo OriginJoin\<rparr>, sc_discovering := Some (OriginJoin, trim entered)\<rparr>"
  have s3: "screen_reach parse_url thrown isTauri w s3"
    by (rule screen_reach.used[OF s2, of Submit])
      (use s1 assms(2) in \<open>simp add: s2_def s3_def in_input_def connectBegin_def origin_of_def\<close>)
  define s4 where "s4 = s3\<lparr>sc_pk := (sc_pk s3)\<lparr>pk_ui := Success cfg (hc_api_base cfg) OriginJoin\<rparr>, sc_discovering := None\<rparr>"
  have s4: "screen_reach parse_url thrown isTauri w s4"
    by (rule screen_reach.used[OF s3, of "Discovered matrix concord element"])
      (use s1 assms(1) in \<open>simp add: s2_def s3_def s4_def connectDone_def\<close>)
  define s5 where "s5 = s4\<lparr>sc_pk := (sc_pk s4)\<lparr>pk_ui := Success cfg api OriginJoin\<rparr>\<rparr>"
  have s5: "screen_reach parse_url thrown isTauri w s5"
    by (rule screen_reach.used[OF s4, of "Override api"])
      (use s1 in \<open>simp add: s2_def s3_def s4_def s5_def in_success_def setApiBaseOverride_def\<close>)
  obtain s6 where s6: "screen_step parse_url thrown isTauri (Confirm ''i'' ''n'') s5 = Some s6" "sc_commits s6 = [finalConfig cfg api]"
    using s1 by (simp add: s2_def s3_def s4_def s5_def in_success_def committed_def)
  show ?thesis using screen_reach.used[OF s5 s6(1)] s6(2) by (intro exI[of _ s6] exI[of _ "finalConfig cfg api"]) (simp add: finalConfig_def)
qed

text \<open>A pasted configuration is not put through the URL parser, and its LiveKit URL is not looked at.\<close>
lemma paste_accepts_anything_https:
  "pk_ui (handlePasteBlob thrown ((initialPicker False)\<lparr>pk_pasteBlob :=
      stringify (JObj [(''host'', JStr ''h''), (''homeserver_url'', JStr ''https://''), (''api_base'', JStr ''https://''),
        (''livekit_url'', JStr ''ws://x'')])\<rparr>))
    = Success \<lparr>hc_host = ''h'', hc_homeserver_url = ''https://'', hc_server_name = None, hc_api_base = ''https://'',
        hc_identity_server_url = None, hc_livekit_url = Some ''ws://x'', hc_instance_name = None, hc_features = None,
        hc_turn_servers = None, hc_node_role = None, hc_tunnel_anchor = None, hc_branding = None\<rparr> ''https://'' OriginJoin"
  by code_simp

section \<open>Witnesses\<close>

text \<open>A host that starts in the third round.\<close>
definition slow_start :: poll_env where
  "slow_start = \<lparr>pe_elapsed = (\<lambda>i. 500 * i), pe_before = (\<lambda>_. True), pe_after = (\<lambda>_. True),
     pe_answer = (\<lambda>i. if i < 2 then Inr ServStarting else Inr ServRunning)\<rparr>"

theorem hosting_ends_witness: "\<exists>shown. host_poll slow_start 0 [] = Some (PollReady, shown)"
proof -
  have "clock_runs slow_start" by (simp add: clock_runs_def slow_start_def POLL_MS_def)
  from hosting_ends[OF this] obtain how shown where h: "host_poll slow_start 0 [] = Some (how, shown)"
      "how = PollReady \<longleftrightarrow> (\<exists>n. ready_at slow_start 0 n)" by blast
  have "ready_at slow_start 0 2" by (auto simp: ready_at_def slow_start_def TIMEOUT_MS_def)
  then show ?thesis using h by blast
qed

definition bare_world :: World where
  "bare_world = \<lparr>w_auth = initialAuth, w_sources = \<lparr>sources = [], boundUserId = None\<rparr>, w_config = None, w_tauri = True,
     w_ls = [], w_calls = []\<rparr>"

text \<open>Hosting until the second answer.\<close>
definition hosted_screen :: Screen where
  "hosted_screen = (let s0 = openScreen True bare_world;
      s1 = the (screen_step split_url (\<lambda>_. []) True ChooseHost s0);
      s2 = the (screen_step split_url (\<lambda>_. []) True (Polled 1 (Inr ServStarting) ''i'' ''n'') s1)
    in the (screen_step split_url (\<lambda>_. []) True (Polled 1 (Inr ServRunning) ''i'' ''n'') s2))"

lemma hosted_reach: "screen_reach split_url (\<lambda>_. []) True bare_world hosted_screen"
proof -
  let ?step = "screen_step split_url (\<lambda>_. []) True"
  let ?s0 = "openScreen True bare_world"
  have "?step ChooseHost ?s0 = Some (the (?step ChooseHost ?s0))" by code_simp
  note r1 = screen_reach.used[OF screen_reach.opened this]
  have "?step (Polled 1 (Inr ServStarting) ''i'' ''n'') (the (?step ChooseHost ?s0)) \<noteq> None" by code_simp
  then have "?step (Polled 1 (Inr ServStarting) ''i'' ''n'') (the (?step ChooseHost ?s0))
      = Some (the (?step (Polled 1 (Inr ServStarting) ''i'' ''n'') (the (?step ChooseHost ?s0))))" by simp
  note r2 = screen_reach.used[OF r1 this]
  have "?step (Polled 1 (Inr ServRunning) ''i'' ''n'') (the (?step (Polled 1 (Inr ServStarting) ''i'' ''n'') (the (?step ChooseHost ?s0)))) \<noteq> None"
    by code_simp
  then have "?step (Polled 1 (Inr ServRunning) ''i'' ''n'') (the (?step (Polled 1 (Inr ServStarting) ''i'' ''n'') (the (?step ChooseHost ?s0))))
      = Some hosted_screen" by (simp add: hosted_screen_def Let_def)
  from screen_reach.used[OF r2 this] show ?thesis .
qed

theorem picker_commits_secure_witness: "length (sc_commits hosted_screen) = 1 \<and> sc_closed hosted_screen"
proof -
  have "sc_closed hosted_screen" by code_simp
  then show ?thesis using picker_commits_secure[OF hosted_reach, of localConfig] by simp
qed

text \<open>The user leaves while the host is starting.\<close>
definition left_screen :: Screen where
  "left_screen = (let s0 = openScreen True bare_world;
      s1 = the (screen_step split_url (\<lambda>_. []) True ChooseHost s0)
    in the (screen_step split_url (\<lambda>_. []) True Reset s1))"

lemma left_reach: "screen_reach split_url (\<lambda>_. []) True bare_world left_screen"
proof -
  let ?step = "screen_step split_url (\<lambda>_. []) True"
  let ?s0 = "openScreen True bare_world"
  have "?step ChooseHost ?s0 = Some (the (?step ChooseHost ?s0))" by code_simp
  note r1 = screen_reach.used[OF screen_reach.opened this]
  have "?step Reset (the (?step ChooseHost ?s0)) \<noteq> None" by code_simp
  then have "?step Reset (the (?step ChooseHost ?s0)) = Some left_screen" by (simp add: left_screen_def Let_def)
  from screen_reach.used[OF r1 this] show ?thesis .
qed

theorem left_attempt_is_dead_witness:
  "\<exists>s'. screen_step split_url (\<lambda>_. []) True (Polled 1 (Inr ServRunning) ''i'' ''n'') left_screen = Some s' \<and> sc_commits s' = []"
proof -
  have "screen_step split_url (\<lambda>_. []) True (Polled 1 (Inr ServRunning) ''i'' ''n'') left_screen \<noteq> None" by code_simp
  then obtain s' where s: "screen_step split_url (\<lambda>_. []) True (Polled 1 (Inr ServRunning) ''i'' ''n'') left_screen = Some s'" by blast
  have "\<not> hosting (pk_ui (sc_pk left_screen))" "sc_commits left_screen = []" by code_simp+
  then show ?thesis using left_attempt_is_dead[OF left_reach s] s by simp
qed

theorem override_is_unchecked_witness:
  "\<exists>s c. screen_reach split_url (\<lambda>_. []) True bare_world s \<and> sc_commits s = [c] \<and> hc_api_base c = ''http://evil''"
proof -
  have d: "discoverHomeserver split_url (trim ''x.org'') sample_matrix sample_concord NetworkError = Inr
     \<lparr>hc_host = ''x.org'', hc_homeserver_url = ''https://m.x.org'', hc_server_name = Some ''x.org'', hc_api_base = ''https://x.org/api'',
      hc_identity_server_url = None, hc_livekit_url = Some ''wss://lk.x.org'', hc_instance_name = None, hc_features = None,
      hc_turn_servers = None, hc_node_role = None, hc_tunnel_anchor = None, hc_branding = None\<rparr>" by code_simp
  have "strip_trailing CHR ''/'' ''http://evil'' = ''http://evil''" "trim ''x.org'' \<noteq> []" by code_simp+
  then show ?thesis using override_is_unchecked[OF d, of "\<lambda>_. []" True bare_world "''http://evil''"] by auto
qed

end
