(* ===== verification/ConcordApi.thy ===== *)
theory ConcordApi
  imports Codec
begin

text \<open>
  The requests of \<open>api/concord.ts\<close>: where they go (\<open>api/serverUrl.ts\<close>), how \<open>apiFetch\<close> sends one and reads
  the answer, and every endpoint as the call it makes. A call is its method, its path under the API base and its body;
  what the network answers is a parameter. Option None in a body's field is a property JSON.stringify leaves out.
\<close>

section \<open>Where the API is\<close>

text \<open>The base the configuration store holds, if any, and the URL set in the session.\<close>
record ServerUrls =
  su_api_base :: "str option"
  su_serverUrl :: str

definition setServerUrl :: "str \<Rightarrow> ServerUrls \<Rightarrow> ServerUrls" where
  "setServerUrl url s = s\<lparr>su_serverUrl := (if ends_with ''/'' url then butlast url else url)\<rparr>"

definition getApiBase :: "ServerUrls \<Rightarrow> str" where
  "getApiBase s = (case su_api_base s of
     Some b \<Rightarrow> if b \<noteq> [] then b else if su_serverUrl s \<noteq> [] then su_serverUrl s @ ''/api'' else ''/api''
   | None \<Rightarrow> if su_serverUrl s \<noteq> [] then su_serverUrl s @ ''/api'' else ''/api'')"

definition getHomeserverUrl :: "str \<Rightarrow> ServerUrls \<Rightarrow> str" where
  "getHomeserverUrl origin s = (if su_serverUrl s \<noteq> [] then su_serverUrl s else origin)"

definition hasServerUrl :: "bool \<Rightarrow> ServerUrls \<Rightarrow> bool" where
  "hasServerUrl isTauri s = (\<not> isTauri \<or> length (su_serverUrl s) > 0)"

section \<open>One request\<close>

record ApiCall =
  ac_method :: str
  ac_path :: str
  ac_body :: "str option"

record HttpRequest =
  hr_url :: str
  hr_method :: str
  hr_headers :: "(str \<times> str) list"
  hr_body :: "str option"

text \<open>The answer: the status, its text, the length header, and the body if it is JSON.\<close>
record HttpAnswer =
  ha_status :: int
  ha_statusText :: str
  ha_contentLength :: "str option"
  ha_json :: "json option"

datatype api_error = ApiError str | TypeFault | NotJson | NetworkFault str

definition resp_ok :: "HttpAnswer \<Rightarrow> bool" where
  "resp_ok a = (200 \<le> ha_status a \<and> ha_status a \<le> 299)"

definition api_request :: "ServerUrls \<Rightarrow> ApiCall \<Rightarrow> str option \<Rightarrow> HttpRequest" where
  "api_request urls call token =
    \<lparr>hr_url = getApiBase urls @ ac_path call, hr_method = ac_method call,
     hr_headers = (''Content-Type'', ''application/json'')
       # (case token of None \<Rightarrow> [] | Some t \<Rightarrow> if t = [] then [] else [(''Authorization'', ''Bearer '' @ t)]),
     hr_body = ac_body call\<rparr>"

text \<open>One entry of a list of validation errors; None is a thrown TypeError.\<close>
definition validation_entry :: "json \<Rightarrow> str option" where
  "validation_entry e = (if e = JNull then None else
     (case (case jget e ''loc'' of None \<Rightarrow> Some [] | Some JNull \<Rightarrow> Some []
         | Some (JArr xs) \<Rightarrow> Some (join_with ''.'' (map (\<lambda>x. if x = JNull then [] else js_string x) (filter (\<lambda>x. x \<noteq> JStr ''body'') xs)))
         | _ \<Rightarrow> None) of
       None \<Rightarrow> None
     | Some field \<Rightarrow> Some (if field \<noteq> [] then field @ '': '' @ key_of (jget e ''msg'')
         else if truthy (jget e ''msg'') then key_of (jget e ''msg'') else ''Validation error'')))"

definition error_message :: "json \<Rightarrow> api_error" where
  "error_message err = (if err = JNull then TypeFault else
     (case jget err ''detail'' of
       Some (JStr d) \<Rightarrow> ApiError d
     | Some (JArr xs) \<Rightarrow> (case those (map validation_entry xs) of None \<Rightarrow> TypeFault | Some ms \<Rightarrow> ApiError (join_with ''; '' ms))
     | _ \<Rightarrow> if truthy (jget err ''error'') then ApiError (key_of (jget err ''error'')) else ApiError ''API error''))"

text \<open>The value of the promise: undefined for an empty answer.\<close>
definition api_answer :: "HttpAnswer \<Rightarrow> api_error + json option" where
  "api_answer a =
    (if \<not> resp_ok a then Inl (error_message (case ha_json a of Some j \<Rightarrow> j | None \<Rightarrow> JObj [(''detail'', JStr (ha_statusText a))]))
     else if ha_status a = 204 \<or> ha_contentLength a = Some ''0'' then Inr None
     else case ha_json a of None \<Rightarrow> Inl NotJson | Some j \<Rightarrow> Inr (Some j))"

definition apiFetch :: "(HttpRequest \<Rightarrow> str + HttpAnswer) \<Rightarrow> ServerUrls \<Rightarrow> ApiCall \<Rightarrow> str option \<Rightarrow> api_error + json option" where
  "apiFetch fetch urls call token = (case fetch (api_request urls call token) of
     Inl e \<Rightarrow> Inl (NetworkFault e) | Inr a \<Rightarrow> api_answer a)"

definition fetching :: "str \<Rightarrow> ApiCall" where
  "fetching path = \<lparr>ac_method = ''GET'', ac_path = path, ac_body = None\<rparr>"

definition bare :: "str \<Rightarrow> str \<Rightarrow> ApiCall" where
  "bare m path = \<lparr>ac_method = m, ac_path = path, ac_body = None\<rparr>"

definition posting :: "str \<Rightarrow> ApiCall" where
  "posting path = \<lparr>ac_method = ''POST'', ac_path = path, ac_body = Some ''{}''\<rparr>"

text \<open>\<open>JSON.stringify({...})\<close> leaves undefined properties out.\<close>
definition present :: "(str \<times> json option) list \<Rightarrow> (str \<times> json) list" where
  "present kvs = List.map_filter (\<lambda>(k, v). map_option (\<lambda>x. (k, x)) v) kvs"

definition sending :: "str \<Rightarrow> str \<Rightarrow> (str \<times> json option) list \<Rightarrow> ApiCall" where
  "sending m path kvs = \<lparr>ac_method = m, ac_path = path, ac_body = Some (stringify (JObj (present kvs)))\<rparr>"

definition jstr :: "str option \<Rightarrow> json option" where "jstr s = map_option JStr s"
definition jbool :: "bool option \<Rightarrow> json option" where "jbool b = map_option JBool b"
definition jnum :: "int option \<Rightarrow> json option" where "jnum n = map_option JNum n"

text \<open>A string or null.\<close>
definition or_null :: "str option \<Rightarrow> json" where "or_null s = (case s of None \<Rightarrow> JNull | Some x \<Rightarrow> JStr x)"

section \<open>Servers, channels and extensions\<close>

definition listExtensions :: ApiCall where
  "listExtensions = fetching (''/extensions'')"

definition listServers :: ApiCall where
  "listServers = fetching (''/servers'')"

definition createServerCall :: "str \<Rightarrow> (str option) \<Rightarrow> (str option) \<Rightarrow> ApiCall" where
  "createServerCall name visibility abbreviation = sending ''POST'' (''/servers'') [(''name'', Some (JStr name)), (''visibility'', jstr visibility), (''abbreviation'', jstr abbreviation)]"

definition startServerExtensionCall :: "str \<Rightarrow> str \<Rightarrow> ApiCall" where
  "startServerExtensionCall serverId extensionId = posting (''/servers/'' @ serverId @ ''/extensions/'' @ encodeURIComponent extensionId @ ''/start'')"

definition createChannelCall :: "str \<Rightarrow> str \<Rightarrow> str \<Rightarrow> (str option) \<Rightarrow> (str option) \<Rightarrow> ApiCall" where
  "createChannelCall serverId name channelType extension_id app_access = sending ''POST'' (''/servers/'' @ serverId @ ''/channels'') [(''name'', Some (JStr name)), (''channel_type'', Some (JStr channelType)), (''extension_id'', jstr extension_id), (''app_access'', jstr app_access)]"

definition updateAppChannelAccess :: "str \<Rightarrow> int \<Rightarrow> str \<Rightarrow> ApiCall" where
  "updateAppChannelAccess serverId channelId appAccess = sending ''PATCH'' (''/servers/'' @ serverId @ ''/channels/'' @ int_text channelId) [(''app_access'', Some (JStr appAccess))]"

definition createInvite :: "str \<Rightarrow> (str option) \<Rightarrow> (bool option) \<Rightarrow> (int option) \<Rightarrow> (int option) \<Rightarrow> ApiCall" where
  "createInvite serverId passphrase permanent hours maxUses = sending ''POST'' (''/invites'') [(''server_id'', Some (JStr serverId)), (''passphrase'', jstr passphrase), (''permanent'', jbool permanent), (''expires_in_hours'', jnum hours), (''max_uses'', jnum maxUses)]"

definition getAuthCode :: "str \<Rightarrow> ApiCall" where
  "getAuthCode serverId = fetching (''/invites/auth-code/'' @ serverId)"

definition listInvites :: "str \<Rightarrow> ApiCall" where
  "listInvites serverId = fetching (''/invites/'' @ serverId)"

definition validateInvite :: "str \<Rightarrow> ApiCall" where
  "validateInvite token = fetching (''/invites/validate/'' @ token)"

definition revokeInvite :: "int \<Rightarrow> ApiCall" where
  "revokeInvite inviteId = bare ''DELETE'' (''/invites/'' @ int_text inviteId)"

definition updateInvite :: "int \<Rightarrow> (bool option) \<Rightarrow> (int option) \<Rightarrow> (int option) \<Rightarrow> ApiCall" where
  "updateInvite inviteId permanent hours maxUses = sending ''PATCH'' (''/invites/'' @ int_text inviteId) [(''permanent'', jbool permanent), (''expires_in_hours'', jnum hours), (''max_uses'', jnum maxUses)]"

definition deleteServerCall :: "str \<Rightarrow> ApiCall" where
  "deleteServerCall serverId = bare ''DELETE'' (''/servers/'' @ serverId)"

definition deleteChannelCall :: "str \<Rightarrow> int \<Rightarrow> ApiCall" where
  "deleteChannelCall serverId channelId = bare ''DELETE'' (''/servers/'' @ serverId @ ''/channels/'' @ int_text channelId)"

definition renameChannelCall :: "str \<Rightarrow> int \<Rightarrow> str \<Rightarrow> ApiCall" where
  "renameChannelCall serverId channelId name = sending ''PATCH'' (''/servers/'' @ serverId @ ''/channels/'' @ int_text channelId) [(''name'', Some (JStr name))]"

definition reorderChannelsCall :: "str \<Rightarrow> (int list) \<Rightarrow> ApiCall" where
  "reorderChannelsCall serverId channelIds = sending ''PATCH'' (''/servers/'' @ serverId @ ''/channels/reorder'') [(''order'', Some (JArr (map JNum channelIds)))]"

definition leaveServerCall :: "str \<Rightarrow> ApiCall" where
  "leaveServerCall serverId = bare ''DELETE'' (''/servers/'' @ serverId @ ''/members/me'')"

definition registerUser :: "str \<Rightarrow> str \<Rightarrow> (str option) \<Rightarrow> ApiCall" where
  "registerUser username password inviteToken = sending ''POST'' (''/register'') [(''username'', Some (JStr username)), (''password'', Some (JStr password)), (''invite_token'', (if inviteToken = Some [] then None else jstr inviteToken))]"

section \<open>Voice and soundboard\<close>

text \<open>Without rooms there is no request.\<close>
definition getVoiceParticipants :: "str list \<Rightarrow> ApiCall option" where
  "getVoiceParticipants roomIds = (if roomIds = [] then None
     else Some (fetching (''/voice/participants?rooms='' @ encodeURIComponent (join_with '','' roomIds))))"

definition listSoundboardLibrary :: "(str option) \<Rightarrow> ApiCall" where
  "listSoundboardLibrary query = fetching (''/soundboard/library'' @ (case query of None \<Rightarrow> [] | Some q \<Rightarrow> if q = [] then [] else ''?q='' @ encodeURIComponent q))"

definition listSoundboardClips :: "str \<Rightarrow> ApiCall" where
  "listSoundboardClips serverId = fetching (''/soundboard/'' @ serverId)"

definition updateSoundboardClip :: "int \<Rightarrow> (str option) \<Rightarrow> (str option) \<Rightarrow> ApiCall" where
  "updateSoundboardClip clipId name keybind = sending ''PATCH'' (''/soundboard/'' @ int_text clipId) [(''name'', jstr name), (''keybind'', jstr keybind)]"

definition deleteSoundboardClip :: "int \<Rightarrow> ApiCall" where
  "deleteSoundboardClip clipId = bare ''DELETE'' (''/soundboard/'' @ int_text clipId)"

definition searchSoundLibrary :: "str \<Rightarrow> int \<Rightarrow> str \<Rightarrow> ApiCall" where
  "searchSoundLibrary query page order = fetching (''/soundboard/library/search?q='' @ encodeURIComponent query @ ''&page='' @ int_text page @ ''&sort='' @ order)"

definition importLibrarySound :: "str \<Rightarrow> int \<Rightarrow> str \<Rightarrow> str \<Rightarrow> (str option) \<Rightarrow> (str option) \<Rightarrow> (str option) \<Rightarrow> ApiCall" where
  "importLibrarySound serverId freesoundId name previewUrl license license_url attribution = sending ''POST'' (''/soundboard/library/import/'' @ serverId) [(''freesound_id'', Some (JNum freesoundId)), (''name'', Some (JStr name)), (''preview_url'', Some (JStr previewUrl)), (''license'', Some (or_null license)), (''license_url'', Some (or_null license_url)), (''attribution'', Some (or_null attribution))]"

section \<open>Discovery and settings of a server\<close>

definition discoverServers :: "str \<Rightarrow> ApiCall" where
  "discoverServers query = fetching (''/servers/discover'' @ (if query = [] then [] else ''?q='' @ encodeURIComponent query))"

definition getDefaultServer :: ApiCall where
  "getDefaultServer = fetching (''/servers/default'')"

definition joinServer :: "str \<Rightarrow> ApiCall" where
  "joinServer serverId = bare ''POST'' (''/servers/'' @ serverId @ ''/join'')"

definition rejoinServerRooms :: "str \<Rightarrow> ApiCall" where
  "rejoinServerRooms serverId = bare ''POST'' (''/servers/'' @ serverId @ ''/rejoin'')"

definition getServerSettings :: "str \<Rightarrow> ApiCall" where
  "getServerSettings serverId = fetching (''/servers/'' @ serverId @ ''/settings'')"

definition updateServerSettings :: "str \<Rightarrow> (str option) \<Rightarrow> (str option) \<Rightarrow> (json option) \<Rightarrow> (bool option) \<Rightarrow> (json option) \<Rightarrow> ApiCall" where
  "updateServerSettings serverId name visibility abbreviation media rules = sending ''PATCH'' (''/servers/'' @ serverId @ ''/settings'') [(''name'', jstr name), (''visibility'', jstr visibility), (''abbreviation'', abbreviation), (''media_uploads_enabled'', jbool media), (''rules_text'', rules)]"

definition getServerRules :: "str \<Rightarrow> ApiCall" where
  "getServerRules serverId = fetching (''/servers/'' @ serverId @ ''/rules'')"

definition deleteServerIcon :: "str \<Rightarrow> ApiCall" where
  "deleteServerIcon serverId = bare ''DELETE'' (''/servers/'' @ serverId @ ''/icon'')"

definition updateChannelCreationSetting :: "str \<Rightarrow> bool \<Rightarrow> ApiCall" where
  "updateChannelCreationSetting serverId allow = sending ''PATCH'' (''/servers/'' @ serverId @ ''/settings/channel-creation'') [(''allow_user_channel_creation'', Some (JBool allow))]"

section \<open>Members, bans, whitelist and webhooks\<close>

definition listMembers :: "str \<Rightarrow> ApiCall" where
  "listMembers serverId = fetching (''/servers/'' @ serverId @ ''/members'')"

definition updateMemberRole :: "str \<Rightarrow> str \<Rightarrow> str \<Rightarrow> ApiCall" where
  "updateMemberRole serverId userId role = sending ''PATCH'' (''/servers/'' @ serverId @ ''/members/'' @ encodeURIComponent userId @ ''/role'') [(''role'', Some (JStr role))]"

definition updateDisplayName :: "str \<Rightarrow> str \<Rightarrow> (str option) \<Rightarrow> ApiCall" where
  "updateDisplayName serverId userId displayName = sending ''PATCH'' (''/servers/'' @ serverId @ ''/members/'' @ encodeURIComponent userId @ ''/display-name'') [(''display_name'', Some (or_null displayName))]"

definition kickMember :: "str \<Rightarrow> str \<Rightarrow> ApiCall" where
  "kickMember serverId userId = bare ''DELETE'' (''/servers/'' @ serverId @ ''/members/'' @ encodeURIComponent userId)"

definition listBans :: "str \<Rightarrow> ApiCall" where
  "listBans serverId = fetching (''/servers/'' @ serverId @ ''/bans'')"

definition banUser :: "str \<Rightarrow> str \<Rightarrow> ApiCall" where
  "banUser serverId userId = sending ''POST'' (''/servers/'' @ serverId @ ''/bans'') [(''user_id'', Some (JStr userId))]"

definition unbanUser :: "str \<Rightarrow> str \<Rightarrow> ApiCall" where
  "unbanUser serverId userId = bare ''DELETE'' (''/servers/'' @ serverId @ ''/bans/'' @ encodeURIComponent userId)"

definition listWhitelist :: "str \<Rightarrow> ApiCall" where
  "listWhitelist serverId = fetching (''/servers/'' @ serverId @ ''/whitelist'')"

definition addToWhitelist :: "str \<Rightarrow> str \<Rightarrow> ApiCall" where
  "addToWhitelist serverId userId = sending ''POST'' (''/servers/'' @ serverId @ ''/whitelist'') [(''user_id'', Some (JStr userId))]"

definition removeFromWhitelist :: "str \<Rightarrow> str \<Rightarrow> ApiCall" where
  "removeFromWhitelist serverId userId = bare ''DELETE'' (''/servers/'' @ serverId @ ''/whitelist/'' @ encodeURIComponent userId)"

definition listWebhooks :: "str \<Rightarrow> ApiCall" where
  "listWebhooks serverId = fetching (''/servers/'' @ serverId @ ''/webhooks'')"

definition createWebhook :: "str \<Rightarrow> int \<Rightarrow> str \<Rightarrow> ApiCall" where
  "createWebhook serverId channelId name = sending ''POST'' (''/servers/'' @ serverId @ ''/webhooks'') [(''channel_id'', Some (JNum channelId)), (''name'', Some (JStr name))]"

definition deleteWebhook :: "str \<Rightarrow> str \<Rightarrow> ApiCall" where
  "deleteWebhook serverId webhookId = bare ''DELETE'' (''/servers/'' @ serverId @ ''/webhooks/'' @ webhookId)"

definition toggleWebhook :: "str \<Rightarrow> str \<Rightarrow> ApiCall" where
  "toggleWebhook serverId webhookId = bare ''PATCH'' (''/servers/'' @ serverId @ ''/webhooks/'' @ webhookId)"

definition getWebhookInfo :: "str \<Rightarrow> ApiCall" where
  "getWebhookInfo webhookId = fetching (''/hooks/'' @ webhookId)"

definition submitWebhookMessage :: "str \<Rightarrow> str \<Rightarrow> (str option) \<Rightarrow> ApiCall" where
  "submitWebhookMessage webhookId content username = sending ''POST'' (''/hooks/'' @ webhookId) [(''content'', Some (JStr content)), (''username'', Some (JStr (case username of None \<Rightarrow> ''Anonymous'' | Some u \<Rightarrow> if u = [] then ''Anonymous'' else u)))]"

section \<open>Invites, account and reports\<close>

definition checkEmailAvailable :: ApiCall where
  "checkEmailAvailable = fetching (''/invites/email-available'')"

definition sendEmailInvite :: "str \<Rightarrow> str \<Rightarrow> ApiCall" where
  "sendEmailInvite serverId email = sending ''POST'' (''/invites/email'') [(''server_id'', Some (JStr serverId)), (''email'', Some (JStr email))]"

definition redeemInvite :: "str \<Rightarrow> ApiCall" where
  "redeemInvite token = bare ''POST'' (''/invites/'' @ token @ ''/redeem'')"

definition listServerInvites :: "str \<Rightarrow> ApiCall" where
  "listServerInvites serverId = fetching (''/invites/'' @ serverId)"

definition changePassword :: "str \<Rightarrow> str \<Rightarrow> ApiCall" where
  "changePassword currentPassword newPassword = sending ''POST'' (''/user/change-password'') [(''current_password'', Some (JStr currentPassword)), (''new_password'', Some (JStr newPassword))]"

definition setRecoveryEmail :: "(str option) \<Rightarrow> ApiCall" where
  "setRecoveryEmail recoveryEmail = sending ''PUT'' (''/user/recovery-email'') [(''recovery_email'', Some (or_null recoveryEmail))]"

definition getRecoveryEmailStatus :: ApiCall where
  "getRecoveryEmailStatus = fetching (''/user/recovery-email-status'')"

definition submitBugReport :: "str \<Rightarrow> str \<Rightarrow> ((str \<times> json) list) \<Rightarrow> ApiCall" where
  "submitBugReport title description systemInfo = sending ''POST'' (''/reports'') [(''title'', Some (JStr title)), (''description'', Some (JStr description)), (''system_info'', Some (JStr (stringify (JObj systemInfo))))]"

definition searchUsers :: "str \<Rightarrow> ApiCall" where
  "searchUsers q = fetching (''/users/search?q='' @ encodeURIComponent q)"

definition sendDirectInvite :: "str \<Rightarrow> str \<Rightarrow> ApiCall" where
  "sendDirectInvite serverId inviteeId = sending ''POST'' (''/direct-invites'') [(''server_id'', Some (JStr serverId)), (''invitee_id'', Some (JStr inviteeId))]"

definition getPendingDirectInvites :: ApiCall where
  "getPendingDirectInvites = fetching (''/direct-invites/pending'')"

definition respondToDirectInvite :: "int \<Rightarrow> bool \<Rightarrow> ApiCall" where
  "respondToDirectInvite inviteId accept = sending ''POST'' (''/direct-invites/'' @ int_text inviteId @ ''/respond'') [(''action'', Some (JStr (if accept then ''accept'' else ''decline'')))]"

section \<open>Statistics, second factor, locks and votes\<close>

definition startVoiceSession :: "str \<Rightarrow> str \<Rightarrow> ApiCall" where
  "startVoiceSession channelId serverId = sending ''POST'' (''/stats/voice/start'') [(''channel_id'', Some (JStr channelId)), (''server_id'', Some (JStr serverId))]"

definition endVoiceSession :: "int \<Rightarrow> ApiCall" where
  "endVoiceSession sessionId = sending ''POST'' (''/stats/voice/end'') [(''session_id'', Some (JNum sessionId))]"

definition incrementMessageCount :: "str \<Rightarrow> str \<Rightarrow> ApiCall" where
  "incrementMessageCount channelId serverId = sending ''POST'' (''/stats/messages/increment'') [(''channel_id'', Some (JStr channelId)), (''server_id'', Some (JStr serverId))]"

definition getMyStats :: "int \<Rightarrow> ApiCall" where
  "getMyStats days = fetching (''/stats/me?days='' @ int_text days)"

definition getTOTPStatus :: ApiCall where
  "getTOTPStatus = fetching (''/user/totp/status'')"

definition setupTOTP :: ApiCall where
  "setupTOTP = bare ''POST'' (''/user/totp/setup'')"

definition verifyTOTP :: "str \<Rightarrow> ApiCall" where
  "verifyTOTP code = sending ''POST'' (''/user/totp/verify'') [(''code'', Some (JStr code))]"

definition disableTOTP :: "str \<Rightarrow> ApiCall" where
  "disableTOTP code = sending ''POST'' (''/user/totp/disable'') [(''code'', Some (JStr code))]"

definition loginVerifyTOTP :: "str \<Rightarrow> ApiCall" where
  "loginVerifyTOTP code = sending ''POST'' (''/user/totp/login-verify'') [(''code'', Some (JStr code))]"

definition getUsersWithTOTP :: ApiCall where
  "getUsersWithTOTP = fetching (''/user/totp/users-with-totp'')"

definition lockChannel :: "int \<Rightarrow> str \<Rightarrow> ApiCall" where
  "lockChannel channelId pin = sending ''POST'' (''/channels/'' @ int_text channelId @ ''/lock'') [(''pin'', Some (JStr pin))]"

definition unlockChannel :: "int \<Rightarrow> str \<Rightarrow> ApiCall" where
  "unlockChannel channelId pin = sending ''POST'' (''/channels/'' @ int_text channelId @ ''/unlock'') [(''pin'', Some (JStr pin))]"

definition verifyChannelPin :: "int \<Rightarrow> str \<Rightarrow> ApiCall" where
  "verifyChannelPin channelId pin = sending ''POST'' (''/channels/'' @ int_text channelId @ ''/verify-pin'') [(''pin'', Some (JStr pin))]"

definition getChannelLockStatus :: "int \<Rightarrow> ApiCall" where
  "getChannelLockStatus channelId = fetching (''/channels/'' @ int_text channelId @ ''/lock-status'')"

definition startVoteKick :: "str \<Rightarrow> str \<Rightarrow> str \<Rightarrow> int \<Rightarrow> ApiCall" where
  "startVoteKick serverId channelId targetUserId totalEligible = sending ''POST'' (''/servers/'' @ serverId @ ''/vote-kick'') [(''channel_id'', Some (JStr channelId)), (''target_user_id'', Some (JStr targetUserId)), (''total_eligible'', Some (JNum totalEligible))]"

definition castVoteKick :: "int \<Rightarrow> bool \<Rightarrow> ApiCall" where
  "castVoteKick voteId vote = sending ''POST'' (''/vote-kicks/'' @ int_text voteId @ ''/vote'') [(''vote'', Some (JBool vote))]"

definition getActiveVoteKicks :: "str \<Rightarrow> ApiCall" where
  "getActiveVoteKicks serverId = fetching (''/servers/'' @ serverId @ ''/vote-kicks/active'')"

definition executeVoteKick :: "int \<Rightarrow> ApiCall" where
  "executeVoteKick voteId = bare ''POST'' (''/vote-kicks/'' @ int_text voteId @ ''/execute'')"

definition getBanSettings :: "str \<Rightarrow> ApiCall" where
  "getBanSettings serverId = fetching (''/servers/'' @ serverId @ ''/ban-settings'')"

definition updateBanSettings :: "str \<Rightarrow> (int option) \<Rightarrow> (int option) \<Rightarrow> (str option) \<Rightarrow> ApiCall" where
  "updateBanSettings serverId limit window mode = sending ''PATCH'' (''/servers/'' @ serverId @ ''/ban-settings'') [(''kick_limit'', jnum limit), (''kick_window_minutes'', jnum window), (''ban_mode'', jstr mode)]"

definition getMyKickCount :: "str \<Rightarrow> ApiCall" where
  "getMyKickCount serverId = fetching (''/servers/'' @ serverId @ ''/my-kicks'')"

definition updateMemberPermissions :: "str \<Rightarrow> str \<Rightarrow> (bool option) \<Rightarrow> (bool option) \<Rightarrow> ApiCall" where
  "updateMemberPermissions serverId userId canKick canBan = sending ''PATCH'' (''/servers/'' @ serverId @ ''/members/'' @ encodeURIComponent userId @ ''/permissions'') [(''can_kick'', jbool canKick), (''can_ban'', jbool canBan)]"

section \<open>Instance and administration\<close>

definition getInstanceInfo :: ApiCall where
  "getInstanceInfo = fetching (''/instance'')"

definition updateInstanceSettings :: "(str option) \<Rightarrow> (bool option) \<Rightarrow> (bool option) \<Rightarrow> ApiCall" where
  "updateInstanceSettings name requireTotp openRegistration = sending ''PATCH'' (''/admin/instance'') [(''name'', jstr name), (''require_totp'', jbool requireTotp), (''open_registration'', jbool openRegistration)]"

definition setInstanceBranding :: "str \<Rightarrow> str \<Rightarrow> (json option) \<Rightarrow> ApiCall" where
  "setInstanceBranding primary accent logo = sending ''POST'' (''/admin/instance/branding'') [(''primary_color'', Some (JStr primary)), (''accent_color'', Some (JStr accent)), (''logo_url'', logo)]"

definition adminListInvites :: ApiCall where
  "adminListInvites = fetching (''/admin/invites'')"

definition adminCreateInvite :: "(str option) \<Rightarrow> (int option) \<Rightarrow> (int option) \<Rightarrow> (bool option) \<Rightarrow> ApiCall" where
  "adminCreateInvite serverId maxUses hours permanent = sending ''POST'' (''/admin/invites'') [(''server_id'', jstr serverId), (''max_uses'', jnum maxUses), (''expires_in_hours'', jnum hours), (''permanent'', jbool permanent)]"

definition adminRevokeInvite :: "int \<Rightarrow> ApiCall" where
  "adminRevokeInvite inviteId = bare ''DELETE'' (''/admin/invites/'' @ int_text inviteId)"

definition adminGetExtensionCatalog :: ApiCall where
  "adminGetExtensionCatalog = fetching (''/admin/extensions/catalog'')"

definition adminInstallExtension :: "str \<Rightarrow> ApiCall" where
  "adminInstallExtension extensionId = sending ''POST'' (''/admin/extensions/install'') [(''extension_id'', Some (JStr extensionId))]"

definition adminUninstallExtension :: "str \<Rightarrow> ApiCall" where
  "adminUninstallExtension extensionId = bare ''DELETE'' (''/admin/extensions/'' @ encodeURIComponent extensionId)"

definition checkAdmin :: ApiCall where
  "checkAdmin = fetching (''/admin/check'')"

definition getAdminStats :: ApiCall where
  "getAdminStats = fetching (''/admin/stats'')"

definition getAdminServers :: ApiCall where
  "getAdminServers = fetching (''/admin/servers'')"

definition getAdminUsers :: ApiCall where
  "getAdminUsers = fetching (''/admin/users'')"

definition getAdminReports :: ApiCall where
  "getAdminReports = fetching (''/admin/reports'')"

definition updateAdminReport :: "int \<Rightarrow> (str option) \<Rightarrow> (str option) \<Rightarrow> ApiCall" where
  "updateAdminReport reportId status notes = sending ''PATCH'' (''/admin/reports/'' @ int_text reportId) [(''status'', jstr status), (''admin_notes'', jstr notes)]"

section \<open>Direct messages, federation, service node and bans\<close>

definition listDMs :: ApiCall where
  "listDMs = fetching (''/dms'')"

definition createDM :: "str \<Rightarrow> ApiCall" where
  "createDM targetUserId = sending ''POST'' (''/dms'') [(''target_user_id'', Some (JStr targetUserId))]"

definition getRoomDiagnostics :: "str \<Rightarrow> ApiCall" where
  "getRoomDiagnostics roomId = fetching (''/rooms/'' @ encodeURIComponent roomId @ ''/diagnostics'')"

definition getFederationStatus :: ApiCall where
  "getFederationStatus = fetching (''/admin/federation'')"

definition updateFederationAllowlist :: "(str list) \<Rightarrow> ApiCall" where
  "updateFederationAllowlist allowed = sending ''PUT'' (''/admin/federation/allowlist'') [(''allowed_servers'', Some (JArr (map JStr allowed)))]"

definition applyFederationChanges :: ApiCall where
  "applyFederationChanges = posting (''/admin/federation/apply'')"

definition getServiceNodeConfig :: ApiCall where
  "getServiceNodeConfig = fetching (''/admin/service-node'')"

definition updateServiceNodeConfig :: "int \<Rightarrow> int \<Rightarrow> int \<Rightarrow> bool \<Rightarrow> str \<Rightarrow> (json option) \<Rightarrow> ((bool \<times> bool \<times> bool) option) \<Rightarrow> ApiCall" where
  "updateServiceNodeConfig cpu bandwidth storage anchor role domain transports = sending ''PUT'' (''/admin/service-node'') [(''max_cpu_percent'', Some (JNum cpu)), (''max_bandwidth_mbps'', Some (JNum bandwidth)), (''max_storage_gb'', Some (JNum storage)), (''tunnel_anchor_enabled'', Some (JBool anchor)), (''node_role'', Some (JStr role)), (''custom_domain'', domain), (''transports'', map_option (\<lambda>(f, w, t). JObj [(''federation'', JBool f), (''wireguard'', JBool w), (''turn'', JBool t)]) transports)]"

definition listExploreServers :: ApiCall where
  "listExploreServers = fetching (''/explore/servers'')"

definition getAdminBans :: ApiCall where
  "getAdminBans = fetching (''/admin/bans'')"

definition adminBanUser :: "str \<Rightarrow> (str option) \<Rightarrow> ApiCall" where
  "adminBanUser userId reason = sending ''POST'' (''/admin/bans'') [(''user_id'', Some (JStr userId)), (''reason'', Some (or_null reason))]"

definition adminUnbanUser :: "str \<Rightarrow> ApiCall" where
  "adminUnbanUser userId = bare ''DELETE'' (''/admin/bans/'' @ encodeURIComponent userId)"

definition createGuestSession :: ApiCall where
  "createGuestSession = bare ''POST'' (''/register/guest'')"

section \<open>Uploads\<close>

datatype form_value = FormText str | FormFile str

record FormRequest =
  fr_url :: str
  fr_authorization :: str
  fr_parts :: "(str \<times> form_value) list"

definition uploadSoundboardClip :: "ServerUrls \<Rightarrow> str \<Rightarrow> str \<Rightarrow> str \<Rightarrow> str \<Rightarrow> FormRequest" where
  "uploadSoundboardClip urls serverId name file token =
    \<lparr>fr_url = getApiBase urls @ ''/soundboard/'' @ serverId, fr_authorization = ''Bearer '' @ token,
     fr_parts = [(''name'', FormText name), (''file'', FormFile file)]\<rparr>"

definition uploadServerIcon :: "ServerUrls \<Rightarrow> str \<Rightarrow> str \<Rightarrow> str \<Rightarrow> FormRequest" where
  "uploadServerIcon urls serverId file token =
    \<lparr>fr_url = getApiBase urls @ ''/servers/'' @ serverId @ ''/icon'', fr_authorization = ''Bearer '' @ token,
     fr_parts = [(''file'', FormFile file)]\<rparr>"

text \<open>\<open>new Error(x)\<close> makes a string of whatever it is given.\<close>
definition clip_answer :: "HttpAnswer \<Rightarrow> api_error + json" where
  "clip_answer a =
    (if \<not> resp_ok a then (let err = (case ha_json a of Some j \<Rightarrow> j | None \<Rightarrow> JObj [(''detail'', JStr (ha_statusText a))]) in
       Inl (if err = JNull then TypeFault
         else if truthy (jget err ''detail'') then ApiError (key_of (jget err ''detail'')) else ApiError ''Upload failed''))
     else case ha_json a of None \<Rightarrow> Inl NotJson | Some j \<Rightarrow> Inr j)"

definition icon_answer :: "HttpAnswer \<Rightarrow> api_error + json" where
  "icon_answer a =
    (if \<not> resp_ok a then (let err = (case ha_json a of Some j \<Rightarrow> j | None \<Rightarrow> JObj [(''detail'', JStr (ha_statusText a))]) in
       Inl (if err = JNull then TypeFault
         else case as_str (jget err ''detail'') of Some d \<Rightarrow> ApiError d | None \<Rightarrow> ApiError ''Failed to upload icon''))
     else case ha_json a of None \<Rightarrow> Inl NotJson | Some j \<Rightarrow> Inr j)"

section \<open>All of them\<close>

text \<open>Every call the module makes, and whether it is made with the access token.\<close>
inductive concord_call :: "bool \<Rightarrow> ApiCall \<Rightarrow> bool" where
  "concord_call True listExtensions"
| "concord_call True listServers"
| "concord_call True (createServerCall name visibility abbreviation)"
| "concord_call True (startServerExtensionCall serverId extensionId)"
| "concord_call True (createChannelCall serverId name channelType extension_id app_access)"
| "concord_call True (updateAppChannelAccess serverId channelId appAccess)"
| "concord_call True (createInvite serverId passphrase permanent hours maxUses)"
| "concord_call True (getAuthCode serverId)"
| "concord_call True (listInvites serverId)"
| "concord_call False (validateInvite token)"
| "concord_call True (revokeInvite inviteId)"
| "concord_call True (updateInvite inviteId permanent hours maxUses)"
| "concord_call True (deleteServerCall serverId)"
| "concord_call True (deleteChannelCall serverId channelId)"
| "concord_call True (renameChannelCall serverId channelId name)"
| "concord_call True (reorderChannelsCall serverId channelIds)"
| "concord_call True (leaveServerCall serverId)"
| "concord_call False (registerUser username password inviteToken)"
| "getVoiceParticipants roomIds = Some c \<Longrightarrow> concord_call True c"
| "concord_call True (listSoundboardLibrary query)"
| "concord_call True (listSoundboardClips serverId)"
| "concord_call True (updateSoundboardClip clipId name keybind)"
| "concord_call True (deleteSoundboardClip clipId)"
| "concord_call True (searchSoundLibrary query page order)"
| "concord_call True (importLibrarySound serverId freesoundId name previewUrl license license_url attribution)"
| "concord_call True (discoverServers query)"
| "concord_call True getDefaultServer"
| "concord_call True (joinServer serverId)"
| "concord_call True (rejoinServerRooms serverId)"
| "concord_call True (getServerSettings serverId)"
| "pred_option json_ok abbreviation \<Longrightarrow> pred_option json_ok rules \<Longrightarrow> concord_call True (updateServerSettings serverId name visibility abbreviation media rules)"
| "concord_call True (getServerRules serverId)"
| "concord_call True (deleteServerIcon serverId)"
| "concord_call True (updateChannelCreationSetting serverId allow)"
| "concord_call True (listMembers serverId)"
| "concord_call True (updateMemberRole serverId userId role)"
| "concord_call True (updateDisplayName serverId userId displayName)"
| kick: "concord_call True (kickMember serverId userId)"
| "concord_call True (listBans serverId)"
| "concord_call True (banUser serverId userId)"
| "concord_call True (unbanUser serverId userId)"
| "concord_call True (listWhitelist serverId)"
| "concord_call True (addToWhitelist serverId userId)"
| "concord_call True (removeFromWhitelist serverId userId)"
| "concord_call True (listWebhooks serverId)"
| "concord_call True (createWebhook serverId channelId name)"
| "concord_call True (deleteWebhook serverId webhookId)"
| "concord_call True (toggleWebhook serverId webhookId)"
| "concord_call False (getWebhookInfo webhookId)"
| "concord_call False (submitWebhookMessage webhookId content username)"
| "concord_call False checkEmailAvailable"
| "concord_call True (sendEmailInvite serverId email)"
| "concord_call True (redeemInvite token)"
| "concord_call True (listServerInvites serverId)"
| "concord_call True (changePassword currentPassword newPassword)"
| "concord_call True (setRecoveryEmail recoveryEmail)"
| "concord_call True getRecoveryEmailStatus"
| "json_ok (JObj systemInfo) \<Longrightarrow> concord_call True (submitBugReport title description systemInfo)"
| "concord_call True (searchUsers q)"
| "concord_call True (sendDirectInvite serverId inviteeId)"
| "concord_call True getPendingDirectInvites"
| "concord_call True (respondToDirectInvite inviteId accept)"
| "concord_call True (startVoiceSession channelId serverId)"
| "concord_call True (endVoiceSession sessionId)"
| "concord_call True (incrementMessageCount channelId serverId)"
| "concord_call True (getMyStats days)"
| "concord_call True getTOTPStatus"
| "concord_call True setupTOTP"
| "concord_call True (verifyTOTP code)"
| "concord_call True (disableTOTP code)"
| "concord_call True (loginVerifyTOTP code)"
| "concord_call True getUsersWithTOTP"
| "concord_call True (lockChannel channelId pin)"
| "concord_call True (unlockChannel channelId pin)"
| "concord_call True (verifyChannelPin channelId pin)"
| "concord_call True (getChannelLockStatus channelId)"
| "concord_call True (startVoteKick serverId channelId targetUserId totalEligible)"
| "concord_call True (castVoteKick voteId vote)"
| "concord_call True (getActiveVoteKicks serverId)"
| "concord_call True (executeVoteKick voteId)"
| "concord_call True (getBanSettings serverId)"
| "concord_call True (updateBanSettings serverId limit window mode)"
| "concord_call True (getMyKickCount serverId)"
| "concord_call True (updateMemberPermissions serverId userId canKick canBan)"
| "concord_call False getInstanceInfo"
| "concord_call True (updateInstanceSettings name requireTotp openRegistration)"
| "pred_option json_ok logo \<Longrightarrow> concord_call True (setInstanceBranding primary accent logo)"
| "concord_call True adminListInvites"
| "concord_call True (adminCreateInvite serverId maxUses hours permanent)"
| "concord_call True (adminRevokeInvite inviteId)"
| "concord_call True adminGetExtensionCatalog"
| "concord_call True (adminInstallExtension extensionId)"
| "concord_call True (adminUninstallExtension extensionId)"
| "concord_call True checkAdmin"
| "concord_call True getAdminStats"
| "concord_call True getAdminServers"
| "concord_call True getAdminUsers"
| "concord_call True getAdminReports"
| "concord_call True (updateAdminReport reportId status notes)"
| "concord_call True listDMs"
| "concord_call True (createDM targetUserId)"
| "concord_call True (getRoomDiagnostics roomId)"
| "concord_call True getFederationStatus"
| "concord_call True (updateFederationAllowlist allowed)"
| "concord_call True applyFederationChanges"
| "concord_call True getServiceNodeConfig"
| "pred_option json_ok domain \<Longrightarrow> concord_call True (updateServiceNodeConfig cpu bandwidth storage anchor role domain transports)"
| "concord_call True listExploreServers"
| "concord_call True getAdminBans"
| "concord_call True (adminBanUser userId reason)"
| "concord_call True (adminUnbanUser userId)"
| "concord_call False createGuestSession"

lemmas endpoint_defs =
  listExtensions_def listServers_def createServerCall_def startServerExtensionCall_def createChannelCall_def
  updateAppChannelAccess_def createInvite_def getAuthCode_def listInvites_def validateInvite_def revokeInvite_def
  updateInvite_def deleteServerCall_def deleteChannelCall_def renameChannelCall_def reorderChannelsCall_def
  leaveServerCall_def registerUser_def getVoiceParticipants_def listSoundboardLibrary_def listSoundboardClips_def
  updateSoundboardClip_def deleteSoundboardClip_def searchSoundLibrary_def importLibrarySound_def discoverServers_def
  getDefaultServer_def joinServer_def rejoinServerRooms_def getServerSettings_def updateServerSettings_def
  getServerRules_def deleteServerIcon_def updateChannelCreationSetting_def listMembers_def updateMemberRole_def
  updateDisplayName_def kickMember_def listBans_def banUser_def unbanUser_def listWhitelist_def addToWhitelist_def
  removeFromWhitelist_def listWebhooks_def createWebhook_def deleteWebhook_def toggleWebhook_def getWebhookInfo_def
  submitWebhookMessage_def checkEmailAvailable_def sendEmailInvite_def redeemInvite_def listServerInvites_def
  changePassword_def setRecoveryEmail_def getRecoveryEmailStatus_def submitBugReport_def searchUsers_def
  sendDirectInvite_def getPendingDirectInvites_def respondToDirectInvite_def startVoiceSession_def endVoiceSession_def
  incrementMessageCount_def getMyStats_def getTOTPStatus_def setupTOTP_def verifyTOTP_def disableTOTP_def
  loginVerifyTOTP_def getUsersWithTOTP_def lockChannel_def unlockChannel_def verifyChannelPin_def getChannelLockStatus_def
  startVoteKick_def castVoteKick_def getActiveVoteKicks_def executeVoteKick_def getBanSettings_def updateBanSettings_def
  getMyKickCount_def updateMemberPermissions_def getInstanceInfo_def updateInstanceSettings_def setInstanceBranding_def
  adminListInvites_def adminCreateInvite_def adminRevokeInvite_def adminGetExtensionCatalog_def adminInstallExtension_def
  adminUninstallExtension_def checkAdmin_def getAdminStats_def getAdminServers_def getAdminUsers_def getAdminReports_def
  updateAdminReport_def listDMs_def createDM_def getRoomDiagnostics_def getFederationStatus_def
  updateFederationAllowlist_def applyFederationChanges_def getServiceNodeConfig_def updateServiceNodeConfig_def
  listExploreServers_def getAdminBans_def adminBanUser_def adminUnbanUser_def createGuestSession_def

section \<open>What a call looks like on the wire\<close>

text \<open>A body that is sent is a JSON object the server can read.\<close>
definition body_ok :: "ApiCall \<Rightarrow> bool" where
  "body_ok c = (case ac_body c of None \<Rightarrow> True
     | Some b \<Rightarrow> ac_method c \<notin> {''GET'', ''DELETE''} \<and> (\<exists>kvs. json_parse b = Some (JObj kvs)))"

definition path_ok :: "ApiCall \<Rightarrow> bool" where
  "path_ok c = (take 1 (ac_path c) = ''/'')"

lemma present_Nil [simp]: "present [] = []"
  by (simp add: present_def map_filter_def)

lemma present_Cons [simp]: "present ((k, v) # kvs) = (case v of None \<Rightarrow> present kvs | Some x \<Rightarrow> (k, x) # present kvs)"
  by (cases v) (simp_all add: present_def map_filter_def)

lemma present_set: "(k, x) \<in> set (present kvs) \<Longrightarrow> (k, Some x) \<in> set kvs"
  by (induction kvs) (auto split: option.splits)

lemma present_ok: "distinct (map fst kvs) \<Longrightarrow> list_all (\<lambda>kv. pred_option json_ok (snd kv)) kvs \<Longrightarrow> json_ok (JObj (present kvs))"
proof (induction kvs)
  case (Cons kv kvs)
  obtain k v where kv: "kv = (k, v)" by (cases kv)
  have "k \<notin> fst ` set (present kvs)" using Cons.prems(1) kv by (force dest: present_set)
  then show ?case using Cons kv by (cases v) simp_all
qed simp

lemma sending_body: "m \<notin> {''GET'', ''DELETE''} \<Longrightarrow> distinct (map fst kvs) \<Longrightarrow> list_all (\<lambda>kv. pred_option json_ok (snd kv)) kvs
  \<Longrightarrow> body_ok (sending m path kvs)"
  using parse_stringify[OF present_ok] by (auto simp: body_ok_def sending_def)

lemma empty_object_parses: "json_parse ''{}'' = Some (JObj [])"
  using parse_stringify[of "JObj []"] by simp

lemma bodyless_ok [simp]: "body_ok (fetching path)" "body_ok (bare m path)" "body_ok (posting path)"
  by (simp_all add: body_ok_def fetching_def bare_def posting_def empty_object_parses)

lemma paths_ok [simp]:
  "path_ok (fetching path) = (take 1 path = ''/'')" "path_ok (bare m path) = (take 1 path = ''/'')"
  "path_ok (sending m path kvs) = (take 1 path = ''/'')" "path_ok (posting path) = (take 1 path = ''/'')"
  by (simp_all add: path_ok_def fetching_def bare_def sending_def posting_def)

lemma concord_call_ok: "concord_call auth c \<Longrightarrow> body_ok c \<and> path_ok c"
  by (induction rule: concord_call.induct)
    (auto simp: endpoint_defs pred_option_def jstr_def jbool_def jnum_def or_null_def split: if_splits option.splits intro!: sending_body)

section \<open>Where a call arrives\<close>

text \<open>A request for a path: of its target nothing is taken for a query or a fragment, no segment for a step in the hierarchy, and
  percent-decoded it is that path. The parameters of its query.\<close>
definition arrives_at :: "ApiCall \<Rightarrow> str \<Rightarrow> bool" where
  "arrives_at c p = (list_all (\<lambda>x. x \<noteq> CHR ''?'' \<and> x \<noteq> CHR ''#'') (ac_path c)
     \<and> list_all (\<lambda>s. s \<notin> {''.'', ''..''}) (split_on CHR ''/'' (ac_path c)) \<and> decodeURIComponent (ac_path c) = Some p)"

definition query_params :: "ApiCall \<Rightarrow> (str \<times> str option) list" where
  "query_params c = map (\<lambda>p. (takeWhile (\<lambda>x. x \<noteq> CHR ''='') p, decodeURIComponent (drop 1 (dropWhile (\<lambda>x. x \<noteq> CHR ''='') p))))
     (split_on CHR ''&'' (drop 1 (dropWhile (\<lambda>x. x \<noteq> CHR ''?'') (ac_path c))))"

text \<open>A segment that stands for itself in a path, as the ids the server gives out do, and a name of no step in the hierarchy.\<close>
definition no_step :: "str \<Rightarrow> bool" where
  "no_step s = (s \<notin> {''.'', ''..''})"

definition plain_id :: "str \<Rightarrow> bool" where
  "plain_id s = (list_all (\<lambda>c. c \<notin> {CHR ''/'', CHR ''?'', CHR ''#'', CHR ''%''}) s \<and> no_step s)"

lemma decode_plain: "CHR ''%'' \<notin> set s \<Longrightarrow> decodeURIComponent s = Some s"
proof -
  assume "CHR ''%'' \<notin> set s"
  then have "percent_bytes s = Some (utf8_encode s)" by (induction s) (auto simp: utf8_encode_def)
  then show ?thesis by (simp add: decodeURIComponent_def)
qed

text \<open>What a piece of a target reads as.\<close>
definition reads :: "str \<Rightarrow> str \<Rightarrow> bool" where
  "reads s t = (list_all (\<lambda>x. x \<noteq> CHR ''?'' \<and> x \<noteq> CHR ''#'') s
     \<and> (\<forall>r. percent_bytes (s @ r) = map_option (\<lambda>bs. utf8_encode t @ bs) (percent_bytes r)))"

lemma reads_literal: "list_all (\<lambda>c. c \<notin> {CHR ''?'', CHR ''#'', CHR ''%''}) s \<Longrightarrow> reads s s"
  by (induction s) (auto simp: reads_def utf8_encode_def option.map_comp comp_def option.map_ident)

lemma reads_plain: "plain_id s \<Longrightarrow> reads s s"
  by (rule reads_literal) (auto simp: plain_id_def list_all_iff)

lemma reads_encoded: "reads (encodeURIComponent s) s"
proof -
  have "percent_bytes (encodeURIComponent s @ r) = map_option (\<lambda>bs. utf8_encode s @ bs) (percent_bytes r)" for r
    by (induction s) (simp_all add: encodeURIComponent_def encode_char_read utf8_encode_def option.map_comp comp_def option.map_ident)
  then show ?thesis using encoded_free[of s] by (auto simp: reads_def list_all_iff)
qed

lemma reads_append: "reads s t \<Longrightarrow> reads s' t' \<Longrightarrow> reads (s @ s') (t @ t')"
  by (simp add: reads_def utf8_encode_def option.map_comp comp_def)

lemma reads_decoded: "reads s t \<Longrightarrow> decodeURIComponent s = Some t"
proof -
  assume "reads s t"
  then have "percent_bytes (s @ []) = Some (utf8_encode t @ [])" unfolding reads_def by (metis option.simps(9) percent_bytes.simps(1))
  then show ?thesis by (simp add: decodeURIComponent_def)
qed

text \<open>A path from its segments, each with what it reads as.\<close>
definition path_of :: "str list \<Rightarrow> str" where
  "path_of segs = CHR ''/'' # join_with ''/'' segs"

lemma reads_path:
  assumes "list_all2 reads segs txts" and "segs \<noteq> []"
  shows "reads (path_of segs) (path_of txts)"
proof -
  have slash: "reads ''/'' ''/''" by (rule reads_literal) simp
  have "list_all2 reads segs txts \<Longrightarrow> segs \<noteq> [] \<Longrightarrow> reads (join_with ''/'' segs) (join_with ''/'' txts)"
  proof (induction segs txts rule: list_all2_induct)
    case (Cons x xs y ys)
    show ?case
    proof (cases "xs = []")
      case True
      then show ?thesis using Cons by simp
    next
      case False
      then have "ys \<noteq> []" using Cons(2) by auto
      then show ?thesis using reads_append[OF Cons(1) reads_append[OF slash Cons(3)[OF False]]] False by (simp add: join_with_cons)
    qed
  qed simp
  then show ?thesis using reads_append[OF slash] assms by (simp add: path_of_def)
qed

lemma encoded_step: "no_step u \<Longrightarrow> no_step (encodeURIComponent u)"
proof -
  have "decodeURIComponent ''.'' = Some ''.''" "decodeURIComponent ''..'' = Some ''..''" by code_simp+
  then show "no_step u \<Longrightarrow> no_step (encodeURIComponent u)" using decode_encode[of u] by (auto simp: no_step_def simp del: decode_encode)
qed

text \<open>The segments that calls about members are made of.\<close>
definition segment :: "str \<Rightarrow> str \<Rightarrow> bool" where
  "segment s t = (reads s t \<and> CHR ''/'' \<notin> set s \<and> no_step s)"

lemma segment_plain: "plain_id s \<Longrightarrow> segment s s"
  using reads_plain by (auto simp: segment_def plain_id_def list_all_iff)

lemma segment_encoded: "no_step s \<Longrightarrow> segment (encodeURIComponent s) s"
  using reads_encoded encoded_free(1) encoded_step by (simp add: segment_def)

lemma segments_arrive:
  assumes "ac_path c = path_of segs" and "list_all2 segment segs txts" and "segs \<noteq> []"
  shows "arrives_at c (path_of txts)"
proof -
  have r: "reads (path_of segs) (path_of txts)"
    by (rule reads_path[OF _ assms(3)]) (use assms(2) in \<open>auto simp: segment_def elim!: list_all2_mono\<close>)
  have f: "list_all (\<lambda>s. CHR ''/'' \<notin> set s) segs" "list_all no_step segs"
    using assms(2) by (induction segs txts rule: list_all2_induct) (auto simp: segment_def)
  have "split_on CHR ''/'' (path_of segs) = [] # segs" using assms(3) f(1) by (simp add: path_of_def split_join list_all_iff)
  then show ?thesis using r f(2) reads_decoded[OF r] assms(1) by (auto simp: arrives_at_def reads_def list_all_iff no_step_def)
qed

lemma int_text_chars: "x \<in> set (int_text n) \<Longrightarrow> is_digit x \<or> x = CHR ''-''"
  using nat_text_digits[of x "nat n"] nat_text_digits[of x "nat (- n)"] by (auto simp: int_text_def split: if_splits)

lemma int_text_free: "CHR ''&'' \<notin> set (int_text n)" "CHR ''='' \<notin> set (int_text n)" "CHR ''%'' \<notin> set (int_text n)"
  by (auto dest!: int_text_chars simp: is_digit_def char_code_def)

text \<open>Requests are well formed: whatever the module calls, the request goes below the API base, carries the token as a
  bearer header exactly when there is one, has no body when it reads or deletes, and a body otherwise is a JSON object.\<close>
theorem calls_well_formed:
  assumes "concord_call auth c"
  shows "(\<exists>p. hr_url (api_request urls c token) = getApiBase urls @ CHR ''/'' # p)
    \<and> map_of (hr_headers (api_request urls c token)) ''Authorization''
        = (case token of None \<Rightarrow> None | Some t \<Rightarrow> if t = [] then None else Some (''Bearer '' @ t))
    \<and> (hr_method (api_request urls c token) \<in> {''GET'', ''DELETE''} \<longrightarrow> hr_body (api_request urls c token) = None)
    \<and> (case hr_body (api_request urls c token) of None \<Rightarrow> True | Some b \<Rightarrow> \<exists>kvs. json_parse b = Some (JObj kvs))"
proof -
  have b: "body_ok c" and p: "path_ok c" using concord_call_ok[OF assms] by auto
  obtain q where "ac_path c = CHR ''/'' # q" using p by (cases "ac_path c") (auto simp: path_ok_def)
  then show ?thesis using b by (auto simp: api_request_def body_ok_def split: option.splits)
qed

lemma member_paths:
  "ac_path (kickMember sid u) = path_of [''servers'', sid, ''members'', encodeURIComponent u]"
  "ac_path (updateMemberRole sid u r) = path_of [''servers'', sid, ''members'', encodeURIComponent u, ''role'']"
  "ac_path (updateDisplayName sid u d) = path_of [''servers'', sid, ''members'', encodeURIComponent u, ''display-name'']"
  "ac_path (updateMemberPermissions sid u k b) = path_of [''servers'', sid, ''members'', encodeURIComponent u, ''permissions'']"
  "ac_path (unbanUser sid u) = path_of [''servers'', sid, ''bans'', encodeURIComponent u]"
  "ac_path (removeFromWhitelist sid u) = path_of [''servers'', sid, ''whitelist'', encodeURIComponent u]"
  "ac_path (startServerExtensionCall sid e) = path_of [''servers'', sid, ''extensions'', encodeURIComponent e, ''start'']"
  "ac_path (adminUnbanUser u) = path_of [''admin'', ''bans'', encodeURIComponent u]"
  "ac_path (adminUninstallExtension e) = path_of [''admin'', ''extensions'', encodeURIComponent e]"
  "ac_path (getRoomDiagnostics m) = path_of [''rooms'', encodeURIComponent m, ''diagnostics'']"
  by (simp_all add: path_of_def kickMember_def updateMemberRole_def updateDisplayName_def updateMemberPermissions_def unbanUser_def
    removeFromWhitelist_def startServerExtensionCall_def adminUnbanUser_def adminUninstallExtension_def getRoomDiagnostics_def
    fetching_def bare_def sending_def posting_def)

text \<open>C32. Calls about a member ask for that member: on a server with a plain id, whatever characters the id of the user has, dots alone
  excepted, the target of the request is all path, stays where it is in the hierarchy, and percent-decoded it is the path with that
  id. So are those of extensions and rooms.\<close>
theorem member_calls_arrive:
  assumes "plain_id sid" and "no_step u" and "no_step e" and "no_step m"
  shows "arrives_at (kickMember sid u) (''/servers/'' @ sid @ ''/members/'' @ u)
    \<and> arrives_at (updateMemberRole sid u r) (''/servers/'' @ sid @ ''/members/'' @ u @ ''/role'')
    \<and> arrives_at (updateDisplayName sid u d) (''/servers/'' @ sid @ ''/members/'' @ u @ ''/display-name'')
    \<and> arrives_at (updateMemberPermissions sid u k b) (''/servers/'' @ sid @ ''/members/'' @ u @ ''/permissions'')
    \<and> arrives_at (unbanUser sid u) (''/servers/'' @ sid @ ''/bans/'' @ u)
    \<and> arrives_at (removeFromWhitelist sid u) (''/servers/'' @ sid @ ''/whitelist/'' @ u)
    \<and> arrives_at (startServerExtensionCall sid e) (''/servers/'' @ sid @ ''/extensions/'' @ e @ ''/start'')
    \<and> arrives_at (adminUnbanUser u) (''/admin/bans/'' @ u)
    \<and> arrives_at (adminUninstallExtension e) (''/admin/extensions/'' @ e)
    \<and> arrives_at (getRoomDiagnostics m) (''/rooms/'' @ m @ ''/diagnostics'')"
proof -
  have lit: "plain_id ''servers''" "plain_id ''members''" "plain_id ''role''" "plain_id ''display-name''" "plain_id ''permissions''"
    "plain_id ''bans''" "plain_id ''whitelist''" "plain_id ''extensions''" "plain_id ''start''" "plain_id ''admin''"
    "plain_id ''rooms''" "plain_id ''diagnostics''"
    by (simp_all add: plain_id_def no_step_def)
  note seg = lit[THEN segment_plain] segment_plain[OF assms(1)] segment_encoded[OF assms(2)] segment_encoded[OF assms(3)] segment_encoded[OF assms(4)]
  have a1: "arrives_at (kickMember sid u) (path_of [''servers'', sid, ''members'', u])"
    by (rule segments_arrive[OF member_paths(1)]) (simp_all add: seg)
  have a2: "arrives_at (updateMemberRole sid u r) (path_of [''servers'', sid, ''members'', u, ''role''])"
    by (rule segments_arrive[OF member_paths(2)]) (simp_all add: seg)
  have a3: "arrives_at (updateDisplayName sid u d) (path_of [''servers'', sid, ''members'', u, ''display-name''])"
    by (rule segments_arrive[OF member_paths(3)]) (simp_all add: seg)
  have a4: "arrives_at (updateMemberPermissions sid u k b) (path_of [''servers'', sid, ''members'', u, ''permissions''])"
    by (rule segments_arrive[OF member_paths(4)]) (simp_all add: seg)
  have a5: "arrives_at (unbanUser sid u) (path_of [''servers'', sid, ''bans'', u])"
    by (rule segments_arrive[OF member_paths(5)]) (simp_all add: seg)
  have a6: "arrives_at (removeFromWhitelist sid u) (path_of [''servers'', sid, ''whitelist'', u])"
    by (rule segments_arrive[OF member_paths(6)]) (simp_all add: seg)
  have a7: "arrives_at (startServerExtensionCall sid e) (path_of [''servers'', sid, ''extensions'', e, ''start''])"
    by (rule segments_arrive[OF member_paths(7)]) (simp_all add: seg)
  have a8: "arrives_at (adminUnbanUser u) (path_of [''admin'', ''bans'', u])"
    by (rule segments_arrive[OF member_paths(8)]) (simp_all add: seg)
  have a9: "arrives_at (adminUninstallExtension e) (path_of [''admin'', ''extensions'', e])"
    by (rule segments_arrive[OF member_paths(9)]) (simp_all add: seg)
  have a10: "arrives_at (getRoomDiagnostics m) (path_of [''rooms'', m, ''diagnostics''])"
    by (rule segments_arrive[OF member_paths(10)]) (simp_all add: seg)
  from a1 a2 a3 a4 a5 a6 a7 a8 a9 a10 show ?thesis by (simp add: path_of_def)
qed

text \<open>The path is decoded before it is matched: an id with a slash makes further segments of it, and no route for a member has them.\<close>
lemma slash_in_user_id: "plain_id sid \<Longrightarrow> arrives_at (kickMember sid ''@a/role'') (''/servers/'' @ sid @ ''/members/@a/role'')"
proof -
  assume p: "plain_id sid"
  have "segment ''servers'' ''servers''" "segment ''members'' ''members''" by (auto intro!: segment_plain simp: plain_id_def no_step_def)
  then show ?thesis
    using segments_arrive[OF member_paths(1)[of sid "''@a/role''"], of "[''servers'', sid, ''members'', ''@a/role'']"]
      segment_plain[OF p] segment_encoded[of "''@a/role''"] by (simp add: path_of_def no_step_def)
qed

text \<open>What is searched for arrives: the server reads the text back out of the query, whatever characters it has.\<close>
theorem searched_text_arrives:
  assumes "q \<noteq> []"
  shows "query_params (searchUsers q) = [(''q'', Some q)]
    \<and> query_params (discoverServers q) = [(''q'', Some q)]
    \<and> query_params (listSoundboardLibrary (Some q)) = [(''q'', Some q)]
    \<and> query_params (searchSoundLibrary q page ''relevance'') = [(''q'', Some q), (''page'', Some (int_text page)), (''sort'', Some ''relevance'')]"
  using assms encoded_free int_text_free
  by (simp add: query_params_def endpoint_defs fetching_def split_free split_free_append decode_plain)

text \<open>An invite token is put into the path as it was typed or linked: a question mark in it ends the path.\<close>
lemma token_ends_path: "takeWhile (\<lambda>x. x \<noteq> CHR ''?'') (ac_path (redeemInvite (a @ CHR ''?'' # b))) = ''/invites/'' @ takeWhile (\<lambda>x. x \<noteq> CHR ''?'') a"
proof -
  have "takeWhile (\<lambda>x. x \<noteq> CHR ''?'') (a @ CHR ''?'' # c) = takeWhile (\<lambda>x. x \<noteq> CHR ''?'') a" for c by (induction a) auto
  then show ?thesis by (simp add: redeemInvite_def bare_def)
qed

section \<open>Errors\<close>

lemma join_contains: "x \<in> set xs \<Longrightarrow> sublist x (join_with sep xs)"
proof (induction xs)
  case (Cons y xs)
  show ?case
  proof (cases "xs = []")
    case False
    then have j: "join_with sep (y # xs) = y @ sep @ join_with sep xs" by (simp add: join_with_cons)
    show ?thesis
    proof (cases "x = y")
      case False
      then have "sublist x (join_with sep xs)" using Cons by simp
      then have "sublist x ((y @ sep) @ join_with sep xs)" by (rule sublist_order.order.trans) (rule sublist_append_leftI)
      then show ?thesis unfolding j by simp
    qed (simp add: j)
  qed (use Cons in simp)
qed simp

text \<open>An entry of a list of validation errors as the server writes it.\<close>
definition well_shaped :: "json \<Rightarrow> bool" where
  "well_shaped e = (e \<noteq> JNull \<and> (case jget e ''loc'' of None \<Rightarrow> True | Some l \<Rightarrow> (case l of JArr xs \<Rightarrow> True | _ \<Rightarrow> False)))"

lemma well_shaped_entry: "well_shaped e \<Longrightarrow> validation_entry e \<noteq> None"
  by (cases "jget e ''loc''"; cases "the (jget e ''loc'')") (auto simp: well_shaped_def validation_entry_def)

lemma validation_entry_shown:
  assumes "well_shaped e" "jget e ''msg'' = Some (JStr m)" "m \<noteq> []"
  shows "\<exists>t. validation_entry e = Some t \<and> sublist m t"
proof (cases "jget e ''loc''")
  case None
  then show ?thesis using assms by (simp add: validation_entry_def well_shaped_def key_of_def)
next
  case (Some l)
  then obtain xs where "l = JArr xs" using assms(1) by (auto simp: well_shaped_def split: json.splits)
  moreover have "sublist m (x @ '': '' @ m)" for x using sublist_append_leftI[of m "x @ '': ''"] by simp
  ultimately show ?thesis using assms Some by (auto simp: validation_entry_def well_shaped_def key_of_def)
qed

lemma those_map: "list_all (\<lambda>x. f x \<noteq> None) xs \<Longrightarrow> those (map f xs) = Some (map (the \<circ> f) xs)"
  by (induction xs) auto

text \<open>Validation errors reach the user: when the server rejects a request with a list of validation errors, the call
  throws, and the text has the message of every entry.\<close>
theorem validation_messages_shown:
  assumes "fetch (api_request urls c token) = Inr a" and "\<not> resp_ok a" and "ha_json a = Some err"
    and "jget err ''detail'' = Some (JArr es)" and "list_all well_shaped es"
  shows "\<exists>t. apiFetch fetch urls c token = Inl (ApiError t)
    \<and> (\<forall>e m. e \<in> set es \<and> jget e ''msg'' = Some (JStr m) \<longrightarrow> sublist m t)"
proof -
  have "validation_entry e \<noteq> None" if "e \<in> set es" for e using assms(5) that
    by (intro well_shaped_entry) (simp add: list_all_iff)
  then have t: "those (map validation_entry es) = Some (map (the \<circ> validation_entry) es)"
    by (intro those_map) (auto simp: list_all_iff)
  have "err \<noteq> JNull" using assms(4) by auto
  then have f: "apiFetch fetch urls c token = Inl (ApiError (join_with ''; '' (map (the \<circ> validation_entry) es)))"
    using assms(1-4) t by (simp add: apiFetch_def api_answer_def error_message_def)
  have "sublist m (join_with ''; '' (map (the \<circ> validation_entry) es))"
    if em: "e \<in> set es" "jget e ''msg'' = Some (JStr m)" for e m
  proof (cases "m = []")
    case False
    then obtain u where u: "validation_entry e = Some u" "sublist m u"
      using validation_entry_shown[of e m] em assms(5) by (auto simp: list_all_iff)
    then have "sublist u (join_with ''; '' (map (the \<circ> validation_entry) es))" using em(1) by (intro join_contains) force
    then show ?thesis using u(2) sublist_order.order.trans by blast
  qed simp
  then show ?thesis using f by blast
qed

text \<open>Structured errors are lost: the API answers an error of its own with a code and a message
  (\<open>error_code\<close>, \<open>message\<close>, \<open>details\<close>), and whatever the message is, the call throws \<open>API error\<close>.\<close>
theorem structured_error_lost:
  "resp_ok a = False \<Longrightarrow> ha_json a = Some (JObj [(''error_code'', JStr code), (''message'', JStr msg), (''details'', details)])
    \<Longrightarrow> api_answer a = Inl (ApiError ''API error'')"
  by (simp add: api_answer_def error_message_def)

text \<open>Uploading a sound turns a list of validation errors into text by JavaScript's rule, which is of no use to the user.\<close>
lemma clip_validation_unreadable:
  "\<not> resp_ok a \<Longrightarrow> ha_json a = Some (JObj [(''detail'', JArr [JObj kvs])]) \<Longrightarrow> clip_answer a = Inl (ApiError ''[object Object]'')"
  by (simp add: clip_answer_def key_of_def)

section \<open>At concrete inputs\<close>

theorem calls_well_formed_witness:
  "map_of (hr_headers (api_request \<lparr>su_api_base = None, su_serverUrl = []\<rparr> (kickMember ''s1'' ''@a:x'') (Some ''t''))) ''Authorization'' = Some ''Bearer t''"
  using calls_well_formed[OF concord_call.kick[of "''s1''" "''@a:x''"], of "\<lparr>su_api_base = None, su_serverUrl = []\<rparr>" "Some ''t''"] by simp

theorem member_calls_arrive_witness: "arrives_at (kickMember ''s1'' ''@a?b#%2F:x'') ''/servers/s1/members/@a?b#%2F:x''"
  using member_calls_arrive[of "''s1''" "''@a?b#%2F:x''" "[]" "[]"] by (simp add: plain_id_def no_step_def)

theorem searched_text_arrives_witness: "query_params (searchUsers ''a&q=b'') = [(''q'', Some ''a&q=b'')]"
  using searched_text_arrives[of "''a&q=b''"] by simp

definition rejected :: HttpAnswer where
  "rejected = \<lparr>ha_status = 422, ha_statusText = [], ha_contentLength = None,
     ha_json = Some (JObj [(''detail'', JArr [JObj [(''loc'', JArr [JStr ''body'', JStr ''name'']), (''msg'', JStr ''too long'')]])])\<rparr>"

theorem validation_messages_shown_witness:
  "\<exists>t. apiFetch (\<lambda>r. Inr rejected) \<lparr>su_api_base = None, su_serverUrl = []\<rparr> listServers None = Inl (ApiError t) \<and> sublist ''too long'' t"
  using validation_messages_shown[of "\<lambda>r. Inr rejected" "\<lparr>su_api_base = None, su_serverUrl = []\<rparr>" listServers None rejected]
  by (fastforce simp: rejected_def resp_ok_def well_shaped_def)

theorem structured_error_lost_witness:
  "api_answer \<lparr>ha_status = 400, ha_statusText = [], ha_contentLength = None,
     ha_json = Some (JObj [(''error_code'', JStr ''INVITE_EXHAUSTED''), (''message'', JStr ''used up''), (''details'', JNull)])\<rparr>
   = Inl (ApiError ''API error'')"
  by (rule structured_error_lost) (simp_all add: resp_ok_def)

end
