(* ===== verification/Devices.thy ===== *)
theory Devices
  imports Prelude Complex_Main
begin

text \<open>
  The device the client runs on: the flags of \<open>hooks/usePlatform.ts\<close>, the remote-control navigation of
  \<open>hooks/useDpadNav.ts\<close>, and the avatars and presence of \<open>hooks/usePresence.ts\<close> with their cache. What the
  browser reports (user agent, media queries, boxes of elements, users the SDK knows) is an argument.
\<close>

section \<open>Platform flags\<close>

record PlatformFlags =
  isTauri :: bool
  isMobile :: bool
  isIOS :: bool
  isAndroid :: bool
  isIPad :: bool
  isTV :: bool
  isAndroidTV :: bool
  isAppleTV :: bool
  hasPointer :: bool
  hasTouchOnly :: bool

definition DEFAULT_FLAGS :: PlatformFlags where
  "DEFAULT_FLAGS = \<lparr>isTauri = False, isMobile = False, isIOS = False, isAndroid = False, isIPad = False, isTV = False,
     isAndroidTV = False, isAppleTV = False, hasPointer = True, hasTouchOnly = False\<rparr>"

text \<open>The answers of the three media queries with the size of the window; None when matchMedia is missing or throws.\<close>
record MediaAnswers =
  ma_fine :: bool
  ma_coarse :: bool
  ma_none :: bool
  ma_width :: int
  ma_height :: int

record Browser =
  br_userAgent :: str
  br_platform :: str
  br_touchPoints :: int
  br_tauri :: bool
  br_media :: "MediaAnswers option"

definition ua_word_char :: "char \<Rightarrow> bool" where
  "ua_word_char c = (is_alpha c \<or> is_digit c \<or> c = CHR ''_'')"

text \<open>\<open>/\bw\b/\<close> somewhere in \<open>s\<close>; the flag says whether the character before is a word character.\<close>
fun word_in :: "bool \<Rightarrow> str \<Rightarrow> str \<Rightarrow> bool" where
  "word_in before w [] = False"
| "word_in before w (c # s) =
    (\<not> before \<and> starts_with w (c # s) \<and> (case drop (length w) (c # s) of [] \<Rightarrow> True | d # _ \<Rightarrow> \<not> ua_word_char d)
     \<or> word_in (ua_word_char c) w s)"

definition tv_signals :: "str list" where
  "tv_signals = [''tv'', ''bravia'', ''smarttv'', ''smart-tv'', ''appletv'', ''tizen'', ''webos'', ''hbbtv'', ''googletv'', ''android tv'']"

text \<open>\<open>detectPlatform\<close>; None is a context without a window.\<close>
definition detectFlags :: "Browser option \<Rightarrow> PlatformFlags" where
  "detectFlags browser = (case browser of None \<Rightarrow> DEFAULT_FLAGS | Some b \<Rightarrow>
    let ua = br_userAgent b; low = to_lower ua;
        iosOld = includes_sub ''iPad'' ua \<or> includes_sub ''iPhone'' ua \<or> includes_sub ''iPod'' ua;
        ipadDesktop = includes_sub ''Macintosh'' ua \<and> br_touchPoints b > 1;
        ios = iosOld \<or> ipadDesktop \<or> br_platform b = ''iOS'';
        ipad = includes_sub ''iPad'' ua \<or> ipadDesktop;
        android = includes_sub ''android'' low;
        tvUA = list_ex (\<lambda>w. word_in False w low) tv_signals;
        pointer = (case br_media b of None \<Rightarrow> True | Some m \<Rightarrow> ma_fine m);
        touchOnly = (case br_media b of None \<Rightarrow> False | Some m \<Rightarrow> ma_coarse m \<and> \<not> ma_fine m);
        noPointer = (case br_media b of None \<Rightarrow> False | Some m \<Rightarrow> ma_none m);
        bigScreen = (case br_media b of None \<Rightarrow> False | Some m \<Rightarrow> ma_width m \<ge> 1920 \<or> ma_height m \<ge> 1080);
        tv = tvUA \<or> (noPointer \<and> bigScreen)
    in \<lparr>isTauri = br_tauri b, isMobile = (\<not> tv \<and> (ios \<or> android \<or> (touchOnly \<and> \<not> pointer))), isIOS = ios, isAndroid = android,
        isIPad = ipad, isTV = tv, isAndroidTV = (android \<and> tv), isAppleTV = (includes_sub ''appletv'' low \<or> includes_sub ''tvos'' low),
        hasPointer = pointer, hasTouchOnly = touchOnly\<rparr>)"

section \<open>Navigation by arrow keys\<close>

datatype Dir = DirUp | DirDown | DirLeft | DirRight

text \<open>The box of an element in the window, and what its attributes and style say.\<close>
record Element =
  el_id :: nat
  el_left :: real
  el_top :: real
  el_width :: real
  el_height :: real
  el_focusable :: bool
  el_group :: "str option"
  el_shown :: bool

definition el_right :: "Element \<Rightarrow> real" where "el_right e = el_left e + el_width e"
definition el_bottom :: "Element \<Rightarrow> real" where "el_bottom e = el_top e + el_height e"

text \<open>The elements of the document in order; an empty group is no group.\<close>
definition getFocusables :: "str option \<Rightarrow> Element list \<Rightarrow> Element list" where
  "getFocusables grp doc = filter (\<lambda>e. el_focusable e \<and> (grp = None \<or> grp = Some [] \<or> el_group e = grp) \<and> el_shown e) doc"

definition on_side :: "Dir \<Rightarrow> Element \<Rightarrow> Element \<Rightarrow> bool" where
  "on_side dir cur e = (case dir of
     DirUp \<Rightarrow> el_bottom e \<le> el_top cur + 1
   | DirDown \<Rightarrow> el_top e \<ge> el_bottom cur - 1
   | DirLeft \<Rightarrow> el_right e \<le> el_left cur + 1
   | DirRight \<Rightarrow> el_left e \<ge> el_right cur - 1)"

definition nav_score :: "Dir \<Rightarrow> Element \<Rightarrow> Element \<Rightarrow> real" where
  "nav_score dir cur e =
    (let dx = \<bar>(el_left e + el_width e / 2) - (el_left cur + el_width cur / 2)\<bar>;
         dy = \<bar>(el_top e + el_height e / 2) - (el_top cur + el_height cur / 2)\<bar>
     in if dir = DirUp \<or> dir = DirDown then dy + dx / 2 else dx + dy / 2)"

text \<open>The loop, with the best so far and its score; None is the infinite score.\<close>
fun nearest :: "Dir \<Rightarrow> Element \<Rightarrow> Element list \<Rightarrow> (Element \<times> real) option \<Rightarrow> Element option" where
  "nearest dir cur [] best = map_option fst best"
| "nearest dir cur (e # es) best =
    (if el_id e = el_id cur \<or> \<not> on_side dir cur e then nearest dir cur es best
     else let s = nav_score dir cur e in
       nearest dir cur es (case best of None \<Rightarrow> Some (e, s) | Some (b, t) \<Rightarrow> if s < t then Some (e, s) else best))"

definition findNeighbour :: "Element \<Rightarrow> Dir \<Rightarrow> Element list \<Rightarrow> Element option" where
  "findNeighbour cur dir candidates = nearest dir cur candidates None"

definition arrow_dir :: "str \<Rightarrow> Dir option" where
  "arrow_dir key = map_of [(''ArrowUp'', DirUp), (''ArrowDown'', DirDown), (''ArrowLeft'', DirLeft), (''ArrowRight'', DirRight)] key"

datatype nav_effect = Prevented | WentBack | Selected nat | FocusOn nat

record NavOptions =
  no_group :: "str option"
  no_onSelect :: bool
  no_onBack :: bool

definition in_group :: "str option \<Rightarrow> Element \<Rightarrow> bool" where
  "in_group grp e = (grp = None \<or> grp = Some [] \<or> el_group e = grp)"

definition handleKey :: "NavOptions \<Rightarrow> Element list \<Rightarrow> Element option \<Rightarrow> str \<Rightarrow> nav_effect list" where
  "handleKey opts doc active key =
    (if key = ''Escape'' \<or> key = ''Backspace'' then (if no_onBack opts then [Prevented, WentBack] else [])
     else if key = ''Enter'' \<or> key = '' '' then (case active of None \<Rightarrow> []
       | Some a \<Rightarrow> if el_focusable a \<and> in_group (no_group opts) a
           then Prevented # (if no_onSelect opts then [Selected (el_id a)] else []) else [])
     else case arrow_dir key of None \<Rightarrow> []
     | Some dir \<Rightarrow> Prevented # (case getFocusables (no_group opts) doc of [] \<Rightarrow> []
         | first # others \<Rightarrow> (case active of
             None \<Rightarrow> [FocusOn (el_id first)]
           | Some a \<Rightarrow> if el_focusable a \<and> a \<in> set (first # others)
               then (case findNeighbour a dir (first # others) of None \<Rightarrow> [] | Some e \<Rightarrow> [FocusOn (el_id e)])
               else [FocusOn (el_id first)])))"

text \<open>The effect at mount: \<open>initial\<close> is what the configured selector finds.\<close>
definition initialFocus :: "bool \<Rightarrow> NavOptions \<Rightarrow> bool \<Rightarrow> Element option \<Rightarrow> Element list \<Rightarrow> Element option \<Rightarrow> nav_effect list" where
  "initialFocus enabled opts selector initial doc active =
    (if \<not> enabled then []
     else if (case active of None \<Rightarrow> False | Some a \<Rightarrow> el_focusable a) then []
     else case getFocusables (no_group opts) doc of [] \<Rightarrow> []
     | first # _ \<Rightarrow> (case (if selector then initial else Some first) of None \<Rightarrow> [] | Some e \<Rightarrow> [FocusOn (el_id e)]))"

section \<open>Avatars and presence\<close>

text \<open>The module cache in insertion order.\<close>
type_synonym avatar_cache = "(str \<times> str option) list"

definition AVATAR_CACHE_MAX :: nat where "AVATAR_CACHE_MAX = 200"

definition cache_put :: "str \<Rightarrow> str option \<Rightarrow> avatar_cache \<Rightarrow> avatar_cache" where
  "cache_put k v c = (if k \<in> set (map fst c) then map (\<lambda>kv. if fst kv = k then (k, v) else kv) c else c @ [(k, v)])"

definition avatarCacheSet :: "str \<Rightarrow> str option \<Rightarrow> avatar_cache \<Rightarrow> avatar_cache" where
  "avatarCacheSet k v c = cache_put k v (if length c \<ge> AVATAR_CACHE_MAX \<and> k \<notin> set (map fst c) then drop 1 c else c)"

text \<open>\<open>resolve\<close>: the user's avatar as the SDK has it, the conversion of a content URL. The new cache and what is shown.\<close>
definition resolveAvatar :: "(str \<Rightarrow> str option) \<Rightarrow> str \<Rightarrow> str option \<Rightarrow> avatar_cache \<Rightarrow> avatar_cache \<times> str option" where
  "resolveAvatar thumbnail userId mxc c =
    (case (case mxc of None \<Rightarrow> None | Some m \<Rightarrow> if m = [] then None else Some m) of
       None \<Rightarrow> (avatarCacheSet userId None c, None)
     | Some m \<Rightarrow> (case map_of c userId of
         Some (Some u) \<Rightarrow> if u \<noteq> [] then (c, Some u) else (avatarCacheSet userId (thumbnail m) c, thumbnail m)
       | _ \<Rightarrow> (avatarCacheSet userId (thumbnail m) c, thumbnail m)))"

text \<open>The listener of a mounted view: the entry is dropped first.\<close>
definition avatarChanged :: "(str \<Rightarrow> str option) \<Rightarrow> str \<Rightarrow> str option \<Rightarrow> avatar_cache \<Rightarrow> avatar_cache \<times> str option" where
  "avatarChanged thumbnail userId mxc c = resolveAvatar thumbnail userId mxc (filter (\<lambda>kv. fst kv \<noteq> userId) c)"

datatype PresenceState = PresOnline | PresUnavailable | PresOffline

text \<open>None is a user the SDK does not know.\<close>
definition presence_of :: "str option \<Rightarrow> PresenceState" where
  "presence_of p = (if p = Some ''online'' then PresOnline else if p = Some ''unavailable'' then PresUnavailable else PresOffline)"

definition usePresence :: "(str \<Rightarrow> str option) option \<Rightarrow> str option \<Rightarrow> PresenceState" where
  "usePresence client userId = (case (client, userId) of
     (Some users, Some u) \<Rightarrow> if u = [] then PresOffline else presence_of (users u) | _ \<Rightarrow> PresOffline)"

definition usePresenceMap :: "(str \<Rightarrow> str option) option \<Rightarrow> str list \<Rightarrow> (str \<rightharpoonup> PresenceState)" where
  "usePresenceMap client userIds = (case client of None \<Rightarrow> Map.empty
     | Some users \<Rightarrow> foldl (\<lambda>m u. m(u \<mapsto> presence_of (users u))) Map.empty userIds)"

section \<open>The nearest element\<close>

text \<open>What the loop searches: the candidates on the side.\<close>
definition eligible :: "Dir \<Rightarrow> Element \<Rightarrow> Element list \<Rightarrow> Element list" where
  "eligible dir cur es = filter (\<lambda>e. el_id e \<noteq> el_id cur \<and> on_side dir cur e) es"

lemma arg_min_prefer_left:
  "xs \<noteq> [] \<Longrightarrow> arg_min_list f (x # xs) = (if f x \<le> f (arg_min_list f xs) then x else arg_min_list f xs)"
  by (cases xs) (simp_all add: Let_def)

lemma arg_min_replace:
  "f x \<le> f y \<Longrightarrow> arg_min_list f (x # y # xs) = arg_min_list f (x # xs)"
  "\<not> f x \<le> f y \<Longrightarrow> arg_min_list f (x # y # xs) = arg_min_list f (y # xs)"
proof -
  have m: "f (arg_min_list f (y # xs)) \<le> f y" by (cases xs) (auto simp: Let_def)
  show "f x \<le> f y \<Longrightarrow> arg_min_list f (x # y # xs) = arg_min_list f (x # xs)"
    by (cases xs) (auto simp: Let_def)
  show "\<not> f x \<le> f y \<Longrightarrow> arg_min_list f (x # y # xs) = arg_min_list f (y # xs)"
    using m by (auto simp: Let_def)
qed

lemma nearest_best:
  "nearest dir cur es (Some (b, nav_score dir cur b)) = Some (arg_min_list (nav_score dir cur) (b # eligible dir cur es))"
proof (induction es arbitrary: b)
  case (Cons e es)
  show ?case
  proof (cases "el_id e = el_id cur \<or> \<not> on_side dir cur e")
    case False
    then have el: "eligible dir cur (e # es) = e # eligible dir cur es" by (simp add: eligible_def)
    show ?thesis
    proof (cases "nav_score dir cur b \<le> nav_score dir cur e")
      case True
      then show ?thesis using False Cons[of b] unfolding el arg_min_replace(1)[where f = "nav_score dir cur", OF True] by (simp add: Let_def)
    next
      case le: False
      then show ?thesis using False Cons[of e] unfolding el arg_min_replace(2)[where f = "nav_score dir cur", OF le] by (simp add: Let_def)
    qed
  qed (use Cons[of b] in \<open>auto simp: eligible_def\<close>)
qed (simp add: eligible_def)

lemma nearest_none:
  "nearest dir cur es None = (case eligible dir cur es of [] \<Rightarrow> None | xs \<Rightarrow> Some (arg_min_list (nav_score dir cur) xs))"
proof (induction es)
  case (Cons e es)
  show ?case
  proof (cases "el_id e = el_id cur \<or> \<not> on_side dir cur e")
    case False
    then have el: "eligible dir cur (e # es) = e # eligible dir cur es" by (simp add: eligible_def)
    show ?thesis using False nearest_best[of dir cur es e] unfolding el by (simp add: Let_def)
  qed (use Cons in \<open>auto simp: eligible_def\<close>)
qed (simp add: eligible_def)

lemma neighbour_loop:
  "findNeighbour cur dir cs = (if eligible dir cur cs = [] then None else Some (arg_min_list (nav_score dir cur) (eligible dir cur cs)))"
  by (simp add: findNeighbour_def nearest_none split: list.splits)

lemma arg_min_first:
  fixes f :: "'a \<Rightarrow> real"
  shows "xs \<noteq> [] \<Longrightarrow> arg_min_list f xs = e \<longleftrightarrow>
    (\<exists>a b. xs = a @ e # b \<and> list_all (\<lambda>c. f e < f c) a \<and> list_all (\<lambda>c. f e \<le> f c) b)"
proof (induction xs arbitrary: e)
  case (Cons x xs)
  show ?case
  proof (cases "xs = []")
    case True
    then show ?thesis by (auto simp: Cons_eq_append_conv)
  next
    case False
    define m where "m = arg_min_list f xs"
    have m: "list_all (\<lambda>c. f m \<le> f c) xs" "m \<in> set xs"
    proof -
      obtain a b where "xs = a @ m # b" "list_all (\<lambda>c. f m < f c) a" "list_all (\<lambda>c. f m \<le> f c) b"
        using Cons.IH[OF False, of m] m_def by auto
      then show "list_all (\<lambda>c. f m \<le> f c) xs" "m \<in> set xs" by (auto simp: list_all_iff intro: less_imp_le)
    qed
    have step: "arg_min_list f (x # xs) = (if f x \<le> f m then x else m)" unfolding m_def by (rule arg_min_prefer_left[OF False])
    show ?thesis
    proof
      assume e: "arg_min_list f (x # xs) = e"
      show "\<exists>a b. x # xs = a @ e # b \<and> list_all (\<lambda>c. f e < f c) a \<and> list_all (\<lambda>c. f e \<le> f c) b"
      proof (cases "f x \<le> f m")
        case True
        then have "list_all (\<lambda>c. f x \<le> f c) xs" using m by (auto simp: list_all_iff)
        then show ?thesis using True e step by (intro exI[of _ "[]"] exI[of _ xs]) simp
      next
        case le: False
        then have "m = e" using e step by simp
        then obtain a b where "xs = a @ e # b" "list_all (\<lambda>c. f e < f c) a" "list_all (\<lambda>c. f e \<le> f c) b"
          using Cons.IH[OF False, of e] m_def by auto
        then show ?thesis using le \<open>m = e\<close> by (intro exI[of _ "x # a"] exI[of _ b]) simp
      qed
    next
      assume "\<exists>a b. x # xs = a @ e # b \<and> list_all (\<lambda>c. f e < f c) a \<and> list_all (\<lambda>c. f e \<le> f c) b"
      then obtain a b where ab: "x # xs = a @ e # b" "list_all (\<lambda>c. f e < f c) a" "list_all (\<lambda>c. f e \<le> f c) b" by blast
      show "arg_min_list f (x # xs) = e"
      proof (cases a)
        case Nil
        then show ?thesis using ab step m(2) by (auto simp: list_all_iff)
      next
        case (Cons y a')
        then have "arg_min_list f xs = e" using ab Cons.IH[OF False, of e] by auto
        moreover have "\<not> f x \<le> f e" using ab Cons by simp
        ultimately show ?thesis using step m_def by simp
      qed
    qed
  qed
qed simp

lemma eligible_split:
  "eligible dir cur cs = a @ e # b \<longleftrightarrow> (\<exists>before after. cs = before @ e # after \<and> eligible dir cur before = a \<and> eligible dir cur after = b
     \<and> el_id e \<noteq> el_id cur \<and> on_side dir cur e)"
proof
  show "eligible dir cur cs = a @ e # b \<Longrightarrow> \<exists>before after. cs = before @ e # after \<and> eligible dir cur before = a
     \<and> eligible dir cur after = b \<and> el_id e \<noteq> el_id cur \<and> on_side dir cur e"
  proof (induction cs arbitrary: a)
    case (Cons c cs)
    show ?case
    proof (cases "(el_id c \<noteq> el_id cur \<and> on_side dir cur c) \<and> a = []")
      case True
      then show ?thesis using Cons.prems by (intro exI[of _ "[]"] exI[of _ cs]) (auto simp: eligible_def)
    next
      case False
      define a' where "a' = (if el_id c \<noteq> el_id cur \<and> on_side dir cur c then tl a else a)"
      have "eligible dir cur cs = a' @ e # b" "eligible dir cur [c] @ a' = a"
        using Cons.prems False by (auto simp: eligible_def a'_def Cons_eq_append_conv)
      then obtain us vs where "cs = us @ e # vs" "eligible dir cur us = a'" "eligible dir cur vs = b" "el_id e \<noteq> el_id cur" "on_side dir cur e"
        using Cons.IH by blast
      then show ?thesis using \<open>eligible dir cur [c] @ a' = a\<close>
        by (intro exI[of _ "c # us"] exI[of _ vs]) (auto simp: eligible_def)
    qed
  qed (simp add: eligible_def)
qed (auto simp: eligible_def)

text \<open>The same for every direction: the sides of a box along an axis that points there, and its middle across.\<close>
fun along :: "Dir \<Rightarrow> Element \<Rightarrow> real \<times> real" where
  "along DirUp e = (- (el_top e + el_height e), - el_top e)"
| "along DirDown e = (el_top e, el_top e + el_height e)"
| "along DirLeft e = (- (el_left e + el_width e), - el_left e)"
| "along DirRight e = (el_left e, el_left e + el_width e)"

fun across :: "Dir \<Rightarrow> Element \<Rightarrow> real" where
  "across DirUp e = el_left e + el_width e / 2"
| "across DirDown e = el_left e + el_width e / 2"
| "across DirLeft e = el_top e + el_height e / 2"
| "across DirRight e = el_top e + el_height e / 2"

definition middle :: "real \<times> real \<Rightarrow> real" where "middle p = (fst p + snd p) / 2"

definition beyond :: "Dir \<Rightarrow> Element \<Rightarrow> Element \<Rightarrow> bool" where
  "beyond dir cur e = (el_id e \<noteq> el_id cur \<and> fst (along dir e) \<ge> snd (along dir cur) - 1)"

definition travel :: "Dir \<Rightarrow> Element \<Rightarrow> Element \<Rightarrow> real" where
  "travel dir cur e = \<bar>middle (along dir e) - middle (along dir cur)\<bar> + \<bar>across dir e - across dir cur\<bar> / 2"

lemma side_beyond: "el_id e \<noteq> el_id cur \<and> on_side dir cur e \<longleftrightarrow> beyond dir cur e"
  by (cases dir) (auto simp: on_side_def beyond_def el_bottom_def el_right_def)

lemma score_travel: "nav_score dir cur e = travel dir cur e"
proof -
  have m: "(- (a + b) + - a) / 2 - (- (c + d) + - c) / 2 = - ((a + b / 2) - (c + d / 2))" for a b c d :: real by (simp add: field_simps)
  have m': "(a + (a + b)) / 2 - (c + (c + d)) / 2 = (a + b / 2) - (c + d / 2)" for a b c d :: real by (simp add: field_simps)
  show ?thesis unfolding travel_def nav_score_def middle_def
    by (cases dir) (simp_all only: along.simps across.simps fst_conv snd_conv m m' abs_minus_cancel Let_def Dir.distinct simp_thms if_True if_False)
qed

lemma eligible_beyond: "eligible dir cur cs = filter (beyond dir cur) cs"
  using side_beyond by (auto simp: eligible_def intro: filter_cong)

text \<open>C33. Arrow keys go to the nearest element. Along the axis that points in the direction of the key, whichever it is, the elements
  in question begin at most one pixel before the focused one ends; among them the focus goes to the one whose middle is
  nearest along the axis, the distance across counting half, and to the first in the document among equals; it
  stays exactly when there is none.\<close>
theorem neighbour_is_nearest:
  "(findNeighbour cur dir cs = None \<longleftrightarrow> filter (beyond dir cur) cs = [])
    \<and> (findNeighbour cur dir cs = Some e \<longleftrightarrow> (\<exists>before after. cs = before @ e # after \<and> beyond dir cur e
        \<and> list_all (\<lambda>c. travel dir cur e < travel dir cur c) (filter (beyond dir cur) before)
        \<and> list_all (\<lambda>c. travel dir cur e \<le> travel dir cur c) (filter (beyond dir cur) after)))"
proof (cases "eligible dir cur cs = []")
  case True
  then have "\<not> (\<exists>before after. cs = before @ e # after \<and> beyond dir cur e)" by (auto simp: eligible_beyond)
  then show ?thesis using True by (auto simp: neighbour_loop eligible_beyond)
next
  case False
  have t: "nav_score dir cur = travel dir cur" using score_travel by blast
  have "findNeighbour cur dir cs = Some e \<longleftrightarrow> (\<exists>a b. eligible dir cur cs = a @ e # b
      \<and> list_all (\<lambda>c. travel dir cur e < travel dir cur c) a \<and> list_all (\<lambda>c. travel dir cur e \<le> travel dir cur c) b)"
    using False arg_min_first[OF False, of "travel dir cur" e] by (simp add: neighbour_loop t)
  also have "\<dots> \<longleftrightarrow> (\<exists>before after. cs = before @ e # after \<and> beyond dir cur e
        \<and> list_all (\<lambda>c. travel dir cur e < travel dir cur c) (filter (beyond dir cur) before)
        \<and> list_all (\<lambda>c. travel dir cur e \<le> travel dir cur c) (filter (beyond dir cur) after))"
    unfolding eligible_split side_beyond using eligible_beyond by auto
  finally show ?thesis using False by (simp add: neighbour_loop eligible_beyond)
qed

text \<open>The side is not strict: an element that overlaps the focused one by a pixel is on it.\<close>
lemma overlapping_neighbour: "el_left e = el_left cur + el_width cur - 1 \<Longrightarrow> on_side DirRight cur e"
  by (simp add: on_side_def el_right_def)

lemma arg_min_in: "xs \<noteq> [] \<Longrightarrow> arg_min_list f xs \<in> set xs"
proof (induction xs)
  case (Cons x xs)
  then show ?case by (cases xs) (auto simp: Let_def)
qed simp

text \<open>The focus stays in the group: whatever key is pressed with whatever focused, a move goes to an element of the
  document that can be focused, belongs to the group and is shown.\<close>
theorem focus_stays_in_group:
  "FocusOn i \<in> set (handleKey opts doc active key) \<Longrightarrow> \<exists>e \<in> set (getFocusables (no_group opts) doc). el_id e = i"
proof -
  assume f: "FocusOn i \<in> set (handleKey opts doc active key)"
  have n: "e \<in> set cs" if "findNeighbour a dir cs = Some e" for a dir cs e
    using that arg_min_in[of "eligible dir a cs" "nav_score dir a"] unfolding findNeighbour_def nearest_none
    by (auto simp: eligible_def split: list.splits if_splits)
  show ?thesis
  proof (cases "getFocusables (no_group opts) doc")
    case Nil
    then show ?thesis using f by (auto simp: handleKey_def split: if_splits option.splits)
  next
    case (Cons first others)
    obtain dir where d: "arrow_dir key = Some dir" using f
      by (cases "arrow_dir key") (auto simp: handleKey_def split: if_splits option.splits)
    show ?thesis
    proof (cases active)
      case None
      then show ?thesis using f Cons d by (auto simp: handleKey_def split: if_splits)
    next
      case (Some a)
      then show ?thesis using f Cons d n[of a dir "first # others"]
        by (cases "findNeighbour a dir (first # others)") (auto simp: handleKey_def split: if_splits)
    qed
  qed
qed

text \<open>The flags agree with each other: a TV is not mobile, an iPad is an iOS device, an Android TV is both, and a
  device with fine pointers is not touch-only.\<close>
theorem flags_agree:
  "\<not> (isTV (detectFlags b) \<and> isMobile (detectFlags b)) \<and> \<not> (isIPad (detectFlags b) \<and> \<not> isIOS (detectFlags b))
    \<and> isAndroidTV (detectFlags b) = (isAndroid (detectFlags b) \<and> isTV (detectFlags b))
    \<and> \<not> (hasTouchOnly (detectFlags b) \<and> hasPointer (detectFlags b))"
proof (cases b)
  case (Some x)
  have "ipad \<Longrightarrow> includes_sub ''iPad'' (br_userAgent x) \<or> ipad" for ipad by simp
  then show ?thesis unfolding Some detectFlags_def Let_def option.case PlatformFlags.simps
    by (cases "br_media x") auto
qed (simp add: detectFlags_def DEFAULT_FLAGS_def)

text \<open>The user agent of an Apple TV ends its name with the model number, which is no word boundary.\<close>
lemma apple_tv_is_no_tv:
  "isAppleTV (detectFlags (Some \<lparr>br_userAgent = ''AppleTV11,1/11.1'', br_platform = [], br_touchPoints = 0, br_tauri = True, br_media = None\<rparr>))
   \<and> \<not> isTV (detectFlags (Some \<lparr>br_userAgent = ''AppleTV11,1/11.1'', br_platform = [], br_touchPoints = 0, br_tauri = True, br_media = None\<rparr>))"
  by code_simp

text \<open>The back key is taken wherever the focus is, in a text field too.\<close>
lemma backspace_in_field_goes_back: "no_onBack opts \<Longrightarrow> handleKey opts doc (Some field) ''Backspace'' = [Prevented, WentBack]"
  by (simp add: handleKey_def)

section \<open>The cache\<close>

datatype avatar_event = AvatarResolve str "str option" | AvatarListener str "str option"

fun avatar_step :: "(str \<Rightarrow> str option) \<Rightarrow> avatar_event \<Rightarrow> avatar_cache \<Rightarrow> avatar_cache" where
  "avatar_step t (AvatarResolve u m) c = fst (resolveAvatar t u m c)"
| "avatar_step t (AvatarListener u m) c = fst (avatarChanged t u m c)"

definition cache_ok :: "avatar_cache \<Rightarrow> bool" where
  "cache_ok c = (distinct (map fst c) \<and> length c \<le> AVATAR_CACHE_MAX)"

lemma put_keys: "map fst (cache_put k v c) = (if k \<in> set (map fst c) then map fst c else map fst c @ [k])"
  by (auto simp: cache_put_def)

lemma length_put: "length (cache_put k v c) = (if k \<in> set (map fst c) then length c else Suc (length c))"
  by (simp add: cache_put_def)

lemma set_ok: "cache_ok c \<Longrightarrow> cache_ok (avatarCacheSet k v c)"
proof -
  assume ok: "cache_ok c"
  let ?c = "if length c \<ge> AVATAR_CACHE_MAX \<and> k \<notin> set (map fst c) then drop 1 c else c"
  have d: "distinct (map fst ?c)" using ok by (auto simp: cache_ok_def drop_map[symmetric] intro: distinct_drop)
  have "length (cache_put k v ?c) \<le> AVATAR_CACHE_MAX" using ok
    by (cases "k \<in> set (map fst c)") (auto simp: cache_ok_def length_put AVATAR_CACHE_MAX_def)
  moreover have "distinct (map fst (cache_put k v ?c))" using d by (simp only: put_keys) auto
  ultimately show ?thesis by (simp add: avatarCacheSet_def cache_ok_def)
qed

lemma resolve_ok: "cache_ok c \<Longrightarrow> cache_ok (fst (resolveAvatar t u m c))"
  using set_ok[of c] by (auto simp: resolveAvatar_def split: option.splits)

lemma step_ok: "cache_ok c \<Longrightarrow> cache_ok (avatar_step t e c)"
proof (induction t e c rule: avatar_step.induct)
  case (2 t u m c)
  have "cache_ok (filter (\<lambda>kv. fst kv \<noteq> u) c)" using 2
    by (auto simp: cache_ok_def distinct_map_filter intro: order_trans[OF length_filter_le])
  then show ?case by (simp add: avatarChanged_def resolve_ok)
qed (simp add: resolve_ok)

text \<open>The avatar cache stays small: after any sequence of lookups and changes it has at most two hundred entries,
  one for each user.\<close>
theorem avatar_cache_bounded:
  "length (fold (avatar_step t) es []) \<le> 200 \<and> distinct (map fst (fold (avatar_step t) es []))"
proof -
  have "cache_ok c \<Longrightarrow> cache_ok (fold (avatar_step t) es c)" for c
    by (induction es arbitrary: c) (auto simp: step_ok)
  moreover have "cache_ok []" by (simp add: cache_ok_def)
  ultimately show ?thesis by (auto simp: cache_ok_def AVATAR_CACHE_MAX_def)
qed

lemma replace_lookup:
  "map_of (map (\<lambda>kv. if fst kv = k then (k, v) else kv) c) k' = (if k' = k then (if k \<in> fst ` set c then Some v else None) else map_of c k')"
  by (induction c) force+

lemma put_lookup: "map_of (cache_put k v c) k' = (if k' = k then Some v else map_of c k')"
proof (cases "k \<in> fst ` set c")
  case False
  then have "map_of c k = None" by (simp add: map_of_eq_None_iff)
  then show ?thesis using False by (auto simp: cache_put_def map_add_def split: option.splits)
qed (simp add: cache_put_def replace_lookup)

text \<open>An avatar that changes while no view of the user is mounted is not noticed: the cache is keyed by the user, so the
  next view shows the old picture, whatever the new one is.\<close>
theorem stale_avatar_shown:
  assumes "thumbnail old = Some u" and "u \<noteq> []" and "old \<noteq> []" and "new \<noteq> []" and "map_of c user = None"
  shows "snd (resolveAvatar thumbnail user (Some new) (fst (resolveAvatar thumbnail user (Some old) c))) = Some u"
  using assms by (simp add: resolveAvatar_def avatarCacheSet_def put_lookup)

section \<open>At concrete inputs\<close>

definition tile :: "nat \<Rightarrow> real \<Rightarrow> Element" where
  "tile i x = \<lparr>el_id = i, el_left = x, el_top = 0, el_width = 10, el_height = 10, el_focusable = True, el_group = None, el_shown = True\<rparr>"

theorem focus_stays_in_group_witness:
  "\<exists>e \<in> set (getFocusables None [tile 0 0, tile 1 20, tile 2 40]). el_id e = 1"
proof -
  have "FocusOn 1 \<in> set (handleKey \<lparr>no_group = None, no_onSelect = False, no_onBack = False\<rparr> [tile 0 0, tile 1 20, tile 2 40] (Some (tile 0 0)) ''ArrowRight'')"
    by (simp add: handleKey_def arrow_dir_def getFocusables_def tile_def findNeighbour_def on_side_def nav_score_def el_right_def)
  from focus_stays_in_group[OF this] show ?thesis by simp
qed

theorem stale_avatar_shown_witness:
  "snd (resolveAvatar (\<lambda>m. Some m) ''@a'' (Some ''new'') (fst (resolveAvatar (\<lambda>m. Some m) ''@a'' (Some ''old'') []))) = Some ''old''"
  using stale_avatar_shown[of "\<lambda>m. Some m" "''old''" "''old''" "''new''" "[]" "''@a''"] by simp

end
