(* ===== verification/MessageText.thy ===== *)
theory MessageText
  imports Timeline
begin

text \<open>
  How a message is shown, \<open>components/chat/MessageContent.tsx\<close>: what a message is rendered as, the splitting of a
  body into rich blocks and Markdown, the links that get a preview, the validation of chart attachments, and file
  sizes. The regular expressions are matchers; Markdown, sanitising and charts are libraries.
\<close>

section \<open>Links\<close>

text \<open>\<open>[^\s<>"]\<close> and \<open>[^\s<>"',;)]\<close>\<close>
definition url_char1 :: "char \<Rightarrow> bool" where
  "url_char1 c = (\<not> is_space c \<and> c \<noteq> CHR ''<'' \<and> c \<noteq> CHR ''>'' \<and> c \<noteq> CHR 0x22)"

definition url_char2 :: "char \<Rightarrow> bool" where
  "url_char2 c = (url_char1 c \<and> c \<noteq> CHR 0x27 \<and> c \<noteq> CHR '','' \<and> c \<noteq> CHR '';'' \<and> c \<noteq> CHR '')'')"

text \<open>The expression at one position. The first class takes the whole run and gives back until the second finds a
  character: the match ends with the run's last one of the second class, which cannot be its first.\<close>
definition url_at :: "str \<Rightarrow> (str \<times> str) option" where
  "url_at s =
    (let k = (if starts_with ''https://'' s then 8 else 7);
         run = takeWhile url_char1 (drop k s);
         body = rev (dropWhile (\<lambda>c. \<not> url_char2 c) (rev run))
     in if (starts_with ''https://'' s \<or> starts_with ''http://'' s) \<and> 2 \<le> length body
        then Some (take k s @ body, drop (k + length body) s) else None)"

lemma url_at_split: "url_at s = Some (u, r) \<Longrightarrow> s = u @ r \<and> u \<noteq> []"
proof -
  assume a: "url_at s = Some (u, r)"
  define k :: nat where "k = (if starts_with ''https://'' s then 8 else 7)"
  define run where "run = takeWhile url_char1 (drop k s)"
  define body where "body = rev (dropWhile (\<lambda>c. \<not> url_char2 c) (rev run))"
  have u: "u = take k s @ body" "r = drop (k + length body) s" "2 \<le> length body"
    using a by (auto simp: url_at_def k_def run_def body_def Let_def split: if_splits)
  have "\<exists>t. run = body @ t"
    unfolding body_def by (metis rev_append rev_rev_ident takeWhile_dropWhile_id)
  then obtain t where t: "run = body @ t" by blast
  have "drop k s = run @ dropWhile url_char1 (drop k s)" by (simp add: run_def)
  then have d: "drop k s = body @ (t @ dropWhile url_char1 (drop k s))" using t by simp
  have "take k s @ body @ drop (k + length body) s = take k s @ drop k s"
    using d by (metis append_eq_conv_conj drop_drop add.commute)
  then show ?thesis using u by auto
qed

text \<open>\<open>text.match(URL_REGEX)\<close>, all matches from left to right.\<close>
function match_urls :: "str \<Rightarrow> str list" where
  "match_urls s = (case url_at s of
     Some (u, r) \<Rightarrow> u # match_urls r
   | None \<Rightarrow> (case s of [] \<Rightarrow> [] | c # r \<Rightarrow> match_urls r))"
  by pat_completeness auto
termination by (relation "measure length") (auto dest: url_at_split)

declare match_urls.simps [simp del]

definition extractUrls :: "str \<Rightarrow> str list" where
  "extractUrls txt = take 3 (firsts (match_urls txt))"

section \<open>Rich blocks\<close>

datatype RichMarkdownSegment = Markdown (seg_body: str) | Block (seg_variant: str) (seg_body: str)

definition RICH_TAGS :: "str list" where
  "RICH_TAGS = [''center'', ''right'', ''small'', ''large'']"

text \<open>Case is ignored (flag \<open>i\<close>), also by the back reference.\<close>
definition starts_ci :: "str \<Rightarrow> str \<Rightarrow> bool" where
  "starts_ci p s = (length p \<le> length s \<and> to_lower (take (length p) s) = to_lower p)"

definition open_tag :: "str \<Rightarrow> (str \<times> str) option" where
  "open_tag s = (case find (\<lambda>n. starts_ci (''['' @ n @ '']'') s) RICH_TAGS of None \<Rightarrow> None
     | Some n \<Rightarrow> Some (take (length n) (drop 1 s), drop (length n + 2) s))"

text \<open>The shortest content before a closing tag, and the tag as it was written with the rest behind it.\<close>
fun find_close :: "str \<Rightarrow> str \<Rightarrow> (str \<times> str) option" where
  "find_close tag s = (if starts_ci tag s then Some ([], s)
     else case s of [] \<Rightarrow> None | c # r \<Rightarrow> map_option (\<lambda>(a, b). (c # a, b)) (find_close tag r))"

declare find_close.simps [simp del]

definition close_tag :: "str \<Rightarrow> str" where
  "close_tag v = ''[/'' @ v @ '']''"

text \<open>The expression at one position: variant, content, the closing tag and the rest.\<close>
definition block_at :: "str \<Rightarrow> (str \<times> str \<times> str) option" where
  "block_at s = (case open_tag s of None \<Rightarrow> None
     | Some (v, r) \<Rightarrow> map_option (\<lambda>(content, r'). (v, content, drop (length (close_tag v)) r')) (find_close (close_tag v) r))"

text \<open>\<open>exec\<close>: the first match at or after the current position, with the text before it.\<close>
fun next_block :: "str \<Rightarrow> (str \<times> str \<times> str \<times> str) option" where
  "next_block [] = None"
| "next_block (c # s) = (case block_at (c # s) of
     Some (v, content, r) \<Rightarrow> Some ([], v, content, r)
   | None \<Rightarrow> map_option (\<lambda>(b, v, content, r). (c # b, v, content, r)) (next_block s))"

lemma take_drop_to_lower: "starts_ci p s \<Longrightarrow> \<exists>q. s = q @ drop (length p) s \<and> to_lower q = to_lower p \<and> length q = length p"
  by (rule exI[of _ "take (length p) s"]) (auto simp: starts_ci_def)

lemma find_close_split:
  "find_close tag s = Some (content, r) \<Longrightarrow> s = content @ r \<and> starts_ci tag r"
proof (induction s arbitrary: content)
  case Nil
  then show ?case by (auto simp: find_close.simps[of tag "[]"] split: if_splits)
next
  case (Cons c s)
  then show ?case by (cases "starts_ci tag (c # s)") (auto simp: find_close.simps[of tag "c # s"])
qed

lemma lower_char_fixed:
  assumes "lower_char c = d" "char_code d < 97"
  shows "c = d"
proof (cases "65 \<le> char_code c \<and> char_code c \<le> 90 \<or> 192 \<le> char_code c \<and> char_code c \<le> 222 \<and> char_code c \<noteq> 215")
  case True
  then have "d = char_of (char_code c + 32)" "char_code c + 32 < 256" using assms(1) by (auto simp: lower_char_def Let_def)
  then have "char_code d = char_code c + 32" by (simp add: char_code_of)
  then show ?thesis using True assms(2) by linarith
next
  case False
  then have "lower_char c = c" unfolding lower_char_def Let_def by (rule if_not_P)
  then show ?thesis using assms(1) by simp
qed

lemma open_tag_split:
  assumes "open_tag s = Some (v, r)"
  shows "s = CHR ''['' # v @ CHR '']'' # r \<and> to_lower v \<in> set RICH_TAGS"
proof -
  obtain n where n: "find (\<lambda>n. starts_ci (''['' @ n @ '']'') s) RICH_TAGS = Some n" "v = take (length n) (drop 1 s)"
      "r = drop (length n + 2) s"
    using assms by (auto simp: open_tag_def split: option.splits)
  have t: "n \<in> set RICH_TAGS" "starts_ci (''['' @ n @ '']'') s" using n(1) by (auto simp: find_Some_iff)
  obtain q where q: "s = q @ r" "to_lower q = to_lower (''['' @ n @ '']'')" "length q = length n + 2"
    using take_drop_to_lower[OF t(2)] n(3) by auto
  have ln: "to_lower n = n" using t(1) by (auto simp: RICH_TAGS_def to_lower_def lower_char_def char_code_def)
  obtain a m b where qs: "q = a # m @ [b]" "length m = length n"
  proof -
    have "q \<noteq> []" "tl q \<noteq> []" using q(3) by (cases q; auto)+
    then have "q = hd q # butlast (tl q) @ [last (tl q)]" by (simp add: append_butlast_last_id)
    moreover have "length (butlast (tl q)) = length n" using q(3) by simp
    ultimately show ?thesis using that by metis
  qed
  have "lower_char a = lower_char CHR ''[''" "map lower_char m = map lower_char n" "lower_char b = lower_char CHR '']''"
    using q(2) qs by (auto simp: to_lower_def)
  then have "lower_char a = CHR ''[''" "lower_char b = CHR '']''" by (simp_all add: lower_char_def char_code_def)
  then have ab: "a = CHR ''[''" "b = CHR '']''" by (auto dest: lower_char_fixed simp: char_code_def)
  have "v = m" using n(2) q(1) qs by simp
  then show ?thesis using q(1) qs ab ln t(1) \<open>map lower_char m = map lower_char n\<close> by (simp add: to_lower_def)
qed

lemma block_at_split:
  assumes "block_at s = Some (v, content, r)"
  shows "\<exists>t. s = CHR ''['' # v @ CHR '']'' # content @ t @ r \<and> to_lower t = to_lower (close_tag v) \<and> to_lower v \<in> set RICH_TAGS"
proof -
  obtain r0 r1 where o: "open_tag s = Some (v, r0)" "find_close (close_tag v) r0 = Some (content, r1)"
      "r = drop (length (close_tag v)) r1"
    using assms by (auto simp: block_at_def split: option.splits)
  from take_drop_to_lower obtain t where "r1 = t @ r" "to_lower t = to_lower (close_tag v)"
    using find_close_split[OF o(2)] o(3) by metis
  then show ?thesis using open_tag_split[OF o(1)] find_close_split[OF o(2)] by auto
qed

lemma next_block_split:
  "next_block s = Some (b, v, content, r) \<Longrightarrow> \<exists>t. s = b @ CHR ''['' # v @ CHR '']'' # content @ t @ r
     \<and> to_lower t = to_lower (close_tag v) \<and> to_lower v \<in> set RICH_TAGS"
proof (induction s arbitrary: b)
  case (Cons c s)
  then show ?case using block_at_split[of "c # s" v content r] by (cases "block_at (c # s)") auto
qed simp

lemma next_block_shorter: "next_block s = Some (b, v, content, r) \<Longrightarrow> length r < length s"
  using next_block_split[of s b v content r] by auto

function rich_segments :: "str \<Rightarrow> RichMarkdownSegment list" where
  "rich_segments body = (case next_block body of
     None \<Rightarrow> (if body = [] then [] else [Markdown body])
   | Some (b, v, content, r) \<Rightarrow> (if b = [] then [] else [Markdown b]) @ Block v (trim content) # rich_segments r)"
  by pat_completeness auto
termination by (relation "measure length") (auto dest: next_block_shorter)

declare rich_segments.simps [simp del]

definition splitRichMarkdown :: "str \<Rightarrow> RichMarkdownSegment list" where
  "splitRichMarkdown body = filter (\<lambda>s. trim (seg_body s) \<noteq> []) (rich_segments body)"

text \<open>The class a block is shown with.\<close>
definition block_class :: "str \<Rightarrow> str" where
  "block_class v = (if v = ''center'' then ''text-center'' else if v = ''right'' then ''text-right''
     else if v = ''small'' then ''text-[0.85em] text-on-surface-variant'' else ''text-[1.15em] leading-relaxed'')"

section \<open>Charts\<close>

text \<open>A JSON number is finite.\<close>
definition is_number :: "json \<Rightarrow> bool" where
  "is_number v = (as_num (Some v) \<noteq> None)"

definition dataset_error :: "nat \<Rightarrow> str \<Rightarrow> str" where
  "dataset_error i what = ''datasets['' @ nat_text i @ '']'' @ what"

fun check_datasets :: "nat \<Rightarrow> nat \<Rightarrow> json list \<Rightarrow> str option" where
  "check_datasets labels i [] = None"
| "check_datasets labels i (ds # dss) =
    (if \<not> nonnull_object (Some ds) then Some (dataset_error i '' is not an object'')
     else case as_arr (jget ds ''data'') of
       None \<Rightarrow> Some (dataset_error i ''.data must be an array of finite numbers'')
     | Some xs \<Rightarrow>
         if \<not> list_all is_number xs then Some (dataset_error i ''.data must be an array of finite numbers'')
         else if length xs \<noteq> labels then Some (dataset_error i (''.data length ('' @ nat_text (length xs) @
           '') must match data.labels length ('' @ nat_text labels @ '')''))
         else check_datasets labels (Suc i) dss)"

definition CHART_TYPES :: "json list" where
  "CHART_TYPES = [JStr ''bar'', JStr ''line'', JStr ''pie'']"

definition validateChartAttachment :: "json option \<Rightarrow> str + json" where
  "validateChartAttachment raw = (case raw of None \<Rightarrow> Inl ''chart payload must be an object''
     | Some r \<Rightarrow>
       if \<not> nonnull_object raw then Inl ''chart payload must be an object''
       else if \<not> list_ex (\<lambda>ty. jget r ''type'' = Some ty) CHART_TYPES then Inl (''unsupported chart type: '' @ key_of (jget r ''type''))
       else if \<not> nonnull_object (jget r ''data'') then Inl ''missing data object''
       else case as_arr (jopt (jget r ''data'') ''labels'') of
         None \<Rightarrow> Inl ''data.labels must be string[]''
       | Some labels \<Rightarrow>
           if \<not> list_all (\<lambda>l. as_str (Some l) \<noteq> None) labels then Inl ''data.labels must be string[]''
           else case as_arr (jopt (jget r ''data'') ''datasets'') of
             None \<Rightarrow> Inl ''data.datasets must be a non-empty array''
           | Some datasets \<Rightarrow>
               if datasets = [] then Inl ''data.datasets must be a non-empty array''
               else case check_datasets (length labels) 0 datasets of
                 Some err \<Rightarrow> Inl err
               | None \<Rightarrow>
                   if jget r ''options'' \<noteq> None \<and> \<not> nonnull_object (jget r ''options'') then Inl ''options must be an object if present''
                   else if jget r ''title'' \<noteq> None \<and> as_str (jget r ''title'') = None then Inl ''title must be a string if present''
                   else Inr r)"

section \<open>Sizes\<close>

text \<open>\<open>(bytes / unit).toFixed(1)\<close>: the nearest tenth, the larger of two; the quotient by a power of two is exact.\<close>
definition tenths :: "int \<Rightarrow> int \<Rightarrow> int" where
  "tenths bytes unit_size = (20 * bytes + unit_size) div (2 * unit_size)"

definition fixed1 :: "int \<Rightarrow> str" where
  "fixed1 n = int_text (n div 10) @ ''.'' @ int_text (n mod 10)"

definition formatSize :: "int \<Rightarrow> str" where
  "formatSize bytes = (if bytes < 1024 then int_text bytes @ '' B''
     else if bytes < 1024 * 1024 then fixed1 (tenths bytes 1024) @ '' KB''
     else fixed1 (tenths bytes (1024 * 1024)) @ '' MB'')"

section \<open>What a message is rendered as\<close>

datatype rendering =
    ShownDeleted
  | ShownImage str "str option"
  | ShownAudio str "str option"
  | ShownVideo str
  | ShownFile str str "str option"
  | ShownText "RichMarkdownSegment list" "json option" "str list"

text \<open>\<open>info?.size && formatSize(info.size)\<close>: a zero is not a size but it is rendered.\<close>
definition shown_size :: "json option \<Rightarrow> str option" where
  "shown_size info = (case as_num (jopt info ''size'') of None \<Rightarrow> None
     | Some n \<Rightarrow> if n = 0 then Some ''0'' else Some (formatSize n))"

definition MessageContent :: "ChatMessage \<Rightarrow> rendering" where
  "MessageContent m =
    (let url = (case cm_url m of None \<Rightarrow> [] | Some u \<Rightarrow> u); body = cm_body m; kind = cm_msgtype m in
     if cm_redacted m then ShownDeleted
     else if kind = ''m.image'' \<and> url \<noteq> [] then ShownImage url (if body \<noteq> [] \<and> body \<noteq> ''image'' then Some body else None)
     else if kind = ''m.audio'' \<and> url \<noteq> [] then ShownAudio url (shown_size (cm_info m))
     else if kind = ''m.video'' \<and> url \<noteq> [] then ShownVideo url
     else if kind = ''m.file'' \<and> url \<noteq> [] then ShownFile url body (shown_size (cm_info m))
     else ShownText (splitRichMarkdown body)
       (case cm_chartRaw m of None \<Rightarrow> None | Some v \<Rightarrow> if v = JNull then None else Some v) (extractUrls body))"

section \<open>What a body is written as\<close>

text \<open>A tag occurs in a text, in any case.\<close>
definition occurs_ci :: "str \<Rightarrow> str \<Rightarrow> bool" where
  "occurs_ci tag s = (\<exists>a m b. s = a @ m @ b \<and> to_lower m = to_lower tag)"

text \<open>A text that begins with a complete block: a known tag and, somewhere behind it, its closing tag.\<close>
definition begins_block :: "str \<Rightarrow> bool" where
  "begins_block s = (\<exists>v content t r. s = CHR ''['' # v @ CHR '']'' # content @ t @ r
     \<and> to_lower v \<in> set RICH_TAGS \<and> to_lower t = to_lower (close_tag v))"

text \<open>The segments a text is read as. No block begins in what is Markdown, also not with the text behind it, and a
  block ends at the first closing tag of its name.\<close>
inductive rich_text :: "str \<Rightarrow> RichMarkdownSegment list \<Rightarrow> bool" where
  finished: "rich_text [] []"
| ending: "b \<noteq> [] \<Longrightarrow> (\<And>a s. b = a @ s \<Longrightarrow> \<not> begins_block s) \<Longrightarrow> rich_text b [Markdown b]"
| tagged: "to_lower v \<in> set RICH_TAGS \<Longrightarrow> to_lower t = to_lower (close_tag v)
    \<Longrightarrow> \<not> occurs_ci (close_tag v) (content @ butlast t) \<Longrightarrow> w = CHR ''['' # v @ CHR '']'' # content @ t
    \<Longrightarrow> (\<And>a s. b = a @ s \<Longrightarrow> s \<noteq> [] \<Longrightarrow> \<not> begins_block (s @ w @ r)) \<Longrightarrow> rich_text r segs
    \<Longrightarrow> rich_text (b @ w @ r) ((if b = [] then [] else [Markdown b]) @ Block v (trim content) # segs)"

lemma lower_char_twice: "lower_char (lower_char c) = lower_char c"
proof (cases "65 \<le> char_code c \<and> char_code c \<le> 90 \<or> 192 \<le> char_code c \<and> char_code c \<le> 222 \<and> char_code c \<noteq> 215")
  case True
  then have c: "lower_char c = char_of (char_code c + 32)" by (auto simp: lower_char_def Let_def)
  have "char_code (lower_char c) = char_code c + 32" unfolding c char_code_of using True by (intro mod_less) linarith
  then have "\<not> (65 \<le> char_code (lower_char c) \<and> char_code (lower_char c) \<le> 90
      \<or> 192 \<le> char_code (lower_char c) \<and> char_code (lower_char c) \<le> 222 \<and> char_code (lower_char c) \<noteq> 215)"
    using True by linarith
  then show ?thesis unfolding lower_char_def[of "lower_char c"] Let_def by (rule if_not_P)
next
  case False
  then have "lower_char c = c" unfolding lower_char_def Let_def by (rule if_not_P)
  then show ?thesis by simp
qed

lemma to_lower_twice: "to_lower (to_lower s) = to_lower s"
  by (simp add: to_lower_def lower_char_twice)

lemma to_lower_append: "to_lower (s @ t) = to_lower s @ to_lower t"
  by (simp add: to_lower_def)

lemma lower_brackets: "to_lower (CHR ''['' # s) = CHR ''['' # to_lower s" "to_lower (CHR '']'' # s) = CHR '']'' # to_lower s"
  by (simp_all add: to_lower_def lower_char_def char_code_def)

lemma length_to_lower [simp]: "length (to_lower s) = length s"
  by (simp add: to_lower_def)

text \<open>A text begins with at most one tag.\<close>
lemma starts_ci_two:
  assumes "starts_ci p s" "starts_ci q s" "length p \<le> length q"
  shows "to_lower p = take (length p) (to_lower q)"
proof -
  have "to_lower (take (length p) s) = take (length p) (to_lower (take (length q) s))"
    using assms(3) by (simp add: to_lower_def take_map min_def)
  then show ?thesis using assms(1,2) by (simp add: starts_ci_def)
qed

lemma tags_apart:
  "m \<in> set RICH_TAGS \<Longrightarrow> n \<in> set RICH_TAGS \<Longrightarrow> to_lower (''['' @ m @ '']'') = take (length (''['' @ m @ '']'')) (to_lower (''['' @ n @ '']'')) \<Longrightarrow> m = n"
proof -
  have "list_all (\<lambda>m. list_all (\<lambda>n. to_lower (''['' @ m @ '']'') = take (length (''['' @ m @ '']'')) (to_lower (''['' @ n @ '']'')) \<longrightarrow> m = n) RICH_TAGS) RICH_TAGS"
    by code_simp
  then show "m \<in> set RICH_TAGS \<Longrightarrow> n \<in> set RICH_TAGS \<Longrightarrow> to_lower (''['' @ m @ '']'') = take (length (''['' @ m @ '']'')) (to_lower (''['' @ n @ '']'')) \<Longrightarrow> m = n"
    by (simp only: list_all_iff)
qed

lemma one_tag:
  assumes "m \<in> set RICH_TAGS" "n \<in> set RICH_TAGS" "starts_ci (''['' @ m @ '']'') s" "starts_ci (''['' @ n @ '']'') s"
  shows "m = n"
proof (cases "length (''['' @ m @ '']'') \<le> length (''['' @ n @ '']'')")
  case True
  show ?thesis by (rule tags_apart[OF assms(1,2) starts_ci_two[OF assms(3,4) True]])
next
  case False
  then have "length (''['' @ n @ '']'') \<le> length (''['' @ m @ '']'')" by linarith
  from tags_apart[OF assms(2,1) starts_ci_two[OF assms(4,3) this]] show ?thesis by simp
qed

text \<open>The matcher of the opening tag takes every known tag.\<close>
lemma open_tag_takes:
  assumes "to_lower v \<in> set RICH_TAGS"
  shows "open_tag (CHR ''['' # v @ CHR '']'' # r) = Some (v, r)" (is "open_tag ?s = _")
proof -
  have self: "starts_ci (''['' @ to_lower v @ '']'') ?s"
    by (simp add: starts_ci_def to_lower_append to_lower_twice lower_brackets)
  then have "find (\<lambda>n. starts_ci (''['' @ n @ '']'') ?s) RICH_TAGS \<noteq> None" using assms by (auto simp: find_None_iff)
  then obtain m where m: "find (\<lambda>n. starts_ci (''['' @ n @ '']'') ?s) RICH_TAGS = Some m" by blast
  then have "m = to_lower v" using one_tag[of m "to_lower v" ?s] assms self by (auto simp: find_Some_iff)
  then show ?thesis using m by (simp add: open_tag_def)
qed

lemma starts_ci_tag: "to_lower t = to_lower tag \<Longrightarrow> starts_ci tag (t @ r)"
  using length_to_lower[of t] by (simp add: starts_ci_def)

text \<open>The matcher of the closing tag takes the first one, and finds one if there is one.\<close>
lemma find_close_takes:
  assumes "to_lower t = to_lower tag"
  shows "\<not> occurs_ci tag (content @ butlast t) \<Longrightarrow> find_close tag (content @ t @ r) = Some (content, t @ r)"
proof (induction content)
  case Nil
  then show ?case using starts_ci_tag[OF assms, of r] by (simp add: find_close.simps[of tag "t @ r"])
next
  case (Cons c content)
  have l: "length t = length tag" using assms by (metis length_to_lower)
  have "\<not> starts_ci tag (c # content @ t @ r)"
  proof
    assume a: "starts_ci tag (c # content @ t @ r)"
    have "take (length tag) (c # content @ t @ r) = take (length tag) (c # content @ butlast t)"
      using l by (cases t rule: rev_cases) (auto simp: take_Cons')
    then have "to_lower (take (length tag) (c # content @ butlast t)) = to_lower tag"
      using a by (simp add: starts_ci_def)
    then have "occurs_ci tag ((c # content) @ butlast t)"
      unfolding occurs_ci_def by (metis append_Cons append_Nil append_take_drop_id)
    then show False using Cons.prems by simp
  qed
  moreover have "\<not> occurs_ci tag (content @ butlast t)"
    using Cons.prems unfolding occurs_ci_def by (metis append_Cons)
  ultimately show ?case using Cons.IH by (simp add: find_close.simps[of tag "c # content @ t @ r"])
qed

lemma find_close_first:
  assumes "tag \<noteq> []"
  shows "find_close tag (content @ t @ r) = Some (content, t @ r) \<Longrightarrow> to_lower t = to_lower tag
    \<Longrightarrow> \<not> occurs_ci tag (content @ butlast t)"
proof (induction content)
  case Nil
  have l: "length t = length tag" using Nil(2) by (metis length_to_lower)
  then have lt: "length (butlast t) < length tag" using assms by (cases tag) simp_all
  show ?case
  proof
    assume "occurs_ci tag ([] @ butlast t)"
    then obtain a m b where o: "butlast t = a @ m @ b" "to_lower m = to_lower tag" by (auto simp: occurs_ci_def)
    have "length m = length tag" using o(2) by (metis length_to_lower)
    then show False using lt o(1) by simp
  qed
next
  case (Cons c content)
  have s: "\<not> starts_ci tag (c # content @ t @ r)" "find_close tag (content @ t @ r) = Some (content, t @ r)"
    using Cons.prems(1) by (auto simp: find_close.simps[of tag "c # content @ t @ r"] split: if_splits)
  show ?case
  proof
    assume "occurs_ci tag ((c # content) @ butlast t)"
    then obtain a m b where o: "c # content @ butlast t = a @ m @ b" "to_lower m = to_lower tag"
      by (auto simp: occurs_ci_def)
    show False
    proof (cases a)
      case Nil
      have "t \<noteq> []" using Cons.prems(2) assms by (auto simp: to_lower_def)
      then have "c # content @ t @ r = m @ b @ last t # r" using o(1) Nil
        by (metis append.assoc append_Cons append_Nil append_butlast_last_id)
      then show False using s(1) starts_ci_tag[OF o(2)] by metis
    next
      case (Cons d a')
      then have "occurs_ci tag (content @ butlast t)" using o unfolding occurs_ci_def by auto
      then show False using Cons.IH[OF s(2) Cons.prems(2)] by contradiction
    qed
  qed
qed

lemma find_close_finds: "to_lower m = to_lower tag \<Longrightarrow> find_close tag (a @ m @ b) \<noteq> None"
proof (induction a)
  case Nil
  then show ?case using starts_ci_tag[of m tag b] by (simp add: find_close.simps[of tag "m @ b"])
qed (auto simp: find_close.simps[of _ "_ # _"])

lemma block_at_begins: "block_at s \<noteq> None \<longleftrightarrow> begins_block s"
proof
  assume "block_at s \<noteq> None"
  then obtain v content r where "block_at s = Some (v, content, r)" by auto
  from block_at_split[OF this] show "begins_block s" unfolding begins_block_def by blast
next
  assume "begins_block s"
  then obtain v content t r where b: "s = CHR ''['' # v @ CHR '']'' # content @ t @ r" "to_lower v \<in> set RICH_TAGS"
      "to_lower t = to_lower (close_tag v)" by (auto simp: begins_block_def)
  then show "block_at s \<noteq> None" using open_tag_takes[OF b(2)] find_close_finds[OF b(3)]
    by (auto simp: block_at_def)
qed

lemma next_block_None: "next_block s = None \<longleftrightarrow> (\<forall>a u. s = a @ u \<longrightarrow> \<not> begins_block u)"
proof (induction s)
  case Nil
  show ?case by (simp add: begins_block_def)
next
  case (Cons c s)
  have "(\<forall>a u. c # s = a @ u \<longrightarrow> \<not> begins_block u) \<longleftrightarrow> \<not> begins_block (c # s) \<and> (\<forall>a u. s = a @ u \<longrightarrow> \<not> begins_block u)"
    by (metis append_Cons append_Nil append_eq_Cons_conv)
  then show ?case using Cons.IH block_at_begins[of "c # s"] by (auto split: option.splits)
qed

text \<open>The first block: none begins before it.\<close>
lemma next_block_Some:
  "next_block s = Some (b, v, content, r) \<longleftrightarrow> (\<exists>x. s = b @ x \<and> x \<noteq> [] \<and> block_at x = Some (v, content, r)
    \<and> (\<forall>a u. b = a @ u \<longrightarrow> u \<noteq> [] \<longrightarrow> \<not> begins_block (u @ x)))"
proof (induction s arbitrary: b)
  case Nil
  show ?case by simp
next
  case (Cons c s)
  show ?case
  proof (cases b)
    case Nil
    show ?thesis unfolding Nil by (auto split: option.splits)
  next
    case b: (Cons d b')
    have e: "(\<forall>a u. d # b' = a @ u \<longrightarrow> u \<noteq> [] \<longrightarrow> \<not> begins_block (u @ x)) \<longleftrightarrow>
        \<not> begins_block (d # b' @ x) \<and> (\<forall>a u. b' = a @ u \<longrightarrow> u \<noteq> [] \<longrightarrow> \<not> begins_block (u @ x))" for x
      by (simp add: Cons_eq_append_conv all_conj_distrib) blast
    have "next_block (c # s) = Some (d # b', v, content, r) \<longleftrightarrow> c = d \<and> block_at (c # s) = None \<and> next_block s = Some (b', v, content, r)"
      by (auto split: option.splits prod.splits)
    then show ?thesis unfolding b using Cons.IH[of b'] block_at_begins[of "c # s"] by (auto simp: e)
  qed
qed

lemma block_at_takes:
  assumes "to_lower v \<in> set RICH_TAGS" "to_lower t = to_lower (close_tag v)" "\<not> occurs_ci (close_tag v) (content @ butlast t)"
  shows "block_at (CHR ''['' # v @ CHR '']'' # content @ t @ r) = Some (v, content, r)"
proof -
  have "length t = length (close_tag v)" using assms(2) by (metis length_to_lower)
  then show ?thesis using open_tag_takes[OF assms(1)] find_close_takes[OF assms(2,3)] by (simp add: block_at_def)
qed

lemma block_at_first:
  assumes "block_at s = Some (v, content, r)"
  shows "\<exists>t. s = CHR ''['' # v @ CHR '']'' # content @ t @ r \<and> to_lower v \<in> set RICH_TAGS
    \<and> to_lower t = to_lower (close_tag v) \<and> \<not> occurs_ci (close_tag v) (content @ butlast t)"
proof -
  obtain t where t: "s = CHR ''['' # v @ CHR '']'' # content @ t @ r" "to_lower t = to_lower (close_tag v)" "to_lower v \<in> set RICH_TAGS"
    using block_at_split[OF assms] by blast
  obtain r1 where c: "find_close (close_tag v) (content @ t @ r) = Some (content, r1)"
    using assms open_tag_takes[OF t(3)] unfolding t(1) by (auto simp: block_at_def split: option.splits)
  then have "r1 = t @ r" using find_close_split by blast
  then show ?thesis using t find_close_first[OF _ c[unfolded \<open>r1 = t @ r\<close>] t(2)] by (auto simp: close_tag_def)
qed

text \<open>The code reads a text as that and as nothing else.\<close>
lemma segments_written: "rich_text body (rich_segments body)"
proof (induction body rule: rich_segments.induct)
  case (1 body)
  show ?case
  proof (cases "next_block body")
    case None
    then show ?thesis using rich_text.ending[of body] rich_text.finished next_block_None[of body]
      by (simp add: rich_segments.simps[of body])
  next
    case (Some y)
    then obtain b v content r where y: "next_block body = Some (b, v, content, r)" by (cases y) auto
    then have ih: "rich_text r (rich_segments r)" using 1 by simp
    from iffD1[OF next_block_Some y] obtain x where x: "body = b @ x" "block_at x = Some (v, content, r)"
        "\<And>a u. b = a @ u \<Longrightarrow> u \<noteq> [] \<Longrightarrow> \<not> begins_block (u @ x)" by blast
    from block_at_first[OF x(2)] obtain t where t: "x = CHR ''['' # v @ CHR '']'' # content @ t @ r" "to_lower v \<in> set RICH_TAGS"
        "to_lower t = to_lower (close_tag v)" "\<not> occurs_ci (close_tag v) (content @ butlast t)" by blast
    have "rich_text (b @ (CHR ''['' # v @ CHR '']'' # content @ t) @ r)
        ((if b = [] then [] else [Markdown b]) @ Block v (trim content) # rich_segments r)"
      by (rule rich_text.tagged[OF t(2-4) refl _ ih]) (use x(3) t(1) in simp)
    moreover have "rich_segments body = (if b = [] then [] else [Markdown b]) @ Block v (trim content) # rich_segments r"
      using y by (simp add: rich_segments.simps[of body])
    ultimately show ?thesis using x(1) t(1) by simp
  qed
qed

lemma segments_unique: "rich_text body segs \<Longrightarrow> segs = rich_segments body"
proof (induction rule: rich_text.induct)
  case finished
  show ?case by (simp add: rich_segments.simps[of "[]"])
next
  case (ending b)
  then show ?case using next_block_None[of b] by (simp add: rich_segments.simps[of b])
next
  case (tagged v t content w b r segs)
  have "next_block (b @ w @ r) = Some (b, v, content, r)"
    using tagged.hyps(1-5) block_at_takes[OF tagged.hyps(1-3), of r] unfolding next_block_Some by (intro exI[of _ "w @ r"]) auto
  then show ?case using tagged.IH by (simp add: rich_segments.simps[of "b @ w @ r"])
qed

section \<open>Properties\<close>

text \<open>C25. A body has exactly one reading: its blocks are taken from left to right, each ends at the first closing tag of
  its name, and no complete block begins in what is left as Markdown, not even one that ends behind it. The code
  shows the segments of that reading, in order and without the blank ones.\<close>
theorem rich_blocks_found:
  "\<exists>segs. {x. rich_text body x} = {segs} \<and> splitRichMarkdown body = filter (\<lambda>s. trim (seg_body s) \<noteq> []) segs"
proof (intro exI conjI)
  show "{x. rich_text body x} = {rich_segments body}" using segments_written segments_unique by blast
  show "splitRichMarkdown body = filter (\<lambda>s. trim (seg_body s) \<noteq> []) (rich_segments body)"
    by (simp only: splitRichMarkdown_def)
qed

lemma trim_empty: "trim s = [] \<longleftrightarrow> (\<forall>c \<in> set s. is_space c)"
proof
  assume "\<forall>c \<in> set s. is_space c"
  then show "trim s = []" by (auto simp: trim_def dropWhile_eq_Nil_conv dest: set_dropWhileD)
next
  assume "trim s = []"
  then have "\<forall>c \<in> set (dropWhile is_space s). is_space c" by (auto simp: trim_def dropWhile_eq_Nil_conv)
  moreover have "set s = set (takeWhile is_space s) \<union> set (dropWhile is_space s)"
    by (metis set_append takeWhile_dropWhile_id)
  ultimately show "\<forall>c \<in> set s. is_space c" by (auto dest: set_takeWhileD)
qed

lemma dropWhile_keeps: "c \<in> set s \<Longrightarrow> \<not> P c \<Longrightarrow> c \<in> set (dropWhile P s)"
  by (induction s) auto

lemma trim_keeps: "c \<in> set s \<Longrightarrow> \<not> is_space c \<Longrightarrow> c \<in> set (trim s)"
  by (simp add: trim_def dropWhile_keeps)

lemma block_alone:
  assumes "to_lower v \<in> set RICH_TAGS" "CHR ''['' \<notin> set content" "trim content \<noteq> []"
  shows "splitRichMarkdown (CHR ''['' # v @ CHR '']'' # content @ close_tag v) = [Block v (trim content)]"
proof -
  let ?s = "CHR ''['' # v @ CHR '']'' # content @ close_tag v"
  have o: "open_tag ?s = Some (v, content @ close_tag v)" by (rule open_tag_takes[OF assms(1)])
  have self: "starts_ci (close_tag v) (close_tag v)" by (simp add: starts_ci_def)
  have nl: "lower_char c = CHR ''['' \<Longrightarrow> c = CHR ''[''" for c by (rule lower_char_fixed) (auto simp: char_code_def)
  have lb: "lower_char CHR ''['' = CHR ''[''" by (simp add: lower_char_def char_code_def)
  have f: "find_close (close_tag v) (w @ close_tag v) = Some (w, close_tag v)" if "CHR ''['' \<notin> set w" for w
    using that
  proof (induction w)
    case Nil
    then show ?case using self by (subst find_close.simps) simp
  next
    case (Cons c w)
    have "\<not> starts_ci (close_tag v) (c # w @ close_tag v)"
      using Cons.prems nl[of c] lb by (auto simp: starts_ci_def close_tag_def to_lower_def)
    then show ?case using Cons by (simp add: find_close.simps[of "close_tag v" "c # w @ close_tag v"])
  qed
  have b: "block_at ?s = Some (v, content, [])" using o f[OF assms(2)] by (simp add: block_at_def)
  have "next_block ?s = Some ([], v, content, [])" using b by simp
  moreover have "rich_segments [] = []" by (simp add: rich_segments.simps[of "[]"])
  ultimately have "rich_segments ?s = [Block v (trim content)]" by (simp add: rich_segments.simps[of ?s])
  moreover have "trim (trim content) \<noteq> []" using assms(3) trim_empty trim_keeps by metis
  ultimately show ?thesis by (simp add: splitRichMarkdown_def)
qed

text \<open>Tags are found in any case but their class is looked up as they were written: a block whose tag has a capital
  letter is shown with the class of large text, whatever the tag says.\<close>
theorem capital_tag_shown_large:
  assumes "to_lower v \<in> set RICH_TAGS" and "v \<notin> set RICH_TAGS" and "CHR ''['' \<notin> set content" and "trim content \<noteq> []"
  shows "\<exists>b. splitRichMarkdown (CHR ''['' # v @ CHR '']'' # content @ close_tag v) = [b]
    \<and> block_class (seg_variant b) = block_class ''large''"
  using block_alone[OF assms(1,3,4)] assms(2) by (auto simp: block_class_def RICH_TAGS_def)

theorem capital_tag_shown_large_witness:
  "\<exists>b. splitRichMarkdown ''[Small]x[/Small]'' = [b] \<and> block_class (seg_variant b) = ''text-[1.15em] leading-relaxed''"
proof -
  have "to_lower ''Small'' \<in> set RICH_TAGS" "''Small'' \<notin> set RICH_TAGS" "trim ''x'' \<noteq> []" by code_simp+
  moreover have "CHR ''['' \<notin> set ''x''" by simp
  ultimately show ?thesis using capital_tag_shown_large[of "''Small''" "''x''"] by (simp add: close_tag_def block_class_def)
qed

lemma match_urls_inside: "u \<in> set (match_urls s) \<Longrightarrow> \<exists>a b r. s = a @ b \<and> url_at b = Some (u, r)"
proof (induction s rule: match_urls.induct)
  case (1 s)
  show ?case
  proof (cases "url_at s")
    case None
    show ?thesis
    proof (cases s)
      case Nil
      then show ?thesis using 1(3) None by (simp add: match_urls.simps[of "[]"])
    next
      case (Cons c s')
      then have "u \<in> set (match_urls s')" using 1(3) None by (simp add: match_urls.simps[of "c # s'"])
      then obtain a b r where "s' = a @ b" "url_at b = Some (u, r)" using 1(1)[OF None Cons] by blast
      then show ?thesis using Cons by (intro exI[of _ "c # a"] exI[of _ b] exI[of _ r]) simp
    qed
  next
    case (Some x)
    then obtain v r where x: "url_at s = Some (v, r)" by (cases x) auto
    show ?thesis
    proof (cases "u = v")
      case True
      then show ?thesis using x by (intro exI[of _ "[]"] exI[of _ s] exI[of _ r]) simp
    next
      case False
      then obtain a b r' where "r = a @ b" "url_at b = Some (u, r')" using 1(2)[OF x refl] 1(3) x by (auto simp: match_urls.simps[of s])
      then show ?thesis using url_at_split[OF x] by (intro exI[of _ "v @ a"] exI[of _ b] exI[of _ r']) simp
    qed
  qed
qed

lemma url_at_shape:
  assumes "url_at s = Some (u, r)"
  shows "(starts_with ''http://'' u \<or> starts_with ''https://'' u) \<and> (\<forall>c \<in> set (drop 7 u). url_char1 c) \<and> url_char2 (last u)"
proof -
  define k :: nat where "k = (if starts_with ''https://'' s then 8 else 7)"
  define run where "run = takeWhile url_char1 (drop k s)"
  define body where "body = rev (dropWhile (\<lambda>c. \<not> url_char2 c) (rev run))"
  have u: "u = take k s @ body" "2 \<le> length body" "starts_with ''https://'' s \<or> starts_with ''http://'' s"
    using assms by (auto simp: url_at_def k_def run_def body_def Let_def split: if_splits)
  have tk: "take k s = (if starts_with ''https://'' s then ''https://'' else ''http://'')"
  proof -
    have "length ''https://'' = 8" "length ''http://'' = 7" by code_simp+
    then show ?thesis using u(3) by (simp only: k_def starts_with_def split: if_splits) argo
  qed
  have ne: "dropWhile (\<lambda>c. \<not> url_char2 c) (rev run) \<noteq> []" using u(2) unfolding body_def by (metis length_rev list.size(3) not_numeral_le_zero)
  have "url_char2 (last body)" using hd_dropWhile[OF ne] by (simp add: body_def last_rev ne)
  moreover have "body \<noteq> []" using u(2) by auto
  ultimately have l: "url_char2 (last u)" using u(1) by simp
  have "set body \<subseteq> set run" unfolding body_def using set_dropWhileD by fastforce
  then have "\<forall>c \<in> set body. url_char1 c" by (auto simp: run_def dest: set_takeWhileD)
  moreover have "url_char1 CHR ''/''" by code_simp
  ultimately have "\<forall>c \<in> set (drop 7 u). url_char1 c" using u(1) tk by (auto split: if_splits)
  then show ?thesis using l u(1) tk by (auto simp: starts_with_def split: if_splits)
qed

text \<open>At most three links of a body are previewed, each once; each stands in the body, begins with http or https,
  has no white space, angle bracket or quote in it and does not end in punctuation.\<close>
theorem previewed_urls:
  "length (extractUrls txt) \<le> 3 \<and> distinct (extractUrls txt) \<and> list_all (\<lambda>u. (\<exists>a b. txt = a @ u @ b)
     \<and> (starts_with ''http://'' u \<or> starts_with ''https://'' u) \<and> list_all url_char1 (drop 7 u) \<and> url_char2 (last u)) (extractUrls txt)"
proof -
  have "(\<exists>a b. txt = a @ u @ b) \<and> (starts_with ''http://'' u \<or> starts_with ''https://'' u) \<and> list_all url_char1 (drop 7 u) \<and> url_char2 (last u)"
    if "u \<in> set (extractUrls txt)" for u
  proof -
    have "u \<in> set (match_urls txt)" using that in_set_takeD[of u 3 "firsts (match_urls txt)"] by (simp add: extractUrls_def)
    then obtain a b r where b: "txt = a @ b" "url_at b = Some (u, r)" using match_urls_inside by blast
    then show ?thesis using url_at_split[OF b(2)] url_at_shape[OF b(2)] by (auto simp: list_all_iff)
  qed
  moreover have "distinct (extractUrls txt)" by (simp add: extractUrls_def distinct_take)
  ultimately show ?thesis by (auto simp: list_all_iff extractUrls_def)
qed

lemma guarded_Inr: "(if c then Inl e else x) = Inr v \<longleftrightarrow> \<not> c \<and> x = Inr v"
  by simp

lemma guarded_case: "(case y of None \<Rightarrow> Inl e | Some a \<Rightarrow> f a) = Inr v \<longleftrightarrow> (\<exists>a. y = Some a \<and> f a = Inr v)"
  by (cases y) auto

lemma guarded_error: "(case y of None \<Rightarrow> x | Some e \<Rightarrow> Inl e) = Inr v \<longleftrightarrow> y = None \<and> x = Inr v"
  by (cases y) auto

lemma all_strings: "list_all (\<lambda>l. as_str (Some l) \<noteq> None) xs \<longleftrightarrow> (\<exists>ls. xs = map JStr ls)"
proof (induction xs)
  case (Cons x xs)
  have "as_str (Some x) \<noteq> None \<longleftrightarrow> (\<exists>l. x = JStr l)" by (cases x) auto
  then show ?case using Cons by (auto simp: Cons_eq_map_conv)
qed simp

lemma all_numbers: "list_all is_number xs \<longleftrightarrow> (\<exists>ns. xs = map JNum ns)"
proof (induction xs)
  case (Cons x xs)
  have "is_number x \<longleftrightarrow> (\<exists>n. x = JNum n)" by (cases x) (auto simp: is_number_def)
  then show ?case using Cons by (auto simp: Cons_eq_map_conv)
qed simp

lemma jget_object: "jget v k = Some x \<Longrightarrow> nonnull_object (Some v)"
  by (cases v) (auto simp: nonnull_object_def)

text \<open>A dataset is a number for each label.\<close>
definition dataset_fits :: "nat \<Rightarrow> json \<Rightarrow> bool" where
  "dataset_fits n ds = (\<exists>ns. jget ds ''data'' = Some (JArr (map JNum ns)) \<and> length ns = n)"

lemma check_datasets_none: "check_datasets n i dss = None \<longleftrightarrow> list_all (dataset_fits n) dss"
proof (induction n i dss rule: check_datasets.induct)
  case (2 n i ds dss)
  show ?case
  proof (cases "as_arr (jget ds ''data'')")
    case None
    then have "\<not> dataset_fits n ds" by (auto simp: dataset_fits_def)
    then show ?thesis using None by simp
  next
    case (Some xs)
    then have x: "jget ds ''data'' = Some (JArr xs)" by simp
    have o: "nonnull_object (Some ds)" by (rule jget_object[OF x])
    have "dataset_fits n ds \<longleftrightarrow> list_all is_number xs \<and> length xs = n"
      using x by (auto simp: dataset_fits_def all_numbers)
    then show ?thesis using 2 o Some by auto
  qed
qed simp

text \<open>The chart attachments that are drawn are exactly the objects with a known type, a list of strings as labels,
  at least one dataset and in each dataset as many numbers as there are labels, and the options and title, where
  there are any, an object and a string; the attachment is drawn as it came.\<close>
theorem chart_accepted:
  "validateChartAttachment raw = Inr v \<longleftrightarrow> raw = Some v \<and> list_ex (\<lambda>ty. jget v ''type'' = Some ty) CHART_TYPES
    \<and> (\<exists>d labels datasets. jget v ''data'' = Some d \<and> jget d ''labels'' = Some (JArr (map JStr labels))
        \<and> jget d ''datasets'' = Some (JArr datasets) \<and> datasets \<noteq> [] \<and> list_all (dataset_fits (length labels)) datasets)
    \<and> (jget v ''options'' = None \<or> nonnull_object (jget v ''options''))
    \<and> (jget v ''title'' = None \<or> (\<exists>t. jget v ''title'' = Some (JStr t)))"
  (is "?accepted \<longleftrightarrow> ?fit")
proof (cases raw)
  case None
  then show ?thesis by (simp add: validateChartAttachment_def)
next
  case (Some r)
  have title: "as_str (jget r ''title'') = None \<longleftrightarrow> \<not> (\<exists>t. jget r ''title'' = Some (JStr t))"
    by (metis as_str_Some option.exhaust option.distinct(1))
  have drawn: "?accepted \<longleftrightarrow> nonnull_object (Some r) \<and> list_ex (\<lambda>ty. jget r ''type'' = Some ty) CHART_TYPES
    \<and> nonnull_object (jget r ''data'') \<and> (\<exists>labels. as_arr (jopt (jget r ''data'') ''labels'') = Some labels
      \<and> list_all (\<lambda>l. as_str (Some l) \<noteq> None) labels \<and> (\<exists>datasets. as_arr (jopt (jget r ''data'') ''datasets'') = Some datasets
        \<and> datasets \<noteq> [] \<and> check_datasets (length labels) 0 datasets = None
        \<and> (jget r ''options'' = None \<or> nonnull_object (jget r ''options''))
        \<and> (jget r ''title'' = None \<or> as_str (jget r ''title'') \<noteq> None) \<and> r = v))"
    unfolding validateChartAttachment_def Some option.case(2) guarded_Inr guarded_case guarded_error sum.inject by (simp only: not_not de_Morgan_conj)
  have inside: "jopt (jget r ''data'') k = Some x \<longleftrightarrow> (\<exists>d. jget r ''data'' = Some d \<and> jget d k = Some x)" for k x
    by (simp add: jopt_def split: option.splits)
  note plain = drawn[unfolded all_strings check_datasets_none as_arr_Some inside]
  show ?thesis
  proof
    assume ?accepted
    then obtain ls datasets d d' where d: "jget r ''data'' = Some d" "jget d ''labels'' = Some (JArr (map JStr ls))"
        "jget r ''data'' = Some d'" "jget d' ''datasets'' = Some (JArr datasets)" "datasets \<noteq> []"
        "list_all (dataset_fits (length (map JStr ls))) datasets"
      and o: "list_ex (\<lambda>ty. jget r ''type'' = Some ty) CHART_TYPES" "jget r ''options'' = None \<or> nonnull_object (jget r ''options'')"
        "jget r ''title'' = None \<or> as_str (jget r ''title'') \<noteq> None" "r = v"
      unfolding plain by blast
    have "\<exists>d labels datasets. jget r ''data'' = Some d \<and> jget d ''labels'' = Some (JArr (map JStr labels))
        \<and> jget d ''datasets'' = Some (JArr datasets) \<and> datasets \<noteq> [] \<and> list_all (dataset_fits (length labels)) datasets"
      using d by (intro exI[of _ d] exI[of _ ls] exI[of _ datasets]) simp
    then show ?fit using o(1,2,3) Some unfolding o(4) title[unfolded o(4)] by simp
  next
    assume f: ?fit
    have v: "v = r" using f Some by simp
    obtain d ls datasets where d: "jget r ''data'' = Some d" "jget d ''labels'' = Some (JArr (map JStr ls))"
        "jget d ''datasets'' = Some (JArr datasets)" "datasets \<noteq> []" "list_all (dataset_fits (length ls)) datasets"
      using f unfolding v by blast
    note d5 = d(5)[folded length_map[of JStr ls]]
    have n: "nonnull_object (Some r)" "nonnull_object (jget r ''data'')" using jget_object[OF d(1)] jget_object[OF d(2)] d(1) by simp_all
    show ?accepted unfolding plain using f n d(1-4) d5 unfolding v title by blast
  qed
qed

text \<open>Just under a megabyte is shown as 1024 kilobytes: the unit is chosen before rounding.\<close>
lemma kilobytes_round_up: "formatSize 1048575 = ''1024.0 KB''"
  by code_simp

lemma empty_file_shows_zero:
  "cm_redacted m = False \<Longrightarrow> cm_msgtype m = ''m.file'' \<Longrightarrow> cm_url m = Some (c # u) \<Longrightarrow> cm_info m = Some (JObj [(''size'', JNum 0)])
    \<Longrightarrow> MessageContent m = ShownFile (c # u) (cm_body m) (Some ''0'')"
  by (simp add: MessageContent_def shown_size_def jopt_def Let_def)

end
