(* ===== verification/BrowserNode.thy ===== *)
theory BrowserNode
  imports Prelude "HOL-Library.Multiset"
begin

text \<open>
  The peer-to-peer node of a browser tab: \<open>libp2p/node.ts\<close> and \<open>libp2p/identity.ts\<close> with their module
  variables, the lazily fetched chunk of \<open>libp2p/lazyNode.ts\<close>, and the hook \<open>hooks/useBrowserLibp2p.ts\<close> its users
  mount. Key generation, node creation, stopping and the chunk are answered by events. A start under way is a record of
  its own with its phase and those who await it, and there may be any number of them: that there is only one follows
  from the guards of the code. A handle is its number and the key it was created with. A call is an event at
  the moment its module is there: the turns of the microtask queue before it are not counted.
\<close>

type_synonym handle = "nat \<times> nat"

datatype BrowserLibp2pStatus = NodeIdle | NodeStarting | NodeRunning | NodeError str

text \<open>Where the body of a start is: at the generation of its key, at the call of the factory, at the factory's answer,
  settled with those who await it not yet resumed.\<close>
datatype start_phase = AwaitingKey | HasKey nat | AwaitingNode nat | StartSettled "str + handle"

datatype node_chunk = NotLoaded | Loading | Loaded | LoadFailed str

text \<open>A user of the hook: an automatic start at mount looks whether it is still mounted, a called one does not.\<close>
datatype chunk_waiter = WantStart nat bool | WantStop nat

record node_start =
  st_id :: nat
  st_phase :: start_phase
  st_waiters :: "(nat \<times> bool) list"

text \<open>\<open>nw_starting\<close> is the variable \<open>starting\<close>, the promise by the number of its start.\<close>
record NodeWorld =
  nw_chunk :: node_chunk
  nw_waiting :: "chunk_waiter list"
  nw_identity :: "nat option"
  nw_generating :: nat
  nw_starting :: "nat option"
  nw_starts :: "node_start list"
  nw_next :: nat
  nw_node :: "handle option"
  nw_stopping :: "(handle \<times> nat) list"
  nw_created :: "handle list"
  nw_stopped :: "handle list"
  nw_status :: "nat \<Rightarrow> BrowserLibp2pStatus"
  nw_unmounted :: "nat list"

definition initialNode :: NodeWorld where
  "initialNode = \<lparr>nw_chunk = NotLoaded, nw_waiting = [], nw_identity = None, nw_generating = 0, nw_starting = None,
     nw_starts = [], nw_next = 0, nw_node = None, nw_stopping = [], nw_created = [], nw_stopped = [], nw_status = (\<lambda>c. NodeIdle), nw_unmounted = []\<rparr>"

section \<open>Identity\<close>

text \<open>\<open>getBrowserIdentity\<close> called for display: the cached one, or a generation of its own.\<close>
definition getBrowserIdentity :: "NodeWorld \<Rightarrow> NodeWorld" where
  "getBrowserIdentity w = (if nw_identity w \<noteq> None then w else w\<lparr>nw_generating := Suc (nw_generating w)\<rparr>)"

definition identityGenerated :: "nat option \<Rightarrow> NodeWorld \<Rightarrow> NodeWorld" where
  "identityGenerated key w = w\<lparr>nw_generating := nw_generating w - 1,
     nw_identity := (case key of None \<Rightarrow> nw_identity w | Some k \<Rightarrow> Some k)\<rparr>"

definition resetBrowserIdentity :: "NodeWorld \<Rightarrow> NodeWorld" where
  "resetBrowserIdentity w = w\<lparr>nw_identity := None\<rparr>"

section \<open>The node\<close>

definition set_status :: "nat \<Rightarrow> bool \<Rightarrow> BrowserLibp2pStatus \<Rightarrow> NodeWorld \<Rightarrow> NodeWorld" where
  "set_status c auto st w = (if auto \<and> c \<in> set (nw_unmounted w) then w else w\<lparr>nw_status := (nw_status w)(c := st)\<rparr>)"

definition on_start :: "nat \<Rightarrow> (node_start \<Rightarrow> node_start) \<Rightarrow> NodeWorld \<Rightarrow> NodeWorld" where
  "on_start i f w = w\<lparr>nw_starts := map (\<lambda>s. if st_id s = i then f s else s) (nw_starts w)\<rparr>"

definition set_phase :: "nat \<Rightarrow> start_phase \<Rightarrow> NodeWorld \<Rightarrow> NodeWorld" where
  "set_phase i ph = on_start i (\<lambda>s. s\<lparr>st_phase := ph\<rparr>)"

definition phase_of :: "nat \<Rightarrow> NodeWorld \<Rightarrow> start_phase option" where
  "phase_of i w = map_option st_phase (find (\<lambda>s. st_id s = i) (nw_starts w))"

definition waiters_of :: "nat \<Rightarrow> NodeWorld \<Rightarrow> (nat \<times> bool) list" where
  "waiters_of i w = concat (map st_waiters (filter (\<lambda>s. st_id s = i) (nw_starts w)))"

text \<open>\<open>startBrowserNode\<close>, called for a user.\<close>
definition startBrowserNode :: "nat \<Rightarrow> bool \<Rightarrow> NodeWorld \<Rightarrow> NodeWorld" where
  "startBrowserNode c auto w =
    (if nw_node w \<noteq> None then set_status c auto NodeRunning w
     else case nw_starting w of
       Some i \<Rightarrow> on_start i (\<lambda>s. s\<lparr>st_waiters := st_waiters s @ [(c, auto)]\<rparr>) w
     | None \<Rightarrow> w\<lparr>nw_starting := Some (nw_next w), nw_next := Suc (nw_next w), nw_starts := nw_starts w @
         [\<lparr>st_id = nw_next w, st_phase = (case nw_identity w of None \<Rightarrow> AwaitingKey | Some k \<Rightarrow> HasKey k), st_waiters = [(c, auto)]\<rparr>]\<rparr>)"

text \<open>The pieces of start \<open>i\<close> between its awaits. Its caller forgets the promise, whichever is there by then.\<close>
definition keyForNode :: "nat \<Rightarrow> str + nat \<Rightarrow> NodeWorld \<Rightarrow> NodeWorld" where
  "keyForNode i answer w = (case answer of Inl err \<Rightarrow> set_phase i (StartSettled (Inl err)) w
     | Inr k \<Rightarrow> set_phase i (HasKey k) (w\<lparr>nw_identity := Some k\<rparr>))"

definition callFactory :: "nat \<Rightarrow> nat \<Rightarrow> NodeWorld \<Rightarrow> NodeWorld" where
  "callFactory i k w = set_phase i (AwaitingNode k) w"

definition nodeCreated :: "nat \<Rightarrow> nat \<Rightarrow> str + nat \<Rightarrow> NodeWorld \<Rightarrow> NodeWorld" where
  "nodeCreated i k answer w = (case answer of Inl err \<Rightarrow> set_phase i (StartSettled (Inl err)) w
     | Inr n \<Rightarrow> set_phase i (StartSettled (Inr (n, k))) (w\<lparr>nw_node := Some (n, k), nw_created := nw_created w @ [(n, k)]\<rparr>))"

definition startFinished :: "nat \<Rightarrow> str + handle \<Rightarrow> NodeWorld \<Rightarrow> NodeWorld" where
  "startFinished i result w =
    fold (\<lambda>(c, auto). set_status c auto (case result of Inl err \<Rightarrow> NodeError err | Inr h \<Rightarrow> NodeRunning)) (waiters_of i w)
      (w\<lparr>nw_starting := None, nw_starts := filter (\<lambda>s. st_id s \<noteq> i) (nw_starts w)\<rparr>)"

text \<open>\<open>stopBrowserNode\<close>; the user is idle when it has returned.\<close>
definition stopBrowserNode :: "nat \<Rightarrow> NodeWorld \<Rightarrow> NodeWorld" where
  "stopBrowserNode c w = (case nw_node w of None \<Rightarrow> set_status c False NodeIdle w
     | Some h \<Rightarrow> w\<lparr>nw_node := None, nw_stopping := nw_stopping w @ [(h, c)]\<rparr>)"

definition nodeStopped :: "handle \<Rightarrow> nat \<Rightarrow> NodeWorld \<Rightarrow> NodeWorld" where
  "nodeStopped h c w = set_status c False NodeIdle (w\<lparr>nw_stopping := remove1 (h, c) (nw_stopping w), nw_stopped := nw_stopped w @ [h]\<rparr>)"

definition getNode :: "NodeWorld \<Rightarrow> handle option" where
  "getNode w = nw_node w"

section \<open>The lazy chunk and the hook\<close>

definition loadNodeModule :: "NodeWorld \<Rightarrow> NodeWorld" where
  "loadNodeModule w = (if nw_chunk w = NotLoaded then w\<lparr>nw_chunk := Loading\<rparr> else w)"

fun run_waiter :: "chunk_waiter \<Rightarrow> NodeWorld \<Rightarrow> NodeWorld" where
  "run_waiter (WantStart c auto) w = startBrowserNode c auto w"
| "run_waiter (WantStop c) w = stopBrowserNode c w"

fun fail_waiter :: "str \<Rightarrow> chunk_waiter \<Rightarrow> NodeWorld \<Rightarrow> NodeWorld" where
  "fail_waiter err (WantStart c auto) w = set_status c auto (NodeError err) w"
| "fail_waiter err (WantStop c) w = set_status c False NodeIdle w"

text \<open>Awaiting the cached promise of the chunk.\<close>
definition await_chunk :: "chunk_waiter \<Rightarrow> NodeWorld \<Rightarrow> NodeWorld" where
  "await_chunk x w = (case nw_chunk w of Loaded \<Rightarrow> run_waiter x w
     | LoadFailed err \<Rightarrow> fail_waiter err x w
     | _ \<Rightarrow> w\<lparr>nw_waiting := nw_waiting w @ [x]\<rparr>)"

definition ensureBrowserNode :: "nat \<Rightarrow> bool \<Rightarrow> NodeWorld \<Rightarrow> NodeWorld" where
  "ensureBrowserNode c auto w = await_chunk (WantStart c auto) (loadNodeModule w)"

definition stopBrowserNodeIfStarted :: "nat \<Rightarrow> NodeWorld \<Rightarrow> NodeWorld" where
  "stopBrowserNodeIfStarted c w = (if nw_chunk w = NotLoaded then set_status c False NodeIdle w else await_chunk (WantStop c) w)"

text \<open>\<open>None\<close> while the chunk is on its way; a chunk that failed makes the call throw.\<close>
definition getBrowserNodeIfStarted :: "NodeWorld \<Rightarrow> (str + handle option) option" where
  "getBrowserNodeIfStarted w = (case nw_chunk w of NotLoaded \<Rightarrow> Some (Inr None) | Loading \<Rightarrow> None
     | Loaded \<Rightarrow> Some (Inr (getNode w)) | LoadFailed err \<Rightarrow> Some (Inl err))"

definition chunkLoaded :: "NodeWorld \<Rightarrow> NodeWorld" where
  "chunkLoaded w = fold run_waiter (nw_waiting w) (w\<lparr>nw_chunk := Loaded, nw_waiting := []\<rparr>)"

definition chunkFailed :: "str \<Rightarrow> NodeWorld \<Rightarrow> NodeWorld" where
  "chunkFailed err w = fold (fail_waiter err) (nw_waiting w) (w\<lparr>nw_chunk := LoadFailed err, nw_waiting := []\<rparr>)"

text \<open>\<open>start\<close> and the effect of a mount with \<open>enabled\<close>; on the native shell both return at once.\<close>
definition hookStart :: "nat \<Rightarrow> bool \<Rightarrow> NodeWorld \<Rightarrow> NodeWorld" where
  "hookStart c auto w = ensureBrowserNode c auto (set_status c False NodeStarting w)"

definition hookUnmount :: "nat \<Rightarrow> NodeWorld \<Rightarrow> NodeWorld" where
  "hookUnmount c w = w\<lparr>nw_unmounted := c # nw_unmounted w\<rparr>"

section \<open>Runs\<close>

datatype node_event =
    Start nat bool | Stop nat | Unmount nat | ShowIdentity | ShownKey "nat option"
  | ChunkArrived "str option" | NodeKey nat "str + nat" | FactoryCalled nat | FactoryAnswered nat "str + nat" | Settled nat | StopDone handle nat

fun node_step :: "node_event \<Rightarrow> NodeWorld \<Rightarrow> NodeWorld option" where
  "node_step (Start c auto) w = Some (hookStart c auto w)"
| "node_step (Stop c) w = Some (stopBrowserNodeIfStarted c w)"
| "node_step (Unmount c) w = Some (hookUnmount c w)"
| "node_step ShowIdentity w = Some (getBrowserIdentity w)"
| "node_step (ShownKey key) w = (if nw_generating w = 0 then None else Some (identityGenerated key w))"
| "node_step (ChunkArrived failure) w = (if nw_chunk w \<noteq> Loading then None
     else Some (case failure of None \<Rightarrow> chunkLoaded w | Some err \<Rightarrow> chunkFailed err w))"
| "node_step (NodeKey i answer) w = (if phase_of i w = Some AwaitingKey then Some (keyForNode i answer w) else None)"
| "node_step (FactoryCalled i) w = (case phase_of i w of Some (HasKey k) \<Rightarrow> Some (callFactory i k w) | _ \<Rightarrow> None)"
| "node_step (FactoryAnswered i answer) w = (case phase_of i w of Some (AwaitingNode k) \<Rightarrow> Some (nodeCreated i k answer w) | _ \<Rightarrow> None)"
| "node_step (Settled i) w = (case phase_of i w of Some (StartSettled result) \<Rightarrow> Some (startFinished i result w) | _ \<Rightarrow> None)"
| "node_step (StopDone h c) w = (if (h, c) \<in> set (nw_stopping w) then Some (nodeStopped h c w) else None)"

inductive node_reach :: "NodeWorld \<Rightarrow> bool" where
  fresh_tab: "node_reach initialNode"
| stepped: "node_reach w \<Longrightarrow> node_step e w = Some w' \<Longrightarrow> node_reach w'"

section \<open>One node at a time\<close>

text \<open>Handles that are neither stopped nor being stopped.\<close>
definition running :: "NodeWorld \<Rightarrow> handle multiset" where
  "running w = mset (nw_created w) - mset (nw_stopped w) - mset (map fst (nw_stopping w))"

definition in_creation :: "node_start \<Rightarrow> bool" where
  "in_creation s = (case st_phase s of AwaitingKey \<Rightarrow> True | HasKey _ \<Rightarrow> True | AwaitingNode _ \<Rightarrow> True | _ \<Rightarrow> False)"

text \<open>The starts whose node is still to come.\<close>
definition creating :: "NodeWorld \<Rightarrow> node_start list" where
  "creating w = filter in_creation (nw_starts w)"

text \<open>The promise of the module is the one start there is.\<close>
definition single :: "NodeWorld \<Rightarrow> bool" where
  "single w = (nw_starts w = [] \<and> nw_starting w = None \<or> (\<exists>s. nw_starts w = [s] \<and> nw_starting w = Some (st_id s)))"

lemma single_cases:
  assumes "single w"
  obtains "nw_starts w = []" "nw_starting w = None" | s where "nw_starts w = [s]" "nw_starting w = Some (st_id s)"
  using assms by (auto simp: single_def)

text \<open>The accounts: every node created is the current one, or is being stopped, or is stopped.\<close>
definition accounted :: "NodeWorld \<Rightarrow> bool" where
  "accounted w = (mset (nw_created w) = mset (nw_stopped w) + mset (map fst (nw_stopping w)) + mset (case nw_node w of None \<Rightarrow> [] | Some h \<Rightarrow> [h])
     \<and> (creating w \<noteq> [] \<longrightarrow> nw_node w = None) \<and> single w)"

text \<open>What the accounts look at.\<close>
definition books :: "NodeWorld \<Rightarrow> nat option \<times> node_start list \<times> handle option \<times> (handle \<times> nat) list \<times> handle list \<times> handle list" where
  "books w = (nw_starting w, nw_starts w, nw_node w, nw_stopping w, nw_created w, nw_stopped w)"

lemma books_accounted: "books w' = books w \<Longrightarrow> accounted w' = accounted w"
  by (simp add: books_def accounted_def creating_def single_def)

lemma set_status_books [simp]: "books (set_status c auto st w) = books w"
  by (simp add: set_status_def books_def)

lemma set_status_parts [simp]:
  "nw_chunk (set_status c auto st w) = nw_chunk w" "nw_node (set_status c auto st w) = nw_node w"
  "nw_starting (set_status c auto st w) = nw_starting w" "nw_identity (set_status c auto st w) = nw_identity w"
  "nw_waiting (set_status c auto st w) = nw_waiting w" "nw_starts (set_status c auto st w) = nw_starts w"
  "nw_generating (set_status c auto st w) = nw_generating w" "nw_stopping (set_status c auto st w) = nw_stopping w"
  "nw_created (set_status c auto st w) = nw_created w" "nw_stopped (set_status c auto st w) = nw_stopped w"
  by (simp_all add: set_status_def)

lemma fold_keeps: "(\<And>x w. x \<in> set xs \<Longrightarrow> P w \<Longrightarrow> P (f x w)) \<Longrightarrow> P w \<Longrightarrow> P (fold f xs w)"
  by (induction xs arbitrary: w) auto

lemma start_accounted: "accounted w \<Longrightarrow> accounted (startBrowserNode c auto w)"
  by (cases "nw_starts w")
    (auto simp: startBrowserNode_def books_accounted[OF set_status_books] accounted_def creating_def single_def in_creation_def
       on_start_def split: option.splits if_splits)

lemma stop_accounted: "accounted w \<Longrightarrow> accounted (stopBrowserNode c w)"
  by (auto simp: stopBrowserNode_def books_accounted[OF set_status_books] accounted_def creating_def single_def split: option.splits)

lemma run_waiter_accounted: "accounted w \<Longrightarrow> accounted (run_waiter x w)"
  by (cases x) (simp_all add: start_accounted stop_accounted)

lemma fail_waiter_accounted: "accounted (fail_waiter err x w) = accounted w"
  by (cases x) (simp_all add: books_accounted[OF set_status_books])

lemma await_accounted:
  assumes "accounted w"
  shows "accounted (await_chunk x w)"
proof -
  have "books (w\<lparr>nw_waiting := ws\<rparr>) = books w" for ws by (simp add: books_def)
  then have "accounted (w\<lparr>nw_waiting := ws\<rparr>)" for ws using assms books_accounted by blast
  then show ?thesis
    using assms run_waiter_accounted[OF assms, of x] fail_waiter_accounted[of _ x w] unfolding await_chunk_def
    by (cases "nw_chunk w") simp_all
qed

text \<open>The one start there is, when an answer reaches it.\<close>
lemma phase_single:
  assumes "single w" "phase_of i w = Some ph"
  obtains ws where "nw_starts w = [\<lparr>st_id = i, st_phase = ph, st_waiters = ws\<rparr>]" "nw_starting w = Some i"
proof -
  obtain st where "nw_starts w = [st]" "nw_starting w = Some (st_id st)" "st_id st = i" "st_phase st = ph"
    using assms by (auto simp: phase_of_def elim!: single_cases split: if_splits)
  then show ?thesis using that[of "st_waiters st"] by (cases st) auto
qed

lemma accounted_single: "accounted w \<Longrightarrow> single w"
  by (simp add: accounted_def)

lemmas start_piece_defs = keyForNode_def callFactory_def nodeCreated_def set_phase_def on_start_def

lemma startFinished_books:
  "books (startFinished i r w) = books (w\<lparr>nw_starting := None, nw_starts := filter (\<lambda>s. st_id s \<noteq> i) (nw_starts w)\<rparr>)"
proof -
  have "books (fold (\<lambda>(c, auto). set_status c auto st) xs v) = books v" for st xs v
    by (induction xs arbitrary: v) auto
  then show ?thesis by (simp add: startFinished_def)
qed

lemma step_accounted: "node_step e w = Some w' \<Longrightarrow> accounted w \<Longrightarrow> accounted w'"
proof (induction e w rule: node_step.induct)
  case (1 c auto w)
  then show ?case
    by (auto simp: hookStart_def ensureBrowserNode_def loadNodeModule_def intro!: await_accounted)
      (auto simp: accounted_def creating_def single_def set_status_def)
next
  case (2 c w)
  then show ?case by (auto simp: stopBrowserNodeIfStarted_def books_accounted[OF set_status_books] intro: await_accounted split: if_splits)
next
  case (6 failure w)
  have "accounted (w\<lparr>nw_chunk := ch, nw_waiting := []\<rparr>)" for ch using 6 by (simp add: accounted_def creating_def single_def)
  then have "accounted (chunkLoaded w)" "accounted (chunkFailed err w)" for err
    unfolding chunkLoaded_def chunkFailed_def
    by (auto intro!: fold_keeps[where P = accounted] simp: run_waiter_accounted fail_waiter_accounted)
  then show ?case using 6 by (auto split: if_splits option.splits)
next
  case (7 i answer w)
  then have "phase_of i w = Some AwaitingKey" by (auto split: if_splits)
  from phase_single[OF accounted_single[OF 7(2)] this] obtain ws
    where "nw_starts w = [\<lparr>st_id = i, st_phase = AwaitingKey, st_waiters = ws\<rparr>]" "nw_starting w = Some i" .
  then show ?case using 7 by (cases answer) (auto simp: start_piece_defs accounted_def creating_def single_def in_creation_def split: if_splits)
next
  case (8 i w)
  then obtain k where k: "phase_of i w = Some (HasKey k)" by (auto split: option.splits start_phase.splits)
  from phase_single[OF accounted_single[OF 8(2)] this] obtain ws
    where "nw_starts w = [\<lparr>st_id = i, st_phase = HasKey k, st_waiters = ws\<rparr>]" "nw_starting w = Some i" .
  then show ?case using 8 k by (auto simp: start_piece_defs accounted_def creating_def single_def in_creation_def)
next
  case (9 i answer w)
  then obtain k where k: "phase_of i w = Some (AwaitingNode k)" by (auto split: option.splits start_phase.splits)
  from phase_single[OF accounted_single[OF 9(2)] this] obtain ws
    where "nw_starts w = [\<lparr>st_id = i, st_phase = AwaitingNode k, st_waiters = ws\<rparr>]" "nw_starting w = Some i" .
  then show ?case using 9 k by (cases answer) (auto simp: start_piece_defs accounted_def creating_def single_def in_creation_def)
next
  case (10 i w)
  then obtain r where r: "phase_of i w = Some (StartSettled r)" "w' = startFinished i r w" by (auto split: option.splits start_phase.splits)
  from phase_single[OF accounted_single[OF 10(2)] r(1)] obtain ws
    where "nw_starts w = [\<lparr>st_id = i, st_phase = StartSettled r, st_waiters = ws\<rparr>]" "nw_starting w = Some i" .
  then show ?case using 10(2) unfolding r(2) books_accounted[OF startFinished_books]
    by (auto simp: accounted_def creating_def single_def)
next
  case (11 h c w)
  have "image_mset fst (mset (nw_stopping w)) = image_mset fst (mset (remove1 (h, c) (nw_stopping w))) + {#h#}"
    using 11 by (auto simp: split: if_splits) (metis add_mset_remove_trivial_If fst_conv image_mset_add_mset insert_DiffM set_mset_mset)
  then show ?case using 11 by (auto simp: nodeStopped_def books_accounted[OF set_status_books] accounted_def creating_def single_def split: if_splits)
qed (auto simp: accounted_def creating_def single_def hookUnmount_def getBrowserIdentity_def identityGenerated_def
      split: if_splits option.splits)

lemma reach_accounted: "node_reach w \<Longrightarrow> accounted w"
proof (induction rule: node_reach.induct)
  case fresh_tab
  then show ?case by (simp add: accounted_def creating_def single_def initialNode_def)
next
  case (stepped w e w')
  then show ?case using step_accounted by blast
qed

fun run_node :: "node_event list \<Rightarrow> NodeWorld \<Rightarrow> NodeWorld option" where
  "run_node [] w = Some w"
| "run_node (e # es) w = (case node_step e w of None \<Rightarrow> None | Some w' \<Rightarrow> run_node es w')"

lemma run_reach: "run_node es w = Some w' \<Longrightarrow> node_reach w \<Longrightarrow> node_reach w'"
  by (induction es arbitrary: w) (auto split: option.splits intro: stepped)

lemma run_keeps:
  assumes "\<And>e w w'. e \<in> set es \<Longrightarrow> P w \<Longrightarrow> node_step e w = Some w' \<Longrightarrow> P w'" and "run_node es w = Some w'" and "P w"
  shows "P w'"
  using assms
proof (induction es arbitrary: w)
  case (Cons e es)
  then obtain w1 where w1: "node_step e w = Some w1" "run_node es w1 = Some w'" by (auto split: option.splits)
  show ?case
  proof (rule Cons.IH)
    show "P w1" using Cons.prems(1)[of e w w1] Cons.prems(3) w1(1) by simp
    show "run_node es w1 = Some w'" by (rule w1(2))
  qed (use Cons.prems(1) in auto)
qed simp

text \<open>Without identities asked for display: the cached key is the one of the node and of the node to come.\<close>
definition keys_agree :: "NodeWorld \<Rightarrow> bool" where
  "keys_agree w = (nw_generating w = 0 \<and> (\<forall>h. nw_node w = Some h \<longrightarrow> nw_identity w = Some (snd h))
    \<and> (\<forall>s \<in> set (nw_starts w). (st_phase s = AwaitingKey \<longrightarrow> nw_identity w = None \<and> nw_node w = None)
        \<and> (\<forall>k. st_phase s = HasKey k \<or> st_phase s = AwaitingNode k \<longrightarrow> nw_identity w = Some k)) \<and> single w)"

definition key_books :: "NodeWorld \<Rightarrow> nat \<times> handle option \<times> nat option \<times> nat option \<times> node_start list" where
  "key_books w = (nw_generating w, nw_node w, nw_identity w, nw_starting w, nw_starts w)"

lemma key_books_agree: "key_books w' = key_books w \<Longrightarrow> keys_agree w' = keys_agree w"
  by (simp add: key_books_def keys_agree_def single_def)

lemma set_status_key_books [simp]: "key_books (set_status c auto st w) = key_books w"
  by (simp add: set_status_def key_books_def)

lemma run_waiter_agree: "keys_agree w \<Longrightarrow> keys_agree (run_waiter x w)"
proof (cases x)
  case (WantStart c auto)
  assume a: "keys_agree w"
  show ?thesis unfolding WantStart using a
    by (cases "nw_node w"; cases "nw_starts w")
      (auto simp: startBrowserNode_def key_books_agree[OF set_status_key_books] keys_agree_def single_def on_start_def
         split: option.splits start_phase.splits)
next
  case (WantStop c)
  assume a: "keys_agree w"
  show ?thesis unfolding WantStop using a
    by (cases "nw_node w") (auto simp: stopBrowserNode_def key_books_agree[OF set_status_key_books] keys_agree_def single_def split: start_phase.splits)
qed

lemma fail_waiter_agree: "keys_agree (fail_waiter err x w) = keys_agree w"
  by (cases x) (simp_all add: key_books_agree[OF set_status_key_books])

lemma await_agree:
  assumes "keys_agree w"
  shows "keys_agree (await_chunk x w)"
proof -
  have "key_books (w\<lparr>nw_waiting := ws\<rparr>) = key_books w" for ws by (simp add: key_books_def)
  then have "keys_agree (w\<lparr>nw_waiting := ws\<rparr>)" for ws using assms key_books_agree by blast
  then show ?thesis
    using assms run_waiter_agree[OF assms, of x] fail_waiter_agree[of _ x w] unfolding await_chunk_def
    by (cases "nw_chunk w") simp_all
qed

lemma startFinished_key_books:
  "key_books (startFinished i r w) = key_books (w\<lparr>nw_starting := None, nw_starts := filter (\<lambda>s. st_id s \<noteq> i) (nw_starts w)\<rparr>)"
proof -
  have "key_books (fold (\<lambda>(c, auto). set_status c auto st) xs v) = key_books v" for st xs v
    by (induction xs arbitrary: v) auto
  then show ?thesis by (simp add: startFinished_def)
qed

lemma keys_agree_single: "keys_agree w \<Longrightarrow> single w"
  by (simp add: keys_agree_def)

lemma step_agree: "node_step e w = Some w' \<Longrightarrow> e \<noteq> ShowIdentity \<Longrightarrow> keys_agree w \<Longrightarrow> keys_agree w'"
proof (induction e w rule: node_step.induct)
  case (1 c auto w)
  then show ?case
    by (auto simp: hookStart_def ensureBrowserNode_def loadNodeModule_def intro!: await_agree)
      (auto simp: keys_agree_def single_def set_status_def)
next
  case (2 c w)
  then show ?case by (auto simp: stopBrowserNodeIfStarted_def key_books_agree[OF set_status_key_books] intro: await_agree split: if_splits)
next
  case (6 failure w)
  have "keys_agree (w\<lparr>nw_chunk := ch, nw_waiting := []\<rparr>)" for ch using 6 by (simp add: keys_agree_def single_def)
  then have "keys_agree (chunkLoaded w)" "keys_agree (chunkFailed err w)" for err
    unfolding chunkLoaded_def chunkFailed_def
    by (auto intro!: fold_keeps[where P = keys_agree] simp: run_waiter_agree fail_waiter_agree)
  then show ?case using 6 by (auto split: if_splits option.splits)
next
  case (7 i answer w)
  then have "phase_of i w = Some AwaitingKey" by (auto split: if_splits)
  from phase_single[OF keys_agree_single[OF 7(3)] this] obtain ws
    where "nw_starts w = [\<lparr>st_id = i, st_phase = AwaitingKey, st_waiters = ws\<rparr>]" "nw_starting w = Some i" .
  then show ?case using 7 by (cases answer) (auto simp: start_piece_defs keys_agree_def single_def split: if_splits)
next
  case (8 i w)
  then obtain k where k: "phase_of i w = Some (HasKey k)" by (auto split: option.splits start_phase.splits)
  from phase_single[OF keys_agree_single[OF 8(3)] this] obtain ws
    where "nw_starts w = [\<lparr>st_id = i, st_phase = HasKey k, st_waiters = ws\<rparr>]" "nw_starting w = Some i" .
  then show ?case using 8 k by (auto simp: start_piece_defs keys_agree_def single_def)
next
  case (9 i answer w)
  then obtain k where k: "phase_of i w = Some (AwaitingNode k)" by (auto split: option.splits start_phase.splits)
  from phase_single[OF keys_agree_single[OF 9(3)] this] obtain ws
    where "nw_starts w = [\<lparr>st_id = i, st_phase = AwaitingNode k, st_waiters = ws\<rparr>]" "nw_starting w = Some i" .
  then show ?case using 9 k by (cases answer) (auto simp: start_piece_defs keys_agree_def single_def)
next
  case (10 i w)
  then obtain r where r: "phase_of i w = Some (StartSettled r)" "w' = startFinished i r w" by (auto split: option.splits start_phase.splits)
  from phase_single[OF keys_agree_single[OF 10(3)] r(1)] obtain ws
    where "nw_starts w = [\<lparr>st_id = i, st_phase = StartSettled r, st_waiters = ws\<rparr>]" "nw_starting w = Some i" .
  then show ?case using 10(3) unfolding r(2) key_books_agree[OF startFinished_key_books]
    by (auto simp: keys_agree_def single_def)
next
  case (11 h c w)
  then show ?case by (auto simp: nodeStopped_def key_books_agree[OF set_status_key_books] keys_agree_def single_def split: if_splits)
qed (auto simp: keys_agree_def single_def hookUnmount_def identityGenerated_def split: if_splits option.splits)

text \<open>Before the chunk is there nothing is started.\<close>
definition asleep :: "NodeWorld \<Rightarrow> bool" where
  "asleep w = (nw_chunk w \<noteq> Loaded \<longrightarrow> nw_starts w = [] \<and> nw_node w = None \<and> nw_stopping w = [] \<and> nw_created w = [])"

definition sleep_books :: "NodeWorld \<Rightarrow> node_chunk \<times> node_start list \<times> handle option \<times> (handle \<times> nat) list \<times> handle list" where
  "sleep_books w = (nw_chunk w, nw_starts w, nw_node w, nw_stopping w, nw_created w)"

text \<open>What the chunk's failure leaves behind.\<close>
definition dead :: "str \<Rightarrow> NodeWorld \<Rightarrow> bool" where
  "dead err w = (nw_chunk w = LoadFailed err \<and> nw_starts w = [] \<and> nw_node w = None \<and> nw_stopping w = [] \<and> nw_created w = [])"

lemma sleep_books_eq: "sleep_books w' = sleep_books w \<Longrightarrow> asleep w' = asleep w \<and> dead err w' = dead err w"
  by (simp add: sleep_books_def asleep_def dead_def)

lemma set_status_sleep_books [simp]: "sleep_books (set_status c auto st w) = sleep_books w"
  by (simp add: set_status_def sleep_books_def)

lemma fail_waiter_sleep_books [simp]: "sleep_books (fail_waiter err x w) = sleep_books w"
  by (cases x) simp_all

lemma fold_fail_sleep_books [simp]: "sleep_books (fold (fail_waiter err) xs w) = sleep_books w"
  by (induction xs arbitrary: w) simp_all

lemma run_waiter_chunk [simp]: "nw_chunk (run_waiter x w) = nw_chunk w"
  by (cases x) (auto simp: startBrowserNode_def stopBrowserNode_def on_start_def split: option.splits)

lemma fold_run_waiter_chunk [simp]: "nw_chunk (fold run_waiter xs w) = nw_chunk w"
  by (induction xs arbitrary: w) simp_all

lemma await_asleep: "asleep w \<Longrightarrow> asleep (await_chunk x w)"
  using sleep_books_eq[OF fail_waiter_sleep_books, of _ x w]
  by (cases "nw_chunk w") (auto simp: await_chunk_def asleep_def)

lemma start_chunk [simp]:
  "nw_chunk (keyForNode i a w) = nw_chunk w" "nw_chunk (callFactory i k w) = nw_chunk w" "nw_chunk (nodeCreated i k a w) = nw_chunk w"
  "nw_chunk (nodeStopped h c w) = nw_chunk w"
  by (simp_all add: start_piece_defs nodeStopped_def split: sum.splits)

lemma startFinished_chunk [simp]: "nw_chunk (startFinished i r w) = nw_chunk w"
proof -
  have "nw_chunk (fold (\<lambda>(c, auto). set_status c auto st) xs v) = nw_chunk v" for st xs v
    by (induction xs arbitrary: v) auto
  then show ?thesis by (simp add: startFinished_def)
qed

lemma step_asleep: "node_step e w = Some w' \<Longrightarrow> asleep w \<Longrightarrow> asleep w'"
proof (induction e w rule: node_step.induct)
  case (1 c auto w)
  then show ?case
    by (auto simp: hookStart_def ensureBrowserNode_def loadNodeModule_def intro!: await_asleep) (auto simp: asleep_def)
next
  case (2 c w)
  then show ?case using sleep_books_eq[OF set_status_sleep_books]
    by (auto simp: stopBrowserNodeIfStarted_def intro: await_asleep split: if_splits)
next
  case (6 failure w)
  have "asleep (w\<lparr>nw_chunk := LoadFailed err, nw_waiting := []\<rparr>)" for err using 6 by (simp add: asleep_def split: if_splits)
  then have "asleep (chunkFailed err w)" for err
    unfolding chunkFailed_def using sleep_books_eq[OF fold_fail_sleep_books] by blast
  moreover have "asleep (chunkLoaded w)" by (simp add: chunkLoaded_def asleep_def)
  ultimately show ?case using 6 by (auto split: if_splits option.splits)
qed (auto simp: asleep_def hookUnmount_def getBrowserIdentity_def identityGenerated_def phase_of_def split: if_splits option.splits start_phase.splits)

lemma reach_asleep: "node_reach w \<Longrightarrow> asleep w"
proof (induction rule: node_reach.induct)
  case (stepped w e w')
  then show ?case using step_asleep by blast
qed (simp add: asleep_def initialNode_def)

lemma step_dead: "node_step e w = Some w' \<Longrightarrow> dead err w \<Longrightarrow> dead err w'"
proof (induction e w rule: node_step.induct)
  case (1 c auto w)
  then show ?case
    using sleep_books_eq[OF set_status_sleep_books]
    by (auto simp: hookStart_def ensureBrowserNode_def loadNodeModule_def await_chunk_def dead_def)
next
  case (2 c w)
  then show ?case using sleep_books_eq[OF set_status_sleep_books] by (auto simp: stopBrowserNodeIfStarted_def await_chunk_def dead_def)
qed (auto simp: dead_def hookUnmount_def getBrowserIdentity_def identityGenerated_def phase_of_def split: if_splits option.splits start_phase.splits)

section \<open>Properties\<close>

lemmas node_run_simps = initialNode_def hookStart_def set_status_def ensureBrowserNode_def loadNodeModule_def await_chunk_def
  chunkLoaded_def chunkFailed_def startBrowserNode_def getBrowserIdentity_def start_piece_defs phase_of_def waiters_of_def
  startFinished_def identityGenerated_def getNode_def stopBrowserNodeIfStarted_def stopBrowserNode_def nodeStopped_def hookUnmount_def

text \<open>C27. A tab has at most one node: in every reachable state, whatever users start and stop and in whatever order
  keys, the factory and the chunk answer, the handles that are neither stopped nor being stopped are those
  of the module variable; at most one start is creating a node, and while one does there is none.\<close>
theorem one_node_at_a_time:
  assumes "node_reach w"
  shows "running w = (case getNode w of None \<Rightarrow> {#} | Some h \<Rightarrow> {#h#})
    \<and> length (creating w) + size (running w) \<le> 1"
proof -
  have a: "accounted w" by (rule reach_accounted[OF assms])
  then have r: "running w = (case getNode w of None \<Rightarrow> {#} | Some h \<Rightarrow> {#h#})"
    by (auto simp: running_def accounted_def getNode_def split: option.splits)
  moreover have "length (creating w) \<le> 1" using a by (auto simp: accounted_def creating_def elim!: single_cases)
  moreover have "creating w \<noteq> [] \<longrightarrow> getNode w = None" using a by (simp add: accounted_def getNode_def)
  ultimately show ?thesis by (cases "creating w"; cases "getNode w") auto
qed

text \<open>Unless an identity was asked for display, the cached identity is the key of the running node.\<close>
theorem identity_is_the_nodes:
  assumes "run_node es initialNode = Some w" and "ShowIdentity \<notin> set es" and "getNode w = Some (n, k)"
  shows "nw_identity w = Some k"
proof -
  have "keys_agree w"
  proof (rule run_keeps[OF _ assms(1)])
    show "keys_agree initialNode" by (simp add: keys_agree_def single_def initialNode_def)
  qed (use assms(2) step_agree in blast)
  then show ?thesis using assms(3) by (simp add: keys_agree_def getNode_def)
qed

text \<open>An identity asked for display while the node is starting generates a key of its own, and the one that
  arrives last is kept: for any two keys there is a state with nothing left to happen in which the node runs with the
  one and every peer card shows the other.\<close>
theorem shown_identity_may_differ:
  "\<exists>w. node_reach w \<and> getNode w = Some (n, k) \<and> nw_identity w = Some k' \<and> nw_starting w = None
    \<and> nw_generating w = 0 \<and> nw_waiting w = []"
proof -
  define es where "es = [Start 0 True, ChunkArrived None, ShowIdentity, NodeKey 0 (Inr k), FactoryCalled 0, FactoryAnswered 0 (Inr n), Settled 0, ShownKey (Some k')]"
  have "\<exists>w. run_node es initialNode = Some w \<and> getNode w = Some (n, k) \<and> nw_identity w = Some k' \<and> nw_starting w = None
    \<and> nw_generating w = 0 \<and> nw_waiting w = []"
    by (simp add: es_def node_run_simps)
  then show ?thesis using run_reach fresh_tab by blast
qed

text \<open>C28. A chunk that failed to load is never asked for again: from then on every start of a user on the page,
  automatic or called, ends in its error, asking for the node throws it, and there is no node, however often
  the users try.\<close>
theorem failed_chunk_is_final:
  assumes "node_reach w" and "nw_chunk w = LoadFailed err" and "run_node es w = Some w'"
    and "c \<notin> set (nw_unmounted w')"
  shows "nw_status (hookStart c auto w') c = NodeError err \<and> getBrowserNodeIfStarted w' = Some (Inl err)
    \<and> nw_created w' = []"
proof -
  have "dead err w" using reach_asleep[OF assms(1)] assms(2) by (simp add: asleep_def dead_def)
  then have "dead err w'" using run_keeps[OF _ assms(3), of "dead err"] step_dead by blast
  then show ?thesis using assms(4)
    by (simp add: dead_def getBrowserNodeIfStarted_def hookStart_def ensureBrowserNode_def loadNodeModule_def await_chunk_def set_status_def)
qed

text \<open>A stop during a start has no effect: the node comes up after it.\<close>
lemma stop_during_start_is_lost:
  assumes "node_reach w" and "creating w \<noteq> []"
  shows "stopBrowserNodeIfStarted c w = set_status c False NodeIdle w"
proof -
  have "nw_chunk w = Loaded" using reach_asleep[OF assms(1)] assms(2) by (auto simp: asleep_def creating_def)
  moreover have "nw_node w = None" using reach_accounted[OF assms(1)] assms(2) by (simp add: accounted_def)
  ultimately show ?thesis by (simp add: stopBrowserNodeIfStarted_def await_chunk_def stopBrowserNode_def)
qed

section \<open>Examples\<close>

text \<open>Two users start at once, one stops and the other starts again before the stop is done.\<close>
definition restart_run :: "node_event list" where
  "restart_run = [Start 0 True, Start 1 False, ChunkArrived None, NodeKey 0 (Inr 7), FactoryCalled 0,
     FactoryAnswered 0 (Inr 100), Settled 0, Stop 0, Start 1 False, FactoryCalled 1, FactoryAnswered 1 (Inr 101)]"

lemma restart_run_ends:
  "\<exists>w. run_node restart_run initialNode = Some w \<and> getNode w = Some (101, 7) \<and> nw_created w = [(100, 7), (101, 7)]
    \<and> nw_stopping w = [((100, 7), 0)]"
  by (simp add: restart_run_def node_run_simps)

theorem one_node_at_a_time_witness:
  "\<exists>w. node_reach w \<and> nw_created w = [(100, 7), (101, 7)] \<and> running w = {#(101, 7)#}"
proof -
  obtain w where w: "run_node restart_run initialNode = Some w" "getNode w = Some (101, 7)" "nw_created w = [(100, 7), (101, 7)]"
    using restart_run_ends by blast
  then have r: "node_reach w" using run_reach fresh_tab by blast
  show ?thesis using one_node_at_a_time[OF r] w r by auto
qed

theorem identity_is_the_nodes_witness: "\<exists>w. run_node restart_run initialNode = Some w \<and> nw_identity w = Some 7"
proof -
  obtain w where w: "run_node restart_run initialNode = Some w" "getNode w = Some (101, 7)" using restart_run_ends by blast
  have "ShowIdentity \<notin> set restart_run" by (simp add: restart_run_def)
  from identity_is_the_nodes[OF w(1) this w(2)] show ?thesis using w(1) by blast
qed

lemma node_run_append: "run_node (es @ fs) w = (case run_node es w of None \<Rightarrow> None | Some w' \<Rightarrow> run_node fs w')"
  by (induction es arbitrary: w) (auto split: option.splits)

theorem failed_chunk_is_final_witness:
  "\<exists>w. run_node ([Start 0 True, ChunkArrived (Some ''offline'')] @ [Stop 0]) initialNode = Some w
    \<and> nw_status (hookStart 0 True w) 0 = NodeError ''offline'' \<and> getBrowserNodeIfStarted w = Some (Inl ''offline'')"
proof -
  obtain w1 where w1: "run_node [Start 0 True, ChunkArrived (Some ''offline'')] initialNode = Some w1" "nw_chunk w1 = LoadFailed ''offline''"
      "nw_unmounted w1 = []"
    by (simp add: node_run_simps)
  obtain w where w: "run_node [Stop 0] w1 = Some w" "nw_unmounted w = []"
    using w1(2,3) by (simp add: node_run_simps)
  have "run_node ([Start 0 True, ChunkArrived (Some ''offline'')] @ [Stop 0]) initialNode = Some w"
    unfolding node_run_append w1(1) by (simp only: option.case w)
  moreover have "node_reach w1" using run_reach[OF w1(1)] fresh_tab by blast
  ultimately show ?thesis using failed_chunk_is_final[OF _ w1(2) w(1), of 0 True] w(2) by auto
qed

end
