(* ===== verification/SmallStores.thy ===== *)
theory SmallStores
  imports ServerStore JsonText
begin

text \<open>
  The smaller stores of the client, each with its actions split at their awaits: \<open>stores/toast.ts\<close>, \<open>stores/dm.ts\<close>,
  \<open>stores/directInvites.ts\<close> over \<open>ServerStore\<close>, the two names \<open>stores/homeServerName.ts\<close> and
  \<open>stores/instanceName.ts\<close> with their API modules, \<open>stores/identity.ts\<close>, and the two flags of
  \<open>stores/bootReady.ts\<close> and \<open>stores/localServerSelection.ts\<close>. Answers are arguments; an answer that fails is its message.
\<close>

section \<open>Toasts\<close>

datatype ToastType = ToastError | ToastSuccess | ToastInfo

record Toast =
  toast_id :: str
  toast_message :: str
  toast_type :: ToastType

text \<open>The module counter, the list, and the timers that are running.\<close>
record ToastState =
  ts_nextId :: nat
  ts_toasts :: "Toast list"
  ts_timers :: "str list"

definition initialToasts :: ToastState where
  "initialToasts = \<lparr>ts_nextId = 0, ts_toasts = [], ts_timers = []\<rparr>"

definition pushToast :: "str \<Rightarrow> ToastType \<Rightarrow> ToastState \<Rightarrow> ToastState" where
  "pushToast message kind s = (let i = nat_text (Suc (ts_nextId s)) in
     \<lparr>ts_nextId = Suc (ts_nextId s), ts_toasts = ts_toasts s @ [\<lparr>toast_id = i, toast_message = message, toast_type = kind\<rparr>],
      ts_timers = ts_timers s @ [i]\<rparr>)"

definition removeToast :: "str \<Rightarrow> ToastState \<Rightarrow> ToastState" where
  "removeToast i s = s\<lparr>ts_toasts := drop_by toast_id i (ts_toasts s)\<rparr>"

text \<open>A timer fires.\<close>
definition toastExpires :: "str \<Rightarrow> ToastState \<Rightarrow> ToastState" where
  "toastExpires i s = removeToast i (s\<lparr>ts_timers := remove1 i (ts_timers s)\<rparr>)"

inductive toast_reach :: "ToastState \<Rightarrow> bool" where
  none: "toast_reach initialToasts"
| pushed: "toast_reach s \<Longrightarrow> toast_reach (pushToast m k s)"
| removed: "toast_reach s \<Longrightarrow> toast_reach (removeToast i s)"
| expired: "toast_reach s \<Longrightarrow> i \<in> set (ts_timers s) \<Longrightarrow> toast_reach (toastExpires i s)"

section \<open>Direct messages\<close>

record DMConversation =
  dm_id :: int
  dm_other_user_id :: str
  dm_matrix_room_id :: str
  dm_created_at :: "str option"

record DMResult =
  dmr_created :: bool
  dmr_id :: int
  dmr_target_user_id :: str
  dmr_matrix_room_id :: str

record DMState =
  dm_conversations :: "DMConversation list"
  dm_activeRoomId :: "str option"
  dm_active :: bool
  dm_pinned :: "str list"

text \<open>What a restart brings back: the pinned rooms.\<close>
definition initialDM :: "str list \<Rightarrow> DMState" where
  "initialDM pinned = \<lparr>dm_conversations = [], dm_activeRoomId = None, dm_active = False, dm_pinned = pinned\<rparr>"

text \<open>The failing load shows a toast and leaves the store.\<close>
definition loadConversationsDone :: "str + DMConversation list \<Rightarrow> DMState \<Rightarrow> DMState \<times> str option" where
  "loadConversationsDone answer s = (case answer of Inl err \<Rightarrow> (s, Some err)
     | Inr cs \<Rightarrow> (s\<lparr>dm_conversations := cs,
         dm_pinned := filter (\<lambda>r. list_ex (\<lambda>c. dm_matrix_room_id c = r) cs) (dm_pinned s)\<rparr>, None))"

definition startDMDone :: "str \<Rightarrow> DMResult \<Rightarrow> DMState \<Rightarrow> DMState" where
  "startDMDone now result s =
    (let s1 = (if dmr_created result then s\<lparr>dm_conversations := \<lparr>dm_id = dmr_id result, dm_other_user_id = dmr_target_user_id result,
             dm_matrix_room_id = dmr_matrix_room_id result, dm_created_at = Some now\<rparr> # dm_conversations s\<rparr> else s)
     in s1\<lparr>dm_activeRoomId := Some (dmr_matrix_room_id result), dm_active := True\<rparr>)"

definition setActiveDM :: "str option \<Rightarrow> DMState \<Rightarrow> DMState" where
  "setActiveDM room s = s\<lparr>dm_activeRoomId := room\<rparr>"

definition setDMActive :: "bool \<Rightarrow> DMState \<Rightarrow> DMState" where
  "setDMActive on s = (let s1 = s\<lparr>dm_active := on\<rparr> in if on then s1 else s1\<lparr>dm_activeRoomId := None\<rparr>)"

definition togglePinnedRoom :: "str \<Rightarrow> DMState \<Rightarrow> DMState" where
  "togglePinnedRoom room s = s\<lparr>dm_pinned := (if room \<in> set (dm_pinned s) then filter (\<lambda>r. r \<noteq> room) (dm_pinned s)
     else dm_pinned s @ [room])\<rparr>"

definition activeConversation :: "DMState \<Rightarrow> DMConversation option" where
  "activeConversation s = find (\<lambda>c. Some (dm_matrix_room_id c) = dm_activeRoomId s) (dm_conversations s)"

section \<open>Direct invites\<close>

record DirectInvite =
  di_id :: int
  di_server_id :: str
  di_server_name :: str
  di_inviter_id :: str
  di_created_at :: str

record InviteWorld =
  iw_pending :: "DirectInvite list"
  iw_servers :: ServerState
  iw_toasts :: ToastState

definition loadPendingDone :: "str + DirectInvite list \<Rightarrow> InviteWorld \<Rightarrow> InviteWorld" where
  "loadPendingDone answer w = (case answer of Inl _ \<Rightarrow> w | Inr is \<Rightarrow> w\<lparr>iw_pending := is\<rparr>)"

definition toasting :: "str \<Rightarrow> ToastType \<Rightarrow> InviteWorld \<Rightarrow> InviteWorld" where
  "toasting m k w = w\<lparr>iw_toasts := pushToast m k (iw_toasts w)\<rparr>"

text \<open>The answer to a response: failed, with its message if it is an Error, or the server joined. The first half runs when
  it arrives; it tells the server to load and open after an acceptance.\<close>
definition respondDone :: "int \<Rightarrow> bool \<Rightarrow> (str option + (str option \<times> str)) \<Rightarrow> InviteWorld \<Rightarrow> InviteWorld \<times> (str \<times> str) option" where
  "respondDone i accept answer w = (case answer of
     Inl err \<Rightarrow> (toasting (case err of Some m \<Rightarrow> m | None \<Rightarrow> ''Failed to respond to invite'') ToastError w, None)
   | Inr (server, name) \<Rightarrow>
       let w1 = w\<lparr>iw_pending := drop_by di_id i (iw_pending w)\<rparr> in
       if accept then (w1, (case server of None \<Rightarrow> None | Some s \<Rightarrow> if s = [] then None else Some (s, name)))
       else (toasting ''Invite declined'' ToastInfo w1, None))"

definition openJoined :: "str \<times> str \<Rightarrow> LoadAnswers \<Rightarrow> InviteWorld \<Rightarrow> InviteWorld" where
  "openJoined joined answers w = (case joined of (server, name) \<Rightarrow>
     toasting (''Joined '' @ name @ ''!'') ToastSuccess (w\<lparr>iw_servers := setActiveServer server (loadServers answers (iw_servers w))\<rparr>))"

section \<open>Names\<close>

record NameState =
  ns_name :: str
  ns_loading :: bool
  ns_error :: "str option"

definition homeNameStore :: NameState where
  "homeNameStore = \<lparr>ns_name = ''home'', ns_loading = False, ns_error = None\<rparr>"

definition instanceNameStore :: NameState where
  "instanceNameStore = \<lparr>ns_name = [], ns_loading = False, ns_error = None\<rparr>"

text \<open>What the shell answers with, as the API modules pass it on.\<close>
definition getHomeServerName :: "bool \<Rightarrow> str + json \<Rightarrow> str + str" where
  "getHomeServerName isTauri value = (if \<not> isTauri then Inr ''home'' else case value of Inl e \<Rightarrow> Inl e
     | Inr v \<Rightarrow> Inr (case as_str (Some v) of None \<Rightarrow> ''home'' | Some s \<Rightarrow> if trim s \<noteq> [] then s else ''home''))"

definition getInstanceName :: "str + json \<Rightarrow> str + str" where
  "getInstanceName value = (case value of Inl e \<Rightarrow> Inl e
     | Inr v \<Rightarrow> Inr (case as_str (Some v) of None \<Rightarrow> [] | Some s \<Rightarrow> s))"

text \<open>The name that is sent, or the error without a request.\<close>
definition setHomeServerName :: "str \<Rightarrow> str + str" where
  "setHomeServerName name = (let trimmed = trim name in
     if trimmed = [] then Inl ''home server name must not be empty''
     else if length trimmed > 64 then Inl ''home server name must be 64 characters or fewer''
     else Inr trimmed)"

text \<open>\<open>load\<close> and \<open>set\<close> of both stores, with the request between; None is a store left alone, a build without the shell.\<close>
definition nameBegin :: "NameState \<Rightarrow> NameState" where
  "nameBegin s = s\<lparr>ns_loading := True, ns_error := None\<rparr>"

definition nameLoaded :: "str + str \<Rightarrow> NameState \<Rightarrow> NameState" where
  "nameLoaded answer s = (case answer of Inl e \<Rightarrow> s\<lparr>ns_loading := False, ns_error := Some e\<rparr>
     | Inr v \<Rightarrow> s\<lparr>ns_name := v, ns_loading := False\<rparr>)"

definition nameSaved :: "str \<Rightarrow> str option \<Rightarrow> NameState \<Rightarrow> NameState" where
  "nameSaved name failure s = (case failure of Some e \<Rightarrow> s\<lparr>ns_loading := False, ns_error := Some e\<rparr>
     | None \<Rightarrow> s\<lparr>ns_name := trim name, ns_loading := False\<rparr>)"

definition homeNameSet :: "str \<Rightarrow> str option \<Rightarrow> NameState \<Rightarrow> NameState" where
  "homeNameSet name shell s = nameSaved name (case setHomeServerName name of Inl e \<Rightarrow> Some e | Inr _ \<Rightarrow> shell) s"

section \<open>Identity\<close>

record IdentityState =
  is_fingerprint :: "str option"
  is_publicKeyHex :: "str option"
  is_isLoading :: bool
  is_error :: "str option"
  is_swarmPeerId :: "str option"
  is_swarmMultiaddrs :: "str list"
  is_swarmPeerCount :: int
  is_swarmLastEvent :: "str option"
  is_swarmLoading :: bool
  is_swarmError :: "str option"

record SwarmStatus =
  ss_ourPeerId :: str
  ss_ourMultiaddrs :: "str list"
  ss_peerCount :: int
  ss_lastEvent :: "str option"

definition initialIdentity :: IdentityState where
  "initialIdentity = \<lparr>is_fingerprint = None, is_publicKeyHex = None, is_isLoading = False, is_error = None, is_swarmPeerId = None,
     is_swarmMultiaddrs = [], is_swarmPeerCount = 0, is_swarmLastEvent = None, is_swarmLoading = False, is_swarmError = None\<rparr>"

definition IDENTITY_ERROR_NATIVE_ONLY :: str where "IDENTITY_ERROR_NATIVE_ONLY = ''native-only''"

definition identityLoad :: "bool \<Rightarrow> IdentityState \<Rightarrow> IdentityState" where
  "identityLoad isTauri s = (if \<not> isTauri
     then s\<lparr>is_isLoading := False, is_error := Some IDENTITY_ERROR_NATIVE_ONLY, is_fingerprint := None, is_publicKeyHex := None\<rparr>
     else s\<lparr>is_isLoading := True, is_error := None\<rparr>)"

definition identityLoaded :: "str + (str \<times> str) \<Rightarrow> IdentityState \<Rightarrow> IdentityState" where
  "identityLoaded answer s = (case answer of
     Inr (fp, key) \<Rightarrow> s\<lparr>is_fingerprint := Some fp, is_publicKeyHex := Some key, is_isLoading := False, is_error := None\<rparr>
   | Inl e \<Rightarrow> s\<lparr>is_isLoading := False, is_error := Some e, is_fingerprint := None, is_publicKeyHex := None\<rparr>)"

definition no_swarm :: "str \<Rightarrow> IdentityState \<Rightarrow> IdentityState" where
  "no_swarm e s = s\<lparr>is_swarmLoading := False, is_swarmError := Some e, is_swarmPeerId := None, is_swarmMultiaddrs := [],
     is_swarmPeerCount := 0, is_swarmLastEvent := None\<rparr>"

definition loadSwarm :: "bool \<Rightarrow> IdentityState \<Rightarrow> IdentityState" where
  "loadSwarm isTauri s = (if \<not> isTauri then no_swarm IDENTITY_ERROR_NATIVE_ONLY s
     else s\<lparr>is_swarmLoading := True, is_swarmError := None\<rparr>)"

definition swarmLoaded :: "str + SwarmStatus \<Rightarrow> IdentityState \<Rightarrow> IdentityState" where
  "swarmLoaded answer s = (case answer of Inl e \<Rightarrow> no_swarm e s
     | Inr st \<Rightarrow> s\<lparr>is_swarmPeerId := (if ss_ourPeerId st = [] then None else Some (ss_ourPeerId st)),
         is_swarmMultiaddrs := ss_ourMultiaddrs st, is_swarmPeerCount := ss_peerCount st, is_swarmLastEvent := ss_lastEvent st,
         is_swarmLoading := False, is_swarmError := None\<rparr>)"

section \<open>Flags\<close>

definition markAppReady :: "bool \<Rightarrow> bool" where
  "markAppReady isAppReady = (if isAppReady then isAppReady else True)"

datatype ActiveLocalServer = PorchServer | HomeServer

definition initialLocalServer :: ActiveLocalServer where "initialLocalServer = HomeServer"

section \<open>Toasts come and go\<close>

definition toasts_inv :: "ToastState \<Rightarrow> bool" where
  "toasts_inv s = (distinct (map toast_id (ts_toasts s)) \<and> set (map toast_id (ts_toasts s)) \<subseteq> set (ts_timers s)
    \<and> set (ts_timers s) \<subseteq> nat_text ` {1..ts_nextId s} \<and> distinct (ts_timers s))"

lemma nat_text_inj: "nat_text m = nat_text n \<Longrightarrow> m = n"
  by (metis digits_value_nat_text)

lemma fresh_toast: "set xs \<subseteq> nat_text ` {1..n} \<Longrightarrow> nat_text (Suc n) \<notin> set xs"
  using nat_text_inj by fastforce

lemma toast_reach_inv: "toast_reach s \<Longrightarrow> toasts_inv s"
proof (induction rule: toast_reach.induct)
  case none
  then show ?case by (simp add: toasts_inv_def initialToasts_def)
next
  case (pushed s m k)
  then have "nat_text (Suc (ts_nextId s)) \<notin> set (ts_timers s)" using fresh_toast by (simp add: toasts_inv_def)
  then show ?case using pushed.IH by (auto simp: toasts_inv_def pushToast_def Let_def)
next
  case (removed s i)
  then show ?case by (auto simp: toasts_inv_def removeToast_def drop_by_def distinct_map_filter)
next
  case (expired s i)
  then have "toast_id ` {t \<in> set (ts_toasts s). toast_id t \<noteq> i} \<subseteq> set (remove1 i (ts_timers s))"
    by (auto simp: toasts_inv_def)
  then show ?case using expired.IH by (auto simp: toasts_inv_def toastExpires_def removeToast_def drop_by_def distinct_map_filter)
qed

lemma expire_all:
  "toasts_inv s \<Longrightarrow> is = ts_timers s \<Longrightarrow> ts_toasts (fold toastExpires is s) = [] \<and> ts_timers (fold toastExpires is s) = []"
proof (induction "is" arbitrary: s)
  case Nil
  then show ?case by (auto simp: toasts_inv_def)
next
  case (Cons i "is")
  have "i \<in> set (ts_timers s)" using Cons.prems(2) by (metis list.set_intros(1))
  have "toasts_inv (toastExpires i s)"
  proof -
    have "toast_id ` {t \<in> set (ts_toasts s). toast_id t \<noteq> i} \<subseteq> set (remove1 i (ts_timers s))"
      using Cons.prems(1) by (auto simp: toasts_inv_def)
    then show ?thesis using Cons.prems(1) by (auto simp: toasts_inv_def toastExpires_def removeToast_def drop_by_def distinct_map_filter)
  qed
  moreover have "is = ts_timers (toastExpires i s)"
    by (simp add: toastExpires_def removeToast_def Cons.prems(2)[symmetric])
  ultimately show ?case using Cons.IH by simp
qed

section \<open>Actions of the stores\<close>

inductive dm_reach :: "str list \<Rightarrow> DMState \<Rightarrow> bool" for pinned where
  opened: "dm_reach pinned (initialDM pinned)"
| loaded: "dm_reach pinned s \<Longrightarrow> dm_reach pinned (fst (loadConversationsDone answer s))"
| started: "dm_reach pinned s \<Longrightarrow> dm_reach pinned (startDMDone now result s)"
| chosen: "dm_reach pinned s \<Longrightarrow> dm_reach pinned (setActiveDM room s)"
| switched: "dm_reach pinned s \<Longrightarrow> dm_reach pinned (setDMActive on s)"
| toggled: "dm_reach pinned s \<Longrightarrow> dm_reach pinned (togglePinnedRoom room s)"

datatype identity_op = LoadIdentity bool | IdentityAnswer "str + (str \<times> str)" | LoadSwarm bool | SwarmAnswer "str + SwarmStatus"

fun identity_do :: "identity_op \<Rightarrow> IdentityState \<Rightarrow> IdentityState" where
  "identity_do (LoadIdentity t) s = identityLoad t s"
| "identity_do (IdentityAnswer a) s = identityLoaded a s"
| "identity_do (LoadSwarm t) s = loadSwarm t s"
| "identity_do (SwarmAnswer a) s = swarmLoaded a s"

definition identity_whole :: "IdentityState \<Rightarrow> bool" where
  "identity_whole s = ((is_fingerprint s = None \<longleftrightarrow> is_publicKeyHex s = None)
    \<and> (is_error s \<noteq> None \<longrightarrow> is_fingerprint s = None \<and> \<not> is_isLoading s)
    \<and> (is_swarmError s \<noteq> None \<longrightarrow> is_swarmPeerId s = None \<and> is_swarmMultiaddrs s = [] \<and> is_swarmPeerCount s = 0 \<and> \<not> is_swarmLoading s))"

lemma identity_do_whole: "identity_whole s \<Longrightarrow> identity_whole (identity_do op s)"
  by (cases op) (auto simp: identity_whole_def identityLoad_def identityLoaded_def loadSwarm_def swarmLoaded_def no_swarm_def
      split: sum.splits prod.splits)

section \<open>Properties\<close>

text \<open>No toast stays: in every reachable state the toasts have different ids, each has a running timer, and when
  the timers that are running have fired nothing is shown any more.\<close>
theorem toasts_vanish:
  assumes "toast_reach s"
  shows "distinct (map toast_id (ts_toasts s)) \<and> list_all (\<lambda>t. toast_id t \<in> set (ts_timers s)) (ts_toasts s)
    \<and> ts_toasts (fold toastExpires (ts_timers s) s) = []"
  using toast_reach_inv[OF assms] expire_all[OF toast_reach_inv[OF assms] refl] by (auto simp: toasts_inv_def list_all_iff)

definition two_toasts :: ToastState where
  "two_toasts = pushToast ''b'' ToastInfo (removeToast ''1'' (pushToast ''a'' ToastError initialToasts))"

theorem toasts_vanish_witness: "length (ts_toasts two_toasts) = 1 \<and> ts_toasts (fold toastExpires (ts_timers two_toasts) two_toasts) = []"
proof -
  have "toast_reach two_toasts" unfolding two_toasts_def by (intro toast_reach.intros)
  moreover have "length (ts_toasts two_toasts) = 1" by code_simp
  ultimately show ?thesis using toasts_vanish by blast
qed

text \<open>Pinned rooms are listed once, and after a load all of them are rooms of a conversation.\<close>
theorem pinned_rooms_exist:
  assumes "dm_reach pinned s" and "distinct pinned"
  shows "distinct (dm_pinned s) \<and> (\<exists>s'. loadConversationsDone (Inr cs) s = (s', None)
    \<and> dm_conversations s' = cs \<and> set (dm_pinned s') = set (dm_pinned s) \<inter> dm_matrix_room_id ` set cs \<and> distinct (dm_pinned s'))"
proof -
  have "distinct (dm_pinned s)" using assms
    by (induction rule: dm_reach.induct)
      (auto simp: initialDM_def loadConversationsDone_def startDMDone_def setActiveDM_def setDMActive_def togglePinnedRoom_def Let_def
        split: sum.splits)
  then show ?thesis by (auto simp: loadConversationsDone_def list_ex_iff)
qed

theorem pinned_rooms_exist_witness: "distinct (dm_pinned (togglePinnedRoom ''!a'' (initialDM [''!b''])))"
  using pinned_rooms_exist[OF dm_reach.toggled[OF dm_reach.opened], of "[''!b'']"] by simp

text \<open>A conversation the server created is put in front also when a load that crossed the request has brought it.\<close>
lemma crossing_load_duplicates:
  assumes "c \<in> set cs" "dm_matrix_room_id c = dmr_matrix_room_id result" "dmr_created result"
  shows "\<not> distinct (map dm_matrix_room_id (dm_conversations (startDMDone now result (fst (loadConversationsDone (Inr cs) s)))))"
  using assms(1,3) assms(2)[symmetric] by (auto simp: startDMDone_def loadConversationsDone_def)

text \<open>Accepting an invite opens the server: when the list loaded after it has the server, it becomes the active one,
  the invite is gone and a toast says so.\<close>
theorem accepted_invite_opens_server:
  assumes "find_by srv_id sid (servers (loadServers answers (iw_servers w))) = Some s" and "sid \<noteq> []"
  shows "\<exists>w1 joined. respondDone i True (Inr (Some sid, name)) w = (w1, Some joined)
    \<and> activeServer (iw_servers (openJoined joined answers w1)) = Some s
    \<and> find_by di_id i (iw_pending (openJoined joined answers w1)) = None
    \<and> toast_message (last (ts_toasts (iw_toasts (openJoined joined answers w1)))) = ''Joined '' @ name @ ''!''"
proof -
  have "find (\<lambda>x. Some (srv_id x) = Some sid) (servers (loadServers answers (iw_servers w))) = Some s"
    using assms(1) by (simp add: find_by_def)
  then show ?thesis using assms(2)
    by (simp add: respondDone_def openJoined_def toasting_def setActiveServer_def activeServer_def find_by_drop_by pushToast_def Let_def)
qed

theorem accepted_invite_opens_server_witness:
  "\<exists>w1 joined. respondDone 1 True (Inr (Some ''s'', ''S'')) \<lparr>iw_pending = [], iw_servers = emptyState, iw_toasts = initialToasts\<rparr> = (w1, Some joined)"
proof -
  define answers where "answers = \<lparr>la_list = Inr [sampleServer ''s'' [sampleChannel 1 ''!a'']], la_default = Inl [], la_join = Inl [], la_list2 = Inl []\<rparr>"
  have "find_by srv_id ''s'' (servers (loadServers answers emptyState)) = Some (sampleServer ''s'' [sampleChannel 1 ''!a''])"
    unfolding answers_def by code_simp
  then show ?thesis
    using accepted_invite_opens_server[of "''s''" answers "\<lparr>iw_pending = [], iw_servers = emptyState, iw_toasts = initialToasts\<rparr>" _ 1 "''S''"]
    by auto
qed

text \<open>The peer identity shown is whole: after any loads and answers, in any order, fingerprint and key are both
  known or both unknown, and an error leaves neither them nor anything of the swarm standing.\<close>
theorem identity_stays_whole: "identity_whole (fold identity_do ops initialIdentity)"
proof -
  have "identity_whole s \<Longrightarrow> identity_whole (fold identity_do ops s)" for s
    by (induction ops arbitrary: s) (auto intro: identity_do_whole)
  moreover have "identity_whole initialIdentity" by (simp add: identity_whole_def initialIdentity_def)
  ultimately show ?thesis by blast
qed

lemma saved_name_was_sent:
  assumes "ns_error (homeNameSet name shell (nameBegin s)) = None"
  shows "setHomeServerName name = Inr (ns_name (homeNameSet name shell (nameBegin s))) \<and> shell = None
    \<and> length (trim name) \<in> {1..64}"
  using assms
  by (auto simp: homeNameSet_def nameSaved_def nameBegin_def setHomeServerName_def Let_def Suc_le_eq split: option.splits sum.splits if_splits)

text \<open>A load that was under way when a name was set brings the old one back.\<close>
lemma stale_load_overwrites_name: "ns_name (nameLoaded (Inr old) (nameSaved new None s)) = old"
  by (simp add: nameLoaded_def nameSaved_def)

end
