(* ===== verification/Settings.thy ===== *)
theory Settings
  imports NoiseGate ServerStore Timeline
begin

text \<open>
  What the user has set: \<open>stores/settings.ts\<close> with its persistence, the notifications of \<open>hooks/useNotifications.ts\<close>
  that follow its levels, and the display formats of \<open>stores/format.ts\<close> with \<open>hooks/useResolvedFormat.ts\<close>. A number is an
  exact real, or None when it is not finite. Persistence is the middleware's: what \<open>partialize\<close> keeps is laid
  over the initial state when the client starts.
\<close>

type_synonym js_number = "real option"

definition INPUT_NOISE_GATE_DB_MIN :: real where "INPUT_NOISE_GATE_DB_MIN = - 72"
definition INPUT_NOISE_GATE_DB_MAX :: real where "INPUT_NOISE_GATE_DB_MAX = - 18"
definition INPUT_NOISE_GATE_DB_DEFAULT :: real where "INPUT_NOISE_GATE_DB_DEFAULT = - 42"
definition CHAT_FONT_SIZE_MIN :: real where "CHAT_FONT_SIZE_MIN = 12"
definition CHAT_FONT_SIZE_MAX :: real where "CHAT_FONT_SIZE_MAX = 32"
definition CHAT_FONT_SIZE_DEFAULT :: real where "CHAT_FONT_SIZE_DEFAULT = 14"

datatype NotificationLevel = NotifyAll | NotifyMentions | NotifyNothing

datatype SettingsTab = AudioTab | VoiceTab | NotificationsTab | ProfileTab | UsersTab | ConnectionsTab | AppearanceTab | NodeTab
  | HostingTab | AboutTab | AdminTab | ServerGeneral | ServerMembers | ServerInvite | ServerBans | ServerWhitelist | ServerWebhooks
  | ServerModeration | ServerFederation

datatype ThemePreset = BronzeTeal | KineticNode | VerdantSignal | EmberCircuit | ArcticCurrent

datatype CompressorParam = CompressorThreshold | CompressorKnee | CompressorRatio | CompressorAttack | CompressorRelease | MakeupGain

record SettingsState =
  masterOutputVolume :: js_number
  preferredOutputDeviceId :: "str option"
  normalizationEnabled :: bool
  compressor :: "CompressorParam \<Rightarrow> js_number"
  soundboardVolume :: js_number
  userVolumes :: "str \<Rightarrow> js_number option"
  userMuted :: "str \<Rightarrow> bool option"
  masterInputVolume :: js_number
  preferredInputDeviceId :: "str option"
  echoCancellation :: bool
  noiseSuppression :: bool
  autoGainControl :: bool
  inputNoiseGateEnabled :: bool
  inputNoiseGateThresholdDb :: js_number
  voiceClarityEnabled :: bool
  voiceClarityStrength :: js_number
  notificationsEnabled :: bool
  defaultNotificationLevel :: NotificationLevel
  serverNotifications :: "str \<Rightarrow> NotificationLevel option"
  channelNotifications :: "str \<Rightarrow> NotificationLevel option"
  notificationSound :: bool
  chatFontSize :: js_number
  themePreset :: ThemePreset
  settingsOpen :: bool
  settingsTab :: SettingsTab
  serverSettingsId :: "str option"
  pendingAddSourceScreen :: "str option"

fun default_param :: "CompressorParam \<Rightarrow> js_number" where
  "default_param CompressorThreshold = Some (- 30)"
| "default_param CompressorKnee = Some 20"
| "default_param CompressorRatio = Some 12"
| "default_param CompressorAttack = Some (3 / 1000)"
| "default_param CompressorRelease = Some (1 / 4)"
| "default_param MakeupGain = Some (3 / 2)"

definition initialSettings :: SettingsState where
  "initialSettings = \<lparr>masterOutputVolume = Some 1, preferredOutputDeviceId = None, normalizationEnabled = True, compressor = default_param,
     soundboardVolume = Some (1 / 2), userVolumes = (\<lambda>i. None), userMuted = (\<lambda>i. None), masterInputVolume = Some 1,
     preferredInputDeviceId = None, echoCancellation = True, noiseSuppression = True, autoGainControl = True, inputNoiseGateEnabled = True,
     inputNoiseGateThresholdDb = Some INPUT_NOISE_GATE_DB_DEFAULT, voiceClarityEnabled = True, voiceClarityStrength = Some (1 / 2),
     notificationsEnabled = True, defaultNotificationLevel = NotifyAll, serverNotifications = (\<lambda>i. None), channelNotifications = (\<lambda>i. None),
     notificationSound = True, chatFontSize = Some CHAT_FONT_SIZE_DEFAULT, themePreset = BronzeTeal, settingsOpen = False,
     settingsTab = AudioTab, serverSettingsId = None, pendingAddSourceScreen = None\<rparr>"

section \<open>Actions\<close>

text \<open>\<open>Math.round\<close> and the clamp of the two bounded numbers.\<close>
definition js_round :: "real \<Rightarrow> real" where
  "js_round x = of_int \<lfloor>x + 1 / 2\<rfloor>"

definition clamp :: "real \<Rightarrow> real \<Rightarrow> real \<Rightarrow> real" where
  "clamp lo hi x = max lo (min hi x)"

datatype settings_action =
    SetMasterOutputVolume js_number | SetPreferredOutputDeviceId "str option" | SetNormalizationEnabled bool
  | SetCompressorParam CompressorParam js_number | SetSoundboardVolume js_number | SetUserVolume str js_number | ToggleUserMuted str
  | SetMasterInputVolume js_number | SetPreferredInputDeviceId "str option" | SetEchoCancellation bool | SetNoiseSuppression bool
  | SetAutoGainControl bool | SetInputNoiseGateEnabled bool | SetInputNoiseGateThresholdDb js_number | SetVoiceClarityEnabled bool
  | SetVoiceClarityStrength js_number | SetNotificationsEnabled bool | SetDefaultNotificationLevel NotificationLevel
  | SetServerNotificationLevel str "NotificationLevel option" | SetChannelNotificationLevel str "NotificationLevel option"
  | SetNotificationSound bool | SetChatFontSize js_number | SetThemePreset ThemePreset | OpenSettings "SettingsTab option" | CloseSettings
  | SetSettingsTab SettingsTab | RequestAddSource "str option" | OpenServerSettings str | CloseServerSettings
  | SetServerSettingsId "str option" | ResetToDefaults

definition setInputNoiseGateThresholdDb :: "js_number \<Rightarrow> SettingsState \<Rightarrow> SettingsState" where
  "setInputNoiseGateThresholdDb db s = (case db of None \<Rightarrow> s
     | Some x \<Rightarrow> s\<lparr>inputNoiseGateThresholdDb := Some (clamp INPUT_NOISE_GATE_DB_MIN INPUT_NOISE_GATE_DB_MAX (js_round x))\<rparr>)"

definition setVoiceClarityStrength :: "js_number \<Rightarrow> SettingsState \<Rightarrow> SettingsState" where
  "setVoiceClarityStrength strength s = (case strength of None \<Rightarrow> s | Some x \<Rightarrow> s\<lparr>voiceClarityStrength := Some (clamp 0 1 x)\<rparr>)"

definition setChatFontSize :: "js_number \<Rightarrow> SettingsState \<Rightarrow> SettingsState" where
  "setChatFontSize px s = (case px of None \<Rightarrow> s
     | Some x \<Rightarrow> s\<lparr>chatFontSize := Some (clamp CHAT_FONT_SIZE_MIN CHAT_FONT_SIZE_MAX (js_round x))\<rparr>)"

text \<open>The level None is \<open>default\<close>: the entry is deleted.\<close>
definition setServerNotificationLevel :: "str \<Rightarrow> NotificationLevel option \<Rightarrow> SettingsState \<Rightarrow> SettingsState" where
  "setServerNotificationLevel serverId level s = s\<lparr>serverNotifications := (serverNotifications s)(serverId := level)\<rparr>"

definition setChannelNotificationLevel :: "str \<Rightarrow> NotificationLevel option \<Rightarrow> SettingsState \<Rightarrow> SettingsState" where
  "setChannelNotificationLevel roomId level s = s\<lparr>channelNotifications := (channelNotifications s)(roomId := level)\<rparr>"

definition requestAddSource :: "str option \<Rightarrow> SettingsState \<Rightarrow> SettingsState" where
  "requestAddSource screen s = s\<lparr>settingsOpen := False, serverSettingsId := None,
     pendingAddSourceScreen := Some (case screen of None \<Rightarrow> ''pick'' | Some x \<Rightarrow> x)\<rparr>"

definition consumeAddSourceRequest :: "SettingsState \<Rightarrow> str option \<times> SettingsState" where
  "consumeAddSourceRequest s = (pendingAddSourceScreen s, s\<lparr>pendingAddSourceScreen := None\<rparr>)"

definition openServerSettings :: "Server list \<Rightarrow> str \<Rightarrow> SettingsState \<Rightarrow> SettingsState" where
  "openServerSettings ss serverId s = s\<lparr>serverSettingsId := Some serverId, settingsOpen := True,
     settingsTab := (case find_by srv_id serverId ss of None \<Rightarrow> ServerGeneral
       | Some server \<Rightarrow> if srv_federated server = Some True then ServerFederation else ServerGeneral)\<rparr>"

definition resetToDefaults :: "SettingsState \<Rightarrow> SettingsState" where
  "resetToDefaults s = initialSettings\<lparr>settingsOpen := settingsOpen s, settingsTab := settingsTab s, serverSettingsId := serverSettingsId s,
     pendingAddSourceScreen := pendingAddSourceScreen s\<rparr>"

fun settings_do :: "Server list \<Rightarrow> settings_action \<Rightarrow> SettingsState \<Rightarrow> SettingsState" where
  "settings_do ss (SetMasterOutputVolume v) s = s\<lparr>masterOutputVolume := v\<rparr>"
| "settings_do ss (SetPreferredOutputDeviceId i) s = s\<lparr>preferredOutputDeviceId := i\<rparr>"
| "settings_do ss (SetNormalizationEnabled b) s = s\<lparr>normalizationEnabled := b\<rparr>"
| "settings_do ss (SetCompressorParam k v) s = s\<lparr>compressor := (compressor s)(k := v)\<rparr>"
| "settings_do ss (SetSoundboardVolume v) s = s\<lparr>soundboardVolume := v\<rparr>"
| "settings_do ss (SetUserVolume i v) s = s\<lparr>userVolumes := (userVolumes s)(i := Some v)\<rparr>"
| "settings_do ss (ToggleUserMuted i) s = s\<lparr>userMuted := (userMuted s)(i := Some (userMuted s i \<noteq> Some True))\<rparr>"
| "settings_do ss (SetMasterInputVolume v) s = s\<lparr>masterInputVolume := v\<rparr>"
| "settings_do ss (SetPreferredInputDeviceId i) s = s\<lparr>preferredInputDeviceId := i\<rparr>"
| "settings_do ss (SetEchoCancellation b) s = s\<lparr>echoCancellation := b\<rparr>"
| "settings_do ss (SetNoiseSuppression b) s = s\<lparr>noiseSuppression := b\<rparr>"
| "settings_do ss (SetAutoGainControl b) s = s\<lparr>autoGainControl := b\<rparr>"
| "settings_do ss (SetInputNoiseGateEnabled b) s = s\<lparr>inputNoiseGateEnabled := b\<rparr>"
| "settings_do ss (SetInputNoiseGateThresholdDb v) s = setInputNoiseGateThresholdDb v s"
| "settings_do ss (SetVoiceClarityEnabled b) s = s\<lparr>voiceClarityEnabled := b\<rparr>"
| "settings_do ss (SetVoiceClarityStrength v) s = setVoiceClarityStrength v s"
| "settings_do ss (SetNotificationsEnabled b) s = s\<lparr>notificationsEnabled := b\<rparr>"
| "settings_do ss (SetDefaultNotificationLevel l) s = s\<lparr>defaultNotificationLevel := l\<rparr>"
| "settings_do ss (SetServerNotificationLevel i l) s = setServerNotificationLevel i l s"
| "settings_do ss (SetChannelNotificationLevel i l) s = setChannelNotificationLevel i l s"
| "settings_do ss (SetNotificationSound b) s = s\<lparr>notificationSound := b\<rparr>"
| "settings_do ss (SetChatFontSize v) s = setChatFontSize v s"
| "settings_do ss (SetThemePreset p) s = s\<lparr>themePreset := p\<rparr>"
| "settings_do ss (OpenSettings tab) s = s\<lparr>settingsOpen := True, serverSettingsId := None, settingsTab := (case tab of None \<Rightarrow> AudioTab | Some t \<Rightarrow> t)\<rparr>"
| "settings_do ss CloseSettings s = s\<lparr>settingsOpen := False, serverSettingsId := None\<rparr>"
| "settings_do ss (SetSettingsTab tab) s = s\<lparr>settingsTab := tab\<rparr>"
| "settings_do ss (RequestAddSource screen) s = requestAddSource screen s"
| "settings_do ss (OpenServerSettings i) s = openServerSettings ss i s"
| "settings_do ss CloseServerSettings s = s\<lparr>serverSettingsId := None\<rparr>"
| "settings_do ss (SetServerSettingsId i) s = s\<lparr>serverSettingsId := i\<rparr>"
| "settings_do ss ResetToDefaults s = resetToDefaults s"

text \<open>What a restart brings back: \<open>partialize\<close> leaves three fields out.\<close>
definition restarted_settings :: "SettingsState \<Rightarrow> SettingsState" where
  "restarted_settings s = s\<lparr>settingsOpen := settingsOpen initialSettings, settingsTab := settingsTab initialSettings,
     serverSettingsId := serverSettingsId initialSettings\<rparr>"

inductive settings_reach :: "SettingsState \<Rightarrow> bool" where
  first: "settings_reach initialSettings"
| acted: "settings_reach s \<Longrightarrow> settings_reach (settings_do ss a s)"
| consumed: "settings_reach s \<Longrightarrow> settings_reach (snd (consumeAddSourceRequest s))"
| restarts: "settings_reach s \<Longrightarrow> settings_reach (restarted_settings s)"

section \<open>Notifications\<close>

record notification =
  nt_title :: str
  nt_body :: str
  nt_tag :: str
  nt_sound :: bool

definition server_of_room :: "Server list \<Rightarrow> str \<Rightarrow> str option" where
  "server_of_room ss roomId = map_option srv_id (find (\<lambda>s. list_ex (\<lambda>c. ch_matrix_room_id c = roomId) (srv_channels s)) ss)"

text \<open>The cascade: channel, server, default.\<close>
definition effective_level :: "SettingsState \<Rightarrow> Server list \<Rightarrow> str \<Rightarrow> NotificationLevel" where
  "effective_level s ss roomId =
    (let l0 = defaultNotificationLevel s;
         l1 = (case server_of_room ss roomId of None \<Rightarrow> l0
           | Some i \<Rightarrow> if i = [] then l0 else (case serverNotifications s i of None \<Rightarrow> l0 | Some l \<Rightarrow> l))
     in (case channelNotifications s roomId of None \<Rightarrow> l1 | Some l \<Rightarrow> l))"

definition localpart :: "str \<Rightarrow> str" where
  "localpart u = hd (split_on CHR '':'' u)"

text \<open>\<open>s.replace("@", "")\<close> drops the first one.\<close>
definition without_at :: "str \<Rightarrow> str" where
  "without_at s = takeWhile (\<lambda>c. c \<noteq> CHR ''@'') s @ drop 1 (dropWhile (\<lambda>c. c \<noteq> CHR ''@'') s)"

definition mentions_user :: "str option \<Rightarrow> str \<Rightarrow> bool" where
  "mentions_user userId body = (let u = (case userId of None \<Rightarrow> [] | Some x \<Rightarrow> x)
     in includes_sub u body \<or> includes_sub (localpart u) body)"

definition body_text :: "matrix_event \<Rightarrow> str" where
  "body_text ev = (case text_of (jget (ev_content ev) ''body'') of None \<Rightarrow> [] | Some b \<Rightarrow> b)"

text \<open>The listener: the document's visibility, the permission, the user, the settings and the servers, the event and the
  id and name of its room.\<close>
definition onTimeline :: "bool \<Rightarrow> bool \<Rightarrow> str option \<Rightarrow> SettingsState \<Rightarrow> Server list \<Rightarrow> matrix_event \<Rightarrow> (str \<times> str) option \<Rightarrow> notification option" where
  "onTimeline hidden granted userId s ss ev room =
    (if \<not> hidden \<or> ev_type ev \<noteq> ''m.room.message'' \<or> Some (ev_sender ev) = userId \<or> \<not> granted then None
     else case room of None \<Rightarrow> None
     | Some (roomId, name) \<Rightarrow>
         if roomId = [] then None
         else let level = effective_level s ss roomId in
         if level = NotifyNothing then None
         else if level = NotifyMentions \<and> \<not> mentions_user userId (body_text ev) then None
         else Some \<lparr>nt_title = without_at (localpart (ev_sender ev)) @ '' in #'' @ (if name = [] then ''a channel'' else name),
                nt_body = body_text ev, nt_tag = roomId, nt_sound = notificationSound s\<rparr>)"

text \<open>The hook: without a client or with notifications switched off there is no listener.\<close>
definition useNotifications :: "bool \<Rightarrow> bool \<Rightarrow> bool \<Rightarrow> str option \<Rightarrow> SettingsState \<Rightarrow> Server list \<Rightarrow> matrix_event \<Rightarrow> (str \<times> str) option \<Rightarrow> notification option" where
  "useNotifications client hidden granted userId s ss ev room =
    (if client \<and> notificationsEnabled s then onTimeline hidden granted userId s ss ev room else None)"

section \<open>Formats\<close>

datatype alignment = AlignLeft | AlignCenter | AlignRight | AlignJustify

record FormatOverride =
  fo_alignment :: alignment
  fo_fontSize :: js_number
  fo_color :: str
  fo_fontFamily :: str

record FormatPatch =
  fp_alignment :: "alignment option"
  fp_fontSize :: "js_number option"
  fp_color :: "str option"
  fp_fontFamily :: "str option"

definition DEFAULT_FORMAT :: FormatOverride where
  "DEFAULT_FORMAT = \<lparr>fo_alignment = AlignLeft, fo_fontSize = Some 14, fo_color = [], fo_fontFamily = ''system''\<rparr>"

definition over :: "'a option \<Rightarrow> 'a \<Rightarrow> 'a" where
  "over p x = (case p of None \<Rightarrow> x | Some y \<Rightarrow> y)"

text \<open>\<open>{ ...f, ...p }\<close>\<close>
definition patched :: "FormatOverride \<Rightarrow> FormatPatch \<Rightarrow> FormatOverride" where
  "patched f p = \<lparr>fo_alignment = over (fp_alignment p) (fo_alignment f), fo_fontSize = over (fp_fontSize p) (fo_fontSize f),
     fo_color = over (fp_color p) (fo_color f), fo_fontFamily = over (fp_fontFamily p) (fo_fontFamily f)\<rparr>"

record FormatState =
  messageFormats :: "str \<Rightarrow> FormatOverride option"
  senderFormats :: "str \<Rightarrow> FormatOverride option"
  draftFormat :: FormatOverride
  formatPanelOpen :: bool

definition initialFormats :: FormatState where
  "initialFormats = \<lparr>messageFormats = (\<lambda>i. None), senderFormats = (\<lambda>i. None), draftFormat = DEFAULT_FORMAT, formatPanelOpen = False\<rparr>"

definition setMessageFormat :: "str \<Rightarrow> FormatPatch \<Rightarrow> FormatState \<Rightarrow> FormatState" where
  "setMessageFormat i p s = s\<lparr>messageFormats := (messageFormats s)(i := Some (patched (over (messageFormats s i) DEFAULT_FORMAT) p))\<rparr>"

definition setSenderFormat :: "str \<Rightarrow> FormatPatch \<Rightarrow> FormatState \<Rightarrow> FormatState" where
  "setSenderFormat u p s = s\<lparr>senderFormats := (senderFormats s)(u := Some (patched (over (senderFormats s u) DEFAULT_FORMAT) p))\<rparr>"

definition clearMessageFormat :: "str \<Rightarrow> FormatState \<Rightarrow> FormatState" where
  "clearMessageFormat i s = s\<lparr>messageFormats := (messageFormats s)(i := None)\<rparr>"

definition clearSenderFormat :: "str \<Rightarrow> FormatState \<Rightarrow> FormatState" where
  "clearSenderFormat u s = s\<lparr>senderFormats := (senderFormats s)(u := None)\<rparr>"

definition setDraftFormat :: "FormatPatch \<Rightarrow> FormatState \<Rightarrow> FormatState" where
  "setDraftFormat p s = s\<lparr>draftFormat := patched (draftFormat s) p\<rparr>"

definition clearDraftFormat :: "FormatState \<Rightarrow> FormatState" where
  "clearDraftFormat s = s\<lparr>draftFormat := DEFAULT_FORMAT\<rparr>"

definition setFormatPanelOpen :: "bool \<Rightarrow> FormatState \<Rightarrow> FormatState" where
  "setFormatPanelOpen b s = s\<lparr>formatPanelOpen := b\<rparr>"

text \<open>What the sender asked for: \<open>content\<close> is read off the message, which has no such field, so it is undefined.\<close>
definition parseSenderDisplay :: "FormatPatch option \<Rightarrow> FormatPatch" where
  "parseSenderDisplay display = (case display of
     None \<Rightarrow> \<lparr>fp_alignment = None, fp_fontSize = None, fp_color = None, fp_fontFamily = None\<rparr> | Some d \<Rightarrow> d)"

definition message_display :: "ChatMessage \<Rightarrow> FormatPatch option" where
  "message_display m = None"

definition useResolvedFormat :: "FormatState \<Rightarrow> ChatMessage \<Rightarrow> FormatOverride" where
  "useResolvedFormat s m =
    over (messageFormats s (cm_id m)) (over (senderFormats s (cm_sender m)) (patched DEFAULT_FORMAT (parseSenderDisplay (message_display m))))"

text \<open>A restart keeps the overrides.\<close>
definition restarted_formats :: "FormatState \<Rightarrow> FormatState" where
  "restarted_formats s = initialFormats\<lparr>messageFormats := messageFormats s, senderFormats := senderFormats s\<rparr>"

section \<open>Properties\<close>

definition whole_between :: "real \<Rightarrow> real \<Rightarrow> js_number \<Rightarrow> bool" where
  "whole_between lo hi v = (case v of None \<Rightarrow> False | Some x \<Rightarrow> lo \<le> x \<and> x \<le> hi \<and> x \<in> \<int>)"

definition settings_bounded :: "SettingsState \<Rightarrow> bool" where
  "settings_bounded s = (whole_between INPUT_NOISE_GATE_DB_MIN INPUT_NOISE_GATE_DB_MAX (inputNoiseGateThresholdDb s)
    \<and> whole_between CHAT_FONT_SIZE_MIN CHAT_FONT_SIZE_MAX (chatFontSize s)
    \<and> (case voiceClarityStrength s of None \<Rightarrow> False | Some x \<Rightarrow> 0 \<le> x \<and> x \<le> 1))"

lemma clamp_between: "lo \<le> hi \<Longrightarrow> lo \<le> clamp lo hi x \<and> clamp lo hi x \<le> hi"
  by (auto simp: clamp_def)

lemma clamp_whole: "lo \<in> \<int> \<Longrightarrow> hi \<in> \<int> \<Longrightarrow> x \<in> \<int> \<Longrightarrow> clamp lo hi x \<in> \<int>"
  by (auto simp: clamp_def max_def min_def)

lemma set_bounded:
  "settings_bounded s \<Longrightarrow> settings_bounded (setInputNoiseGateThresholdDb v s)"
  "settings_bounded s \<Longrightarrow> settings_bounded (setVoiceClarityStrength v s)"
  "settings_bounded s \<Longrightarrow> settings_bounded (setChatFontSize v s)"
proof -
  assume b: "settings_bounded s"
  have w: "whole_between lo hi (Some (clamp lo hi (js_round x)))" if "lo \<le> hi" "lo \<in> \<int>" "hi \<in> \<int>" for lo hi x
    using that clamp_between[of lo hi "js_round x"] clamp_whole[of lo hi "js_round x"] by (simp add: whole_between_def js_round_def)
  show "settings_bounded (setInputNoiseGateThresholdDb v s)" "settings_bounded (setChatFontSize v s)"
    using b w[of "- 72" "- 18"] w[of 12 32]
    by (auto simp: settings_bounded_def setInputNoiseGateThresholdDb_def setChatFontSize_def INPUT_NOISE_GATE_DB_MIN_def
        INPUT_NOISE_GATE_DB_MAX_def CHAT_FONT_SIZE_MIN_def CHAT_FONT_SIZE_MAX_def split: option.splits)
  show "settings_bounded (setVoiceClarityStrength v s)"
    using b clamp_between[of 0 1] by (auto simp: settings_bounded_def setVoiceClarityStrength_def split: option.splits)
qed

text \<open>Two states with the same bounded fields.\<close>
lemma bounded_cong:
  "inputNoiseGateThresholdDb s' = inputNoiseGateThresholdDb s \<Longrightarrow> chatFontSize s' = chatFontSize s
    \<Longrightarrow> voiceClarityStrength s' = voiceClarityStrength s \<Longrightarrow> settings_bounded s \<Longrightarrow> settings_bounded s'"
  by (simp add: settings_bounded_def)

lemma initial_bounded: "settings_bounded initialSettings"
  by (simp add: settings_bounded_def whole_between_def initialSettings_def INPUT_NOISE_GATE_DB_MIN_def INPUT_NOISE_GATE_DB_MAX_def
      INPUT_NOISE_GATE_DB_DEFAULT_def CHAT_FONT_SIZE_MIN_def CHAT_FONT_SIZE_MAX_def CHAT_FONT_SIZE_DEFAULT_def)

lemma do_bounded: "settings_bounded s \<Longrightarrow> settings_bounded (settings_do ss a s)"
proof (cases a)
  case ResetToDefaults
  then show ?thesis using bounded_cong[OF _ _ _ initial_bounded] by (simp add: resetToDefaults_def)
qed (auto intro: set_bounded elim: bounded_cong[rotated 3] simp: setServerNotificationLevel_def setChannelNotificationLevel_def
      requestAddSource_def openServerSettings_def)

text \<open>C29. The bounded settings stay in their bounds: whatever is done and however often the client restarts, the gate's
  threshold is a whole number of decibels between -72 and -18, the text size a whole number of pixels between 12 and 32 and the
  clarity between 0 and 1; values that are not finite are dropped.\<close>
theorem settings_stay_bounded:
  assumes "settings_reach s"
  shows "settings_bounded s"
  using assms
proof (induction rule: settings_reach.induct)
  case (consumed s)
  then show ?case using bounded_cong[of _ s] by (simp add: consumeAddSourceRequest_def)
next
  case (restarts s)
  then show ?case using bounded_cong[of _ s] by (simp add: restarted_settings_def)
qed (simp_all add: initial_bounded do_bounded)

theorem settings_stay_bounded_witness:
  "settings_bounded (settings_do [] (SetChatFontSize (Some 100)) initialSettings)
    \<and> chatFontSize (settings_do [] (SetChatFontSize (Some 100)) initialSettings) = Some 32"
proof
  show "settings_bounded (settings_do [] (SetChatFontSize (Some 100)) initialSettings)"
    by (rule settings_stay_bounded[OF settings_reach.acted[OF settings_reach.first]])
  have "\<lfloor>100 + 1 / 2 :: real\<rfloor> = 100" by linarith
  then show "chatFontSize (settings_do [] (SetChatFontSize (Some 100)) initialSettings) = Some 32"
    by (simp add: setChatFontSize_def clamp_def js_round_def CHAT_FONT_SIZE_MIN_def CHAT_FONT_SIZE_MAX_def)
qed

text \<open>The request for the source screen is handed out once, and it is also persisted: one that was not consumed is there
  again after a restart.\<close>
lemma request_consumed_once:
  "fst (consumeAddSourceRequest (requestAddSource x s)) \<noteq> None
    \<and> fst (consumeAddSourceRequest (snd (consumeAddSourceRequest s))) = None"
  by (simp add: consumeAddSourceRequest_def requestAddSource_def)

lemma request_survives_restart: "pendingAddSourceScreen (restarted_settings (requestAddSource (Some x) s)) = Some x"
  by (simp add: restarted_settings_def requestAddSource_def)

lemma level_of_channel [simp]: "effective_level (setChannelNotificationLevel r (Some l) s) ss r = l"
  by (simp add: effective_level_def setChannelNotificationLevel_def)

lemma level_of_others: "r' \<noteq> r \<Longrightarrow> effective_level (setChannelNotificationLevel r l s) ss r' = effective_level s ss r'"
  by (simp add: effective_level_def setChannelNotificationLevel_def Let_def split: option.splits)

text \<open>A channel's own level decides for that channel alone: silenced it never notifies, set to all it notifies of
  every message that can be notified, set back to the default it follows its server, and no other channel changes; a restart
  keeps this.\<close>
theorem channel_level_decides:
  "(room = Some (r, n) \<longrightarrow>
      useNotifications c hidden granted u (setChannelNotificationLevel r (Some NotifyNothing) s) ss ev room = None
      \<and> (c \<and> hidden \<and> granted \<and> notificationsEnabled s \<and> r \<noteq> [] \<and> ev_type ev = ''m.room.message'' \<and> Some (ev_sender ev) \<noteq> u \<longrightarrow>
          useNotifications c hidden granted u (setChannelNotificationLevel r (Some NotifyAll) s) ss ev room \<noteq> None)
      \<and> effective_level (setChannelNotificationLevel r None (setChannelNotificationLevel r l s)) ss r
        = (case server_of_room ss r of None \<Rightarrow> defaultNotificationLevel s
           | Some i \<Rightarrow> if i = [] then defaultNotificationLevel s else over (serverNotifications s i) (defaultNotificationLevel s)))
    \<and> ((\<forall>n. room \<noteq> Some (r, n)) \<longrightarrow>
      useNotifications c hidden granted u (setChannelNotificationLevel r l s) ss ev room = useNotifications c hidden granted u s ss ev room)
    \<and> useNotifications c hidden granted u (restarted_settings s) ss ev room = useNotifications c hidden granted u s ss ev room"
proof (intro conjI impI)
  assume room: "room = Some (r, n)"
  show "useNotifications c hidden granted u (setChannelNotificationLevel r (Some NotifyNothing) s) ss ev room = None"
    by (simp add: useNotifications_def onTimeline_def room)
  show "useNotifications c hidden granted u (setChannelNotificationLevel r (Some NotifyAll) s) ss ev room \<noteq> None"
    if "c \<and> hidden \<and> granted \<and> notificationsEnabled s \<and> r \<noteq> [] \<and> ev_type ev = ''m.room.message'' \<and> Some (ev_sender ev) \<noteq> u"
  proof -
    have "notificationsEnabled (setChannelNotificationLevel r (Some NotifyAll) s) = notificationsEnabled s"
      by (simp add: setChannelNotificationLevel_def)
    then show ?thesis using that by (simp add: useNotifications_def onTimeline_def room)
  qed
  show "effective_level (setChannelNotificationLevel r None (setChannelNotificationLevel r l s)) ss r
      = (case server_of_room ss r of None \<Rightarrow> defaultNotificationLevel s
         | Some i \<Rightarrow> if i = [] then defaultNotificationLevel s else over (serverNotifications s i) (defaultNotificationLevel s))"
    by (simp add: effective_level_def setChannelNotificationLevel_def over_def Let_def split: option.splits)
next
  assume other: "\<forall>n. room \<noteq> Some (r, n)"
  have e: "notificationsEnabled (setChannelNotificationLevel r l s) = notificationsEnabled s"
    "notificationSound (setChannelNotificationLevel r l s) = notificationSound s"
    by (simp_all add: setChannelNotificationLevel_def)
  show "useNotifications c hidden granted u (setChannelNotificationLevel r l s) ss ev room = useNotifications c hidden granted u s ss ev room"
  proof (cases room)
    case (Some x)
    then obtain r' n' where x: "room = Some (r', n')" "r' \<noteq> r" using other by (cases x) auto
    then show ?thesis by (simp only: useNotifications_def onTimeline_def e option.case prod.case level_of_others[OF x(2)])
  qed (simp add: useNotifications_def onTimeline_def e)
next
  have parts: "defaultNotificationLevel (restarted_settings s) = defaultNotificationLevel s"
    "serverNotifications (restarted_settings s) = serverNotifications s" "channelNotifications (restarted_settings s) = channelNotifications s"
    "notificationsEnabled (restarted_settings s) = notificationsEnabled s" "notificationSound (restarted_settings s) = notificationSound s"
    by (simp_all add: restarted_settings_def)
  show "useNotifications c hidden granted u (restarted_settings s) ss ev room = useNotifications c hidden granted u s ss ev room"
    by (simp only: useNotifications_def onTimeline_def effective_level_def parts)
qed

theorem channel_level_decides_witness:
  "useNotifications True True True (Some ''@a:x'') (setChannelNotificationLevel ''!r'' (Some NotifyAll) initialSettings) []
      \<lparr>ev_id = ''e'', ev_sender = ''@b:x'', ev_type = ''m.room.message'', ev_ts = 0, ev_redacted = False, ev_content = JObj []\<rparr> (Some (''!r'', ''n'')) \<noteq> None"
  using channel_level_decides[of "Some (''!r'', ''n'')" "''!r''" "''n''" True True True "Some ''@a:x''" initialSettings "[]"
      "\<lparr>ev_id = ''e'', ev_sender = ''@b:x'', ev_type = ''m.room.message'', ev_ts = 0, ev_redacted = False, ev_content = JObj []\<rparr>"]
  by (simp add: initialSettings_def)

text \<open>A mention is any occurrence of the user's name: the mention of somebody whose name begins with it counts.\<close>
lemma longer_name_mentions:
  assumes "prefix (localpart u) v" and "body = a @ v @ b"
  shows "mentions_user (Some u) body"
proof -
  obtain t where "v = localpart u @ t" using assms(1) by (auto elim: prefixE)
  then have "body = a @ localpart u @ (t @ b)" using assms(2) by simp
  then have "sublist (localpart u) body" by (metis sublist_appendI)
  then show ?thesis by (simp add: mentions_user_def includes_sub_sublist)
qed

text \<open>Changing one field of a message's display for the first time forgets the display chosen for its sender: the
  other three fields fall back to the defaults.\<close>
theorem first_override_resets_others:
  assumes "messageFormats s (cm_id m) = None" and "senderFormats s (cm_sender m) = Some f"
  shows "useResolvedFormat s m = f \<and> useResolvedFormat (setMessageFormat (cm_id m) p s) m = patched DEFAULT_FORMAT p"
  using assms by (simp add: useResolvedFormat_def setMessageFormat_def over_def)

theorem first_override_resets_others_witness:
  "\<exists>s m. fo_fontSize (useResolvedFormat s m) = Some 20 \<and> fo_fontSize (useResolvedFormat (setMessageFormat (cm_id m)
      \<lparr>fp_alignment = Some AlignCenter, fp_fontSize = None, fp_color = None, fp_fontFamily = None\<rparr> s) m) = Some 14"
proof -
  define m :: ChatMessage where "m = \<lparr>cm_id = ''e'', cm_sender = ''@a:x'', cm_body = [], cm_timestamp = 0, cm_redacted = False, cm_edited = False,
    cm_msgtype = ''m.text'', cm_url = None, cm_info = None, cm_reactions = [], cm_chartRaw = None, cm_widgetRaw = None\<rparr>"
  define s where "s = setSenderFormat ''@a:x'' \<lparr>fp_alignment = None, fp_fontSize = Some (Some 20), fp_color = None, fp_fontFamily = None\<rparr> initialFormats"
  have "messageFormats s (cm_id m) = None" "senderFormats s (cm_sender m) = Some (DEFAULT_FORMAT\<lparr>fo_fontSize := Some 20\<rparr>)"
    by (simp_all add: s_def m_def setSenderFormat_def initialFormats_def patched_def over_def DEFAULT_FORMAT_def)
  from first_override_resets_others[OF this, of "\<lparr>fp_alignment = Some AlignCenter, fp_fontSize = None, fp_color = None, fp_fontFamily = None\<rparr>"]
  show ?thesis by (intro exI[of _ s] exI[of _ m]) (simp add: patched_def over_def DEFAULT_FORMAT_def)
qed

end
