(* ===== verification/Composer.thy ===== *)
theory Composer
  imports Prelude
begin

text \<open>
  Writing a message: \<open>components/chat/MessageInput.tsx\<close>, its staged files with their previews and the submission
  split at its awaits, over the typing notices of \<open>hooks/useTyping.ts\<close> with their timer. Object URLs are made
  by the browser and arrive with the files; revoking one is recorded. Sending is the parent's: its answers are events.
\<close>

section \<open>Typing notices\<close>

text \<open>The two refs of the hook, and the notices sent: when, and whether typing.\<close>
record Typing =
  ty_typing :: bool
  ty_timer :: "int option"
  ty_sent :: "(int \<times> bool) list"

definition TYPING_IDLE_MS :: int where "TYPING_IDLE_MS = 3000"
definition TYPING_NOTICE_MS :: int where "TYPING_NOTICE_MS = 30000"

definition noTyping :: Typing where
  "noTyping = \<lparr>ty_typing = False, ty_timer = None, ty_sent = []\<rparr>"

definition stopTyping :: "int \<Rightarrow> Typing \<Rightarrow> Typing" where
  "stopTyping now t = (if \<not> ty_typing t then t else \<lparr>ty_typing = False, ty_timer = None, ty_sent = ty_sent t @ [(now, False)]\<rparr>)"

definition onKeystroke :: "int \<Rightarrow> Typing \<Rightarrow> Typing" where
  "onKeystroke now t = (let t1 = t\<lparr>ty_timer := Some (now + TYPING_IDLE_MS)\<rparr> in
     if ty_typing t then t1 else t1\<lparr>ty_typing := True, ty_sent := ty_sent t @ [(now, True)]\<rparr>)"

text \<open>The timer calls \<open>stopTyping\<close>.\<close>
definition typingTimer :: "int \<Rightarrow> Typing \<Rightarrow> Typing option" where
  "typingTimer now t = (if ty_timer t \<noteq> None \<and> the (ty_timer t) \<le> now then Some (stopTyping now (t\<lparr>ty_timer := None\<rparr>)) else None)"

text \<open>The cleanup at unmount or on another room; the notices go to the old one.\<close>
definition leaveTyping :: "int \<Rightarrow> Typing \<Rightarrow> Typing" where
  "leaveTyping now t = (let t1 = t\<lparr>ty_timer := None\<rparr> in
     if ty_typing t then t1\<lparr>ty_typing := False, ty_sent := ty_sent t @ [(now, False)]\<rparr> else t1)"

text \<open>What the others see: the server lets a notice lapse after the time it was sent with.\<close>
definition seen_typing :: "int \<Rightarrow> Typing \<Rightarrow> bool" where
  "seen_typing now t = (case filter (\<lambda>(at, _). at \<le> now) (ty_sent t) of [] \<Rightarrow> False
     | xs \<Rightarrow> (case last xs of (at, on) \<Rightarrow> on \<and> now < at + TYPING_NOTICE_MS))"

text \<open>\<open>useTypingUsers\<close>: the others in the room who are typing, by display name.\<close>
definition typingNames :: "str option \<Rightarrow> (str \<times> str \<times> bool) list \<Rightarrow> str list" where
  "typingNames userId joined = map (\<lambda>(uid, name, _). if name \<noteq> [] then name
       else let l = hd (split_on CHR '':'' uid) in takeWhile (\<lambda>c. c \<noteq> CHR ''@'') l @ drop 1 (dropWhile (\<lambda>c. c \<noteq> CHR ''@'') l))
     (filter (\<lambda>(uid, _, typing). typing \<and> Some uid \<noteq> userId) joined)"

section \<open>The composer\<close>

record StagedFile =
  sf_id :: str
  sf_file :: str
  sf_preview :: "str option"

datatype send_call = CallEdit str str | CallFile str | CallText str

text \<open>A submission under way: what it still has to call, and the previews it revokes at its end.\<close>
record Submission =
  sub_calls :: "send_call list"
  sub_files :: "StagedFile list"
  sub_edits :: bool

record Composer =
  cp_text :: str
  cp_staged :: "StagedFile list"
  cp_editing :: "(str \<times> str) option"
  cp_pending :: "str option"
  cp_submission :: "Submission option"
  cp_revoked :: "str list"
  cp_done :: "send_call list"
  cp_toasts :: "str list"
  cp_typing :: Typing

definition emptyComposer :: Composer where
  "emptyComposer = \<lparr>cp_text = [], cp_staged = [], cp_editing = None, cp_pending = None, cp_submission = None, cp_revoked = [],
     cp_done = [], cp_toasts = [], cp_typing = noTyping\<rparr>"

definition previews :: "StagedFile list \<Rightarrow> str list" where
  "previews fs = List.map_filter sf_preview fs"

definition revoke :: "str list \<Rightarrow> Composer \<Rightarrow> Composer" where
  "revoke urls s = s\<lparr>cp_revoked := cp_revoked s @ urls\<rparr>"

text \<open>A new list of staged files: the effect of the old one is cleaned up, which revokes the previews of the old list.\<close>
definition restage :: "StagedFile list \<Rightarrow> Composer \<Rightarrow> Composer" where
  "restage fs s = revoke (previews (cp_staged s)) (s\<lparr>cp_staged := fs\<rparr>)"

definition stageFiles :: "StagedFile list \<Rightarrow> Composer \<Rightarrow> Composer" where
  "stageFiles fs s = restage (cp_staged s @ fs) s"

definition removeStaged :: "str \<Rightarrow> Composer \<Rightarrow> Composer" where
  "removeStaged i s = restage (drop_by sf_id i (cp_staged s))
     (case find_by sf_id i (cp_staged s) of None \<Rightarrow> s
      | Some f \<Rightarrow> (case sf_preview f of None \<Rightarrow> s | Some u \<Rightarrow> if u = [] then s else revoke [u] s))"

text \<open>The parent hands in a message to edit; the effect fills the field.\<close>
definition startEditing :: "str \<times> str \<Rightarrow> Composer \<Rightarrow> Composer" where
  "startEditing m s = restage [] (s\<lparr>cp_editing := Some m, cp_text := snd m\<rparr>)"

definition cancelEdit :: "Composer \<Rightarrow> Composer" where
  "cancelEdit s = s\<lparr>cp_text := [], cp_editing := None\<rparr>"

definition handleChange :: "int \<Rightarrow> str \<Rightarrow> Composer \<Rightarrow> Composer" where
  "handleChange now txt s = (let s1 = s\<lparr>cp_text := txt\<rparr> in
     if cp_editing s \<noteq> None then s1
     else s1\<lparr>cp_typing := (if txt \<noteq> [] then onKeystroke now (cp_typing s) else stopTyping now (cp_typing s))\<rparr>)"

text \<open>What Enter does: on a touch device, with shift or in an input method it is a character.\<close>
definition enterSubmits :: "bool \<Rightarrow> bool \<Rightarrow> bool \<Rightarrow> bool" where
  "enterSubmits coarsePointer shiftKey composing = (\<not> coarsePointer \<and> \<not> shiftKey \<and> \<not> composing)"

text \<open>The end of a submission that succeeded; \<open>finally\<close> allows the next.\<close>
definition submissionEnds :: "Submission \<Rightarrow> Composer \<Rightarrow> Composer" where
  "submissionEnds sub s = revoke (previews (sub_files sub))
     (s\<lparr>cp_editing := (if sub_edits sub then None else cp_editing s), cp_pending := None, cp_submission := None\<rparr>)"

text \<open>\<open>handleSubmit\<close> up to its first await. The flags: whether the parent takes edits and files.\<close>
definition handleSubmit :: "bool \<Rightarrow> bool \<Rightarrow> int \<Rightarrow> Composer \<Rightarrow> Composer" where
  "handleSubmit canEdit canSendFile now s =
    (let trimmed = trim (cp_text s) in
     if trimmed = [] \<and> cp_staged s = [] \<or> cp_submission s \<noteq> None then s
     else let files = cp_staged s;
              s1 = restage [] (s\<lparr>cp_pending := Some trimmed, cp_text := [], cp_typing := stopTyping now (cp_typing s)\<rparr>);
              sub = (case cp_editing s of
                  Some (i, _) \<Rightarrow> if canEdit then \<lparr>sub_calls = [CallEdit i trimmed], sub_files = files, sub_edits = True\<rparr>
                    else \<lparr>sub_calls = (if canSendFile then map (CallFile \<circ> sf_file) files else []) @ (if trimmed \<noteq> [] then [CallText trimmed] else []),
                          sub_files = files, sub_edits = False\<rparr>
                | None \<Rightarrow> \<lparr>sub_calls = (if canSendFile then map (CallFile \<circ> sf_file) files else []) @ (if trimmed \<noteq> [] then [CallText trimmed] else []),
                          sub_files = files, sub_edits = False\<rparr>)
       in if sub_calls sub = [] then submissionEnds sub s1 else s1\<lparr>cp_submission := Some sub\<rparr>)"

text \<open>The awaited call returns.\<close>
definition callReturns :: "Composer \<Rightarrow> Composer option" where
  "callReturns s = (case cp_submission s of None \<Rightarrow> None
     | Some sub \<Rightarrow> (case sub_calls sub of [] \<Rightarrow> None
       | c # cs \<Rightarrow> let sub' = sub\<lparr>sub_calls := cs\<rparr>; s1 = s\<lparr>cp_done := cp_done s @ [c], cp_submission := Some sub'\<rparr>
           in Some (if cs = [] then submissionEnds sub' s1 else s1)))"

text \<open>It throws: an Error with its message, or something else.\<close>
definition callThrows :: "str option \<Rightarrow> Composer \<Rightarrow> Composer option" where
  "callThrows err s = (case cp_submission s of None \<Rightarrow> None
     | Some sub \<Rightarrow> Some (s\<lparr>cp_text := (if cp_text s \<noteq> [] then cp_text s else case cp_pending s of None \<Rightarrow> [] | Some p \<Rightarrow> p),
         cp_pending := None, cp_toasts := cp_toasts s @ [case err of Some m \<Rightarrow> m | None \<Rightarrow> ''Failed to send message''],
         cp_submission := None\<rparr>))"

datatype composer_event =
    Typed int str | Staged "StagedFile list" | Unstaged str | EditMessage "str \<times> str" | Escape | Blur int
  | Submitted bool bool int | CallReturns | CallThrows "str option" | TimerFires int

fun composer_step :: "composer_event \<Rightarrow> Composer \<Rightarrow> Composer option" where
  "composer_step (Typed now txt) s = Some (handleChange now txt s)"
| "composer_step (Staged fs) s = Some (stageFiles fs s)"
| "composer_step (Unstaged i) s = Some (removeStaged i s)"
| "composer_step (EditMessage m) s = Some (startEditing m s)"
| "composer_step Escape s = (if cp_editing s = None then None else Some (cancelEdit s))"
| "composer_step (Blur now) s = Some (s\<lparr>cp_typing := stopTyping now (cp_typing s)\<rparr>)"
| "composer_step (Submitted canEdit canSendFile now) s = Some (handleSubmit canEdit canSendFile now s)"
| "composer_step CallReturns s = callReturns s"
| "composer_step (CallThrows err) s = callThrows err s"
| "composer_step (TimerFires now) s = map_option (\<lambda>t. s\<lparr>cp_typing := t\<rparr>) (typingTimer now (cp_typing s))"

fun composer_run :: "composer_event list \<Rightarrow> Composer \<Rightarrow> Composer option" where
  "composer_run [] s = Some s"
| "composer_run (e # es) s = (case composer_step e s of None \<Rightarrow> None | Some s' \<Rightarrow> composer_run es s')"

section \<open>One submission\<close>

text \<open>What a composer event that is not an answer leaves of the submission under way.\<close>
lemma step_quiet:
  "composer_step e s = Some s' \<Longrightarrow> cp_submission s = Some sub \<Longrightarrow> e \<noteq> CallReturns \<Longrightarrow> (\<forall>err. e \<noteq> CallThrows err)
    \<Longrightarrow> cp_submission s' = Some sub \<and> cp_done s' = cp_done s"
  by (induction e s rule: composer_step.induct)
    (auto simp: handleChange_def stageFiles_def removeStaged_def restage_def revoke_def startEditing_def cancelEdit_def handleSubmit_def
      Let_def split: if_splits option.splits)

definition answers :: "composer_event list \<Rightarrow> nat" where
  "answers es = length (filter (\<lambda>e. e = CallReturns) es)"

text \<open>However the user's events fall between the answers, the calls are made one after another.\<close>
lemma submission_progress:
  "composer_run es s = Some s' \<Longrightarrow> cp_submission s = Some sub \<Longrightarrow> (\<forall>err. CallThrows err \<notin> set es) \<Longrightarrow> answers es < length (sub_calls sub)
    \<Longrightarrow> cp_submission s' = Some (sub\<lparr>sub_calls := drop (answers es) (sub_calls sub)\<rparr>) \<and> cp_done s' = cp_done s @ take (answers es) (sub_calls sub)"
proof (induction es arbitrary: s sub)
  case (Cons e es)
  then obtain s1 where s1: "composer_step e s = Some s1" "composer_run es s1 = Some s'" by (auto split: option.splits)
  show ?case
  proof (cases "e = CallReturns")
    case False
    then have "cp_submission s1 = Some sub \<and> cp_done s1 = cp_done s" using step_quiet[OF s1(1) Cons.prems(2)] Cons.prems(3) by auto
    moreover have "answers (e # es) = answers es" using False by (simp add: answers_def)
    ultimately show ?thesis using Cons.IH[OF s1(2), of sub] Cons.prems by simp
  next
    case True
    have n: "answers (e # es) = Suc (answers es)" using True by (simp add: answers_def)
    then obtain c c2 cs where cs: "sub_calls sub = c # c2 # cs" using Cons.prems(4) by (cases "sub_calls sub"; cases "tl (sub_calls sub)") auto
    then have "s1 = s\<lparr>cp_done := cp_done s @ [c], cp_submission := Some (sub\<lparr>sub_calls := c2 # cs\<rparr>)\<rparr>"
      using s1(1) Cons.prems(2) True by (auto simp: callReturns_def Let_def)
    then show ?thesis using Cons.IH[OF s1(2), of "sub\<lparr>sub_calls := c2 # cs\<rparr>"] Cons.prems n cs by simp
  qed
qed (simp add: answers_def)

lemma composer_run_append: "composer_run (es @ fs) s = (case composer_run es s of None \<Rightarrow> None | Some s' \<Rightarrow> composer_run fs s')"
  by (induction es arbitrary: s) (auto split: option.splits)

text \<open>What a submission calls.\<close>
definition calls_of :: "bool \<Rightarrow> bool \<Rightarrow> Composer \<Rightarrow> send_call list" where
  "calls_of canEdit canSendFile s =
    (let text_call = (if trim (cp_text s) \<noteq> [] then [CallText (trim (cp_text s))] else []);
         all_calls = (if canSendFile then map (CallFile \<circ> sf_file) (cp_staged s) else []) @ text_call
     in case cp_editing s of None \<Rightarrow> all_calls
        | Some (i, _) \<Rightarrow> if canEdit then [CallEdit i (trim (cp_text s))] else all_calls)"

lemma submit_begins:
  assumes "trim (cp_text s) \<noteq> [] \<or> cp_staged s \<noteq> []" and "cp_submission s = None" and "calls_of canEdit canSendFile s \<noteq> []"
  shows "\<exists>sub. cp_submission (handleSubmit canEdit canSendFile now s) = Some sub \<and> sub_calls sub = calls_of canEdit canSendFile s
    \<and> sub_edits sub = (cp_editing s \<noteq> None \<and> canEdit) \<and> sub_files sub = cp_staged s
    \<and> cp_done (handleSubmit canEdit canSendFile now s) = cp_done s \<and> cp_staged (handleSubmit canEdit canSendFile now s) = []
    \<and> cp_text (handleSubmit canEdit canSendFile now s) = [] \<and> cp_pending (handleSubmit canEdit canSendFile now s) = Some (trim (cp_text s))"
  using assms by (auto simp: handleSubmit_def calls_of_def restage_def revoke_def Let_def split: option.splits if_splits)

section \<open>Properties\<close>

text \<open>C30. A submission makes its calls one after another, the staged files in their order and then the text, or the edit
  alone, whatever the user does while they run; with the last answer it is over and the next can begin.\<close>
theorem submission_in_order:
  assumes "trim (cp_text s) \<noteq> [] \<or> cp_staged s \<noteq> []" and "cp_submission s = None" and "calls_of canEdit canSendFile s \<noteq> []"
    and "composer_run (es @ [CallReturns]) (handleSubmit canEdit canSendFile now s) = Some s'"
    and "\<forall>err. CallThrows err \<notin> set es" and "Suc (answers es) = length (calls_of canEdit canSendFile s)"
  shows "cp_done s' = cp_done s @ calls_of canEdit canSendFile s \<and> cp_submission s' = None"
proof -
  obtain sub where sub: "cp_submission (handleSubmit canEdit canSendFile now s) = Some sub" "sub_calls sub = calls_of canEdit canSendFile s"
    "cp_done (handleSubmit canEdit canSendFile now s) = cp_done s"
    using submit_begins[OF assms(1-3)] by blast
  obtain s1 where s1: "composer_run es (handleSubmit canEdit canSendFile now s) = Some s1" "composer_step CallReturns s1 = Some s'"
    using assms(4) by (auto simp: composer_run_append split: option.splits)
  obtain cs c where cs: "sub_calls sub = cs @ [c]" "length cs = answers es"
    using assms(6) sub(2) by (metis length_Suc_conv_rev)
  have p: "cp_submission s1 = Some (sub\<lparr>sub_calls := [c]\<rparr>)" "cp_done s1 = cp_done s @ cs"
    using submission_progress[OF s1(1) sub(1) assms(5)] cs sub(3) by simp_all
  then show ?thesis using s1(2) cs(1) sub(2) by (auto simp: callReturns_def submissionEnds_def revoke_def Let_def)
qed

text \<open>When a file fails to send, the files behind it are lost: they are neither sent nor staged any more; the text is
  put back.\<close>
theorem failed_send_loses_files:
  assumes "cp_editing s = None" and "cp_submission s = None" and "trim (cp_text s) \<noteq> []" and "n < length (cp_staged s)"
    and "s' = the (composer_run (replicate n CallReturns @ [CallThrows err]) (handleSubmit canEdit True now s))"
  shows "cp_done s' = cp_done s @ map (CallFile \<circ> sf_file) (take n (cp_staged s)) \<and> cp_staged s' = []
    \<and> cp_text s' = trim (cp_text s) \<and> cp_submission s' = None"
proof -
  have calls: "calls_of canEdit True s = map (CallFile \<circ> sf_file) (cp_staged s) @ [CallText (trim (cp_text s))]"
    using assms(1,3) by (simp add: calls_of_def)
  then obtain sub where sub: "cp_submission (handleSubmit canEdit True now s) = Some sub" "sub_calls sub = calls_of canEdit True s"
    "cp_done (handleSubmit canEdit True now s) = cp_done s" "cp_staged (handleSubmit canEdit True now s) = []"
    "cp_text (handleSubmit canEdit True now s) = []" "cp_pending (handleSubmit canEdit True now s) = Some (trim (cp_text s))"
    using submit_begins[of s canEdit True now] assms(2,3) by auto
  have go: "\<exists>s1. composer_run (replicate n CallReturns) s0 = Some s1 \<and> cp_staged s1 = cp_staged s0 \<and> cp_text s1 = cp_text s0 \<and> cp_pending s1 = cp_pending s0"
    if "cp_submission s0 = Some sub0" "n < length (sub_calls sub0)" for s0 sub0 n
    using that
  proof (induction n arbitrary: s0 sub0)
    case (Suc n)
    then obtain c c2 cs where cs: "sub_calls sub0 = c # c2 # cs" by (cases "sub_calls sub0"; cases "tl (sub_calls sub0)") auto
    then have "callReturns s0 = Some (s0\<lparr>cp_done := cp_done s0 @ [c], cp_submission := Some (sub0\<lparr>sub_calls := c2 # cs\<rparr>)\<rparr>)"
      using Suc.prems(1) by (simp add: callReturns_def Let_def)
    then show ?case
      using Suc.IH[of "s0\<lparr>cp_done := cp_done s0 @ [c], cp_submission := Some (sub0\<lparr>sub_calls := c2 # cs\<rparr>)\<rparr>" "sub0\<lparr>sub_calls := c2 # cs\<rparr>"]
        Suc.prems cs by simp
  qed simp
  have n: "n < length (sub_calls sub)" using assms(4) by (simp add: sub(2) calls)
  obtain s1 where s1: "composer_run (replicate n CallReturns) (handleSubmit canEdit True now s) = Some s1" "cp_staged s1 = []"
      "cp_text s1 = []" "cp_pending s1 = Some (trim (cp_text s))"
    using go[OF sub(1) n] sub(4,5,6) by auto
  have a: "answers (replicate n CallReturns) = n" by (simp add: answers_def)
  have p: "cp_submission s1 \<noteq> None" "cp_done s1 = cp_done s @ take n (calls_of canEdit True s)"
    using submission_progress[OF s1(1) sub(1)] n a sub(2,3) by auto
  then obtain s2 where "callThrows err s1 = Some s2" by (auto simp: callThrows_def)
  then have "s' = s2" using s1(1) assms(5) by (simp add: composer_run_append)
  then show ?thesis using \<open>callThrows err s1 = Some s2\<close> s1 p assms(4)
    by (auto simp: callThrows_def calls take_map split: option.splits)
qed

text \<open>Staging another file breaks the previews that are shown: the URLs of all files that were staged before are
  revoked while the files stay in the deck; the same when one of several is removed.\<close>
theorem staging_breaks_previews:
  assumes "f \<in> set (cp_staged s)" and "sf_preview f = Some u"
  shows "f \<in> set (cp_staged (stageFiles fs s)) \<and> u \<in> set (cp_revoked (stageFiles fs s))
    \<and> (if sf_id f \<noteq> i then f \<in> set (cp_staged (removeStaged i s)) \<and> u \<in> set (cp_revoked (removeStaged i s)) else f \<notin> set (cp_staged (removeStaged i s)))"
proof -
  have "u \<in> set (previews (cp_staged s))" using assms by (auto simp: previews_def map_filter_def image_iff)
  then show ?thesis using assms
    by (auto simp: stageFiles_def removeStaged_def restage_def revoke_def set_drop_by split: option.splits)
qed

text \<open>An edit leaves staged files behind, and with files staged it can empty the message.\<close>
lemma edit_discards_files:
  assumes "cp_editing s = Some (i, b)" and "cp_submission s = None" and "cp_staged s \<noteq> []"
  shows "cp_staged (handleSubmit True canSendFile now s) = [] \<and> calls_of True canSendFile s = [CallEdit i (trim (cp_text s))]"
  using assms submit_begins[of s True canSendFile now] by (auto simp: calls_of_def)

section \<open>Typing\<close>

datatype typing_event = Key int | StopT int | Timer int | LeaveT int

fun typing_step :: "typing_event \<Rightarrow> Typing \<Rightarrow> Typing option" where
  "typing_step (Key now) t = Some (onKeystroke now t)"
| "typing_step (StopT now) t = Some (stopTyping now t)"
| "typing_step (Timer now) t = typingTimer now t"
| "typing_step (LeaveT now) t = Some (leaveTyping now t)"

inductive typing_reach :: "Typing \<Rightarrow> bool" where
  mounted: "typing_reach noTyping"
| typed: "typing_reach t \<Longrightarrow> typing_step e t = Some t' \<Longrightarrow> typing_reach t'"

fun alternates :: "bool \<Rightarrow> (int \<times> bool) list \<Rightarrow> bool" where
  "alternates b [] = True"
| "alternates b ((at, on) # xs) = (on = b \<and> alternates (\<not> b) xs)"

lemma alternates_snoc: "alternates b (xs @ [(at, on)]) \<longleftrightarrow> alternates b xs \<and> on = (if even (length xs) then b else \<not> b)"
  by (induction b xs rule: alternates.induct) auto

text \<open>The notices alternate, beginning with one that says typing, the last one says what the hook believes, and while it
  believes the user is typing the timer that takes it back is armed, and only then.\<close>
theorem typing_notices_alternate:
  assumes "typing_reach t"
  shows "alternates True (ty_sent t) \<and> ty_typing t = odd (length (ty_sent t)) \<and> (ty_timer t \<noteq> None) = ty_typing t"
  using assms
proof (induction rule: typing_reach.induct)
  case (typed t e t')
  then show ?case
    by (cases e) (auto simp: onKeystroke_def stopTyping_def typingTimer_def leaveTyping_def Let_def alternates_snoc split: if_splits)
qed (simp add: noTyping_def)

theorem typing_notices_alternate_witness:
  "alternates True (ty_sent (stopTyping 9000 (onKeystroke 100 noTyping))) \<and> \<not> ty_typing (stopTyping 9000 (onKeystroke 100 noTyping))"
proof -
  have "typing_reach (stopTyping 9000 (onKeystroke 100 noTyping))"
    by (rule typing_reach.typed[OF typing_reach.typed[OF typing_reach.mounted, of "Key 100"], of _ "StopT 9000"]) simp_all
  then show ?thesis using typing_notices_alternate by (simp add: stopTyping_def onKeystroke_def Let_def noTyping_def)
qed

text \<open>A keystroke, after the timer if that is due.\<close>
definition key_at :: "int \<Rightarrow> Typing \<Rightarrow> Typing" where
  "key_at now t = onKeystroke now (case typingTimer now t of None \<Rightarrow> t | Some t' \<Rightarrow> t')"

text \<open>Keystrokes with pauses too short for the timer.\<close>
fun steady :: "int list \<Rightarrow> bool" where
  "steady (a # b # ts) = (a \<le> b \<and> b < a + TYPING_IDLE_MS \<and> steady (b # ts))"
| "steady ts = True"

text \<open>Who types without a pause disappears after thirty seconds: the first keystroke's notice is the only one sent, it is
  not renewed, and the server lets it lapse while the user still types.\<close>
theorem steady_typist_disappears:
  assumes "steady (a # ts)" and "a + TYPING_NOTICE_MS \<le> now"
  shows "ty_typing (fold key_at (a # ts) noTyping) \<and> ty_sent (fold key_at (a # ts) noTyping) = [(a, True)]
    \<and> \<not> seen_typing now (fold key_at (a # ts) noTyping)"
proof -
  have "ty_typing t \<Longrightarrow> ty_timer t = Some (a + TYPING_IDLE_MS) \<Longrightarrow> steady (a # ts) \<Longrightarrow>
      ty_typing (fold key_at ts t) \<and> ty_sent (fold key_at ts t) = ty_sent t" for t a
  proof (induction ts arbitrary: t a)
    case (Cons b ts)
    then have "key_at b t = t\<lparr>ty_timer := Some (b + TYPING_IDLE_MS)\<rparr>"
      by (simp add: key_at_def typingTimer_def onKeystroke_def Let_def)
    then show ?case using Cons by simp
  qed simp
  from this[of "key_at a noTyping" a] assms(1)
  have "ty_typing (fold key_at (a # ts) noTyping) \<and> ty_sent (fold key_at (a # ts) noTyping) = [(a, True)]"
    by (simp add: key_at_def typingTimer_def onKeystroke_def noTyping_def Let_def)
  then show ?thesis using assms(2) by (simp add: seen_typing_def TYPING_NOTICE_MS_def split: list.splits)
qed

theorem steady_typist_disappears_witness:
  "\<not> seen_typing 30000 (fold key_at (map (\<lambda>i. 2000 * int i) [0..<16]) noTyping)"
proof -
  have "map (\<lambda>i. 2000 * int i) [0..<16] = 0 # map (\<lambda>i. 2000 * int i) [1..<16]" by (simp add: upt_rec)
  moreover have "steady (0 # map (\<lambda>i. 2000 * int i) [1..<16])" by code_simp
  ultimately show ?thesis using steady_typist_disappears[of 0 "map (\<lambda>i. 2000 * int i) [1..<16]" 30000] by (simp add: TYPING_NOTICE_MS_def)
qed

section \<open>Examples\<close>

definition two_files :: Composer where
  "two_files = stageFiles [\<lparr>sf_id = ''2'', sf_file = ''b.png'', sf_preview = Some ''blob:b''\<rparr>]
     (stageFiles [\<lparr>sf_id = ''1'', sf_file = ''a.png'', sf_preview = Some ''blob:a''\<rparr>] (emptyComposer\<lparr>cp_text := ''hi''\<rparr>))"

theorem submission_in_order_witness:
  "cp_done (the (composer_run ([CallReturns, Typed 5 ''next'', CallReturns] @ [CallReturns]) (handleSubmit True True 0 two_files)))
    = [CallFile ''a.png'', CallFile ''b.png'', CallText ''hi'']"
proof -
  have s: "composer_run ([CallReturns, Typed 5 ''next'', CallReturns] @ [CallReturns]) (handleSubmit True True 0 two_files)
      = Some (the (composer_run ([CallReturns, Typed 5 ''next'', CallReturns] @ [CallReturns]) (handleSubmit True True 0 two_files)))"
    by code_simp
  have c: "calls_of True True two_files = [CallFile ''a.png'', CallFile ''b.png'', CallText ''hi'']" "cp_done two_files = []"
      "cp_submission two_files = None" "cp_staged two_files \<noteq> []"
    by code_simp+
  have n: "Suc (answers [CallReturns, Typed 5 ''next'', CallReturns]) = length (calls_of True True two_files)" by code_simp
  have t: "\<forall>err. CallThrows err \<notin> set [CallReturns, Typed 5 ''next'', CallReturns]" by simp
  have "trim (cp_text two_files) \<noteq> [] \<or> cp_staged two_files \<noteq> []" using c(4) by blast
  from submission_in_order[OF this c(3) _ s t n] show ?thesis using c(1,2) by simp
qed

theorem failed_send_loses_files_witness:
  "cp_staged (the (composer_run (replicate 0 CallReturns @ [CallThrows None]) (handleSubmit True True 0 two_files))) = []
    \<and> cp_done (the (composer_run (replicate 0 CallReturns @ [CallThrows None]) (handleSubmit True True 0 two_files))) = []"
proof -
  have c: "cp_editing two_files = None" "cp_submission two_files = None" "trim (cp_text two_files) \<noteq> []" "0 < length (cp_staged two_files)"
      "cp_done two_files = []"
    by code_simp+
  from failed_send_loses_files[where canEdit = True and err = None and now = 0, OF c(1-4) refl] show ?thesis using c(5) by simp
qed

theorem staging_breaks_previews_witness:
  "''blob:b'' \<in> set (cp_revoked (removeStaged ''1'' two_files)) \<and> length (cp_staged (removeStaged ''1'' two_files)) = 1"
proof -
  have "\<lparr>sf_id = ''2'', sf_file = ''b.png'', sf_preview = Some ''blob:b''\<rparr> \<in> set (cp_staged two_files)"
    by (simp add: two_files_def stageFiles_def restage_def revoke_def)
  from staging_breaks_previews[OF this, of "''blob:b''" "[]" "''1''"]
  have "''blob:b'' \<in> set (cp_revoked (removeStaged ''1'' two_files))" by simp
  moreover have "length (cp_staged (removeStaged ''1'' two_files)) = 1" by code_simp
  ultimately show ?thesis by blast
qed

end
