(* ===== verification/Updater.thy ===== *)
theory Updater
  imports Storage JsonText "HOL-Library.Char_ord" "HOL-Library.List_Lexorder"
begin

text \<open>
  Updates of the desktop application: the order of versions of \<open>utils/version.ts\<close> as an instance of the class of
  linear orders, and \<open>lib/updater.ts\<close> over it. The releases listing, the manifest asset, the dialog and the
  clock are arguments; what is opened and asked is recorded. An ellipsis is its three UTF-8 bytes.
\<close>

section \<open>Versions\<close>

text \<open>\<open>parseInt(s, 10)\<close>, None for NaN.\<close>
definition parseInt10 :: "str \<Rightarrow> int option" where
  "parseInt10 s = (let t = dropWhile is_space s;
       (neg, u) = (case t of [] \<Rightarrow> (False, [])
         | c # r \<Rightarrow> if c = CHR ''-'' then (True, r) else if c = CHR ''+'' then (False, r) else (False, t));
       ds = takeWhile is_digit u
     in if ds = [] then None else Some (if neg then - int (digits_value ds) else int (digits_value ds)))"

datatype version = Version (major: int) (minor: int) (patch: int) (pre: str)

definition strip_v :: "str \<Rightarrow> str" where
  "strip_v s = (if starts_with ''v'' s then drop 1 s else s)"

definition version_part :: "int option list \<Rightarrow> nat \<Rightarrow> int" where
  "version_part parts i = (if i < length parts then (case parts ! i of None \<Rightarrow> 0 | Some n \<Rightarrow> n) else 0)"

definition parseVersion :: "str \<Rightarrow> version" where
  "parseVersion input = (let s = strip_v (trim input);
       core = takeWhile (\<lambda>c. c \<noteq> CHR ''-'') s;
       parts = map parseInt10 (split_on CHR ''.'' core)
     in Version (version_part parts 0) (version_part parts 1) (version_part parts 2)
          (drop 1 (dropWhile (\<lambda>c. c \<noteq> CHR ''-'') s)))"

definition compareVersions :: "str \<Rightarrow> str \<Rightarrow> int" where
  "compareVersions a b = (let pa = parseVersion a; pb = parseVersion b in
     if major pa \<noteq> major pb then (if major pa < major pb then -1 else 1)
     else if minor pa \<noteq> minor pb then (if minor pa < minor pb then -1 else 1)
     else if patch pa \<noteq> patch pb then (if patch pa < patch pb then -1 else 1)
     else if pre pa = pre pb then 0
     else if pre pa = [] then 1
     else if pre pb = [] then -1
     else if pre pa < pre pb then -1 else 1)"

text \<open>The order of versions: a prerelease comes before its release.\<close>
definition pre_less :: "str \<Rightarrow> str \<Rightarrow> bool" where
  "pre_less p q = (p \<noteq> [] \<and> (q = [] \<or> p < q))"

instantiation version :: linorder
begin

definition less_version :: "version \<Rightarrow> version \<Rightarrow> bool" where
  "less_version v w = (major v < major w \<or> major v = major w \<and> (minor v < minor w \<or> minor v = minor w
     \<and> (patch v < patch w \<or> patch v = patch w \<and> pre_less (pre v) (pre w))))"

definition less_eq_version :: "version \<Rightarrow> version \<Rightarrow> bool" where
  "less_eq_version v w = (v = w \<or> v < w)"

instance
proof
  fix x y z :: version
  have pre_trans: "pre_less p q \<Longrightarrow> pre_less q r \<Longrightarrow> pre_less p r" for p q r
    by (auto simp: pre_less_def)
  have pre_irrefl: "\<not> pre_less p p" for p by (simp add: pre_less_def)
  have pre_total: "pre_less p q \<or> p = q \<or> pre_less q p" for p q by (auto simp: pre_less_def)
  have irrefl: "\<not> x < x" for x :: version by (simp add: less_version_def pre_irrefl)
  have trans: "x < z" if "x < y" "y < z" for x y z :: version
    using that pre_trans[of "pre x" "pre y" "pre z"] unfolding less_version_def by (elim disjE conjE) simp_all
  have asym: "x < y \<Longrightarrow> \<not> y < x" using trans[of x y x] irrefl[of x] by blast
  show "x < y \<longleftrightarrow> x \<le> y \<and> \<not> y \<le> x"
    unfolding less_eq_version_def using asym irrefl[of x] by auto
  show "x \<le> x" by (simp add: less_eq_version_def)
  show "x \<le> y \<Longrightarrow> y \<le> z \<Longrightarrow> x \<le> z" unfolding less_eq_version_def using trans[of x y z] by auto
  show "x \<le> y \<Longrightarrow> y \<le> x \<Longrightarrow> x = y" unfolding less_eq_version_def using asym by auto
  show "x \<le> y \<or> y \<le> x"
    unfolding less_eq_version_def less_version_def
    using pre_total[of "pre x" "pre y"] version.expand[of x y]
      less_linear[of "major x" "major y"] less_linear[of "minor x" "minor y"] less_linear[of "patch x" "patch y"]
    by argo
qed

end

section \<open>The updater\<close>

definition LAST_CHECKED_KEY :: str where "LAST_CHECKED_KEY = ''concord.updater.lastChecked.v1''"
definition LAST_DISMISSED_KEY :: str where "LAST_DISMISSED_KEY = ''concord.updater.lastDismissedVersion.v1''"
definition STARTUP_DEBOUNCE_MS :: int where "STARTUP_DEBOUNCE_MS = 6 * 60 * 60 * 1000"

datatype PlatformSuffix = WindowsP | MacIntelP | MacArmP | LinuxP | UnknownP

fun suffix_text :: "PlatformSuffix \<Rightarrow> str" where
  "suffix_text WindowsP = ''windows''"
| "suffix_text MacIntelP = ''macos-intel''"
| "suffix_text MacArmP = ''macos-arm64''"
| "suffix_text LinuxP = ''linux''"
| "suffix_text UnknownP = ''unknown''"

text \<open>The user agent, None without a navigator, and the architecture the agent data give.\<close>
definition detectPlatform :: "str option \<Rightarrow> str option \<Rightarrow> PlatformSuffix" where
  "detectPlatform userAgent architecture = (case userAgent of None \<Rightarrow> UnknownP
     | Some ua \<Rightarrow> let has = (\<lambda>w. includes_sub w (to_lower ua)) in
         if has ''windows'' then WindowsP
         else if has ''linux'' \<and> \<not> has ''android'' then LinuxP
         else if has ''mac'' then (if architecture = Some ''x86'' then MacIntelP else MacArmP)
         else UnknownP)"

record UpdaterManifest =
  um_version :: str
  um_tag :: str
  um_installerUrl :: str
  um_installerName :: str
  um_notes :: str
  um_platform :: PlatformSuffix

record ReleaseAsset =
  ra_name :: str
  ra_url :: str

record ReleaseJson =
  rj_tag :: str
  rj_body :: "str option"
  rj_assets :: "ReleaseAsset list"

text \<open>The answer to the listing: the message of what is thrown, a failing status, or the releases.\<close>
datatype listing = ListingFails str | ListingStatus int | Releases "ReleaseJson list"

definition strip_suffix :: "str \<Rightarrow> str \<Rightarrow> str" where
  "strip_suffix p s = (if ends_with p s then take (length s - length p) s else s)"

definition is_installer :: "ReleaseAsset \<Rightarrow> bool" where
  "is_installer a = (ends_with ''.exe'' (ra_name a) \<or> ends_with ''.dmg'' (ra_name a) \<or> ends_with ''.AppImage'' (ra_name a))"

text \<open>\<open>manifest\<close> gives the document at a URL, None when the request or the parsing fails.\<close>
definition published_manifest :: "(str \<Rightarrow> json option) \<Rightarrow> PlatformSuffix \<Rightarrow> ReleaseJson \<Rightarrow> UpdaterManifest option" where
  "published_manifest manifest platform release =
    (case find (\<lambda>a. ra_name a = ''updater-manifest.json'') (rj_assets release) of None \<Rightarrow> None
     | Some a \<Rightarrow> (case manifest (ra_url a) of None \<Rightarrow> None
       | Some parsed \<Rightarrow> (case (text_of (jget parsed ''version''), text_of (jget parsed ''installerUrl'')) of
           (Some v, Some u) \<Rightarrow> Some \<lparr>um_version = v,
             um_tag = (case as_str (jget parsed ''tag'') of Some t \<Rightarrow> t | None \<Rightarrow> rj_tag release), um_installerUrl = u,
             um_installerName = (case as_str (jget parsed ''installerName'') of Some n \<Rightarrow> n | None \<Rightarrow> ''installer''),
             um_notes = (case as_str (jget parsed ''notes'') of Some n \<Rightarrow> n
               | None \<Rightarrow> (case rj_body release of Some b \<Rightarrow> b | None \<Rightarrow> [])), um_platform = platform\<rparr>
         | _ \<Rightarrow> None)))"

definition synthesized_manifest :: "PlatformSuffix \<Rightarrow> ReleaseJson \<Rightarrow> UpdaterManifest option" where
  "synthesized_manifest platform release =
    (case find is_installer (rj_assets release) of None \<Rightarrow> None
     | Some a \<Rightarrow> Some \<lparr>um_version = strip_suffix (''-'' @ suffix_text platform) (strip_v (rj_tag release)),
         um_tag = rj_tag release, um_installerUrl = ra_url a, um_installerName = ra_name a,
         um_notes = take 800 (case rj_body release of Some b \<Rightarrow> b | None \<Rightarrow> []), um_platform = platform\<rparr>)"

definition fetchLatestManifest :: "listing \<Rightarrow> (str \<Rightarrow> json option) \<Rightarrow> PlatformSuffix \<Rightarrow> str + UpdaterManifest option" where
  "fetchLatestManifest answer manifest platform =
    (if platform = UnknownP then Inr None
     else case answer of ListingFails m \<Rightarrow> Inl m
       | ListingStatus n \<Rightarrow> Inl (''GitHub releases fetch '' @ int_text n)
       | Releases rs \<Rightarrow> (case find (\<lambda>r. ends_with (''-'' @ suffix_text platform) (rj_tag r)) rs of
           None \<Rightarrow> Inr None
         | Some r \<Rightarrow> (case published_manifest manifest platform r of
             Some m \<Rightarrow> Inr (Some m) | None \<Rightarrow> Inr (synthesized_manifest platform r))))"

text \<open>\<open>/^\d+\.\d+\.\d+/\<close>\<close>
definition digits_then :: "(str \<Rightarrow> bool) \<Rightarrow> str \<Rightarrow> bool" where
  "digits_then rest s = (takeWhile is_digit s \<noteq> [] \<and> rest (dropWhile is_digit s))"

definition dot_then :: "(str \<Rightarrow> bool) \<Rightarrow> str \<Rightarrow> bool" where
  "dot_then rest s = (case s of [] \<Rightarrow> False | c # r \<Rightarrow> c = CHR ''.'' \<and> rest r)"

definition looks_like_version :: "str \<Rightarrow> bool" where
  "looks_like_version = digits_then (dot_then (digits_then (dot_then (digits_then (\<lambda>r. True)))))"

definition getCurrentVersion :: "str option \<Rightarrow> str" where
  "getCurrentVersion built = (case built of None \<Rightarrow> ''0.0.0-dev''
     | Some v \<Rightarrow> if v \<noteq> [] \<and> looks_like_version v then v else ''0.0.0-dev'')"

text \<open>The local storage is None where access throws.\<close>
record UpdWorld =
  uw_storage :: "local_storage option"
  uw_opened :: "str list"
  uw_asked :: "str list"

definition readLastChecked :: "UpdWorld \<Rightarrow> int" where
  "readLastChecked w = (case uw_storage w of None \<Rightarrow> 0
     | Some ls \<Rightarrow> (case getItem ls LAST_CHECKED_KEY of None \<Rightarrow> 0
         | Some raw \<Rightarrow> (case parseInt10 raw of None \<Rightarrow> 0 | Some n \<Rightarrow> n)))"

definition store_item :: "str \<Rightarrow> str \<Rightarrow> UpdWorld \<Rightarrow> UpdWorld" where
  "store_item k v w = w\<lparr>uw_storage := map_option (setItem k v) (uw_storage w)\<rparr>"

definition writeLastChecked :: "int \<Rightarrow> UpdWorld \<Rightarrow> UpdWorld" where
  "writeLastChecked ts w = store_item LAST_CHECKED_KEY (int_text ts) w"

datatype UpdaterCheckResult =
    UpToDate str
  | Available str str UpdaterManifest bool
  | UpdaterError str

record UpdEnv =
  ue_isTauri :: bool
  ue_userAgent :: "str option"
  ue_architecture :: "str option"
  ue_built :: "str option"
  ue_listing :: listing
  ue_manifest :: "str \<Rightarrow> json option"
  ue_now :: int

definition update_message :: "UpdaterManifest \<Rightarrow> str \<Rightarrow> str" where
  "update_message m current =
    (let notes = um_notes m;
         excerpt = (if notes \<noteq> [] then take 400 notes @ (if length notes > 400 then [CHR 0xE2, CHR 0x80, CHR 0xA6] else [])
                    else ''(no release notes)'')
     in ''Concord '' @ um_version m @ '' is available (you have '' @ current @ '').'' @ [CHR 10, CHR 10]
        @ excerpt @ [CHR 10, CHR 10] @ ''Update now? This will open '' @ um_installerName m @ '' in your browser.'')"

definition checkForUpdates :: "UpdEnv \<Rightarrow> (str \<Rightarrow> bool) \<Rightarrow> UpdWorld \<Rightarrow> UpdaterCheckResult \<times> UpdWorld" where
  "checkForUpdates env confirm w =
    (if \<not> ue_isTauri env then (UpdaterError ''Updater is only available in the desktop app.'', w)
     else let platform = detectPlatform (ue_userAgent env) (ue_architecture env) in
     if platform = UnknownP then (UpdaterError ''Unable to detect platform for updates.'', w)
     else let current = getCurrentVersion (ue_built env) in
     case fetchLatestManifest (ue_listing env) (ue_manifest env) platform of
       Inl err \<Rightarrow> (UpdaterError err, w)
     | Inr found \<Rightarrow> let w1 = writeLastChecked (ue_now env) w in
        (case found of None \<Rightarrow> (UpToDate current, w1)
         | Some m \<Rightarrow>
           if compareVersions (um_version m) current \<le> 0 then (UpToDate current, w1)
           else let message = update_message m current; accepted = confirm message;
                    w2 = w1\<lparr>uw_asked := uw_asked w1 @ [message]\<rparr>
             in (Available current (um_version m) m accepted,
                 if accepted then w2\<lparr>uw_opened := uw_opened w2 @ [um_installerUrl m]\<rparr>
                 else store_item LAST_DISMISSED_KEY (um_version m) w2)))"

text \<open>Whether a check is scheduled.\<close>
definition runStartupCheck :: "bool \<Rightarrow> int \<Rightarrow> UpdWorld \<Rightarrow> bool" where
  "runStartupCheck isTauri now w =
    (isTauri \<and> \<not> (readLastChecked w \<noteq> 0 \<and> now - readLastChecked w < STARTUP_DEBOUNCE_MS))"

section \<open>Reading what was printed\<close>

lemma parseInt10_digits:
  "ds \<noteq> [] \<Longrightarrow> list_all is_digit ds \<Longrightarrow> parseInt10 ds = Some (int (digits_value ds))"
proof -
  assume a: "ds \<noteq> []" "list_all is_digit ds"
  then obtain c r where ds: "ds = c # r" by (cases ds) auto
  then have c: "is_digit c" using a(2) by simp
  then have "\<not> is_space c" "c \<noteq> CHR ''-''" "c \<noteq> CHR ''+''" by (auto simp: is_digit_def is_space_def char_code_def)
  moreover have "takeWhile is_digit ds = ds" using a(2) by (simp add: list_all_iff takeWhile_eq_all_conv)
  ultimately show ?thesis using ds by (simp add: parseInt10_def)
qed

lemma nat_text_all_digits: "list_all is_digit (nat_text n)"
  using nat_text_digits by (auto simp: list_all_iff)

lemma parseInt10_nat_text [simp]: "parseInt10 (nat_text n) = Some (int n)"
  using parseInt10_digits[OF nat_text_nonempty nat_text_all_digits] by simp

lemma parseInt10_int_text: "0 \<le> i \<Longrightarrow> parseInt10 (int_text i) = Some i"
  by (simp add: int_text_def)

lemma nat_text_free: "\<not> is_digit c \<Longrightarrow> c \<notin> set (nat_text n)"
  using nat_text_digits by blast

lemma trim_id: "s \<noteq> [] \<Longrightarrow> \<not> is_space (hd s) \<Longrightarrow> \<not> is_space (last s) \<Longrightarrow> trim s = s"
proof -
  assume a: "s \<noteq> []" "\<not> is_space (hd s)" "\<not> is_space (last s)"
  have "dropWhile is_space s = s" using a(1,2) by (cases s) auto
  moreover have "dropWhile is_space (rev s) = rev s" using a(1,3) by (cases "rev s") (auto simp: last_rev[symmetric] hd_rev)
  ultimately show ?thesis by (simp add: trim_def)
qed

definition version_text :: "nat \<Rightarrow> nat \<Rightarrow> nat \<Rightarrow> str \<Rightarrow> str" where
  "version_text a b c p = nat_text a @ CHR ''.'' # nat_text b @ CHR ''.'' # nat_text c @ (if p = [] then [] else CHR ''-'' # p)"

lemma digit_facts: "is_digit c \<Longrightarrow> \<not> is_space c \<and> c \<noteq> CHR ''-'' \<and> c \<noteq> CHR ''.'' \<and> c \<noteq> CHR ''v''"
  by (auto simp: is_digit_def is_space_def char_code_def)

lemma version_text_trim:
  assumes "p = [] \<or> \<not> is_space (last p)"
  shows "trim (version_text a b c p) = version_text a b c p" "strip_v (version_text a b c p) = version_text a b c p"
    "trim (CHR ''v'' # version_text a b c p) = CHR ''v'' # version_text a b c p"
proof -
  obtain x r where x: "nat_text a = x # r" by (cases "nat_text a") auto
  have "is_digit x" using nat_text_digits[of x a] x by simp
  then have h: "\<not> is_space (hd (version_text a b c p))" "hd (version_text a b c p) \<noteq> CHR ''v''"
    using digit_facts x by (auto simp: version_text_def)
  have "is_digit (last (nat_text c))" using nat_text_digits[of "last (nat_text c)" c] by simp
  then have l: "\<not> is_space (last (version_text a b c p))" using assms digit_facts by (auto simp: version_text_def)
  have ne: "version_text a b c p \<noteq> []" by (simp add: version_text_def)
  show "trim (version_text a b c p) = version_text a b c p" by (rule trim_id[OF ne h(1) l])
  show "strip_v (version_text a b c p) = version_text a b c p"
    using h(2) ne by (cases "version_text a b c p") (auto simp: strip_v_def starts_with_def)
  show "trim (CHR ''v'' # version_text a b c p) = CHR ''v'' # version_text a b c p"
    by (rule trim_id) (use l ne in \<open>auto simp: is_space_def char_code_def\<close>)
qed

lemma parse_core:
  "strip_v (trim s) = version_text a b c p \<Longrightarrow> parseVersion s = Version (int a) (int b) (int c) p"
proof -
  assume s: "strip_v (trim s) = version_text a b c p"
  define core where "core = nat_text a @ CHR ''.'' # nat_text b @ CHR ''.'' # nat_text c"
  have f: "\<not> is_digit CHR ''-''" "\<not> is_digit CHR ''.''" by (auto simp: is_digit_def char_code_def)
  have nd: "CHR ''-'' \<notin> set core" using nat_text_free[OF f(1)] by (auto simp: core_def)
  have t: "version_text a b c p = core @ (if p = [] then [] else CHR ''-'' # p)" by (simp add: version_text_def core_def)
  have tw: "takeWhile (\<lambda>c. c \<noteq> CHR ''-'') (version_text a b c p) = core"
    "drop 1 (dropWhile (\<lambda>c. c \<noteq> CHR ''-'') (version_text a b c p)) = p"
  proof -
    have "takeWhile (\<lambda>c. c \<noteq> CHR ''-'') core = core" "dropWhile (\<lambda>c. c \<noteq> CHR ''-'') core = []"
      using nd by (auto simp: takeWhile_eq_all_conv dropWhile_eq_Nil_conv)
    then show "takeWhile (\<lambda>c. c \<noteq> CHR ''-'') (version_text a b c p) = core"
      "drop 1 (dropWhile (\<lambda>c. c \<noteq> CHR ''-'') (version_text a b c p)) = p"
      using nd unfolding t by (auto simp: takeWhile_append dropWhile_append)
  qed
  have "split_on CHR ''.'' core = [nat_text a, nat_text b, nat_text c]"
    unfolding core_def using nat_text_free[OF f(2)] by (simp add: split_free_append split_free)
  then show ?thesis by (simp add: parseVersion_def Let_def s tw(1) tw(2)[unfolded One_nat_def] version_part_def)
qed

section \<open>Properties\<close>

text \<open>C26. Comparing versions is a linear order: the result says which of the two is the smaller one in the order of
  versions, where numbers are compared as numbers and a prerelease precedes its release.\<close>
theorem compare_is_order:
  "compareVersions a b = (if parseVersion a < parseVersion b then -1 else if parseVersion a = parseVersion b then 0 else 1)"
proof (cases "parseVersion a"; cases "parseVersion b")
  fix a1 a2 a3 ap b1 b2 b3 bp
  assume "parseVersion a = Version a1 a2 a3 ap" "parseVersion b = Version b1 b2 b3 bp"
  then show ?thesis by (auto simp: compareVersions_def Let_def less_version_def pre_less_def)
qed

text \<open>A version reads as it was written, with or without the leading v, also with a prerelease tag.\<close>
theorem version_reads_back:
  assumes "p = [] \<or> \<not> is_space (last p)"
  shows "parseVersion (version_text a b c p) = Version (int a) (int b) (int c) p
    \<and> parseVersion (CHR ''v'' # version_text a b c p) = Version (int a) (int b) (int c) p"
proof -
  have "strip_v (CHR ''v'' # version_text a b c p) = version_text a b c p" by (simp add: strip_v_def starts_with_def)
  then show ?thesis using version_text_trim[OF assms, of a b c] by (auto intro!: parse_core)
qed

theorem version_reads_back_witness: "parseVersion ''v0.7.12-rc.1'' = Version 0 7 12 ''rc.1''"
proof -
  have "''rc.1'' = [] \<or> \<not> is_space (last ''rc.1'')" by code_simp
  moreover have "CHR ''v'' # version_text 0 7 12 ''rc.1'' = ''v0.7.12-rc.1''" by code_simp
  ultimately show ?thesis using version_reads_back[of "''rc.1''" 0 7 12] by simp
qed

lemma found_for_platform:
  assumes "fetchLatestManifest answer manifest platform = Inr (Some m)"
  shows "platform \<noteq> UnknownP \<and> um_platform m = platform \<and> (\<exists>rs r. answer = Releases rs \<and> r \<in> set rs
    \<and> ends_with (''-'' @ suffix_text platform) (rj_tag r)
    \<and> (published_manifest manifest platform r = Some m \<or> synthesized_manifest platform r = Some m))"
proof -
  have p: "platform \<noteq> UnknownP" using assms by (auto simp: fetchLatestManifest_def)
  obtain rs r where r: "answer = Releases rs" "find (\<lambda>r. ends_with (''-'' @ suffix_text platform) (rj_tag r)) rs = Some r"
      "published_manifest manifest platform r = Some m \<or> synthesized_manifest platform r = Some m"
    using assms p by (auto simp: fetchLatestManifest_def split: listing.splits option.splits)
  have "um_platform m = platform"
    using r(3) by (auto simp: published_manifest_def synthesized_manifest_def split: option.splits)
  moreover have "r \<in> set rs" "ends_with (''-'' @ suffix_text platform) (rj_tag r)" using r(2) by (auto simp: find_Some_iff)
  ultimately show ?thesis using p r(1,3) by blast
qed

lemma store_item_simps [simp]:
  "uw_opened (store_item k v w) = uw_opened w" "uw_asked (store_item k v w) = uw_asked w"
  "uw_opened (writeLastChecked ts w) = uw_opened w" "uw_asked (writeLastChecked ts w) = uw_asked w"
  by (simp_all add: store_item_def writeLastChecked_def)

text \<open>The user is asked exactly when there is an update: a release for this platform with a version above the
  current one; the installer of that release is opened exactly when the answer was yes, and nothing else is.\<close>
theorem update_asked_and_opened:
  assumes "checkForUpdates env confirm w = (res, w')"
  shows "case res of
      Available current latest m accepted \<Rightarrow> uw_asked w' = uw_asked w @ [update_message m current]
        \<and> accepted = confirm (update_message m current) \<and> uw_opened w' = uw_opened w @ (if accepted then [um_installerUrl m] else [])
        \<and> parseVersion current < parseVersion latest \<and> latest = um_version m
        \<and> um_platform m = detectPlatform (ue_userAgent env) (ue_architecture env)
        \<and> fetchLatestManifest (ue_listing env) (ue_manifest env) (um_platform m) = Inr (Some m)
    | UpToDate current \<Rightarrow> uw_asked w' = uw_asked w \<and> uw_opened w' = uw_opened w
        \<and> (\<exists>found. fetchLatestManifest (ue_listing env) (ue_manifest env) (detectPlatform (ue_userAgent env) (ue_architecture env)) = Inr found
          \<and> (found = None \<or> parseVersion (um_version (the found)) \<le> parseVersion current))
    | UpdaterError _ \<Rightarrow> w' = w"
proof -
  define platform where "platform = detectPlatform (ue_userAgent env) (ue_architecture env)"
  define current where "current = getCurrentVersion (ue_built env)"
  show ?thesis
  proof (cases "\<not> ue_isTauri env \<or> platform = UnknownP")
    case True
    then show ?thesis using assms by (cases "ue_isTauri env") (auto simp: checkForUpdates_def Let_def platform_def)
  next
    case False
    show ?thesis
    proof (cases "fetchLatestManifest (ue_listing env) (ue_manifest env) platform")
      case (Inl e)
      then show ?thesis using assms False by (auto simp: checkForUpdates_def Let_def platform_def)
    next
      case (Inr found)
      show ?thesis
      proof (cases found)
        case None
        then show ?thesis using assms False Inr by (auto simp: checkForUpdates_def Let_def platform_def)
      next
        case (Some m)
        have pl: "um_platform m = platform" using found_for_platform Inr Some by blast
        show ?thesis
        proof (cases "compareVersions (um_version m) current \<le> 0")
          case True
          then have "parseVersion (um_version m) \<le> parseVersion current" by (auto simp: compare_is_order split: if_splits)
          then show ?thesis using assms False Inr Some True
            by (auto simp: checkForUpdates_def Let_def platform_def current_def)
        next
          case newer: False
          then have lt: "parseVersion current < parseVersion (um_version m)" by (auto simp: compare_is_order split: if_splits)
          have "(res, w') = (Available current (um_version m) m (confirm (update_message m current)),
              if confirm (update_message m current)
              then (writeLastChecked (ue_now env) w)\<lparr>uw_asked := uw_asked w @ [update_message m current], uw_opened := uw_opened w @ [um_installerUrl m]\<rparr>
              else store_item LAST_DISMISSED_KEY (um_version m) ((writeLastChecked (ue_now env) w)\<lparr>uw_asked := uw_asked w @ [update_message m current]\<rparr>))"
            using assms False Inr Some newer by (cases "confirm (update_message m current)") (simp_all add: checkForUpdates_def Let_def platform_def current_def)
          then show ?thesis using lt pl Inr Some by (auto simp: platform_def)
        qed
      qed
    qed
  qed
qed

text \<open>After a check that reached the listing no check is scheduled at a start in the six hours that follow it; and
  with the clock set back behind it, none until six hours after the clock has caught up.\<close>
theorem startup_debounced:
  assumes "checkForUpdates env confirm w = (res, w')" and "\<forall>m. res \<noteq> UpdaterError m"
    and "uw_storage w = Some ls" and "0 < ue_now env"
  shows "runStartupCheck isTauri later w' \<longleftrightarrow> isTauri \<and> ue_now env + STARTUP_DEBOUNCE_MS \<le> later"
proof -
  have st: "uw_storage w' = Some (setItem LAST_CHECKED_KEY (int_text (ue_now env)) ls)
    \<or> (\<exists>v. uw_storage w' = Some (setItem LAST_DISMISSED_KEY v (setItem LAST_CHECKED_KEY (int_text (ue_now env)) ls)))"
    using assms(1,2,3) by (auto simp: checkForUpdates_def Let_def writeLastChecked_def store_item_def split: if_splits sum.splits option.splits)
  have "LAST_CHECKED_KEY \<noteq> LAST_DISMISSED_KEY" by code_simp
  then have "readLastChecked w' = ue_now env"
    using st assms(4) parseInt10_int_text[of "ue_now env"] by (auto simp: readLastChecked_def getItem_setItem)
  then show ?thesis using assms(4) by (auto simp: runStartupCheck_def)
qed

definition sample_release :: ReleaseJson where
  "sample_release = \<lparr>rj_tag = ''v0.8.0-linux'', rj_body = None, rj_assets = [\<lparr>ra_name = ''Concord.AppImage'', ra_url = ''https://x/C''\<rparr>]\<rparr>"

definition sample_upd :: UpdEnv where
  "sample_upd = \<lparr>ue_isTauri = True, ue_userAgent = Some ''X11; Linux x86_64'', ue_architecture = None, ue_built = Some ''0.7.12'',
     ue_listing = Releases [sample_release], ue_manifest = (\<lambda>u. None), ue_now = 1000\<rparr>"

definition fresh_upd :: UpdWorld where
  "fresh_upd = \<lparr>uw_storage = Some [], uw_opened = [], uw_asked = []\<rparr>"

definition offered :: UpdaterManifest where
  "offered = \<lparr>um_version = ''0.8.0'', um_tag = ''v0.8.0-linux'', um_installerUrl = ''https://x/C'', um_installerName = ''Concord.AppImage'',
     um_notes = [], um_platform = LinuxP\<rparr>"

lemma sample_check:
  "checkForUpdates sample_upd (\<lambda>q. True) fresh_upd =
    (Available ''0.7.12'' ''0.8.0'' offered True,
     \<lparr>uw_storage = Some [(LAST_CHECKED_KEY, ''1000'')], uw_opened = [''https://x/C''], uw_asked = [update_message offered ''0.7.12'']\<rparr>)"
  by code_simp

theorem update_asked_and_opened_witness:
  "uw_opened (snd (checkForUpdates sample_upd (\<lambda>q. True) fresh_upd)) = [''https://x/C'']
    \<and> parseVersion ''0.7.12'' < parseVersion ''0.8.0''"
  using update_asked_and_opened[OF sample_check] by (simp add: sample_check offered_def)

theorem startup_debounced_witness:
  "\<not> runStartupCheck True 21600999 (snd (checkForUpdates sample_upd (\<lambda>q. True) fresh_upd))
    \<and> runStartupCheck True 21601000 (snd (checkForUpdates sample_upd (\<lambda>q. True) fresh_upd))"
proof -
  have "uw_storage fresh_upd = Some []" "0 < ue_now sample_upd" by (simp_all add: fresh_upd_def sample_upd_def)
  then show ?thesis using startup_debounced[OF sample_check, of "[]" True] sample_check
    by (auto simp: sample_upd_def STARTUP_DEBOUNCE_MS_def)
qed

text \<open>A declined version is written down and never read: the same answers lead to the same question at the next check.\<close>
lemma declined_asked_again:
  assumes "checkForUpdates env (\<lambda>q. False) w = (Available c l m a, w')"
  shows "\<exists>w''. checkForUpdates (env\<lparr>ue_now := later\<rparr>) confirm w' = (Available c l m (confirm (update_message m c)), w'')"
  using assms by (auto simp: checkForUpdates_def Let_def split: if_splits sum.splits option.splits)

end
