(* ===== verification/Lifecycles.thy ===== *)
theory Lifecycles
  imports Picker
begin

text \<open>
  Resources tied to a component's life whose acquisition or release is awaited: the embedded host that
  \<open>hooks/useServitudeLifecycle.ts\<close> stops and restarts with the window's focus, the microphone of
  \<open>hooks/useMutedSpeaking.ts\<close>, and the chimes of \<open>hooks/useVoiceNotifications.ts\<close>. Every handler is split at its
  awaits; the pieces of several handlers interleave.
\<close>

section \<open>Hosting and the window's focus\<close>

text \<open>What a handler under way is waiting for. Several may be.\<close>
datatype lifecycle_wait = BlurStatus | BlurStop | FocusStart

text \<open>The host as the shell has it, the flag of the store, whether the window is in front.\<close>
record LifecycleWorld =
  lw_host :: ServitudeState
  lw_pausedByLifecycle :: bool
  lw_front :: bool
  lw_waits :: "lifecycle_wait list"

definition lifecycle_start :: "ServitudeState \<Rightarrow> LifecycleWorld" where
  "lifecycle_start st = \<lparr>lw_host = st, lw_pausedByLifecycle = False, lw_front = True, lw_waits = []\<rparr>"

definition setPaused :: "bool \<Rightarrow> LifecycleWorld \<Rightarrow> LifecycleWorld" where
  "setPaused b w = w\<lparr>lw_pausedByLifecycle := b\<rparr>"

definition waiting :: "lifecycle_wait list \<Rightarrow> LifecycleWorld \<Rightarrow> LifecycleWorld" where
  "waiting xs w = w\<lparr>lw_waits := lw_waits w @ xs\<rparr>"

definition waited :: "lifecycle_wait \<Rightarrow> LifecycleWorld \<Rightarrow> LifecycleWorld" where
  "waited x w = w\<lparr>lw_waits := remove1 x (lw_waits w)\<rparr>"

definition handleBlur :: "LifecycleWorld \<Rightarrow> LifecycleWorld" where
  "handleBlur w = waiting [BlurStatus] w"

text \<open>The status arrives, or the request fails: None.\<close>
definition blurStatus :: "ServitudeState option \<Rightarrow> LifecycleWorld \<Rightarrow> LifecycleWorld" where
  "blurStatus answer w = (if answer = Some ServRunning then waiting [BlurStop] (waited BlurStatus w) else waited BlurStatus w)"

text \<open>The stop returns; the shell has stopped the host, or has failed to.\<close>
definition blurStopped :: "bool \<Rightarrow> LifecycleWorld \<Rightarrow> LifecycleWorld" where
  "blurStopped ok w = (if ok then setPaused True (waited BlurStop w) else waited BlurStop w)"

definition handleFocus :: "LifecycleWorld \<Rightarrow> LifecycleWorld" where
  "handleFocus w = (if \<not> lw_pausedByLifecycle w then w else waiting [FocusStart] w)"

definition focusStarted :: "LifecycleWorld \<Rightarrow> LifecycleWorld" where
  "focusStarted w = setPaused False (waited FocusStart w)"

text \<open>The shell carries a command out when it answers; the user's own switch is in the settings.\<close>
datatype lifecycle_event = WindowBlur | WindowFocus | StatusArrives bool | StopReturns bool | StartReturns bool | UserStarts | UserStops

fun lifecycle_step :: "lifecycle_event \<Rightarrow> LifecycleWorld \<Rightarrow> LifecycleWorld option" where
  "lifecycle_step WindowBlur w = Some (handleBlur (w\<lparr>lw_front := False\<rparr>))"
| "lifecycle_step WindowFocus w = Some (handleFocus (w\<lparr>lw_front := True\<rparr>))"
| "lifecycle_step (StatusArrives ok) w = (if BlurStatus \<in> set (lw_waits w) then Some (blurStatus (if ok then Some (lw_host w) else None) w) else None)"
| "lifecycle_step (StopReturns ok) w = (if BlurStop \<in> set (lw_waits w)
     then Some (blurStopped ok (if ok then w\<lparr>lw_host := ServStopped\<rparr> else w)) else None)"
| "lifecycle_step (StartReturns ok) w = (if FocusStart \<in> set (lw_waits w)
     then Some (focusStarted (if ok then w\<lparr>lw_host := ServRunning\<rparr> else w)) else None)"
| "lifecycle_step UserStarts w = Some (w\<lparr>lw_host := ServRunning\<rparr>)"
| "lifecycle_step UserStops w = Some (w\<lparr>lw_host := ServStopped\<rparr>)"

fun lifecycle_run :: "lifecycle_event list \<Rightarrow> LifecycleWorld \<Rightarrow> LifecycleWorld option" where
  "lifecycle_run [] w = Some w"
| "lifecycle_run (e # es) w = (case lifecycle_step e w of None \<Rightarrow> None | Some w' \<Rightarrow> lifecycle_run es w')"

text \<open>Without the user nothing is hosted.\<close>
definition never_hosted :: "LifecycleWorld \<Rightarrow> bool" where
  "never_hosted w = (lw_host w \<noteq> ServRunning \<and> \<not> lw_pausedByLifecycle w \<and> FocusStart \<notin> set (lw_waits w) \<and> BlurStop \<notin> set (lw_waits w))"

lemmas lifecycle_defs = handleBlur_def handleFocus_def blurStatus_def blurStopped_def focusStarted_def setPaused_def waiting_def waited_def

lemma never_hosted_step: "never_hosted w \<Longrightarrow> e \<noteq> UserStarts \<Longrightarrow> lifecycle_step e w = Some w' \<Longrightarrow> never_hosted w'"
proof (cases e)
  case (StatusArrives ok)
  assume "never_hosted w" "lifecycle_step e w = Some w'"
  then show ?thesis using StatusArrives set_remove1_subset[of BlurStatus "lw_waits w"]
    by (auto simp: never_hosted_def lifecycle_defs split: if_splits)
qed (auto simp: never_hosted_def lifecycle_defs split: if_splits)

section \<open>A microphone for the muted\<close>

text \<open>A run of the effect: asking for the microphone, or over. A stream is named by its run.\<close>
record MutedWorld =
  mu_next :: nat
  mu_asking :: "nat list"
  mu_cancelled :: "nat list"
  mu_cleanup :: "nat option"
  mu_live :: "nat list"
  mu_speaking :: bool

definition initialMuted :: MutedWorld where
  "initialMuted = \<lparr>mu_next = 0, mu_asking = [], mu_cancelled = [], mu_cleanup = None, mu_live = [], mu_speaking = False\<rparr>"

text \<open>\<open>cleanupRef.current?.(); cleanupRef.current = null\<close>\<close>
definition runCleanup :: "MutedWorld \<Rightarrow> MutedWorld" where
  "runCleanup w = (case mu_cleanup w of None \<Rightarrow> w
     | Some r \<Rightarrow> w\<lparr>mu_live := filter (\<lambda>s. s \<noteq> r) (mu_live w), mu_speaking := False, mu_cleanup := None\<rparr>)"

text \<open>The cleanup of the run \<open>r\<close> of the effect, if it began to listen.\<close>
definition effectCleanup :: "nat option \<Rightarrow> MutedWorld \<Rightarrow> MutedWorld" where
  "effectCleanup r w = (case r of None \<Rightarrow> w | Some i \<Rightarrow> runCleanup (w\<lparr>mu_cancelled := i # mu_cancelled w\<rparr>))"

text \<open>A run of the effect and the run its cleanup belongs to; with the microphone on there is nothing to clean up.\<close>
definition mutedEffect :: "bool \<Rightarrow> MutedWorld \<Rightarrow> MutedWorld \<times> nat option" where
  "mutedEffect isMicEnabled w =
    (if isMicEnabled then (runCleanup (w\<lparr>mu_speaking := False\<rparr>), None)
     else (w\<lparr>mu_next := Suc (mu_next w), mu_asking := mu_next w # mu_asking w\<rparr>, Some (mu_next w)))"

text \<open>The microphone is granted: a run that was cleaned up stops it again, so does one whose audio context fails.\<close>
definition micGranted :: "bool \<Rightarrow> nat \<Rightarrow> MutedWorld \<Rightarrow> MutedWorld" where
  "micGranted audioOk r w = (let w1 = w\<lparr>mu_asking := removeAll r (mu_asking w)\<rparr> in
     if r \<in> set (mu_cancelled w) \<or> \<not> audioOk then w1
     else w1\<lparr>mu_live := r # mu_live w, mu_cleanup := Some r\<rparr>)"

definition micDenied :: "nat \<Rightarrow> MutedWorld \<Rightarrow> MutedWorld" where
  "micDenied r w = w\<lparr>mu_asking := removeAll r (mu_asking w)\<rparr>"

text \<open>A tick of the level meter, with hysteresis.\<close>
definition speakingTick :: "int \<Rightarrow> int \<Rightarrow> MutedWorld \<Rightarrow> MutedWorld" where
  "speakingTick thresholdDb levelDb w = w\<lparr>mu_speaking := (if mu_speaking w then thresholdDb - 4 \<le> levelDb else thresholdDb \<le> levelDb)\<rparr>"

text \<open>The hook: the world and the run that the next cleanup is for.\<close>
datatype muted_event = MutedRender bool | MutedUnmount | MicGranted bool nat | MicDenied nat | LevelTick int int

fun muted_step :: "muted_event \<Rightarrow> MutedWorld \<times> nat option \<Rightarrow> (MutedWorld \<times> nat option) option" where
  "muted_step (MutedRender on) (w, r) = Some (mutedEffect on (effectCleanup r w))"
| "muted_step MutedUnmount (w, r) = Some (effectCleanup r w, None)"
| "muted_step (MicGranted ok i) (w, r) = (if i \<in> set (mu_asking w) then Some (micGranted ok i w, r) else None)"
| "muted_step (MicDenied i) (w, r) = (if i \<in> set (mu_asking w) then Some (micDenied i w, r) else None)"
| "muted_step (LevelTick th l) (w, r) = (if mu_cleanup w = None then None else Some (speakingTick th l w, r))"

inductive muted_reach :: "MutedWorld \<times> nat option \<Rightarrow> bool" where
  hook_mounted: "muted_reach (initialMuted, None)"
| hook_stepped: "muted_reach s \<Longrightarrow> muted_step e s = Some s' \<Longrightarrow> muted_reach s'"

text \<open>The stream that is live belongs to the current run, runs that are over and asked are cancelled.\<close>
fun muted_inv :: "MutedWorld \<times> nat option \<Rightarrow> bool" where
  "muted_inv (w, r) = ((\<forall>i \<in> set (mu_live w). mu_cleanup w = Some i) \<and> (\<forall>i. mu_cleanup w = Some i \<longrightarrow> r = Some i)
    \<and> (\<forall>i \<in> set (mu_asking w). i < mu_next w \<and> (Some i = r \<or> i \<in> set (mu_cancelled w)))
    \<and> (\<forall>i. r = Some i \<longrightarrow> i < mu_next w \<and> i \<notin> set (mu_cancelled w)) \<and> (\<forall>i \<in> set (mu_cancelled w). i < mu_next w)
    \<and> (mu_speaking w \<longrightarrow> mu_cleanup w \<noteq> None))"

lemma cleanup_clears:
  "muted_inv (w, r) \<Longrightarrow> mu_live (effectCleanup r w) = [] \<and> mu_cleanup (effectCleanup r w) = None \<and> \<not> mu_speaking (effectCleanup r w)
    \<and> muted_inv (effectCleanup r w, None)"
proof -
  assume inv: "muted_inv (w, r)"
  show ?thesis
  proof (cases "mu_cleanup w")
    case None
    then have "mu_live w = []" "\<not> mu_speaking w" using inv by auto
    then show ?thesis using inv None by (auto simp: effectCleanup_def runCleanup_def split: option.splits)
  next
    case (Some i)
    then have "r = Some i" "filter (\<lambda>s. s \<noteq> i) (mu_live w) = []" using inv by (auto simp: filter_empty_conv)
    then show ?thesis using inv Some by (auto simp: effectCleanup_def runCleanup_def)
  qed
qed

lemma muted_step_inv: "muted_inv s \<Longrightarrow> muted_step e s = Some s' \<Longrightarrow> muted_inv s'"
proof (induction e s rule: muted_step.induct)
  case (1 on w r)
  define w1 where "w1 = effectCleanup r w"
  have c: "mu_live w1 = []" "mu_cleanup w1 = None" "\<not> mu_speaking w1" "muted_inv (w1, None)"
    using cleanup_clears[OF 1(1)] by (simp_all add: w1_def)
  then show ?case using 1(2)
    by (auto simp: w1_def[symmetric] mutedEffect_def runCleanup_def) (metis less_Suc_eq, metis less_irrefl, metis less_Suc_eq)
next
  case (2 w r)
  then show ?case using cleanup_clears[OF 2(1)] by auto
next
  case (3 ok i w r)
  then have i: "i \<in> set (mu_asking w)" "s' = (micGranted ok i w, r)" by (simp_all split: if_splits)
  show ?case
  proof (cases "i \<in> set (mu_cancelled w) \<or> \<not> ok")
    case True
    then show ?thesis unfolding i(2) using 3(1) by (auto simp: micGranted_def Let_def)
  next
    case False
    then have r: "r = Some i" using 3(1) i(1) by auto
    then have "\<forall>j \<in> set (mu_live w). j = i" using 3(1) by auto
    moreover have "\<forall>j \<in> set (mu_asking w) - {i}. j \<in> set (mu_cancelled w)" using 3(1) r by auto
    ultimately show ?thesis unfolding i(2) using 3(1) i(1) False r by (simp add: micGranted_def Let_def)
  qed
next
  case (4 i w r)
  then show ?case by (auto simp: micDenied_def split: if_splits)
next
  case (5 th l w r)
  then show ?case by (auto simp: speakingTick_def split: if_splits)
qed

lemma muted_reach_inv: "muted_reach s \<Longrightarrow> muted_inv s"
proof (induction rule: muted_reach.induct)
  case hook_mounted
  then show ?case by (simp add: initialMuted_def)
next
  case (hook_stepped s e s')
  then show ?case using muted_step_inv by blast
qed

section \<open>Chimes\<close>

datatype chime = JoinChime | LeaveChime

definition useVoiceNotifications :: "str \<Rightarrow> str list option \<Rightarrow> str list \<Rightarrow> chime list" where
  "useVoiceNotifications localIdentity prev current = (case prev of None \<Rightarrow> []
     | Some old \<Rightarrow> (if list_ex (\<lambda>i. i \<notin> set old \<and> i \<noteq> localIdentity) current then [JoinChime] else [])
         @ (if list_ex (\<lambda>i. i \<notin> set current \<and> i \<noteq> localIdentity) old then [LeaveChime] else []))"

section \<open>Properties\<close>

text \<open>The lifecycle never hosts uninvited: as long as the user has not started hosting, no sequence of focus
  changes, answers and failures, in whatever order, gets the host running.\<close>
theorem lifecycle_never_hosts_uninvited:
  assumes "lifecycle_run es (lifecycle_start st) = Some w" and "st \<noteq> ServRunning" and "UserStarts \<notin> set es"
  shows "lw_host w \<noteq> ServRunning"
proof -
  have "never_hosted u \<Longrightarrow> lifecycle_run es u = Some w \<Longrightarrow> UserStarts \<notin> set es \<Longrightarrow> never_hosted w" for u
  proof (induction es arbitrary: u)
    case (Cons e es)
    then obtain u1 where "lifecycle_step e u = Some u1" "lifecycle_run es u1 = Some w" by (auto split: option.splits)
    then show ?case using Cons never_hosted_step[of u e u1] by auto
  qed simp
  moreover have "never_hosted (lifecycle_start st)" using assms(2) by (simp add: never_hosted_def lifecycle_start_def)
  ultimately show ?thesis using assms(1,3) by (auto simp: never_hosted_def)
qed

theorem lifecycle_never_hosts_uninvited_witness:
  "\<exists>w. lifecycle_run [WindowBlur, WindowFocus, StatusArrives True] (lifecycle_start ServStopped) = Some w \<and> lw_host w \<noteq> ServRunning"
proof -
  obtain w where w: "lifecycle_run [WindowBlur, WindowFocus, StatusArrives True] (lifecycle_start ServStopped) = Some w"
    by (simp add: lifecycle_defs lifecycle_start_def)
  have "UserStarts \<notin> set [WindowBlur, WindowFocus, StatusArrives True]" by simp
  from lifecycle_never_hosts_uninvited[OF w _ this] show ?thesis using w by blast
qed

text \<open>Going away and coming back, with the handlers done in between, leaves hosting as it was.\<close>
theorem away_and_back_restores:
  assumes "lw_waits w = []" and "\<not> lw_pausedByLifecycle w"
  shows "(if lw_host w = ServRunning
      then lifecycle_run [WindowBlur, StatusArrives True, StopReturns True, WindowFocus, StartReturns True] w
      else lifecycle_run [WindowBlur, StatusArrives True, WindowFocus] w) = Some (w\<lparr>lw_front := True\<rparr>)"
  using assms by (cases w) (auto simp: lifecycle_defs)

theorem away_and_back_restores_witness:
  "lifecycle_run [WindowBlur, StatusArrives True, StopReturns True, WindowFocus, StartReturns True] (lifecycle_start ServRunning)
    = Some (lifecycle_start ServRunning)"
  using away_and_back_restores[of "lifecycle_start ServRunning"] by (simp add: lifecycle_start_def)

text \<open>A glance away stops hosting: when the window is back before the status has arrived, the host is stopped with the
  user in front of it and nothing left to start it again; and if the user then switches hosting on and off by hand,
  the next glance away starts it.\<close>
theorem glance_away_stops_hosting:
  "\<exists>w. lifecycle_run [WindowBlur, WindowFocus, StatusArrives True, StopReturns True] (lifecycle_start ServRunning) = Some w
    \<and> lw_front w \<and> lw_host w = ServStopped \<and> lw_waits w = [] \<and> lw_pausedByLifecycle w
    \<and> (\<exists>w'. lifecycle_run [UserStarts, UserStops, WindowBlur, StatusArrives True, WindowFocus, StartReturns True] w = Some w'
        \<and> lw_host w' = ServRunning \<and> lw_front w')"
  by (simp add: lifecycle_defs lifecycle_start_def)

text \<open>C31. The microphone opened for the muted is released: in every reachable state at most the current run's stream is
  live, when the microphone is switched on or the component goes away none is, and a stream granted later to a run that was
  cleaned up is stopped at once.\<close>
theorem muted_microphone_released:
  assumes "muted_reach (w, r)"
  shows "length (remdups (mu_live w)) \<le> 1 \<and> mu_live (fst (mutedEffect True (effectCleanup r w))) = []
    \<and> mu_live (effectCleanup r w) = [] \<and> mu_live (micGranted ok i (effectCleanup (Some i) w)) = mu_live (effectCleanup (Some i) w)"
proof -
  have inv: "muted_inv (w, r)" by (rule muted_reach_inv[OF assms])
  have "set (mu_live w) \<subseteq> (case mu_cleanup w of None \<Rightarrow> {} | Some i \<Rightarrow> {i})" using inv by (auto split: option.splits)
  then have "card (set (mu_live w)) \<le> card (case mu_cleanup w of None \<Rightarrow> {} | Some i \<Rightarrow> {i})"
    by (intro card_mono) (auto split: option.splits)
  also have "\<dots> \<le> 1" by (simp split: option.splits)
  finally have "length (remdups (mu_live w)) \<le> 1" by (simp add: length_remdups_card_conv)
  moreover have "i \<in> set (mu_cancelled (effectCleanup (Some i) w))" by (simp add: effectCleanup_def runCleanup_def split: option.splits)
  ultimately show ?thesis using cleanup_clears[OF inv] by (simp add: mutedEffect_def runCleanup_def micGranted_def Let_def)
qed

theorem muted_microphone_released_witness:
  "\<exists>w r. muted_reach (w, r) \<and> mu_live w = [0] \<and> mu_live (effectCleanup r w) = []"
proof -
  have s: "muted_step (MutedRender False) (initialMuted, None) = Some (initialMuted\<lparr>mu_next := 1, mu_asking := [0]\<rparr>, Some 0)"
    by (simp add: mutedEffect_def effectCleanup_def initialMuted_def)
  have r1: "muted_reach (initialMuted\<lparr>mu_next := 1, mu_asking := [0]\<rparr>, Some 0)" by (rule muted_reach.hook_stepped[OF muted_reach.hook_mounted s])
  define w where "w = micGranted True 0 (initialMuted\<lparr>mu_next := 1, mu_asking := [0]\<rparr>)"
  have "muted_step (MicGranted True 0) (initialMuted\<lparr>mu_next := 1, mu_asking := [0]\<rparr>, Some 0) = Some (w, Some 0)"
    by (simp add: w_def)
  then have r2: "muted_reach (w, Some 0)" by (rule muted_reach.hook_stepped[OF r1])
  have "mu_live w = [0]" by (simp add: w_def micGranted_def initialMuted_def Let_def)
  then show ?thesis using muted_microphone_released[OF r2] r2 by blast
qed

end
