(* ===== verification/Cards.thy ===== *)
theory Cards
  imports Peers Timeline Discovery
begin

text \<open>
  The ways a peer card travels: shown and posted (\<open>components/peers/PeerCardDisplay.tsx\<close>), found in the rooms
  (\<open>hooks/useMatrixPeerCards.ts\<close>), pasted, picked or scanned (\<open>components/peers/PeerCardScanner.tsx\<close>), listed
  (\<open>components/peers/KnownPeersList.tsx\<close>); and the guest's scanner of a host's code
  (\<open>components/pairing/GuestPairingScanner.tsx\<close>). Cameras are the numbered streams the browser hands out; a
  component's life is the sequence of what React, the browser and the user do. Frames are what the QR library reads.
\<close>

section \<open>Cards posted to rooms\<close>

definition PEER_CARD_MSGTYPE :: str where "PEER_CARD_MSGTYPE = ''concord.peer_card''"

text \<open>The content \<open>handlePostToRoom\<close> sends.\<close>
definition post_content :: "peer_card \<Rightarrow> json" where
  "post_content c = JObj [(''msgtype'', JStr PEER_CARD_MSGTYPE), (''body'', JStr ''Concord peer card''),
     (''peer_id'', JStr (peerId c)), (''public_key_hex'', JStr (publicKeyHex c)), (''multiaddrs'', JArr (map JStr (multiaddrs c)))]"

definition MAX_TRACKED :: nat where "MAX_TRACKED = 50"

record RecentPeerCard =
  rc_card :: peer_card
  rc_roomId :: str
  rc_roomName :: "str option"
  rc_sender :: str
  rc_observedAt :: int

text \<open>The event comes from anybody; the first failing check drops it. The throw the source guards against is no content.\<close>
definition extractPeerCard :: "matrix_event \<Rightarrow> peer_card option" where
  "extractPeerCard ev =
    (if ev_type ev \<noteq> ''m.room.message'' then None
     else let c = ev_content ev in
       if \<not> nonnull_object (Some c) then None
       else if jget c ''msgtype'' \<noteq> Some (JStr PEER_CARD_MSGTYPE) then None
       else case as_str (jget c ''peer_id'') of
         None \<Rightarrow> None
       | Some pid \<Rightarrow> if pid = [] then None
         else case as_str (jget c ''public_key_hex'') of
           None \<Rightarrow> None
         | Some key \<Rightarrow> if length key \<noteq> 64 then None
           else if \<not> list_all is_hex_digit key then None
           else case as_arr (jget c ''multiaddrs'') of
             None \<Rightarrow> None
           | Some addrs \<Rightarrow> if addrs = [] then None
             else case collect_options (map nonempty_string addrs) of
               None \<Rightarrow> None
             | Some as \<Rightarrow> Some \<lparr>peerId = pid, publicKeyHex = key, multiaddrs = as\<rparr>)"

record card_room =
  cr_id :: str
  cr_name :: str
  cr_membership :: str
  cr_events :: "matrix_event list"

text \<open>\<open>toRecent\<close>; \<open>ev_room\<close> is the room id the event itself knows.\<close>
definition toRecent :: "matrix_event \<Rightarrow> card_room option \<Rightarrow> str option \<Rightarrow> RecentPeerCard option" where
  "toRecent ev room ev_room = (case extractPeerCard ev of None \<Rightarrow> None
     | Some c \<Rightarrow> Some \<lparr>rc_card = c,
         rc_roomId = (case room of Some r \<Rightarrow> cr_id r | None \<Rightarrow> (case ev_room of Some r \<Rightarrow> r | None \<Rightarrow> ''(unknown)'')),
         rc_roomName = map_option cr_name room, rc_sender = ev_sender ev, rc_observedAt = ev_ts ev\<rparr>)"

definition rc_peer :: "RecentPeerCard \<Rightarrow> str" where "rc_peer r = peerId (rc_card r)"

text \<open>The first scan: per peer the newest card, the first of equals; newest first; capped.\<close>
definition seenCards :: "card_room list \<Rightarrow> RecentPeerCard list" where
  "seenCards rooms = concat (map (\<lambda>r. List.map_filter (\<lambda>ev. toRecent ev (Some r) None) (cr_events r))
     (filter (\<lambda>r. cr_membership r = ''join'') rooms))"

definition byPeer :: "RecentPeerCard list \<Rightarrow> (str \<times> RecentPeerCard) list" where
  "byPeer seen = foldl (\<lambda>m c. upsert (rc_peer c)
     (\<lambda>old. case old of None \<Rightarrow> c | Some e \<Rightarrow> if rc_observedAt c > rc_observedAt e then c else e) m) [] seen"

definition initialCards :: "card_room list \<Rightarrow> RecentPeerCard list" where
  "initialCards rooms = take MAX_TRACKED (sort_key (\<lambda>c. - rc_observedAt c) (map snd (byPeer (seenCards rooms))))"

definition upsertCard :: "RecentPeerCard \<Rightarrow> RecentPeerCard list \<Rightarrow> RecentPeerCard list" where
  "upsertCard newCard prev = take MAX_TRACKED (newCard # filter (\<lambda>c. rc_peer c \<noteq> rc_peer newCard) prev)"

definition onCardEvent :: "matrix_event \<Rightarrow> card_room option \<Rightarrow> str option \<Rightarrow> RecentPeerCard list \<Rightarrow> RecentPeerCard list" where
  "onCardEvent ev room ev_room cards = (case toRecent ev room ev_room of None \<Rightarrow> cards | Some r \<Rightarrow> upsertCard r cards)"

text \<open>The list after mount and a sequence of live events.\<close>
definition useMatrixPeerCards :: "card_room list \<Rightarrow> (matrix_event \<times> card_room option \<times> str option) list \<Rightarrow> RecentPeerCard list" where
  "useMatrixPeerCards rooms posted = foldl (\<lambda>cards (ev, room, er). onCardEvent ev room er cards) (initialCards rooms) posted"

section \<open>Showing a card\<close>

record ShownIdentity =
  si_publicKeyHex :: "str option"
  si_swarmPeerId :: "str option"
  si_swarmMultiaddrs :: "str list option"

text \<open>The memo \<open>card\<close>.\<close>
definition shownCard :: "bool \<Rightarrow> ShownIdentity \<Rightarrow> peer_card option \<Rightarrow> peer_card option" where
  "shownCard tauri i browserCard =
    (if \<not> tauri then browserCard
     else case (si_publicKeyHex i, si_swarmPeerId i, si_swarmMultiaddrs i) of
       (Some k, Some p, Some ms) \<Rightarrow> if k = [] \<or> p = [] \<or> ms = [] then None
         else Some \<lparr>peerId = p, publicKeyHex = k, multiaddrs = ms\<rparr>
     | _ \<Rightarrow> None)"

text \<open>\<open>refresh\<close>: None is a throw of either await (only logged); the node is absent until started.\<close>
definition refreshCard :: "bool \<Rightarrow> (str \<times> str) option \<Rightarrow> str list option option \<Rightarrow> peer_card option \<Rightarrow> peer_card option" where
  "refreshCard cancelled identity node cur = (case (identity, node) of
     (Some (pid, key), Some n) \<Rightarrow> if cancelled then cur
       else (case n of None \<Rightarrow> None | Some addrs \<Rightarrow> Some \<lparr>peerId = pid, publicKeyHex = key, multiaddrs = addrs\<rparr>)
   | _ \<Rightarrow> cur)"

text \<open>The time of the n-th poll after mount, in milliseconds: ten fast ones, then one every five seconds.\<close>
definition pollTime :: "nat \<Rightarrow> nat" where
  "pollTime n = (if n \<le> 10 then 1000 * n else 10000 + 5000 * (n - 10))"

text \<open>\<open>MatrixRoomPicker\<close>: names compare as \<open>le\<close> says (localeCompare).\<close>
definition pickerRooms :: "(str \<Rightarrow> str \<Rightarrow> bool) \<Rightarrow> card_room list \<Rightarrow> card_room list" where
  "pickerRooms le rooms = foldr (\<lambda>r rs. takeWhile (\<lambda>x. \<not> le (cr_name r) (cr_name x)) rs @ r # dropWhile (\<lambda>x. \<not> le (cr_name r) (cr_name x)) rs)
     (filter (\<lambda>r. cr_membership r = ''join'') rooms) []"

section \<open>The scanner dialog\<close>

datatype ScanTab = TabCamera | TabImage | TabPaste | TabMatrix

definition cameraSupported :: "bool \<Rightarrow> bool \<Rightarrow> bool" where "cameraSupported tauri gum = (tauri \<or> gum)"

definition firstTab :: "bool \<Rightarrow> bool \<Rightarrow> ScanTab" where
  "firstTab tauri gum = (if cameraSupported tauri gum then TabCamera else TabPaste)"

text \<open>What an attempt to add leads to: the toast and whether the dialog closes (the dots and the dash are their bytes of UTF-8).\<close>
definition handleAdd :: "peer_card \<Rightarrow> PeerSource \<Rightarrow> str \<Rightarrow> BrowserEnv \<times> PeerStoreState \<Rightarrow> (str \<times> bool) \<times> BrowserEnv \<times> PeerStoreState" where
  "handleAdd c src now w = (case addFromCardBrowser c src now w of
     (Some p, w') \<Rightarrow> ((''Paired with '' @ take 12 (peerId c) @ [CHR 0xE2, CHR 0x80, CHR 0xA6], True), w')
   | (None, w') \<Rightarrow> ((''Couldn't add peer '' @ [CHR 0xE2, CHR 0x80, CHR 0x94] @ '' see Profile tab for details'', False), w'))"

text \<open>\<open>handlePasteSubmit\<close>: the error shown, or the card handed on.\<close>
definition handlePasteSubmit :: "str \<Rightarrow> (str + peer_card) option" where
  "handlePasteSubmit pasted = decodeFromDeeplink (trim pasted)"

text \<open>\<open>decodeQrFromImageFile\<close> with the steps before it: the file type, the bitmap, the canvas, the code read.\<close>
definition handleFile :: "str \<Rightarrow> bool \<Rightarrow> bool \<Rightarrow> str option \<Rightarrow> str + peer_card" where
  "handleFile mime bitmapOk canvasOk code =
    (if \<not> starts_with ''image/'' mime then Inl ''That file isn't an image. Try a PNG / JPG / WebP screenshot.''
     else if \<not> bitmapOk then Inl ''Couldn't read that image format''
     else if \<not> canvasOk then Inl (''Browser can't open a 2D canvas '' @ [CHR 0xE2, CHR 0x80, CHR 0x94] @ '' image decode unavailable'')
     else case code of
       None \<Rightarrow> Inl ''No QR code found in that image. Make sure the whole QR is in frame and not too small.''
     | Some d \<Rightarrow> if d = [] then Inl ''No QR code found in that image. Make sure the whole QR is in frame and not too small.''
         else (case decodeFromQrPayload d of
           Some (Inr c) \<Rightarrow> Inr c
         | _ \<Rightarrow> Inl ''Decoded a QR, but it isn't a Concord peer card. Check the source.''))"

text \<open>\<open>onPaste\<close>: the first image item with a file; an item is its type and whether it has one.\<close>
definition pastedFile :: "(str \<times> bool) list \<Rightarrow> nat option" where
  "pastedFile items = find_index (\<lambda>(mime, file). starts_with ''image/'' mime \<and> file) items"

section \<open>The camera of the dialog\<close>

text \<open>One run of the effect: its \<open>cancelled\<close> flag and the stream it got. Streams have the number of their run.\<close>
record scan_run =
  sr_cancelled :: bool
  sr_stream :: bool

record CameraState =
  cam_runs :: "scan_run list"
  cam_mounted :: bool
  cam_live :: "nat list"
  cam_cards :: "peer_card list"
  cam_error :: "str option"

datatype camera_event =
    CamMount
  | CamRerender
  | CamUnmount
  | CamGranted nat
  | CamRefused nat str
  | CamFrame nat "str option"

definition cameraStart :: CameraState where
  "cameraStart = \<lparr>cam_runs = [], cam_mounted = False, cam_live = [], cam_cards = [], cam_error = None\<rparr>"

definition newRun :: "CameraState \<Rightarrow> CameraState" where
  "newRun s = s\<lparr>cam_runs := cam_runs s @ [\<lparr>sr_cancelled = False, sr_stream = False\<rparr>], cam_mounted := True\<rparr>"

text \<open>The cleanup of the latest run.\<close>
definition cleanupRun :: "CameraState \<Rightarrow> CameraState" where
  "cleanupRun s = (case cam_runs s of [] \<Rightarrow> s | _ \<Rightarrow>
     let i = length (cam_runs s) - 1; r = cam_runs s ! i
     in s\<lparr>cam_runs := (cam_runs s)[i := r\<lparr>sr_cancelled := True\<rparr>],
          cam_live := (if sr_stream r then removeAll i (cam_live s) else cam_live s)\<rparr>)"

text \<open>A refusal is of the request or of playing. A rerender of the dialog hands a new \<open>onDecoded\<close>, so the effect is cleaned up and runs again.\<close>
fun cameraStep :: "camera_event \<Rightarrow> CameraState \<Rightarrow> CameraState" where
  "cameraStep CamMount s = (if cam_mounted s then s else newRun s)"
| "cameraStep CamRerender s = (if cam_mounted s then newRun (cleanupRun s) else s)"
| "cameraStep CamUnmount s = (if cam_mounted s then (cleanupRun s)\<lparr>cam_mounted := False\<rparr> else s)"
| "cameraStep (CamGranted i) s =
    (if i < length (cam_runs s) \<and> \<not> sr_stream (cam_runs s ! i)
     then (let r = cam_runs s ! i; s' = s\<lparr>cam_runs := (cam_runs s)[i := r\<lparr>sr_stream := True\<rparr>]\<rparr>
           in if sr_cancelled r then s' else s'\<lparr>cam_live := i # cam_live s\<rparr>)
     else s)"
| "cameraStep (CamRefused i e) s =
    (if i < length (cam_runs s) \<and> \<not> sr_cancelled (cam_runs s ! i)
     then s\<lparr>cam_error := Some e\<rparr> else s)"
| "cameraStep (CamFrame i code) s =
    (if i < length (cam_runs s) \<and> sr_stream (cam_runs s ! i) \<and> \<not> sr_cancelled (cam_runs s ! i)
     then (case code of None \<Rightarrow> s | Some d \<Rightarrow> if d = [] then s else (case decodeFromQrPayload d of
        Some (Inr c) \<Rightarrow> s\<lparr>cam_runs := (cam_runs s)[i := (cam_runs s ! i)\<lparr>sr_cancelled := True\<rparr>],
                          cam_live := removeAll i (cam_live s), cam_cards := cam_cards s @ [c]\<rparr>
      | _ \<Rightarrow> s))
     else s)"

section \<open>The guest's scanner\<close>

datatype ScannerError = PermissionDenied | NoCamera | DecodeError str | GenericError str

text \<open>The refs of the component and what is around it. The video element is on the page while no error is shown; one
  put back after an error is a new element, without the stream. A pending request is one \<open>getUserMedia\<close> call.\<close>
record GuestState =
  gs_mounted :: bool
  gs_pending :: nat
  gs_next :: nat
  gs_live :: "nat list"
  gs_stream :: "nat option"
  gs_loop :: bool
  gs_error :: "ScannerError option"
  gs_attached :: bool
  gs_configs :: "homeserver_config list"

datatype guest_event =
    GuestMount bool
  | GuestUnmount
  | GuestRetry bool
  | GuestGranted
  | GuestRefused str str
  | GuestFrame "str option"
  | GuestManual str
  | GuestClose

definition guestStart :: GuestState where
  "guestStart = \<lparr>gs_mounted = False, gs_pending = 0, gs_next = 0, gs_live = [], gs_stream = None, gs_loop = False,
     gs_error = None, gs_attached = False, gs_configs = []\<rparr>"

definition setScanError :: "ScannerError option \<Rightarrow> GuestState \<Rightarrow> GuestState" where
  "setScanError e s = (if gs_mounted s then s\<lparr>gs_error := e, gs_attached := (gs_attached s \<and> e = None \<and> gs_error s = None)\<rparr> else s)"

definition stopScan :: "GuestState \<Rightarrow> GuestState" where
  "stopScan s = s\<lparr>gs_loop := False, gs_live := (case gs_stream s of None \<Rightarrow> gs_live s | Some i \<Rightarrow> removeAll i (gs_live s)),
     gs_stream := None\<rparr>"

definition handleDecodedConfig :: "homeserver_config \<Rightarrow> GuestState \<Rightarrow> GuestState" where
  "handleDecodedConfig c s = (stopScan s)\<lparr>gs_configs := gs_configs s @ [c]\<rparr>"

definition requestCamera :: "bool \<Rightarrow> GuestState \<Rightarrow> GuestState" where
  "requestCamera hasApi s = (let s' = setScanError None s in
     if \<not> hasApi then setScanError (Some NoCamera) s' else s'\<lparr>gs_pending := gs_pending s + 1\<rparr>)"

definition refusal :: "str \<Rightarrow> str \<Rightarrow> ScannerError" where
  "refusal name msg = (if name = ''NotAllowedError'' \<or> name = ''PermissionDeniedError'' then PermissionDenied
     else if name = ''NotFoundError'' \<or> name = ''DevicesNotFoundError'' then NoCamera else GenericError msg)"

text \<open>\<open>scanImageData\<close> and the manual field: None where the payload is outside the model's alphabet.\<close>
definition scanImageData :: "(str \<Rightarrow> str option) \<Rightarrow> str option \<Rightarrow> (str + homeserver_config) option" where
  "scanImageData p code = (case code of None \<Rightarrow> None | Some d \<Rightarrow> if d = [] then None else decodePairingPayload p d)"

fun guestStep :: "(str \<Rightarrow> str option) \<Rightarrow> guest_event \<Rightarrow> GuestState \<Rightarrow> GuestState" where
  "guestStep p (GuestMount hasApi) s = (if gs_mounted s then s else requestCamera hasApi (s\<lparr>gs_mounted := True\<rparr>))"
| "guestStep p GuestUnmount s = (if gs_mounted s then (stopScan s)\<lparr>gs_mounted := False, gs_attached := False\<rparr> else s)"
| "guestStep p (GuestRetry hasApi) s = (if gs_mounted s \<and> gs_error s = Some PermissionDenied then requestCamera hasApi s else s)"
| "guestStep p GuestGranted s = (if gs_pending s = 0 then s
     else s\<lparr>gs_pending := gs_pending s - 1, gs_next := gs_next s + 1, gs_live := gs_next s # gs_live s,
            gs_stream := Some (gs_next s), gs_attached := (gs_mounted s \<and> gs_error s = None), gs_loop := True\<rparr>)"
| "guestStep p (GuestRefused name msg) s = (if gs_pending s = 0 then s
     else setScanError (Some (refusal name msg)) (s\<lparr>gs_pending := gs_pending s - 1\<rparr>))"
| "guestStep p (GuestFrame code) s = (if \<not> gs_loop s \<or> \<not> gs_attached s then s
     else case scanImageData p code of
       None \<Rightarrow> s
     | Some (Inr c) \<Rightarrow> handleDecodedConfig c s
     | Some (Inl e) \<Rightarrow> setScanError (Some (DecodeError e)) s)"
| "guestStep p (GuestManual typed) s = (if \<not> gs_mounted s \<or> trim typed = [] then s
     else let s' = setScanError None s in
       case decodePairingPayload p (trim typed) of
         None \<Rightarrow> s'
       | Some (Inr c) \<Rightarrow> handleDecodedConfig c s'
       | Some (Inl e) \<Rightarrow> setScanError (Some (DecodeError e)) s')"
| "guestStep p GuestClose s = (if gs_mounted s then stopScan s else s)"

section \<open>The list of peers\<close>

fun source_label :: "PeerSource \<Rightarrow> str" where
  "source_label Qr = ''QR''" | "source_label Deeplink = ''Link''" | "source_label MatrixRoomCard = ''Matrix''" | "source_label Dht = ''DHT''"

text \<open>The parsed time in milliseconds, None for no date (shown as a dash).\<close>
definition relativeTime :: "int option \<Rightarrow> int \<Rightarrow> str" where
  "relativeTime parsed now = (case parsed of None \<Rightarrow> [CHR 0xE2, CHR 0x80, CHR 0x94]
     | Some t \<Rightarrow> let deltaSec = max 0 ((now - t) div 1000); deltaMin = deltaSec div 60; deltaHr = deltaMin div 60 in
         if deltaSec < 60 then int_text deltaSec @ ''s ago''
         else if deltaMin < 60 then int_text deltaMin @ ''m ago''
         else if deltaHr < 24 then int_text deltaHr @ ''h ago''
         else int_text (deltaHr div 24) @ ''d ago'')"

definition handleToggleAccess :: "KnownPeer \<Rightarrow> str \<Rightarrow> BrowserEnv \<times> PeerStoreState \<Rightarrow> str \<times> BrowserEnv \<times> PeerStoreState" where
  "handleToggleAccess peer now w =
    (let answer = (if kp_accessGranted peer then fst (revokeBrowserPeerAccess (kp_peerId peer) (fst w))
                   else fst (grantBrowserPeerAccess (kp_peerId peer) now (fst w)));
         w' = (if kp_accessGranted peer then revokeAccessBrowser (kp_peerId peer) w else grantAccessBrowser (kp_peerId peer) now w)
     in (case answer of
          Inr (Some _) \<Rightarrow> (if kp_accessGranted peer then ''Access revoked '' @ [CHR 0xE2, CHR 0x80, CHR 0x94] @ '' peer is visible-only''
                            else ''Access re-affirmed'')
        | _ \<Rightarrow> ''Could not change access'', w'))"

text \<open>\<open>handleRemove\<close>; None is a declined confirmation.\<close>
definition handleRemove :: "bool \<Rightarrow> str \<Rightarrow> BrowserEnv \<times> PeerStoreState \<Rightarrow> str option \<times> BrowserEnv \<times> PeerStoreState" where
  "handleRemove confirmed i w = (if \<not> confirmed then (None, w)
     else (Some (if fst (removeBrowserPeer i (fst w)) = Inr True then ''Peer removed'' else ''Could not remove peer''), removeBrowser i w))"

section \<open>Cards in rooms\<close>

lemma decode_encoded_card: "decodeFromDeeplink (encodeToDeeplink c) = Some (validateCard (card_payload c))"
proof -
  have "stringify (card_payload c) \<noteq> []" using stringify_length[of "card_payload c"] by auto
  then show ?thesis unfolding encodeToDeeplink_def
    by (subst decode_tail) (simp_all add: base64urlEncode_nonempty base64url_roundtrip parse_stringify card_payload_ok)
qed

lemma decoded_card_ok: "decodeFromDeeplink url = Some (Inr c) \<Longrightarrow> card_ok c"
proof -
  assume d: "decodeFromDeeplink url = Some (Inr c)"
  then have "starts_with SCHEME url" by (auto simp: decodeFromDeeplink_def split: if_splits)
  then obtain tail where url: "url = SCHEME @ tail" using starts_withD by blast
  have "tail \<noteq> []" using d url by (auto simp: decodeFromDeeplink_def)
  then show "card_ok c" using d validate_only_ok by (auto simp: url decode_tail split: decoded_text.splits option.splits)
qed

lemma extract_ok: "extractPeerCard ev = Some c \<Longrightarrow> card_ok c"
proof -
  assume e: "extractPeerCard ev = Some c"
  then obtain addrs where a: "collect_options (map nonempty_string addrs) = Some (multiaddrs c)" "addrs \<noteq> []"
    by (auto simp: extractPeerCard_def Let_def split: if_splits option.splits)
  then have "list_all (\<lambda>a. a \<noteq> []) (multiaddrs c)" "multiaddrs c \<noteq> []"
    by (auto simp: collect_options_Some dest: map_nonempty_string)
  then show "card_ok c" using e
    by (auto simp: extractPeerCard_def card_ok_def Let_def split: if_splits option.splits)
qed

lemma map_nonempty_eq: "map (nonempty_string \<circ> JStr) ss = map Some as \<Longrightarrow> as = ss"
proof (induction ss arbitrary: as)
  case (Cons s ss)
  then obtain a as' where "as = a # as'" by (cases as) auto
  then show ?case using Cons.IH[of as'] Cons.prems by (auto split: if_splits)
qed simp

lemma extract_posted:
  assumes "ev_type ev = ''m.room.message''" and "ev_content ev = post_content c"
  shows "extractPeerCard ev = (if card_ok c then Some c else None)"
proof (cases "card_ok c")
  case True
  then have "collect_options (map nonempty_string (map JStr (multiaddrs c))) = Some (multiaddrs c)"
    by (simp add: collect_options_Some card_ok_def list_all_iff)
  then show ?thesis using True assms
    by (simp add: extractPeerCard_def post_content_def nonnull_object_def card_ok_def)
next
  case False
  have "extractPeerCard ev \<noteq> Some c'" for c'
  proof
    assume e: "extractPeerCard ev = Some c'"
    have "peerId c' = peerId c" "publicKeyHex c' = publicKeyHex c"
      using e assms by (auto simp: extractPeerCard_def post_content_def nonnull_object_def Let_def split: if_splits option.splits)
    moreover have "multiaddrs c' = multiaddrs c"
      using e assms by (auto simp: extractPeerCard_def post_content_def nonnull_object_def Let_def collect_options_Some
        dest!: map_nonempty_eq split: if_splits option.splits)
    ultimately have "c' = c" by simp
    then show False using extract_ok[OF e] False by simp
  qed
  then show ?thesis using False by (cases "extractPeerCard ev") auto
qed

section \<open>The tracked list\<close>

definition tracked_ok :: "RecentPeerCard list \<Rightarrow> bool" where
  "tracked_ok cards = (length cards \<le> MAX_TRACKED \<and> distinct (map rc_peer cards) \<and> (\<forall>r \<in> set cards. card_ok (rc_card r)))"

lemma recent_ok: "toRecent ev room er = Some r \<Longrightarrow> card_ok (rc_card r)"
  by (auto simp: toRecent_def extract_ok split: option.splits)

lemma seen_ok: "r \<in> set (seenCards rooms) \<Longrightarrow> card_ok (rc_card r)"
  by (auto simp: seenCards_def List.map_filter_def recent_ok)

definition newest_in :: "RecentPeerCard list \<Rightarrow> RecentPeerCard \<Rightarrow> bool" where
  "newest_in seen c = (c \<in> set seen \<and> (\<forall>d \<in> set seen. rc_peer d = rc_peer c \<longrightarrow> rc_observedAt d \<le> rc_observedAt c))"

lemma byPeer_snoc: "byPeer (seen @ [c]) = upsert (rc_peer c)
     (\<lambda>old. case old of None \<Rightarrow> c | Some e \<Rightarrow> if rc_observedAt c > rc_observedAt e then c else e) (byPeer seen)"
  by (simp add: byPeer_def)

lemma byPeer_newest:
  "distinct (map fst (byPeer seen)) \<and> (\<forall>k. (case map_of (byPeer seen) k of
      None \<Rightarrow> k \<notin> rc_peer ` set seen | Some c \<Rightarrow> rc_peer c = k \<and> newest_in seen c))"
proof (induction seen rule: rev_induct)
  case Nil
  then show ?case by (simp add: byPeer_def)
next
  case (snoc c seen)
  have old: "(case map_of (byPeer seen) k of None \<Rightarrow> k \<notin> rc_peer ` set seen | Some e \<Rightarrow> rc_peer e = k \<and> newest_in seen e)" for k
    using snoc by blast
  have "(case map_of (byPeer (seen @ [c])) k of
      None \<Rightarrow> k \<notin> rc_peer ` set (seen @ [c]) | Some e \<Rightarrow> rc_peer e = k \<and> newest_in (seen @ [c]) e)" for k
  proof (cases "k = rc_peer c")
    case True
    show ?thesis
    proof (cases "map_of (byPeer seen) k")
      case None
      then have "k \<notin> rc_peer ` set seen" using old[of k] by simp
      then show ?thesis using None True by (auto simp: byPeer_snoc newest_in_def image_iff)
    next
      case (Some e)
      then show ?thesis using old[of k] True by (fastforce simp: byPeer_snoc newest_in_def)
    qed
  next
    case False
    then show ?thesis using old[of k] by (cases "map_of (byPeer seen) k") (auto simp: byPeer_snoc newest_in_def)
  qed
  then show ?case using snoc by (simp add: byPeer_snoc)
qed

lemma byPeer_entries: "(k, c) \<in> set (byPeer seen) \<Longrightarrow> rc_peer c = k \<and> newest_in seen c"
proof -
  assume "(k, c) \<in> set (byPeer seen)"
  then have m: "map_of (byPeer seen) k = Some c" using byPeer_newest[of seen] by (simp add: map_of_eq_Some_iff)
  have "(case map_of (byPeer seen) k of None \<Rightarrow> k \<notin> rc_peer ` set seen | Some c \<Rightarrow> rc_peer c = k \<and> newest_in seen c)"
    using byPeer_newest[of seen] by blast
  then show ?thesis by (simp add: m)
qed

lemma byPeer_peers: "map rc_peer (map snd (byPeer seen)) = map fst (byPeer seen)"
  using byPeer_entries by (auto simp: case_prod_beta)

lemma distinct_sort_key: "distinct (map g (sort_key f xs)) = distinct (map g xs)"
  by (metis mset_map mset_sort mset_eq_imp_distinct_iff)

lemma initial_ok: "tracked_ok (initialCards rooms)"
proof -
  let ?all = "map snd (byPeer (seenCards rooms))"
  have "distinct (map rc_peer (sort_key (\<lambda>c. - rc_observedAt c) ?all))"
    unfolding distinct_sort_key byPeer_peers using byPeer_newest by blast
  moreover have "card_ok (rc_card r)" if "r \<in> set ?all" for r
    using that byPeer_entries seen_ok by (fastforce simp: newest_in_def)
  ultimately show ?thesis unfolding tracked_ok_def initialCards_def
    by (auto simp: take_map[symmetric] intro: distinct_take dest!: in_set_takeD)
qed

lemma upsert_card_ok: "tracked_ok cards \<Longrightarrow> card_ok (rc_card r) \<Longrightarrow> tracked_ok (upsertCard r cards)"
proof -
  assume t: "tracked_ok cards" and r: "card_ok (rc_card r)"
  have "distinct (map rc_peer (r # filter (\<lambda>c. rc_peer c \<noteq> rc_peer r) cards))"
    using t by (auto simp: tracked_ok_def distinct_map_filter)
  then have "distinct (map rc_peer (upsertCard r cards))" unfolding upsertCard_def take_map[symmetric] by (rule distinct_take)
  then show ?thesis using t r by (auto simp: tracked_ok_def upsertCard_def dest!: in_set_takeD)
qed

lemma timeline_ok: "tracked_ok cards \<Longrightarrow> tracked_ok (onCardEvent ev room er cards)"
  by (auto simp: onCardEvent_def intro: upsert_card_ok recent_ok split: option.splits)

lemma use_snoc: "useMatrixPeerCards rooms (es @ [(ev, room, er)]) = onCardEvent ev room er (useMatrixPeerCards rooms es)"
  by (simp add: useMatrixPeerCards_def)

text \<open>Whatever is in the rooms and whatever arrives, forged events included, the tracked cards are at most fifty, one for
  each peer, and every one is well formed.\<close>
theorem tracked_cards_ok:
  "length (useMatrixPeerCards rooms es) \<le> 50 \<and> distinct (map rc_peer (useMatrixPeerCards rooms es))
    \<and> list_all (\<lambda>r. card_ok (rc_card r)) (useMatrixPeerCards rooms es)"
proof -
  have "tracked_ok (useMatrixPeerCards rooms es)"
    by (induction es rule: rev_induct) (auto simp: use_snoc timeline_ok, simp add: useMatrixPeerCards_def initial_ok)
  then show ?thesis by (simp add: tracked_ok_def MAX_TRACKED_def list_all_iff)
qed

text \<open>The first scan lists the newest cards first, and of every listed peer the newest card in the joined rooms.\<close>
theorem scan_lists_newest:
  "sorted (map (\<lambda>c. - rc_observedAt c) (initialCards rooms)) \<and> list_all (newest_in (seenCards rooms)) (initialCards rooms)"
  unfolding initialCards_def using byPeer_entries
  by (fastforce simp: take_map[symmetric] list_all_iff intro: sorted_wrt_take dest!: in_set_takeD)

text \<open>C34. However a card travels, the same card arrives: posted with the button it heads the list of everybody who sees the
  event, and its code in an image and its link in the paste field decode to it.\<close>
theorem posted_card_pairs:
  assumes "ev_type ev = ''m.room.message''" and "ev_content ev = post_content c" and "card_ok c"
  shows "map rc_card (take 1 (useMatrixPeerCards rooms (es @ [(ev, room, er)]))) = [c]
    \<and> handleFile ''image/png'' True True (Some (encodeToQrPayload c)) = Inr c \<and> handlePasteSubmit (encodeToDeeplink c) = Some (Inr c)"
proof -
  have "encodeToDeeplink c \<noteq> []" by (simp add: encodeToDeeplink_def SCHEME_def)
  moreover have "trim (encodeToDeeplink c) = encodeToDeeplink c" by (rule trim_free[OF deeplink_free])
  ultimately show ?thesis using extract_posted[OF assms(1,2)] assms(3) deeplink_roundtrip[OF assms(3)] scanned_card_decodes[OF assms(3)]
    by (auto simp: use_snoc onCardEvent_def toRecent_def upsertCard_def MAX_TRACKED_def handleFile_def handlePasteSubmit_def
      starts_with_def encodeToQrPayload_def)
qed

text \<open>A card without addresses, which is what a browser makes, goes nowhere: no list shows it when it is posted, and its code
  and its link are refused.\<close>
theorem addressless_card_refused:
  assumes "multiaddrs c = []" and "peerId c \<noteq> []" and "length (publicKeyHex c) = 64" and "list_all is_hex_digit (publicKeyHex c)"
  shows "(ev_type ev = ''m.room.message'' \<and> ev_content ev = post_content c \<longrightarrow> onCardEvent ev room er cards = cards)
    \<and> handlePasteSubmit (encodeToDeeplink c) = Some (Inl ''multiaddrs must not be empty'')
    \<and> decodeFromQrPayload (encodeToQrPayload c) = Some (Inl ''multiaddrs must not be empty'')"
proof -
  have v: "validateCard (card_payload c) = Inl ''multiaddrs must not be empty''"
    using assms by (simp add: validateCard_def card_payload_def nonnull_object_def)
  have "\<not> card_ok c" using assms(1) by (simp add: card_ok_def)
  then have "ev_type ev = ''m.room.message'' \<and> ev_content ev = post_content c \<longrightarrow> onCardEvent ev room er cards = cards"
    using extract_posted[of ev c] by (auto simp: onCardEvent_def toRecent_def)
  then show ?thesis
    by (simp add: handlePasteSubmit_def trim_free[OF deeplink_free] decodeFromQrPayload_def encodeToQrPayload_def decode_encoded_card v)
qed

text \<open>A live event replaces the peer's card whatever its date, and reading back the history of a room brings older ones.\<close>
lemma older_card_replaces:
  "rc_peer old = rc_peer new \<Longrightarrow> upsertCard old [new] = [old]"
  by (simp add: upsertCard_def MAX_TRACKED_def)

section \<open>Who holds the camera\<close>

definition camera_inv :: "CameraState \<Rightarrow> bool" where
  "camera_inv s = ((\<forall>i < length (cam_runs s). \<not> sr_cancelled (cam_runs s ! i) \<longrightarrow> cam_mounted s \<and> Suc i = length (cam_runs s))
    \<and> (\<forall>i \<in> set (cam_live s). i < length (cam_runs s) \<and> \<not> sr_cancelled (cam_runs s ! i) \<and> sr_stream (cam_runs s ! i))
    \<and> distinct (cam_live s) \<and> list_all card_ok (cam_cards s))"

lemma camera_inv_new:
  "camera_inv s \<Longrightarrow> (\<forall>i < length (cam_runs s). sr_cancelled (cam_runs s ! i)) \<Longrightarrow> camera_inv (newRun s)"
  by (fastforce simp: camera_inv_def newRun_def nth_append less_Suc_eq)

lemma cleanup_parts:
  "cam_runs (cleanupRun s) = (cam_runs s)[length (cam_runs s) - 1 := (cam_runs s ! (length (cam_runs s) - 1))\<lparr>sr_cancelled := True\<rparr>]"
  "cam_mounted (cleanupRun s) = cam_mounted s" "cam_cards (cleanupRun s) = cam_cards s"
  "cam_runs s \<noteq> [] \<Longrightarrow> cam_live (cleanupRun s) =
     (if sr_stream (cam_runs s ! (length (cam_runs s) - 1)) then removeAll (length (cam_runs s) - 1) (cam_live s) else cam_live s)"
  by (simp_all add: cleanupRun_def Let_def split: list.splits)

lemma cleanup_inv:
  assumes "camera_inv s"
  shows "camera_inv (cleanupRun s)" "\<forall>i < length (cam_runs (cleanupRun s)). sr_cancelled (cam_runs (cleanupRun s) ! i)"
    "cam_live (cleanupRun s) = []"
proof -
  let ?n = "length (cam_runs s) - 1"
  have last: "i = ?n \<and> sr_stream (cam_runs s ! i) \<and> cam_runs s \<noteq> []" if "i \<in> set (cam_live s)" for i
    using assms that unfolding camera_inv_def by (metis diff_Suc_1 length_0_conv not_less_zero)
  show runs: "\<forall>i < length (cam_runs (cleanupRun s)). sr_cancelled (cam_runs (cleanupRun s) ! i)"
    using assms unfolding cleanup_parts(1) camera_inv_def by (auto simp: nth_list_update)
  show l: "cam_live (cleanupRun s) = []"
  proof (cases "cam_live s")
    case Nil
    then show ?thesis by (cases "cam_runs s") (simp_all add: cleanupRun_def Let_def)
  next
    case (Cons j js)
    then have "cam_runs s \<noteq> []" "sr_stream (cam_runs s ! ?n)" using last[of j] by auto
    moreover have "removeAll ?n (cam_live s) = []" using last by (auto simp: removeAll_filter_not_eq filter_empty_conv)
    ultimately show ?thesis by (simp add: cleanup_parts(4))
  qed
  show "camera_inv (cleanupRun s)" using runs l assms unfolding camera_inv_def cleanup_parts(2,3) by simp
qed

lemma granted_inv:
  assumes "camera_inv s" and "i < length (cam_runs s)" and "\<not> sr_stream (cam_runs s ! i)"
  shows "camera_inv (cameraStep (CamGranted i) s)"
proof -
  have "i \<notin> set (cam_live s)" using assms unfolding camera_inv_def by blast
  then show ?thesis using assms unfolding camera_inv_def by (auto simp: Let_def nth_list_update)
qed

lemma frame_inv:
  assumes "camera_inv s" and "i < length (cam_runs s)" and "card_ok c"
  shows "camera_inv (s\<lparr>cam_runs := (cam_runs s)[i := (cam_runs s ! i)\<lparr>sr_cancelled := True\<rparr>],
     cam_live := removeAll i (cam_live s), cam_cards := cam_cards s @ [c]\<rparr>)"
  using assms unfolding camera_inv_def by (auto simp: nth_list_update distinct_removeAll)

lemma frame_cases:
  "cameraStep (CamFrame i code) s = s \<or> (\<exists>c. i < length (cam_runs s) \<and> \<not> sr_cancelled (cam_runs s ! i) \<and> card_ok c
     \<and> cameraStep (CamFrame i code) s = s\<lparr>cam_runs := (cam_runs s)[i := (cam_runs s ! i)\<lparr>sr_cancelled := True\<rparr>],
         cam_live := removeAll i (cam_live s), cam_cards := cam_cards s @ [c]\<rparr>)"
  using decoded_card_ok by (auto simp: decodeFromQrPayload_def split: option.splits sum.splits)

lemma running_mounted: "camera_inv s \<Longrightarrow> i < length (cam_runs s) \<Longrightarrow> \<not> sr_cancelled (cam_runs s ! i) \<Longrightarrow> cam_mounted s"
  unfolding camera_inv_def by blast

lemma camera_step_inv:
  assumes "camera_inv s" and "cam_mounted s \<or> cam_live s = []"
  shows "camera_inv (cameraStep e s) \<and> (cam_mounted (cameraStep e s) \<or> cam_live (cameraStep e s) = [])"
proof (cases e)
  case CamMount
  have "\<not> cam_mounted s \<Longrightarrow> \<forall>i < length (cam_runs s). sr_cancelled (cam_runs s ! i)" using running_mounted[OF assms(1)] by blast
  then show ?thesis using assms camera_inv_new CamMount by (auto simp: newRun_def)
next
  case CamRerender
  then show ?thesis using assms camera_inv_new[OF cleanup_inv(1,2)[OF assms(1)]] by (auto simp: newRun_def)
next
  case CamUnmount
  have "camera_inv ((cleanupRun s)\<lparr>cam_mounted := False\<rparr>)"
    using cleanup_inv[OF assms(1)] unfolding camera_inv_def by simp
  then show ?thesis using assms cleanup_inv(3)[OF assms(1)] CamUnmount by auto
next
  case (CamGranted i)
  then show ?thesis using assms granted_inv[OF assms(1), of i] running_mounted[OF assms(1), of i] by (auto simp: Let_def)
next
  case (CamRefused i m)
  then show ?thesis using assms by (auto simp: camera_inv_def)
next
  case (CamFrame i code)
  show ?thesis using frame_cases[of i code s]
  proof
    assume "\<exists>c. i < length (cam_runs s) \<and> \<not> sr_cancelled (cam_runs s ! i) \<and> card_ok c
     \<and> cameraStep (CamFrame i code) s = s\<lparr>cam_runs := (cam_runs s)[i := (cam_runs s ! i)\<lparr>sr_cancelled := True\<rparr>],
         cam_live := removeAll i (cam_live s), cam_cards := cam_cards s @ [c]\<rparr>"
    then obtain c where c: "i < length (cam_runs s)" "card_ok c"
      "cameraStep (CamFrame i code) s = s\<lparr>cam_runs := (cam_runs s)[i := (cam_runs s ! i)\<lparr>sr_cancelled := True\<rparr>],
         cam_live := removeAll i (cam_live s), cam_cards := cam_cards s @ [c]\<rparr>" by blast
    then show ?thesis using frame_inv[OF assms(1) c(1,2)] assms(2) unfolding CamFrame c(3) by auto
  qed (use assms CamFrame in simp)
qed

lemma camera_run_inv:
  "camera_inv (fold cameraStep es cameraStart) \<and> (cam_mounted (fold cameraStep es cameraStart) \<or> cam_live (fold cameraStep es cameraStart) = [])"
proof (induction es rule: rev_induct)
  case Nil
  then show ?case by (simp add: camera_inv_def cameraStart_def)
next
  case (snoc e es)
  then show ?case using camera_step_inv[of "fold cameraStep es cameraStart" e] by simp
qed

lemma at_most_one: "distinct xs \<Longrightarrow> (\<And>x. x \<in> set xs \<Longrightarrow> Suc x = n) \<Longrightarrow> length xs \<le> 1"
  by (cases xs; cases "tl xs") (auto dest: spec)

text \<open>C35. The dialog gives the camera back: whatever is granted, refused, rerendered and closed in whatever order, at most one
  camera is on, none when the scanner is not shown, and every card it hands on is well formed.\<close>
theorem scanner_camera_released:
  "length (cam_live (fold cameraStep es cameraStart)) \<le> 1
    \<and> (cam_mounted (fold cameraStep es cameraStart) \<or> cam_live (fold cameraStep es cameraStart) = [])
    \<and> list_all card_ok (cam_cards (fold cameraStep es cameraStart))"
proof -
  let ?s = "fold cameraStep es cameraStart"
  have inv: "camera_inv ?s" using camera_run_inv by blast
  then have "Suc i = length (cam_runs ?s)" if "i \<in> set (cam_live ?s)" for i using that unfolding camera_inv_def by blast
  then have "length (cam_live ?s) \<le> 1" using inv at_most_one unfolding camera_inv_def by blast
  then show ?thesis using camera_run_inv[of es] inv by (auto simp: camera_inv_def)
qed

text \<open>After a code was read the scanner is dead until it is rerendered, also when pairing then failed.\<close>
lemma decoded_scanner_dead:
  assumes "i < length (cam_runs s)" and "sr_cancelled (cam_runs s ! i)"
  shows "cameraStep (CamFrame i code) s = s"
  using assms by simp

section \<open>The guest's camera\<close>

text \<open>The guest's scanner can leave the camera on: when it is closed while the browser still asks for the permission, the
  camera that is then granted stays on whatever happens, as long as the scanner is not opened again.\<close>
theorem guest_camera_left_on:
  assumes "\<not> gs_mounted s" and "gs_pending s > 0" and "\<And>b. GuestMount b \<notin> set es"
  shows "gs_next s \<in> set (gs_live (fold (guestStep p) es (guestStep p GuestGranted s)))"
proof -
  have step: "\<not> gs_mounted (guestStep p e t) \<and> \<not> gs_attached (guestStep p e t) \<and> set (gs_live t) \<subseteq> set (gs_live (guestStep p e t))"
    if "\<not> gs_mounted t" "\<not> gs_attached t" "\<And>b. e \<noteq> GuestMount b" for e t
    using that by (cases e) (auto simp: setScanError_def)
  have "\<not> gs_mounted t \<Longrightarrow> \<not> gs_attached t \<Longrightarrow> (\<And>b. GuestMount b \<notin> set es)
    \<Longrightarrow> set (gs_live t) \<subseteq> set (gs_live (fold (guestStep p) es t))" for t
  proof (induction es arbitrary: t)
    case (Cons e es)
    have e: "\<And>b. e \<noteq> GuestMount b" using Cons.prems(3) by (metis list.set_intros(1))
    show ?case using step[OF Cons.prems(1,2) e] Cons.IH[of "guestStep p e t"] Cons.prems(3) by fastforce
  qed simp
  from this[of "guestStep p GuestGranted s"] show ?thesis using assms by auto
qed

text \<open>A foreign code blinds the guest's scanner: the message about it takes the place of the picture, so no later frame is
  read, though the camera stays on.\<close>
theorem foreign_code_blinds:
  assumes "gs_mounted s" and "gs_loop s" and "gs_attached s" and "scanImageData p code = Some (Inl e)"
  shows "fold (guestStep p) (map GuestFrame frames) (guestStep p (GuestFrame code) s) = guestStep p (GuestFrame code) s
    \<and> gs_live (guestStep p (GuestFrame code) s) = gs_live s \<and> gs_error (guestStep p (GuestFrame code) s) = Some (DecodeError e)"
proof -
  let ?t = "guestStep p (GuestFrame code) s"
  have t: "\<not> gs_attached ?t" "gs_live ?t = gs_live s" "gs_error ?t = Some (DecodeError e)"
    using assms by (simp_all add: setScanError_def)
  have "fold (guestStep p) (map GuestFrame frames) ?t = ?t"
    using t(1) by (induction frames) simp_all
  then show ?thesis using t(2,3) by blast
qed

text \<open>A scanner that is closed with the camera it knows of turns it off.\<close>
lemma guest_close_stops: "gs_mounted s \<Longrightarrow> gs_live s = (case gs_stream s of None \<Rightarrow> [] | Some i \<Rightarrow> [i]) \<Longrightarrow> gs_live (guestStep p GuestUnmount s) = []"
  by (auto simp: stopScan_def split: option.splits)

section \<open>At concrete inputs\<close>

definition walking_card :: peer_card where
  "walking_card = \<lparr>peerId = ''12D3'', publicKeyHex = replicate 64 CHR ''a'', multiaddrs = [''/ip4/10.0.0.1'']\<rparr>"

definition card_event :: "peer_card \<Rightarrow> matrix_event" where
  "card_event c = \<lparr>ev_id = ''$1'', ev_sender = ''@a:b'', ev_type = ''m.room.message'', ev_ts = 5, ev_redacted = False, ev_content = post_content c\<rparr>"

theorem posted_card_pairs_witness:
  "map rc_card (take 1 (useMatrixPeerCards [] [(card_event walking_card, None, None)])) = [walking_card]
    \<and> handlePasteSubmit (encodeToDeeplink walking_card) = Some (Inr walking_card)"
proof -
  have "card_ok walking_card" by code_simp
  from posted_card_pairs[of "card_event walking_card" walking_card "[]" "[]" None None, OF _ _ this]
  show ?thesis by (simp add: card_event_def)
qed

theorem addressless_card_refused_witness:
  "handlePasteSubmit (encodeToDeeplink (walking_card\<lparr>multiaddrs := []\<rparr>)) = Some (Inl ''multiaddrs must not be empty'')
    \<and> onCardEvent (card_event (walking_card\<lparr>multiaddrs := []\<rparr>)) None None [] = []"
proof -
  have "length (publicKeyHex (walking_card\<lparr>multiaddrs := []\<rparr>)) = 64" "list_all is_hex_digit (publicKeyHex (walking_card\<lparr>multiaddrs := []\<rparr>))"
    "peerId (walking_card\<lparr>multiaddrs := []\<rparr>) \<noteq> []" by code_simp+
  from addressless_card_refused[of "walking_card\<lparr>multiaddrs := []\<rparr>" "card_event (walking_card\<lparr>multiaddrs := []\<rparr>)" None None "[]", OF _ this(3,1,2)]
  show ?thesis by (simp add: card_event_def)
qed

theorem guest_camera_left_on_witness:
  "gs_next (fold (guestStep Some) [GuestMount True, GuestClose, GuestUnmount] guestStart)
     \<in> set (gs_live (fold (guestStep Some) [GuestFrame None, GuestClose, GuestUnmount]
         (guestStep Some GuestGranted (fold (guestStep Some) [GuestMount True, GuestClose, GuestUnmount] guestStart))))"
  by (rule guest_camera_left_on) (simp_all add: guestStart_def requestCamera_def setScanError_def stopScan_def)

theorem foreign_code_blinds_witness:
  "gs_error (fold (guestStep Some) [GuestMount True, GuestGranted, GuestFrame (Some ''concord+pair://v2/''), GuestFrame None] guestStart) \<noteq> None
    \<and> gs_live (fold (guestStep Some) [GuestMount True, GuestGranted, GuestFrame (Some ''concord+pair://v2/''), GuestFrame None] guestStart) = [0]"
proof -
  let ?s = "fold (guestStep Some) [GuestMount True, GuestGranted] guestStart"
  have s: "gs_mounted ?s" "gs_loop ?s" "gs_attached ?s" "gs_live ?s = [0]"
    by (simp_all add: guestStart_def requestCamera_def setScanError_def)
  obtain e where "scanImageData Some (Some ''concord+pair://v2/'') = Some (Inl e)"
    by (simp add: scanImageData_def decodePairingPayload_def PAIRING_URL_PREFIX_def PAIRING_URL_SCHEME_def starts_with_def)
  from foreign_code_blinds[OF s(1-3) this, of "[None]"] s(4) show ?thesis by simp
qed

end
