(* ===== verification/Shell.thy ===== *)
theory Shell
  imports Settings Storage Devices JsonText
begin

text \<open>
  The shell of the signed-in client, \<open>components/layout/ChatLayout.tsx\<close>: which view is shown, what the buttons, tabs,
  swipes and edge zones do to it, with the settings and server stores behind; what the main pane shows; the rules gate;
  the width of the sidebar; the last channel and its restoration. Rendering, animation and the browser's scrolling are
  events and arguments.
\<close>

section \<open>Views\<close>

datatype MobileView = ViewSources | ViewServers | ViewChannels | ViewChat | ViewDms | ViewSettings

definition PAGE_DEPTH :: "MobileView list" where "PAGE_DEPTH = [ViewSources, ViewServers, ViewChannels, ViewChat]"

record BrowseTab =
  tab_id :: str
  tab_pageView :: MobileView
  tab_serverId :: "str option"
  tab_channelId :: "str option"
  tab_dmActive :: bool
  tab_dmRoomId :: "str option"

text \<open>The state of the shell with the stores its handlers write: settings, servers, direct messages. \<open>sh_guard\<close> is the end of
  the last programmatic scroll, \<open>sh_panel\<close> the panel scrolled to.\<close>
record Shell =
  sh_tabs :: "BrowseTab list"
  sh_activeTab :: str
  sh_overlay :: "MobileView option"
  sh_prev :: MobileView
  sh_leftEdge :: "MobileView option"
  sh_rightEdge :: bool
  sh_guard :: int
  sh_panel :: nat
  sh_settings :: SettingsState
  sh_servers :: ServerState
  sh_dmActive :: bool
  sh_dmRoom :: "str option"

definition initialShell :: "str \<Rightarrow> SettingsState \<Rightarrow> ServerState \<Rightarrow> Shell" where
  "initialShell firstId st sv = \<lparr>sh_tabs = [\<lparr>tab_id = firstId, tab_pageView = ViewSources, tab_serverId = None, tab_channelId = None,
       tab_dmActive = False, tab_dmRoomId = None\<rparr>], sh_activeTab = firstId, sh_overlay = None, sh_prev = ViewChat, sh_leftEdge = None,
     sh_rightEdge = False, sh_guard = 0, sh_panel = 0, sh_settings = st, sh_servers = sv, sh_dmActive = False, sh_dmRoom = None\<rparr>"

definition activeTab :: "Shell \<Rightarrow> BrowseTab" where
  "activeTab s = (case find (\<lambda>t. tab_id t = sh_activeTab s) (sh_tabs s) of Some t \<Rightarrow> t | None \<Rightarrow> hd (sh_tabs s))"

definition mobileView :: "Shell \<Rightarrow> MobileView" where
  "mobileView s = (case sh_overlay s of Some v \<Rightarrow> v | None \<Rightarrow> tab_pageView (activeTab s))"

definition setMobileView :: "MobileView \<Rightarrow> Shell \<Rightarrow> Shell" where
  "setMobileView v s = (if v = ViewDms \<or> v = ViewSettings then s\<lparr>sh_overlay := Some v\<rparr>
     else s\<lparr>sh_overlay := None, sh_tabs := map (\<lambda>t. if tab_id t = sh_activeTab s then t\<lparr>tab_pageView := v\<rparr> else t) (sh_tabs s)\<rparr>)"

definition shellDMActive :: "bool \<Rightarrow> Shell \<Rightarrow> Shell" where
  "shellDMActive a s = s\<lparr>sh_dmActive := a, sh_dmRoom := (if a then sh_dmRoom s else None)\<rparr>"

text \<open>\<open>if (PAGE_DEPTH.includes(mobileView)) prevPageDepthRef.current = mobileView\<close>\<close>
definition rememberPage :: "Shell \<Rightarrow> Shell" where
  "rememberPage s = (if mobileView s \<in> set PAGE_DEPTH then s\<lparr>sh_prev := mobileView s\<rparr> else s)"

definition onSettings :: "settings_action \<Rightarrow> Shell \<Rightarrow> Shell" where
  "onSettings a s = s\<lparr>sh_settings := settings_do (servers (sh_servers s)) a (sh_settings s)\<rparr>"

definition closeBoth :: "Shell \<Rightarrow> Shell" where "closeBoth s = onSettings CloseServerSettings (onSettings CloseSettings s)"

section \<open>Handlers\<close>

datatype shell_event =
    TapPage MobileView
  | DmButton
  | HostingButton
  | SettingsButton
  | BackArrow bool bool bool
  | TapServer str
  | TapChannel str
  | TapDm str
  | ScrollSettled int
  | LeftZone
  | LeftTile
  | LeftDismiss
  | RightZone
  | RightTile
  | RightDismiss
  | TvBack
  | Gear str
  | OpenFrom "SettingsTab option"
  | DeskSettings "SettingsTab option"
  | DeskBack
  | DeskServer str
  | DeskChannel str
  | DeskDm str

text \<open>\<open>handleServerClick\<close> of \<open>ServerSidebar.tsx\<close>, on both layouts, before \<open>onServerSelect\<close>.\<close>
definition handleServerClick :: "str \<Rightarrow> Shell \<Rightarrow> Shell" where
  "handleServerClick i s0 = (let s = shellDMActive False s0; st = setActiveServer i (sh_servers s) in
     case find_by srv_id i (servers st) of
       None \<Rightarrow> s\<lparr>sh_servers := st\<rparr>
     | Some target \<Rightarrow> (case srv_channels target of
         [] \<Rightarrow> s\<lparr>sh_servers := st\<rparr>
       | c # _ \<Rightarrow>
           let already = (case activeChannelId st of None \<Rightarrow> False | Some r \<Rightarrow> r \<noteq> [] \<and> r \<in> set (map ch_matrix_room_id (srv_channels target)))
           in s\<lparr>sh_servers := (if already then st else setActiveChannel (ch_matrix_room_id c) st)\<rparr>))"

text \<open>\<open>handleChannelClick\<close> of \<open>ChannelSidebar.tsx\<close> with what the layout passes it.\<close>
definition handleChannelClick :: "bool \<Rightarrow> str \<Rightarrow> Shell \<Rightarrow> Shell" where
  "handleChannelClick mobile room s0 = (let s = closeBoth s0; s' = s\<lparr>sh_servers := setActiveChannel room (sh_servers s)\<rparr>
     in if mobile then setMobileView ViewChat s' else s')"

definition handleTvBack :: "Shell \<Rightarrow> Shell" where
  "handleTvBack s = (case mobileView s of
     ViewChat \<Rightarrow> setMobileView ViewChannels s
   | ViewChannels \<Rightarrow> setMobileView ViewServers s
   | ViewSettings \<Rightarrow> setMobileView (sh_prev s) (closeBoth s)
   | ViewDms \<Rightarrow> setMobileView (sh_prev s) s
   | _ \<Rightarrow> s)"

text \<open>The arrow of the mobile top bar: a conversation, a channel, a server is known.\<close>
definition backArrow :: "bool \<Rightarrow> bool \<Rightarrow> bool \<Rightarrow> Shell \<Rightarrow> Shell" where
  "backArrow conv chan server s =
    (if mobileView s = ViewChat \<and> sh_dmActive s \<and> conv then setMobileView ViewDms s
     else if mobileView s = ViewChat \<and> chan then setMobileView ViewChannels s
     else if mobileView s = ViewDms then s
     else if mobileView s = ViewChannels \<and> server then setMobileView ViewServers s
     else if mobileView s = ViewSettings then setMobileView (sh_prev s) (closeBoth s)
     else s)"

definition openSettingsView :: "SettingsTab option \<Rightarrow> Shell \<Rightarrow> Shell" where
  "openSettingsView tab s = setMobileView ViewSettings (onSettings (OpenSettings tab) (rememberPage s))"

definition settingsToggle :: "Shell \<Rightarrow> Shell" where
  "settingsToggle s =
    (if mobileView s = ViewSettings \<or> settingsOpen (sh_settings s) \<or> serverSettingsId (sh_settings s) \<notin> {None, Some []}
     then setMobileView (sh_prev s) (closeBoth s) else openSettingsView None s)"

definition dmButton :: "Shell \<Rightarrow> Shell" where
  "dmButton s = (if mobileView s = ViewDms then (let s' = shellDMActive False s in setMobileView (sh_prev s') s')
     else setMobileView ViewDms (shellDMActive True (rememberPage s)))"

fun depth_index :: "MobileView \<Rightarrow> nat" where
  "depth_index ViewSources = 0" | "depth_index ViewServers = 1" | "depth_index ViewChannels = 2" | "depth_index ViewChat = 3"
| "depth_index _ = 4"

text \<open>The end of a scroll, debounced; \<open>i\<close> is the rounded quotient of position and width.\<close>
definition handleScrollSnap :: "int \<Rightarrow> int \<Rightarrow> Shell \<Rightarrow> Shell" where
  "handleScrollSnap now i s = (if now < sh_guard s then s
     else let target = PAGE_DEPTH ! nat (max 0 (min i 3)) in
       if target \<noteq> mobileView s then shellDMActive False (setMobileView target s) else s)"

fun shell_handle :: "int \<Rightarrow> shell_event \<Rightarrow> Shell \<Rightarrow> Shell" where
  "shell_handle now (TapPage v) s = (if mobileView s \<in> set PAGE_DEPTH \<and> v \<in> set PAGE_DEPTH then setMobileView v s else s)"
| "shell_handle now DmButton s = dmButton s"
| "shell_handle now HostingButton s = openSettingsView (Some HostingTab) s"
| "shell_handle now SettingsButton s = settingsToggle s"
| "shell_handle now (BackArrow conv chan server) s = backArrow conv chan server s"
| "shell_handle now (TapServer i) s = setMobileView ViewChannels (handleServerClick i s)"
| "shell_handle now (TapChannel room) s = handleChannelClick True room s"
| "shell_handle now (TapDm room) s = setMobileView ViewChat (s\<lparr>sh_dmRoom := Some room\<rparr>)"
| "shell_handle now (ScrollSettled i) s = handleScrollSnap now i s"
| "shell_handle now LeftZone s = (if mobileView s = ViewChannels \<or> mobileView s = ViewChat
     then s\<lparr>sh_leftEdge := Some (if PAGE_DEPTH ! (depth_index (mobileView s) - 1) = ViewSources then ViewSources else ViewServers)\<rparr> else s)"
| "shell_handle now LeftTile s = (case sh_leftEdge s of None \<Rightarrow> s | Some v \<Rightarrow> setMobileView v (s\<lparr>sh_leftEdge := None\<rparr>))"
| "shell_handle now LeftDismiss s = s\<lparr>sh_leftEdge := None\<rparr>"
| "shell_handle now RightZone s = (if mobileView s \<in> {ViewDms, ViewSettings, ViewChat} then s else s\<lparr>sh_rightEdge := True\<rparr>)"
| "shell_handle now RightTile s = (if \<not> sh_rightEdge s then s
     else if mobileView s = ViewServers then setMobileView ViewChannels (s\<lparr>sh_rightEdge := False\<rparr>)
     else if mobileView s = ViewChannels then setMobileView ViewChat (s\<lparr>sh_rightEdge := False\<rparr>) else s)"
| "shell_handle now RightDismiss s = s\<lparr>sh_rightEdge := False\<rparr>"
| "shell_handle now TvBack s = handleTvBack s"
| "shell_handle now (Gear i) s = onSettings (OpenServerSettings i) s"
| "shell_handle now (OpenFrom tab) s = openSettingsView tab s"
| "shell_handle now (DeskSettings tab) s = onSettings (OpenSettings tab) s"
| "shell_handle now DeskBack s = onSettings CloseSettings (onSettings CloseServerSettings s)"
| "shell_handle now (DeskServer i) s = handleServerClick i s"
| "shell_handle now (DeskChannel room) s = handleChannelClick False room s"
| "shell_handle now (DeskDm room) s = s\<lparr>sh_dmRoom := Some room\<rparr>"

text \<open>The effects after a commit: settings that were opened take over the view, and a new page is scrolled to.\<close>
definition settingsEffect :: "Shell \<Rightarrow> Shell \<Rightarrow> Shell" where
  "settingsEffect old s =
    (if (settingsOpen (sh_settings s), serverSettingsId (sh_settings s)) \<noteq> (settingsOpen (sh_settings old), serverSettingsId (sh_settings old))
        \<and> (settingsOpen (sh_settings s) \<or> serverSettingsId (sh_settings s) \<notin> {None, Some []})
     then setMobileView ViewSettings (rememberPage s) else s)"

definition scrollEffect :: "int \<Rightarrow> Shell \<Rightarrow> Shell \<Rightarrow> Shell" where
  "scrollEffect now old s = (if mobileView s \<noteq> mobileView old \<and> mobileView s \<in> set PAGE_DEPTH
     then s\<lparr>sh_guard := now + 500, sh_panel := depth_index (mobileView s)\<rparr> else s)"

definition shell_step :: "int \<times> shell_event \<Rightarrow> Shell \<Rightarrow> Shell" where
  "shell_step ne s = (let s1 = shell_handle (fst ne) (snd ne) s in scrollEffect (fst ne) s (settingsEffect s s1))"

section \<open>What is shown\<close>

definition activeRoomId :: "Shell \<Rightarrow> str option" where
  "activeRoomId s = (if sh_dmActive s then sh_dmRoom s else activeChannelId (sh_servers s))"

definition chatVisible :: "PlatformFlags \<Rightarrow> Shell \<Rightarrow> bool" where
  "chatVisible platform s = ((\<not> isMobile platform \<or> mobileView s = ViewChat) \<and> \<not> settingsOpen (sh_settings s)
     \<and> serverSettingsId (sh_settings s) \<in> {None, Some []})"

datatype shell_layout = LayoutTV | LayoutTablet | LayoutBoth

definition layout_of :: "PlatformFlags \<Rightarrow> shell_layout" where
  "layout_of p = (if isTV p then LayoutTV else if isIPad p then LayoutTablet else LayoutBoth)"

text \<open>The pane; the flags of a chat are the composer and its file button, the rooms are the ones written to.\<close>
datatype Pane =
    PaneLocal
  | PaneChat "str option" bool bool
  | PaneApp str
  | PaneAppMissing
  | PaneRules str
  | PaneVoice str
  | PaneConnecting
  | PaneLoading
  | PaneOnboarding
  | PanePickChannel

record PaneInput =
  pi_local :: bool
  pi_conversation :: bool
  pi_catalog :: "str list"
  pi_rules :: "str option"
  pi_rulesAccepted :: bool
  pi_syncing :: bool
  pi_loaded :: bool

definition renderChatContent :: "PlatformFlags \<Rightarrow> PaneInput \<Rightarrow> Shell \<Rightarrow> Pane" where
  "renderChatContent p x s =
    (let sv = sh_servers s; room = (case activeChannelId sv of None \<Rightarrow> None | Some r \<Rightarrow> if r = [] then None else Some r);
         chan = activeChannel sv in
     if pi_local x then PaneLocal
     else if sh_dmActive s \<and> sh_dmRoom s \<notin> {None, Some []} \<and> pi_conversation x then PaneChat (activeRoomId s) (\<not> isTV p) (\<not> isTV p)
     else case room of
       None \<Rightarrow> (if \<not> pi_syncing x then PaneConnecting else if \<not> pi_loaded x then PaneLoading
                else if servers sv = [] then PaneOnboarding else PanePickChannel)
     | Some r \<Rightarrow> (case chan of
         None \<Rightarrow> PaneChat (activeRoomId s) True True
       | Some c \<Rightarrow>
           if ch_channel_type c = AppChannel then
             (case ch_extension_id c of
                Some e \<Rightarrow> if e \<noteq> [] \<and> e \<in> set (pi_catalog x) then PaneApp e else PaneAppMissing
              | None \<Rightarrow> PaneAppMissing)
           else if ch_channel_type c \<noteq> VoiceChannel \<and> pi_rules x \<notin> {None, Some []} \<and> \<not> pi_rulesAccepted x
             then PaneRules (the (pi_rules x))
           else if ch_channel_type c = VoiceChannel then PaneVoice r
           else PaneChat (activeRoomId s) (\<not> isTV p)
             (\<not> isTV p \<and> (case activeServer sv of None \<Rightarrow> True | Some srv \<Rightarrow> srv_media_uploads_enabled srv))))"

section \<open>The local porch and application channels\<close>

text \<open>Some set string, as a condition of the source reads an id.\<close>
definition given :: "str option \<Rightarrow> bool" where "given i = (i \<noteq> None \<and> i \<noteq> Some [])"

definition openLocal :: "bool \<times> Shell \<Rightarrow> bool \<times> Shell" where
  "openLocal ls = (let s = shellDMActive False (snd ls)
     in (True, s\<lparr>sh_servers := (sh_servers s)\<lparr>activeServerId := None, activeChannelId := None\<rparr>\<rparr>))"

definition leaveLocalEffect :: "bool \<times> Shell \<Rightarrow> bool \<times> Shell" where
  "leaveLocalEffect ls = (if given (activeServerId (sh_servers (snd ls))) \<or> given (activeChannelId (sh_servers (snd ls))) \<or> sh_dmActive (snd ls)
     then (False, snd ls) else ls)"

text \<open>The first mount of a native client: the flag is whether it has been done.\<close>
definition autoActivate :: "bool \<Rightarrow> bool \<Rightarrow> bool \<times> Shell \<Rightarrow> bool \<times> (bool \<times> Shell)" where
  "autoActivate native done ls =
    (if done then (True, ls) else if \<not> native then (False, ls)
     else if given (activeServerId (sh_servers (snd ls))) \<or> given (activeChannelId (sh_servers (snd ls))) \<or> sh_dmActive (snd ls) then (False, ls)
     else (True, openLocal ls))"

text \<open>\<open>handleStopAppChannel\<close> once the call returned; a failure is the toast shown.\<close>
definition handleStopAppChannel :: "str + unit \<Rightarrow> Shell \<Rightarrow> Shell" where
  "handleStopAppChannel answer s = (case (activeServerId (sh_servers s), activeChannel (sh_servers s)) of
     (Some sid, Some c) \<Rightarrow> (case answer of
         Inl e \<Rightarrow> s\<lparr>sh_servers := addToast e (sh_servers s)\<rparr>
       | Inr _ \<Rightarrow> let st = deleteChannel sid (ch_id c) (sh_servers s);
             survivor = (case find_by srv_id sid (servers (sh_servers s)) of None \<Rightarrow> None
               | Some srv \<Rightarrow> find (\<lambda>d. ch_id d \<noteq> ch_id c \<and> ch_channel_type d \<noteq> AppChannel) (srv_channels srv))
           in s\<lparr>sh_servers := (case survivor of None \<Rightarrow> st | Some d \<Rightarrow> st\<lparr>activeChannelId := Some (ch_matrix_room_id d)\<rparr>)\<rparr>)
   | _ \<Rightarrow> s)"

section \<open>The rules gate\<close>

definition rulesAcceptedKey :: "str \<Rightarrow> str \<Rightarrow> str" where
  "rulesAcceptedKey userId serverId = ''concord_rules_accepted:'' @ userId @ '':'' @ serverId"

record RulesGate =
  rg_server :: "str option"
  rg_text :: "str option"
  rg_accepted :: bool
  rg_pending :: "str list"
  rg_storage :: local_storage

datatype rules_event =
    RulesSelect "str option" "str option"
  | RulesAnswer str "str option"
  | RulesAccept

definition resolveRules :: "str \<Rightarrow> str \<Rightarrow> str option \<Rightarrow> RulesGate \<Rightarrow> RulesGate" where
  "resolveRules userId serverId rulesText g =
    (if \<not> given rulesText then g\<lparr>rg_text := None, rg_accepted := True\<rparr>
     else g\<lparr>rg_text := rulesText, rg_accepted := (getItem (rg_storage g) (rulesAcceptedKey userId serverId) = Some ''1'')\<rparr>)"

text \<open>The effect of a selection (no server stands for none, and for direct messages), the answer to its request (a failed one
  is no rules), the button of the gate.\<close>
fun rules_step :: "str \<Rightarrow> rules_event \<Rightarrow> RulesGate \<Rightarrow> RulesGate" where
  "rules_step userId (RulesSelect server stored) g =
    (let g' = g\<lparr>rg_server := server\<rparr> in
     if \<not> given server then g'\<lparr>rg_text := None, rg_accepted := True\<rparr>
     else if stored \<noteq> None then resolveRules userId (the server) stored g'
     else g'\<lparr>rg_pending := rg_pending g @ [the server]\<rparr>)"
| "rules_step userId (RulesAnswer serverId rulesText) g =
    (if serverId \<in> set (rg_pending g) then resolveRules userId serverId rulesText (g\<lparr>rg_pending := remove1 serverId (rg_pending g)\<rparr>) else g)"
| "rules_step userId RulesAccept g =
    (if given (rg_text g) \<and> \<not> rg_accepted g
     then g\<lparr>rg_storage := (if given (rg_server g) then setItem (rulesAcceptedKey userId (the (rg_server g))) ''1'' (rg_storage g) else rg_storage g),
            rg_accepted := True\<rparr>
     else g)"

definition gateShown :: "RulesGate \<Rightarrow> str option" where
  "gateShown g = (if given (rg_text g) \<and> \<not> rg_accepted g then rg_text g else None)"

section \<open>The sidebar's width\<close>

definition SIDEBAR_MIN :: int where "SIDEBAR_MIN = 160"
definition SIDEBAR_MAX :: int where "SIDEBAR_MAX = 400"
definition SIDEBAR_DEFAULT :: int where "SIDEBAR_DEFAULT = 224"

definition clampWidth :: "int \<Rightarrow> int" where "clampWidth w = max SIDEBAR_MIN (min SIDEBAR_MAX w)"

text \<open>The first width; \<open>number\<close> is the conversion of the stored text, None is not a number, as is the result then.\<close>
definition initialWidth :: "(str \<Rightarrow> int option) \<Rightarrow> str option \<Rightarrow> int option" where
  "initialWidth number saved = (case saved of None \<Rightarrow> Some SIDEBAR_DEFAULT
     | Some t \<Rightarrow> if t = [] then Some SIDEBAR_DEFAULT else map_option clampWidth (number t))"

text \<open>A drag has where it began and the width then, which its two listeners have captured.\<close>
record Sidebar =
  sb_width :: int
  sb_drag :: "(int \<times> int) option"
  sb_stored :: str

datatype sidebar_event = ResizeStart int | ResizeMove int | ResizeEnd

fun sidebar_step :: "sidebar_event \<Rightarrow> Sidebar \<Rightarrow> Sidebar" where
  "sidebar_step (ResizeStart x) b = (if sb_drag b = None then b\<lparr>sb_drag := Some (x, sb_width b)\<rparr> else b)"
| "sidebar_step (ResizeMove x) b = (case sb_drag b of None \<Rightarrow> b
     | Some (startX, startWidth) \<Rightarrow> let w = clampWidth (startWidth + (x - startX)) in
         if w = sb_width b then b else b\<lparr>sb_width := w, sb_stored := int_text w\<rparr>)"
| "sidebar_step ResizeEnd b = (case sb_drag b of None \<Rightarrow> b
     | Some (startX, startWidth) \<Rightarrow> b\<lparr>sb_drag := None, sb_stored := int_text startWidth\<rparr>)"

section \<open>The last channel\<close>

definition lastChannelStorageKey :: "str option \<Rightarrow> str" where
  "lastChannelStorageKey userId = (if given userId then ''concord_last_channel:'' @ the userId else ''concord_last_channel'')"

definition trackLastChannel :: "str option \<Rightarrow> Shell \<Rightarrow> local_storage \<Rightarrow> local_storage" where
  "trackLastChannel userId s ls =
    (if \<not> sh_dmActive s \<and> given (activeServerId (sh_servers s)) \<and> given (activeChannelId (sh_servers s))
     then setItem (lastChannelStorageKey userId) (stringify (JObj [(''serverId'', JStr (the (activeServerId (sh_servers s)))),
            (''roomId'', JStr (the (activeChannelId (sh_servers s))))])) ls
     else ls)"

text \<open>The effect after the first load; it has handled the user whose id it returns. Null throws in the source.\<close>
definition startupRestore :: "bool \<Rightarrow> str option \<Rightarrow> local_storage \<Rightarrow> str option \<Rightarrow> Shell \<Rightarrow> str option \<times> Shell" where
  "startupRestore loaded userId ls handled s =
    (if \<not> loaded \<or> \<not> given userId then (handled, s)
     else if handled = userId then (handled, s)
     else case getItem ls (lastChannelStorageKey userId) of
       None \<Rightarrow> (userId, s)
     | Some raw \<Rightarrow> if raw = [] then (userId, s)
       else (case json_parse raw of
         None \<Rightarrow> (userId, s)
       | Some parsed \<Rightarrow> if parsed = JNull then (userId, s)
         else (case (as_str (jget parsed ''serverId''), as_str (jget parsed ''roomId'')) of
           (Some sid, Some room) \<Rightarrow> (case find_by srv_id sid (servers (sh_servers s)) of
               None \<Rightarrow> (handled, s)
             | Some server \<Rightarrow> (case find (\<lambda>c. ch_matrix_room_id c = room) (srv_channels server) of
                 None \<Rightarrow> (handled, s)
               | Some c \<Rightarrow> (userId, (shellDMActive False s)\<lparr>sh_servers :=
                   setActiveChannel (ch_matrix_room_id c) (setActiveServer (srv_id server) (sh_servers s))\<rparr>)))
         | _ \<Rightarrow> (handled, s))))"

text \<open>A commit runs the two effects in the order they are written in.\<close>
definition commitEffects :: "bool \<Rightarrow> str option \<Rightarrow> str option \<times> local_storage \<times> Shell \<Rightarrow> str option \<times> local_storage \<times> Shell" where
  "commitEffects loaded userId w = (case w of (handled, ls, s) \<Rightarrow>
     let ls' = trackLastChannel userId s ls; (handled', s') = startupRestore loaded userId ls' handled s in (handled', ls', s'))"

section \<open>The view is a view\<close>

definition shell_ok :: "Shell \<Rightarrow> bool" where
  "shell_ok s = ((\<exists>t. sh_tabs s = [t] \<and> tab_id t = sh_activeTab s \<and> tab_pageView t \<in> set PAGE_DEPTH) \<and> sh_prev s \<in> set PAGE_DEPTH
     \<and> sh_overlay s \<in> {None, Some ViewDms, Some ViewSettings} \<and> sh_leftEdge s \<in> {None, Some ViewSources, Some ViewServers})"

named_theorems shell_defs

lemmas shell_pages [shell_defs] = PAGE_DEPTH_def
lemmas shell_writes [shell_defs] = shellDMActive_def onSettings_def closeBoth_def rememberPage_def

lemma view_set [simp]: "shell_ok s \<Longrightarrow> mobileView (setMobileView v s) = v"
  by (auto simp: shell_ok_def mobileView_def setMobileView_def activeTab_def)

lemma ok_set [simp]: "shell_ok s \<Longrightarrow> shell_ok (setMobileView v s)"
  by (cases v) (auto simp: shell_ok_def setMobileView_def PAGE_DEPTH_def)

lemma ok_updates [simp]:
  "shell_ok (s\<lparr>sh_settings := x\<rparr>) = shell_ok s" "shell_ok (s\<lparr>sh_servers := sv\<rparr>) = shell_ok s" "shell_ok (s\<lparr>sh_dmActive := a\<rparr>) = shell_ok s"
  "shell_ok (s\<lparr>sh_dmRoom := r\<rparr>) = shell_ok s" "shell_ok (s\<lparr>sh_guard := g\<rparr>) = shell_ok s" "shell_ok (s\<lparr>sh_panel := p\<rparr>) = shell_ok s"
  "shell_ok (s\<lparr>sh_rightEdge := b\<rparr>) = shell_ok s"
  by (simp_all add: shell_ok_def)

lemma view_updates [simp]:
  "mobileView (s\<lparr>sh_settings := x\<rparr>) = mobileView s" "mobileView (s\<lparr>sh_servers := sv\<rparr>) = mobileView s"
  "mobileView (s\<lparr>sh_dmActive := a\<rparr>) = mobileView s" "mobileView (s\<lparr>sh_dmRoom := r\<rparr>) = mobileView s"
  "mobileView (s\<lparr>sh_guard := g\<rparr>) = mobileView s" "mobileView (s\<lparr>sh_panel := p\<rparr>) = mobileView s"
  "mobileView (s\<lparr>sh_rightEdge := b\<rparr>) = mobileView s" "mobileView (s\<lparr>sh_leftEdge := l\<rparr>) = mobileView s" "mobileView (s\<lparr>sh_prev := v\<rparr>) = mobileView s"
  by (simp_all add: mobileView_def activeTab_def split: option.splits)

lemma ok_remember [simp]: "shell_ok s \<Longrightarrow> shell_ok (rememberPage s)"
  by (simp add: rememberPage_def shell_ok_def)

lemma ok_writes [simp]: "shell_ok (shellDMActive a s) = shell_ok s" "shell_ok (onSettings x s) = shell_ok s" "shell_ok (closeBoth s) = shell_ok s"
  by (simp_all add: shellDMActive_def onSettings_def closeBoth_def shell_ok_def)

lemma ok_server [simp]: "shell_ok s \<Longrightarrow> shell_ok (handleServerClick i s)"
  by (simp add: handleServerClick_def Let_def split: option.splits list.splits)

lemma ok_handle: "shell_ok s \<Longrightarrow> shell_ok (shell_handle now e s)"
proof (induction now e s rule: shell_handle.induct)
  case (10 now s)
  then show ?case by (auto simp: shell_ok_def PAGE_DEPTH_def)
next
  case (11 now s)
  then have "shell_ok (s\<lparr>sh_leftEdge := None\<rparr>)" by (simp add: shell_ok_def)
  then show ?case using 11 by (simp split: option.splits)
next
  case (12 now s)
  then show ?case by (simp add: shell_ok_def)
qed (simp_all add: dmButton_def openSettingsView_def settingsToggle_def backArrow_def handleChannelClick_def handleScrollSnap_def handleTvBack_def
      Let_def split: MobileView.splits)

lemma ok_step: "shell_ok s \<Longrightarrow> shell_ok (shell_step e s)"
  using ok_handle[of s "fst e" "snd e"] by (simp add: shell_step_def scrollEffect_def settingsEffect_def Let_def)

lemma ok_run: "shell_ok s \<Longrightarrow> shell_ok (fold shell_step es s)"
  by (induction es arbitrary: s) (simp_all add: ok_step)

lemma ok_initial: "shell_ok (initialShell i st sv)"
  by (simp add: shell_ok_def initialShell_def PAGE_DEPTH_def)

lemma prev_set [simp]: "sh_prev (setMobileView v s) = sh_prev s" "sh_settings (setMobileView v s) = sh_settings s"
    "sh_dmActive (setMobileView v s) = sh_dmActive s" "sh_dmRoom (setMobileView v s) = sh_dmRoom s" "sh_servers (setMobileView v s) = sh_servers s"
    "sh_activeTab (setMobileView v s) = sh_activeTab s"
  by (simp_all add: setMobileView_def)

lemma effects_keep [simp]:
  "sh_settings (settingsEffect old s) = sh_settings s" "sh_dmActive (settingsEffect old s) = sh_dmActive s"
  "sh_dmRoom (settingsEffect old s) = sh_dmRoom s" "sh_servers (settingsEffect old s) = sh_servers s"
  "sh_settings (scrollEffect n old s) = sh_settings s" "sh_dmActive (scrollEffect n old s) = sh_dmActive s"
  "sh_dmRoom (scrollEffect n old s) = sh_dmRoom s" "sh_servers (scrollEffect n old s) = sh_servers s"
  "sh_prev (scrollEffect n old s) = sh_prev s" "mobileView (scrollEffect n old s) = mobileView s"
  "sh_activeTab (settingsEffect old s) = sh_activeTab s" "sh_activeTab (scrollEffect n old s) = sh_activeTab s"
  by (simp_all add: settingsEffect_def scrollEffect_def rememberPage_def)

lemma active_tab_kept [simp]:
  "sh_activeTab (shellDMActive a s) = sh_activeTab s" "sh_activeTab (onSettings x s) = sh_activeTab s" "sh_activeTab (closeBoth s) = sh_activeTab s"
  "sh_activeTab (rememberPage s) = sh_activeTab s" "sh_activeTab (handleServerClick i s) = sh_activeTab s"
  by (simp_all add: shell_writes handleServerClick_def Let_def split: option.splits list.splits)

section \<open>Navigation\<close>

text \<open>Whatever is tapped, swiped, opened and closed, the shell stays whole: one tab, on a page; a remembered page to return
  to; at most one overlay on top.\<close>
theorem shell_stays_whole:
  "\<exists>t. sh_tabs (fold shell_step es (initialShell i st sv)) = [t] \<and> tab_id t = i \<and> tab_pageView t \<in> set PAGE_DEPTH
    \<and> sh_prev (fold shell_step es (initialShell i st sv)) \<in> set PAGE_DEPTH
    \<and> mobileView (fold shell_step es (initialShell i st sv)) \<in> {tab_pageView t, ViewDms, ViewSettings}"
proof -
  let ?s = "fold shell_step es (initialShell i st sv)"
  have same: "sh_activeTab (shell_step e s) = sh_activeTab s" for e s
    by (cases "snd e") (simp_all add: shell_step_def Let_def dmButton_def openSettingsView_def settingsToggle_def backArrow_def
      handleChannelClick_def handleScrollSnap_def handleTvBack_def split: option.splits MobileView.splits)
  have tab: "sh_activeTab (fold shell_step es s) = sh_activeTab s" for s
    by (induction es arbitrary: s) (simp_all add: same)
  have "shell_ok ?s" by (rule ok_run[OF ok_initial])
  moreover have "sh_activeTab ?s = i" by (simp add: tab initialShell_def)
  ultimately show ?thesis by (auto simp: shell_ok_def mobileView_def activeTab_def split: option.splits)
qed

definition settings_shut :: "Shell \<Rightarrow> bool" where
  "settings_shut s = (\<not> settingsOpen (sh_settings s) \<and> serverSettingsId (sh_settings s) = None)"

lemma not_page [simp]: "ViewSettings \<notin> set PAGE_DEPTH" "ViewDms \<notin> set PAGE_DEPTH"
  by (simp_all add: PAGE_DEPTH_def)

lemma shut_given: "settings_shut s \<Longrightarrow> \<not> settingsOpen (sh_settings s)" "settings_shut s \<Longrightarrow> serverSettingsId (sh_settings s) = None"
  by (simp_all add: settings_shut_def)

lemma effect_when_shut: "\<not> settingsOpen (sh_settings s) \<Longrightarrow> serverSettingsId (sh_settings s) = None \<Longrightarrow> settingsEffect old s = s"
  by (simp add: settingsEffect_def)

lemma effect_in_settings:
  "shell_ok s \<Longrightarrow> mobileView s = ViewSettings \<Longrightarrow> mobileView (settingsEffect old s) = ViewSettings \<and> sh_prev (settingsEffect old s) = sh_prev s"
  by (simp add: settingsEffect_def rememberPage_def)

lemma open_view:
  assumes "shell_ok s" and "mobileView s \<in> set PAGE_DEPTH"
  shows "mobileView (openSettingsView tab s) = ViewSettings" "sh_prev (openSettingsView tab s) = mobileView s"
    "settingsOpen (sh_settings (openSettingsView tab s))" "serverSettingsId (sh_settings (openSettingsView tab s)) = None"
    "shell_ok (openSettingsView tab s)" "sh_dmActive (openSettingsView tab s) = sh_dmActive s"
  using assms by (simp_all add: openSettingsView_def, simp_all add: onSettings_def rememberPage_def)

lemma page_settings_step:
  assumes "shell_ok s" and "mobileView s \<in> set PAGE_DEPTH" and "settings_shut s"
  shows "shell_ok (shell_step (n, SettingsButton) s) \<and> mobileView (shell_step (n, SettingsButton) s) = ViewSettings
    \<and> sh_prev (shell_step (n, SettingsButton) s) = mobileView s \<and> settingsOpen (sh_settings (shell_step (n, SettingsButton) s))
    \<and> serverSettingsId (sh_settings (shell_step (n, SettingsButton) s)) = None"
proof -
  have "mobileView s \<noteq> ViewSettings" using assms(2) by auto
  then have t: "settingsToggle s = openSettingsView None s" using assms(3) by (simp add: settingsToggle_def settings_shut_def)
  have "shell_ok (shell_step (n, SettingsButton) s)" by (rule ok_step[OF assms(1)])
  then show ?thesis using open_view[OF assms(1,2), of None] effect_in_settings[of "openSettingsView None s" s]
    by (simp add: shell_step_def t)
qed

lemma closed_both [simp]:
  "sh_prev (closeBoth s) = sh_prev s" "mobileView (closeBoth s) = mobileView s" "\<not> settingsOpen (sh_settings (closeBoth s))"
  "serverSettingsId (sh_settings (closeBoth s)) = None" "sh_dmActive (closeBoth s) = sh_dmActive s" "sh_dmRoom (closeBoth s) = sh_dmRoom s"
  by (simp_all add: closeBoth_def onSettings_def)

lemma back_from_settings:
  assumes "shell_ok s" and "mobileView s = ViewSettings"
  shows "mobileView (shell_step (m, BackArrow a b c) s) = sh_prev s \<and> settings_shut (shell_step (m, BackArrow a b c) s)"
proof -
  have "backArrow a b c s = setMobileView (sh_prev s) (closeBoth s)" using assms(2) by (simp add: backArrow_def)
  then show ?thesis using assms by (simp add: shell_step_def effect_when_shut settings_shut_def)
qed

text \<open>Settings and back: from any page the settings button and the back arrow lead to that page again, with the settings
  shut.\<close>
theorem settings_return_to_page:
  assumes "mobileView (fold shell_step es (initialShell i st sv)) \<in> set PAGE_DEPTH" and "settings_shut (fold shell_step es (initialShell i st sv))"
  shows "let s = fold shell_step es (initialShell i st sv); s' = fold shell_step [(n, SettingsButton), (m, BackArrow a b c)] s
    in mobileView s' = mobileView s \<and> settings_shut s'"
proof -
  let ?s = "fold shell_step es (initialShell i st sv)"
  note a = page_settings_step[OF ok_run[OF ok_initial] assms, of n]
  have "mobileView (shell_step (m, BackArrow a b c) (shell_step (n, SettingsButton) ?s)) = mobileView ?s
      \<and> settings_shut (shell_step (m, BackArrow a b c) (shell_step (n, SettingsButton) ?s))"
    using back_from_settings[of "shell_step (n, SettingsButton) ?s" m a b c] a by presburger
  then show ?thesis by (simp add: Let_def)
qed

lemma dm_button_step:
  assumes "shell_ok s"
  shows "shell_ok (shell_step (n, DmButton) s)" "sh_settings (shell_step (n, DmButton) s) = sh_settings s"
    "mobileView (shell_step (n, DmButton) s) = (if mobileView s = ViewDms then sh_prev s else ViewDms)"
    "sh_prev (shell_step (n, DmButton) s) = (if mobileView s \<in> set PAGE_DEPTH then mobileView s else sh_prev s)"
    "sh_dmActive (shell_step (n, DmButton) s) = (mobileView s \<noteq> ViewDms)"
proof -
  have same: "sh_settings (dmButton s) = sh_settings s" by (simp add: dmButton_def Let_def shellDMActive_def rememberPage_def)
  then have st: "shell_step (n, DmButton) s = scrollEffect n s (dmButton s)" by (simp add: shell_step_def settingsEffect_def)
  show "shell_ok (shell_step (n, DmButton) s)" by (rule ok_step[OF assms])
  show "sh_settings (shell_step (n, DmButton) s) = sh_settings s" by (simp add: st same)
  show "mobileView (shell_step (n, DmButton) s) = (if mobileView s = ViewDms then sh_prev s else ViewDms)"
    using assms by (simp add: st dmButton_def Let_def, simp add: shellDMActive_def)
  show "sh_prev (shell_step (n, DmButton) s) = (if mobileView s \<in> set PAGE_DEPTH then mobileView s else sh_prev s)"
    by (simp add: st dmButton_def Let_def, auto simp: shellDMActive_def rememberPage_def)
  show "sh_dmActive (shell_step (n, DmButton) s) = (mobileView s \<noteq> ViewDms)"
    by (simp add: st dmButton_def Let_def, simp add: shellDMActive_def)
qed

text \<open>Messages opened from the settings leave them open underneath: back on the page the room counts as not looked at, so
  nothing is marked read, and the next tap on the settings button shows no settings.\<close>
theorem settings_stay_open_underneath:
  assumes "mobileView (fold shell_step es (initialShell i st sv)) \<in> set PAGE_DEPTH" and "settings_shut (fold shell_step es (initialShell i st sv))"
  shows "let s = fold shell_step es (initialShell i st sv);
      s' = fold shell_step [(n1, SettingsButton), (n2, DmButton), (n3, DmButton)] s
    in mobileView s' = mobileView s \<and> \<not> chatVisible platform s' \<and> mobileView (shell_step (n4, SettingsButton) s') = mobileView s"
proof -
  let ?s = "fold shell_step es (initialShell i st sv)"
  let ?a = "shell_step (n1, SettingsButton) ?s" and ?b = "shell_step (n2, DmButton) (shell_step (n1, SettingsButton) ?s)"
  let ?c = "shell_step (n3, DmButton) (shell_step (n2, DmButton) (shell_step (n1, SettingsButton) ?s))"
  note a = page_settings_step[OF ok_run[OF ok_initial] assms, of n1]
  have b: "shell_ok ?b" "mobileView ?b = ViewDms" "sh_prev ?b = mobileView ?s" "settingsOpen (sh_settings ?b)"
    using a dm_button_step[of ?a n2] by simp_all
  have c: "shell_ok ?c" "mobileView ?c = mobileView ?s" "sh_prev ?c = mobileView ?s" "settingsOpen (sh_settings ?c)"
    using b dm_button_step[of ?b n3] by simp_all
  have "settingsToggle ?c = setMobileView (sh_prev ?c) (closeBoth ?c)" using c(4) by (simp add: settingsToggle_def)
  then have "mobileView (shell_step (n4, SettingsButton) ?c) = mobileView ?s"
    using c by (simp add: shell_step_def effect_when_shut)
  then show ?thesis using c by (simp add: Let_def chatVisible_def)
qed

lemma tap_channel_step:
  assumes "shell_ok t"
  shows "mobileView (shell_step (m, TapChannel room) t) = ViewChat" "sh_dmActive (shell_step (m, TapChannel room) t) = sh_dmActive t"
    "sh_dmRoom (shell_step (m, TapChannel room) t) = sh_dmRoom t" "activeChannelId (sh_servers (shell_step (m, TapChannel room) t)) = Some room"
proof -
  let ?u = "handleChannelClick True room t"
  have e: "settingsEffect t ?u = ?u" by (rule effect_when_shut) (simp_all add: handleChannelClick_def Let_def)
  have st: "shell_step (m, TapChannel room) t = scrollEffect m t ?u" by (simp add: shell_step_def e)
  show "mobileView (shell_step (m, TapChannel room) t) = ViewChat" "sh_dmActive (shell_step (m, TapChannel room) t) = sh_dmActive t"
    "sh_dmRoom (shell_step (m, TapChannel room) t) = sh_dmRoom t" "activeChannelId (sh_servers (shell_step (m, TapChannel room) t)) = Some room"
    unfolding st using assms by (simp_all add: handleChannelClick_def Let_def setActiveChannel_def)
qed

text \<open>C36. A channel tapped while a conversation is open is not shown: the tap selects it, but the chat, and whatever is written
  there, stays with the conversation.\<close>
theorem tapped_channel_not_shown:
  assumes "mobileView (fold shell_step es (initialShell i st sv)) = ViewChat" and "sh_dmActive (fold shell_step es (initialShell i st sv))"
    and "settings_shut (fold shell_step es (initialShell i st sv))"
  shows "let s = fold shell_step es (initialShell i st sv);
      s' = fold shell_step [(n, TapPage ViewChannels), (m, TapChannel room)] s
    in mobileView s' = ViewChat \<and> activeChannelId (sh_servers s') = Some room \<and> activeRoomId s' = sh_dmRoom s"
proof -
  let ?s = "fold shell_step es (initialShell i st sv)"
  have ok: "shell_ok ?s" by (rule ok_run[OF ok_initial])
  let ?t = "shell_step (n, TapPage ViewChannels) ?s"
  have t: "shell_ok ?t" "sh_dmActive ?t" "sh_dmRoom ?t = sh_dmRoom ?s" "sh_settings ?t = sh_settings ?s"
    using assms ok_step[OF ok, of "(n, TapPage ViewChannels)"] by (simp, simp_all add: shell_step_def PAGE_DEPTH_def effect_when_shut shut_given)
  show ?thesis using t tap_channel_step[OF t(1), of m room] by (simp add: Let_def activeRoomId_def)
qed

text \<open>The events of the three-pane layout.\<close>
fun desk_event :: "shell_event \<Rightarrow> bool" where
  "desk_event (DeskSettings _) = True" | "desk_event DeskBack = True" | "desk_event (DeskServer _) = True" | "desk_event (DeskChannel _) = True"
| "desk_event (DeskDm _) = True" | "desk_event (Gear _) = True" | "desk_event (OpenFrom _) = True" | "desk_event _ = False"

lemma desk_view:
  assumes "shell_ok s" and "mobileView s \<noteq> ViewChat" and "desk_event (snd e)"
  shows "mobileView (shell_step e s) \<noteq> ViewChat"
proof -
  have ok: "shell_ok (shell_handle (fst e) (snd e) s)" by (rule ok_handle[OF assms(1)])
  have v: "mobileView (shell_handle (fst e) (snd e) s) \<noteq> ViewChat" using assms
    by (cases "snd e") (simp_all add: openSettingsView_def handleServerClick_def handleChannelClick_def onSettings_def closeBoth_def
      shellDMActive_def Let_def split: option.splits list.splits)
  have "mobileView (settingsEffect s (shell_handle (fst e) (snd e) s)) \<noteq> ViewChat" using v ok by (simp add: settingsEffect_def)
  then show ?thesis by (simp add: shell_step_def)
qed

text \<open>An iPad never marks a room read: it gets the three-pane layout, where nothing makes the chat the current view, but
  counts as a mobile device, whose chat is only seen there.\<close>
theorem ipad_marks_nothing_read:
  assumes "layout_of (detectFlags b) = LayoutTablet" and "list_all (\<lambda>e. desk_event (snd e)) es"
  shows "\<not> chatVisible (detectFlags b) (fold shell_step es (initialShell i st sv))"
proof -
  have m: "isMobile (detectFlags b)" using assms(1)
    by (cases b) (auto simp: layout_of_def detectFlags_def DEFAULT_FLAGS_def Let_def split: if_splits)
  have "shell_ok s \<Longrightarrow> mobileView s \<noteq> ViewChat \<Longrightarrow> mobileView (fold shell_step es s) \<noteq> ViewChat" for s
    using assms(2) by (induction es arbitrary: s) (simp_all add: desk_view ok_step)
  moreover have "mobileView (initialShell i st sv) \<noteq> ViewChat" by (simp add: initialShell_def mobileView_def activeTab_def)
  ultimately have "mobileView (fold shell_step es (initialShell i st sv)) \<noteq> ViewChat" using ok_initial by blast
  then show ?thesis using m by (simp add: chatVisible_def)
qed

text \<open>A TV reads only, except in rooms of no server: a composer is offered exactly there, where the pane does not look at
  the device.\<close>
theorem tv_writes_in_loose_rooms:
  assumes "isTV p"
  shows "(\<exists>room files. renderChatContent p x s = PaneChat room True files)
    \<longleftrightarrow> \<not> pi_local x \<and> \<not> (sh_dmActive s \<and> given (sh_dmRoom s) \<and> pi_conversation x)
       \<and> given (activeChannelId (sh_servers s)) \<and> activeChannel (sh_servers s) = None"
  using assms by (auto simp: renderChatContent_def given_def Let_def split: option.splits if_splits)

section \<open>Rules, width, last channel\<close>

text \<open>The rules of one server can be shown in another: an answer that comes after the next server was selected is shown
  there, and accepting it counts for that server, whose own rules are never shown then.\<close>
theorem rules_shown_elsewhere:
  assumes "a \<noteq> []" and "b \<noteq> []" and "a \<noteq> b" and "t \<noteq> []" and "rg_pending g = []"
    and "getItem (rg_storage g) (rulesAcceptedKey u a) \<noteq> Some ''1''"
  shows "let g1 = fold (rules_step u) [RulesSelect (Some a) None, RulesSelect (Some b) None, RulesAnswer b None, RulesAnswer a (Some t)] g
    in gateShown g1 = Some t \<and> rg_server g1 = Some b
      \<and> gateShown (fold (rules_step u) [RulesAccept, RulesSelect (Some b) (Some own)] g1) = None"
  using assms by (simp add: Let_def given_def resolveRules_def gateShown_def getItem_setItem)

text \<open>A new width is forgotten: when the handle is let go, what is stored is the width before the drag, whatever it was
  dragged to.\<close>
theorem resize_forgotten:
  assumes "sb_drag b = None" and "xs \<noteq> []"
  shows "let b' = fold sidebar_step (ResizeStart x # map ResizeMove xs @ [ResizeEnd]) b
    in sb_width b' = clampWidth (sb_width b + (last xs - x)) \<and> sb_stored b' = int_text (sb_width b)"
proof -
  have "sb_drag c = Some (x, w) \<Longrightarrow> xs \<noteq> [] \<Longrightarrow> sb_drag (fold sidebar_step (map ResizeMove xs) c) = Some (x, w)
    \<and> sb_width (fold sidebar_step (map ResizeMove xs) c) = clampWidth (w + (last xs - x))" for c w
  proof (induction xs arbitrary: c)
    case (Cons y ys)
    let ?c = "sidebar_step (ResizeMove y) c"
    have c: "sb_drag ?c = Some (x, w)" "sb_width ?c = clampWidth (w + (y - x))" using Cons.prems(1) by (simp_all add: Let_def)
    show ?case
    proof (cases "ys = []")
      case True
      then show ?thesis using c by (simp del: sidebar_step.simps)
    next
      case False
      then show ?thesis using Cons.IH[OF c(1)] by simp
    qed
  qed simp
  from this[of "sidebar_step (ResizeStart x) b" "sb_width b"] assms show ?thesis by (simp add: Let_def)
qed

lemma resize_bounded: "sb_width (sidebar_step e b) = sb_width b \<or> (SIDEBAR_MIN \<le> sb_width (sidebar_step e b) \<and> sb_width (sidebar_step e b) \<le> SIDEBAR_MAX)"
  by (cases e) (auto simp: Let_def clampWidth_def SIDEBAR_MIN_def SIDEBAR_MAX_def split: option.splits)

lemma last_channel_entry:
  "\<not> sh_dmActive s \<Longrightarrow> activeServerId (sh_servers s) = Some i \<Longrightarrow> activeChannelId (sh_servers s) = Some r \<Longrightarrow> i \<noteq> [] \<Longrightarrow> r \<noteq> []
   \<Longrightarrow> getItem (trackLastChannel u s ls) (lastChannelStorageKey u) = Some (stringify (JObj [(''serverId'', JStr i), (''roomId'', JStr r)]))"
  by (simp add: trackLastChannel_def given_def getItem_setItem)

lemma restore_from_entry:
  assumes "getItem ls (lastChannelStorageKey (Some u)) = Some (stringify (JObj [(''serverId'', JStr i), (''roomId'', JStr r)]))" and "u \<noteq> []"
  shows "startupRestore True (Some u) ls None s = (case find_by srv_id i (servers (sh_servers s)) of
      None \<Rightarrow> (None, s)
    | Some server \<Rightarrow> (case find (\<lambda>c. ch_matrix_room_id c = r) (srv_channels server) of
        None \<Rightarrow> (None, s)
      | Some c \<Rightarrow> (Some u, (shellDMActive False s)\<lparr>sh_servers :=
          setActiveChannel (ch_matrix_room_id c) (setActiveServer (srv_id server) (sh_servers s))\<rparr>)))"
proof -
  let ?j = "JObj [(''serverId'', JStr i), (''roomId'', JStr r)]"
  have "json_parse (stringify ?j) = Some ?j" by (rule parse_stringify) simp
  moreover have "stringify ?j \<noteq> []" using stringify_length[of ?j] by auto
  ultimately show ?thesis using assms by (simp add: startupRestore_def given_def)
qed

lemma found_channel: "find (\<lambda>c. ch_matrix_room_id c = r) cs = Some c \<Longrightarrow> ch_matrix_room_id c = r"
  by (auto simp: find_Some_iff)

text \<open>The last channel comes back: what was stored while a channel was open selects it again at the next start, when its
  server still has it and nothing was stored meanwhile.\<close>
theorem last_channel_restored:
  assumes "\<not> sh_dmActive s" and "activeServerId (sh_servers s) = Some i" and "activeChannelId (sh_servers s) = Some r"
    and "i \<noteq> []" and "r \<noteq> []" and "u \<noteq> []"
    and "find_by srv_id i (servers (sh_servers s2)) = Some server" and "r \<in> set (map ch_matrix_room_id (srv_channels server))"
  shows "let s' = snd (startupRestore True (Some u) (trackLastChannel (Some u) s ls) None s2)
    in activeServerId (sh_servers s') = Some i \<and> activeChannelId (sh_servers s') = Some r \<and> activeRoomId s' = Some r"
proof -
  obtain c where c: "find (\<lambda>c. ch_matrix_room_id c = r) (srv_channels server) = Some c"
    using assms(8) by (cases "find (\<lambda>c. ch_matrix_room_id c = r) (srv_channels server)") (auto simp: find_None_iff)
  have "srv_id server = i" using assms(7) by (auto dest: find_by_SomeD)
  then show ?thesis using restore_from_entry[OF last_channel_entry[OF assms(1-5)] assms(6), of ls s2] c assms(7)
    by (simp add: Let_def found_channel[OF c] shellDMActive_def setActiveChannel_def setActiveServer_def activeRoomId_def)
qed

text \<open>C37. But at a start it never does: loading the servers selects the lobby, the commit stores that as the last channel before
  it is read back, and so the lobby stays selected and is the last channel from then on, whatever was stored.\<close>
theorem startup_forgets_last_channel:
  assumes "activeServerId (sh_servers s) = None" and "la_list answers = Inr ss" and "ss \<noteq> []" and "\<not> sh_dmActive s" and "u \<noteq> []"
    and "pickLobbyServer ss = Some lobby" and "pickPreferredChannel (Some lobby) = Some c" and "srv_id lobby \<noteq> []" and "ch_matrix_room_id c \<noteq> []"
  shows "let s1 = s\<lparr>sh_servers := loadServers answers (sh_servers s)\<rparr>; (handled, ls', s') = commitEffects True (Some u) (None, ls, s1)
    in activeServerId (sh_servers s') = Some (srv_id lobby) \<and> activeChannelId (sh_servers s') = Some (ch_matrix_room_id c)
      \<and> getItem ls' (lastChannelStorageKey (Some u))
          = Some (stringify (JObj [(''serverId'', JStr (srv_id lobby)), (''roomId'', JStr (ch_matrix_room_id c))]))"
proof -
  let ?s = "s\<lparr>sh_servers := loadServers answers (sh_servers s)\<rparr>"
  have sel: "activeServerId (sh_servers ?s) = Some (srv_id lobby)" "activeChannelId (sh_servers ?s) = Some (ch_matrix_room_id c)"
    using assms by (simp_all add: loadServers_def loadedServers_def select_default_def Let_def)
  have dm: "\<not> sh_dmActive ?s" using assms(4) by simp
  note entry = last_channel_entry[OF dm sel assms(8,9), of "Some u" ls]
  note restored = restore_from_entry[OF last_channel_entry[OF dm sel assms(8,9)] assms(5), of ls ?s]
  show ?thesis
  proof (cases "find_by srv_id (srv_id lobby) (servers (sh_servers ?s))")
    case None
    then show ?thesis using restored sel entry by (simp add: commitEffects_def Let_def)
  next
    case (Some server)
    then have id: "srv_id server = srv_id lobby" by (auto dest: find_by_SomeD)
    show ?thesis
    proof (cases "find (\<lambda>d. ch_matrix_room_id d = ch_matrix_room_id c) (srv_channels server)")
      case None
      then show ?thesis using restored sel entry Some by (simp add: commitEffects_def Let_def)
    next
      case (Some d)
      then show ?thesis using restored entry \<open>find_by srv_id (srv_id lobby) (servers (sh_servers ?s)) = Some server\<close> id found_channel[OF Some]
        by (simp add: commitEffects_def Let_def setActiveChannel_def setActiveServer_def)
    qed
  qed
qed

text \<open>A click on the server that is shown resets its channel: the store has picked one before the sidebar looks.\<close>
lemma reclick_resets_channel:
  assumes "find_by srv_id i (servers (sh_servers s)) = Some target" and "pickPreferredChannel (Some target) = Some c"
    and "srv_channels target = c # cs" and "ch_matrix_room_id c \<noteq> []"
  shows "activeChannelId (sh_servers (handleServerClick i s)) = Some (ch_matrix_room_id c)"
  using assms by (simp add: handleServerClick_def Let_def shellDMActive_def setActiveServer_def)

lemma local_excludes: "fst (leaveLocalEffect ls) \<Longrightarrow> fst ls \<and> \<not> sh_dmActive (snd ls) \<and> \<not> given (activeServerId (sh_servers (snd ls)))"
  by (auto simp: leaveLocalEffect_def split: if_splits)

section \<open>At concrete inputs\<close>

definition first_shell :: Shell where "first_shell = initialShell ''t'' initialSettings emptyState"

lemmas shell_eval = first_shell_def initialShell_def initialSettings_def shell_step_def scrollEffect_def settingsEffect_def mobileView_def
  activeTab_def setMobileView_def PAGE_DEPTH_def dmButton_def shellDMActive_def rememberPage_def settings_shut_def

theorem settings_return_to_page_witness:
  "mobileView (fold shell_step [(0, SettingsButton), (9, BackArrow False False False)] first_shell) = ViewSources"
proof -
  have "mobileView first_shell = ViewSources" "settings_shut first_shell" by (simp_all add: shell_eval)
  then show ?thesis
    using settings_return_to_page[of "[]" "''t''" initialSettings emptyState 0 9 False False False]
    by (simp add: first_shell_def PAGE_DEPTH_def Let_def)
qed

theorem tapped_channel_not_shown_witness:
  "activeRoomId (fold shell_step [(0, DmButton), (0, TapDm ''!dm''), (1, TapPage ViewChannels), (2, TapChannel ''!room'')] first_shell) = Some ''!dm''"
proof -
  let ?es = "[(0, DmButton), (0, TapDm ''!dm'')]"
  have h: "mobileView (fold shell_step ?es first_shell) = ViewChat" "sh_dmActive (fold shell_step ?es first_shell)"
    "settings_shut (fold shell_step ?es first_shell)" "sh_dmRoom (fold shell_step ?es first_shell) = Some ''!dm''"
    by (simp_all add: shell_eval)
  from tapped_channel_not_shown[OF h(1)[unfolded first_shell_def] h(2)[unfolded first_shell_def] h(3)[unfolded first_shell_def], of 1 2 "''!room''"] h(4)
  show ?thesis unfolding Let_def first_shell_def by simp
qed

definition ipad :: Browser where
  "ipad = \<lparr>br_userAgent = ''iPad'', br_platform = [], br_touchPoints = 5, br_tauri = True, br_media = None\<rparr>"

theorem ipad_marks_nothing_read_witness:
  "\<not> chatVisible (detectFlags (Some ipad)) (fold shell_step [(0, DeskChannel ''!room''), (5, DeskSettings None), (9, DeskBack)] first_shell)"
proof -
  have "layout_of (detectFlags (Some ipad)) = LayoutTablet" by code_simp
  then show ?thesis unfolding first_shell_def by (rule ipad_marks_nothing_read) simp
qed

theorem rules_shown_elsewhere_witness:
  "gateShown (fold (rules_step ''@u'') [RulesSelect (Some ''a'') None, RulesSelect (Some ''b'') None, RulesAnswer ''b'' None, RulesAnswer ''a'' (Some ''Be kind'')]
     \<lparr>rg_server = None, rg_text = None, rg_accepted = True, rg_pending = [], rg_storage = []\<rparr>) = Some ''Be kind''"
  using rules_shown_elsewhere[of "''a''" "''b''" "''Be kind''" "\<lparr>rg_server = None, rg_text = None, rg_accepted = True, rg_pending = [], rg_storage = []\<rparr>"
      "''@u''"] by (simp add: Let_def getItem_def)

definition lobby_server :: Server where
  "lobby_server = sampleServer ''s1'' [sampleChannel 1 ''!welcome'']"

theorem startup_forgets_last_channel_witness:
  "let (handled, ls', s') = commitEffects True (Some ''@u'') (None, [(''concord_last_channel:@u'', ''anything'')],
       first_shell\<lparr>sh_servers := loadServers \<lparr>la_list = Inr [lobby_server], la_default = Inl [], la_join = Inl [], la_list2 = Inl []\<rparr> (sh_servers first_shell)\<rparr>)
   in activeChannelId (sh_servers s') = Some ''!welcome''
     \<and> getItem ls' ''concord_last_channel:@u'' = Some (stringify (JObj [(''serverId'', JStr ''s1''), (''roomId'', JStr ''!welcome'')]))"
proof -
  have p: "pickLobbyServer [lobby_server] = Some lobby_server" "pickPreferredChannel (Some lobby_server) = Some (sampleChannel 1 ''!welcome'')"
    "srv_id lobby_server = ''s1''" "lastChannelStorageKey (Some ''@u'') = ''concord_last_channel:@u''" "ch_matrix_room_id (sampleChannel 1 ''!welcome'') = ''!welcome''" by code_simp+
  have s: "activeServerId (sh_servers first_shell) = None" "\<not> sh_dmActive first_shell" by (simp_all add: shell_eval emptyState_def)
  show ?thesis
    using startup_forgets_last_channel[of first_shell "\<lparr>la_list = Inr [lobby_server], la_default = Inl [], la_join = Inl [], la_list2 = Inl []\<rparr>"
      "[lobby_server]" "''@u''" lobby_server "sampleChannel 1 ''!welcome''" "[(''concord_last_channel:@u'', ''anything'')]"] p s
    by (simp add: Let_def case_prod_beta)
qed

end
