(* ===== verification/AddSource.thy ===== *)
theory AddSource
  imports Sources Storage JsonText Discovery ServerStore
begin

text \<open>
  Connecting to another instance: the Matrix records of \<open>components/sources/matrixSourceAuth.ts\<close> with the calls of
  \<open>api/matrix.ts\<close>, the dialog \<open>AddSourceModal\<close> and the room directory \<open>SourceServerBrowser\<close> of
  \<open>components/layout/ChatLayout.tsx\<close>, and the brands of \<open>components/sources/sourceBrand.tsx\<close>. The homeserver's answers
  are arguments, an error being the message its exception carries; \<open>parse_url\<close> is the URL constructor. A handler of the
  dialog runs up to its await, where it is listed as waiting with what its closure holds; the answer to one of
  the waiting continues it, in any order, or never comes.
\<close>

section \<open>Calls of a homeserver\<close>

text \<open>The flows of the answer, in the order they were first added to the set.\<close>
fun flow_kind :: "str \<Rightarrow> str option" where
  "flow_kind t = (if t = ''m.login.password'' then Some ''password'' else if t = ''m.login.sso'' \<or> t = ''m.login.cas'' then Some ''sso''
     else if t = ''m.login.token'' then Some ''token'' else None)"

definition fetchLoginFlows :: "str list \<Rightarrow> str list" where
  "fetchLoginFlows types = foldl (\<lambda>fs t. case flow_kind t of None \<Rightarrow> fs | Some k \<Rightarrow> if k \<in> set fs then fs else fs @ [k]) [] types"

text \<open>\<open>origin_of\<close> is the origin of a URL, all that a rooted path keeps of its base; \<open>form_encode\<close> the encoding of parameters.\<close>
definition buildSsoRedirectUrl :: "(str \<Rightarrow> str) \<Rightarrow> (str \<Rightarrow> str) \<Rightarrow> str \<Rightarrow> str \<Rightarrow> str option \<Rightarrow> str" where
  "buildSsoRedirectUrl origin_of form_encode homeserverUrl redirectUrl idpId =
    origin_of (if ends_with ''/'' homeserverUrl then homeserverUrl else homeserverUrl @ ''/'')
    @ (case idpId of None \<Rightarrow> ''/_matrix/client/v3/login/sso/redirect''
       | Some i \<Rightarrow> if i = [] then ''/_matrix/client/v3/login/sso/redirect'' else ''/_matrix/client/v3/login/sso/redirect/'' @ encodeURIComponent i)
    @ ''?redirectUrl='' @ form_encode redirectUrl"

record MatrixSession =
  ms_accessToken :: str
  ms_userId :: str
  ms_deviceId :: str

text \<open>The bodies of the logins, and what is made of the answer.\<close>
definition loginWithPasswordAtBaseUrl :: "str \<Rightarrow> str \<Rightarrow> json" where
  "loginWithPasswordAtBaseUrl username password = JObj [(''type'', JStr ''m.login.password''), (''user'', JStr username),
     (''password'', JStr password), (''initial_device_display_name'', JStr ''Concord Web'')]"

definition loginWithTokenAtBaseUrl :: "str \<Rightarrow> json" where
  "loginWithTokenAtBaseUrl loginToken = JObj [(''type'', JStr ''m.login.token''), (''token'', JStr loginToken),
     (''initial_device_display_name'', JStr ''Concord Source'')]"

text \<open>\<open>registerWithToken\<close>: the first request is to fail with a session (or its message), the second completes; the result is an
  error, or the session and the body of the second request.\<close>
definition registerWithToken :: "str \<Rightarrow> str \<Rightarrow> str \<Rightarrow> (str option \<times> str) + unit \<Rightarrow> (json \<Rightarrow> str + MatrixSession) \<Rightarrow> str + MatrixSession" where
  "registerWithToken username password registrationToken first second = (case first of
     Inr _ \<Rightarrow> Inl ''Unexpected: registration completed without UIAA''
   | Inl (sess, message) \<Rightarrow> (case sess of None \<Rightarrow> Inl message
       | Some i \<Rightarrow> if i = [] then Inl message
         else second (JObj [(''username'', JStr username), (''password'', JStr password),
           (''auth'', JObj [(''type'', JStr ''m.login.registration_token''), (''token'', JStr registrationToken), (''session'', JStr i)]),
           (''initial_device_display_name'', JStr ''Concord Web'')])))"

text \<open>\<open>searchMatrixDirectory\<close>: the request's URL and body; the answer's status, text and JSON (None when it does not parse).\<close>
definition directorySearchUrl :: "str \<Rightarrow> str" where
  "directorySearchUrl homeserverUrl = strip_trailing CHR ''/'' homeserverUrl @ ''/_matrix/client/v3/user_directory/search''"

definition directorySearchBody :: "str \<Rightarrow> int \<Rightarrow> json" where
  "directorySearchBody searchTerm limit = JObj [(''search_term'', JStr searchTerm), (''limit'', JNum limit)]"

definition searchMatrixDirectory :: "nat \<Rightarrow> str \<Rightarrow> json option \<Rightarrow> (str + json list \<times> bool)" where
  "searchMatrixDirectory status txt body =
    (if \<not> (200 \<le> status \<and> status \<le> 299) then Inl (''user_directory/search failed ('' @ nat_text status @ ''): '' @ txt)
     else case body of None \<Rightarrow> Inl txt
       | Some v \<Rightarrow> Inr (case as_arr (jget v ''results'') of None \<Rightarrow> [] | Some rs \<Rightarrow> rs, truthy (jget v ''limited'')))"

section \<open>Matrix sources\<close>

record MatrixSourceDraft =
  md_host :: str
  md_instanceName :: str
  md_apiBase :: str
  md_homeserverUrl :: str
  md_serverName :: "str option"
  md_delegatedFrom :: "str option"
  md_authFlows :: "str list"

definition url_host :: "(str \<Rightarrow> (str \<times> str) option) \<Rightarrow> str \<Rightarrow> str option" where
  "url_host parse_url u = map_option snd (parse_url u)"

definition buildMatrixSourceDraft :: "(str \<Rightarrow> (str \<times> str) option) \<Rightarrow> str \<Rightarrow> HomeserverConfig \<Rightarrow> str list \<Rightarrow> MatrixSourceDraft" where
  "buildMatrixSourceDraft parse_url typedHost config authFlows =
    (let h = to_lower (bare_host (trim typedHost)) in
     \<lparr>md_host = h,
      md_instanceName = (case hc_instance_name config of Some n \<Rightarrow> n | None \<Rightarrow> (case hc_server_name config of Some n \<Rightarrow> n | None \<Rightarrow> hc_host config)),
      md_apiBase = hc_api_base config, md_homeserverUrl = hc_homeserver_url config, md_serverName = hc_server_name config,
      md_delegatedFrom = (case url_host parse_url (hc_homeserver_url config) of None \<Rightarrow> None | Some x \<Rightarrow> if to_lower x \<noteq> h then Some h else None),
      md_authFlows = authFlows\<rparr>)"

definition tokens_of :: "str option list \<Rightarrow> str list" where
  "tokens_of vs = map (\<lambda>v. to_lower (trim v)) (filter (\<lambda>v. v \<noteq> []) (List.map_filter id vs))"

definition matchesExistingSource :: "MatrixSourceDraft \<Rightarrow> ConcordSource \<Rightarrow> bool" where
  "matchesExistingSource d s =
    ((case src_platform s of None \<Rightarrow> PConcord | Some p \<Rightarrow> p) = PMatrix
     \<and> list_ex (\<lambda>t. t \<in> set (tokens_of [Some (src_host s), src_serverName s, src_delegatedFrom s, Some (src_homeserverUrl s)]))
         (tokens_of [Some (md_host d), md_serverName d, md_delegatedFrom d, Some (md_homeserverUrl d)]))"

definition source_record :: "MatrixSourceDraft \<Rightarrow> MatrixSession option \<Rightarrow> str option \<Rightarrow> bool \<Rightarrow> ConcordSource" where
  "source_record d session authError enabled = \<lparr>src_id = [], src_host = md_host d, src_instanceName = Some (md_instanceName d),
     src_inviteToken = [], src_accessToken = map_option ms_accessToken session, src_userId = map_option ms_userId session,
     src_deviceId = map_option ms_deviceId session, src_apiBase = md_apiBase d, src_homeserverUrl = md_homeserverUrl d,
     src_serverName = md_serverName d, src_delegatedFrom = md_delegatedFrom d, src_authFlows = Some (md_authFlows d),
     src_authError = authError, src_status = (if session = None then Disconnected else Connected), src_enabled = enabled,
     src_error = None, src_addedAt = [], src_platform = Some PMatrix, src_ownerUserId = None, src_isOwner = None, src_branding = None\<rparr>"

definition record_patch :: "ConcordSource \<Rightarrow> source_patch" where
  "record_patch r = [FHost (src_host r), FInstanceName (src_instanceName r), FInviteToken (src_inviteToken r), FApiBase (src_apiBase r),
     FHomeserverUrl (src_homeserverUrl r), FServerName (src_serverName r), FDelegatedFrom (src_delegatedFrom r), FAuthFlows (src_authFlows r),
     FAccessToken (src_accessToken r), FUserId (src_userId r), FDeviceId (src_deviceId r), FAuthError (src_authError r),
     FStatus (src_status r), FEnabled (src_enabled r), FPlatform (src_platform r)]"

text \<open>The source's id with the store; \<open>newId\<close> and \<open>now\<close> are what \<open>addSource\<close> makes, \<open>seen\<close> the sources the caller has at hand.\<close>
definition upsertMatrixSourceRecord ::
    "str \<Rightarrow> str \<Rightarrow> ConcordSource list \<Rightarrow> MatrixSourceDraft \<Rightarrow> MatrixSession option \<Rightarrow> str option \<Rightarrow> SourcesState \<Rightarrow> str \<times> SourcesState" where
  "upsertMatrixSourceRecord newId now seen d session authError st = (case find (matchesExistingSource d) seen of
     Some existing \<Rightarrow> (src_id existing,
       updateSource (src_id existing) (record_patch (source_record d session authError (src_enabled existing))) st)
   | None \<Rightarrow> (newId, addSource newId now (source_record d session authError True) st))"

record PendingSourceSso =
  pso_sourceId :: str
  pso_homeserverUrl :: str

definition SOURCE_SSO_STORAGE_KEY :: str where "SOURCE_SSO_STORAGE_KEY = ''concord_pending_source_sso''"

definition writePendingSourceSso :: "PendingSourceSso \<Rightarrow> local_storage \<Rightarrow> local_storage" where
  "writePendingSourceSso p ss = setItem SOURCE_SSO_STORAGE_KEY
     (stringify (JObj [(''sourceId'', JStr (pso_sourceId p)), (''homeserverUrl'', JStr (pso_homeserverUrl p))])) ss"

definition readPendingSourceSso :: "local_storage \<Rightarrow> PendingSourceSso option" where
  "readPendingSourceSso ss = (case getItem ss SOURCE_SSO_STORAGE_KEY of None \<Rightarrow> None
     | Some raw \<Rightarrow> if raw = [] then None else (case json_parse raw of None \<Rightarrow> None
       | Some v \<Rightarrow> (case (text_of (jget v ''sourceId''), text_of (jget v ''homeserverUrl'')) of
           (Some i, Some u) \<Rightarrow> Some \<lparr>pso_sourceId = i, pso_homeserverUrl = u\<rparr> | _ \<Rightarrow> None)))"

definition clearPendingSourceSso :: "local_storage \<Rightarrow> local_storage" where
  "clearPendingSourceSso ss = removeItem SOURCE_SSO_STORAGE_KEY ss"

text \<open>The \<open>loginToken\<close> of the page's address, None when it has none.\<close>
definition hasPendingSourceSsoCallback :: "str option \<Rightarrow> local_storage \<Rightarrow> bool" where
  "hasPendingSourceSsoCallback loginToken ss = (loginToken \<notin> {None, Some []} \<and> readPendingSourceSso ss \<noteq> None)"

section \<open>The dialog\<close>

datatype AddScreen = ScrAddress | ScrPick | ScrConcord | ScrMatrix | ScrMatrixAuth | ScrReticulum | ScrPairPeer | ScrValidating | ScrError

definition startScreen :: "str option \<Rightarrow> AddScreen" where
  "startScreen initialScreen = (case initialScreen of None \<Rightarrow> ScrAddress
     | Some t \<Rightarrow> (case map_of [(''address'', ScrAddress), (''pick'', ScrPick), (''concord'', ScrConcord), (''matrix'', ScrMatrix),
         (''reticulum'', ScrReticulum), (''pair-peer'', ScrPairPeer)] t of None \<Rightarrow> ScrAddress | Some x \<Rightarrow> x))"

datatype detect_phase = PhIdle | PhInspect | PhProbeConcord | PhProbeMatrix

text \<open>A handler at its await: the detection of an address; the discovery of a Matrix homeserver and its login flows, started
  from the address or not; the discovery of an instance and the check of its invite token; a login; the module
  single sign-on loads; the login of a return from it. Drafts, sources and texts are those of the closure.\<close>
datatype add_wait =
    WaitDetect str
  | WaitDiscover bool str
  | WaitFlows bool str HomeserverConfig
  | WaitConcord str str
  | WaitToken str str HomeserverConfig
  | WaitLogin MatrixSourceDraft "ConcordSource list"
  | WaitSso MatrixSourceDraft "ConcordSource list"
  | WaitResume PendingSourceSso

text \<open>The dialog, the store, the session storage; how often it reported a source, which closes it, where the page was sent, and
  whether the return of a sign-on was taken up.\<close>
record AddDialog =
  ad_screen :: AddScreen
  ad_error :: str
  ad_address :: str
  ad_phase :: detect_phase
  ad_host :: str
  ad_token :: str
  ad_matrixHost :: str
  ad_username :: str
  ad_password :: str
  ad_draft :: "MatrixSourceDraft option"
  ad_store :: SourcesState
  ad_session :: local_storage
  ad_added :: nat
  ad_open :: bool
  ad_resumed :: bool
  ad_waits :: "add_wait list"
  ad_sent :: "str option"

definition openDialog :: "str option \<Rightarrow> SourcesState \<Rightarrow> local_storage \<Rightarrow> AddDialog" where
  "openDialog initialScreen st ss = \<lparr>ad_screen = startScreen initialScreen, ad_error = [], ad_address = [], ad_phase = PhIdle,
     ad_host = [], ad_token = [], ad_matrixHost = [], ad_username = [], ad_password = [], ad_draft = None, ad_store = st, ad_session = ss,
     ad_added = 0, ad_open = True, ad_resumed = False, ad_waits = [], ad_sent = None\<rparr>"

definition fail_with :: "str \<Rightarrow> AddDialog \<Rightarrow> AddDialog" where
  "fail_with e a = a\<lparr>ad_error := e, ad_screen := ScrError\<rparr>"

text \<open>The dialog shows that it is connecting and waits.\<close>
definition await :: "add_wait \<Rightarrow> AddDialog \<Rightarrow> AddDialog" where
  "await w a = a\<lparr>ad_screen := ScrValidating, ad_waits := ad_waits a @ [w]\<rparr>"

text \<open>The \<open>finally\<close> of the detection.\<close>
definition settle :: "bool \<Rightarrow> AddDialog \<Rightarrow> AddDialog" where
  "settle fromAddress a = (if fromAddress then a\<lparr>ad_phase := PhIdle\<rparr> else a)"

text \<open>What the discovery of a host gets: the three documents, with the message an error of theirs carries.\<close>
record HostAnswers =
  ha_matrix :: fetch_outcome
  ha_concord :: fetch_outcome
  ha_element :: fetch_outcome
  ha_message :: "discovery_error \<Rightarrow> str"

definition discovered :: "(str \<Rightarrow> (str \<times> str) option) \<Rightarrow> str \<Rightarrow> HostAnswers \<Rightarrow> str + HomeserverConfig" where
  "discovered parse_url h x = map_sum (ha_message x) id (discoverHomeserver parse_url h (ha_matrix x) (ha_concord x) (ha_element x))"

definition handleDiscoverMatrix :: "AddDialog \<Rightarrow> AddDialog" where
  "handleDiscoverMatrix a = (let trimmed = bare_host (trim (ad_matrixHost a)) in
     if trimmed = [] then fail_with ''Enter a Matrix homeserver'' a else await (WaitDiscover False trimmed) a)"

definition handleDiscoverPresetMatrix :: "bool \<Rightarrow> str \<Rightarrow> AddDialog \<Rightarrow> AddDialog" where
  "handleDiscoverPresetMatrix fromAddress presetHost a = (let a' = a\<lparr>ad_matrixHost := presetHost\<rparr>; trimmed = bare_host (trim presetHost) in
     if trimmed = [] then settle fromAddress a' else await (WaitDiscover fromAddress trimmed) a')"

text \<open>What the two share behind their awaits.\<close>
definition homeserverDiscovered :: "bool \<Rightarrow> str \<Rightarrow> str + HomeserverConfig \<Rightarrow> AddDialog \<Rightarrow> AddDialog" where
  "homeserverDiscovered fromAddress trimmed answer a = (case answer of
     Inl e \<Rightarrow> settle fromAddress (fail_with e a)
   | Inr config \<Rightarrow> a\<lparr>ad_waits := ad_waits a @ [WaitFlows fromAddress trimmed config]\<rparr>)"

definition flowsAnswered :: "(str \<Rightarrow> (str \<times> str) option) \<Rightarrow> bool \<Rightarrow> str \<Rightarrow> HomeserverConfig \<Rightarrow> str + str list \<Rightarrow> AddDialog \<Rightarrow> AddDialog" where
  "flowsAnswered parse_url fromAddress trimmed config answer a = (case answer of
     Inl e \<Rightarrow> settle fromAddress (fail_with e a)
   | Inr types \<Rightarrow> settle fromAddress (a\<lparr>ad_draft := Some (buildMatrixSourceDraft parse_url trimmed config (fetchLoginFlows types)),
       ad_username := [], ad_password := [], ad_screen := ScrMatrixAuth\<rparr>))"

definition handleDetectAddress :: "AddDialog \<Rightarrow> AddDialog" where
  "handleDetectAddress a = (let trimmed = trim (ad_address a) in
     if trimmed = [] then a else await (WaitDetect trimmed) (a\<lparr>ad_phase := PhInspect\<rparr>))"

text \<open>\<open>verdict\<close> is the outcome of the detection, with the detail it gives for what it does not know.\<close>
definition addressDetected :: "str + AddressKind \<Rightarrow> str \<Rightarrow> AddDialog \<Rightarrow> AddDialog" where
  "addressDetected verdict detail a = (case verdict of
     Inl e \<Rightarrow> settle True (fail_with e a)
   | Inr (ConcordHttp h) \<Rightarrow> settle True (a\<lparr>ad_host := h, ad_token := [], ad_screen := ScrConcord\<rparr>)
   | Inr (MatrixHost h) \<Rightarrow> handleDiscoverPresetMatrix True h a
   | Inr (ConcordP2p k t) \<Rightarrow> settle True (a\<lparr>ad_screen := ScrPairPeer\<rparr>)
   | Inr (UnknownHost h) \<Rightarrow> settle True (a\<lparr>ad_host := h, ad_matrixHost := h, ad_error := detail, ad_screen := ScrPick\<rparr>)
   | Inr InvalidAddress \<Rightarrow> settle True (fail_with detail a))"

datatype token_answer = TokenThrew str | TokenRefused | TokenAnswered json

definition check_token :: "token_answer \<Rightarrow> str + unit" where
  "check_token t = (case t of TokenThrew e \<Rightarrow> Inl e | TokenRefused \<Rightarrow> Inl ''Token validation failed''
     | TokenAnswered v \<Rightarrow> if truthy (jget v ''valid'') then Inr () else Inl ''Invalid or expired invite token'')"

definition branding_json :: "HomeserverBranding \<Rightarrow> json" where
  "branding_json b = JObj ([(''primary_color'', JStr (br_primaryColor b)), (''accent_color'', JStr (br_accentColor b))]
     @ (case br_logoUrl b of None \<Rightarrow> [] | Some l \<Rightarrow> [(''logo_url'', JStr l)]))"

definition concord_record :: "str \<Rightarrow> str \<Rightarrow> HomeserverConfig \<Rightarrow> ConcordSource" where
  "concord_record h token config = \<lparr>src_id = [], src_host = h, src_instanceName = hc_instance_name config, src_inviteToken = trim token,
     src_accessToken = None, src_userId = None, src_deviceId = None, src_apiBase = hc_api_base config, src_homeserverUrl = hc_homeserver_url config,
     src_serverName = None, src_delegatedFrom = None, src_authFlows = None, src_authError = None, src_status = Connected, src_enabled = True,
     src_error = None, src_addedAt = [], src_platform = Some PConcord, src_ownerUserId = None, src_isOwner = None,
     src_branding = map_option branding_json (hc_branding config)\<rparr>"

text \<open>\<open>onSourceAdded\<close> closes the dialog.\<close>
definition report_added :: "AddDialog \<Rightarrow> AddDialog" where "report_added a = a\<lparr>ad_added := ad_added a + 1, ad_open := False\<rparr>"

definition handleConnectConcord :: "AddDialog \<Rightarrow> AddDialog" where
  "handleConnectConcord a = (let trimmed = bare_host (trim (ad_host a)) in
     if trimmed = [] then fail_with ''Enter a hostname'' a else await (WaitConcord trimmed (ad_token a)) a)"

definition concordAdded :: "str \<Rightarrow> str \<Rightarrow> str \<Rightarrow> str \<Rightarrow> HomeserverConfig \<Rightarrow> AddDialog \<Rightarrow> AddDialog" where
  "concordAdded newId now trimmed token config a =
     report_added (a\<lparr>ad_store := addSource newId now (concord_record trimmed token config) (ad_store a)\<rparr>)"

definition concordDiscovered :: "str \<Rightarrow> str \<Rightarrow> str \<Rightarrow> str \<Rightarrow> str + HomeserverConfig \<Rightarrow> AddDialog \<Rightarrow> AddDialog" where
  "concordDiscovered newId now trimmed token answer a = (case answer of Inl e \<Rightarrow> fail_with e a
     | Inr config \<Rightarrow> if trim token = [] then concordAdded newId now trimmed token config a
         else a\<lparr>ad_waits := ad_waits a @ [WaitToken trimmed token config]\<rparr>)"

definition tokenChecked :: "str \<Rightarrow> str \<Rightarrow> str \<Rightarrow> str \<Rightarrow> HomeserverConfig \<Rightarrow> token_answer \<Rightarrow> AddDialog \<Rightarrow> AddDialog" where
  "tokenChecked newId now trimmed token config answer a = (case check_token answer of Inl e \<Rightarrow> fail_with e a
     | Inr _ \<Rightarrow> concordAdded newId now trimmed token config a)"

definition handleMatrixPasswordLogin :: "AddDialog \<Rightarrow> AddDialog" where
  "handleMatrixPasswordLogin a = (case ad_draft a of None \<Rightarrow> a
     | Some d \<Rightarrow> if trim (ad_username a) = [] \<or> ad_password a = [] then a else await (WaitLogin d (sources (ad_store a))) a)"

definition passwordAnswered :: "str \<Rightarrow> str \<Rightarrow> MatrixSourceDraft \<Rightarrow> ConcordSource list \<Rightarrow> str + MatrixSession \<Rightarrow> AddDialog \<Rightarrow> AddDialog" where
  "passwordAnswered newId now d seen login a = (case login of Inl e \<Rightarrow> fail_with e a
     | Inr session \<Rightarrow> report_added (a\<lparr>ad_store := snd (upsertMatrixSourceRecord newId now seen d (Some session) None (ad_store a))\<rparr>))"

text \<open>Single sign-on first loads a module; the screen stays.\<close>
definition handleMatrixSsoLogin :: "AddDialog \<Rightarrow> AddDialog" where
  "handleMatrixSsoLogin a = (case ad_draft a of None \<Rightarrow> a
     | Some d \<Rightarrow> a\<lparr>ad_waits := ad_waits a @ [WaitSso d (sources (ad_store a))]\<rparr>)"

definition ssoModuleLoaded ::
    "(str \<Rightarrow> str) \<Rightarrow> (str \<Rightarrow> str) \<Rightarrow> str \<Rightarrow> str \<Rightarrow> MatrixSourceDraft \<Rightarrow> ConcordSource list \<Rightarrow> str + str \<Rightarrow> AddDialog \<Rightarrow> AddDialog" where
  "ssoModuleLoaded origin_of form_encode newId now d seen answer a = (case answer of
     Inl e \<Rightarrow> fail_with e (a\<lparr>ad_session := clearPendingSourceSso (ad_session a)\<rparr>)
   | Inr redirectUrl \<Rightarrow> (case upsertMatrixSourceRecord newId now seen d None None (ad_store a) of (i, st) \<Rightarrow>
       a\<lparr>ad_store := st, ad_session := writePendingSourceSso \<lparr>pso_sourceId = i, pso_homeserverUrl = md_homeserverUrl d\<rparr> (ad_session a),
         ad_sent := Some (buildSsoRedirectUrl origin_of form_encode (md_homeserverUrl d) redirectUrl None)\<rparr>))"

text \<open>The effect of a mount, with the login token in the address of the page.\<close>
definition resumeSso :: "str option \<Rightarrow> AddDialog \<Rightarrow> AddDialog" where
  "resumeSso loginToken a = (if ad_resumed a \<or> loginToken \<in> {None, Some []} then a
     else case readPendingSourceSso (ad_session a) of None \<Rightarrow> a | Some p \<Rightarrow> await (WaitResume p) (a\<lparr>ad_resumed := True\<rparr>))"

definition resumeAnswered :: "PendingSourceSso \<Rightarrow> str + MatrixSession \<Rightarrow> AddDialog \<Rightarrow> AddDialog" where
  "resumeAnswered p login a = (let a' = a\<lparr>ad_session := clearPendingSourceSso (ad_session a)\<rparr> in case login of
     Inr session \<Rightarrow> report_added (a'\<lparr>ad_store := updateSource (pso_sourceId p) [FAccessToken (Some (ms_accessToken session)),
       FUserId (Some (ms_userId session)), FDeviceId (Some (ms_deviceId session)), FAuthError None, FStatus Connected] (ad_store a)\<rparr>)
   | Inl e \<Rightarrow> fail_with e (a'\<lparr>ad_store := updateSource (pso_sourceId p) [FAuthError (Some e), FStatus SourceError] (ad_store a)\<rparr>))"

definition addReticulum :: "str \<Rightarrow> str \<Rightarrow> str \<Rightarrow> str \<Rightarrow> AddDialog \<Rightarrow> AddDialog" where
  "addReticulum newId now destText nameText a = (let d = trim destText in
     if d = [] then fail_with ''Enter a destination hash'' a
     else report_added (a\<lparr>ad_store := addSource newId now \<lparr>src_id = [], src_host = d,
       src_instanceName = (if trim nameText = [] then None else Some (trim nameText)), src_inviteToken = [], src_accessToken = None,
       src_userId = None, src_deviceId = None, src_apiBase = [], src_homeserverUrl = [], src_serverName = None, src_delegatedFrom = None,
       src_authFlows = None, src_authError = None, src_status = Connected, src_enabled = True, src_error = None, src_addedAt = [],
       src_platform = Some PReticulum, src_ownerUserId = None, src_isOwner = None, src_branding = None\<rparr> (ad_store a)\<rparr>))"

text \<open>What an await gets: the exception's message, the probes of the detection with the detail of its verdict, the documents of
  a host, its login flows, the answer about a token, a session, the address of the page for a sign-on.\<close>
datatype add_answer =
    Threw str
  | Probed "str \<Rightarrow> fetch_outcome" "str \<Rightarrow> fetch_outcome" str
  | Documents HostAnswers
  | Flows "str list"
  | Token token_answer
  | SignedIn MatrixSession
  | ModuleLoaded str

text \<open>Which answers an await can get.\<close>
fun answers :: "add_wait \<Rightarrow> add_answer \<Rightarrow> bool" where
  "answers w (Threw e) = True"
| "answers (WaitDetect t) (Probed cp mp detail) = True"
| "answers (WaitDiscover f t) (Documents x) = True"
| "answers (WaitFlows f t config) (Flows types) = True"
| "answers (WaitConcord t k) (Documents x) = True"
| "answers (WaitToken t k config) (Token v) = True"
| "answers (WaitLogin d seen) (SignedIn session) = True"
| "answers (WaitSso d seen) (ModuleLoaded r) = True"
| "answers (WaitResume p) (SignedIn session) = True"
| "answers w x = False"

datatype add_event =
    TypeAddress str | TypeHost str | TypeToken str | TypeMatrixHost str | TypeUsername str | TypePassword str
  | Goto AddScreen | CloseDialog | ScannerDone
  | Detect | Preset bool | ConnectConcord | ConnectMatrix | PasswordLogin | SsoLogin
  | Reticulum str str str str
  | Mounted "str option"
  | Progress detect_phase
  | Answered add_wait add_answer str str

text \<open>The buttons that only change the screen, by the screen they are on.\<close>
fun leads_to :: "AddScreen \<Rightarrow> AddScreen \<Rightarrow> bool" where
  "leads_to ScrAddress x = (x = ScrPick)"
| "leads_to ScrPick x = (x \<in> {ScrAddress, ScrConcord, ScrMatrix, ScrPairPeer, ScrReticulum})"
| "leads_to ScrMatrixAuth x = (x = ScrMatrix)"
| "leads_to ScrConcord x = (x = ScrPick)" | "leads_to ScrMatrix x = (x = ScrPick)" | "leads_to ScrReticulum x = (x = ScrPick)"
| "leads_to ScrError x = (x = ScrPick)"
| "leads_to _ x = False"

text \<open>The surroundings: the URL constructor, the origin of a URL, the encoding of parameters.\<close>
type_synonym surroundings = "(str \<Rightarrow> (str \<times> str) option) \<times> (str \<Rightarrow> str) \<times> (str \<Rightarrow> str)"

text \<open>The handler behind its await.\<close>
fun continue :: "surroundings \<Rightarrow> add_wait \<Rightarrow> add_answer \<Rightarrow> str \<Rightarrow> str \<Rightarrow> AddDialog \<Rightarrow> AddDialog" where
  "continue (u, orig, enc) (WaitDetect t) x i n a = (case x of
     Probed cp mp detail \<Rightarrow> addressDetected (Inr (detectAddressKind cp mp t)) detail a | Threw e \<Rightarrow> addressDetected (Inl e) [] a | _ \<Rightarrow> a)"
| "continue (u, orig, enc) (WaitDiscover f t) x i n a = (case x of
     Documents h \<Rightarrow> homeserverDiscovered f t (discovered u t h) a | Threw e \<Rightarrow> homeserverDiscovered f t (Inl e) a | _ \<Rightarrow> a)"
| "continue (u, orig, enc) (WaitFlows f t config) x i n a = (case x of
     Flows types \<Rightarrow> flowsAnswered u f t config (Inr types) a | Threw e \<Rightarrow> flowsAnswered u f t config (Inl e) a | _ \<Rightarrow> a)"
| "continue (u, orig, enc) (WaitConcord t k) x i n a = (case x of
     Documents h \<Rightarrow> concordDiscovered i n t k (discovered u t h) a | Threw e \<Rightarrow> concordDiscovered i n t k (Inl e) a | _ \<Rightarrow> a)"
| "continue (u, orig, enc) (WaitToken t k config) x i n a = (case x of
     Token v \<Rightarrow> tokenChecked i n t k config v a | Threw e \<Rightarrow> tokenChecked i n t k config (TokenThrew e) a | _ \<Rightarrow> a)"
| "continue (u, orig, enc) (WaitLogin d seen) x i n a = (case x of
     SignedIn session \<Rightarrow> passwordAnswered i n d seen (Inr session) a | Threw e \<Rightarrow> passwordAnswered i n d seen (Inl e) a | _ \<Rightarrow> a)"
| "continue (u, orig, enc) (WaitSso d seen) x i n a = (case x of
     ModuleLoaded r \<Rightarrow> ssoModuleLoaded orig enc i n d seen (Inr r) a | Threw e \<Rightarrow> ssoModuleLoaded orig enc i n d seen (Inl e) a | _ \<Rightarrow> a)"
| "continue (u, orig, enc) (WaitResume p) x i n a = (case x of
     SignedIn session \<Rightarrow> resumeAnswered p (Inr session) a | Threw e \<Rightarrow> resumeAnswered p (Inl e) a | _ \<Rightarrow> a)"

definition offers :: "str \<Rightarrow> AddDialog \<Rightarrow> bool" where
  "offers flow a = (case ad_draft a of None \<Rightarrow> False | Some d \<Rightarrow> flow \<in> set (md_authFlows d))"

text \<open>A button is pressed on an open dialog that shows it. The screen that waits has none, not even the one that closes.\<close>
definition pressed :: "AddScreen \<Rightarrow> (AddDialog \<Rightarrow> AddDialog) \<Rightarrow> AddDialog \<Rightarrow> AddDialog" where
  "pressed scr f a = (if ad_open a \<and> ad_screen a = scr then f a else a)"

definition detecting :: "add_wait \<Rightarrow> bool" where
  "detecting w = (case w of WaitDetect _ \<Rightarrow> True | _ \<Rightarrow> False)"

fun add_step :: "surroundings \<Rightarrow> add_event \<Rightarrow> AddDialog \<Rightarrow> AddDialog" where
  "add_step env (TypeAddress t) a = pressed ScrAddress (\<lambda>a. a\<lparr>ad_address := t\<rparr>) a"
| "add_step env (TypeHost t) a = pressed ScrConcord (\<lambda>a. a\<lparr>ad_host := t\<rparr>) a"
| "add_step env (TypeToken t) a = pressed ScrConcord (\<lambda>a. a\<lparr>ad_token := t\<rparr>) a"
| "add_step env (TypeMatrixHost t) a = pressed ScrMatrix (\<lambda>a. a\<lparr>ad_matrixHost := t\<rparr>) a"
| "add_step env (TypeUsername t) a = pressed ScrMatrixAuth (\<lambda>a. a\<lparr>ad_username := t\<rparr>) a"
| "add_step env (TypePassword t) a = pressed ScrMatrixAuth (\<lambda>a. a\<lparr>ad_password := t\<rparr>) a"
| "add_step env (Goto x) a = (if ad_open a \<and> leads_to (ad_screen a) x then a\<lparr>ad_screen := x\<rparr> else a)"
| "add_step env CloseDialog a = (if ad_screen a \<in> {ScrValidating, ScrPairPeer} then a else a\<lparr>ad_open := False\<rparr>)"
| "add_step env ScannerDone a = pressed ScrPairPeer report_added a"
| "add_step env Detect a = pressed ScrAddress handleDetectAddress a"
| "add_step env (Preset mozilla) a = pressed ScrPick (handleDiscoverPresetMatrix False (if mozilla then ''chat.mozilla.org'' else ''matrix.org'')) a"
| "add_step env ConnectConcord a = pressed ScrConcord handleConnectConcord a"
| "add_step env ConnectMatrix a = pressed ScrMatrix handleDiscoverMatrix a"
| "add_step env PasswordLogin a = (if offers ''password'' a then pressed ScrMatrixAuth handleMatrixPasswordLogin a else a)"
| "add_step env SsoLogin a = (if offers ''sso'' a then pressed ScrMatrixAuth handleMatrixSsoLogin a else a)"
| "add_step env (Reticulum i n d t) a = pressed ScrReticulum (addReticulum i n d t) a"
| "add_step env (Mounted loginToken) a = (if ad_open a then resumeSso loginToken a else a)"
| "add_step env (Progress ph) a = (if list_ex detecting (ad_waits a) then a\<lparr>ad_phase := ph\<rparr> else a)"
| "add_step env (Answered w x i n) a = (if w \<in> set (ad_waits a) \<and> answers w x
     then continue env w x i n (a\<lparr>ad_waits := remove1 w (ad_waits a)\<rparr>) else a)"

section \<open>The rooms of a source\<close>

datatype SourceBrand = BrandConcord | BrandMatrix | BrandMozilla | BrandReticulum

definition inferSourceBrand :: "source_platform option \<Rightarrow> str option \<Rightarrow> str option \<Rightarrow> str option \<Rightarrow> SourceBrand" where
  "inferSourceBrand platform h instanceName serverName =
    (if platform = Some PReticulum then BrandReticulum
     else if platform = Some PMatrix then
       (let txt = to_lower (join_with '' '' (List.map_filter id [h, instanceName, serverName])) in
        if includes_sub ''mozilla'' txt \<or> includes_sub ''modular.im'' txt \<or> includes_sub ''chat.mozilla.org'' txt then BrandMozilla else BrandMatrix)
     else BrandConcord)"

text \<open>\<open>s.split(":")[1]\<close>\<close>
definition after_colon :: "str \<Rightarrow> str option" where
  "after_colon s = (case split_on CHR '':'' s of _ # d # _ \<Rightarrow> Some d | _ \<Rightarrow> None)"

definition sourceServers :: "(str \<Rightarrow> str option) \<Rightarrow> ConcordSource option \<Rightarrow> Server list \<Rightarrow> Server list" where
  "sourceServers hostOf source ss = filter (\<lambda>srv. srv_federated srv \<noteq> Some True
     \<and> (case source of None \<Rightarrow> False
        | Some s \<Rightarrow> sourceMatchesMatrixDomain hostOf s
            (case after_colon (case srv_channels srv of [] \<Rightarrow> [] | c # _ \<Rightarrow> ch_matrix_room_id c) of None \<Rightarrow> [] | Some d \<Rightarrow> to_lower d))) ss"

record PublicRoom =
  pr_room_id :: str
  pr_alias :: "str option"
  pr_name :: "str option"
  pr_members :: "int option"

text \<open>The directory that is asked, None for the local one.\<close>
definition directoryServer :: "(str \<Rightarrow> str option) \<Rightarrow> ConcordSource \<Rightarrow> str option \<Rightarrow> str option" where
  "directoryServer hostOf s userId =
    (case (case userId of None \<Rightarrow> None | Some u \<Rightarrow> map_option to_lower (after_colon u)) of
       Some d \<Rightarrow> if sourceMatchesMatrixDomain hostOf s d then None else Some (case src_serverName s of Some n \<Rightarrow> n | None \<Rightarrow> src_host s)
     | None \<Rightarrow> Some (case src_serverName s of Some n \<Rightarrow> n | None \<Rightarrow> src_host s))"

definition sortedRooms :: "PublicRoom list \<Rightarrow> PublicRoom list" where
  "sortedRooms rs = sort_key (\<lambda>r. - (case pr_members r of None \<Rightarrow> 0 | Some n \<Rightarrow> n)) rs"

definition needsAuth :: "str \<Rightarrow> bool" where
  "needsAuth message = list_ex (\<lambda>w. includes_sub w (to_lower message))
     [''m_forbidden'', ''m_unknown_token'', ''401'', ''403'', ''restricted'', ''forbidden'', ''unknown token'']"

text \<open>The open browser: the record of the source in the store (every update of the store makes a new object of it), the number of
  requests sent, for each request underway whether the source of its closure has an access token, what is shown.\<close>
record SourceBrowser =
  db_source :: ConcordSource
  db_sent :: nat
  db_closures :: "bool list"
  db_flowsSent :: nat
  db_flowsWaited :: bool
  db_rooms :: "PublicRoom list"
  db_loading :: bool
  db_error :: "str option"
  db_authRequired :: bool

definition db_underway :: "SourceBrowser \<Rightarrow> nat" where
  "db_underway b = length (db_closures b)"

definition authorized :: "ConcordSource \<Rightarrow> bool" where
  "authorized s = (src_accessToken s \<notin> {None, Some []})"

text \<open>\<open>loadSourceDirectory\<close> of a render with that source, up to its await.\<close>
definition loadSourceDirectory :: "ConcordSource \<Rightarrow> SourceBrowser \<Rightarrow> SourceBrowser" where
  "loadSourceDirectory s b = (if src_platform s = Some PReticulum then b
     else b\<lparr>db_sent := db_sent b + 1, db_closures := db_closures b @ [authorized s], db_loading := True, db_error := None, db_authRequired := False\<rparr>)"

text \<open>The effects that depend on the source, after a commit with a new object of it.\<close>
definition sourceChanged :: "SourceBrowser \<Rightarrow> SourceBrowser" where
  "sourceChanged b =
    (if src_platform (db_source b) = Some PReticulum then b\<lparr>db_flowsWaited := False\<rparr>
     else let wanted = (src_authFlows (db_source b) \<in> {None, Some []}) in
       loadSourceDirectory (db_source b)
         (b\<lparr>db_flowsSent := (if wanted then db_flowsSent b + 1 else db_flowsSent b), db_flowsWaited := wanted\<rparr>))"

definition browse :: "ConcordSource \<Rightarrow> SourceBrowser" where
  "browse s = sourceChanged \<lparr>db_source = s, db_sent = 0, db_closures = [], db_flowsSent = 0, db_flowsWaited = False, db_rooms = [],
     db_loading = False, db_error = None, db_authRequired = False\<rparr>"

definition source_patched :: "source_patch \<Rightarrow> SourceBrowser \<Rightarrow> SourceBrowser" where
  "source_patched p b = sourceChanged (b\<lparr>db_source := apply_patch p (db_source b)\<rparr>)"

text \<open>The number of an answer is the place of its request among those underway, the last when there are not so many.\<close>
datatype browse_event =
    DirectoryAnswered nat "str + PublicRoom list"
  | FlowsAnswered "str + str list"
  | Refresh
  | BrowserLogin "str + MatrixSession"

fun browse_step :: "browse_event \<Rightarrow> SourceBrowser \<Rightarrow> SourceBrowser" where
  "browse_step (DirectoryAnswered n answer) b = (if db_underway b = 0 then b
     else let k = min n (db_underway b - 1); b' = b\<lparr>db_closures := take k (db_closures b) @ drop (Suc k) (db_closures b), db_loading := False\<rparr> in
       case answer of
         Inr rooms \<Rightarrow> source_patched [FAuthError None] (b'\<lparr>db_rooms := sortedRooms rooms\<rparr>)
       | Inl e \<Rightarrow> source_patched [FAuthError (Some e), FStatus (if db_closures b ! k then SourceError else Disconnected)]
           (b'\<lparr>db_error := Some e, db_authRequired := needsAuth e\<rparr>))"
| "browse_step (FlowsAnswered answer) b = (if \<not> db_flowsWaited b then b
     else case answer of Inr fs \<Rightarrow> source_patched [FAuthFlows (Some fs), FAuthError None] b | Inl _ \<Rightarrow> b\<lparr>db_flowsWaited := False\<rparr>)"
| "browse_step Refresh b = (if db_loading b \<or> src_platform (db_source b) \<noteq> Some PMatrix then b
     else loadSourceDirectory (db_source b) b)"
| "browse_step (BrowserLogin answer) b = (case answer of
     Inr session \<Rightarrow> loadSourceDirectory (db_source b) (source_patched [FAccessToken (Some (ms_accessToken session)), FUserId (Some (ms_userId session)), FDeviceId (Some (ms_deviceId session)),
          FAuthError None, FStatus Connected] (b\<lparr>db_error := None\<rparr>))
   | Inl e \<Rightarrow> source_patched [FAuthError (Some e), FStatus SourceError] (b\<lparr>db_error := Some e\<rparr>))"

text \<open>\<open>handleJoinRoom\<close>: the room joined and the server it is joined through, None for no hint.\<close>
definition joinTarget :: "str option \<Rightarrow> ConcordSource \<Rightarrow> PublicRoom \<Rightarrow> str \<times> str option" where
  "joinTarget userId s room =
    (let target = (case pr_alias room of Some a \<Rightarrow> a | None \<Rightarrow> pr_room_id room);
         via = (case (case pr_alias room of None \<Rightarrow> None | Some a \<Rightarrow> after_colon a) of Some d \<Rightarrow> d
           | None \<Rightarrow> (case after_colon (pr_room_id room) of Some d \<Rightarrow> d
             | None \<Rightarrow> (case src_serverName s of Some n \<Rightarrow> n | None \<Rightarrow> src_host s)));
         local = (case userId of None \<Rightarrow> None | Some u \<Rightarrow> map_option to_lower (after_colon u))
     in (target, if local \<notin> {None, Some []} \<and> Some (to_lower via) = local then None else Some via))"

section \<open>One record per homeserver\<close>

lemma record_patch_applied:
  "let s' = apply_patch (record_patch r) s in src_id s' = src_id s \<and> src_host s' = src_host r \<and> src_serverName s' = src_serverName r
     \<and> src_delegatedFrom s' = src_delegatedFrom r \<and> src_homeserverUrl s' = src_homeserverUrl r \<and> src_platform s' = src_platform r
     \<and> src_accessToken s' = src_accessToken r \<and> src_status s' = src_status r \<and> src_enabled s' = src_enabled r
     \<and> src_apiBase s' = src_apiBase r"
  by (simp add: apply_patch_def record_patch_def)

lemma record_keeps_id: "keeps_id (record_patch r)"
  by (simp add: keeps_id_def record_patch_def)

text \<open>The names a homeserver goes by in a draft, and the source that a draft was written to.\<close>
definition names_of :: "MatrixSourceDraft \<Rightarrow> str set" where
  "names_of d = (\<lambda>v. to_lower (trim v)) ` (({md_host d, md_homeserverUrl d} \<union> set_option (md_serverName d) \<union> set_option (md_delegatedFrom d)) - {[]})"

definition record_of :: "MatrixSourceDraft \<Rightarrow> ConcordSource \<Rightarrow> bool" where
  "record_of d s = (src_platform s = Some PMatrix \<and> src_host s = md_host d \<and> src_serverName s = md_serverName d
     \<and> src_delegatedFrom s = md_delegatedFrom d \<and> src_homeserverUrl s = md_homeserverUrl d)"



interpretation record_writes: keyed_patch src_id "\<lambda>r. apply_patch (record_patch r)"
  by unfold_locales (rule apply_patch_id[OF record_keeps_id])

lemma find_by_first: "distinct (map key xs) \<Longrightarrow> x \<in> set xs \<Longrightarrow> find_by key (key x) xs = Some x"
  by (induction xs) auto

lemma found_in: "find P xs = Some x \<Longrightarrow> x \<in> set xs"
  by (auto simp: find_Some_iff)

text \<open>A write to a source that is found, and one that adds it.\<close>
lemma upsert_found:
  assumes "distinct (sourceIds st)" and "find (matchesExistingSource d) (sources st) = Some x"
  shows "\<exists>y. upsertMatrixSourceRecord newId now (sources st) d session e st
        = (src_id x, updateSource (src_id x) (record_patch (source_record d session e (src_enabled x))) st)
     \<and> getSource (src_id x) (snd (upsertMatrixSourceRecord newId now (sources st) d session e st)) = Some y
     \<and> record_of d y \<and> src_id y = src_id x \<and> src_accessToken y = map_option ms_accessToken session
     \<and> sourceIds (snd (upsertMatrixSourceRecord newId now (sources st) d session e st)) = sourceIds st"
proof -
  let ?p = "record_patch (source_record d session e (src_enabled x))"
  have u: "upsertMatrixSourceRecord newId now (sources st) d session e st = (src_id x, updateSource (src_id x) ?p st)"
    using assms(2) by (simp add: upsertMatrixSourceRecord_def)
  have "find_by src_id (src_id x) (sources st) = Some x" using find_by_first found_in[OF assms(2)] assms(1) by (simp add: sourceIds_def)
  then have "getSource (src_id x) (updateSource (src_id x) ?p st) = Some (apply_patch ?p x)"
    by (simp add: getSource_def updateSource_def record_writes.find_update)
  then show ?thesis using u record_patch_applied[of "source_record d session e (src_enabled x)" x] sourceIds_update[OF record_keeps_id]
    by (auto simp: record_of_def source_record_def Let_def)
qed

lemma upsert_added:
  assumes "distinct (sourceIds st)" and "newId \<notin> set (sourceIds st)" and "find (matchesExistingSource d) (sources st) = None"
  shows "\<exists>y. fst (upsertMatrixSourceRecord newId now (sources st) d session e st) = newId
     \<and> getSource newId (snd (upsertMatrixSourceRecord newId now (sources st) d session e st)) = Some y
     \<and> record_of d y \<and> src_id y = newId \<and> src_accessToken y = map_option ms_accessToken session
     \<and> sourceIds (snd (upsertMatrixSourceRecord newId now (sources st) d session e st)) = sourceIds st @ [newId]"
proof -
  let ?r = "(source_record d session e True)\<lparr>src_ownerUserId := boundUserId st, src_id := newId, src_addedAt := now\<rparr>"
  have u: "upsertMatrixSourceRecord newId now (sources st) d session e st = (newId, addSource newId now (source_record d session e True) st)"
    using assms(3) by (simp add: upsertMatrixSourceRecord_def)
  have r: "sources (addSource newId now (source_record d session e True) st) = sources st @ [?r]"
    by (simp add: addSource_def source_record_def)
  have "find_by src_id newId (sources st @ [?r]) = Some ?r"
    using find_by_first[of src_id "sources st @ [?r]" ?r] assms(1,2) by (simp add: sourceIds_def)
  then show ?thesis using u r by (auto simp: getSource_def record_of_def source_record_def sourceIds_def)
qed

lemma own_names: "md_host d \<noteq> [] \<Longrightarrow> names_of d \<inter> names_of d \<noteq> {}"
  by (auto simp: names_of_def)








lemma getSource_update: "keeps_id p \<Longrightarrow> getSource i (updateSource i p st) = map_option (apply_patch p) (getSource i st)"
proof -
  assume k: "keeps_id p"
  have "find_by src_id i (update_by src_id i (apply_patch p) xs) = map_option (apply_patch p) (find_by src_id i xs)" for xs
    by (induction xs) (auto simp: update_by_def apply_patch_id[OF k])
  then show ?thesis by (simp add: getSource_def updateSource_def)
qed

text \<open>Starting single sign-on ends the session one has: the record of a connected homeserver is overwritten without a token
  before the page leaves for the sign-in, which may never come back.\<close>
lemma sso_start_drops_session:
  assumes "distinct (sourceIds (ad_store a))" and "find (matchesExistingSource d) (sources (ad_store a)) = Some x"
  shows "let a' = ssoModuleLoaded origin_of form_encode newId now d (sources (ad_store a)) (Inr redirectUrl) a
    in map_option src_accessToken (getSource (src_id x) (ad_store a')) = Some None"
proof -
  obtain st1 where "upsertMatrixSourceRecord newId now (sources (ad_store a)) d None None (ad_store a) = (src_id x, st1)"
    using upsert_found[OF assms, of newId now None None] by auto
  then show ?thesis using upsert_found[OF assms, of newId now None None] by (auto simp: ssoModuleLoaded_def Let_def)
qed

lemma pending_read_back:
  "pso_sourceId p \<noteq> [] \<Longrightarrow> pso_homeserverUrl p \<noteq> [] \<Longrightarrow> readPendingSourceSso (writePendingSourceSso p ss) = Some p"
proof -
  assume p: "pso_sourceId p \<noteq> []" "pso_homeserverUrl p \<noteq> []"
  let ?j = "JObj [(''sourceId'', JStr (pso_sourceId p)), (''homeserverUrl'', JStr (pso_homeserverUrl p))]"
  have "json_parse (stringify ?j) = Some ?j" by (rule parse_stringify) simp
  moreover have "stringify ?j \<noteq> []" using stringify_length[of ?j] by auto
  ultimately show ?thesis using p
    by (simp add: readPendingSourceSso_def writePendingSourceSso_def getItem_setItem text_of_def)
qed

text \<open>Single sign-on comes back to its source: when the page returns with a token that the homeserver takes, the source that
  was written when it left is connected with the new session, and the note about it is gone.\<close>
theorem sso_returns_to_source:
  assumes "distinct (sourceIds (ad_store a))" and "newId \<notin> set (sourceIds (ad_store a))"
    and "md_homeserverUrl d \<noteq> []" and "[] \<notin> set (newId # sourceIds (ad_store a))" and "token \<noteq> []" and "\<not> ad_resumed a"
  shows "let a1 = ssoModuleLoaded origin_of form_encode newId now d (sources (ad_store a)) (Inr redirectUrl) a;
      p = \<lparr>pso_sourceId = fst (upsertMatrixSourceRecord newId now (sources (ad_store a)) d None None (ad_store a)),
           pso_homeserverUrl = md_homeserverUrl d\<rparr>;
      a2 = resumeSso (Some token) a1; a3 = resumeAnswered p (Inr session) a2
    in WaitResume p \<in> set (ad_waits a2) \<and> ad_screen a2 = ScrValidating \<and> (\<exists>s. getSource (pso_sourceId p) (ad_store a3) = Some s
      \<and> src_homeserverUrl s = md_homeserverUrl d \<and> src_accessToken s = Some (ms_accessToken session) \<and> src_status s = Connected
      \<and> ad_added a3 = ad_added a + 1 \<and> readPendingSourceSso (ad_session a3) = None)"
proof -
  obtain i st1 where one: "upsertMatrixSourceRecord newId now (sources (ad_store a)) d None None (ad_store a) = (i, st1)" by fastforce
  obtain x where x: "getSource i st1 = Some x" "src_id x = i" "src_homeserverUrl x = md_homeserverUrl d" "i \<in> set (newId # sourceIds (ad_store a))"
  proof (cases "find (matchesExistingSource d) (sources (ad_store a))")
    case None
    then show ?thesis using upsert_added[OF assms(1,2) None, of now None None] that unfolding one by (auto simp: record_of_def)
  next
    case (Some y)
    then have "src_id y \<in> set (sourceIds (ad_store a))" using found_in[OF Some] by (simp add: sourceIds_def)
    then show ?thesis using upsert_found[OF assms(1) Some, of newId now None None] that unfolding one by (auto simp: record_of_def)
  qed
  then have "i \<noteq> []" using assms(4) by auto
  then have pend: "readPendingSourceSso (writePendingSourceSso \<lparr>pso_sourceId = i, pso_homeserverUrl = md_homeserverUrl d\<rparr> (ad_session a))
    = Some \<lparr>pso_sourceId = i, pso_homeserverUrl = md_homeserverUrl d\<rparr>" using pending_read_back assms(3) by simp
  let ?p = "[FAccessToken (Some (ms_accessToken session)), FUserId (Some (ms_userId session)), FDeviceId (Some (ms_deviceId session)),
     FAuthError None, FStatus Connected]"
  have "getSource i (updateSource i ?p st1) = Some (apply_patch ?p x)"
    using getSource_update[of ?p i st1] x(1) by (simp add: keeps_id_def)
  then show ?thesis using pend assms(5,6) x(3)
    by (simp add: ssoModuleLoaded_def one resumeSso_def resumeAnswered_def await_def Let_def report_added_def apply_patch_def
      clearPendingSourceSso_def readPendingSourceSso_def getItem_removeItem)
qed

section \<open>What the dialog adds\<close>



























text \<open>A host that keeps silent keeps the dialog: while it shows that it is connecting nothing the user does leads away, and nothing closes
  it; the fetches of the discovery have no time limit.\<close>
lemma silent_host_keeps_dialog:
  assumes "ad_open a" and "ad_screen a = ScrValidating" and "\<forall>w x i n. Answered w x i n \<notin> set es"
  shows "let a' = fold (add_step env) es a in ad_open a' \<and> ad_screen a' = ScrValidating"
proof -
  have "ad_open a \<and> ad_screen a = ScrValidating \<Longrightarrow> (\<forall>w x i n. Answered w x i n \<noteq> e) \<Longrightarrow>
    ad_open (add_step env e a) \<and> ad_screen (add_step env e a) = ScrValidating" for e a
    by (cases e) (auto simp: pressed_def resumeSso_def await_def split: option.splits)
  then show ?thesis using assms unfolding Let_def
    by (induction es arbitrary: a) auto
qed

text \<open>An instance added without an invite token is taken for the one the client came from: it belongs to nobody, so it stays
  in the list of whoever signs in next, and of nobody.\<close>
theorem open_instance_is_everybodys:
  assumes "trim token = []"
  shows "\<exists>s \<in> set (sources (bindToUser v (bindToUser w (ad_store (concordDiscovered newId now h token (Inr config) a))))).
    src_id s = newId \<and> src_host s = h \<and> src_ownerUserId s = None"
proof -
  define s where "s = (concord_record h token config)\<lparr>src_ownerUserId := boundUserId (ad_store a), src_id := newId, src_addedAt := now\<rparr>"
  have st: "sources (ad_store (concordDiscovered newId now h token (Inr config) a)) = sources (ad_store a) @ [s]"
    using assms by (simp add: concordDiscovered_def concordAdded_def report_added_def addSource_def s_def concord_record_def)
  have t: "trim [] = []" by (simp add: trim_def)
  have p: "isPrimarySource s" "src_id s = newId" "src_host s = h"
    using assms by (simp_all add: isPrimarySource_def s_def concord_record_def t)
  have keep: "y\<lparr>src_ownerUserId := None\<rparr> \<in> set (sources (bindToUser v z))" if "y \<in> set (sources z)" "isPrimarySource y" for y v z
    using that by (force simp: bindToUser_def bindSources_eq resolveOwnedSourceUserId_def)
  have "s\<lparr>src_ownerUserId := None\<rparr> \<in> set (sources (bindToUser w (ad_store (concordDiscovered newId now h token (Inr config) a))))"
    using keep p(1) st by simp
  then have "s\<lparr>src_ownerUserId := None\<rparr> \<in> set (sources (bindToUser v (bindToUser w (ad_store (concordDiscovered newId now h token (Inr config) a)))))"
    using keep[of "s\<lparr>src_ownerUserId := None\<rparr>"] p(1) by simp
  then show ?thesis using p by (intro bexI[of _ "s\<lparr>src_ownerUserId := None\<rparr>"]) simp_all
qed

text \<open>The address of a peer is dropped: the screen that pairs starts empty.\<close>
lemma peer_address_dropped:
  assumes "detectAddressKind cp mp i = ConcordP2p k t"
  shows "addressDetected (Inr (detectAddressKind cp mp i)) detail a = a\<lparr>ad_screen := ScrPairPeer, ad_phase := PhIdle\<rparr>"
  using assms by (simp add: addressDetected_def settle_def)

section \<open>The directory\<close>

lemma patch_platform: "src_platform (apply_patch p s) = src_platform s" if "list_all (\<lambda>f. case f of FPlatform _ \<Rightarrow> False | _ \<Rightarrow> True) p"
  using that unfolding apply_patch_def
proof (induction p arbitrary: s)
  case (Cons f p)
  then show ?case by (cases f) simp_all
qed simp

lemma changed_platform [simp]: "db_source (sourceChanged b) = db_source b"
  by (simp add: sourceChanged_def loadSourceDirectory_def Let_def)

lemma load_keeps_source [simp]: "db_source (loadSourceDirectory s b) = db_source b"
  by (simp add: loadSourceDirectory_def)

lemma load_sends:
  "db_underway (loadSourceDirectory s b) \<ge> db_underway b \<and> db_sent (loadSourceDirectory s b) \<ge> db_sent b"
  by (simp add: loadSourceDirectory_def db_underway_def)

lemma platform_kept: "src_platform (db_source (browse_step e b)) = src_platform (db_source b)"
  by (cases e) (simp_all add: source_patched_def Let_def patch_platform split: sum.splits)

definition answered :: "browse_event list \<Rightarrow> nat" where
  "answered es = length (filter (\<lambda>e. case e of DirectoryAnswered _ _ \<Rightarrow> True | _ \<Rightarrow> False) es)"

lemma underway_update [simp]:
  "db_underway (b\<lparr>db_rooms := rs\<rparr>) = db_underway b" "db_underway (b\<lparr>db_error := e\<rparr>) = db_underway b"
  "db_underway (b\<lparr>db_authRequired := r\<rparr>) = db_underway b" "db_underway (b\<lparr>db_flowsWaited := r\<rparr>) = db_underway b"
  "db_underway (b\<lparr>db_loading := r\<rparr>) = db_underway b"
  "db_underway (b\<lparr>db_source := x\<rparr>) = db_underway b"
  by (simp_all add: db_underway_def)

lemma changed_sends:
  "src_platform (db_source b) \<noteq> Some PReticulum \<Longrightarrow> db_underway (sourceChanged b) = db_underway b + 1 \<and> db_sent (sourceChanged b) = db_sent b + 1
    \<and> db_loading (sourceChanged b)"
  by (simp add: sourceChanged_def loadSourceDirectory_def db_underway_def Let_def)

lemma patched_sends:
  "src_platform (db_source b) \<noteq> Some PReticulum \<Longrightarrow> list_all (\<lambda>f. case f of FPlatform _ \<Rightarrow> False | _ \<Rightarrow> True) p \<Longrightarrow>
    db_underway (source_patched p b) = db_underway b + 1 \<and> db_sent (source_patched p b) = db_sent b + 1"
  using changed_sends[of "b\<lparr>db_source := apply_patch p (db_source b)\<rparr>"] patch_platform[of p "db_source b"] by (simp add: source_patched_def)

lemma browse_step_underway:
  assumes "src_platform (db_source b) \<noteq> Some PReticulum" and "db_underway b > 0"
  shows "db_underway (browse_step e b) > 0 \<and> db_sent (browse_step e b) \<ge> db_sent b + answered [e]"
proof (cases e)
  case (DirectoryAnswered n answer)
  then show ?thesis using assms by (cases answer) (simp_all add: answered_def Let_def patched_sends)
next
  case (FlowsAnswered answer)
  then show ?thesis using assms by (cases answer) (simp_all add: answered_def patched_sends)
next
  case Refresh
  then show ?thesis using assms load_sends[of b "db_source b"] by (auto simp: answered_def)
next
  case (BrowserLogin answer)
  have "db_underway (loadSourceDirectory s b') > 0 \<and> db_sent (loadSourceDirectory s b') \<ge> db_sent b"
    if "db_underway b' > 0" "db_sent b' \<ge> db_sent b" for s b' using load_sends[of b' s] that by linarith
  then show ?thesis using assms BrowserLogin by (cases answer) (simp_all add: answered_def patched_sends)
qed

text \<open>C40. An open directory never settles: every answer, also a refusal, is noted on the source, which makes a new object of it,
  which asks again; after any number of answers at least that many further requests were sent, and one is underway.\<close>
theorem directory_asks_forever:
  assumes "src_platform s \<noteq> Some PReticulum"
  shows "db_underway (fold browse_step es (browse s)) > 0 \<and> db_sent (fold browse_step es (browse s)) \<ge> 1 + answered es"
proof -
  have "src_platform (db_source b) \<noteq> Some PReticulum \<Longrightarrow> db_underway b > 0 \<Longrightarrow>
    db_underway (fold browse_step es b) > 0 \<and> db_sent (fold browse_step es b) \<ge> db_sent b + answered es" for b
  proof (induction es arbitrary: b)
    case (Cons e es)
    have "answered (e # es) = answered [e] + answered es" by (simp add: answered_def)
    then show ?case using Cons.IH[of "browse_step e b"] browse_step_underway[OF Cons.prems, of e] Cons.prems(1)
      by (simp add: platform_kept)
  qed (simp add: answered_def)
  moreover have "db_underway (browse s) = 1" "db_sent (browse s) = 1" "db_source (browse s) = s"
    using assms by (simp_all add: browse_def sourceChanged_def loadSourceDirectory_def db_underway_def Let_def)
  ultimately show ?thesis using assms by (metis less_numeral_extra(1))
qed

text \<open>The port of a server's name is lost: a room is joined through another server, a source with a port owns no server.\<close>
lemma join_loses_port:
  "joinTarget None s \<lparr>pr_room_id = ''!r:host:8448'', pr_alias = None, pr_name = None, pr_members = None\<rparr> = (''!r:host:8448'', Some ''host'')"
  by (simp add: joinTarget_def after_colon_def)

section \<open>At concrete inputs\<close>

definition sample_draft :: MatrixSourceDraft where
  "sample_draft = \<lparr>md_host = ''m.org'', md_instanceName = ''M'', md_apiBase = ''https://m.org/api'', md_homeserverUrl = ''https://m.org'',
     md_serverName = None, md_delegatedFrom = None, md_authFlows = [''password'', ''sso'']\<rparr>"

definition sample_session :: MatrixSession where
  "sample_session = \<lparr>ms_accessToken = ''t'', ms_userId = ''@u:m.org'', ms_deviceId = ''D''\<rparr>"

definition no_sources :: SourcesState where "no_sources = \<lparr>sources = [], boundUserId = None\<rparr>"



definition sample_dialog :: AddDialog where
  "sample_dialog = (openDialog None no_sources [])\<lparr>ad_screen := ScrMatrixAuth, ad_draft := Some sample_draft\<rparr>"

theorem sso_returns_to_source_witness:
  "ad_added (resumeAnswered \<lparr>pso_sourceId = ''src_1'', pso_homeserverUrl = ''https://m.org''\<rparr> (Inr sample_session) (resumeSso (Some ''tok'')
     (ssoModuleLoaded id id ''src_1'' ''now'' sample_draft [] (Inr ''https://c.org/'') sample_dialog))) = 1"
proof -
  have h: "distinct (sourceIds (ad_store sample_dialog))" "''src_1'' \<notin> set (sourceIds (ad_store sample_dialog))"
    "md_homeserverUrl sample_draft \<noteq> []" "[] \<notin> set (''src_1'' # sourceIds (ad_store sample_dialog))" "''tok'' \<noteq> []" "\<not> ad_resumed sample_dialog"
    by (simp_all add: sample_dialog_def openDialog_def sample_draft_def no_sources_def sourceIds_def)
  have n: "ad_added sample_dialog = 0" "sources (ad_store sample_dialog) = []" "md_homeserverUrl sample_draft = ''https://m.org''"
    by (simp_all add: sample_dialog_def openDialog_def no_sources_def sample_draft_def)
  have "fst (upsertMatrixSourceRecord ''src_1'' ''now'' [] sample_draft None None (ad_store sample_dialog)) = ''src_1''"
    by (simp add: upsertMatrixSourceRecord_def)
  then show ?thesis using sso_returns_to_source[OF h, of id id "''now''" "''https://c.org/''" sample_session] by (auto simp: Let_def n)
qed

text \<open>An address typed, detected as a homeserver, discovered and signed in to: the dialog has added its source.\<close>
definition sample_answers :: HostAnswers where
  "sample_answers = \<lparr>ha_matrix = sample_matrix, ha_concord = sample_concord, ha_element = NetworkError, ha_message = (\<lambda>_. ''no'')\<rparr>"

definition sample_config :: HomeserverConfig where
  "sample_config = projr (discovered split_url ''x.org'' sample_answers)"




theorem open_instance_is_everybodys_witness:
  "\<exists>s \<in> set (sources (bindToUser (Some ''@b'') (bindToUser (Some ''@a'') (ad_store (concordDiscovered ''src_1'' ''now'' ''x.org'' '' ''
      (Inr sample_config) sample_dialog))))). src_id s = ''src_1''"
proof -
  have "trim '' '' = []" by code_simp
  then show ?thesis
    using open_instance_is_everybodys[of "'' ''" "Some ''@b''" "Some ''@a''" "''src_1''" "''now''" "''x.org''" sample_config sample_dialog] by auto
qed

theorem directory_asks_forever_witness:
  "db_sent (fold browse_step [DirectoryAnswered 0 (Inr []), DirectoryAnswered 3 (Inl ''M_FORBIDDEN''), DirectoryAnswered 1 (Inr [])]
     (browse (source_record sample_draft None None True))) \<ge> 4"
  using directory_asks_forever[of "source_record sample_draft None None True"
      "[DirectoryAnswered 0 (Inr []), DirectoryAnswered 3 (Inl ''M_FORBIDDEN''), DirectoryAnswered 1 (Inr [])]"]
  by (simp add: source_record_def answered_def)

end
