(* ===== verification/Spec2Isabelle.thy ===== *)
theory Spec2Isabelle
  imports Watchdog ExtensionEmbed BrowserSurface Session ServerStore Porch Voice PeerCard Pairing PorchWire VoiceMesh Peers Fingerprint
    ChatWidgets Timeline MatrixSync Unread NoiseGate Discovery ExtensionSession Picker
    ConcordApi Devices MessageText BrowserNode SmallStores Settings Composer Updater Lifecycles
    Cards Shell AddSource
begin

text \<open>
  A verification library for the Concord client, the TypeScript application under \<open>src/client/src\<close>.

  The client keeps its state in a set of stores and talks to three outsides: a Matrix homeserver with the
  Concord API, other peers over libp2p streams, and sandboxed extension frames. The library follows that
  division. Every theory opens with what it takes from which file; source names are kept.

  \<^bold>\<open>Shared.\<close> \<open>Prelude\<close> has JavaScript's string and array operations on lists, and the contract
  \<open>keyed_patch\<close> of a store's record update. \<open>Json\<close> and \<open>JsonText\<close> have JSON values, \<open>JSON.stringify\<close>
  and \<open>JSON.parse\<close> with their round trip. \<open>Storage\<close> is the Web Storage contract and its interpretation on
  association lists. \<open>Codec\<close> has UTF-8, base64 and the contract \<open>text_codec\<close>.

  \<^bold>\<open>Session and servers.\<close> \<open>Sources\<close> is \<open>stores/sources.ts\<close>: the records of the instances the user
  is connected to, every action and the migrations of persisted states. \<open>Session\<close> puts
  \<open>stores/auth.ts\<close>, \<open>stores/serverConfig.ts\<close> and \<open>lib/disconnectSource.ts\<close> on top of it, over the
  local storage. \<open>ServerStore\<close> is \<open>stores/server.ts\<close>: loading, hydration of federated rooms,
  channels, selection. The lemmas show that ids stay distinct, that a login survives a restart, that the
  selection points into what is loaded, that the orphan cleanup is confined; and where an operation reaches
  further than it should.

  \<open>Discovery\<close> is \<open>lib/detectAddress.ts\<close> and \<open>api/wellKnown.ts\<close>: what kind of address was pasted, and
  the configuration a server's well-known documents resolve to; what it finds is secure and can be paired.
  \<open>Picker\<close> is the first-run screen \<open>components/auth/ServerPickerScreen.tsx\<close> over them, with the start of the
  embedded host (\<open>api/servitude.ts\<close>, \<open>api/hostingProfile.ts\<close>): every handler is a step of a transition
  relation, whose invariant says what can be committed; the polling loop is shown to end.

  \<^bold>\<open>Rooms.\<close> \<open>ChatWidgets\<close> is \<open>components/chat/chatWidgets.ts\<close>, \<open>Timeline\<close> and \<open>MatrixSync\<close> the hooks of
  \<open>hooks/useMatrix.ts\<close>: the messages a room's events amount to, with their edits, reactions and polls, the
  view of a room with its paging, sending, and the reaction to sync events. \<open>Unread\<close> is
  \<open>hooks/useUnreadCounts.ts\<close>. \<open>MessageText\<close> is \<open>components/chat/MessageContent.tsx\<close>: rich blocks,
  link previews and chart attachments. The extraction and the counts are shown equal to direct specifications over the
  list of events; lemmas about single edits, votes and receipts follow from them. \<open>Composer\<close> is
  \<open>components/chat/MessageInput.tsx\<close> with \<open>hooks/useTyping.ts\<close>: submissions split at their awaits, interleaved with what
  the user does meanwhile, and the typing notices.

  \<^bold>\<open>Smaller stores.\<close> \<open>SmallStores\<close> has toasts, direct messages, invites, names and identity (\<open>stores/toast.ts\<close>,
  \<open>dm.ts\<close>, \<open>directInvites.ts\<close>, \<open>homeServerName.ts\<close>, \<open>instanceName.ts\<close>, \<open>identity.ts\<close>). \<open>Settings\<close> has
  \<open>stores/settings.ts\<close>, the notifications it decides about (\<open>hooks/useNotifications.ts\<close>) and the message formats
  (\<open>stores/format.ts\<close>). \<open>Updater\<close> is \<open>lib/updater.ts\<close> over \<open>utils/version.ts\<close>, whose comparison is the linear order
  of a type of versions.

  \<^bold>\<open>The server's API.\<close> \<open>ConcordApi\<close> is \<open>api/concord.ts\<close> with \<open>api/serverUrl.ts\<close>: the base of the calls, the wrapper
  with its errors, and every endpoint as the request it makes. The ids in a path are shown to arrive whole.

  \<^bold>\<open>The shell.\<close> \<open>Shell\<close> is the state of \<open>components/layout/ChatLayout.tsx\<close>: the pages and tabs of both layouts, the
  settings overlay, which pane is shown, the rules gate, the sidebar's width and the last channel, with the taps of
  the two sidebars that drive it; one relation, with an invariant. \<open>AddSource\<close> is the dialog in the same
  file that adds a source, its handlers split at their awaits so that answers come in any order or never, the Matrix source
  records of \<open>components/sources/matrixSourceAuth.ts\<close> with single sign-on, and the room directory; \<open>api/matrix.ts\<close> is with it. \<open>Cards\<close> is \<open>hooks/useMatrixPeerCards.ts\<close> with the surfaces that show, post and
  scan peer cards (\<open>components/peers\<close>, \<open>components/pairing/GuestPairingScanner.tsx\<close>), the camera as a state machine.

  \<^bold>\<open>The device.\<close> \<open>Devices\<close> is \<open>hooks/usePlatform.ts\<close>, \<open>hooks/useDpadNav.ts\<close> and \<open>hooks/usePresence.ts\<close>: platform flags,
  arrow-key navigation (the nearest element by a geometry stated once for all directions), avatars and presence.

  \<^bold>\<open>Peers.\<close> \<open>Framing\<close> is the length-prefixed stream of \<open>libp2p/federation.ts\<close> with both ends of
  the Matrix round trip; its contract \<open>framed_channel\<close> is interpreted there and in \<open>VoiceMesh\<close>.
  \<open>PorchWire\<close> is \<open>libp2p/porch.ts\<close>, \<open>Porch\<close> the two porch stores whose requests it carries (answers are stored whichever visit is open by then),
  \<open>PeerCard\<close> and \<open>Pairing\<close> the link formats of \<open>lib/peerCard.ts\<close> and
  \<open>components/pairing/pairingSchema.ts\<close>. \<open>Peers\<close> is the list of paired peers
  (\<open>stores/peerStoreBrowser.ts\<close>, \<open>stores/peerStore.ts\<close>): its operations on stored JSON text refine
  those of a map. \<open>Fingerprint\<close> is \<open>libp2p/fingerprint.ts\<close>, base32 over a 32-bit register.
  \<open>BrowserNode\<close> is the node of a tab (\<open>libp2p/node.ts\<close>, \<open>identity.ts\<close>, \<open>lazyNode.ts\<close>, \<open>hooks/useBrowserLibp2p.ts\<close>)
  as one transition system, with any number of starts in its state: at most one node runs or is being created.

  \<^bold>\<open>Voice.\<close> \<open>Voice\<close> is the connection lock, the join flow as a state machine with one phase per
  await, the path selector and the persisted session; \<open>VoiceMesh\<close> the peer mesh and who owns its
  microphones and connections, under every interleaving of joins and leaves with a ledger of what a join loses; \<open>Watchdog\<close> the media health watchdog; \<open>NoiseGate\<close> is
  \<open>voice/noiseGate.ts\<close>, the gate as a function of the history of levels and the audio graph it switches. \<open>Lifecycles\<close> is
  \<open>hooks/useServitudeLifecycle.ts\<close>, \<open>useMutedSpeaking.ts\<close> and \<open>useVoiceNotifications.ts\<close>: the host that pauses with
  the window, and who holds the microphone that listens while muted.

  \<^bold>\<open>Extensions.\<close> \<open>InputRouter\<close>, \<open>Sdk\<close>, \<open>ExtensionEmbed\<close> and \<open>BrowserSurface\<close> are the permission
  tables, the message shapes, the two inbound handlers with the event bridge, and the frame allowlist.
  \<open>ExtensionSession\<close> is \<open>stores/extension.ts\<close> with \<open>hooks/useExtension.ts\<close>: sessions published as room
  state, read back by everybody, checked against the catalog.

  \<^bold>\<open>Concurrency.\<close> The client runs on one thread and interleaves at awaits. An operation is split where it
  awaits whenever what happens in between matters: the answers are events, the store is passed along, and
  reachability relations let the pieces interleave.

  \<^bold>\<open>Bounds and fuel.\<close> \<open>json_parse\<close> gives its recursive parser the length of the text plus one as fuel;
  every nested call has consumed a character, and the round trip \<open>parse_stringify\<close> shows it suffices for
  every printed value. The polling loop \<open>host_poll\<close> has no fuel: it is shown to return within 121 rounds when the clock of the
  rounds runs (\<open>clock_runs\<close>, timers do not fire early). The join flows are total functions with the number of remaining phases as measure.
  The envelope caps are the source's 16 MiB and 1 MiB; lengths are 32-bit words on the wire.

  \<^bold>\<open>Not modelled.\<close> Text is Latin-1 (emojis are their UTF-8 bytes), numbers are integers, in \<open>NoiseGate\<close> exact
  reals. Code outside the repository (URL parser, Matrix
  SDK, LiveKit, libp2p node, browser media) is an argument or an event. The React components are markup and
  wiring over the stores, apart from the ones named above; the modules of \<open>api/\<close> not named above forward requests. The native shell, the server and the tvOS app are
  other languages.
\<close>

text \<open>C15. Pairing by code: when one side shows the code of a well-formed card and the other scans it and adds
  what it decoded, the peer is listed from then on; with access when it is new, and when it was known with the
  source, first date and access it had, the new addresses behind the old ones.\<close>
theorem scanned_peer_is_listed:
  assumes "card_ok c" and "card_fits c" and "writable env"
  shows "\<exists>c' env'. decodeFromQrPayload (encodeToQrPayload c) = Some (Inr c')
    \<and> addBrowserPeerFromCard c' Qr now env = (Inr (paired c Qr now (peer_map env (peerId c))), env')
    \<and> peer_map env' = (peer_map env)(peerId c := Some (clean (paired c Qr now (peer_map env (peerId c)))))"
  using scanned_card_decodes[OF assms(1)] run_op_add[OF assms(3,2), of Qr now]
  by (intro exI[of _ c] exI[of _ "snd (addBrowserPeerFromCard c Qr now env)"]) (auto simp: prod_eq_iff)

definition sample_env :: BrowserEnv where
  "sample_env = \<lparr>be_storage = Some [], be_denied = None\<rparr>"

definition shown_card :: peer_card where
  "shown_card = \<lparr>peerId = ''12D3'', publicKeyHex = replicate 64 CHR ''a'', multiaddrs = [''/ip4/10.0.0.1'']\<rparr>"

theorem scanned_peer_is_listed_witness:
  "map_option kp_accessGranted (peer_map (snd (addBrowserPeerFromCard shown_card Qr ''t'' sample_env)) ''12D3'') = Some True"
proof -
  have ok: "card_ok shown_card" "card_fits shown_card" by code_simp+
  have w: "writable sample_env" by (simp add: writable_def sample_env_def)
  have n: "peer_map sample_env ''12D3'' = None" by (simp add: peer_map_def listBrowserPeers_def getItem_def sample_env_def)
  show ?thesis
    using scanned_peer_is_listed[OF ok w, of "''t''"] n scanned_card_decodes[OF ok(1)]
    by (auto simp: shown_card_def paired_def clean_def)
qed

end
